(* ===== verification/Prelude.thy ===== *)
theory Prelude
  imports Main "HOL-Library.Word"
begin

text \<open>
  Prelude of the enqcc development: the types shared by every component and the generic
  lemmas on lists that the component proofs use.

  \<^item> \<open>check_iff\<close> collects the equations that take a sequence of \<open>check\<close> steps apart;
  \<^item> \<open>consumption\<close> collects the "this pass only consumes input" facts.
\<close>

named_theorems check_iff \<open>inversion of early-return sequencing\<close>
named_theorems consumption \<open>a routine returns a suffix of its input\<close>

type_synonym u64 = "64 word"

text \<open>
  \<open>long long int\<close> counters (symbol IDs, label IDs) and the parser's \<open>int128_t\<close> numbers
  are \<open>int\<close>; values whose width matters are words. A C \<open>double\<close> is represented by its
  64 bits.
\<close>

type_synonym double = "64 word"

definition INT_MAX :: int where "INT_MAX = 2147483647"
definition INT_MIN :: int where "INT_MIN = -2147483648"
definition UINT_MAX :: int where "UINT_MAX = 4294967295"
definition LLONG_MAX :: int where "LLONG_MAX = 9223372036854775807"
definition LLONG_MIN :: int where "LLONG_MIN = -9223372036854775808"
definition ULLONG_MAX :: int where "ULLONG_MAX = 18446744073709551615"

lemmas limit_defs = INT_MAX_def INT_MIN_def UINT_MAX_def LLONG_MAX_def LLONG_MIN_def ULLONG_MAX_def

section \<open>Suffixes of the input\<close>

text \<open>\<open>sfx ys xs\<close>: \<open>ys\<close> is what remains of \<open>xs\<close> after consuming a prefix.\<close>

definition sfx :: "'a list \<Rightarrow> 'a list \<Rightarrow> bool" where
  "sfx ys xs \<longleftrightarrow> (\<exists>zs. xs = zs @ ys)"

lemma sfx_refl [simp, intro]: "sfx xs xs"
  by (simp add: sfx_def)

lemma sfx_trans [trans]: "sfx zs ys \<Longrightarrow> sfx ys xs \<Longrightarrow> sfx zs xs"
  by (auto simp: sfx_def)

lemma sfx_Cons [intro]: "sfx ys xs \<Longrightarrow> sfx ys (x # xs)"
  by (auto simp: sfx_def)

lemma sfx_ConsD: "sfx (y # ys) xs \<Longrightarrow> sfx ys xs"
  by (auto simp: sfx_def)

lemma sfx_tl [simp, intro]: "sfx (tl xs) xs"
  by (cases xs) auto

lemma sfx_tlI: "sfx ys (tl xs) \<Longrightarrow> sfx ys xs"
  by (rule sfx_trans) auto

lemma sfx_tl_left: "sfx ys xs \<Longrightarrow> sfx (tl ys) xs"
  by (rule sfx_trans) auto

lemma sfx_length: "sfx ys xs \<Longrightarrow> length ys \<le> length xs"
  by (auto simp: sfx_def)

lemma sfx_Nil [simp]: "sfx [] xs"
  by (simp add: sfx_def)

lemma sfx_of_Nil [simp]: "sfx ys [] \<longleftrightarrow> ys = []"
  by (auto simp: sfx_def)

lemma sfx_drop [simp, intro]: "sfx (drop n xs) xs"
  by (metis append_take_drop_id sfx_def)

lemma sfx_set: "sfx ys xs \<Longrightarrow> set ys \<subseteq> set xs"
  by (auto simp: sfx_def)

section \<open>Bounds of a list of integers\<close>

lemma foldl_max_ge: "(m::int) \<le> foldl max m xs"
  by (induction xs arbitrary: m) (auto intro: order_trans [OF max.cobounded1])

lemma foldl_max_upper: "x \<in> set xs \<Longrightarrow> (x::int) \<le> foldl max m xs"
proof (induction xs arbitrary: m)
  case (Cons y ys)
  show ?case
  proof (cases "x = y")
    case True
    have "x \<le> max m y" using True by simp
    also have "\<dots> \<le> foldl max (max m y) ys" by (rule foldl_max_ge)
    finally show ?thesis by simp
  next
    case False
    with Cons show ?thesis by simp
  qed
qed simp

lemma foldl_max_mem: "foldl max (m::int) xs = m \<or> foldl max m xs \<in> set xs"
proof (induction xs arbitrary: m)
  case (Cons y ys)
  have "max m y = m \<or> max m y = y" by (auto simp: max_def)
  with Cons [of "max m y"] show ?case by auto
qed simp

end
