(* ===== verification/Result.thy ===== *)
theory Result
  imports Prelude
begin

text \<open>
  \<^verbatim>\<open>include/result.h\<close> and \<^verbatim>\<open>src/result.c\<close>: the result type every pass returns.

  A C function that returns \<^verbatim>\<open>result_t\<close> and writes its output through a pointer is modelled
  as a function into \<open>'a result\<close>: \<open>Inl\<close> is an error return, \<open>Inr\<close> the output on
  \<^verbatim>\<open>RESULT_OK\<close>. The macro \<^verbatim>\<open>check(expr)\<close> is the function \<open>check\<close>: it returns the error
  of \<open>expr\<close> at once, or goes on with its output. A failed \<^verbatim>\<open>assert()\<close> (and a memory access
  the source does not guard) stops the program and is the failure \<open>Abort\<close>. \<open>NoFuel\<close> belongs
  to the model alone: it is the value of a recursive routine whose recursion budget ran
  out, and each such routine has a theorem saying which budget is enough.
\<close>

text \<open>
  The error codes, in the order of the enumeration. They are grouped by the prefix of
  their name, one enumeration per group, because a single one of 122 constants is slow to
  define; \<open>err\<close> is the whole enumeration.
\<close>

datatype err_other =
    ERR_CODEGEN_ALLOC | ERR_EMIT_FILE_OPEN | ERR_EMIT_ALLOC | ERR_IR_ALLOC
  | ERR_IR_EXPECT_AST_NODE_EXPRESSION | ERR_SYMBOL_ALLOC | ERR_CTYPE_ALLOC

datatype err_lex =
    ERR_LEX_OPEN_SOURCE_FILE | ERR_LEX_ALLOC | ERR_LEX_CHAR_ESCAPE_INVALID
  | ERR_LEX_CHAR_EXPECT_MORE | ERR_LEX_CHAR_INVALID_EMPTY | ERR_LEX_CHAR_INVALID_MULTICHAR
  | ERR_LEX_CHAR_INVALID_NEWLINE | ERR_LEX_FLOAT_EXPONENT_NO_DIGITS | ERR_LEX_NO_MATCH
  | ERR_LEX_IDENTIFIER_CONSTANT_KEYWORD_PEEK_ERROR

datatype err_parse =
    ERR_PARSE_ALLOC | ERR_PARSE_CALL_EXPECT_TOKEN_PAREN_CLOSE | ERR_PARSE_CASE_EXPECT_CONSTANT
  | ERR_PARSE_CASE_EXPECT_COLON | ERR_PARSE_CAST_EXPECT_TOKEN_PAREN_CLOSE
  | ERR_PARSE_CONSTANT_STRTOD | ERR_PARSE_CONSTANT_STRTOULL | ERR_PARSE_CONSTANT_TOO_LARGE
  | ERR_PARSE_EXPR_EXPECT_TOKEN_PAREN_CLOSE | ERR_PARSE_EXPR_EXPECT_TOKEN_SQ_BRACKET_CLOSE
  | ERR_PARSE_EXPR_EXPECT_COLON_IN_TERNARY_OP | ERR_PARSE_EXPR_EXPECT_REASONABLE
  | ERR_PARSE_FUNC_EXPECT_TOKEN_PAREN_OPEN | ERR_PARSE_FUNC_EXPECT_TOKEN_PAREN_CLOSE
  | ERR_PARSE_FUNC_EXPECT_TOKEN_SEMICOLON_OR_BRACE_OPEN | ERR_PARSE_FUNC_EXPECT_TOKEN_BRACE_OPEN
  | ERR_PARSE_FUNC_EXPECT_TOKEN_BRACE_CLOSE | ERR_PARSE_IF_ELSE_EXPECT_TOKEN_PAREN_OPEN
  | ERR_PARSE_IF_ELSE_EXPECT_TOKEN_PAREN_CLOSE | ERR_PARSE_LOOP_EXPECT_TOKEN_PAREN_OPEN
  | ERR_PARSE_LOOP_EXPECT_TOKEN_PAREN_CLOSE | ERR_PARSE_LOOP_EXPECT_TOKEN_SEMICOLON
  | ERR_PARSE_LOOP_EXPECT_TOKEN_WHILE | ERR_PARSE_SIZEOF_EXPECT_TOKEN_PAREN_CLOSE
  | ERR_PARSE_STMT_EXPECT_TOKEN_SEMICOLON | ERR_PARSE_SWITCH_EXPECT_TOKEN_PAREN_OPEN
  | ERR_PARSE_SWITCH_EXPECT_TOKEN_PAREN_CLOSE

datatype err_parse_decl =
    ERR_PARSE_DECL_ATOM_ARRAY_SIZE_FLOATING_POINT | ERR_PARSE_DECL_ATOM_ARRAY_SIZE_NON_CONSTANT
  | ERR_PARSE_DECL_ATOM_ARRAY_SIZE_NON_POSITIVE | ERR_PARSE_DECL_ATOM_EARLY_SUBSCRIPT
  | ERR_PARSE_DECL_ATOM_EXPECT_PAREN_CLOSE | ERR_PARSE_DECL_ATOM_EXPECT_SQ_BRACKET_CLOSE
  | ERR_PARSE_DECL_ATOM_FUNC_PTR_UNSUPPORTED | ERR_PARSE_DECL_ATOM_PARAMS_EXPECT_PAREN_CLOSE
  | ERR_PARSE_DECL_ATOM_PARAMS_NESTING | ERR_PARSE_DECL_ATOM_PARENS_INVALID
  | ERR_PARSE_DECL_ATOM_POINTER_AFTER_PARENS | ERR_PARSE_DECL_EXPECT_BRACE_CLOSE
  | ERR_PARSE_DECL_EXPECT_TYPE | ERR_PARSE_DECL_EXPECT_TOKEN_SEMICOLON
  | ERR_PARSE_DECL_IDENTIFIER_MISSING | ERR_PARSE_DECL_IDENTIFIER_UNEXPECTED
  | ERR_PARSE_DECL_SPECIFIER_DUPLICATE | ERR_PARSE_DECL_TYPE_ARRAY_INCOMPLETE
  | ERR_PARSE_DECL_TYPE_CHAR_INVALID | ERR_PARSE_DECL_TYPE_DOUBLE_INVALID
  | ERR_PARSE_DECL_TYPE_DUPLICATE | ERR_PARSE_DECL_TYPE_VOID_INVALID
  | ERR_PARSE_DECL_TYPE_VOID_PARAM_TYPE | ERR_PARSE_DECL_TYPE_VOID_VAR_TYPE

datatype err_sema =
    ERR_SEMA_ALLOC | ERR_SEMA_BREAK_OUTSIDE | ERR_SEMA_CASE_DEFAULT_DUPLICATE
  | ERR_SEMA_CASE_DEFAULT_OUTSIDE | ERR_SEMA_CASE_DUPLICATE | ERR_SEMA_CASE_OUTSIDE
  | ERR_SEMA_CAST_TO_ARRAY_TYPE_INVALID | ERR_SEMA_CONTINUE_OUTSIDE
  | ERR_SEMA_GOTO_NONEXISTENT_LABEL | ERR_SEMA_INIT_COMPOUND_EMPTY
  | ERR_SEMA_INIT_COMPOUND_EXCESS_ELEMENTS | ERR_SEMA_INIT_SCALAR_WITH_COMPOUND
  | ERR_SEMA_INIT_STR_LITERAL_INVALID | ERR_SEMA_LABEL_DUPLICATE
  | ERR_SEMA_LABEL_FOLLOWED_BY_DECLARATION | ERR_SEMA_LABEL_AT_BLOCK_END
  | ERR_SEMA_FUNCTION_CALL_UNCALLABLE | ERR_SEMA_FUNCTION_CALL_UNDECLARED
  | ERR_SEMA_FUNCTION_CALL_WRONG_NUMBER_OF_ARGS | ERR_SEMA_FUNCTION_DEFINITION_CONFLICT
  | ERR_SEMA_FUNCTION_DEFINITION_DUPLICATE | ERR_SEMA_FUNCTION_DEFINITION_NESTED
  | ERR_SEMA_FUNCTION_DEFINITION_PARAM_DUPLICATE | ERR_SEMA_FUNCTION_LINKAGE_BLOCK_SCOPE
  | ERR_SEMA_FUNCTION_LINKAGE_CONFLICT | ERR_SEMA_FUNCTION_RETURN_TYPE_ARRAY
  | ERR_SEMA_RETURN_STATEMENT_EXPECT_VALUE | ERR_SEMA_RETURN_STATEMENT_EXPECT_VOID

datatype err_sema_operand =
    ERR_SEMA_OPERAND_ADD_POINTER_BOTH | ERR_SEMA_OPERAND_ADD_POINTER_VOID
  | ERR_SEMA_OPERAND_ADDRESS_OF_INVALID | ERR_SEMA_OPERAND_CHAR_ARRAY_SIZE
  | ERR_SEMA_OPERAND_DEREF_INVALID | ERR_SEMA_OPERAND_DEREF_VOID_PTR
  | ERR_SEMA_OPERAND_DOUBLE_INVALID | ERR_SEMA_OPERAND_POINTER_CONFLICT
  | ERR_SEMA_OPERAND_POINTER_INVALID | ERR_SEMA_OPERAND_POINTER_LHS_VS_NOT_RHS
  | ERR_SEMA_OPERAND_POINTER_RHS_VS_NOT_LHS | ERR_SEMA_OPERAND_SCALAR_REQUIRED
  | ERR_SEMA_OPERAND_SIZEOF_INCOMPLETE | ERR_SEMA_VARIABLE_DECLARATION_BAD_LVALUE
  | ERR_SEMA_VARIABLE_DECLARATION_BAD_LVALUE_ARRAY | ERR_SEMA_VARIABLE_DECLARATION_DUPLICATE
  | ERR_SEMA_VARIABLE_DECLARATION_EXTERN_INIT | ERR_SEMA_VARIABLE_DECLARATION_EXTERN_MISMATCH
  | ERR_SEMA_VARIABLE_DECLARATION_FILESCOPE_DUPLICATE
  | ERR_SEMA_VARIABLE_DECLARATION_FILESCOPE_INIT
  | ERR_SEMA_VARIABLE_DECLARATION_FILESCOPE_LINKAGE
  | ERR_SEMA_VARIABLE_DECLARATION_FILESCOPE_MISMATCH
  | ERR_SEMA_VARIABLE_DECLARATION_INVALID_FUNC | ERR_SEMA_VARIABLE_DECLARATION_STATIC_INIT
  | ERR_SEMA_VARIABLE_DECLARATION_TYPE_CONFLICT | ERR_SEMA_VARIABLE_USAGE_WITHOUT_DECLARATION

datatype err =
    Other err_other
  | Lex err_lex
  | Parse err_parse
  | Parse_decl err_parse_decl
  | Sema err_sema
  | Sema_operand err_sema_operand

text \<open>
  The value built by \<^verbatim>\<open>make_result()\<close>: an error code, an int (zero when the caller
  gives none) and a message (\<open>None\<close> for the null pointer).
\<close>

datatype failure =
    Error (err_of: err) (num_of: int) (msg_of: "string option")
  | Abort
  | NoFuel

type_synonym 'a result = "failure + 'a"

definition make_result_t :: "err \<Rightarrow> 'a result" where
  "make_result_t typ = Inl (Error typ 0 None)"

definition make_result_ti :: "err \<Rightarrow> int \<Rightarrow> 'a result" where
  "make_result_ti typ num = Inl (Error typ num None)"

definition make_result_tss :: "err \<Rightarrow> string \<Rightarrow> 'a result" where
  "make_result_tss typ msg = Inl (Error typ 0 (Some msg))"

definition make_result_tiss :: "err \<Rightarrow> int \<Rightarrow> string \<Rightarrow> 'a result" where
  "make_result_tiss typ num msg = Inl (Error typ num (Some msg))"

lemmas make_result_defs =
  make_result_t_def make_result_ti_def make_result_tss_def make_result_tiss_def

definition check :: "'a result \<Rightarrow> ('a \<Rightarrow> 'b result) \<Rightarrow> 'b result" where
  "check m k = (case m of Inl e \<Rightarrow> Inl e | Inr x \<Rightarrow> k x)"

definition assert_that :: "bool \<Rightarrow> 'a result \<Rightarrow> 'a result" where
  "assert_that b k = (if b then k else Inl Abort)"

lemma check_simps [simp]:
  "check (Inl e) k = Inl e"
  "check (Inr x) k = k x"
  by (simp_all add: check_def)

lemma check_Inr_iff [check_iff]:
  "check m k = Inr y \<longleftrightarrow> (\<exists>x. m = Inr x \<and> k x = Inr y)"
  by (cases m) auto

lemma check_Inl_iff [check_iff]:
  "check m k = Inl e \<longleftrightarrow> m = Inl e \<or> (\<exists>x. m = Inr x \<and> k x = Inl e)"
  by (cases m) auto

lemma check_cong [fundef_cong]:
  "m = m' \<Longrightarrow> (\<And>x. m' = Inr x \<Longrightarrow> k x = k' x) \<Longrightarrow> check m k = check m' k'"
  by (cases m') auto

lemma check_assoc: "check (check m k) h = check m (\<lambda>x. check (k x) h)"
  by (cases m) auto

lemma assert_that_True [simp]: "assert_that True k = k"
  by (simp add: assert_that_def)

lemma assert_that_False [simp]: "assert_that False k = Inl Abort"
  by (simp add: assert_that_def)

lemma assert_Inr_iff [check_iff]: "assert_that b k = Inr y \<longleftrightarrow> b \<and> k = Inr y"
  by (simp add: assert_that_def)

lemma assert_Inl_iff [check_iff]:
  "assert_that b k = Inl e \<longleftrightarrow> (b \<and> k = Inl e) \<or> (\<not> b \<and> e = Abort)"
  by (auto simp: assert_that_def)

lemma make_result_not_Inr [simp]:
  "make_result_t t \<noteq> Inr y"
  "make_result_ti t i \<noteq> Inr y"
  "make_result_tss t s \<noteq> Inr y"
  "make_result_tiss t i s \<noteq> Inr y"
  by (simp_all add: make_result_defs)

lemma make_result_not_NoFuel [simp]:
  "make_result_t t \<noteq> Inl NoFuel"
  "make_result_ti t i \<noteq> Inl NoFuel"
  "make_result_tss t s \<noteq> Inl NoFuel"
  "make_result_tiss t i s \<noteq> Inl NoFuel"
  by (simp_all add: make_result_defs)

end
