(* ===== verification/Decimal.thy ===== *)
theory Decimal
  imports Prelude
begin

text \<open>
  Characters and decimal numerals: the classes of \<^verbatim>\<open><ctype.h>\<close> in the C locale (the lexer
  and the constant parser use them) and the numerals that \<^verbatim>\<open>printf("%lld")\<close> writes.
\<close>

definition code :: "char \<Rightarrow> nat" where "code c = of_char c"

definition isdigit :: "char \<Rightarrow> bool" where
  "isdigit c = (48 \<le> code c \<and> code c \<le> 57)"

definition isupper :: "char \<Rightarrow> bool" where
  "isupper c = (65 \<le> code c \<and> code c \<le> 90)"

definition islower :: "char \<Rightarrow> bool" where
  "islower c = (97 \<le> code c \<and> code c \<le> 122)"

definition isalpha :: "char \<Rightarrow> bool" where
  "isalpha c = (isupper c \<or> islower c)"

definition isalnum :: "char \<Rightarrow> bool" where
  "isalnum c = (isalpha c \<or> isdigit c)"

definition isspace :: "char \<Rightarrow> bool" where
  "isspace c = (code c = 32 \<or> (9 \<le> code c \<and> code c \<le> 13))"

definition toupper :: "char \<Rightarrow> char" where
  "toupper c = (if islower c then char_of (code c - 32) else c)"

lemmas ctype_char_defs =
  code_def isdigit_def isupper_def islower_def isalpha_def isalnum_def isspace_def

lemma char_class_disjoint:
  "isdigit c \<Longrightarrow> \<not> isalpha c" "isspace c \<Longrightarrow> \<not> isalnum c"
  by (auto simp: ctype_char_defs)

section \<open>Decimal numerals\<close>

definition digit_char :: "nat \<Rightarrow> char" where
  "digit_char d = char_of (48 + d)"

definition digit_value :: "char \<Rightarrow> nat" where
  "digit_value c = code c - 48"

fun nat_decimal :: "nat \<Rightarrow> string" where
  "nat_decimal n =
     (if n < 10 then [digit_char n] else nat_decimal (n div 10) @ [digit_char (n mod 10)])"

declare nat_decimal.simps [simp del]

text \<open>The text of \<^verbatim>\<open>printf("%lld", i)\<close>.\<close>

definition int_decimal :: "int \<Rightarrow> string" where
  "int_decimal i = (if i < 0 then CHR ''-'' # nat_decimal (nat (- i)) else nat_decimal (nat i))"

definition decimal_value :: "string \<Rightarrow> nat" where
  "decimal_value s = foldl (\<lambda>n c. 10 * n + digit_value c) 0 s"

lemma code_digit_char: "d < 10 \<Longrightarrow> code (digit_char d) = 48 + d"
  by (simp add: code_def digit_char_def take_bit_nat_eq_self)

lemma digit_char_digit [simp]: "d < 10 \<Longrightarrow> isdigit (digit_char d)"
  by (simp add: isdigit_def code_digit_char)

lemma digit_value_char [simp]: "d < 10 \<Longrightarrow> digit_value (digit_char d) = d"
  by (simp add: digit_value_def code_digit_char)

lemma nat_decimal_digits: "c \<in> set (nat_decimal n) \<Longrightarrow> isdigit c"
proof (induction n rule: nat_decimal.induct)
  case (1 n)
  then show ?case
    by (subst (asm) nat_decimal.simps) (auto split: if_splits)
qed

lemma nat_decimal_nonempty [simp]: "nat_decimal n \<noteq> []"
  by (subst nat_decimal.simps) simp

lemma decimal_value_snoc: "decimal_value (s @ [c]) = 10 * decimal_value s + digit_value c"
  by (simp add: decimal_value_def)

lemma decimal_roundtrip: "decimal_value (nat_decimal n) = n"
proof (induction n rule: nat_decimal.induct)
  case (1 n)
  show ?case
  proof (cases "n < 10")
    case True
    then show ?thesis by (simp add: nat_decimal.simps decimal_value_def)
  next
    case False
    with 1 have "decimal_value (nat_decimal n) = 10 * (n div 10) + n mod 10"
      by (subst nat_decimal.simps) (simp add: decimal_value_snoc)
    then show ?thesis by simp
  qed
qed

lemma nat_decimal_inj [simp]: "nat_decimal m = nat_decimal n \<longleftrightarrow> m = n"
  by (metis decimal_roundtrip)

lemma minus_not_digit [simp]: "\<not> isdigit (CHR ''-'')"
  by (simp add: isdigit_def code_def)

lemma int_decimal_chars: "c \<in> set (int_decimal i) \<Longrightarrow> isdigit c \<or> c = CHR ''-''"
  by (auto simp: int_decimal_def dest: nat_decimal_digits split: if_splits)

lemma nat_decimal_no_minus: "nat_decimal n \<noteq> CHR ''-'' # s"
  by (metis list.set_intros(1) minus_not_digit nat_decimal_digits)

lemma int_decimal_inj [simp]: "int_decimal i = int_decimal j \<longleftrightarrow> i = j"
  using nat_decimal_no_minus nat_decimal_no_minus [symmetric] by (auto simp: int_decimal_def)

end
