(* ===== verification/Lex.thy ===== *)
theory Lex
  imports Result Decimal
begin

text \<open>
  \<^verbatim>\<open>src/passes/lex.h\<close> and \<^verbatim>\<open>src/passes/lex.c\<close>: the lexer.

  The source text is a \<open>string\<close>. A \<^verbatim>\<open>struct string_view\<close> that walks over it (\<^verbatim>\<open>pos\<close>) is
  the rest of the text, so advancing \<^verbatim>\<open>data\<close> and shrinking \<^verbatim>\<open>sz\<close> is taking the tail. The
  lexer sometimes looks at \<^verbatim>\<open>*pos->data\<close> where \<^verbatim>\<open>pos->sz\<close> is zero; the mapped file is
  followed by zero bytes up to the end of its page, and \<open>peek\<close> reads NUL there.
  The linked list of tokens is a list. \<^verbatim>\<open>enum lex_tokentype\<close> is one datatype whose
  keywords, single characters and longer operators are grouped as the source's
  \<^verbatim>\<open>FOREACH_LEX_*\<close> tables group them.
\<close>

datatype lex_keyword =
    TOKEN_KEYWORD_RETURN | TOKEN_KEYWORD_SIZEOF | TOKEN_KEYWORD_VOID | TOKEN_KEYWORD_CHAR
  | TOKEN_KEYWORD_INT | TOKEN_KEYWORD_LONG | TOKEN_KEYWORD_SIGNED | TOKEN_KEYWORD_UNSIGNED
  | TOKEN_KEYWORD_DOUBLE | TOKEN_KEYWORD_IF | TOKEN_KEYWORD_ELSE | TOKEN_KEYWORD_DO
  | TOKEN_KEYWORD_WHILE | TOKEN_KEYWORD_FOR | TOKEN_KEYWORD_BREAK | TOKEN_KEYWORD_CONTINUE
  | TOKEN_KEYWORD_STATIC | TOKEN_KEYWORD_EXTERN | TOKEN_KEYWORD_GOTO | TOKEN_KEYWORD_SWITCH
  | TOKEN_KEYWORD_CASE | TOKEN_KEYWORD_DEFAULT

datatype lex_char =
    TOKEN_PAREN_OPEN | TOKEN_PAREN_CLOSE | TOKEN_BRACE_OPEN | TOKEN_BRACE_CLOSE
  | TOKEN_SQUARE_BRACKET_OPEN | TOKEN_SQUARE_BRACKET_CLOSE | TOKEN_SEMICOLON | TOKEN_TILDE
  | TOKEN_HYPHEN | TOKEN_PLUS_SIGN | TOKEN_ASTERISK | TOKEN_FORWARD_SLASH | TOKEN_PERCENT_SIGN
  | TOKEN_EXCLAMATION | TOKEN_AMPERSAND | TOKEN_VERT_BAR | TOKEN_EQUAL_SIGN | TOKEN_LESS_THAN
  | TOKEN_MORE_THAN | TOKEN_QUESTION | TOKEN_COLON | TOKEN_COMMA | TOKEN_CARET

datatype lex_multi =
    TOKEN_HYPHEN_HYPHEN | TOKEN_PLUS_SIGN_PLUS_SIGN | TOKEN_AMPERSAND_AMPERSAND
  | TOKEN_VERT_BAR_VERT_BAR | TOKEN_EQUAL_SIGN_EQUAL_SIGN | TOKEN_LESS_THAN_LESS_THAN
  | TOKEN_MORE_THAN_MORE_THAN | TOKEN_HYPHEN_EQUAL_SIGN | TOKEN_PLUS_SIGN_EQUAL_SIGN
  | TOKEN_ASTERISK_EQUAL_SIGN | TOKEN_FORWARD_SLASH_EQUAL_SIGN | TOKEN_PERCENT_SIGN_EQUAL_SIGN
  | TOKEN_EXCLAMATION_EQUAL_SIGN | TOKEN_AMPERSAND_EQUAL_SIGN | TOKEN_VERT_BAR_EQUAL_SIGN
  | TOKEN_LESS_THAN_EQUAL_SIGN | TOKEN_MORE_THAN_EQUAL_SIGN | TOKEN_CARET_EQUAL_SIGN
  | TOKEN_LESS_THAN_LESS_THAN_EQUAL_SIGN | TOKEN_MORE_THAN_MORE_THAN_EQUAL_SIGN

datatype lex_tokentype =
    TOKEN_IDENTIFIER
  | TOKEN_CONSTANT
  | TOKEN_CONSTANT_CHAR
  | TOKEN_CONSTANT_STR
  | Keyword lex_keyword
  | Char lex_char
  | Multi lex_multi

record token =
  token_type :: lex_tokentype
  val :: string

definition FOREACH_LEX_KEYWORD :: "(string \<times> lex_keyword) list" where
  "FOREACH_LEX_KEYWORD = [
     (''return'', TOKEN_KEYWORD_RETURN), (''sizeof'', TOKEN_KEYWORD_SIZEOF), (''void'', TOKEN_KEYWORD_VOID),
     (''char'', TOKEN_KEYWORD_CHAR), (''int'', TOKEN_KEYWORD_INT), (''long'', TOKEN_KEYWORD_LONG),
     (''signed'', TOKEN_KEYWORD_SIGNED), (''unsigned'', TOKEN_KEYWORD_UNSIGNED), (''double'', TOKEN_KEYWORD_DOUBLE),
     (''if'', TOKEN_KEYWORD_IF), (''else'', TOKEN_KEYWORD_ELSE), (''do'', TOKEN_KEYWORD_DO),
     (''while'', TOKEN_KEYWORD_WHILE), (''for'', TOKEN_KEYWORD_FOR), (''break'', TOKEN_KEYWORD_BREAK),
     (''continue'', TOKEN_KEYWORD_CONTINUE), (''static'', TOKEN_KEYWORD_STATIC), (''extern'', TOKEN_KEYWORD_EXTERN),
     (''goto'', TOKEN_KEYWORD_GOTO), (''switch'', TOKEN_KEYWORD_SWITCH), (''case'', TOKEN_KEYWORD_CASE),
     (''default'', TOKEN_KEYWORD_DEFAULT)]"

definition FOREACH_LEX_CHAR :: "(char \<times> lex_char) list" where
  "FOREACH_LEX_CHAR = [
     (CHR ''('', TOKEN_PAREN_OPEN), (CHR '')'', TOKEN_PAREN_CLOSE), (CHR ''{'', TOKEN_BRACE_OPEN),
     (CHR ''}'', TOKEN_BRACE_CLOSE), (CHR ''['', TOKEN_SQUARE_BRACKET_OPEN), (CHR '']'', TOKEN_SQUARE_BRACKET_CLOSE),
     (CHR '';'', TOKEN_SEMICOLON), (CHR ''~'', TOKEN_TILDE), (CHR ''-'', TOKEN_HYPHEN),
     (CHR ''+'', TOKEN_PLUS_SIGN), (CHR ''*'', TOKEN_ASTERISK), (CHR ''/'', TOKEN_FORWARD_SLASH),
     (CHR ''%'', TOKEN_PERCENT_SIGN), (CHR ''!'', TOKEN_EXCLAMATION), (CHR ''&'', TOKEN_AMPERSAND),
     (CHR ''|'', TOKEN_VERT_BAR), (CHR ''='', TOKEN_EQUAL_SIGN), (CHR ''<'', TOKEN_LESS_THAN),
     (CHR ''>'', TOKEN_MORE_THAN), (CHR ''?'', TOKEN_QUESTION), (CHR '':'', TOKEN_COLON),
     (CHR '','', TOKEN_COMMA), (CHR ''^'', TOKEN_CARET)]"

definition FOREACH_LEX_CHAR_REPEAT :: "(lex_char \<times> lex_multi) list" where
  "FOREACH_LEX_CHAR_REPEAT = [
     (TOKEN_HYPHEN, TOKEN_HYPHEN_HYPHEN), (TOKEN_PLUS_SIGN, TOKEN_PLUS_SIGN_PLUS_SIGN),
     (TOKEN_AMPERSAND, TOKEN_AMPERSAND_AMPERSAND), (TOKEN_VERT_BAR, TOKEN_VERT_BAR_VERT_BAR),
     (TOKEN_EQUAL_SIGN, TOKEN_EQUAL_SIGN_EQUAL_SIGN), (TOKEN_LESS_THAN, TOKEN_LESS_THAN_LESS_THAN),
     (TOKEN_MORE_THAN, TOKEN_MORE_THAN_MORE_THAN)]"

definition FOREACH_LEX_CHAR_EQUALS_SIGN :: "(lex_char \<times> lex_multi) list" where
  "FOREACH_LEX_CHAR_EQUALS_SIGN = [
     (TOKEN_HYPHEN, TOKEN_HYPHEN_EQUAL_SIGN), (TOKEN_PLUS_SIGN, TOKEN_PLUS_SIGN_EQUAL_SIGN),
     (TOKEN_ASTERISK, TOKEN_ASTERISK_EQUAL_SIGN), (TOKEN_FORWARD_SLASH, TOKEN_FORWARD_SLASH_EQUAL_SIGN),
     (TOKEN_PERCENT_SIGN, TOKEN_PERCENT_SIGN_EQUAL_SIGN), (TOKEN_EXCLAMATION, TOKEN_EXCLAMATION_EQUAL_SIGN),
     (TOKEN_AMPERSAND, TOKEN_AMPERSAND_EQUAL_SIGN), (TOKEN_VERT_BAR, TOKEN_VERT_BAR_EQUAL_SIGN),
     (TOKEN_LESS_THAN, TOKEN_LESS_THAN_EQUAL_SIGN), (TOKEN_MORE_THAN, TOKEN_MORE_THAN_EQUAL_SIGN),
     (TOKEN_CARET, TOKEN_CARET_EQUAL_SIGN)]"

definition NUL :: char where "NUL = CHR 0x00"

definition peek :: "string \<Rightarrow> char" where
  "peek pos = (case pos of [] \<Rightarrow> NUL | c # _ \<Rightarrow> c)"

text \<open>A plain \<^verbatim>\<open>char\<close> is signed.\<close>

definition char_value :: "char \<Rightarrow> int" where
  "char_value c = (if code c < 128 then int (code c) else int (code c) - 256)"

text \<open>The text between the position \<open>start\<close> and a later position \<open>pos\<close> in it.\<close>

definition span :: "string \<Rightarrow> string \<Rightarrow> string" where
  "span start pos = take (length start - length pos) start"

text \<open>
  On success the source moves \<^verbatim>\<open>pos\<close> one back, because its caller moves it one forward
  for every kind of token; the two cancel out, and the model does neither.
\<close>

definition lex_peek_ok :: "string \<Rightarrow> string \<Rightarrow> unit result" where
  "lex_peek_ok pos prefix =
     (let c = peek pos;
          ok = isspace c \<or> c \<in> fst ` set FOREACH_LEX_CHAR
      in if \<not> ok
         then make_result_tiss (Lex ERR_LEX_IDENTIFIER_CONSTANT_KEYWORD_PEEK_ERROR)
                (char_value c) prefix
         else Inr ())"

definition lex_readahead_one_or_two_chars ::
  "string \<Rightarrow> lex_char \<Rightarrow> lex_tokentype \<times> nat" where
  "lex_readahead_one_or_two_chars pos cur =
     (case pos of
        c0 # c1 # rest \<Rightarrow>
          (if c0 = c1 then
             (case map_of FOREACH_LEX_CHAR_REPEAT cur of
                None \<Rightarrow> (Char cur, 0)
              | Some t \<Rightarrow>
                  (if rest \<noteq> [] \<and> hd rest = CHR ''='' then
                     (if t = TOKEN_LESS_THAN_LESS_THAN
                      then (Multi TOKEN_LESS_THAN_LESS_THAN_EQUAL_SIGN, 2)
                      else if t = TOKEN_MORE_THAN_MORE_THAN
                      then (Multi TOKEN_MORE_THAN_MORE_THAN_EQUAL_SIGN, 2)
                      else (Multi t, 1))
                   else (Multi t, 1)))
           else if c1 = CHR ''='' then
             (case map_of FOREACH_LEX_CHAR_EQUALS_SIGN cur of
                None \<Rightarrow> (Char cur, 0)
              | Some t \<Rightarrow> (Multi t, 1))
           else (Char cur, 0))
      | _ \<Rightarrow> (Char cur, 0))"

definition lex_one_token_keyword_maybe :: "string \<Rightarrow> lex_tokentype" where
  "lex_one_token_keyword_maybe str =
     (case map_of FOREACH_LEX_KEYWORD str of
        None \<Rightarrow> TOKEN_IDENTIFIER
      | Some k \<Rightarrow> Keyword k)"

section \<open>Numeric constants\<close>

definition DECIMAL_POINT :: char where "DECIMAL_POINT = CHR ''.''"
definition E_NOTATION_CHAR :: char where "E_NOTATION_CHAR = CHR ''E''"

definition isdot :: "char \<Rightarrow> bool" where "isdot c = (c = DECIMAL_POINT)"

definition issign :: "char \<Rightarrow> bool" where "issign c = (c = CHR ''+'' \<or> c = CHR ''-'')"

record lex_sep_state =
  sep :: char
  found :: bool
  allow_sign_span :: nat
  needs_digit :: bool

definition sep_chars_init :: "lex_sep_state list" where
  "sep_chars_init =
     [\<lparr>sep = DECIMAL_POINT, found = False, allow_sign_span = 0, needs_digit = False\<rparr>,
      \<lparr>sep = E_NOTATION_CHAR, found = False, allow_sign_span = 2, needs_digit = True\<rparr>]"

definition lex_one_constant_numeric_finalize ::
  "string \<Rightarrow> string \<Rightarrow> lex_sep_state list \<Rightarrow> (string \<times> token) result" where
  "lex_one_constant_numeric_finalize start pos sep_chars =
     (let found_sep = list_ex found sep_chars;
          malformed = list_ex (\<lambda>s. found s \<and> needs_digit s) sep_chars
      in if found_sep \<and> malformed
         then make_result_tss (Lex ERR_LEX_FLOAT_EXPONENT_NO_DIGITS) (span start pos)
         else
           let pos' =
             (if found_sep then pos
              else if toupper (peek pos) = CHR ''L'' then
                (if toupper (peek (tl pos)) = CHR ''U'' then tl (tl pos) else tl pos)
              else if toupper (peek pos) = CHR ''U'' then
                (if toupper (peek (tl pos)) = CHR ''L'' then tl (tl pos) else tl pos)
              else pos)
           in Inr (pos', \<lparr>token_type = TOKEN_CONSTANT, val = span start pos'\<rparr>))"

text \<open>
  The search for a separator that \<open>c\<close> spells: the first one with that character counts,
  and only the first time it is seen. The result has the updated array, the index
  \<^verbatim>\<open>sep_latest\<close> points to and \<^verbatim>\<open>newly_found_sep\<close>.
\<close>

fun lex_sep_find :: "char \<Rightarrow> lex_sep_state list \<Rightarrow> nat \<Rightarrow> nat option" where
  "lex_sep_find c [] i = None"
| "lex_sep_find c (s # ss) i = (if sep s = toupper c then Some i else lex_sep_find c ss (Suc i))"

definition lex_sep_scan ::
  "char \<Rightarrow> lex_sep_state list \<Rightarrow> nat option \<Rightarrow> lex_sep_state list \<times> nat option \<times> bool" where
  "lex_sep_scan c sep_chars sep_latest =
     (case lex_sep_find c sep_chars 0 of
        None \<Rightarrow> (sep_chars, sep_latest, False)
      | Some i \<Rightarrow>
          (if found (sep_chars ! i) then (sep_chars, sep_latest, False)
           else (sep_chars[i := (sep_chars ! i)\<lparr>found := True\<rparr>], Some i, True)))"

text \<open>The bookkeeping for a character that is consumed.\<close>

definition lex_sep_consume :: "char \<Rightarrow> lex_sep_state list \<Rightarrow> nat option \<Rightarrow> lex_sep_state list" where
  "lex_sep_consume c sep_chars sep_latest =
     (case sep_latest of
        None \<Rightarrow> sep_chars
      | Some i \<Rightarrow>
          sep_chars[i := (sep_chars ! i)
            \<lparr>allow_sign_span := allow_sign_span (sep_chars ! i) - 1,
             needs_digit := (if isdigit c then False else needs_digit (sep_chars ! i))\<rparr>])"

fun lex_numeric_loop ::
  "string \<Rightarrow> lex_sep_state list \<Rightarrow> nat option \<Rightarrow> string \<times> lex_sep_state list" where
  "lex_numeric_loop [] sep_chars sep_latest = ([], sep_chars)"
| "lex_numeric_loop (c # pos) sep_chars sep_latest =
     (case lex_sep_scan c sep_chars sep_latest of (sep_chars', sep_latest', newly_found_sep) \<Rightarrow>
        (if isdigit c \<or> newly_found_sep \<or>
            (issign c \<and> (case sep_latest' of None \<Rightarrow> False
                          | Some i \<Rightarrow> 0 < allow_sign_span (sep_chars' ! i)))
         then lex_numeric_loop pos (lex_sep_consume c sep_chars' sep_latest') sep_latest'
         else (c # pos, sep_chars')))"

definition lex_one_constant_numeric :: "string \<Rightarrow> (string \<times> token) result" where
  "lex_one_constant_numeric start =
     assert_that (isdigit (peek start) \<or> isdot (peek start))
       (case lex_numeric_loop start sep_chars_init None of (pos, sep_chars) \<Rightarrow>
          lex_one_constant_numeric_finalize start pos sep_chars)"

section \<open>Character and string literals\<close>

definition is_quote_single :: "char \<Rightarrow> bool" where "is_quote_single c = (c = CHR 0x27)"
definition is_quote_double :: "char \<Rightarrow> bool" where "is_quote_double c = (c = CHR 0x22)"

definition is_delimiter :: "lex_tokentype \<Rightarrow> char \<Rightarrow> bool" where
  "is_delimiter tt c =
     ((tt = TOKEN_CONSTANT_CHAR \<and> is_quote_single c) \<or>
      (tt = TOKEN_CONSTANT_STR \<and> is_quote_double c))"

definition is_newline :: "char \<Rightarrow> bool" where "is_newline c = (c = CHR 0x0A)"
definition is_backslash :: "char \<Rightarrow> bool" where "is_backslash c = (c = CHR 0x5C)"

text \<open>NUL signals an error to the caller.\<close>

definition map_escape_char :: "char \<Rightarrow> char" where
  "map_escape_char c =
     (if c = CHR 0x27 then CHR 0x27
      else if c = CHR 0x22 then CHR 0x22
      else if c = CHR ''?'' then CHR ''?''
      else if c = CHR 0x5C then CHR 0x5C
      else if c = CHR ''a'' then CHR 0x07
      else if c = CHR ''b'' then CHR 0x08
      else if c = CHR ''f'' then CHR 0x0C
      else if c = CHR ''n'' then CHR 0x0A
      else if c = CHR ''r'' then CHR 0x0D
      else if c = CHR ''t'' then CHR 0x09
      else if c = CHR ''v'' then CHR 0x0B
      else NUL)"

definition is_valid_escape_char :: "char \<Rightarrow> bool" where
  "is_valid_escape_char c = (map_escape_char c \<noteq> NUL)"

text \<open>The loop of \<^verbatim>\<open>map_span_to_strlike()\<close>, with its two flags.\<close>

fun map_span_loop :: "lex_tokentype \<Rightarrow> bool \<Rightarrow> bool \<Rightarrow> string \<Rightarrow> string result" where
  "map_span_loop tt escaped between_neighbors [] =
     assert_that (\<not> escaped) (assert_that (\<not> between_neighbors) (Inr []))"
| "map_span_loop tt escaped between_neighbors (c # src) =
     (if between_neighbors then
        (if is_delimiter tt c then map_span_loop tt escaped False src
         else assert_that (isspace c) (map_span_loop tt escaped between_neighbors src))
      else if escaped then
        check (map_span_loop tt False between_neighbors src) (\<lambda>out. Inr (map_escape_char c # out))
      else if is_delimiter tt c then map_span_loop tt escaped True src
      else if is_backslash c then map_span_loop tt True between_neighbors src
      else check (map_span_loop tt escaped between_neighbors src) (\<lambda>out. Inr (c # out)))"

definition map_span_to_strlike :: "lex_tokentype \<Rightarrow> string \<Rightarrow> string result" where
  "map_span_to_strlike tt src = map_span_loop tt False False src"

definition lex_one_strlike_check_size :: "string \<Rightarrow> lex_tokentype \<Rightarrow> unit result" where
  "lex_one_strlike_check_size v tt =
     (if tt = TOKEN_CONSTANT_CHAR then
        (if length v = 0 then make_result_t (Lex ERR_LEX_CHAR_INVALID_EMPTY)
         else if length v = 1 then Inr ()
         else make_result_t (Lex ERR_LEX_CHAR_INVALID_MULTICHAR))
      else Inr ())"

text \<open>
  The search behind a closing delimiter for a neighbour to merge with: the index of the
  delimiter that opens it, if only white space stands in between.
\<close>

fun lex_merge_scan :: "lex_tokentype \<Rightarrow> string \<Rightarrow> nat \<Rightarrow> nat option" where
  "lex_merge_scan tt [] i = None"
| "lex_merge_scan tt (c # cs) i =
     (if isspace c then lex_merge_scan tt cs (Suc i)
      else if is_delimiter tt c then Some i
      else None)"

text \<open>
  The main loop of \<^verbatim>\<open>lex_one_strlike()\<close>: \<open>n\<close> is \<^verbatim>\<open>cur->val.sz\<close>, and the result is the
  position of the final delimiter, \<^verbatim>\<open>cur->val.sz\<close> and the flag \<^verbatim>\<open>deepcopy\<close>.
\<close>

function lex_strlike_loop ::
  "lex_tokentype \<Rightarrow> string \<Rightarrow> string \<Rightarrow> nat \<Rightarrow> bool \<Rightarrow> (string \<times> nat \<times> bool) result" where
  "lex_strlike_loop tt start pos n deepcopy =
     (case pos of
        [] \<Rightarrow> make_result_t (Lex ERR_LEX_CHAR_EXPECT_MORE)
      | c # rest \<Rightarrow>
          (if is_delimiter tt c then
             (case lex_merge_scan tt rest 1 of
                None \<Rightarrow> Inr (pos, n, deepcopy)
              | Some i \<Rightarrow> lex_strlike_loop tt start (drop (i + 1) pos) (n + (i + 1)) True)
           else if is_newline c then make_result_t (Lex ERR_LEX_CHAR_INVALID_NEWLINE)
           else if is_backslash c then
             (if \<not> is_valid_escape_char (peek rest)
              then make_result_tss (Lex ERR_LEX_CHAR_ESCAPE_INVALID) (take (n + 1 + 1) start)
              else lex_strlike_loop tt start (tl rest) (n + 1 + 1) True)
           else lex_strlike_loop tt start rest (n + 1) deepcopy))"
  by pat_completeness auto
termination
  by (relation "measure (\<lambda>(tt, start, pos, n, d). length pos)") auto

declare lex_strlike_loop.simps [simp del]

definition lex_one_strlike ::
  "string \<Rightarrow> lex_tokentype \<Rightarrow> (string \<times> token) result" where
  "lex_one_strlike pos tt =
     (let start = tl pos in
      check (lex_strlike_loop tt start start 0 False) (\<lambda>(pos', n, deepcopy).
      let raw = take n start in
      check (if deepcopy then map_span_to_strlike tt raw else Inr raw) (\<lambda>v.
      check (lex_one_strlike_check_size v tt) (\<lambda>_.
      Inr (pos', \<lparr>token_type = tt, val = v\<rparr>)))))"

section \<open>Tokens\<close>

definition ident_char :: "char \<Rightarrow> bool" where
  "ident_char c = (isalnum c \<or> c = CHR ''_'')"

text \<open>
  One token from the start of a non-empty text. The increment at the end of the source's
  function appears in the branches where \<open>lex_peek_ok\<close> does not cancel it.
\<close>

definition lex_one_token :: "string \<Rightarrow> (string \<times> token) result" where
  "lex_one_token pos =
     (let c = peek pos in
      case map_of FOREACH_LEX_CHAR c of
        Some t \<Rightarrow>
          (case lex_readahead_one_or_two_chars pos t of (tt, ahead) \<Rightarrow>
             Inr (tl (drop ahead pos), \<lparr>token_type = tt, val = []\<rparr>))
      | None \<Rightarrow>
          (if is_quote_single c then
             check (lex_one_strlike pos TOKEN_CONSTANT_CHAR) (\<lambda>(pos', t). Inr (tl pos', t))
           else if is_quote_double c then
             check (lex_one_strlike pos TOKEN_CONSTANT_STR) (\<lambda>(pos', t). Inr (tl pos', t))
           else if isdigit c \<or> isdot c then
             check (lex_one_constant_numeric pos) (\<lambda>(pos', t).
             check (lex_peek_ok pos' (val t)) (\<lambda>_. Inr (pos', t)))
           else if isalpha c \<or> c = CHR ''_'' then
             (let pos' = dropWhile ident_char (tl pos);
                  v = span pos pos'
              in check (lex_peek_ok pos' v) (\<lambda>_.
                 Inr (pos', \<lparr>token_type = lex_one_token_keyword_maybe v, val = v\<rparr>)))
           else make_result_tss (Lex ERR_LEX_NO_MATCH) pos))"

section \<open>Every token consumes text\<close>

lemma lex_numeric_loop_sfx: "sfx (fst (lex_numeric_loop pos seps latest)) pos"
  by (induction pos seps latest rule: lex_numeric_loop.induct) (auto split: prod.splits)

lemma finalize_sfx:
  "lex_one_constant_numeric_finalize start pos seps = Inr (pos', t) \<Longrightarrow> sfx pos' pos"
  by (auto simp: lex_one_constant_numeric_finalize_def Let_def intro: sfx_tlI split: if_splits)

lemma lex_numeric_loop_first:
  assumes "isdigit c \<or> isdot c"
  shows "sfx (fst (lex_numeric_loop (c # pos) sep_chars_init None)) pos"
proof -
  have "isdigit c \<or> snd (snd (lex_sep_scan c sep_chars_init None))"
    using assms by (auto simp: isdot_def lex_sep_scan_def sep_chars_init_def toupper_def
        islower_def DECIMAL_POINT_def E_NOTATION_CHAR_def code_def)
  then show ?thesis
    using lex_numeric_loop_sfx by (auto split: prod.splits)
qed

lemma lex_one_constant_numeric_sfx:
  assumes "lex_one_constant_numeric pos = Inr (pos', t)"
  shows "sfx pos' (tl pos)"
proof -
  obtain c r where pos: "pos = c # r" and c: "isdigit c \<or> isdot c"
    using assms by (cases pos)
      (auto simp: lex_one_constant_numeric_def check_iff peek_def NUL_def isdot_def
        DECIMAL_POINT_def isdigit_def code_def)
  obtain q seps where q: "lex_numeric_loop pos sep_chars_init None = (q, seps)" by fastforce
  have "sfx q r" using lex_numeric_loop_first [OF c, of r] q pos by simp
  moreover have "sfx pos' q"
    using assms q by (auto simp: lex_one_constant_numeric_def check_iff dest: finalize_sfx)
  ultimately show ?thesis using pos sfx_trans by auto
qed

lemmas lex_strlike_loop_Nil = lex_strlike_loop.simps [of tt start "[]" for tt start, simplified]
lemmas lex_strlike_loop_Cons =
  lex_strlike_loop.simps [of tt start "c # rest" for tt start c rest, simplified]

lemma lex_strlike_loop_sfx:
  "lex_strlike_loop tt start pos n d = Inr (pos', n', d') \<Longrightarrow> sfx pos' pos"
proof (induction tt start pos n d rule: lex_strlike_loop.induct)
  case (1 tt start pos n d)
  show ?case
  proof (cases pos)
    case Nil
    with 1 show ?thesis by (simp add: lex_strlike_loop_Nil)
  next
    case (Cons c rest)
    note IH = 1(1-3) [OF Cons] and eq = 1(4) [unfolded Cons lex_strlike_loop_Cons]
    consider i where "is_delimiter tt c" "lex_merge_scan tt rest (Suc 0) = Some i"
      | "is_delimiter tt c" "lex_merge_scan tt rest (Suc 0) = None"
      | "\<not> is_delimiter tt c" "is_backslash c" | "\<not> is_delimiter tt c" "\<not> is_backslash c"
      by fastforce
    then have "sfx pos' rest \<or> pos' = pos"
    proof cases
      case 1
      then have "sfx pos' (drop (i + 1) pos)" using IH(1) eq Cons by simp
      then show ?thesis using Cons sfx_trans [of pos' "drop i rest" rest] by simp
    next
      case 3
      then have "sfx pos' (tl rest)" using IH(2) eq by (auto split: if_splits)
      then show ?thesis by (auto intro: sfx_tlI)
    next
      case 4
      then show ?thesis using IH(3) eq by (auto split: if_splits)
    qed (use eq Cons in auto)
    then show ?thesis using Cons by auto
  qed
qed

lemma lex_one_token_sfx:
  assumes "lex_one_token pos = Inr (pos', t)"
  shows "pos \<noteq> [] \<and> sfx pos' (tl pos)"
proof (cases pos)
  case Nil
  then show ?thesis using assms
    by (auto simp: lex_one_token_def peek_def NUL_def FOREACH_LEX_CHAR_def Let_def
        is_quote_single_def is_quote_double_def isdigit_def isdot_def DECIMAL_POINT_def
        isalpha_def isupper_def islower_def code_def)
next
  case (Cons c r)
  have str: "sfx pos'' r" if "lex_one_strlike (c # r) tt = Inr (pos'', t')" for tt pos'' t'
    using that
    by (auto simp: lex_one_strlike_def Let_def check_iff dest: lex_strlike_loop_sfx)
  have num: "sfx pos'' r" if "lex_one_constant_numeric (c # r) = Inr (pos'', t')" for pos'' t'
    using lex_one_constant_numeric_sfx [OF that] by simp
  have id: "sfx (dropWhile ident_char r) r"
    by (metis dropWhile_eq_drop sfx_drop)
  show ?thesis
    using assms Cons id
    by (auto simp: lex_one_token_def Let_def check_iff drop_Cons' tl_drop drop_Suc
        dest!: str num intro: sfx_tlI sfx_tl_left split: option.splits prod.splits if_splits)
qed

lemma lex_one_token_shorter:
  "lex_one_token pos = Inr (pos', t) \<Longrightarrow> length pos' < length pos"
  by (cases pos) (auto dest!: lex_one_token_sfx sfx_length)

text \<open>The loop of \<^verbatim>\<open>lex_init()\<close>.\<close>

function lex_loop :: "string \<Rightarrow> token list result" where
  "lex_loop src =
     (if src = [] then Inr []
      else if isspace (hd src) then lex_loop (tl src)
      else check (lex_one_token src) (\<lambda>(src', t).
           check (lex_loop src') (\<lambda>toks. Inr (t # toks))))"
  by pat_completeness auto
termination
  by (relation "measure length") (auto dest: lex_one_token_shorter)

declare lex_loop.simps [simp del]

text \<open>
  \<^verbatim>\<open>lex_init()\<close> on a file with the given content. \<^verbatim>\<open>open()\<close> and \<^verbatim>\<open>fstat()\<close> are taken to
  succeed; \<^verbatim>\<open>mmap()\<close> of an empty file fails with \<^verbatim>\<open>EINVAL\<close>.
\<close>

definition EINVAL :: int where "EINVAL = 22"

definition lex_init :: "string \<Rightarrow> token list result" where
  "lex_init content =
     (if content = [] then make_result_ti (Lex ERR_LEX_OPEN_SOURCE_FILE) EINVAL
      else lex_loop content)"

end
