(* ===== verification/LexFacts.thy ===== *)
theory LexFacts
  imports Lex
begin

text \<open>
  What the lexer promises: operators by longest match, identifiers, keywords and numbers as
  exact slices of the text, and literals with their escapes undone and their neighbours merged.
\<close>

section \<open>The spelling of a token\<close>

fun multi_text :: "lex_multi \<Rightarrow> string" where
  "multi_text TOKEN_HYPHEN_HYPHEN = ''--''"
| "multi_text TOKEN_PLUS_SIGN_PLUS_SIGN = ''++''"
| "multi_text TOKEN_AMPERSAND_AMPERSAND = ''&&''"
| "multi_text TOKEN_VERT_BAR_VERT_BAR = ''||''"
| "multi_text TOKEN_EQUAL_SIGN_EQUAL_SIGN = ''==''"
| "multi_text TOKEN_LESS_THAN_LESS_THAN = ''<<''"
| "multi_text TOKEN_MORE_THAN_MORE_THAN = ''>>''"
| "multi_text TOKEN_HYPHEN_EQUAL_SIGN = ''-=''"
| "multi_text TOKEN_PLUS_SIGN_EQUAL_SIGN = ''+=''"
| "multi_text TOKEN_ASTERISK_EQUAL_SIGN = ''*=''"
| "multi_text TOKEN_FORWARD_SLASH_EQUAL_SIGN = ''/=''"
| "multi_text TOKEN_PERCENT_SIGN_EQUAL_SIGN = ''%=''"
| "multi_text TOKEN_EXCLAMATION_EQUAL_SIGN = ''!=''"
| "multi_text TOKEN_AMPERSAND_EQUAL_SIGN = ''&=''"
| "multi_text TOKEN_VERT_BAR_EQUAL_SIGN = ''|=''"
| "multi_text TOKEN_LESS_THAN_EQUAL_SIGN = ''<=''"
| "multi_text TOKEN_MORE_THAN_EQUAL_SIGN = ''>=''"
| "multi_text TOKEN_CARET_EQUAL_SIGN = ''^=''"
| "multi_text TOKEN_LESS_THAN_LESS_THAN_EQUAL_SIGN = ''<<=''"
| "multi_text TOKEN_MORE_THAN_MORE_THAN_EQUAL_SIGN = ''>>=''"

definition char_text :: "lex_char \<Rightarrow> string" where
  "char_text t = [the (map_of (map prod.swap FOREACH_LEX_CHAR) t)]"

definition keyword_text :: "lex_keyword \<Rightarrow> string" where
  "keyword_text k = the (map_of (map prod.swap FOREACH_LEX_KEYWORD) k)"

text \<open>The text of an operator or punctuator; \<open>None\<close> for the other tokens.\<close>

fun operator_text :: "lex_tokentype \<Rightarrow> string option" where
  "operator_text (Char t) = Some (char_text t)"
| "operator_text (Multi m) = Some (multi_text m)"
| "operator_text _ = None"

lemmas lex_tables =
  FOREACH_LEX_CHAR_def FOREACH_LEX_CHAR_REPEAT_def FOREACH_LEX_CHAR_EQUALS_SIGN_def

lemma lex_one_token_operator:
  "map_of FOREACH_LEX_CHAR c = Some t \<Longrightarrow>
     lex_one_token (c # r) =
       (case lex_readahead_one_or_two_chars (c # r) t of (tt, ahead) \<Rightarrow>
          Inr (drop ahead r, \<lparr>token_type = tt, val = []\<rparr>))"
  by (simp add: lex_one_token_def peek_def tl_drop [symmetric] drop_Suc [symmetric] Let_def
      split: prod.split) (simp add: drop_Suc tl_drop)

lemma map_of_chars_text: "map_of FOREACH_LEX_CHAR c = Some t \<Longrightarrow> char_text t = [c]"
  by (auto simp: FOREACH_LEX_CHAR_def char_text_def split: if_splits)

lemma readahead_text:
  assumes "map_of FOREACH_LEX_CHAR c = Some t"
    and "lex_readahead_one_or_two_chars (c # r) t = (tt, ahead)"
  shows "\<exists>s. operator_text tt = Some s \<and> c # r = s @ drop ahead r \<and> length s = Suc ahead"
proof (cases r)
  case Nil
  then show ?thesis
    using assms map_of_chars_text [OF assms(1)] by (auto simp: lex_readahead_one_or_two_chars_def)
next
  case (Cons c1 r1)
  show ?thesis
  proof (cases "c1 = c \<or> c1 = CHR ''=''")
    case False
    then show ?thesis
      using assms Cons map_of_chars_text [OF assms(1)]
      by (auto simp: lex_readahead_one_or_two_chars_def)
  next
    case True
    have "(c, t) \<in> set FOREACH_LEX_CHAR" using assms(1) by (rule map_of_SomeD)
    then show ?thesis
      using assms(2) True unfolding Cons
      by (cases r1)
        (auto simp: FOREACH_LEX_CHAR_def FOREACH_LEX_CHAR_REPEAT_def char_text_def
          FOREACH_LEX_CHAR_EQUALS_SIGN_def lex_readahead_one_or_two_chars_def
          split: if_splits)
  qed
qed

text \<open>The token of every operator text that starts the input is at least as long as that text.\<close>

lemma multi_readahead:
  "\<exists>t. map_of FOREACH_LEX_CHAR (hd (multi_text m)) = Some t \<and>
     length (multi_text m) \<le> Suc (snd (lex_readahead_one_or_two_chars (multi_text m @ r) t))"
  by (cases m) (simp_all add: lex_readahead_one_or_two_chars_def lex_tables)

lemma multi_text_Cons: "multi_text m = hd (multi_text m) # tl (multi_text m)"
  by (cases m) simp_all

lemma multi_at_least:
  assumes "lex_one_token (multi_text m @ r) = Inr (pos', t)"
  shows "\<exists>s. operator_text (token_type t) = Some s \<and> length (multi_text m) \<le> length s"
proof -
  let ?c = "hd (multi_text m)" and ?r = "tl (multi_text m) @ r"
  have eq: "multi_text m @ r = ?c # ?r" by (metis append_Cons multi_text_Cons)
  obtain t0 where t0: "map_of FOREACH_LEX_CHAR ?c = Some t0"
    and len: "length (multi_text m) \<le> Suc (snd (lex_readahead_one_or_two_chars (?c # ?r) t0))"
    using multi_readahead [of m r] eq by auto
  obtain tt ahead where ra: "lex_readahead_one_or_two_chars (?c # ?r) t0 = (tt, ahead)"
    by fastforce
  have "token_type t = tt"
    using assms unfolding eq lex_one_token_operator [OF t0] ra by auto
  then show ?thesis using readahead_text [OF t0 ra] len ra by auto
qed

lemma token_of_finalize:
  "lex_one_constant_numeric_finalize start pos seps = Inr (pos', t) \<Longrightarrow>
     token_type t = TOKEN_CONSTANT \<and> val t = span start pos'"
  by (auto simp: lex_one_constant_numeric_finalize_def Let_def split: if_splits)

lemma token_of_numeric:
  "lex_one_constant_numeric pos = Inr (pos', t) \<Longrightarrow>
     token_type t = TOKEN_CONSTANT \<and> val t = span pos pos'"
  by (auto simp: lex_one_constant_numeric_def check_iff split: prod.splits dest: token_of_finalize)

lemma token_of_strlike:
  "lex_one_strlike pos tt = Inr (pos', t) \<Longrightarrow> token_type t = tt"
  by (auto simp: lex_one_strlike_def Let_def check_iff)

lemma span_sfx: "sfx pos' pos \<Longrightarrow> pos = span pos pos' @ pos'"
  by (auto simp: sfx_def span_def)

text \<open>The four ways in which \<open>lex_one_token\<close> makes a token.\<close>

lemma lex_one_token_cases:
  assumes "lex_one_token pos = Inr (pos', t)"
  obtains (operator) c r t0 where "pos = c # r" "map_of FOREACH_LEX_CHAR c = Some t0"
  | (literal) tt pos'' where "tt = TOKEN_CONSTANT_CHAR \<or> tt = TOKEN_CONSTANT_STR"
      "lex_one_strlike pos tt = Inr (pos'', t)" "pos' = tl pos''"
  | (numeric) "lex_one_constant_numeric pos = Inr (pos', t)" "token_type t = TOKEN_CONSTANT"
      "val t = span pos pos'"
  | (word) "val t = span pos pos'" "token_type t = lex_one_token_keyword_maybe (val t)"
      "pos' = dropWhile ident_char (tl pos)" "ident_char (hd pos)" "\<not> isdigit (hd pos)"
proof (cases "map_of FOREACH_LEX_CHAR (peek pos)")
  case (Some t0)
  moreover obtain c r where "pos = c # r" using assms lex_one_token_sfx by (cases pos) auto
  ultimately show thesis using operator by (simp add: peek_def)
next
  case None
  obtain c r where pos: "pos = c # r" using assms lex_one_token_sfx by (cases pos) auto
  note eq = assms [unfolded pos lex_one_token_def Let_def]
  have p: "peek (c # r) = c" by (simp add: peek_def)
  have none: "map_of FOREACH_LEX_CHAR c = None" using None pos p by simp
  have "is_quote_single c \<or> is_quote_double c \<or> isdigit c \<or> isdot c \<or> isalpha c \<or> c = CHR ''_''"
    by (rule ccontr) (use eq none p in simp)
  then consider "is_quote_single c" | "\<not> is_quote_single c" "is_quote_double c"
    | "\<not> is_quote_single c" "\<not> is_quote_double c" "isdigit c \<or> isdot c"
    | "\<not> is_quote_single c" "\<not> is_quote_double c" "\<not> (isdigit c \<or> isdot c)"
      "isalpha c \<or> c = CHR ''_''"
    by blast
  then show thesis
  proof cases
    case 1
    then obtain pos'' where "lex_one_strlike (c # r) TOKEN_CONSTANT_CHAR = Inr (pos'', t)"
      "pos' = tl pos''"
      using eq by (auto simp: none p check_iff)
    then show thesis using literal [of TOKEN_CONSTANT_CHAR pos''] pos by simp
  next
    case 2
    then obtain pos'' where "lex_one_strlike (c # r) TOKEN_CONSTANT_STR = Inr (pos'', t)"
      "pos' = tl pos''"
      using eq by (auto simp: none p check_iff)
    then show thesis using literal [of TOKEN_CONSTANT_STR pos''] pos by simp
  next
    case 3
    then have n: "lex_one_constant_numeric pos = Inr (pos', t)"
      using eq pos by (auto simp: none p check_iff)
    from token_of_numeric [OF n] show thesis by (intro numeric [OF n]) auto
  next
    case 4
    then have "val t = span pos pos'" "token_type t = lex_one_token_keyword_maybe (val t)"
      "pos' = dropWhile ident_char (tl pos)"
      using eq pos by (auto simp: none p check_iff)
    with 4 show thesis using pos by (intro word) (auto simp: ident_char_def isalnum_def)
  qed
qed

lemma keyword_maybe_not_operator: "operator_text (lex_one_token_keyword_maybe v) = None"
  by (simp add: lex_one_token_keyword_maybe_def split: option.split)

lemma longest_operator:
  assumes lex: "lex_one_token pos = Inr (pos', t)" and op: "operator_text (token_type t) = Some s"
  shows "pos = s @ pos'"
    and "operator_text tt = Some u \<Longrightarrow> pos = u @ rest \<Longrightarrow> length u \<le> length s"
proof -
  obtain c r t0 where pos: "pos = c # r" and t0: "map_of FOREACH_LEX_CHAR c = Some t0"
    using lex by (cases rule: lex_one_token_cases)
      (use op keyword_maybe_not_operator in \<open>auto dest!: token_of_strlike\<close>)
  obtain tt ahead where ra: "lex_readahead_one_or_two_chars pos t0 = (tt, ahead)" by fastforce
  have t: "token_type t = tt" "pos' = drop ahead r"
    using lex ra unfolding pos lex_one_token_operator [OF t0] by auto
  show "pos = s @ pos'" using readahead_text [OF t0 ra [unfolded pos]] op t pos by auto
  have "Suc 0 \<le> length s" using readahead_text [OF t0 ra [unfolded pos]] op t by auto
  then show "length u \<le> length s" if "operator_text tt = Some u" "pos = u @ rest" for tt u rest
    using that lex op multi_at_least [of _ rest pos' t] by (cases tt) (auto simp: char_text_def)
qed

text \<open>Words and numbers are exact slices of the text.\<close>

lemma slice_token:
  assumes "lex_one_token pos = Inr (pos', t)"
    and "token_type t \<in> {TOKEN_IDENTIFIER, TOKEN_CONSTANT} \<or> (\<exists>k. token_type t = Keyword k)"
  shows "pos = val t @ pos'"
proof -
  have "sfx pos' pos" using lex_one_token_sfx [OF assms(1)] sfx_tlI by blast
  moreover have "val t = span pos pos'"
    using assms(1)
  proof (cases rule: lex_one_token_cases)
    case (operator c r t0)
    obtain tt ahead where ra: "lex_readahead_one_or_two_chars (c # r) t0 = (tt, ahead)" by fastforce
    then have "token_type t = tt"
      using assms(1) unfolding operator(1) lex_one_token_operator [OF operator(2)] by auto
    with readahead_text [OF operator(2) ra] assms(2) show ?thesis by auto
  qed (use assms(2) in \<open>auto dest!: token_of_strlike\<close>)
  ultimately show ?thesis using span_sfx by simp
qed

section \<open>Literals\<close>

text \<open>The delimiter of a literal, and the text of a literal with the given characters.\<close>

definition lit_quote :: "lex_tokentype \<Rightarrow> char" where
  "lit_quote tt = (if tt = TOKEN_CONSTANT_CHAR then CHR 0x27 else CHR 0x22)"

definition needs_escape :: "lex_tokentype \<Rightarrow> char \<Rightarrow> bool" where
  "needs_escape tt c = (c = lit_quote tt \<or> is_backslash c \<or> is_newline c)"

definition escape_char :: "lex_tokentype \<Rightarrow> char \<Rightarrow> string" where
  "escape_char tt c =
     (if needs_escape tt c then [CHR 0x5C, if is_newline c then CHR ''n'' else c] else [c])"

definition escape_text :: "lex_tokentype \<Rightarrow> string \<Rightarrow> string" where
  "escape_text tt s = concat (map (escape_char tt) s)"

definition is_lit :: "lex_tokentype \<Rightarrow> bool" where
  "is_lit tt = (tt = TOKEN_CONSTANT_CHAR \<or> tt = TOKEN_CONSTANT_STR)"

text \<open>
  A run of adjacent literals: the first one's characters and, for each further one, the
  white space in front of it and its characters. \<open>lit_tail\<close> is the text after the first
  opening delimiter, up to and without the last closing one.
\<close>

fun lit_tail :: "lex_tokentype \<Rightarrow> string \<Rightarrow> (string \<times> string) list \<Rightarrow> string" where
  "lit_tail tt s [] = escape_text tt s"
| "lit_tail tt s ((ws, s') # ps) =
     escape_text tt s @ lit_quote tt # ws @ lit_quote tt # lit_tail tt s' ps"

lemma is_delimiter_lit: "is_lit tt \<Longrightarrow> is_delimiter tt c \<longleftrightarrow> c = lit_quote tt"
  by (auto simp: is_lit_def is_delimiter_def lit_quote_def is_quote_single_def is_quote_double_def)

lemma lit_quote_neq [simp]:
  "\<not> is_newline (lit_quote tt)" "\<not> is_backslash (lit_quote tt)" "\<not> isspace (lit_quote tt)"
  by (simp_all add: lit_quote_def is_newline_def is_backslash_def isspace_def code_def)

lemma escape_text_simps [simp]:
  "escape_text tt [] = []" "escape_text tt (c # s) = escape_char tt c @ escape_text tt s"
  by (simp_all add: escape_text_def)

lemma escape_undo:
  assumes "needs_escape tt c"
  shows "map_escape_char (if is_newline c then CHR ''n'' else c) = c"
    and "is_valid_escape_char (if is_newline c then CHR ''n'' else c)"
proof -
  have "c = CHR 0x27 \<or> c = CHR 0x22 \<or> c = CHR 0x5C \<or> c = CHR 0x0A"
    using assms
    by (cases "tt = TOKEN_CONSTANT_CHAR")
      (auto simp: needs_escape_def lit_quote_def is_backslash_def is_newline_def)
  then show "map_escape_char (if is_newline c then CHR ''n'' else c) = c"
    and "is_valid_escape_char (if is_newline c then CHR ''n'' else c)"
    by (auto simp: is_valid_escape_char_def map_escape_char_def is_newline_def NUL_def)
qed

lemma loop_escape:
  assumes lit: "is_lit tt"
  shows "lex_strlike_loop tt start (escape_text tt s @ r) n d =
     lex_strlike_loop tt start r (n + length (escape_text tt s)) (d \<or> list_ex (needs_escape tt) s)"
proof (induction s arbitrary: n d)
  case (Cons c s)
  show ?case
  proof (cases "needs_escape tt c")
    case False
    then show ?thesis using Cons.IH lit
      by (simp add: escape_char_def lex_strlike_loop_Cons is_delimiter_lit needs_escape_def)
  next
    case True
    let ?e = "if is_newline c then CHR ''n'' else c"
    have "is_valid_escape_char ?e" using True by (rule escape_undo)
    moreover have "CHR 0x5C \<noteq> lit_quote tt" "is_backslash (CHR 0x5C)" "\<not> is_newline (CHR 0x5C)"
      by (simp_all add: lit_quote_def is_backslash_def is_newline_def)
    ultimately show ?thesis using Cons.IH lit True
      by (simp add: escape_char_def lex_strlike_loop_Cons is_delimiter_lit peek_def)
  qed
qed simp

lemma merge_scan_hit:
  assumes "is_lit tt" "list_all isspace ws"
  shows "lex_merge_scan tt (ws @ lit_quote tt # r) i = Some (i + length ws)"
  using assms(2) by (induction ws arbitrary: i) (auto simp: is_delimiter_lit assms(1))

lemma merge_scan_inv:
  assumes "lex_merge_scan tt rest i = Some j" "is_lit tt"
  shows "\<exists>ws r. rest = ws @ lit_quote tt # r \<and> list_all isspace ws \<and> j = i + length ws"
  using assms(1)
proof (induction rest arbitrary: i)
  case (Cons c rest)
  show ?case
  proof (cases "isspace c")
    case True
    with Cons obtain ws r where "rest = ws @ lit_quote tt # r" "list_all isspace ws"
      "j = Suc i + length ws" by fastforce
    with True show ?thesis by (intro exI [of _ "c # ws"] exI [of _ r]) simp
  next
    case False
    with Cons.prems have "c = lit_quote tt" "j = i"
      by (auto simp: is_delimiter_lit [OF assms(2)] split: if_splits)
    then show ?thesis by (intro exI [of _ "[]"] exI [of _ rest]) simp
  qed
qed simp

text \<open>The text behind a literal does not continue it.\<close>

definition lit_end :: "lex_tokentype \<Rightarrow> string \<Rightarrow> bool" where
  "lit_end tt r = (case dropWhile isspace r of [] \<Rightarrow> True | c # _ \<Rightarrow> c \<noteq> lit_quote tt)"

lemma merge_scan_miss: "is_lit tt \<Longrightarrow> lit_end tt r \<Longrightarrow> lex_merge_scan tt r i = None"
  by (induction r arbitrary: i) (auto simp: lit_end_def is_delimiter_lit split: if_splits)

lemma loop_lit_tail:
  assumes lit: "is_lit tt" and ws: "list_all (\<lambda>p. list_all isspace (fst p)) ps"
    and r: "lit_end tt r"
  shows "\<exists>d'. lex_strlike_loop tt start (lit_tail tt s ps @ lit_quote tt # r) n d =
      Inr (lit_quote tt # r, n + length (lit_tail tt s ps), d') \<and>
      (d' \<longleftrightarrow> d \<or> list_ex (needs_escape tt) s \<or> ps \<noteq> [])"
  using ws
proof (induction ps arbitrary: s n d)
  case Nil
  then show ?case
    by (simp add: loop_escape [OF lit] lex_strlike_loop_Cons is_delimiter_lit [OF lit]
        merge_scan_miss [OF lit r])
next
  case (Cons p ps)
  obtain w s' where p: "p = (w, s')" by fastforce
  with Cons.prems have w: "list_all isspace w" by simp
  from Cons.IH [of s' "n + length (escape_text tt s) + (length w + 2)" True] Cons.prems
  show ?case
    by (simp add: p loop_escape [OF lit] lex_strlike_loop_Cons is_delimiter_lit [OF lit]
        merge_scan_hit [OF lit w] algebra_simps)
qed

lemma map_span_escape:
  assumes lit: "is_lit tt"
  shows "map_span_loop tt False False (escape_text tt s @ r) =
     check (map_span_loop tt False False r) (\<lambda>out. Inr (s @ out))"
proof (induction s)
  case Nil
  then show ?case by (cases "map_span_loop tt False False r") auto
next
  case (Cons c s)
  have esc: "CHR 0x5C \<noteq> lit_quote tt" "is_backslash (CHR 0x5C)" "\<not> is_newline (CHR 0x5C)"
    by (simp_all add: lit_quote_def is_backslash_def is_newline_def)
  have "needs_escape tt c \<Longrightarrow> map_escape_char (if is_newline c then CHR ''n'' else c) = c"
    by (rule escape_undo)
  with Cons.IH esc show ?case
    by (simp add: escape_char_def is_delimiter_lit [OF lit] check_assoc needs_escape_def)
qed

lemma map_span_spaces:
  assumes lit: "is_lit tt" and ws: "list_all isspace ws"
  shows "map_span_loop tt False False (lit_quote tt # ws @ lit_quote tt # r) =
     map_span_loop tt False False r"
proof -
  have "map_span_loop tt False True (ws @ lit_quote tt # r) = map_span_loop tt False False r"
    using ws by (induction ws) (auto simp: is_delimiter_lit [OF lit])
  then show ?thesis by (simp add: is_delimiter_lit [OF lit])
qed

lemma map_span_lit_tail:
  assumes lit: "is_lit tt" and ws: "list_all (\<lambda>p. list_all isspace (fst p)) ps"
  shows "map_span_loop tt False False (lit_tail tt s ps) = Inr (s @ concat (map snd ps))"
  using ws
proof (induction ps arbitrary: s)
  case Nil
  then show ?case using map_span_escape [OF lit, of s "[]"] by simp
next
  case (Cons p ps)
  obtain w s' where p: "p = (w, s')" by fastforce
  with Cons.prems have w: "list_all isspace w" by simp
  from Cons show ?case
    by (simp add: p map_span_escape [OF lit] map_span_spaces [OF lit w] del: map_span_loop.simps)
qed

lemma escape_text_plain: "\<not> list_ex (needs_escape tt) s \<Longrightarrow> escape_text tt s = s"
  by (induction s) (auto simp: escape_char_def)

lemma one_strlike_lit:
  assumes lit: "is_lit tt" and ws: "list_all (\<lambda>p. list_all isspace (fst p)) ps"
    and r: "lit_end tt r"
    and one: "tt = TOKEN_CONSTANT_CHAR \<Longrightarrow> length (s @ concat (map snd ps)) = 1"
  shows "lex_one_strlike (lit_quote tt # lit_tail tt s ps @ lit_quote tt # r) tt =
    Inr (lit_quote tt # r, \<lparr>token_type = tt, val = s @ concat (map snd ps)\<rparr>)"
proof -
  let ?start = "lit_tail tt s ps @ lit_quote tt # r"
  obtain d' where loop: "lex_strlike_loop tt ?start ?start 0 False =
      Inr (lit_quote tt # r, length (lit_tail tt s ps), d')"
    and d': "d' \<longleftrightarrow> list_ex (needs_escape tt) s \<or> ps \<noteq> []"
    using loop_lit_tail [OF lit ws r, of ?start s 0 False] by auto
  have "(if d' then map_span_to_strlike tt (lit_tail tt s ps) else Inr (lit_tail tt s ps)) =
      Inr (s @ concat (map snd ps))"
    using d' map_span_lit_tail [OF lit ws, of s] escape_text_plain [of tt s]
    by (auto simp: map_span_to_strlike_def)
  with loop one show ?thesis
    by (simp add: lex_one_strlike_def lex_one_strlike_check_size_def)
qed

lemma lex_literal:
  assumes lit: "is_lit tt" and "list_all (\<lambda>p. list_all isspace (fst p)) ps" and "lit_end tt r"
    and "tt = TOKEN_CONSTANT_CHAR \<Longrightarrow> length (s @ concat (map snd ps)) = 1"
  shows "lex_one_token (lit_quote tt # lit_tail tt s ps @ lit_quote tt # r) =
    Inr (r, \<lparr>token_type = tt, val = s @ concat (map snd ps)\<rparr>)"
proof -
  have "map_of FOREACH_LEX_CHAR (lit_quote tt) = None"
    by (simp add: lit_quote_def FOREACH_LEX_CHAR_def)
  moreover have "if tt = TOKEN_CONSTANT_CHAR then is_quote_single (lit_quote tt)
      else \<not> is_quote_single (lit_quote tt) \<and> is_quote_double (lit_quote tt)"
    by (simp add: lit_quote_def is_quote_single_def is_quote_double_def)
  ultimately show ?thesis
    using one_strlike_lit [OF assms] lit
    by (auto simp: lex_one_token_def peek_def Let_def is_lit_def)
qed

section \<open>Numbers\<close>

definition digits :: "string \<Rightarrow> bool" where "digits s = list_all isdigit s"

definition int_suffix :: "string \<Rightarrow> bool" where
  "int_suffix s = (map toupper s \<in> {[], ''L'', ''U'', ''LU'', ''UL''})"

definition exponent :: "string \<Rightarrow> bool" where
  "exponent ex \<longleftrightarrow> ex = [] \<or>
     (\<exists>e sg ds. ex = e # sg @ ds \<and> toupper e = CHR ''E'' \<and> sg \<in> {[], ''+'', ''-''} \<and>
        ds \<noteq> [] \<and> digits ds)"

text \<open>An integer with its suffix, or a decimal fraction with a point, an exponent or both.\<close>

definition num_text :: "string \<Rightarrow> bool" where
  "num_text v \<longleftrightarrow>
     (\<exists>ds sf. v = ds @ sf \<and> ds \<noteq> [] \<and> digits ds \<and> int_suffix sf) \<or>
     (\<exists>ds fs ex. v = ds @ CHR ''.'' # fs @ ex \<and> digits ds \<and> digits fs \<and> exponent ex) \<or>
     (\<exists>ds ex. v = ds @ ex \<and> ds \<noteq> [] \<and> digits ds \<and> ex \<noteq> [] \<and> exponent ex)"

text \<open>The states the two separators go through.\<close>

definition seps :: "bool \<Rightarrow> bool \<Rightarrow> nat \<Rightarrow> bool \<Rightarrow> lex_sep_state list" where
  "seps f0 f1 a n =
     [\<lparr>sep = DECIMAL_POINT, found = f0, allow_sign_span = 0, needs_digit = False\<rparr>,
      \<lparr>sep = E_NOTATION_CHAR, found = f1, allow_sign_span = a, needs_digit = n\<rparr>]"

lemma sep_chars_init_seps: "sep_chars_init = seps False False 2 True"
  by (simp add: sep_chars_init_def seps_def)

lemma toupper_digit:
  "isdigit c \<Longrightarrow> toupper c \<noteq> DECIMAL_POINT \<and> toupper c \<noteq> E_NOTATION_CHAR \<and>
     DECIMAL_POINT \<noteq> toupper c \<and> E_NOTATION_CHAR \<noteq> toupper c"
  by (auto simp: toupper_def islower_def isdigit_def DECIMAL_POINT_def E_NOTATION_CHAR_def code_def)

lemma point_neq [simp]: "DECIMAL_POINT \<noteq> E_NOTATION_CHAR" "E_NOTATION_CHAR \<noteq> DECIMAL_POINT"
  by (simp_all add: DECIMAL_POINT_def E_NOTATION_CHAR_def)

lemma toupper_point [simp]: "toupper DECIMAL_POINT = DECIMAL_POINT"
  by (simp add: toupper_def islower_def DECIMAL_POINT_def code_def)

declare lex_numeric_loop.simps(2) [simp del]

lemmas numeric_defs = lex_numeric_loop.simps(2) lex_sep_scan_def lex_sep_consume_def seps_def

lemma num_digits:
  assumes "digits ds"
  shows "lex_numeric_loop (ds @ r) (seps False False 2 True) None =
      lex_numeric_loop r (seps False False 2 True) None"
    and "lex_numeric_loop (ds @ r) (seps True f1 a n) (Some 0) =
      lex_numeric_loop r (seps True f1 a n) (Some 0)"
    and "lex_numeric_loop (ds @ r) (seps f0 True a n) (Some 1) =
      lex_numeric_loop r (seps f0 True (a - length ds) (n \<and> ds = [])) (Some 1)"
  using assms
proof (induction ds arbitrary: a n)
  case (Cons c ds)
  {
    case 1
    then show ?case using Cons.IH(1) toupper_digit [of c]
      by (simp add: digits_def numeric_defs)
  next
    case 2
    then show ?case using Cons.IH(2) toupper_digit [of c]
      by (simp add: digits_def numeric_defs)
  next
    case 3
    then show ?case using Cons.IH(3) [of "a - 1" False] toupper_digit [of c]
      by (simp add: digits_def numeric_defs)
  }
qed simp_all

lemma num_point:
  "lex_numeric_loop (CHR ''.'' # r) (seps False f1 a n) l =
     lex_numeric_loop r (seps True f1 a n) (Some 0)"
  by (simp add: DECIMAL_POINT_def [symmetric] numeric_defs)

lemma num_e:
  "toupper e = CHR ''E'' \<Longrightarrow> lex_numeric_loop (e # r) (seps f0 False 2 True) l =
     lex_numeric_loop r (seps f0 True (Suc 0) True) (Some (Suc 0))"
proof -
  assume "toupper e = CHR ''E''"
  moreover from this have "\<not> isdigit e"
    using toupper_digit [of e] by (auto simp: E_NOTATION_CHAR_def)
  ultimately show ?thesis by (simp add: E_NOTATION_CHAR_def [symmetric] numeric_defs)
qed

lemma num_sign:
  "issign c \<Longrightarrow> lex_numeric_loop (c # r) (seps f0 True (Suc 0) True) (Some (Suc 0)) =
     lex_numeric_loop r (seps f0 True 0 True) (Some (Suc 0))"
  by (auto simp: numeric_defs issign_def toupper_def islower_def isdigit_def code_def
      DECIMAL_POINT_def E_NOTATION_CHAR_def)

lemma num_stop:
  assumes "\<not> isdigit c" "toupper c \<noteq> DECIMAL_POINT" "toupper c \<noteq> E_NOTATION_CHAR" "\<not> issign c"
  shows "lex_numeric_loop (c # r) (seps f0 f1 a n) l = (c # r, seps f0 f1 a n)"
  using assms assms(2,3) [symmetric] by (simp add: numeric_defs)

lemma num_exponent:
  assumes "exponent ex"
  shows "\<exists>f1 a n. lex_numeric_loop (ex @ CHR '' '' # r) (seps f0 False 2 True) l =
      (CHR '' '' # r, seps f0 f1 a n) \<and> (f1 \<longleftrightarrow> ex \<noteq> []) \<and> (f1 \<longrightarrow> \<not> n)"
proof -
  have stop: "lex_numeric_loop (CHR '' '' # r) (seps f0 f1 a n) l = (CHR '' '' # r, seps f0 f1 a n)"
    for f1 a n l
    by (rule num_stop) (simp_all add: isdigit_def toupper_def islower_def issign_def code_def
        DECIMAL_POINT_def E_NOTATION_CHAR_def)
  show ?thesis
  proof (cases "ex = []")
    case True
    then show ?thesis using stop by auto
  next
    case False
    then obtain e sg ds where ex: "ex = e # sg @ ds" "toupper e = CHR ''E''"
      and sg: "sg \<in> {[], ''+'', ''-''}" and ds: "ds \<noteq> []" "digits ds"
      using assms by (auto simp: exponent_def)
    have sign: "issign (CHR ''+'')" "issign (CHR ''-'')" by (simp_all add: issign_def)
    note end_digits = num_digits(3) [OF ds(2), unfolded One_nat_def]
    have "lex_numeric_loop (ex @ CHR '' '' # r) (seps f0 False 2 True) l =
        (CHR '' '' # r, seps f0 True ((if sg = [] then Suc 0 else 0) - length ds) False)"
      using sg ds(1) by (auto simp: ex num_e num_sign [OF sign(1)] num_sign [OF sign(2)]
          end_digits stop)
    then show ?thesis using False by blast
  qed
qed

lemma peek_space: "lex_peek_ok (CHR '' '' # r) v = Inr ()"
  by (simp add: lex_peek_ok_def peek_def isspace_def code_def)

lemma span_append [simp]: "span (v @ r) r = v"
  by (simp add: span_def)

lemma finalize_float:
  assumes "f0 \<or> f1" "f1 \<longrightarrow> \<not> n"
  shows "lex_one_constant_numeric_finalize (v @ CHR '' '' # r) (CHR '' '' # r) (seps f0 f1 a n) =
    Inr (CHR '' '' # r, \<lparr>token_type = TOKEN_CONSTANT, val = v\<rparr>)"
  using assms by (auto simp: lex_one_constant_numeric_finalize_def seps_def)

lemma finalize_int:
  assumes "int_suffix sf"
  shows "lex_one_constant_numeric_finalize (ds @ sf @ CHR '' '' # r) (sf @ CHR '' '' # r)
      (seps False False a n) =
    Inr (CHR '' '' # r, \<lparr>token_type = TOKEN_CONSTANT, val = ds @ sf\<rparr>)"
proof -
  have sp: "toupper (CHR '' '') = CHR '' ''" by (simp add: toupper_def islower_def code_def)
  have span: "span (ds @ sf @ CHR '' '' # r) (CHR '' '' # r) = ds @ sf"
    using span_append [of "ds @ sf"] by simp
  have "sf = [] \<or> (\<exists>a. sf = [a] \<and> toupper a \<in> {CHR ''L'', CHR ''U''}) \<or>
    (\<exists>a b. sf = [a, b] \<and> (toupper a = CHR ''L'' \<and> toupper b = CHR ''U'' \<or>
      toupper a = CHR ''U'' \<and> toupper b = CHR ''L''))"
    using assms by (auto simp: int_suffix_def)
  with span show ?thesis
    by (auto simp: lex_one_constant_numeric_finalize_def seps_def peek_def sp)
qed

lemma numeric_text:
  assumes "num_text v"
  shows "lex_one_constant_numeric (v @ CHR '' '' # r) =
    Inr (CHR '' '' # r, \<lparr>token_type = TOKEN_CONSTANT, val = v\<rparr>) \<and>
    (isdigit (hd v) \<or> isdot (hd v)) \<and> v \<noteq> []"
proof -
  have dig: "ds \<noteq> [] \<Longrightarrow> digits ds \<Longrightarrow> isdigit (hd ds)" for ds
    by (cases ds) (auto simp: digits_def)
  have go: "lex_one_constant_numeric (v @ CHR '' '' # r) =
      Inr (CHR '' '' # r, \<lparr>token_type = TOKEN_CONSTANT, val = v\<rparr>)"
    if "v \<noteq> []" "isdigit (hd v) \<or> isdot (hd v)"
      "lex_numeric_loop (v @ CHR '' '' # r) (seps False False 2 True) None = (q, sp)"
      "lex_one_constant_numeric_finalize (v @ CHR '' '' # r) q sp =
        Inr (CHR '' '' # r, \<lparr>token_type = TOKEN_CONSTANT, val = v\<rparr>)" for q sp
    using that by (cases v) (auto simp: lex_one_constant_numeric_def peek_def sep_chars_init_seps)
  from assms consider
    (int) ds sf where "v = ds @ sf" "ds \<noteq> []" "digits ds" "int_suffix sf"
  | (point) ds fs ex where "v = ds @ CHR ''.'' # fs @ ex" "digits ds" "digits fs" "exponent ex"
  | (exp) ds ex where "v = ds @ ex" "ds \<noteq> []" "digits ds" "ex \<noteq> []" "exponent ex"
    unfolding num_text_def by blast
  then show ?thesis
  proof cases
    case int
    have stop: "lex_numeric_loop (sf @ CHR '' '' # r) (seps False False 2 True) None =
        (sf @ CHR '' '' # r, seps False False 2 True)"
    proof -
      have "\<exists>c q. sf @ CHR '' '' # r = c # q \<and> toupper c \<in> {CHR ''L'', CHR ''U'', CHR '' ''}"
        using int(4) by (auto simp: int_suffix_def toupper_def islower_def code_def)
      then obtain c q where c: "sf @ CHR '' '' # r = c # q"
        "toupper c \<in> {CHR ''L'', CHR ''U'', CHR '' ''}" by blast
      show ?thesis unfolding c(1) using c(2)
        by (intro num_stop) (auto simp: toupper_def islower_def isdigit_def issign_def code_def
            DECIMAL_POINT_def E_NOTATION_CHAR_def)
    qed
    have "lex_numeric_loop (v @ CHR '' '' # r) (seps False False 2 True) None =
        (sf @ CHR '' '' # r, seps False False 2 True)"
      using stop num_digits(1) [OF int(3), of "sf @ CHR '' '' # r"] int(1) by simp
    then show ?thesis
      using go finalize_int [OF int(4), of ds r] int dig [of ds] by (auto simp: hd_append)
  next
    case point
    obtain f1 a n where "lex_numeric_loop (ex @ CHR '' '' # r) (seps True False 2 True) (Some 0) =
        (CHR '' '' # r, seps True f1 a n)" "f1 \<longrightarrow> \<not> n"
      using num_exponent [OF point(4), of r True "Some 0"] by blast
    then show ?thesis
      using go finalize_float [of True f1 n v r a] num_digits(1) [OF point(2)]
        num_digits(2) [OF point(3)] point(1,2) dig [of ds]
      by (auto simp: num_point hd_append isdot_def DECIMAL_POINT_def)
  next
    case exp
    obtain f1 a n where "lex_numeric_loop (ex @ CHR '' '' # r) (seps False False 2 True) None =
        (CHR '' '' # r, seps False f1 a n)" "f1" "f1 \<longrightarrow> \<not> n"
      using num_exponent [OF exp(5), of r False None] exp(4) by blast
    then show ?thesis
      using go finalize_float [of False f1 n v r a] num_digits(1) [OF exp(3)] exp dig [of ds]
      by (auto simp: hd_append)
  qed
qed

end
