(* ===== verification/LexPrint.thy ===== *)
theory LexPrint
  imports LexFacts
begin

text \<open>
  The lexer as a whole: a token list that is printed and read back comes out as it was, and
  no assertion of the lexer can fail.
\<close>

section \<open>Words\<close>

definition word :: "string \<Rightarrow> bool" where
  "word v \<longleftrightarrow> v \<noteq> [] \<and> list_all ident_char v \<and> \<not> isdigit (hd v)"

lemma table_chars: "list_all (\<lambda>(c, t). \<not> ident_char c \<and> \<not> isdigit c \<and> \<not> isdot c) FOREACH_LEX_CHAR"
  by (simp add: FOREACH_LEX_CHAR_def ident_char_def ctype_char_defs isdot_def DECIMAL_POINT_def)

lemma ident_char_table: "ident_char c \<or> isdigit c \<or> isdot c \<Longrightarrow> map_of FOREACH_LEX_CHAR c = None"
  using table_chars by (cases "map_of FOREACH_LEX_CHAR c") (auto simp: list_all_iff dest!: map_of_SomeD)

lemma ident_char_not:
  "ident_char c \<Longrightarrow> \<not> is_quote_single c \<and> \<not> is_quote_double c \<and> \<not> isdot c \<and> \<not> isspace c"
  by (auto simp: ident_char_def ctype_char_defs is_quote_single_def is_quote_double_def isdot_def
      DECIMAL_POINT_def)

lemma dropWhile_word:
  "list_all ident_char v \<Longrightarrow> dropWhile ident_char (v @ CHR '' '' # r) = CHR '' '' # r"
  by (induction v) (auto simp: ident_char_def ctype_char_defs)

lemma lex_word:
  assumes "word v"
  shows "lex_one_token (v @ CHR '' '' # r) =
    Inr (CHR '' '' # r, \<lparr>token_type = lex_one_token_keyword_maybe v, val = v\<rparr>)"
proof -
  obtain c w where v: "v = c # w" and c: "ident_char c" "\<not> isdigit c" and w: "list_all ident_char w"
    using assms by (cases v) (auto simp: word_def)
  have "isalpha c \<or> c = CHR ''_''" using c by (auto simp: ident_char_def isalnum_def)
  moreover have "span (v @ CHR '' '' # r) (CHR '' '' # r) = v" by (rule span_append)
  ultimately show ?thesis
    using c ident_char_table [of c] ident_char_not [OF c(1)] dropWhile_word [OF w, of r]
      peek_space [of r v]
    by (simp add: v lex_one_token_def peek_def [of "_ # _"] Let_def)
qed

section \<open>Printing and reading back\<close>

text \<open>The tokens that the lexer can produce, as values.\<close>

fun printable :: "token \<Rightarrow> bool" where
  "printable \<lparr>token_type = TOKEN_IDENTIFIER, val = v\<rparr> \<longleftrightarrow>
     word v \<and> map_of FOREACH_LEX_KEYWORD v = None"
| "printable \<lparr>token_type = TOKEN_CONSTANT, val = v\<rparr> \<longleftrightarrow> num_text v"
| "printable \<lparr>token_type = TOKEN_CONSTANT_CHAR, val = v\<rparr> \<longleftrightarrow> length v = 1"
| "printable \<lparr>token_type = TOKEN_CONSTANT_STR, val = v\<rparr> \<longleftrightarrow> True"
| "printable \<lparr>token_type = Keyword k, val = v\<rparr> \<longleftrightarrow> v = keyword_text k"
| "printable \<lparr>token_type = Char _, val = v\<rparr> \<longleftrightarrow> v = []"
| "printable \<lparr>token_type = Multi _, val = v\<rparr> \<longleftrightarrow> v = []"

definition spell :: "token \<Rightarrow> string" where
  "spell t =
     (case operator_text (token_type t) of
        Some s \<Rightarrow> s
      | None \<Rightarrow>
          (if is_lit (token_type t)
           then lit_quote (token_type t) # escape_text (token_type t) (val t) @ [lit_quote (token_type t)]
           else val t))"

definition print_tokens :: "token list \<Rightarrow> string" where
  "print_tokens ts = concat (map (\<lambda>t. spell t @ '' '') ts)"

text \<open>Two literals of the same kind in a row would be read back as one.\<close>

fun separate :: "token list \<Rightarrow> bool" where
  "separate (s # t # ts) \<longleftrightarrow>
     \<not> (is_lit (token_type s) \<and> token_type s = token_type t) \<and> separate (t # ts)"
| "separate _ = True"

lemma keyword_word: "word (keyword_text k) \<and> lex_one_token_keyword_maybe (keyword_text k) = Keyword k"
  by (cases k)
    (simp_all add: keyword_text_def FOREACH_LEX_KEYWORD_def lex_one_token_keyword_maybe_def
      word_def ident_char_def ctype_char_defs)

lemma char_text_table: "\<exists>c. char_text t = [c] \<and> map_of FOREACH_LEX_CHAR c = Some t \<and>
    c \<noteq> CHR '' '' \<and> c \<noteq> CHR 0x27 \<and> c \<noteq> CHR 0x22 \<and> \<not> isspace c"
  by (cases t) (simp_all add: char_text_def FOREACH_LEX_CHAR_def isspace_def code_def)

lemma lex_char_space:
  "lex_one_token (char_text t @ CHR '' '' # r) = Inr (CHR '' '' # r, \<lparr>token_type = Char t, val = []\<rparr>)"
proof -
  obtain c where c: "char_text t = [c]" "map_of FOREACH_LEX_CHAR c = Some t" "c \<noteq> CHR '' ''"
    using char_text_table by blast
  then show ?thesis
    by (simp add: lex_one_token_operator lex_readahead_one_or_two_chars_def)
qed

lemma lex_multi_space:
  "lex_one_token (multi_text m @ CHR '' '' # r) =
     Inr (CHR '' '' # r, \<lparr>token_type = Multi m, val = []\<rparr>)"
  by (cases m) (simp_all add: lex_one_token_def peek_def lex_tables lex_readahead_one_or_two_chars_def)

lemma lex_numeric_space:
  assumes "num_text v"
  shows "lex_one_token (v @ CHR '' '' # r) =
    Inr (CHR '' '' # r, \<lparr>token_type = TOKEN_CONSTANT, val = v\<rparr>)"
proof -
  obtain c w where v: "v = c # w" and c: "isdigit c \<or> isdot c"
    using numeric_text [OF assms, of r] by (cases v) auto
  have "map_of FOREACH_LEX_CHAR c = None" using c ident_char_table by blast
  moreover have "\<not> is_quote_single c" "\<not> is_quote_double c"
    using c by (auto simp: isdigit_def isdot_def DECIMAL_POINT_def code_def
        is_quote_single_def is_quote_double_def)
  ultimately show ?thesis
    using c numeric_text [OF assms, of r] peek_space [of r v]
    by (simp add: v lex_one_token_def peek_def [of "_ # _"] Let_def)
qed

text \<open>A number with a decimal point behind its exponent is read as one constant.\<close>

lemma lex_point_behind_exponent:
  assumes "digits ds" "ds \<noteq> []" and "toupper e = CHR ''E''" and "sg \<in> {[], ''+'', ''-''}"
    and "digits es" "es \<noteq> []" and "digits fs"
  defines "v \<equiv> ds @ e # sg @ es @ CHR ''.'' # fs"
  shows "lex_one_token (v @ CHR '' '' # r) =
    Inr (CHR '' '' # r, \<lparr>token_type = TOKEN_CONSTANT, val = v\<rparr>)"
proof -
  have sign: "issign (CHR ''+'')" "issign (CHR ''-'')" by (simp_all add: issign_def)
  have stop: "lex_numeric_loop (CHR '' '' # r) (seps True True a False) l = (CHR '' '' # r, seps True True a False)"
    for a l
    by (rule num_stop) (simp_all add: isdigit_def toupper_def islower_def issign_def code_def
        DECIMAL_POINT_def E_NOTATION_CHAR_def)
  have loop: "lex_numeric_loop (v @ CHR '' '' # r) (seps False False 2 True) None =
      (CHR '' '' # r, seps True True ((if sg = [] then Suc 0 else 0) - length es) False)"
    using assms(4,6)
    by (auto simp: v_def num_digits(1) [OF assms(1)] num_e [OF assms(3)] num_sign [OF sign(1)]
        num_sign [OF sign(2)] num_digits(3) [OF assms(5)] num_digits(3) [OF assms(5), unfolded One_nat_def]
        num_point num_digits(2) [OF assms(7)] stop)
  obtain c w where c: "v = c # w" "isdigit c" using assms(1,2) by (cases ds) (auto simp: v_def digits_def)
  have "lex_one_constant_numeric (v @ CHR '' '' # r) =
      Inr (CHR '' '' # r, \<lparr>token_type = TOKEN_CONSTANT, val = v\<rparr>)"
    using loop finalize_float [of True True False v r] c
    by (simp add: lex_one_constant_numeric_def peek_def sep_chars_init_seps)
  moreover have "map_of FOREACH_LEX_CHAR c = None" using c(2) ident_char_table by blast
  moreover have "\<not> is_quote_single c" "\<not> is_quote_double c"
    using c(2) by (auto simp: isdigit_def code_def is_quote_single_def is_quote_double_def)
  ultimately show ?thesis
    using c peek_space [of r v] by (simp add: lex_one_token_def peek_def [of "_ # _"] Let_def)
qed

lemma lex_spell:
  assumes "printable t" and "is_lit (token_type t) \<Longrightarrow> lit_end (token_type t) (CHR '' '' # r)"
  shows "lex_one_token (spell t @ CHR '' '' # r) = Inr (CHR '' '' # r, t)"
proof -
  obtain tt v where t: "t = \<lparr>token_type = tt, val = v\<rparr>" by (cases t) auto
  show ?thesis
  proof (cases "is_lit tt")
    case True
    then have "tt = TOKEN_CONSTANT_CHAR \<Longrightarrow> length v = 1" using assms(1) t by auto
    with lex_literal [OF True, of "[]" "CHR '' '' # r" v] assms(2) True show ?thesis
      by (auto simp: t spell_def is_lit_def)
  next
    case False
    then show ?thesis
      using assms(1) keyword_word lex_word lex_numeric_space lex_char_space lex_multi_space
      by (cases tt)
        (auto simp: t spell_def is_lit_def lex_one_token_keyword_maybe_def)
  qed
qed

lemma spell_start:
  assumes "printable t" "is_lit tt" "token_type t \<noteq> tt"
  shows "spell t \<noteq> [] \<and> hd (spell t) \<noteq> lit_quote tt \<and> \<not> isspace (hd (spell t))"
proof -
  obtain tt' v where t: "t = \<lparr>token_type = tt', val = v\<rparr>" by (cases t) auto
  have q: "lit_quote tt = CHR 0x27 \<or> lit_quote tt = CHR 0x22" by (simp add: lit_quote_def)
  have w: "word v \<Longrightarrow> v \<noteq> [] \<and> hd v \<noteq> lit_quote tt \<and> \<not> isspace (hd v)" for v
    using ident_char_not [of "hd v"] q
    by (cases v) (auto simp: word_def is_quote_single_def is_quote_double_def)
  have n: "num_text v \<Longrightarrow> v \<noteq> [] \<and> hd v \<noteq> lit_quote tt \<and> \<not> isspace (hd v)" for v
    using numeric_text [of v] q
    by (auto simp: isdigit_def isdot_def isspace_def DECIMAL_POINT_def code_def)
  show ?thesis
  proof (cases tt')
    case (Char x)
    then show ?thesis using q char_text_table [of x] by (auto simp: t spell_def)
  next
    case (Multi x)
    then show ?thesis using q by (cases x) (auto simp: t spell_def isspace_def code_def)
  qed (use assms w n keyword_word q in
      \<open>auto simp: t spell_def is_lit_def isspace_def lit_quote_def code_def split: if_splits\<close>)
qed

lemma lit_end_print:
  assumes "list_all printable ts" "separate (t # ts)" "is_lit (token_type t)"
  shows "lit_end (token_type t) (CHR '' '' # print_tokens ts)"
proof (cases ts)
  case Nil
  then show ?thesis by (simp add: lit_end_def print_tokens_def isspace_def code_def)
next
  case (Cons u us)
  then have "spell u \<noteq> [] \<and> hd (spell u) \<noteq> lit_quote (token_type t) \<and> \<not> isspace (hd (spell u))"
    using assms by (intro spell_start) auto
  moreover have "isspace (CHR '' '')" by (simp add: isspace_def code_def)
  ultimately show ?thesis
    by (cases "spell u") (auto simp: lit_end_def print_tokens_def Cons)
qed

lemma spell_no_space: "printable t \<Longrightarrow> spell t \<noteq> [] \<and> \<not> isspace (hd (spell t))"
  using spell_start [of t TOKEN_CONSTANT_CHAR] spell_start [of t TOKEN_CONSTANT_STR]
  by (cases "token_type t = TOKEN_CONSTANT_CHAR") (auto simp: is_lit_def)

lemma lex_loop_print:
  "list_all printable ts \<Longrightarrow> separate ts \<Longrightarrow> lex_loop (print_tokens ts) = Inr ts"
proof (induction ts)
  case Nil
  then show ?case by (simp add: print_tokens_def lex_loop.simps)
next
  case (Cons t ts)
  have sep: "separate ts" using Cons.prems(2) by (cases ts) auto
  have one: "lex_one_token (spell t @ CHR '' '' # print_tokens ts) =
      Inr (CHR '' '' # print_tokens ts, t)"
    using Cons.prems lit_end_print [of ts t] by (intro lex_spell) auto
  have sp: "lex_loop (CHR '' '' # r) = lex_loop r" for r
    by (subst lex_loop.simps) (simp add: isspace_def code_def)
  have "print_tokens (t # ts) = spell t @ CHR '' '' # print_tokens ts"
    by (simp add: print_tokens_def)
  with one sp Cons.IH sep Cons.prems spell_no_space [of t] show ?case
    by (subst lex_loop.simps) (auto simp: hd_append)
qed

section \<open>No assertion of the lexer fails\<close>

lemma map_span_loop_ok:
  "lex_strlike_loop tt start pos n d = Inr (pos', n', d') \<Longrightarrow> is_lit tt \<Longrightarrow>
     \<exists>w. pos = w @ pos' \<and> n' = n + length w \<and> (\<exists>out. map_span_loop tt False False w = Inr out)"
proof (induction tt start pos n d rule: lex_strlike_loop.induct)
  case (1 tt start pos n d)
  note lit = 1(5)
  show ?case
  proof (cases pos)
    case Nil
    with 1 show ?thesis by (simp add: lex_strlike_loop_Nil)
  next
    case (Cons c rest)
    note IH = 1(1-3) [OF Cons] and eq = 1(4) [unfolded Cons lex_strlike_loop_Cons]
    consider i where "is_delimiter tt c" "lex_merge_scan tt rest (Suc 0) = Some i"
      | "is_delimiter tt c" "lex_merge_scan tt rest (Suc 0) = None"
      | "\<not> is_delimiter tt c" "is_backslash c" | "\<not> is_delimiter tt c" "\<not> is_backslash c"
      by fastforce
    then show ?thesis
    proof cases
      case 1
      obtain ws r where ws: "rest = ws @ lit_quote tt # r" "list_all isspace ws" "i = Suc (length ws)"
        using merge_scan_inv [OF 1(2) lit] by auto
      from IH(1) [of i] eq 1 lit Cons obtain w where "drop i rest = w @ pos'"
        "n' = n + (i + 1) + length w" "\<exists>out. map_span_loop tt False False w = Inr out" by auto
      moreover have "drop i rest = r" using ws by simp
      ultimately show ?thesis
        using map_span_spaces [OF lit ws(2), of w] 1(1) ws
        by (intro exI [of _ "lit_quote tt # ws @ lit_quote tt # w"])
          (auto simp: Cons is_delimiter_lit [OF lit] simp del: map_span_loop.simps)
    next
      case 2
      with eq show ?thesis by (intro exI [of _ "[]"]) (simp add: Cons)
    next
      case 3
      then obtain e r where r: "rest = e # r" "is_valid_escape_char e"
        using eq by (cases rest)
          (auto simp: peek_def is_valid_escape_char_def map_escape_char_def NUL_def split: if_splits)
      from IH(2) eq 3 lit r obtain w where "r = w @ pos'" "n' = n + 2 + length w"
        "\<exists>out. map_span_loop tt False False w = Inr out"
        by (auto simp: peek_def split: if_splits)
      then show ?thesis using 3 r by (intro exI [of _ "c # e # w"]) (auto simp: Cons)
    next
      case 4
      from IH(3) eq 4 lit obtain w where "rest = w @ pos'" "n' = n + 1 + length w"
        "\<exists>out. map_span_loop tt False False w = Inr out"
        by (auto split: if_splits)
      then show ?thesis using 4 by (intro exI [of _ "c # w"]) (auto simp: Cons)
    qed
  qed
qed

lemma strlike_loop_error:
  "lex_strlike_loop tt start pos n d = Inl e \<Longrightarrow> \<exists>t i m. e = Error t i m"
proof (induction tt start pos n d rule: lex_strlike_loop.induct)
  case (1 tt start pos n d)
  show ?case
  proof (cases pos)
    case Nil
    with 1 show ?thesis by (auto simp: lex_strlike_loop_Nil make_result_defs)
  next
    case (Cons c rest)
    note IH = 1(1-3) [OF Cons] and eq = 1(4) [unfolded Cons lex_strlike_loop_Cons]
    show ?thesis
      using IH eq Cons by (auto simp: make_result_defs split: if_splits option.splits)
  qed
qed

lemma strlike_error:
  assumes "is_lit tt" "lex_one_strlike pos tt = Inl e"
  shows "\<exists>t i m. e = Error t i m"
proof -
  have size: "lex_one_strlike_check_size v tt = Inl e \<Longrightarrow> \<exists>t i m. e = Error t i m" for v
    by (auto simp: lex_one_strlike_check_size_def make_result_defs split: if_splits)
  have span: "map_span_to_strlike tt (take n' (tl pos)) \<noteq> Inl e"
    if loop: "lex_strlike_loop tt (tl pos) (tl pos) 0 False = Inr (pos', n', d')" for pos' n' d'
  proof -
    obtain w where "tl pos = w @ pos'" "n' = length w"
      "\<exists>out. map_span_loop tt False False w = Inr out"
      using map_span_loop_ok [OF loop assms(1)] by auto
    then show ?thesis by (auto simp: map_span_to_strlike_def)
  qed
  show ?thesis
    using assms(2) strlike_loop_error size span
    by (auto simp: lex_one_strlike_def Let_def check_iff split: if_splits)
qed

lemma one_token_error:
  assumes "lex_one_token pos = Inl e"
  shows "\<exists>t i m. e = Error t i m"
proof -
  have peek: "lex_peek_ok p v = Inl e \<Longrightarrow> \<exists>t i m. e = Error t i m" for p v
    by (auto simp: lex_peek_ok_def Let_def make_result_defs split: if_splits)
  have num: "lex_one_constant_numeric pos = Inl e \<Longrightarrow> isdigit (peek pos) \<or> isdot (peek pos) \<Longrightarrow>
      \<exists>t i m. e = Error t i m"
    by (auto simp: lex_one_constant_numeric_def lex_one_constant_numeric_finalize_def Let_def
        make_result_defs split: if_splits prod.splits)
  have lit: "is_lit TOKEN_CONSTANT_CHAR" "is_lit TOKEN_CONSTANT_STR" by (simp_all add: is_lit_def)
  show ?thesis
    using assms num peek strlike_error [OF lit(1)] strlike_error [OF lit(2)]
    by (auto simp: lex_one_token_def Let_def check_iff make_result_defs
        split: option.splits prod.splits if_splits)
qed

lemma lex_loop_error: "lex_loop src = Inl e \<Longrightarrow> \<exists>t i m. e = Error t i m"
proof (induction src rule: lex_loop.induct)
  case (1 src)
  from 1(3) show ?case
    using one_token_error 1(1,2)
    by (subst (asm) lex_loop.simps) (auto simp: check_iff split: if_splits)
qed

text \<open>A literal that the text ends in, or a line end inside one, is an error.\<close>

lemma unterminated:
  assumes "is_lit tt"
  shows "lex_strlike_loop tt start (escape_text tt s) n d =
      make_result_t (Lex ERR_LEX_CHAR_EXPECT_MORE)"
    and "lex_strlike_loop tt start (escape_text tt s @ CHR 0x0A # r) n d =
      make_result_t (Lex ERR_LEX_CHAR_INVALID_NEWLINE)"
  using loop_escape [OF assms, of start s "[]" n d] loop_escape [OF assms, of start s "_ # r" n d]
  by (simp_all add: lex_strlike_loop_Nil lex_strlike_loop_Cons is_delimiter_lit [OF assms]
      lit_quote_def is_newline_def)

lemma lex_unterminated:
  assumes "is_lit tt"
  shows "lex_one_token (lit_quote tt # escape_text tt s) =
      make_result_t (Lex ERR_LEX_CHAR_EXPECT_MORE)"
    and "lex_one_token (lit_quote tt # escape_text tt s @ CHR 0x0A # r) =
      make_result_t (Lex ERR_LEX_CHAR_INVALID_NEWLINE)"
proof -
  have q: "map_of FOREACH_LEX_CHAR (lit_quote tt) = None"
    "tt = TOKEN_CONSTANT_CHAR \<and> is_quote_single (lit_quote tt) \<or>
     tt = TOKEN_CONSTANT_STR \<and> \<not> is_quote_single (lit_quote tt) \<and> is_quote_double (lit_quote tt)"
    using assms
    by (auto simp: is_lit_def lit_quote_def FOREACH_LEX_CHAR_def is_quote_single_def
        is_quote_double_def)
  have one: "lex_one_strlike (lit_quote tt # escape_text tt s) tt =
      make_result_t (Lex ERR_LEX_CHAR_EXPECT_MORE)"
    "lex_one_strlike (lit_quote tt # escape_text tt s @ CHR 0x0A # r) tt =
      make_result_t (Lex ERR_LEX_CHAR_INVALID_NEWLINE)"
    by (simp_all add: lex_one_strlike_def unterminated [OF assms] make_result_defs)
  show "lex_one_token (lit_quote tt # escape_text tt s) =
      make_result_t (Lex ERR_LEX_CHAR_EXPECT_MORE)"
    using q(2) one(1) by (auto simp: lex_one_token_def peek_def q(1) Let_def make_result_defs)
  show "lex_one_token (lit_quote tt # escape_text tt s @ CHR 0x0A # r) =
      make_result_t (Lex ERR_LEX_CHAR_INVALID_NEWLINE)"
    using q(2) one(2) by (auto simp: lex_one_token_def peek_def q(1) Let_def make_result_defs)
qed

end
