(* ===== verification/CTypes.thy ===== *)
theory CTypes
  imports Result
begin

text \<open>
  \<^verbatim>\<open>src/lang/types.h\<close> and \<^verbatim>\<open>src/lang/types.c\<close>: the C types of the compiled program.

  \<^verbatim>\<open>struct ctype\<close> is a tagged union in the source: the tag \<^verbatim>\<open>t\<close>, a flag
  \<^verbatim>\<open>maybe_null_pointer_constant\<close>, a \<^verbatim>\<open>referent\<close> that only arrays and pointers have and a
  size \<^verbatim>\<open>sz\<close> that only arrays have. The model is the datatype with one constructor per
  tag. A chain of array and pointer nodes whose innermost \<^verbatim>\<open>referent\<close> is still null (the
  parser builds such fragments) is not a \<open>ctype\<close>; the parser model keeps it as a list.
\<close>

datatype ctype =
    CTYPE_CHAR (maybe_null_pointer_constant: bool)
  | CTYPE_SIGNED_CHAR (maybe_null_pointer_constant: bool)
  | CTYPE_UNSIGNED_CHAR (maybe_null_pointer_constant: bool)
  | CTYPE_INT (maybe_null_pointer_constant: bool)
  | CTYPE_UNSIGNED_INT (maybe_null_pointer_constant: bool)
  | CTYPE_LONG (maybe_null_pointer_constant: bool)
  | CTYPE_UNSIGNED_LONG (maybe_null_pointer_constant: bool)
  | CTYPE_DOUBLE (maybe_null_pointer_constant: bool)
  | CTYPE_ARRAY_OF (maybe_null_pointer_constant: bool) (referent: ctype) (sz: u64)
  | CTYPE_POINTER_TO (maybe_null_pointer_constant: bool) (referent: ctype)
  | CTYPE_VOID (maybe_null_pointer_constant: bool)

text \<open>The position of the tag in \<^verbatim>\<open>FOREACH_CTYPE\<close>, which is the conversion rank.\<close>

fun ctype_t :: "ctype \<Rightarrow> nat" where
  "ctype_t (CTYPE_CHAR _) = 0"
| "ctype_t (CTYPE_SIGNED_CHAR _) = 1"
| "ctype_t (CTYPE_UNSIGNED_CHAR _) = 2"
| "ctype_t (CTYPE_INT _) = 3"
| "ctype_t (CTYPE_UNSIGNED_INT _) = 4"
| "ctype_t (CTYPE_LONG _) = 5"
| "ctype_t (CTYPE_UNSIGNED_LONG _) = 6"
| "ctype_t (CTYPE_DOUBLE _) = 7"
| "ctype_t (CTYPE_ARRAY_OF _ _ _) = 8"
| "ctype_t (CTYPE_POINTER_TO _ _) = 9"
| "ctype_t (CTYPE_VOID _) = 10"

text \<open>A zero-initialised \<^verbatim>\<open>struct ctype\<close>.\<close>

definition ctype_zero :: ctype where "ctype_zero = CTYPE_CHAR False"

definition ctype_alloc_str_literal :: "string \<Rightarrow> ctype" where
  "ctype_alloc_str_literal src = CTYPE_ARRAY_OF False (CTYPE_CHAR False) (of_nat (length src))"

text \<open>\<^verbatim>\<open>ctype_copy()\<close> is a deep copy, so it is the identity on values.\<close>

fun ctype_copy :: "ctype \<Rightarrow> ctype" where
  "ctype_copy (CTYPE_ARRAY_OF n r s) = CTYPE_ARRAY_OF n (ctype_copy r) s"
| "ctype_copy (CTYPE_POINTER_TO n r) = CTYPE_POINTER_TO n (ctype_copy r)"
| "ctype_copy c = c"

lemma ctype_copy_id [simp]: "ctype_copy c = c"
  by (induction c) auto

text \<open>
  The multiplication is a signed one on \<^verbatim>\<open>long long int\<close>; the word product is its
  two's-complement value (where it overflows, the C behaviour is undefined).
\<close>

fun ctype_to_size_bytes :: "ctype \<Rightarrow> u64 result" where
  "ctype_to_size_bytes (CTYPE_VOID _) = Inr 0"
| "ctype_to_size_bytes (CTYPE_CHAR _) = Inr 1"
| "ctype_to_size_bytes (CTYPE_SIGNED_CHAR _) = Inr 1"
| "ctype_to_size_bytes (CTYPE_UNSIGNED_CHAR _) = Inr 1"
| "ctype_to_size_bytes (CTYPE_INT _) = Inr 4"
| "ctype_to_size_bytes (CTYPE_UNSIGNED_INT _) = Inr 4"
| "ctype_to_size_bytes (CTYPE_LONG _) = Inr 8"
| "ctype_to_size_bytes (CTYPE_UNSIGNED_LONG _) = Inr 8"
| "ctype_to_size_bytes (CTYPE_DOUBLE _) = Inr 8"
| "ctype_to_size_bytes (CTYPE_POINTER_TO _ _) = Inr 8"
| "ctype_to_size_bytes (CTYPE_ARRAY_OF _ r s) =
     assert_that (s > 0 \<and> uint s < LLONG_MAX)
       (check (ctype_to_size_bytes r) (\<lambda>n. Inr (s * n)))"

definition ctype_is_array :: "ctype \<Rightarrow> bool" where
  "ctype_is_array c = (case c of CTYPE_ARRAY_OF _ _ _ \<Rightarrow> True | _ \<Rightarrow> False)"

definition ctype_is_pointer :: "ctype \<Rightarrow> bool" where
  "ctype_is_pointer c = (case c of CTYPE_POINTER_TO _ _ \<Rightarrow> True | _ \<Rightarrow> ctype_is_array c)"

fun ctype_is_integer :: "ctype \<Rightarrow> bool" where
  "ctype_is_integer (CTYPE_CHAR _) = True"
| "ctype_is_integer (CTYPE_SIGNED_CHAR _) = True"
| "ctype_is_integer (CTYPE_UNSIGNED_CHAR _) = True"
| "ctype_is_integer (CTYPE_INT _) = True"
| "ctype_is_integer (CTYPE_UNSIGNED_INT _) = True"
| "ctype_is_integer (CTYPE_LONG _) = True"
| "ctype_is_integer (CTYPE_UNSIGNED_LONG _) = True"
| "ctype_is_integer _ = False"

fun ctype_is_signed :: "ctype \<Rightarrow> bool" where
  "ctype_is_signed (CTYPE_CHAR _) = True"
| "ctype_is_signed (CTYPE_SIGNED_CHAR _) = True"
| "ctype_is_signed (CTYPE_INT _) = True"
| "ctype_is_signed (CTYPE_LONG _) = True"
| "ctype_is_signed (CTYPE_DOUBLE _) = True"
| "ctype_is_signed _ = False"

definition ctype_is_floating_point :: "ctype \<Rightarrow> bool" where
  "ctype_is_floating_point c = (case c of CTYPE_DOUBLE _ \<Rightarrow> True | _ \<Rightarrow> False)"

fun ctype_is_charlike :: "ctype \<Rightarrow> bool" where
  "ctype_is_charlike (CTYPE_CHAR _) = True"
| "ctype_is_charlike (CTYPE_SIGNED_CHAR _) = True"
| "ctype_is_charlike (CTYPE_UNSIGNED_CHAR _) = True"
| "ctype_is_charlike _ = False"

definition ctype_is_strlike_array :: "ctype \<Rightarrow> bool" where
  "ctype_is_strlike_array c =
     (case c of CTYPE_ARRAY_OF _ r _ \<Rightarrow> ctype_is_charlike r | _ \<Rightarrow> False)"

definition ctype_is_strlike_ptr :: "ctype \<Rightarrow> bool" where
  "ctype_is_strlike_ptr c =
     (case c of CTYPE_POINTER_TO _ (CTYPE_CHAR _) \<Rightarrow> True | _ \<Rightarrow> False)"

definition ctype_is_void :: "ctype \<Rightarrow> bool" where
  "ctype_is_void c = (case c of CTYPE_VOID _ \<Rightarrow> True | _ \<Rightarrow> False)"

definition ctype_is_void_ptr :: "ctype \<Rightarrow> bool" where
  "ctype_is_void_ptr c = (case c of CTYPE_POINTER_TO _ r \<Rightarrow> ctype_is_void r | _ \<Rightarrow> False)"

definition ctype_is_incomplete :: "ctype \<Rightarrow> bool" where
  "ctype_is_incomplete c = ctype_is_void c"

definition ctype_is_ptr_to_incomplete :: "ctype \<Rightarrow> bool" where
  "ctype_is_ptr_to_incomplete c = ctype_is_void_ptr c"

definition ctype_nullptr_ish :: "ctype \<Rightarrow> bool" where
  "ctype_nullptr_ish c = maybe_null_pointer_constant c"

text \<open>
  \<^verbatim>\<open>get_common_ctype()\<close> returns one of its two pointers, and for two pointer types compares
  the pointer its recursion returns with \<^verbatim>\<open>lhs->referent\<close>. \<open>common_is_lhs\<close> is that choice.
\<close>

fun common_is_lhs :: "ctype \<Rightarrow> ctype \<Rightarrow> bool" where
  "common_is_lhs (CTYPE_POINTER_TO _ l) (CTYPE_POINTER_TO _ r) = common_is_lhs l r"
| "common_is_lhs lhs rhs = (ctype_t lhs \<ge> ctype_t rhs)"

definition get_common_ctype :: "ctype \<Rightarrow> ctype \<Rightarrow> ctype" where
  "get_common_ctype lhs rhs = (if common_is_lhs lhs rhs then lhs else rhs)"

text \<open>The test of the referents is the source's, with \<open>None\<close> for a null referent.\<close>

definition referent_opt :: "ctype \<Rightarrow> ctype option" where
  "referent_opt c = (if ctype_is_pointer c then Some (referent c) else None)"

lemma referent_opt_simps [simp]:
  "referent_opt (CTYPE_ARRAY_OF n r s) = Some r"
  "referent_opt (CTYPE_POINTER_TO n r) = Some r"
  "\<not> ctype_is_pointer c \<Longrightarrow> referent_opt c = None"
  by (simp_all add: referent_opt_def ctype_is_pointer_def ctype_is_array_def)

lemma size_referent_opt: "referent_opt c = Some r \<Longrightarrow> size r < size c"
  by (cases c) (auto simp: referent_opt_def ctype_is_pointer_def ctype_is_array_def)

function ctype_is_equal_impl :: "ctype \<Rightarrow> ctype \<Rightarrow> bool \<Rightarrow> bool" where
  "ctype_is_equal_impl lhs rhs array_to_pointer_decay =
     (if ctype_is_array lhs \<and> ctype_is_array rhs \<and> sz lhs \<noteq> sz rhs then False
      else if ((ctype_is_array lhs \<and> ctype_is_pointer rhs) \<or>
               (ctype_is_pointer lhs \<and> ctype_is_array rhs)) \<and> array_to_pointer_decay
      then (case (referent_opt lhs, referent_opt rhs) of
              (Some l, Some r) \<Rightarrow> ctype_is_equal_impl l r True
            | _ \<Rightarrow> False)
      else if ctype_t lhs \<noteq> ctype_t rhs then False
      else (case (referent_opt lhs, referent_opt rhs) of
              (None, None) \<Rightarrow> True
            | (Some l, Some r) \<Rightarrow> ctype_is_equal_impl l r False
            | _ \<Rightarrow> False))"
  by pat_completeness auto
termination
  by (relation "measure (\<lambda>(l, r, d). size l)") (auto dest!: size_referent_opt [OF sym])

declare ctype_is_equal_impl.simps [simp del]

definition ctype_is_equal :: "ctype \<Rightarrow> ctype \<Rightarrow> bool" where
  "ctype_is_equal lhs rhs = ctype_is_equal_impl lhs rhs True"

definition ctype_array_decay_to_pointer :: "ctype \<Rightarrow> ctype" where
  "ctype_array_decay_to_pointer c =
     (case c of CTYPE_ARRAY_OF _ r _ \<Rightarrow> CTYPE_POINTER_TO False r | _ \<Rightarrow> c)"

lemmas ctype_pred_defs =
  ctype_is_array_def ctype_is_pointer_def ctype_is_floating_point_def ctype_is_strlike_array_def
  ctype_is_strlike_ptr_def ctype_is_void_def ctype_is_void_ptr_def ctype_is_incomplete_def
  ctype_is_ptr_to_incomplete_def ctype_nullptr_ish_def

lemma ctype_is_array_simps [simp]:
  "ctype_is_array (CTYPE_ARRAY_OF n r s)" "\<not> ctype_is_array (CTYPE_POINTER_TO n r)"
  "ctype_is_pointer (CTYPE_ARRAY_OF n r s)" "ctype_is_pointer (CTYPE_POINTER_TO n r)"
  by (simp_all add: ctype_pred_defs)

section \<open>Sizes\<close>

text \<open>The size of a type as a number, without a bound.\<close>

fun ctype_bytes :: "ctype \<Rightarrow> nat" where
  "ctype_bytes (CTYPE_ARRAY_OF _ r s) = unat s * ctype_bytes r"
| "ctype_bytes (CTYPE_VOID _) = 0"
| "ctype_bytes c =
     (if ctype_is_charlike c then 1 else if ctype_t c \<in> {3, 4} then 4 else 8)"

text \<open>Every array of the type has a size that the assertion of the source accepts.\<close>

fun ctype_sizes_ok :: "ctype \<Rightarrow> bool" where
  "ctype_sizes_ok (CTYPE_ARRAY_OF _ r s) = (s > 0 \<and> uint s < LLONG_MAX \<and> ctype_sizes_ok r)"
| "ctype_sizes_ok _ = True"

lemma size_bytes_word:
  "ctype_to_size_bytes c = (if ctype_sizes_ok c then Inr (of_nat (ctype_bytes c)) else Inl Abort)"
  by (induction c) (auto simp: assert_that_def)

lemma size_bytes_exact:
  assumes "ctype_sizes_ok c" and "ctype_bytes c < 2 ^ 63"
  shows "\<exists>n. ctype_to_size_bytes c = Inr n \<and> sint n = int (ctype_bytes c)"
proof -
  have "sint (of_nat (ctype_bytes c) :: u64) = int (ctype_bytes c)"
    using assms(2) by (simp add: signed_of_nat signed_take_bit_int_eq_self)
  then show ?thesis using assms(1) by (simp add: size_bytes_word)
qed

section \<open>Equality of types\<close>

text \<open>The type without its null-pointer-constant flags, which equality ignores.\<close>

fun ctype_strip :: "ctype \<Rightarrow> ctype" where
  "ctype_strip (CTYPE_CHAR _) = CTYPE_CHAR False"
| "ctype_strip (CTYPE_SIGNED_CHAR _) = CTYPE_SIGNED_CHAR False"
| "ctype_strip (CTYPE_UNSIGNED_CHAR _) = CTYPE_UNSIGNED_CHAR False"
| "ctype_strip (CTYPE_INT _) = CTYPE_INT False"
| "ctype_strip (CTYPE_UNSIGNED_INT _) = CTYPE_UNSIGNED_INT False"
| "ctype_strip (CTYPE_LONG _) = CTYPE_LONG False"
| "ctype_strip (CTYPE_UNSIGNED_LONG _) = CTYPE_UNSIGNED_LONG False"
| "ctype_strip (CTYPE_DOUBLE _) = CTYPE_DOUBLE False"
| "ctype_strip (CTYPE_ARRAY_OF _ r s) = CTYPE_ARRAY_OF False (ctype_strip r) s"
| "ctype_strip (CTYPE_POINTER_TO _ r) = CTYPE_POINTER_TO False (ctype_strip r)"
| "ctype_strip (CTYPE_VOID _) = CTYPE_VOID False"

text \<open>The leading array layers turned into pointers.\<close>

fun ctype_decay_all :: "ctype \<Rightarrow> ctype" where
  "ctype_decay_all (CTYPE_ARRAY_OF n r s) = CTYPE_POINTER_TO False (ctype_decay_all r)"
| "ctype_decay_all c = c"

lemma equal_impl_nodecay:
  "ctype_is_equal_impl l r False \<longleftrightarrow> ctype_strip l = ctype_strip r"
proof (induction l arbitrary: r)
  case (CTYPE_ARRAY_OF n l s)
  then show ?case
    by (cases r; subst ctype_is_equal_impl.simps) (auto simp: ctype_pred_defs referent_opt_def)
next
  case (CTYPE_POINTER_TO n l)
  then show ?case
    by (cases r; subst ctype_is_equal_impl.simps) (auto simp: ctype_pred_defs referent_opt_def)
qed (case_tac r; subst ctype_is_equal_impl.simps;
     auto simp: ctype_pred_defs referent_opt_def)+

lemma ctype_t_strip [simp]: "ctype_t (ctype_strip c) = ctype_t c"
  by (cases c) auto

lemma equal_impl_sym: "ctype_is_equal_impl l r d = ctype_is_equal_impl r l d"
proof (induction l r d rule: ctype_is_equal_impl.induct)
  case (1 l r d)
  show ?case
    using 1
    by (subst (1 2) ctype_is_equal_impl.simps)
      (auto split: option.splits simp: equal_impl_nodecay)
qed

lemma ctype_is_equal_sym: "ctype_is_equal l r = ctype_is_equal r l"
  unfolding ctype_is_equal_def by (rule equal_impl_sym)

lemma equal_impl_refl: "ctype_is_equal_impl c c d"
proof (induction c arbitrary: d)
  case (CTYPE_ARRAY_OF n c s)
  then show ?case by (subst ctype_is_equal_impl.simps) (simp add: ctype_pred_defs referent_opt_def)
next
  case (CTYPE_POINTER_TO n c)
  then show ?case by (subst ctype_is_equal_impl.simps) (simp add: ctype_pred_defs referent_opt_def)
qed (subst ctype_is_equal_impl.simps; simp add: ctype_pred_defs referent_opt_def)+

lemma ctype_is_equal_refl [simp]: "ctype_is_equal c c"
  by (simp add: ctype_is_equal_def equal_impl_refl)

text \<open>Without arrays at the top, equality is equality of the stripped types.\<close>

lemma ctype_is_equal_no_array:
  assumes "\<not> ctype_is_array l" "\<not> ctype_is_array r"
  shows "ctype_is_equal l r \<longleftrightarrow> ctype_strip l = ctype_strip r"
proof -
  have "ctype_is_equal l r = ctype_is_equal_impl l r False"
    unfolding ctype_is_equal_def using assms
    by (subst (1 2) ctype_is_equal_impl.simps) simp
  then show ?thesis by (simp add: equal_impl_nodecay)
qed

lemma ctype_is_equal_array_pointer:
  "ctype_is_equal (CTYPE_ARRAY_OF n l s) (CTYPE_POINTER_TO m r) = ctype_is_equal l r"
  unfolding ctype_is_equal_def by (subst ctype_is_equal_impl.simps) simp

lemma ctype_is_equal_array_array:
  "ctype_is_equal (CTYPE_ARRAY_OF n l s) (CTYPE_ARRAY_OF m r s') \<longleftrightarrow> s = s' \<and> ctype_is_equal l r"
  unfolding ctype_is_equal_def by (subst ctype_is_equal_impl.simps) simp

lemma decay_not_array [simp]: "\<not> ctype_is_array (ctype_array_decay_to_pointer c)"
  by (cases c) (auto simp: ctype_array_decay_to_pointer_def ctype_pred_defs)

lemma decay_is_equal: "ctype_is_equal c (ctype_array_decay_to_pointer c)"
  by (cases c) (auto simp: ctype_array_decay_to_pointer_def ctype_is_equal_array_pointer)

lemma common_cases: "get_common_ctype l r = l \<or> get_common_ctype l r = r"
  by (simp add: get_common_ctype_def)

lemma common_rank: "ctype_t (get_common_ctype l r) = max (ctype_t l) (ctype_t r)"
  by (cases l; cases r) (auto simp: get_common_ctype_def)

end
