(* ===== verification/Supply.thy ===== *)
theory Supply
  imports Prelude
begin

text \<open>
  The interface between the passes and the counters that hand out identifiers. Several
  components of the compiler promise the same thing, that a number they hand out is one
  that was never handed out before: the symbol table (\<^verbatim>\<open>symbol.c\<close>, unique IDs of
  symbols), and the label and temporary generators of the later passes. The locale names
  the promise; the client lemmas below it are proved once, for every provider.

  A provider is a step function: it takes a state and an operation, and returns the new
  state and the identifier handed out, if any. \<open>bound s\<close> is the largest identifier that
  \<open>s\<close> may ever have handed out.
\<close>

fun supply_run :: "('s \<Rightarrow> 'a \<Rightarrow> 's \<times> int option) \<Rightarrow> 's \<Rightarrow> 'a list \<Rightarrow> 's \<times> int list" where
  "supply_run step s [] = (s, [])"
| "supply_run step s (a # as) =
     (case step s a of (s', i) \<Rightarrow>
      (case supply_run step s' as of (s'', is) \<Rightarrow>
        (s'', (case i of None \<Rightarrow> is | Some j \<Rightarrow> j # is))))"

text \<open>The operations of a run are allowed one after the other.\<close>

fun supply_ok ::
  "('s \<Rightarrow> 'a \<Rightarrow> 's \<times> int option) \<Rightarrow> ('s \<Rightarrow> 'a \<Rightarrow> bool) \<Rightarrow> 's \<Rightarrow> 'a list \<Rightarrow> bool" where
  "supply_ok step ok s [] = True"
| "supply_ok step ok s (a # as) = (ok s a \<and> supply_ok step ok (fst (step s a)) as)"

locale id_supply =
  fixes step :: "'s \<Rightarrow> 'a \<Rightarrow> 's \<times> int option"
    and ok :: "'s \<Rightarrow> 'a \<Rightarrow> bool"
    and inv :: "'s \<Rightarrow> bool"
    and bound :: "'s \<Rightarrow> int"
  assumes step_inv: "inv s \<Longrightarrow> ok s a \<Longrightarrow> inv (fst (step s a))"
    and step_fresh: "inv s \<Longrightarrow> ok s a \<Longrightarrow> snd (step s a) = Some i \<Longrightarrow>
      bound s < i \<and> i \<le> bound (fst (step s a))"
    and step_bound: "inv s \<Longrightarrow> ok s a \<Longrightarrow> bound s \<le> bound (fst (step s a))"
begin

lemma run_inv:
  "inv s \<Longrightarrow> supply_ok step ok s as \<Longrightarrow> inv (fst (supply_run step s as))"
proof (induction "as" arbitrary: s)
  case (Cons a "as")
  then show ?case
    using step_inv [of s a] by (auto split: prod.splits simp: split_beta)
qed simp

lemma run_bound:
  "inv s \<Longrightarrow> supply_ok step ok s as \<Longrightarrow> bound s \<le> bound (fst (supply_run step s as))"
proof (induction "as" arbitrary: s)
  case (Cons a "as")
  have "bound (fst (step s a)) \<le> bound (fst (supply_run step (fst (step s a)) as))"
    using Cons step_inv [of s a] by simp
  with Cons.prems step_bound [of s a] show ?case by (auto simp: split_beta)
qed simp

text \<open>Every identifier of a run lies above the bound of the state the run started from.\<close>

lemma run_fresh:
  assumes "inv s" "supply_ok step ok s as"
  shows "sorted_wrt (<) (snd (supply_run step s as)) \<and>
    (\<forall>i \<in> set (snd (supply_run step s as)).
       bound s < i \<and> i \<le> bound (fst (supply_run step s as)))"
  using assms
proof (induction "as" arbitrary: s)
  case (Cons a "as")
  let ?s' = "fst (step s a)"
  have ok: "ok s a" and rest: "supply_ok step ok ?s' as" and inv: "inv ?s'"
    using Cons.prems step_inv by auto
  note IH = Cons.IH [OF inv rest]
  note rb = run_bound [OF inv rest]
  note b = step_bound [OF Cons.prems(1) ok]
  show ?case
  proof (cases "snd (step s a)")
    case None
    with IH b show ?thesis by (fastforce simp: split_beta)
  next
    case (Some j)
    have j: "bound s < j" "j \<le> bound ?s'"
      using step_fresh [OF Cons.prems(1) ok Some] by auto
    with Some IH b rb show ?thesis by (fastforce simp: split_beta)
  qed
qed simp

lemma run_distinct:
  assumes "inv s" "supply_ok step ok s as"
  shows "distinct (snd (supply_run step s as))"
proof -
  have "sorted_wrt (<) (snd (supply_run step s as))"
    using run_fresh [OF assms] by blast
  then show ?thesis by (induction "snd (supply_run step s as)") (auto simp: strict_sorted_iff)
qed

end

end
