(* ===== verification/Symbols.thy ===== *)
theory Symbols
  imports CTypes Supply Decimal
begin

text \<open>
  \<^verbatim>\<open>src/lang/symbol.h\<close> and \<^verbatim>\<open>src/lang/symbol.c\<close>: the symbol table and the constant
  initializers attached to its symbols.

  The table is a singly linked list with the innermost symbol first. A pass pushes nodes
  with \<^verbatim>\<open>symbols_prepend()\<close> and drops them again with \<^verbatim>\<open>symbols_reset_scope()\<close>, whose
  reset point is a node of the list, so that the list is always a stack. The model is a
  list of symbols; a pointer to a node of the table is the number of nodes from that node
  to the end of the list (0 is the null pointer), which stays valid while nodes are pushed
  in front of it. \<^verbatim>\<open>auxiliary\<close>, an opaque pointer only sema uses, is left out.
\<close>

datatype symbol_type =
    SYMBOL_VARIABLE
  | SYMBOL_FUNCTION_DECLARATION
  | SYMBOL_FUNCTION_DEFINITION
  | SYMBOL_STRING_LITERAL

datatype symbol_linkage = SYMBOL_LINKAGE_NONE | SYMBOL_LINKAGE_INTERNAL | SYMBOL_LINKAGE_EXTERNAL

fun linkage_num :: "symbol_linkage \<Rightarrow> nat" where
  "linkage_num SYMBOL_LINKAGE_NONE = 0"
| "linkage_num SYMBOL_LINKAGE_INTERNAL = 1000"
| "linkage_num SYMBOL_LINKAGE_EXTERNAL = 2000"

definition is_internal :: "symbol_linkage \<Rightarrow> bool" where
  "is_internal l = (l = SYMBOL_LINKAGE_INTERNAL)"

definition is_external :: "symbol_linkage \<Rightarrow> bool" where
  "is_external l = (l = SYMBOL_LINKAGE_EXTERNAL)"

definition some_linkage :: "symbol_linkage \<Rightarrow> bool" where
  "some_linkage l = (is_external l \<or> is_internal l)"

datatype initial_value =
  INITIAL_VALUE_NO_INITIALIZER | INITIAL_VALUE_TENTATIVE | INITIAL_VALUE_CONSTANT

record constant_bytes =
  byte_count :: u64
  byte_value :: u64
  cb_unique :: int

text \<open>\<^verbatim>\<open>struct constant_initializer\<close>: \<^verbatim>\<open>count\<close> is the length of the list.\<close>

type_synonym constant_initializer = "constant_bytes list"

record symbol_linkage_state =
  linkage :: symbol_linkage
  initial :: initial_value
  initializer :: constant_initializer

record symbol =
  sym_name :: string
  stype :: symbol_type
  c89type :: ctype
  unique :: int
  cookie :: int
  level_delimiter :: bool
  sym_linkage :: symbol_linkage_state

type_synonym node = nat

section \<open>Constant initializers\<close>

text \<open>A \<open>double\<close> is already its 64 bits here, which is what the \<^verbatim>\<open>memcpy()\<close> gives.\<close>

definition get_double_as_quadword :: "double \<Rightarrow> u64" where
  "get_double_as_quadword value = value"

fun get_initializer_element_count :: "ctype \<Rightarrow> u64" where
  "get_initializer_element_count (CTYPE_ARRAY_OF _ r s) = s * get_initializer_element_count r"
| "get_initializer_element_count _ = 1"

fun get_initializer_element_size_bytes :: "ctype \<Rightarrow> u64 result" where
  "get_initializer_element_size_bytes (CTYPE_ARRAY_OF _ r s) =
     get_initializer_element_size_bytes r"
| "get_initializer_element_size_bytes c = ctype_to_size_bytes c"

definition constant_set_zero :: "ctype \<Rightarrow> constant_initializer result" where
  "constant_set_zero ct =
     (let count = get_initializer_element_count ct in
      check (get_initializer_element_size_bytes ct) (\<lambda>element_size_bytes.
      Inr (replicate (unat count)
             \<lparr>byte_count = element_size_bytes, byte_value = 0, cb_unique = 0\<rparr>)))"

definition constant_make_zero :: "ctype \<Rightarrow> constant_initializer result" where
  "constant_make_zero ct = constant_set_zero ct"

definition constant_is_zero :: "constant_initializer \<Rightarrow> bool result" where
  "constant_is_zero ci =
     assert_that (length ci > 0)
       (Inr (list_all (\<lambda>e. \<not> (byte_value e \<noteq> 0 \<or> cb_unique e \<noteq> 0)) ci))"

definition constant_byte_count :: "constant_initializer \<Rightarrow> u64" where
  "constant_byte_count ci = foldl (\<lambda>n e. n + byte_count e) 0 ci"

section \<open>The symbol table\<close>

definition symbols_prepend ::
  "symbol list \<Rightarrow> string \<Rightarrow> symbol_type \<Rightarrow> ctype \<Rightarrow> symbol list" where
  "symbols_prepend head name st c =
     (let zero_linkage = \<lparr>linkage = SYMBOL_LINKAGE_NONE,
            initial = INITIAL_VALUE_NO_INITIALIZER, initializer = []\<rparr>;
          base = (case head of [] \<Rightarrow> 0 | h # _ \<Rightarrow> max (unique h) (cookie h));
          uniq = (case head of [] \<Rightarrow> 0 | h # _ \<Rightarrow> base + 1);
          cook = (case head of [] \<Rightarrow> 0 | h # _ \<Rightarrow> max uniq (cookie h))
      in \<lparr>sym_name = name, stype = st, c89type = ctype_copy c, unique = uniq, cookie = cook,
          level_delimiter = False, sym_linkage = zero_linkage\<rparr> # head)"

fun symbols_get_impl :: "symbol list \<Rightarrow> string \<Rightarrow> bool \<Rightarrow> symbol option" where
  "symbols_get_impl [] name stop_at_delimiter = None"
| "symbols_get_impl (head # next) name stop_at_delimiter =
     (if stop_at_delimiter \<and> level_delimiter head then None
      else if sym_name head = name then Some head
      else symbols_get_impl next name stop_at_delimiter)"

definition symbols_get_limited :: "symbol list \<Rightarrow> string \<Rightarrow> symbol option" where
  "symbols_get_limited head name = symbols_get_impl head name True"

definition symbols_get_anywhere :: "symbol list \<Rightarrow> string \<Rightarrow> symbol option" where
  "symbols_get_anywhere head name = symbols_get_impl head name False"

fun symbols_get_unique :: "symbol list \<Rightarrow> int \<Rightarrow> symbol option" where
  "symbols_get_unique [] u = None"
| "symbols_get_unique (head # next) u =
     (if unique head = u then Some head else symbols_get_unique next u)"

text \<open>The nodes from node \<open>n\<close> on.\<close>

definition suffix_at :: "node \<Rightarrow> 'a list \<Rightarrow> 'a list" where
  "suffix_at n xs = drop (length xs - n) xs"

definition symbols_reset_scope :: "symbol list \<Rightarrow> node \<Rightarrow> symbol list" where
  "symbols_reset_scope symbols reset_point =
     (case suffix_at reset_point symbols of
        [] \<Rightarrow> []
      | s # rest \<Rightarrow> s\<lparr>cookie := cookie (hd symbols)\<rparr> # rest)"

definition MANGLE_DELIMITER :: char where "MANGLE_DELIMITER = CHR ''.''"

definition is_mangled :: "symbol \<Rightarrow> bool" where
  "is_mangled s = (MANGLE_DELIMITER \<in> set (sym_name s))"

definition mangle_name :: "symbol \<Rightarrow> symbol" where
  "mangle_name s = s\<lparr>sym_name := sym_name s @ [MANGLE_DELIMITER] @ int_decimal (unique s)\<rparr>"

section \<open>Facts about initializers\<close>

lemma byte_count_replicate:
  "foldl (\<lambda>n e. n + byte_count e) m (replicate k e) = m + of_nat k * byte_count e"
  by (induction k arbitrary: m) (auto simp: algebra_simps)

lemma element_count_size:
  "ctype_sizes_ok c \<Longrightarrow> \<exists>n. get_initializer_element_size_bytes c = Inr n \<and>
     ctype_to_size_bytes c = Inr (get_initializer_element_count c * n)"
  by (induction c) auto

lemma constant_set_zero_size:
  assumes "ctype_to_size_bytes c = Inr n"
  shows "\<exists>ci. constant_set_zero c = Inr ci \<and> constant_byte_count ci = n"
proof -
  have "ctype_sizes_ok c" using assms by (simp add: size_bytes_word split: if_splits)
  from element_count_size [OF this] obtain k where
    "get_initializer_element_size_bytes c = Inr k"
    "ctype_to_size_bytes c = Inr (get_initializer_element_count c * k)" by blast
  with assms show ?thesis
    by (simp add: constant_set_zero_def constant_byte_count_def Let_def byte_count_replicate)
qed

lemma constant_set_zero_is_zero:
  assumes "constant_set_zero c = Inr ci" and "get_initializer_element_count c \<noteq> 0"
  shows "constant_is_zero ci = Inr True"
  using assms
  by (auto simp: constant_set_zero_def constant_is_zero_def Let_def check_iff list_all_iff
      unat_eq_0)

section \<open>Lookup as an environment\<close>

text \<open>
  The abstract view of the table is the map from names to the innermost symbol, without
  the two fields that belong to the list and not to the symbol.
\<close>

definition sym_view :: "symbol \<Rightarrow> symbol" where
  "sym_view s = s\<lparr>cookie := 0, level_delimiter := False\<rparr>"

definition symbols_env :: "symbol list \<Rightarrow> string \<rightharpoonup> symbol" where
  "symbols_env syms name = map_option sym_view (symbols_get_anywhere syms name)"

lemma symbols_env_Nil [simp]: "symbols_env [] = Map.empty"
  by (simp add: symbols_env_def symbols_get_anywhere_def fun_eq_iff)

lemma symbols_env_Cons [simp]:
  "symbols_env (s # ss) = (symbols_env ss)(sym_name s \<mapsto> sym_view s)"
  by (auto simp: symbols_env_def symbols_get_anywhere_def fun_eq_iff)

lemma sym_view_simps [simp]:
  "sym_view (s\<lparr>cookie := k\<rparr>) = sym_view s"
  "sym_view (s\<lparr>level_delimiter := b\<rparr>) = sym_view s"
  "unique (sym_view s) = unique s"
  "sym_name (sym_view s) = sym_name s"
  "sym_linkage (sym_view s) = sym_linkage s"
  "c89type (sym_view s) = c89type s"
  by (simp_all add: sym_view_def)

lemma suffix_at_length [simp]: "suffix_at (length xs) (ys @ xs) = xs"
  by (simp add: suffix_at_def)

lemma suffix_at_self [simp]: "suffix_at (length xs) xs = xs"
  by (simp add: suffix_at_def)

lemma symbols_env_prepend:
  "symbols_env (symbols_prepend ss name st c) name' =
     (if name' = name
      then Some (sym_view (hd (symbols_prepend ss name st c)))
      else symbols_env ss name')"
  by (simp add: symbols_prepend_def Let_def)

lemma symbols_reset_append:
  "symbols_reset_scope (new @ ss) (length ss) =
     (case ss of [] \<Rightarrow> [] | s # r \<Rightarrow> s\<lparr>cookie := cookie (hd (new @ ss))\<rparr> # r)"
  unfolding symbols_reset_scope_def suffix_at_length ..

lemma symbols_env_reset:
  "symbols_env (symbols_reset_scope (new @ ss) (length ss)) = symbols_env ss"
  by (simp add: symbols_reset_append split: list.split)

text \<open>A limited lookup is a lookup in the nodes in front of the first delimiter.\<close>

lemma get_limited_takeWhile:
  "symbols_get_limited ss name =
     symbols_get_anywhere (takeWhile (\<lambda>s. \<not> level_delimiter s) ss) name"
  unfolding symbols_get_limited_def symbols_get_anywhere_def
  by (induction ss) auto

lemma get_anywhere_name: "symbols_get_anywhere ss name = Some s \<Longrightarrow> s \<in> set ss \<and> sym_name s = name"
  unfolding symbols_get_anywhere_def by (induction ss) (auto split: if_splits)

section \<open>Unique IDs\<close>

text \<open>
  The invariant of the table: the cookie of the head is at least every ID in the list.
\<close>

definition symbols_inv :: "symbol list \<Rightarrow> bool" where
  "symbols_inv ss \<longleftrightarrow>
     (\<forall>s \<in> set ss. 0 \<le> unique s \<and> unique s \<le> cookie (hd ss))"

definition symbols_bound :: "symbol list \<Rightarrow> int" where
  "symbols_bound ss = (case ss of [] \<Rightarrow> -1 | s # _ \<Rightarrow> cookie s)"

text \<open>
  The three ways in which the passes change the table. \<open>Alias u\<close> is the redeclaration
  stub of \<^verbatim>\<open>resolve_declaration()\<close>: a node was just pushed, and takes on the ID \<open>u\<close>
  of a symbol that is already in the table.
\<close>

datatype symbols_op =
    Prepend string symbol_type ctype
  | Alias int
  | Reset node

fun symbols_step :: "symbol list \<Rightarrow> symbols_op \<Rightarrow> symbol list \<times> int option" where
  "symbols_step ss (Prepend name st c) =
     (let ss' = symbols_prepend ss name st c in (ss', Some (unique (hd ss'))))"
| "symbols_step ss (Alias u) = ((case ss of [] \<Rightarrow> [] | s # r \<Rightarrow> s\<lparr>unique := u\<rparr> # r), None)"
| "symbols_step ss (Reset n) = (symbols_reset_scope ss n, None)"

fun symbols_op_ok :: "symbol list \<Rightarrow> symbols_op \<Rightarrow> bool" where
  "symbols_op_ok ss (Prepend name st c) = True"
| "symbols_op_ok ss (Alias u) = (u \<in> unique ` set ss)"
| "symbols_op_ok ss (Reset n) = (0 < n \<and> n \<le> length ss)"

lemma symbols_inv_prepend: "symbols_inv ss \<Longrightarrow> symbols_inv (symbols_prepend ss name st c)"
  by (cases ss) (fastforce simp: symbols_inv_def symbols_prepend_def Let_def max_def)+

lemma symbols_prepend_unique:
  "symbols_inv ss \<Longrightarrow> unique (hd (symbols_prepend ss name st c)) = symbols_bound ss + 1"
  by (cases ss) (auto simp: symbols_inv_def symbols_prepend_def Let_def max_def symbols_bound_def)

lemma symbols_prepend_bound:
  "symbols_inv ss \<Longrightarrow> symbols_bound (symbols_prepend ss name st c) = symbols_bound ss + 1"
  by (cases ss) (auto simp: symbols_inv_def symbols_prepend_def Let_def max_def symbols_bound_def)

lemma reset_scope_cases:
  assumes "0 < n" "n \<le> length ss"
  obtains s r p where "ss = p @ s # r" "length (s # r) = n"
    "symbols_reset_scope ss n = s\<lparr>cookie := cookie (hd ss)\<rparr> # r"
proof -
  let ?p = "take (length ss - n) ss" and ?q = "drop (length ss - n) ss"
  have len: "length ?q = n" using assms by simp
  then obtain s r where q: "?q = s # r" using assms by (cases ?q) auto
  have "ss = ?p @ s # r" by (metis append_take_drop_id q)
  moreover have "symbols_reset_scope ss n = s\<lparr>cookie := cookie (hd ss)\<rparr> # r"
    using q by (simp add: symbols_reset_scope_def suffix_at_def)
  ultimately show thesis using that [of ?p s r] len q by simp
qed

lemma symbols_inv_reset:
  assumes inv: "symbols_inv ss" and n: "0 < n" "n \<le> length ss"
  shows "symbols_inv (symbols_reset_scope ss n) \<and>
    symbols_bound (symbols_reset_scope ss n) = symbols_bound ss"
proof -
  obtain s r p where ss: "ss = p @ s # r"
    and res: "symbols_reset_scope ss n = s\<lparr>cookie := cookie (hd ss)\<rparr> # r"
    using n by (rule reset_scope_cases)
  have "symbols_bound ss = cookie (hd ss)"
    unfolding symbols_bound_def using ss by (cases p) auto
  then show ?thesis
    using inv ss res by (auto simp: symbols_inv_def symbols_bound_def)
qed

lemma symbols_inv_alias:
  "symbols_inv ss \<Longrightarrow> u \<in> unique ` set ss \<Longrightarrow>
     symbols_inv (case ss of [] \<Rightarrow> [] | s # r \<Rightarrow> s\<lparr>unique := u\<rparr> # r)"
  by (cases ss) (auto simp: symbols_inv_def)

interpretation symbols_supply: id_supply symbols_step symbols_op_ok symbols_inv symbols_bound
proof (unfold_locales, goal_cases)
  case (1 ss a)
  then show ?case
    by (cases a) (auto simp: Let_def symbols_inv_prepend symbols_inv_alias symbols_inv_reset)
next
  case (2 ss a i)
  then show ?case
    by (cases a) (auto simp: Let_def symbols_prepend_unique symbols_prepend_bound)
next
  case (3 ss a)
  then show ?case
  proof (cases a)
    case (Alias u)
    then show ?thesis by (cases ss) (simp_all add: symbols_bound_def)
  qed (simp_all add: Let_def symbols_prepend_bound symbols_inv_reset)
qed

text \<open>
  The hypothesis \<open>0 < n\<close> on a reset is needed: a reset to the null pointer would forget
  the counter, and the next symbol would get ID 0 again.
\<close>

lemma reset_to_null_forgets:
  "symbols_reset_scope (symbols_prepend [] a st c) 0 = []"
  by (simp add: symbols_reset_scope_def suffix_at_def symbols_prepend_def Let_def)

section \<open>Mangled names\<close>

lemma dot_not_decimal [simp]: "CHR ''.'' \<notin> set (int_decimal i)"
  using int_decimal_chars [of "CHR ''.''" i] by (auto simp: isdigit_def code_def)

lemma mangle_is_mangled: "is_mangled (mangle_name s)"
  by (simp add: is_mangled_def mangle_name_def)

lemma append_dot_inj:
  assumes "x @ CHR ''.'' # i = y @ CHR ''.'' # j" "CHR ''.'' \<notin> set i" "CHR ''.'' \<notin> set j"
  shows "x = y \<and> i = j"
proof -
  have "takeWhile (\<lambda>c. c \<noteq> CHR ''.'') (rev i @ CHR ''.'' # rev x) = rev i"
    "takeWhile (\<lambda>c. c \<noteq> CHR ''.'') (rev j @ CHR ''.'' # rev y) = rev j"
    using assms(2,3) by (auto simp: takeWhile_append)
  moreover have "rev i @ CHR ''.'' # rev x = rev j @ CHR ''.'' # rev y"
    using arg_cong [OF assms(1), of rev] by simp
  ultimately have "rev i = rev j" by simp
  with assms(1) show ?thesis by simp
qed

lemma mangle_name_inj:
  assumes "sym_name (mangle_name s) = sym_name (mangle_name t)"
  shows "sym_name s = sym_name t \<and> unique s = unique t"
  using append_dot_inj [of "sym_name s" "int_decimal (unique s)" "sym_name t" "int_decimal (unique t)"]
    assms by (auto simp: mangle_name_def MANGLE_DELIMITER_def)

end
