(* ===== verification/FrontProps.thy ===== *)
theory FrontProps
  imports LexPrint Symbols
begin

text \<open>
  The properties of the lexer, of the C types and of the symbol table, each a theorem of
  its own with a witness where it has hypotheses.
\<close>

section \<open>The lexer\<close>

text \<open>
  C8. A token list that is printed, one blank between two tokens, is read back by
  \<open>lex_init\<close> exactly as it was: every keyword, operator, identifier, number and literal with
  its escapes, in order. Two literals of one kind in a row are excluded, because C merges
  them.
\<close>
theorem lex_init_print:
  assumes "list_all printable ts" and "separate ts" and "ts \<noteq> []"
  shows "lex_init (print_tokens ts) = Inr ts"
proof -
  have "print_tokens ts \<noteq> []" using assms(3) by (cases ts) (simp_all add: print_tokens_def)
  then show ?thesis using lex_loop_print [OF assms(1,2)] by (simp add: lex_init_def)
qed

definition sample_tokens :: "token list" where
  "sample_tokens =
     [\<lparr>token_type = Keyword TOKEN_KEYWORD_RETURN, val = ''return''\<rparr>,
      \<lparr>token_type = TOKEN_CONSTANT_STR, val = [CHR 0x22, CHR 0x0A]\<rparr>,
      \<lparr>token_type = Multi TOKEN_LESS_THAN_LESS_THAN_EQUAL_SIGN, val = []\<rparr>,
      \<lparr>token_type = TOKEN_IDENTIFIER, val = ''x_1''\<rparr>,
      \<lparr>token_type = Char TOKEN_SEMICOLON, val = []\<rparr>]"

lemma lex_init_print_witness:
  "lex_init (print_tokens sample_tokens) = Inr sample_tokens"
proof (rule lex_init_print)
  show "list_all printable sample_tokens"
    by (simp add: sample_tokens_def keyword_text_def FOREACH_LEX_KEYWORD_def word_def
        ident_char_def ctype_char_defs)
qed (simp_all add: sample_tokens_def is_lit_def)

text \<open>
  C18. Operators are read by longest match: the text consumed for an operator token is its
  spelling, and no operator with a longer spelling starts there.
\<close>
theorem lex_longest_match:
  assumes "lex_one_token pos = Inr (pos', t)" and "operator_text (token_type t) = Some s"
  shows "pos = s @ pos' \<and>
    (\<forall>tt u rest. operator_text tt = Some u \<longrightarrow> pos = u @ rest \<longrightarrow> length u \<le> length s)"
  using longest_operator [OF assms] by blast

lemma lex_longest_match_witness:
  "''<<=1'' = ''<<='' @ ''1'' \<and> length (multi_text TOKEN_LESS_THAN_LESS_THAN) \<le> length ''<<=''"
proof -
  have lex: "lex_one_token ''<<=1'' =
      Inr (''1'', \<lparr>token_type = Multi TOKEN_LESS_THAN_LESS_THAN_EQUAL_SIGN, val = []\<rparr>)"
    by (simp add: lex_one_token_def peek_def lex_tables lex_readahead_one_or_two_chars_def)
  have op: "operator_text (Multi TOKEN_LESS_THAN_LESS_THAN_EQUAL_SIGN) = Some ''<<=''"
    "operator_text (Multi TOKEN_LESS_THAN_LESS_THAN) = Some (multi_text TOKEN_LESS_THAN_LESS_THAN)"
    "''<<=1'' = multi_text TOKEN_LESS_THAN_LESS_THAN @ ''=1''"
    by simp_all
  show ?thesis
    using lex_longest_match [OF lex, of "''<<=''"] op(1) op(2,3) by (metis token.select_convs(1))
qed

text \<open>
  C20. Identifiers, keywords and constants are exact slices of the source text: the value of
  the token followed by the rest of the text is the text it was read from.
\<close>
theorem lex_slices:
  assumes "lex_one_token pos = Inr (pos', t)"
    and "token_type t \<in> {TOKEN_IDENTIFIER, TOKEN_CONSTANT} \<or> (\<exists>k. token_type t = Keyword k)"
  shows "pos = val t @ pos'"
  using assms by (rule slice_token)

lemma lex_slices_witness: "''ab1;'' = ''ab1'' @ '';''"
  using lex_slices [of "''ab1;''" "'';''" "\<lparr>token_type = TOKEN_IDENTIFIER, val = ''ab1''\<rparr>"]
  by (simp add: lex_one_token_def peek_def FOREACH_LEX_CHAR_def is_quote_single_def
      is_quote_double_def isdot_def DECIMAL_POINT_def ident_char_def ctype_char_defs span_def
      lex_peek_ok_def lex_one_token_keyword_maybe_def FOREACH_LEX_KEYWORD_def)

text \<open>
  C19. Adjacent literals are merged and their escapes undone: a run of string literals (or
  of character literals whose characters are one in all), with any white space between
  them, is one token with all their characters in order.
\<close>
theorem lex_merges_literals:
  assumes "is_lit tt" and "list_all (\<lambda>p. list_all isspace (fst p)) ps" and "lit_end tt r"
    and "tt = TOKEN_CONSTANT_CHAR \<Longrightarrow> length (s @ concat (map snd ps)) = 1"
  shows "lex_one_token (lit_quote tt # lit_tail tt s ps @ lit_quote tt # r) =
    Inr (r, \<lparr>token_type = tt, val = s @ concat (map snd ps)\<rparr>)"
  using assms by (rule lex_literal)

lemma lex_merges_literals_witness:
  "lex_one_token (lit_quote TOKEN_CONSTANT_STR #
      lit_tail TOKEN_CONSTANT_STR ''ab'' [('' '', ''c'')] @ lit_quote TOKEN_CONSTANT_STR # '';'') =
    Inr ('';'', \<lparr>token_type = TOKEN_CONSTANT_STR, val = ''abc''\<rparr>)"
  using lex_merges_literals [of TOKEN_CONSTANT_STR "[('' '', ''c'')]" "'';''" "''ab''"]
  by (simp add: is_lit_def lit_end_def lit_quote_def isspace_def code_def)

text \<open>
  C21. A literal that the file ends in is reported as missing its end, and a line end inside
  a literal as an invalid newline, whatever escaped characters come before.
\<close>
theorem lex_open_literal:
  assumes "is_lit tt"
  shows "lex_one_token (lit_quote tt # escape_text tt s) =
      make_result_t (Lex ERR_LEX_CHAR_EXPECT_MORE) \<and>
    lex_one_token (lit_quote tt # escape_text tt s @ CHR 0x0A # r) =
      make_result_t (Lex ERR_LEX_CHAR_INVALID_NEWLINE)"
  using lex_unterminated [OF assms] by blast

lemma lex_open_literal_witness:
  "lex_one_token (lit_quote TOKEN_CONSTANT_STR # escape_text TOKEN_CONSTANT_STR ''a'') =
      make_result_t (Lex ERR_LEX_CHAR_EXPECT_MORE) \<and>
    lex_one_token (lit_quote TOKEN_CONSTANT_STR # escape_text TOKEN_CONSTANT_STR ''a'' @ CHR 0x0A # '';'') =
      make_result_t (Lex ERR_LEX_CHAR_INVALID_NEWLINE)"
  by (rule lex_open_literal) (simp add: is_lit_def)

text \<open>
  C37. The lexer takes for a constant what is none in C: a lone decimal point, and any number
  with a decimal point, and digits or none, behind its exponent, such as \<^verbatim>\<open>1E5.5\<close>. It looks for
  each of the two separators once and wherever it stands.
\<close>
theorem lex_accepts_malformed_numbers:
  assumes "digits ds" "ds \<noteq> []" and "toupper e = CHR ''E''" and "sg \<in> {[], ''+'', ''-''}"
    and "digits es" "es \<noteq> []" and "digits fs"
  shows "let v = ds @ e # sg @ es @ CHR ''.'' # fs in
    lex_one_token (v @ CHR '' '' # r) = Inr (CHR '' '' # r, \<lparr>token_type = TOKEN_CONSTANT, val = v\<rparr>) \<and>
    lex_one_token (CHR ''.'' # CHR '' '' # r) =
      Inr (CHR '' '' # r, \<lparr>token_type = TOKEN_CONSTANT, val = ''.''\<rparr>)"
proof -
  have "\<exists>ds fs ex. ''.'' = ds @ CHR ''.'' # fs @ ex \<and> digits ds \<and> digits fs \<and> exponent ex"
    by (intro exI [of _ "[]"]) (simp add: digits_def exponent_def)
  then have "num_text ''.''" unfolding num_text_def by blast
  then show ?thesis
    using lex_point_behind_exponent [OF assms] lex_numeric_space [of "''.''" r] by (simp add: Let_def)
qed

lemma lex_accepts_malformed_numbers_witness:
  "lex_one_token ''1E5.5 ;'' = Inr ('' ;'', \<lparr>token_type = TOKEN_CONSTANT, val = ''1E5.5''\<rparr>)"
  using lex_accepts_malformed_numbers [of "''1''" "CHR ''E''" "[]" "''5''" "''5''" "'';''"]
  by (simp add: digits_def isdigit_def toupper_def islower_def code_def Let_def)

section \<open>The C types\<close>

text \<open>
  C26. The size of a type is exact and fits a signed 64-bit integer whenever every array in
  it has a positive length and the product of the lengths and the element size fits.
\<close>
theorem ctype_size_exact:
  assumes "ctype_sizes_ok c" and "ctype_bytes c < 2 ^ 63"
  shows "\<exists>n. ctype_to_size_bytes c = Inr n \<and> sint n = int (ctype_bytes c)"
  using assms by (rule size_bytes_exact)

lemma ctype_size_exact_witness:
  "\<exists>n. ctype_to_size_bytes (CTYPE_ARRAY_OF False (CTYPE_LONG False) 3) = Inr n \<and> sint n = 24"
  using ctype_size_exact [of "CTYPE_ARRAY_OF False (CTYPE_LONG False) 3"]
  by (simp add: LLONG_MAX_def)

text \<open>
  C27. Equality of types is reflexive and symmetric, and on types that are not arrays it is
  exactly structural equality, the null-pointer-constant mark apart.
\<close>
theorem ctype_equality:
  "ctype_is_equal c c \<and> ctype_is_equal l r = ctype_is_equal r l \<and>
   (if ctype_is_array l \<or> ctype_is_array r then ctype_is_equal (ctype_array_decay_to_pointer l) l
    else ctype_is_equal l r = (ctype_strip l = ctype_strip r))"
  using ctype_is_equal_sym [of l r] ctype_is_equal_no_array [of l r] decay_is_equal [of l]
    ctype_is_equal_sym [of l "ctype_array_decay_to_pointer l"] by auto

text \<open>
  C36. Equality of types is not transitive: two arrays of different lengths are unequal, but
  both equal the pointer they decay to. And it lets nested arrays decay as well, where the
  comment above the function says that only the outermost one does.
\<close>
theorem ctype_equality_decays:
  "ctype_is_equal (CTYPE_ARRAY_OF a c 3) (CTYPE_POINTER_TO b c) \<and>
   ctype_is_equal (CTYPE_POINTER_TO b c) (CTYPE_ARRAY_OF a c 4) \<and>
   \<not> ctype_is_equal (CTYPE_ARRAY_OF a c 3) (CTYPE_ARRAY_OF a c 4) \<and>
   ctype_is_equal (CTYPE_ARRAY_OF a (CTYPE_ARRAY_OF a c 3) 3) (CTYPE_POINTER_TO b (CTYPE_POINTER_TO b c))"
  using ctype_is_equal_sym [of "CTYPE_POINTER_TO b c" "CTYPE_ARRAY_OF a c 4"]
  by (simp add: ctype_is_equal_array_pointer ctype_is_equal_array_array)

section \<open>The symbol table\<close>

text \<open>
  C17. The IDs that a run of table operations hands out are pairwise distinct and increase,
  whatever scopes are closed on the way: no two symbols of a translation unit share an ID.
\<close>
theorem symbol_ids_distinct:
  assumes "symbols_inv ss" and "supply_ok symbols_step symbols_op_ok ss as"
  shows "distinct (snd (supply_run symbols_step ss as)) \<and>
    sorted_wrt (<) (snd (supply_run symbols_step ss as)) \<and>
    symbols_inv (fst (supply_run symbols_step ss as))"
  using symbols_supply.run_distinct [OF assms] symbols_supply.run_fresh [OF assms]
    symbols_supply.run_inv [OF assms] by blast

lemma symbol_ids_distinct_witness:
  "distinct (snd (supply_run symbols_step []
     [Prepend ''a'' SYMBOL_VARIABLE (CTYPE_INT False), Prepend ''b'' SYMBOL_VARIABLE (CTYPE_INT False),
      Reset 1, Prepend ''c'' SYMBOL_VARIABLE (CTYPE_INT False)]))"
  using symbol_ids_distinct [of "[]"
      "[Prepend ''a'' SYMBOL_VARIABLE (CTYPE_INT False), Prepend ''b'' SYMBOL_VARIABLE (CTYPE_INT False),
        Reset 1, Prepend ''c'' SYMBOL_VARIABLE (CTYPE_INT False)]"]
  by (simp add: symbols_inv_def symbols_prepend_def symbols_reset_scope_def suffix_at_def Let_def)

text \<open>
  C31. Mangled names are unambiguous: two symbols get the same mangled name only if they have
  the same name and the same ID, and every mangled name is recognised as one.
\<close>
theorem mangle_name_unambiguous:
  "is_mangled (mangle_name s) \<and>
   (sym_name (mangle_name s) = sym_name (mangle_name t)) =
     (sym_name s = sym_name t \<and> unique s = unique t)"
proof (rule conjI)
  show "is_mangled (mangle_name s)" by (rule mangle_is_mangled)
  have "sym_name s = sym_name t \<and> unique s = unique t \<Longrightarrow>
      sym_name (mangle_name s) = sym_name (mangle_name t)"
    by (simp add: mangle_name_def)
  then show "(sym_name (mangle_name s) = sym_name (mangle_name t)) =
      (sym_name s = sym_name t \<and> unique s = unique t)"
    using mangle_name_inj [of s t] by blast
qed

text \<open>
  C32. The zero initializer of a type is as long as the type.
\<close>
theorem zero_initializer_size:
  assumes "ctype_to_size_bytes c = Inr n"
  shows "\<exists>ci. constant_set_zero c = Inr ci \<and> constant_byte_count ci = n"
  using assms by (rule constant_set_zero_size)

lemma zero_initializer_size_witness:
  "\<exists>ci. constant_set_zero (CTYPE_ARRAY_OF False (CTYPE_INT False) 3) = Inr ci \<and>
     constant_byte_count ci = 12"
  using zero_initializer_size [of "CTYPE_ARRAY_OF False (CTYPE_INT False) 3" 12]
  by (simp add: LLONG_MAX_def)

end
