(* ===== verification/Asm.thy ===== *)
theory Asm
  imports Symbols
begin

text \<open>
  \<^verbatim>\<open>src/passes/codegen.h\<close>: the assembly program that the code generator builds, with the
  operand helpers of \<^verbatim>\<open>src/passes/codegen.c\<close> that every later step uses.

  The anonymous union of \<^verbatim>\<open>struct asm_operand\<close> and its tag are one datatype,
  \<open>asm_operand_kind\<close>, whose constructors carry the member of the union that goes with the
  tag. The linked list of instructions is a list, and \<open>args[2]\<close> are the two fields \<open>arg0\<close>
  and \<open>arg1\<close>. The opcodes are grouped: integer and data movement instructions, double
  precision instructions, conditional jumps, conditional sets, and the rest.
\<close>

datatype asm_register =
    ASM_REGISTER_DI | ASM_REGISTER_SI | ASM_REGISTER_DX | ASM_REGISTER_CX | ASM_REGISTER_R8
  | ASM_REGISTER_R9 | ASM_REGISTER_AX | ASM_REGISTER_R10 | ASM_REGISTER_R11 | ASM_REGISTER_RSP
  | ASM_REGISTER_RBP | ASM_REGISTER_XMM0 | ASM_REGISTER_XMM1 | ASM_REGISTER_XMM2
  | ASM_REGISTER_XMM3 | ASM_REGISTER_XMM4 | ASM_REGISTER_XMM5 | ASM_REGISTER_XMM6
  | ASM_REGISTER_XMM7 | ASM_REGISTER_XMM14 | ASM_REGISTER_XMM15

definition CALL_REG :: "asm_register list" where
  "CALL_REG = [ASM_REGISTER_DI, ASM_REGISTER_SI, ASM_REGISTER_DX, ASM_REGISTER_CX,
     ASM_REGISTER_R8, ASM_REGISTER_R9]"

definition CALL_FP :: "asm_register list" where
  "CALL_FP = [ASM_REGISTER_XMM0, ASM_REGISTER_XMM1, ASM_REGISTER_XMM2, ASM_REGISTER_XMM3,
     ASM_REGISTER_XMM4, ASM_REGISTER_XMM5, ASM_REGISTER_XMM6, ASM_REGISTER_XMM7]"

datatype asm_operand_kind =
    ASM_OPERAND_NONE
  | ASM_OPERAND_IMMEDIATE int
  | ASM_OPERAND_REGISTER asm_register
  | ASM_OPERAND_PSEUDO_REGISTER int
  | ASM_OPERAND_MEMORY (mem_offset: int) (mem_reg: asm_register)
  | ASM_OPERAND_PSEUDO_MEMORY (pseudo_num: int) (pseudo_offset: int) (pseudo_total_bytes: int)
  | ASM_OPERAND_INDEXED (idx_base: asm_register) (idx_index: asm_register) (idx_scale: int)
  | ASM_OPERAND_JUMP_TARGET_LABEL int
  | ASM_OPERAND_CALL_TARGET_FUNCTION string
  | ASM_OPERAND_VARIABLE_DATA string
  | ASM_OPERAND_CONSTANT_DATA_DOUBLE double
  | ASM_OPERAND_CONSTANT_DATA_VEC_LONGS "u64 list"
  | ASM_OPERAND_CONSTANT_DATA_VEC_QUADS "u64 list"
  | ASM_OPERAND_CONSTANT_STRING int

datatype asm_word = ASM_WORD_08BIT | ASM_WORD_32BIT | ASM_WORD_64BIT

text \<open>The source compares word types by their position in the enumeration.\<close>

fun word_rank :: "asm_word \<Rightarrow> nat" where
  "word_rank ASM_WORD_08BIT = 0"
| "word_rank ASM_WORD_32BIT = 1"
| "word_rank ASM_WORD_64BIT = 2"

lemma word_rank_inj: "word_rank v = word_rank w \<Longrightarrow> v = w"
  by (cases v; cases w) simp_all

instantiation asm_word :: linorder
begin

definition less_eq_asm_word :: "asm_word \<Rightarrow> asm_word \<Rightarrow> bool" where
  "less_eq_asm_word v w = (word_rank v \<le> word_rank w)"

definition less_asm_word :: "asm_word \<Rightarrow> asm_word \<Rightarrow> bool" where
  "less_asm_word v w = (word_rank v < word_rank w)"

instance
  by standard (auto simp: less_eq_asm_word_def less_asm_word_def dest: word_rank_inj)

end

lemma asm_word_less [simp]:
  "v < ASM_WORD_64BIT \<longleftrightarrow> v \<noteq> ASM_WORD_64BIT"
  "v < ASM_WORD_32BIT \<longleftrightarrow> v = ASM_WORD_08BIT"
  "\<not> v < ASM_WORD_08BIT"
  "\<not> ASM_WORD_64BIT < v"
  "ASM_WORD_08BIT < v \<longleftrightarrow> v \<noteq> ASM_WORD_08BIT"
  "ASM_WORD_32BIT < v \<longleftrightarrow> v = ASM_WORD_64BIT"
  by (cases v; simp add: less_asm_word_def)+

record asm_operand =
  word_type :: asm_word
  operand_type :: asm_operand_kind

datatype asm_int_op =
    ASM_OP_MOV | ASM_OP_MOV_WITH_SIGN_EXTENSION | ASM_OP_MOV_WITH_ZERO_EXTENSION | ASM_OP_LEA
  | ASM_OP_CVT_DOUBLE_TO_INT | ASM_OP_CVT_INT_TO_DOUBLE
  | ASM_OP_UNARY_NEG | ASM_OP_UNARY_NOT | ASM_OP_UNARY_DECREMENT | ASM_OP_UNARY_INCREMENT
  | ASM_OP_BINARY_ADD | ASM_OP_BINARY_SUBTRACT | ASM_OP_BINARY_MULTIPLY
  | ASM_OP_BITWISE_AND | ASM_OP_BITWISE_OR | ASM_OP_BITWISE_XOR
  | ASM_OP_BITWISE_SIGNED_SHIFT_LEFT | ASM_OP_BITWISE_SIGNED_SHIFT_RIGHT
  | ASM_OP_BITWISE_UNSIGNED_SHIFT_LEFT | ASM_OP_BITWISE_UNSIGNED_SHIFT_RIGHT
  | ASM_OP_COMPARE | ASM_OP_IDIV | ASM_OP_DIV | ASM_OP_CDQ | ASM_OP_CQO

datatype asm_double_op =
    ASM_OP_DOUBLE_BINARY_ADD | ASM_OP_DOUBLE_BINARY_SUBTRACT | ASM_OP_DOUBLE_BINARY_MULTIPLY
  | ASM_OP_DOUBLE_BINARY_DIVIDE | ASM_OP_DOUBLE_BITWISE_XOR | ASM_OP_DOUBLE_COMPARE
  | ASM_OP_VEC_DOUBLE_BINARY_SUBTRACT | ASM_OP_VEC_DOUBLE_UNPACK_INTERLEAVE_HI
  | ASM_OP_VEC_DOUBLE_UNPACK_INTERLEAVE_LO

datatype asm_jump_op =
    ASM_OP_JMP | ASM_OP_JMP_IF_EQ | ASM_OP_JMP_IF_NEQ | ASM_OP_JMP_IF_GT | ASM_OP_JMP_IF_GTE
  | ASM_OP_JMP_IF_LT | ASM_OP_JMP_IF_LTE | ASM_OP_JMP_IF_A | ASM_OP_JMP_IF_AE
  | ASM_OP_JMP_IF_B | ASM_OP_JMP_IF_BE

datatype asm_set_op =
    ASM_OP_SET_IF_EQ | ASM_OP_SET_IF_NEQ | ASM_OP_SET_IF_GT | ASM_OP_SET_IF_GTE
  | ASM_OP_SET_IF_LT | ASM_OP_SET_IF_LTE | ASM_OP_SET_IF_A | ASM_OP_SET_IF_AE
  | ASM_OP_SET_IF_B | ASM_OP_SET_IF_BE | ASM_OP_SET_IF_P | ASM_OP_SET_IF_NP

datatype asm_opcode =
    IntOp asm_int_op
  | DoubleOp asm_double_op
  | JumpOp asm_jump_op
  | SetOp asm_set_op
  | ASM_OP_LABEL
  | ASM_OP_PUSH
  | ASM_OP_CALL
  | ASM_OP_RET

record asm_op =
  opcode :: asm_opcode
  arg0 :: asm_operand
  arg1 :: asm_operand

datatype asm_linkage = ASM_LINKAGE_INTERNAL | ASM_LINKAGE_EXTERNAL

record asm_function =
  fn_identifier :: string
  fn_linkage :: asm_linkage
  stack_usage :: int
  ops :: "asm_op list"

record asm_variable =
  var_identifier :: string
  var_linkage :: asm_linkage
  var_initializer :: constant_initializer

record asm_str =
  string_unique :: int
  str_initializer :: constant_initializer

record assembly =
  asm_functions :: "asm_function list"
  asm_variables :: "asm_variable list"
  asm_strings :: "asm_str list"

section \<open>Helpers\<close>

text \<open>The register lies between XMM0 and XMM15 in the enumeration.\<close>

fun xmm :: "asm_register \<Rightarrow> bool" where
  "xmm r = (r \<in> {ASM_REGISTER_XMM0, ASM_REGISTER_XMM1, ASM_REGISTER_XMM2, ASM_REGISTER_XMM3,
     ASM_REGISTER_XMM4, ASM_REGISTER_XMM5, ASM_REGISTER_XMM6, ASM_REGISTER_XMM7,
     ASM_REGISTER_XMM14, ASM_REGISTER_XMM15})"

declare xmm.simps [simp del]

definition is_xmm_register :: "asm_operand \<Rightarrow> bool" where
  "is_xmm_register o' =
     (case operand_type o' of ASM_OPERAND_REGISTER r \<Rightarrow> xmm r | _ \<Rightarrow> False)"

text \<open>A zeroed \<^verbatim>\<open>struct asm_op\<close>, which is what \<^verbatim>\<open>codegen_alloc_op()\<close> allocates.\<close>

definition zero_operand :: asm_operand where
  "zero_operand = \<lparr>word_type = ASM_WORD_08BIT, operand_type = ASM_OPERAND_NONE\<rparr>"

definition codegen_alloc_op :: asm_op where
  "codegen_alloc_op = \<lparr>opcode = IntOp ASM_OP_MOV, arg0 = zero_operand, arg1 = zero_operand\<rparr>"

definition codegen_set_operand_immediate_zero :: "asm_operand \<Rightarrow> asm_operand" where
  "codegen_set_operand_immediate_zero dst = dst\<lparr>operand_type := ASM_OPERAND_IMMEDIATE 0\<rparr>"

text \<open>The three setters that \<^verbatim>\<open>MAKE_SETTER()\<close> expands to overwrite the whole operand.\<close>

definition reg_operand :: "asm_word \<Rightarrow> asm_register \<Rightarrow> asm_operand" where
  "reg_operand w r = \<lparr>word_type = w, operand_type = ASM_OPERAND_REGISTER r\<rparr>"

definition codegen_set_operand_ecx :: "asm_operand \<Rightarrow> asm_operand" where
  "codegen_set_operand_ecx basis = reg_operand (word_type basis) ASM_REGISTER_CX"

definition codegen_set_operand_r10 :: "asm_operand \<Rightarrow> asm_operand" where
  "codegen_set_operand_r10 basis = reg_operand (word_type basis) ASM_REGISTER_R10"

definition codegen_set_operand_r11 :: "asm_operand \<Rightarrow> asm_operand" where
  "codegen_set_operand_r11 basis = reg_operand (word_type basis) ASM_REGISTER_R11"

definition OPERAND_RSP_64BIT :: asm_operand where
  "OPERAND_RSP_64BIT = reg_operand ASM_WORD_64BIT ASM_REGISTER_RSP"

definition OPERAND_RAX_64BIT :: asm_operand where
  "OPERAND_RAX_64BIT = reg_operand ASM_WORD_64BIT ASM_REGISTER_AX"

definition OPERAND_RAX_32BIT :: asm_operand where
  "OPERAND_RAX_32BIT = reg_operand ASM_WORD_32BIT ASM_REGISTER_AX"

definition OPERAND_RAX_08BIT :: asm_operand where
  "OPERAND_RAX_08BIT = reg_operand ASM_WORD_08BIT ASM_REGISTER_AX"

definition OPERAND_RCX_64BIT :: asm_operand where
  "OPERAND_RCX_64BIT = reg_operand ASM_WORD_64BIT ASM_REGISTER_CX"

definition OPERAND_RDX_64BIT :: asm_operand where
  "OPERAND_RDX_64BIT = reg_operand ASM_WORD_64BIT ASM_REGISTER_DX"

definition OPERAND_R10_64BIT :: asm_operand where
  "OPERAND_R10_64BIT = reg_operand ASM_WORD_64BIT ASM_REGISTER_R10"

definition OPERAND_XMM15 :: asm_operand where
  "OPERAND_XMM15 = reg_operand ASM_WORD_64BIT ASM_REGISTER_XMM15"

text \<open>\<open>codegen_alloc_modify_rsp\<close> makes the instruction that moves the stack pointer.\<close>

definition codegen_alloc_modify_rsp :: "bool \<Rightarrow> int \<Rightarrow> asm_op" where
  "codegen_alloc_modify_rsp add n =
     codegen_alloc_op
       \<lparr>opcode := IntOp (if add then ASM_OP_BINARY_ADD else ASM_OP_BINARY_SUBTRACT),
        arg0 := zero_operand\<lparr>operand_type := ASM_OPERAND_IMMEDIATE n\<rparr>,
        arg1 := OPERAND_RSP_64BIT\<rparr>"

definition codegen_alloc_subq_rsp :: "int \<Rightarrow> asm_op" where
  "codegen_alloc_subq_rsp n = codegen_alloc_modify_rsp False n"

definition codegen_alloc_addq_rsp :: "int \<Rightarrow> asm_op" where
  "codegen_alloc_addq_rsp n = codegen_alloc_modify_rsp True n"

end
