(* ===== verification/Frame.thy ===== *)
theory Frame
  imports Asm "HOL-Library.Signed_Division"
begin

text \<open>
  The layout of a stack frame: \<^verbatim>\<open>codegen_replace_pseudo()\<close> gives every pseudo-register and
  every array its place below the frame pointer, and \<^verbatim>\<open>codegen_fixup_alloc_stack()\<close> reserves
  that room.
\<close>

definition CODEGEN_BYTES_PER_VALUE :: int where "CODEGEN_BYTES_PER_VALUE = 4"
definition CODEGEN_BYTES_PER_PUSH :: int where "CODEGEN_BYTES_PER_PUSH = 8"
definition CODEGEN_BYTES_STACK_ALIGN_TOP_OR_ARR :: int where
  "CODEGEN_BYTES_STACK_ALIGN_TOP_OR_ARR = 16"

lemmas codegen_bytes_defs =
  CODEGEN_BYTES_PER_VALUE_def CODEGEN_BYTES_PER_PUSH_def CODEGEN_BYTES_STACK_ALIGN_TOP_OR_ARR_def

definition round_up_to_multiple_of :: "int \<Rightarrow> int \<Rightarrow> int result" where
  "round_up_to_multiple_of n base =
     (let rounded = ((n + base - 1) sdiv base) * base in
      assert_that (rounded \<ge> n)
        (assert_that (rounded - n < base)
          (assert_that (rounded smod base = 0) (Inr rounded))))"

text \<open>The number of a pseudo operand: \<^verbatim>\<open>u.num\<close> and \<^verbatim>\<open>u.pseudo_mem.num\<close> are the same bytes.\<close>

fun pseudo_id :: "asm_operand_kind \<Rightarrow> int option" where
  "pseudo_id (ASM_OPERAND_PSEUDO_REGISTER n) = Some n"
| "pseudo_id (ASM_OPERAND_PSEUDO_MEMORY n _ _) = Some n"
| "pseudo_id _ = None"

text \<open>The preflight run only computes the range of the numbers.\<close>

definition preflight_arg :: "asm_operand \<Rightarrow> int \<times> int \<Rightarrow> int \<times> int" where
  "preflight_arg arg rng =
     (case pseudo_id (operand_type arg) of
        None \<Rightarrow> rng
      | Some n \<Rightarrow> (min (fst rng) n, max (snd rng) n))"

definition codegen_replace_pseudo_preflight :: "asm_op list \<Rightarrow> int \<times> int \<Rightarrow> int \<times> int" where
  "codegen_replace_pseudo_preflight cg rng =
     foldl (\<lambda>r op. preflight_arg (arg1 op) (preflight_arg (arg0 op) r)) rng cg"

text \<open>The place for a pseudo operand that has none yet: the new value of \<^verbatim>\<open>cursor\<close>.\<close>

definition next_cursor :: "asm_operand \<Rightarrow> int \<Rightarrow> int result" where
  "next_cursor arg cursor =
     (case operand_type arg of
        ASM_OPERAND_PSEUDO_MEMORY _ _ total_bytes \<Rightarrow>
          round_up_to_multiple_of (cursor + total_bytes) CODEGEN_BYTES_STACK_ALIGN_TOP_OR_ARR
      | _ \<Rightarrow>
          (case word_type arg of
             ASM_WORD_08BIT \<Rightarrow> Inr (cursor + 1)
           | ASM_WORD_32BIT \<Rightarrow>
               round_up_to_multiple_of (cursor + CODEGEN_BYTES_PER_VALUE) CODEGEN_BYTES_PER_VALUE
           | ASM_WORD_64BIT \<Rightarrow>
               round_up_to_multiple_of (cursor + CODEGEN_BYTES_PER_VALUE * 2)
                 CODEGEN_BYTES_PER_PUSH))"

text \<open>One operand in the second run; the state is \<^verbatim>\<open>cursor\<close> and the array \<^verbatim>\<open>offsets\<close>.\<close>

definition replace_arg ::
  "int \<times> int \<Rightarrow> asm_operand \<Rightarrow> int \<times> int list \<Rightarrow> ((int \<times> int list) \<times> asm_operand) result" where
  "replace_arg rng arg st =
     (case pseudo_id (operand_type arg) of
        None \<Rightarrow> Inr (st, arg)
      | Some num \<Rightarrow>
          assert_that (num \<ge> fst rng) (assert_that (num \<le> snd rng) (assert_that (fst rng \<ge> 0)
            (let idx = nat (num - fst rng);
                 cursor = fst st;
                 offsets = snd st
             in
             check (if offsets ! idx \<noteq> 0 then Inr st
                    else check (next_cursor arg cursor) (\<lambda>cursor'.
                           Inr (cursor', offsets[idx := cursor']))) (\<lambda>st'.
             let computed_offset = snd st' ! idx in
             check (case operand_type arg of
                      ASM_OPERAND_PSEUDO_MEMORY _ offset _ \<Rightarrow>
                        assert_that (computed_offset - offset > 0) (Inr (computed_offset - offset))
                    | _ \<Rightarrow> Inr computed_offset) (\<lambda>computed_offset.
             Inr (st', arg\<lparr>operand_type :=
                   ASM_OPERAND_MEMORY (-1 * computed_offset) ASM_REGISTER_RBP\<rparr>)))))))"

fun codegen_replace_pseudo_fn ::
  "int \<times> int \<Rightarrow> asm_op list \<Rightarrow> int \<times> int list \<Rightarrow> ((int \<times> int list) \<times> asm_op list) result" where
  "codegen_replace_pseudo_fn rng [] st = Inr (st, [])"
| "codegen_replace_pseudo_fn rng (op # rest) st =
     check (replace_arg rng (arg0 op) st) (\<lambda>(st0, a0).
     check (replace_arg rng (arg1 op) st0) (\<lambda>(st1, a1).
     check (codegen_replace_pseudo_fn rng rest st1) (\<lambda>(st2, rest').
     Inr (st2, op\<lparr>arg0 := a0, arg1 := a1\<rparr> # rest'))))"

text \<open>The body of the loop of \<^verbatim>\<open>codegen_replace_pseudo()\<close>.\<close>

definition codegen_replace_pseudo_one :: "asm_function \<Rightarrow> asm_function result" where
  "codegen_replace_pseudo_one f =
     (let rng = codegen_replace_pseudo_preflight (ops f) (LLONG_MAX, LLONG_MIN) in
      if fst rng = LLONG_MAX \<or> snd rng = LLONG_MIN then Inr f
      else
        (let size = 1 + snd rng - fst rng in
         assert_that (size > 0) (assert_that (size \<le> 4096)
           (check (codegen_replace_pseudo_fn rng (ops f) (0, replicate (nat size) 0))
             (\<lambda>((cursor, off), ops').
              assert_that (stack_usage f = 0)
                (Inr (f\<lparr>ops := ops', stack_usage := foldl max (stack_usage f) off\<rparr>)))))))"

fun codegen_replace_pseudo_fns :: "asm_function list \<Rightarrow> asm_function list result" where
  "codegen_replace_pseudo_fns [] = Inr []"
| "codegen_replace_pseudo_fns (f # fs) =
     check (codegen_replace_pseudo_one f) (\<lambda>f'.
     check (codegen_replace_pseudo_fns fs) (\<lambda>fs'. Inr (f' # fs')))"

definition codegen_replace_pseudo :: "assembly \<Rightarrow> assembly result" where
  "codegen_replace_pseudo cg =
     check (codegen_replace_pseudo_fns (asm_functions cg)) (\<lambda>fs. Inr (cg\<lparr>asm_functions := fs\<rparr>))"

definition codegen_fixup_alloc_stack :: "asm_function \<Rightarrow> asm_function result" where
  "codegen_fixup_alloc_stack cg =
     (if stack_usage cg = 0 then Inr cg
      else
        check (round_up_to_multiple_of (stack_usage cg) CODEGEN_BYTES_STACK_ALIGN_TOP_OR_ARR)
          (\<lambda>fix'. Inr (cg\<lparr>ops := codegen_alloc_subq_rsp fix' # ops cg\<rparr>)))"

section \<open>Rounding up\<close>

lemma mult_sdiv_self: "(b::int) > 0 \<Longrightarrow> (q * b) sdiv b = q"
  by (cases q "0::int" rule: linorder_cases)
    (simp_all add: signed_divide_int_def sgn_mult abs_mult minus_mult_left del: mult_minus_left)

lemma round_up_ok:
  assumes "0 \<le> n" "0 < base"
  shows "\<exists>r. round_up_to_multiple_of n base = Inr r \<and> n \<le> r \<and> r < n + base \<and> base dvd r"
proof -
  let ?q = "(n + base - 1) div base" and ?r = "(n + base - 1) div base * base"
  have q: "(n + base - 1) sdiv base = ?q"
    using assms by (simp add: signed_divide_int_def sgn_if)
  have "?r = (n + base - 1) - (n + base - 1) mod base"
    by (simp add: minus_mod_eq_div_mult)
  moreover have "0 \<le> (n + base - 1) mod base" "(n + base - 1) mod base < base"
    using assms by auto
  ultimately have r: "n \<le> ?r" "?r < n + base" by linarith+
  have "?r smod base = 0" using mult_sdiv_self [OF assms(2), of ?q] by (simp add: signed_modulo_int_def)
  with r q show ?thesis
    by (simp add: round_up_to_multiple_of_def Let_def)
qed

section \<open>Where the values of a frame lie\<close>

definition op_args :: "asm_op list \<Rightarrow> asm_operand list" where
  "op_args xs = concat (map (\<lambda>op. [arg0 op, arg1 op]) xs)"

definition is_pseudo :: "asm_operand \<Rightarrow> bool" where
  "is_pseudo a = (pseudo_id (operand_type a) \<noteq> None)"

definition pid :: "asm_operand \<Rightarrow> int" where
  "pid a = the (pseudo_id (operand_type a))"

definition pseudo_args :: "asm_op list \<Rightarrow> asm_operand list" where
  "pseudo_args xs = filter is_pseudo (op_args xs)"

fun word_bytes :: "asm_word \<Rightarrow> int" where
  "word_bytes ASM_WORD_08BIT = 1"
| "word_bytes ASM_WORD_32BIT = 4"
| "word_bytes ASM_WORD_64BIT = 8"

text \<open>The bytes of the value that an operand belongs to, and the alignment it needs.\<close>

definition slot_size :: "asm_operand \<Rightarrow> int" where
  "slot_size a =
     (case operand_type a of ASM_OPERAND_PSEUDO_MEMORY _ _ t \<Rightarrow> t | _ \<Rightarrow> word_bytes (word_type a))"

definition slot_align :: "asm_operand \<Rightarrow> int" where
  "slot_align a =
     (case operand_type a of ASM_OPERAND_PSEUDO_MEMORY _ _ t \<Rightarrow> 16 | _ \<Rightarrow> word_bytes (word_type a))"

definition slot_offset :: "asm_operand \<Rightarrow> int" where
  "slot_offset a = (case operand_type a of ASM_OPERAND_PSEUDO_MEMORY _ off _ \<Rightarrow> off | _ \<Rightarrow> 0)"

text \<open>
  What the frame layout relies on: the first operand of a function that belongs to a value
  is the widest one, an access to a part of an array stays within it, and the numbers of a
  function's values are not negative and lie within 4096 of each other.
\<close>

definition fits :: "asm_operand \<Rightarrow> asm_operand \<Rightarrow> bool" where
  "fits a b \<longleftrightarrow> slot_size a \<le> slot_size b \<and> slot_align a dvd slot_align b"

definition slot_ok :: "asm_operand \<Rightarrow> bool" where
  "slot_ok a \<longleftrightarrow> 0 \<le> slot_offset a \<and> slot_offset a + word_bytes (word_type a) \<le> slot_size a"

text \<open>\<open>seen\<close> are the operands in front, the last one first.\<close>

fun first_widest :: "asm_operand list \<Rightarrow> asm_operand list \<Rightarrow> bool" where
  "first_widest seen [] = True"
| "first_widest seen (a # as) =
     (slot_ok a \<and>
      (list_ex (\<lambda>b. pid b = pid a) seen \<longrightarrow> list_ex (\<lambda>b. pid b = pid a \<and> fits a b) seen) \<and>
      first_widest (a # seen) as)"

lemma first_widest_append:
  "first_widest seen (as @ bs) \<longleftrightarrow> first_widest seen as \<and> first_widest (rev as @ seen) bs"
  by (induction "as" arbitrary: seen) auto

lemma first_widest_ok: "first_widest seen as \<Longrightarrow> list_all slot_ok as"
  by (induction "as" arbitrary: seen) auto

definition frame_ok :: "asm_function \<Rightarrow> bool" where
  "frame_ok f \<longleftrightarrow>
     first_widest [] (pseudo_args (ops f)) \<and> stack_usage f = 0 \<and>
     list_all (\<lambda>a. 0 \<le> pid a \<and> pid a < LLONG_MAX \<and>
       list_all (\<lambda>b. pid b - pid a < 4096) (pseudo_args (ops f))) (pseudo_args (ops f))"

text \<open>The replacement of one operand, given the place of every value below the frame pointer.\<close>

definition place_arg :: "(int \<Rightarrow> int) \<Rightarrow> asm_operand \<Rightarrow> asm_operand" where
  "place_arg place a =
     (if is_pseudo a
      then a\<lparr>operand_type := ASM_OPERAND_MEMORY (slot_offset a - place (pid a)) ASM_REGISTER_RBP\<rparr>
      else a)"

definition place_op :: "(int \<Rightarrow> int) \<Rightarrow> asm_op \<Rightarrow> asm_op" where
  "place_op place op = op\<lparr>arg0 := place_arg place (arg0 op), arg1 := place_arg place (arg1 op)\<rparr>"

text \<open>
  A layout of the given operands: every value lies in its frame, aligned, and two values
  do not overlap. The value with number \<open>n\<close> occupies the bytes from \<open>- place n\<close> up.
\<close>

definition frame_layout :: "asm_operand set \<Rightarrow> (int \<Rightarrow> int) \<Rightarrow> int \<Rightarrow> bool" where
  "frame_layout A place bound \<longleftrightarrow>
     (\<forall>a\<in>A. slot_size a \<le> place (pid a) \<and> place (pid a) \<le> bound \<and> slot_align a dvd place (pid a)) \<and>
     (\<forall>a\<in>A. \<forall>b\<in>A. pid a \<noteq> pid b \<longrightarrow>
        place (pid a) \<le> place (pid b) - slot_size b \<or> place (pid b) \<le> place (pid a) - slot_size a)"

lemma word_bytes_pos [simp]: "0 < word_bytes w"
  by (cases w) simp_all

lemma slot_ok_pos: "slot_ok a \<Longrightarrow> 0 < slot_size a"
  unfolding slot_ok_def using word_bytes_pos [of "word_type a"] by linarith

lemma next_cursor_ok:
  assumes "0 \<le> cursor" "slot_ok a" "is_pseudo a"
  shows "\<exists>c. next_cursor a cursor = Inr c \<and> cursor + slot_size a \<le> c \<and> slot_align a dvd c"
proof (cases "operand_type a")
  case (ASM_OPERAND_PSEUDO_MEMORY n off t)
  then show ?thesis
    using round_up_ok [of "cursor + t" 16] assms slot_ok_pos [OF assms(2)]
    by (auto simp: next_cursor_def slot_size_def slot_align_def codegen_bytes_defs)
next
  case (ASM_OPERAND_PSEUDO_REGISTER n)
  then show ?thesis
    using round_up_ok [of "cursor + 4" 4] round_up_ok [of "cursor + 8" 8] assms(1)
    by (cases "word_type a")
      (auto simp: next_cursor_def slot_size_def slot_align_def codegen_bytes_defs)
qed (use assms(3) in \<open>simp_all add: is_pseudo_def\<close>)

text \<open>
  The state of the second run, after the operands in \<open>A\<close>: the array \<open>offs\<close> holds a layout
  of \<open>A\<close>, and is zero for every other value.
\<close>

definition place_of :: "int \<Rightarrow> int list \<Rightarrow> int \<Rightarrow> int" where
  "place_of lo offs n = offs ! nat (n - lo)"

definition frame_inv :: "int \<Rightarrow> int \<Rightarrow> asm_operand set \<Rightarrow> int \<Rightarrow> int list \<Rightarrow> bool" where
  "frame_inv lo hi A cursor offs \<longleftrightarrow>
     length offs = nat (1 + hi - lo) \<and> 0 \<le> cursor \<and>
     frame_layout A (place_of lo offs) cursor \<and>
     (\<forall>n. lo \<le> n \<and> n \<le> hi \<longrightarrow> n \<notin> pid ` A \<longrightarrow> place_of lo offs n = 0) \<and>
     (\<forall>i < length offs. offs ! i \<le> cursor)"

lemma frame_inv_init: "lo \<le> hi \<Longrightarrow> frame_inv lo hi {} 0 (replicate (nat (1 + hi - lo)) 0)"
  by (auto simp: frame_inv_def frame_layout_def place_of_def)

lemma replace_arg_step:
  assumes inv: "frame_inv lo hi A cursor offs" and ps: "is_pseudo a" "slot_ok a" "0 \<le> lo"
    and rng: "lo \<le> pid a" "pid a \<le> hi" "\<forall>b\<in>A. lo \<le> pid b \<and> pid b \<le> hi \<and> slot_ok b"
    and cons: "pid a \<in> pid ` A \<Longrightarrow> \<exists>b\<in>A. pid b = pid a \<and> fits a b"
  shows "\<exists>cursor' offs'. replace_arg (lo, hi) a (cursor, offs) =
      Inr ((cursor', offs'), place_arg (place_of lo offs') a) \<and>
      frame_inv lo hi (insert a A) cursor' offs' \<and>
      (\<forall>b\<in>A. place_of lo offs' (pid b) = place_of lo offs (pid b))"
proof -
  let ?i = "nat (pid a - lo)" and ?pl = "place_of lo offs"
  have len: "length offs = nat (1 + hi - lo)" and i: "?i < length offs"
    using inv rng by (auto simp: frame_inv_def)
  have id: "pseudo_id (operand_type a) = Some (pid a)" using ps by (auto simp: is_pseudo_def pid_def)
  have pos: "0 < slot_size b" if "b \<in> insert a A" for b using that ps rng(3) slot_ok_pos by auto
  have lay: "frame_layout A ?pl cursor" using inv by (simp add: frame_inv_def)
  define fin where "fin st' = check (case operand_type a of
      ASM_OPERAND_PSEUDO_MEMORY _ offset _ \<Rightarrow>
        assert_that (snd st' ! ?i - offset > 0) (Inr (snd st' ! ?i - offset))
      | _ \<Rightarrow> Inr (snd st' ! ?i)) (\<lambda>computed_offset.
      Inr (st', a\<lparr>operand_type := ASM_OPERAND_MEMORY (-1 * computed_offset) ASM_REGISTER_RBP\<rparr>))"
    for st' :: "int \<times> int list"
  have run: "replace_arg (lo, hi) a (cursor, offs) =
      check (if offs ! ?i \<noteq> 0 then Inr (cursor, offs)
             else check (next_cursor a cursor) (\<lambda>c. Inr (c, offs[?i := c]))) fin"
    using id rng ps(3) by (simp add: replace_arg_def fin_def [abs_def] Let_def)
  have fin: "fin (c, os) = Inr ((c, os), place_arg (place_of lo os) a)"
    if "slot_size a \<le> os ! ?i" for c os
  proof (cases "operand_type a")
    case (ASM_OPERAND_PSEUDO_MEMORY n off t)
    have "slot_offset a < slot_size a"
      using ps(2) word_bytes_pos [of "word_type a"] unfolding slot_ok_def by linarith
    with that ASM_OPERAND_PSEUDO_MEMORY have "0 < os ! ?i - off" by (simp add: slot_offset_def)
    with ASM_OPERAND_PSEUDO_MEMORY ps(1) show ?thesis
      by (simp add: fin_def place_arg_def place_of_def slot_offset_def)
  qed (use ps(1) in \<open>simp_all add: is_pseudo_def fin_def place_arg_def place_of_def slot_offset_def\<close>)
  show ?thesis
  proof (cases "offs ! ?i = 0")
    case False
    then have "pid a \<in> pid ` A"
      using inv rng unfolding frame_inv_def place_of_def by blast
    then obtain b where b: "b \<in> A" "pid b = pid a" and fit: "fits a b" using cons by auto
    have old: "slot_size b \<le> ?pl (pid b)" "?pl (pid b) \<le> cursor" "slot_align b dvd ?pl (pid b)"
      using lay b(1) by (auto simp: frame_layout_def)
    have place: "slot_size a \<le> ?pl (pid a)" "slot_align a dvd ?pl (pid a)"
      using old fit b(2) by (auto simp: fits_def intro: dvd_trans)
    have "?pl (pid a) \<le> ?pl (pid d) - slot_size d \<or> ?pl (pid d) \<le> ?pl (pid a) - slot_size a"
      if "d \<in> A" "pid d \<noteq> pid a" for d
      using lay that b fit unfolding frame_layout_def fits_def by (smt (verit, best))
    then have "frame_layout (insert a A) ?pl cursor"
      using lay old place b unfolding frame_layout_def by (smt (verit, best) insertE)
    then have "frame_inv lo hi (insert a A) cursor offs" using inv by (auto simp: frame_inv_def)
    moreover have "fin (cursor, offs) = Inr ((cursor, offs), place_arg ?pl a)"
      using place by (intro fin) (simp add: place_of_def)
    ultimately show ?thesis using run False by auto
  next
    case True
    obtain c where c: "next_cursor a cursor = Inr c" "cursor + slot_size a \<le> c" "slot_align a dvd c"
      using next_cursor_ok [of cursor a] inv ps by (auto simp: frame_inv_def)
    let ?os = "offs[?i := c]"
    have new: "place_of lo ?os (pid a) = c" using i by (simp add: place_of_def)
    have notin: "pid b \<noteq> pid a" if "b \<in> A" for b
    proof
      assume eq: "pid b = pid a"
      have "slot_size b \<le> ?pl (pid b)" using lay that by (auto simp: frame_layout_def)
      with pos [of b] that eq True show False by (simp add: place_of_def)
    qed
    have keep: "place_of lo ?os n = ?pl n" if "lo \<le> n" "n \<noteq> pid a" for n
      using that rng(1) by (simp add: place_of_def nth_list_update nat_eq_iff)
    have keepA: "place_of lo ?os (pid b) = ?pl (pid b)" if "b \<in> A" for b
      using that notin keep rng(3) by auto
    have old: "slot_size b \<le> ?pl (pid b) \<and> ?pl (pid b) \<le> cursor \<and> slot_align b dvd ?pl (pid b)"
      if "b \<in> A" for b
      using lay that by (auto simp: frame_layout_def)
    have "frame_layout (insert a A) (place_of lo ?os) c"
      unfolding frame_layout_def
    proof (intro conjI ballI impI)
      fix b d assume b: "b \<in> insert a A" and d: "d \<in> insert a A"
      have bA: "b \<in> A \<or> b = a" and dA: "d \<in> A \<or> d = a" using b d by auto
      have cc: "cursor \<le> c" "0 \<le> cursor" using c(2) pos [of a] inv by (auto simp: frame_inv_def)
      show "slot_size b \<le> place_of lo ?os (pid b)" "place_of lo ?os (pid b) \<le> c"
        "slot_align b dvd place_of lo ?os (pid b)"
        using bA keepA old [of b] new c cc by auto
      assume "pid b \<noteq> pid d"
      with bA dA show "place_of lo ?os (pid b) \<le> place_of lo ?os (pid d) - slot_size d \<or>
          place_of lo ?os (pid d) \<le> place_of lo ?os (pid b) - slot_size b"
        using keepA [of b] keepA [of d] old [of b] old [of d] new c(2) lay
        unfolding frame_layout_def by (smt (verit, best))
    qed
    moreover have "\<forall>n. lo \<le> n \<and> n \<le> hi \<longrightarrow> n \<notin> pid ` insert a A \<longrightarrow> place_of lo ?os n = 0"
      using inv keep by (auto simp: frame_inv_def)
    moreover have "?os ! j \<le> c" if "j < length ?os" for j
    proof (cases "j = ?i")
      case False
      then have "?os ! j \<le> cursor" using that inv by (simp add: frame_inv_def)
      then show ?thesis using c(2) pos [of a] by simp
    qed (use i in simp)
    ultimately have "frame_inv lo hi (insert a A) c ?os"
      using len c(2) pos [of a] inv by (auto simp: frame_inv_def)
    moreover have "fin (c, ?os) = Inr ((c, ?os), place_arg (place_of lo ?os) a)"
      using i c(2) inv by (intro fin) (simp add: frame_inv_def)
    ultimately show ?thesis using run True c(1) keepA by auto
  qed
qed

definition pargs :: "asm_operand \<Rightarrow> asm_operand set" where
  "pargs a = {b. b = a \<and> is_pseudo b}"

lemma replace_arg_any:
  assumes inv: "frame_inv lo hi (set seen) cursor offs" and lo: "0 \<le> lo"
    and X: "\<forall>b\<in>set seen \<union> pargs a. lo \<le> pid b \<and> pid b \<le> hi \<and> slot_ok b"
    and fw: "first_widest seen (filter is_pseudo [a])"
  shows "\<exists>cursor' offs'. replace_arg (lo, hi) a (cursor, offs) =
      Inr ((cursor', offs'), place_arg (place_of lo offs') a) \<and>
      frame_inv lo hi (set (filter is_pseudo [a] @ seen)) cursor' offs' \<and>
      (\<forall>b\<in>set seen. place_of lo offs' (pid b) = place_of lo offs (pid b))"
proof (cases "is_pseudo a")
  case True
  then have "\<exists>b\<in>set seen. pid b = pid a \<and> fits a b" if "pid a \<in> pid ` set seen"
    using fw that by (auto simp: list_ex_iff)
  then show ?thesis
    using replace_arg_step [OF inv True _ lo] X True by (simp add: pargs_def)
next
  case False
  then have "pseudo_id (operand_type a) = None" by (simp add: is_pseudo_def)
  then show ?thesis using inv False by (auto simp: replace_arg_def place_arg_def)
qed

lemma place_arg_cong: "(is_pseudo a \<Longrightarrow> p (pid a) = q (pid a)) \<Longrightarrow> place_arg p a = place_arg q a"
  by (simp add: place_arg_def)

lemma pseudo_args_Cons:
  "pseudo_args (op # xs) = filter is_pseudo [arg0 op] @ filter is_pseudo [arg1 op] @ pseudo_args xs"
  by (simp add: pseudo_args_def op_args_def)

lemma set_pseudo_args_Cons:
  "set (pseudo_args (op # xs)) = pargs (arg0 op) \<union> pargs (arg1 op) \<union> set (pseudo_args xs)"
  by (auto simp: pseudo_args_Cons pargs_def)

lemma replace_fn_ok:
  assumes "frame_inv lo hi (set seen) cursor offs" "0 \<le> lo"
    and "first_widest seen (pseudo_args xs)"
    and "\<forall>b\<in>set seen \<union> set (pseudo_args xs). lo \<le> pid b \<and> pid b \<le> hi \<and> slot_ok b"
  shows "\<exists>cursor' offs'. codegen_replace_pseudo_fn (lo, hi) xs (cursor, offs) =
      Inr ((cursor', offs'), map (place_op (place_of lo offs')) xs) \<and>
      frame_inv lo hi (set seen \<union> set (pseudo_args xs)) cursor' offs' \<and>
      (\<forall>b\<in>set seen. place_of lo offs' (pid b) = place_of lo offs (pid b))"
  using assms(1,3,4)
proof (induction xs arbitrary: seen cursor offs)
  case Nil
  then show ?case by (auto simp: pseudo_args_def op_args_def)
next
  case (Cons op xs)
  let ?f = "\<lambda>a. filter is_pseudo [a]"
  let ?s0 = "?f (arg0 op) @ seen"
  let ?s1 = "?f (arg1 op) @ ?s0"
  have fw: "first_widest seen (?f (arg0 op))" "first_widest ?s0 (?f (arg1 op))"
    "first_widest ?s1 (pseudo_args xs)"
    using Cons.prems(2) unfolding pseudo_args_Cons first_widest_append
    by (simp_all split: if_splits)
  have X: "\<forall>b\<in>set seen \<union> pargs (arg0 op). lo \<le> pid b \<and> pid b \<le> hi \<and> slot_ok b"
    "\<forall>b\<in>set ?s0 \<union> pargs (arg1 op). lo \<le> pid b \<and> pid b \<le> hi \<and> slot_ok b"
    "\<forall>b\<in>set ?s1 \<union> set (pseudo_args xs). lo \<le> pid b \<and> pid b \<le> hi \<and> slot_ok b"
    using Cons.prems(3) by (auto simp: set_pseudo_args_Cons pargs_def split: if_splits)
  obtain c0 o0 where s0: "replace_arg (lo, hi) (arg0 op) (cursor, offs) =
      Inr ((c0, o0), place_arg (place_of lo o0) (arg0 op))" "frame_inv lo hi (set ?s0) c0 o0"
    "\<forall>b\<in>set seen. place_of lo o0 (pid b) = place_of lo offs (pid b)"
    using replace_arg_any [OF Cons.prems(1) assms(2) X(1) fw(1)] by auto
  obtain c1 o1 where s1: "replace_arg (lo, hi) (arg1 op) (c0, o0) =
      Inr ((c1, o1), place_arg (place_of lo o1) (arg1 op))" "frame_inv lo hi (set ?s1) c1 o1"
    "\<forall>b\<in>set ?s0. place_of lo o1 (pid b) = place_of lo o0 (pid b)"
    using replace_arg_any [OF s0(2) assms(2) X(2) fw(2)] by auto
  obtain c2 o2 where s2: "codegen_replace_pseudo_fn (lo, hi) xs (c1, o1) =
      Inr ((c2, o2), map (place_op (place_of lo o2)) xs)"
    "frame_inv lo hi (set ?s1 \<union> set (pseudo_args xs)) c2 o2"
    "\<forall>b\<in>set ?s1. place_of lo o2 (pid b) = place_of lo o1 (pid b)"
    using Cons.IH [OF s1(2) fw(3) X(3)] by auto
  have "place_arg (place_of lo o0) (arg0 op) = place_arg (place_of lo o2) (arg0 op)"
    "place_arg (place_of lo o1) (arg1 op) = place_arg (place_of lo o2) (arg1 op)"
    using s1(3) s2(3) by (auto intro!: place_arg_cong)
  moreover have "\<forall>b\<in>set seen. place_of lo o2 (pid b) = place_of lo offs (pid b)"
    using s0(3) s1(3) s2(3) by auto
  moreover have "set seen \<union> set (pseudo_args (op # xs)) = set ?s1 \<union> set (pseudo_args xs)"
    by (auto simp: pseudo_args_Cons)
  ultimately show ?case
    using s0(1) s1(1) s2(1,2) by (auto simp: place_op_def)
qed

section \<open>The two runs together\<close>

lemma preflight_args:
  "codegen_replace_pseudo_preflight xs r = foldl (\<lambda>r a. preflight_arg a r) r (op_args xs)"
  by (induction xs arbitrary: r)
    (simp_all add: codegen_replace_pseudo_preflight_def op_args_def)

lemma preflight_range:
  "foldl (\<lambda>r a. preflight_arg a r) (m, n) as =
     (let ids = map pid (filter is_pseudo as) in (foldl min m ids, foldl max n ids))"
  by (induction "as" arbitrary: m n)
    (auto simp: preflight_arg_def is_pseudo_def pid_def Let_def split: option.splits)

lemma foldl_min_neg: "foldl min m (xs :: int list) = - foldl max (- m) (map uminus xs)"
  by (induction xs arbitrary: m) (simp_all add: minus_min_eq_max)

lemma foldl_min_lower: "x \<in> set xs \<Longrightarrow> foldl min m xs \<le> (x::int)"
  using foldl_max_upper [of "- x" "map uminus xs" "- m"] by (auto simp: foldl_min_neg)

lemma foldl_min_le: "foldl min m xs \<le> (m::int)"
  using foldl_max_ge [of "- m" "map uminus xs"] by (simp add: foldl_min_neg)

lemma foldl_min_mem: "foldl min (m::int) xs = m \<or> foldl min m xs \<in> set xs"
  using foldl_max_mem [of "- m" "map uminus xs"] by (auto simp: foldl_min_neg)

lemma place_op_id: "pseudo_args xs = [] \<Longrightarrow> map (place_op p) xs = xs"
  by (induction xs) (auto simp: pseudo_args_Cons place_op_def place_arg_def split: if_splits)

lemma frame_layout_mono: "frame_layout A p m \<Longrightarrow> m \<le> n \<Longrightarrow> frame_layout A p n"
  unfolding frame_layout_def by fastforce

text \<open>Every function gets a frame, and the pass never fails on it.\<close>

lemma replace_pseudo_frame:
  assumes "frame_ok f"
  shows "\<exists>f' place. codegen_replace_pseudo_one f = Inr f' \<and>
    f' = f\<lparr>ops := map (place_op place) (ops f), stack_usage := stack_usage f'\<rparr> \<and>
    frame_layout (set (pseudo_args (ops f))) place (stack_usage f') \<and> 0 \<le> stack_usage f'"
proof (cases "pseudo_args (ops f) = []")
  case True
  then have "codegen_replace_pseudo_preflight (ops f) (LLONG_MAX, LLONG_MIN) = (LLONG_MAX, LLONG_MIN)"
    by (simp add: preflight_args preflight_range pseudo_args_def)
  then have "codegen_replace_pseudo_one f = Inr f" by (simp add: codegen_replace_pseudo_one_def)
  moreover have "f = f\<lparr>ops := map (place_op (\<lambda>_. 0)) (ops f), stack_usage := stack_usage f\<rparr>"
    using place_op_id [OF True] by simp
  ultimately show ?thesis
    using assms True by (fastforce simp: frame_ok_def frame_layout_def)
next
  case False
  let ?P = "pseudo_args (ops f)" and ?ids = "map pid (pseudo_args (ops f))"
  define lo hi where "lo = foldl min LLONG_MAX ?ids" and "hi = foldl max LLONG_MIN ?ids"
  have pre: "codegen_replace_pseudo_preflight (ops f) (LLONG_MAX, LLONG_MIN) = (lo, hi)"
    by (simp add: preflight_args preflight_range lo_def hi_def pseudo_args_def Let_def)
  obtain a where a: "a \<in> set ?P" using False by (cases ?P) auto
  have fw: "first_widest [] ?P" using assms by (simp add: frame_ok_def)
  have ok: "0 \<le> pid b" "pid b < LLONG_MAX" "\<forall>c \<in> set ?P. pid c - pid b < 4096" "slot_ok b"
    if "b \<in> set ?P" for b
    using assms that first_widest_ok [OF fw] by (auto simp: frame_ok_def list_all_iff)
  have lo_le: "lo \<le> pid b" and hi_ge: "pid b \<le> hi" if "b \<in> set ?P" for b
    using that by (auto simp: lo_def hi_def intro!: foldl_min_lower foldl_max_upper)
  have "LLONG_MIN < 0" by (simp add: LLONG_MIN_def)
  with lo_le [OF a] hi_ge [OF a] ok(1,2) [OF a] have ne: "lo \<noteq> LLONG_MAX" "hi \<noteq> LLONG_MIN"
    by linarith+
  then obtain b c where bc: "b \<in> set ?P" "lo = pid b" "c \<in> set ?P" "hi = pid c"
    using foldl_min_mem [of LLONG_MAX ?ids] foldl_max_mem [of LLONG_MIN ?ids]
    by (auto simp: lo_def hi_def)
  have size: "0 < 1 + hi - lo" "1 + hi - lo \<le> 4096" "0 \<le> lo"
    using ok [OF bc(1)] lo_le [OF bc(3)] bc by auto
  obtain cursor offs where r: "codegen_replace_pseudo_fn (lo, hi) (ops f)
      (0, replicate (nat (1 + hi - lo)) 0) =
      Inr ((cursor, offs), map (place_op (place_of lo offs)) (ops f))"
    and inv: "frame_inv lo hi (set ?P) cursor offs"
    using replace_fn_ok [of lo hi "[]" 0 "replicate (nat (1 + hi - lo)) 0" "ops f"]
      frame_inv_init [of lo hi] size fw lo_le hi_ge ok
    by auto
  let ?u = "foldl max 0 offs"
  have "frame_layout (set ?P) (place_of lo offs) ?u"
    unfolding frame_layout_def
  proof (intro conjI ballI impI)
    fix d e assume d: "d \<in> set ?P"
    have "place_of lo offs (pid d) \<in> set offs"
      using inv lo_le [OF d] hi_ge [OF d] by (auto simp: place_of_def frame_inv_def)
    then show "place_of lo offs (pid d) \<le> ?u" by (rule foldl_max_upper)
  qed (use inv in \<open>auto simp: frame_inv_def frame_layout_def\<close>)
  moreover have "stack_usage f = 0" using assms by (simp add: frame_ok_def)
  ultimately show ?thesis
    using ne pre size r foldl_max_ge [of 0 offs]
    by (auto simp: codegen_replace_pseudo_one_def Let_def intro!: exI [of _ "place_of lo offs"])
qed

lemma place_arg_not_pseudo: "\<not> is_pseudo (place_arg p a)"
  by (simp add: place_arg_def is_pseudo_def)

lemma place_op_not_pseudo: "pseudo_args (map (place_op p) xs) = []"
  by (induction xs) (simp_all add: pseudo_args_def op_args_def place_op_def place_arg_not_pseudo)

text \<open>The frame that is reserved is aligned and holds everything.\<close>

lemma alloc_stack_ok:
  assumes "0 < stack_usage f"
  shows "\<exists>n. codegen_fixup_alloc_stack f = Inr (f\<lparr>ops := codegen_alloc_subq_rsp n # ops f\<rparr>) \<and>
    stack_usage f \<le> n \<and> n < stack_usage f + 16 \<and> 16 dvd n"
  using round_up_ok [of "stack_usage f" 16] assms
  by (auto simp: codegen_fixup_alloc_stack_def codegen_bytes_defs)

end
