(* ===== verification/Fixup.thy ===== *)
theory Fixup
  imports Frame
begin

text \<open>
  \<^verbatim>\<open>codegen_fixup_instructions()\<close>: the instructions that the x86-64 does not have are
  replaced by short sequences (trampolines) that go through a scratch register.

  A \<^verbatim>\<open>fixer\<close> is a function from an instruction to \<open>None\<close> (the C function returns false) or
  to the first \<^verbatim>\<open>sz\<close> instructions of its trampoline; a failed assertion in it is \<open>Abort\<close>.
  The instruction that a fixer starts from is the zeroed one, as \<^verbatim>\<open>codegen_fixup_apply()\<close>
  allocates it.
\<close>

type_synonym fixer = "asm_op \<Rightarrow> asm_op list option result"

fun in_memory_kind :: "asm_operand_kind \<Rightarrow> bool" where
  "in_memory_kind (ASM_OPERAND_MEMORY _ _) = True"
| "in_memory_kind (ASM_OPERAND_VARIABLE_DATA _) = True"
| "in_memory_kind (ASM_OPERAND_CONSTANT_DATA_DOUBLE _) = True"
| "in_memory_kind (ASM_OPERAND_CONSTANT_DATA_VEC_LONGS _) = True"
| "in_memory_kind (ASM_OPERAND_CONSTANT_DATA_VEC_QUADS _) = True"
| "in_memory_kind (ASM_OPERAND_CONSTANT_STRING _) = True"
| "in_memory_kind _ = False"

definition in_memory :: "asm_operand \<Rightarrow> bool" where
  "in_memory a = in_memory_kind (operand_type a)"

fun immediate_kind :: "asm_operand_kind \<Rightarrow> int option" where
  "immediate_kind (ASM_OPERAND_IMMEDIATE n) = Some n"
| "immediate_kind _ = None"

text \<open>\<^verbatim>\<open>operand_type == ASM_OPERAND_IMMEDIATE\<close>, and \<^verbatim>\<open>u.num\<close> then.\<close>

definition is_immediate :: "asm_operand \<Rightarrow> bool" where
  "is_immediate a = (immediate_kind (operand_type a) \<noteq> None)"

definition immediate_above_int :: "asm_operand \<Rightarrow> bool" where
  "immediate_above_int a =
     (case immediate_kind (operand_type a) of None \<Rightarrow> False | Some n \<Rightarrow> n > INT_MAX)"

fun register_kind :: "asm_operand_kind \<Rightarrow> asm_register option" where
  "register_kind (ASM_OPERAND_REGISTER r) = Some r"
| "register_kind _ = None"

definition is_register :: "asm_operand \<Rightarrow> bool" where
  "is_register a = (register_kind (operand_type a) \<noteq> None)"

definition mov_op :: "asm_operand \<Rightarrow> asm_operand \<Rightarrow> asm_op" where
  "mov_op src dst = codegen_alloc_op\<lparr>opcode := IntOp ASM_OP_MOV, arg0 := src, arg1 := dst\<rparr>"

section \<open>The fixers\<close>

definition fix_s2s :: fixer where
  "fix_s2s cur =
     (let binary_ish_opcode = opcode cur \<in> {IntOp ASM_OP_BINARY_ADD, IntOp ASM_OP_BINARY_SUBTRACT,
            IntOp ASM_OP_BITWISE_AND, IntOp ASM_OP_BITWISE_OR, IntOp ASM_OP_BITWISE_XOR,
            IntOp ASM_OP_COMPARE};
          candidate_opcode = opcode cur = IntOp ASM_OP_MOV \<or> binary_ish_opcode;
          candidate_operand_0 = in_memory (arg0 cur);
          candidate_operand_1 = in_memory (arg1 cur)
      in if \<not> (candidate_opcode \<and> candidate_operand_0 \<and> candidate_operand_1) then Inr None
         else
           (let op0 = (if binary_ish_opcode then cur\<lparr>opcode := IntOp ASM_OP_MOV\<rparr> else cur)
            in Inr (Some
                 [op0\<lparr>arg1 := codegen_set_operand_r10 (arg0 cur)\<rparr>,
                  cur\<lparr>arg0 := codegen_set_operand_r10 (arg1 cur)\<rparr>])))"

definition fix_imm_big :: fixer where
  "fix_imm_big cur =
     (if \<not> ((opcode cur \<in> {IntOp ASM_OP_BINARY_ADD, IntOp ASM_OP_BINARY_SUBTRACT,
              IntOp ASM_OP_BINARY_MULTIPLY, IntOp ASM_OP_BITWISE_AND, IntOp ASM_OP_BITWISE_OR,
              IntOp ASM_OP_BITWISE_XOR, IntOp ASM_OP_COMPARE, ASM_OP_PUSH} \<and>
            immediate_above_int (arg0 cur)) \<or>
           (opcode cur = IntOp ASM_OP_MOV \<and> immediate_above_int (arg0 cur) \<and> in_memory (arg1 cur)) \<or>
           (opcode cur = IntOp ASM_OP_MOV \<and> is_immediate (arg0 cur) \<and> is_xmm_register (arg1 cur)))
      then Inr None
      else Inr (Some
        [cur\<lparr>opcode := IntOp ASM_OP_MOV, arg1 := OPERAND_R10_64BIT\<rparr>,
         cur\<lparr>arg0 := OPERAND_R10_64BIT\<rparr>]))"

definition fix_cmp :: fixer where
  "fix_cmp cur =
     (if \<not> (opcode cur = IntOp ASM_OP_COMPARE \<and> is_immediate (arg1 cur)) then Inr None
      else Inr (Some
        [mov_op (arg1 cur) (codegen_set_operand_r11 (arg1 cur)),
         codegen_alloc_op\<lparr>opcode := IntOp ASM_OP_COMPARE, arg0 := arg0 cur,
           arg1 := codegen_set_operand_r11 (arg0 cur)\<rparr>]))"

definition fix_div :: fixer where
  "fix_div cur =
     (if \<not> (opcode cur \<in> {IntOp ASM_OP_IDIV, IntOp ASM_OP_DIV} \<and> is_immediate (arg0 cur))
      then Inr None
      else Inr (Some
        [mov_op (arg0 cur) (codegen_set_operand_r10 (arg0 cur)),
         codegen_alloc_op\<lparr>opcode := opcode cur, arg0 := codegen_set_operand_r10 (arg0 cur)\<rparr>]))"

definition fix_mul :: fixer where
  "fix_mul cur =
     (if \<not> (opcode cur = IntOp ASM_OP_BINARY_MULTIPLY \<and> in_memory (arg1 cur)) then Inr None
      else Inr (Some
        [mov_op (arg1 cur) (codegen_set_operand_r11 (arg1 cur)),
         codegen_alloc_op\<lparr>opcode := IntOp ASM_OP_BINARY_MULTIPLY, arg0 := arg0 cur,
           arg1 := codegen_set_operand_r11 (arg0 cur)\<rparr>,
         mov_op (codegen_set_operand_r11 (arg1 cur)) (arg1 cur)]))"

definition shift_opcode :: "asm_opcode \<Rightarrow> bool" where
  "shift_opcode oc =
     (oc \<in> {IntOp ASM_OP_BITWISE_SIGNED_SHIFT_LEFT, IntOp ASM_OP_BITWISE_SIGNED_SHIFT_RIGHT,
        IntOp ASM_OP_BITWISE_UNSIGNED_SHIFT_LEFT, IntOp ASM_OP_BITWISE_UNSIGNED_SHIFT_RIGHT})"

definition fix_shift :: fixer where
  "fix_shift cur =
     (if \<not> (shift_opcode (opcode cur) \<and> \<not> is_immediate (arg0 cur)) then Inr None
      else Inr (Some
        [mov_op (arg0 cur) (codegen_set_operand_ecx (arg0 cur)),
         codegen_alloc_op\<lparr>opcode := opcode cur, arg0 := codegen_set_operand_ecx (arg1 cur),
           arg1 := arg1 cur\<rparr>]))"

definition fix_movsx_and_movzx :: fixer where
  "fix_movsx_and_movzx cur =
     (if \<not> (((opcode cur = IntOp ASM_OP_MOV_WITH_SIGN_EXTENSION \<and>
              word_type (arg0 cur) < ASM_WORD_64BIT) \<or>
             (opcode cur = IntOp ASM_OP_MOV_WITH_ZERO_EXTENSION \<and>
              word_type (arg0 cur) < ASM_WORD_32BIT)) \<and>
            (is_immediate (arg0 cur) \<or> in_memory (arg1 cur)))
      then Inr None
      else
        (let op0 = mov_op (arg0 cur) (codegen_set_operand_r10 (arg0 cur));
             op1 = codegen_alloc_op\<lparr>opcode := opcode cur, arg0 := arg1 op0,
               arg1 := codegen_set_operand_r11 (arg1 cur)\<rparr>;
             op2 = mov_op (arg1 op1) (arg1 cur)
         in
         assert_that (word_type (arg0 op0) < ASM_WORD_64BIT)
           (assert_that (word_type (arg0 op0) = word_type (arg1 op0))
             (assert_that (word_type (arg0 op1) < word_type (arg1 op1))
               (assert_that (word_type (arg0 op2) = word_type (arg1 op2))
                 (assert_that (word_type (arg0 op0) < word_type (arg1 op2))
                   (Inr (Some [op0, op1, op2]))))))))"

definition fix_movzx_32bit :: fixer where
  "fix_movzx_32bit cur =
     (if opcode cur \<noteq> IntOp ASM_OP_MOV_WITH_ZERO_EXTENSION then Inr None
      else if word_type (arg0 cur) = ASM_WORD_08BIT then Inr None
      else
        assert_that (word_type (arg0 cur) = ASM_WORD_32BIT)
          (if is_register (arg1 cur) then Inr (Some [cur\<lparr>opcode := IntOp ASM_OP_MOV\<rparr>])
           else
             (let op0 = cur\<lparr>opcode := IntOp ASM_OP_MOV, arg1 := codegen_set_operand_r11 (arg0 cur)\<rparr>;
                  op1 = cur\<lparr>opcode := IntOp ASM_OP_MOV, arg0 := codegen_set_operand_r11 (arg1 cur)\<rparr>
              in
              assert_that (word_type (arg1 op0) < ASM_WORD_64BIT)
                (assert_that (word_type (arg1 op0) < word_type (arg0 op1))
                  (Inr (Some [op0, op1]))))))"

definition fix_cvt_double_to_int :: fixer where
  "fix_cvt_double_to_int cur =
     (if \<not> (opcode cur = IntOp ASM_OP_CVT_DOUBLE_TO_INT \<and> in_memory (arg1 cur)) then Inr None
      else Inr (Some
        [cur\<lparr>arg1 := codegen_set_operand_r11 (arg0 cur)\<rparr>,
         cur\<lparr>opcode := IntOp ASM_OP_MOV, arg0 := codegen_set_operand_r11 (arg1 cur)\<rparr>]))"

definition fix_cvt_int_to_double :: fixer where
  "fix_cvt_int_to_double cur =
     (if \<not> (opcode cur = IntOp ASM_OP_CVT_INT_TO_DOUBLE \<and>
            (is_immediate (arg0 cur) \<or> in_memory (arg1 cur)))
      then Inr None
      else Inr (Some
        [mov_op (arg0 cur) (codegen_set_operand_r10 (arg0 cur)),
         codegen_alloc_op\<lparr>opcode := opcode cur, arg0 := codegen_set_operand_r10 (arg0 cur),
           arg1 := OPERAND_XMM15\<rparr>,
         mov_op OPERAND_XMM15 (arg1 cur)]))"

definition fix_arithmetic_on_double :: fixer where
  "fix_arithmetic_on_double cur =
     (if \<not> (opcode cur \<in> {DoubleOp ASM_OP_DOUBLE_COMPARE, DoubleOp ASM_OP_DOUBLE_BINARY_ADD,
              DoubleOp ASM_OP_DOUBLE_BINARY_SUBTRACT, DoubleOp ASM_OP_DOUBLE_BINARY_MULTIPLY,
              DoubleOp ASM_OP_DOUBLE_BINARY_DIVIDE, DoubleOp ASM_OP_DOUBLE_BITWISE_XOR} \<and>
            in_memory (arg1 cur))
      then Inr None
      else Inr (Some
        ([mov_op (arg1 cur) OPERAND_XMM15,
          codegen_alloc_op\<lparr>opcode := opcode cur, arg0 := arg0 cur, arg1 := OPERAND_XMM15\<rparr>] @
         (if opcode cur \<noteq> DoubleOp ASM_OP_DOUBLE_COMPARE
          then [mov_op OPERAND_XMM15 (arg1 cur)] else []))))"

definition fix_lea :: fixer where
  "fix_lea cur =
     (if \<not> (opcode cur = IntOp ASM_OP_LEA \<and> in_memory (arg1 cur)) then Inr None
      else Inr (Some
        [codegen_alloc_op\<lparr>opcode := opcode cur, arg0 := arg0 cur,
           arg1 := codegen_set_operand_r10 (arg1 cur)\<rparr>,
         mov_op (codegen_set_operand_r10 (arg1 cur)) (arg1 cur)]))"

section \<open>Applying a fixer to a function\<close>

text \<open>
  The list of instructions with a cursor: the instructions up to and with \<^verbatim>\<open>prev\<close>, and those
  from \<^verbatim>\<open>cur\<close> on. When the fixer applies, the trampoline takes the place of \<^verbatim>\<open>cur\<close>, and the
  cursor moves behind it; otherwise nothing moves.
\<close>

definition codegen_fixup_apply ::
  "fixer \<Rightarrow> asm_op list \<Rightarrow> asm_op \<Rightarrow> asm_op list \<Rightarrow> (asm_op list \<times> asm_op list) option result" where
  "codegen_fixup_apply fix_init prev cur remainder =
     check (fix_init cur) (\<lambda>r.
       case r of
         None \<Rightarrow> Inr None
       | Some trampoline \<Rightarrow>
           assert_that (length trampoline \<ge> 1)
             (assert_that (length trampoline \<ge> 2)
               (Inr (Some (prev @ trampoline, remainder)))))"

function codegen_fixup_loop ::
  "fixer \<Rightarrow> asm_op list \<Rightarrow> asm_op list \<Rightarrow> asm_op list result" where
  "codegen_fixup_loop fix_init prev [] = Inr prev"
| "codegen_fixup_loop fix_init prev (cur # rest) =
     check (codegen_fixup_apply fix_init prev cur rest) (\<lambda>r.
       case r of
         None \<Rightarrow> codegen_fixup_loop fix_init (prev @ [cur]) rest
       | Some (prev', cur') \<Rightarrow> codegen_fixup_loop fix_init prev' cur')"
  by pat_completeness auto
termination
  by (relation "measure (\<lambda>(f, p, c). length c)")
    (auto simp: codegen_fixup_apply_def check_iff split: option.splits)

definition codegen_fixup_function :: "asm_function \<Rightarrow> fixer \<Rightarrow> asm_function result" where
  "codegen_fixup_function cg fix_init =
     check (codegen_fixup_loop fix_init [] (ops cg)) (\<lambda>os. Inr (cg\<lparr>ops := os\<rparr>))"

definition fixers :: "fixer list" where
  "fixers = [fix_s2s, fix_imm_big, fix_cmp, fix_div, fix_mul, fix_shift, fix_movsx_and_movzx,
     fix_movzx_32bit, fix_cvt_double_to_int, fix_cvt_int_to_double, fix_arithmetic_on_double,
     fix_lea]"

fun codegen_fixup_all :: "fixer list \<Rightarrow> asm_function \<Rightarrow> asm_function result" where
  "codegen_fixup_all [] f = Inr f"
| "codegen_fixup_all (fx # fxs) f =
     check (codegen_fixup_function f fx) (\<lambda>f'. codegen_fixup_all fxs f')"

fun codegen_fixup_fns :: "asm_function list \<Rightarrow> asm_function list result" where
  "codegen_fixup_fns [] = Inr []"
| "codegen_fixup_fns (f # fs) =
     check (codegen_fixup_alloc_stack f) (\<lambda>f0.
     check (codegen_fixup_all fixers f0) (\<lambda>f'.
     check (codegen_fixup_fns fs) (\<lambda>fs'. Inr (f' # fs'))))"

definition codegen_fixup_instructions :: "assembly \<Rightarrow> assembly result" where
  "codegen_fixup_instructions cg =
     check (codegen_fixup_fns (asm_functions cg)) (\<lambda>fs. Inr (cg\<lparr>asm_functions := fs\<rparr>))"

end
