(* ===== verification/Machine.thy ===== *)
theory Machine
  imports Asm
begin

text \<open>
  A machine that runs the assembly program, to say what the code generator's rewriting of
  instructions preserves. It is the documented behaviour of the x86-64 as far as the code
  generator relies on it: 64-bit registers whose 32-bit alias clears the upper half when
  written and whose 8-bit alias leaves the rest, a byte addressed little-endian memory, and
  an instruction width that is the width of the last operand, which is how
  \<^verbatim>\<open>emit_asm_op()\<close> chooses the suffix. An instruction with operands that the real machine
  does not have (two memory operands, say) means what it says; the code generator's job is
  to get rid of it.

  What the machine leaves open is a parameter, \<open>isa\<close>: the addresses of variables and
  constants, the results of the unary, shift, conversion, division and floating point
  instructions, and the conditions. A double that is converted to an integer is taken to
  fit the integer, so the conversion does not depend on the width. The flags are the last
  instruction that set them, its width and its two inputs.
\<close>

unbundle bit_operations_syntax

record cpu =
  regs :: "asm_register \<Rightarrow> u64"
  mem :: "u64 \<Rightarrow> 8 word"
  flags :: "(asm_opcode \<times> asm_word \<times> u64 \<times> u64) option"

record isa =
  layout :: "asm_operand_kind \<Rightarrow> u64"
  alu :: "asm_opcode \<Rightarrow> asm_word \<Rightarrow> u64 \<Rightarrow> u64 \<Rightarrow> u64"
  divide :: "asm_opcode \<Rightarrow> asm_word \<Rightarrow> u64 \<Rightarrow> u64 \<Rightarrow> u64 \<Rightarrow> u64 \<times> u64"
  cond_set :: "asm_set_op \<Rightarrow> (asm_opcode \<times> asm_word \<times> u64 \<times> u64) option \<Rightarrow> u64"
  cond_jump :: "asm_jump_op \<Rightarrow> (asm_opcode \<times> asm_word \<times> u64 \<times> u64) option \<Rightarrow> bool"

fun word_bits :: "asm_word \<Rightarrow> nat" where
  "word_bits ASM_WORD_08BIT = 8"
| "word_bits ASM_WORD_32BIT = 32"
| "word_bits ASM_WORD_64BIT = 64"

definition trunc :: "asm_word \<Rightarrow> u64 \<Rightarrow> u64" where
  "trunc w v = take_bit (word_bits w) v"

text \<open>The value of a register after its alias of width \<open>w\<close> was written.\<close>

definition merge :: "asm_word \<Rightarrow> u64 \<Rightarrow> u64 \<Rightarrow> u64" where
  "merge w old v =
     (case w of
        ASM_WORD_08BIT \<Rightarrow> (old AND NOT 0xFF) OR trunc w v
      | _ \<Rightarrow> trunc w v)"

fun load :: "nat \<Rightarrow> u64 \<Rightarrow> (u64 \<Rightarrow> 8 word) \<Rightarrow> u64" where
  "load 0 a m = 0"
| "load (Suc n) a m = ucast (m a) OR push_bit 8 (load n (a + 1) m)"

fun store :: "nat \<Rightarrow> u64 \<Rightarrow> u64 \<Rightarrow> (u64 \<Rightarrow> 8 word) \<Rightarrow> u64 \<Rightarrow> 8 word" where
  "store 0 a v m = m"
| "store (Suc n) a v m = store n (a + 1) (drop_bit 8 v) (m(a := ucast v))"

definition addr :: "isa \<Rightarrow> asm_operand \<Rightarrow> cpu \<Rightarrow> u64" where
  "addr i a s =
     (case operand_type a of
        ASM_OPERAND_MEMORY off r \<Rightarrow> regs s r + of_int off
      | ASM_OPERAND_INDEXED base index scale \<Rightarrow> regs s base + regs s index * of_int scale
      | k \<Rightarrow> layout i k)"

definition read_op :: "isa \<Rightarrow> asm_word \<Rightarrow> asm_operand \<Rightarrow> cpu \<Rightarrow> u64" where
  "read_op i w a s =
     trunc w (case operand_type a of
        ASM_OPERAND_IMMEDIATE n \<Rightarrow> of_int n
      | ASM_OPERAND_REGISTER r \<Rightarrow> regs s r
      | _ \<Rightarrow> load (word_bits w div 8) (addr i a s) (mem s))"

definition write_op :: "isa \<Rightarrow> asm_word \<Rightarrow> asm_operand \<Rightarrow> u64 \<Rightarrow> cpu \<Rightarrow> cpu" where
  "write_op i w a v s =
     (case operand_type a of
        ASM_OPERAND_REGISTER r \<Rightarrow> s\<lparr>regs := (regs s)(r := merge w (regs s r) v)\<rparr>
      | _ \<Rightarrow> s\<lparr>mem := store (word_bits w div 8) (addr i a s) (trunc w v) (mem s)\<rparr>)"

text \<open>The width of an instruction: the word type of its last operand.\<close>

definition op_width :: "asm_op \<Rightarrow> asm_word" where
  "op_width op =
     (if operand_type (arg1 op) \<noteq> ASM_OPERAND_NONE then word_type (arg1 op)
      else word_type (arg0 op))"

definition sign_extend :: "asm_word \<Rightarrow> u64 \<Rightarrow> u64" where
  "sign_extend w v = (if w = ASM_WORD_64BIT then v else signed_take_bit (word_bits w - 1) v)"

text \<open>The integer instructions with two inputs and one output.\<close>

fun binary_alu :: "asm_int_op \<Rightarrow> u64 \<Rightarrow> u64 \<Rightarrow> u64 option" where
  "binary_alu ASM_OP_BINARY_ADD src dst = Some (dst + src)"
| "binary_alu ASM_OP_BINARY_SUBTRACT src dst = Some (dst - src)"
| "binary_alu ASM_OP_BITWISE_AND src dst = Some (dst AND src)"
| "binary_alu ASM_OP_BITWISE_OR src dst = Some (dst OR src)"
| "binary_alu ASM_OP_BITWISE_XOR src dst = Some (dst XOR src)"
| "binary_alu _ src dst = None"

definition set_flags :: "asm_opcode \<Rightarrow> asm_word \<Rightarrow> u64 \<Rightarrow> u64 \<Rightarrow> cpu \<Rightarrow> cpu" where
  "set_flags oc w a b s = s\<lparr>flags := Some (oc, w, a, b)\<rparr>"

definition exec_int :: "isa \<Rightarrow> asm_int_op \<Rightarrow> asm_op \<Rightarrow> cpu \<Rightarrow> cpu" where
  "exec_int i oc op s =
     (let w = op_width op; a = arg0 op; b = arg1 op; o' = IntOp oc in
      case oc of
        ASM_OP_MOV \<Rightarrow> write_op i w b (read_op i w a s) s
      | ASM_OP_MOV_WITH_SIGN_EXTENSION \<Rightarrow>
          write_op i w b (sign_extend (word_type a) (read_op i (word_type a) a s)) s
      | ASM_OP_MOV_WITH_ZERO_EXTENSION \<Rightarrow> write_op i w b (read_op i (word_type a) a s) s
      | ASM_OP_LEA \<Rightarrow> write_op i w b (addr i a s) s
      | ASM_OP_CVT_DOUBLE_TO_INT \<Rightarrow>
          write_op i w b (alu i o' ASM_WORD_64BIT (read_op i ASM_WORD_64BIT a s) 0) s
      | ASM_OP_CVT_INT_TO_DOUBLE \<Rightarrow>
          write_op i ASM_WORD_64BIT b
            (alu i o' (word_type a) (read_op i (word_type a) a s) 0) s
      | ASM_OP_COMPARE \<Rightarrow> set_flags o' w (read_op i w a s) (read_op i w b s) s
      | ASM_OP_IDIV \<Rightarrow>
          (case divide i o' w (regs s ASM_REGISTER_AX) (regs s ASM_REGISTER_DX) (read_op i w a s) of
             (q, r) \<Rightarrow> s\<lparr>regs := (regs s)(ASM_REGISTER_AX := q, ASM_REGISTER_DX := r), flags := None\<rparr>)
      | ASM_OP_DIV \<Rightarrow>
          (case divide i o' w (regs s ASM_REGISTER_AX) (regs s ASM_REGISTER_DX) (read_op i w a s) of
             (q, r) \<Rightarrow> s\<lparr>regs := (regs s)(ASM_REGISTER_AX := q, ASM_REGISTER_DX := r), flags := None\<rparr>)
      | ASM_OP_CDQ \<Rightarrow>
          s\<lparr>regs := (regs s)(ASM_REGISTER_DX := alu i o' ASM_WORD_32BIT (regs s ASM_REGISTER_AX) 0)\<rparr>
      | ASM_OP_CQO \<Rightarrow>
          s\<lparr>regs := (regs s)(ASM_REGISTER_DX := alu i o' ASM_WORD_64BIT (regs s ASM_REGISTER_AX) 0)\<rparr>
      | ASM_OP_BINARY_MULTIPLY \<Rightarrow>
          (write_op i w b (read_op i w b s * read_op i w a s) s)\<lparr>flags := None\<rparr>
      | ASM_OP_UNARY_NEG \<Rightarrow>
          write_op i w a (alu i o' w (read_op i w a s) 0) (set_flags o' w (read_op i w a s) 0 s)
      | ASM_OP_UNARY_NOT \<Rightarrow> write_op i w a (alu i o' w (read_op i w a s) 0) s
      | ASM_OP_UNARY_DECREMENT \<Rightarrow>
          write_op i w a (alu i o' w (read_op i w a s) 0) (set_flags o' w (read_op i w a s) 0 s)
      | ASM_OP_UNARY_INCREMENT \<Rightarrow>
          write_op i w a (alu i o' w (read_op i w a s) 0) (set_flags o' w (read_op i w a s) 0 s)
      | _ \<Rightarrow>
          (case binary_alu oc (read_op i w a s) (read_op i w b s) of
             Some v \<Rightarrow> write_op i w b v (set_flags o' w (read_op i w a s) (read_op i w b s) s)
           | None \<Rightarrow>
               let count = read_op i ASM_WORD_08BIT a s; v = read_op i w b s in
               write_op i w b (alu i o' w count v) (set_flags o' w count v s)))"

text \<open>
  The vector instructions work on 128-bit registers, which the machine does not have;
  \<open>None\<close> stands for them and for the control instructions.
\<close>

definition vector_op :: "asm_double_op \<Rightarrow> bool" where
  "vector_op oc =
     (oc \<in> {ASM_OP_VEC_DOUBLE_BINARY_SUBTRACT, ASM_OP_VEC_DOUBLE_UNPACK_INTERLEAVE_HI,
        ASM_OP_VEC_DOUBLE_UNPACK_INTERLEAVE_LO})"

definition exec :: "isa \<Rightarrow> asm_op \<Rightarrow> cpu \<Rightarrow> cpu option" where
  "exec i op s =
     (let a = arg0 op; b = arg1 op; w = ASM_WORD_64BIT in
      case opcode op of
        IntOp oc \<Rightarrow> Some (exec_int i oc op s)
      | DoubleOp oc \<Rightarrow>
          (if vector_op oc then None
           else if oc = ASM_OP_DOUBLE_COMPARE
           then Some (set_flags (DoubleOp oc) w (read_op i w a s) (read_op i w b s) s)
           else Some (write_op i w b (alu i (DoubleOp oc) w (read_op i w a s) (read_op i w b s)) s))
      | SetOp oc \<Rightarrow> Some (write_op i ASM_WORD_08BIT a (cond_set i oc (flags s)) s)
      | ASM_OP_PUSH \<Rightarrow>
          (let sp = regs s ASM_REGISTER_RSP - 8 in
           Some (s\<lparr>regs := (regs s)(ASM_REGISTER_RSP := sp),
                   mem := store 8 sp (read_op i w a s) (mem s)\<rparr>))
      | _ \<Rightarrow> None)"

fun exec_list :: "isa \<Rightarrow> asm_op list \<Rightarrow> cpu \<Rightarrow> cpu option" where
  "exec_list i [] s = Some s"
| "exec_list i (op # os) s = (case exec i op s of None \<Rightarrow> None | Some t \<Rightarrow> exec_list i os t)"

lemma exec_list_append:
  "exec_list i (xs @ ys) s = (case exec_list i xs s of None \<Rightarrow> None | Some t \<Rightarrow> exec_list i ys t)"
  by (induction xs arbitrary: s) (auto split: option.splits)

section \<open>Control\<close>

text \<open>
  A configuration is what is left to run and the state of the machine. A jump goes on
  behind its label. Calls, returns and the vector instructions end what is modelled; a
  program that gets there has no step.
\<close>

fun label_of :: "asm_operand_kind \<Rightarrow> int option" where
  "label_of (ASM_OPERAND_JUMP_TARGET_LABEL n) = Some n"
| "label_of _ = None"

fun from_label :: "int \<Rightarrow> asm_op list \<Rightarrow> asm_op list option" where
  "from_label n [] = None"
| "from_label n (op # os) =
     (if opcode op = ASM_OP_LABEL \<and> label_of (operand_type (arg0 op)) = Some n then Some os
      else from_label n os)"

inductive mstep :: "isa \<Rightarrow> asm_op list \<Rightarrow> asm_op list \<times> cpu \<Rightarrow> asm_op list \<times> cpu \<Rightarrow> bool"
  for i prog where
  mstep_data: "exec i op s = Some t \<Longrightarrow> mstep i prog (op # os, s) (os, t)"
| mstep_label: "opcode op = ASM_OP_LABEL \<Longrightarrow> mstep i prog (op # os, s) (os, s)"
| mstep_jump: "opcode op = JumpOp j \<Longrightarrow> j = ASM_OP_JMP \<or> cond_jump i j (flags s) \<Longrightarrow>
    label_of (operand_type (arg0 op)) = Some n \<Longrightarrow> from_label n prog = Some os' \<Longrightarrow>
    mstep i prog (op # os, s) (os', s)"
| mstep_fall: "opcode op = JumpOp j \<Longrightarrow> j \<noteq> ASM_OP_JMP \<Longrightarrow> \<not> cond_jump i j (flags s) \<Longrightarrow>
    mstep i prog (op # os, s) (os, s)"

inductive msteps :: "isa \<Rightarrow> asm_op list \<Rightarrow> asm_op list \<times> cpu \<Rightarrow> asm_op list \<times> cpu \<Rightarrow> bool"
  for i prog where
  msteps_refl: "msteps i prog c c"
| msteps_step: "mstep i prog c d \<Longrightarrow> msteps i prog d e \<Longrightarrow> msteps i prog c e"

inductive_cases mstep_ConsE: "mstep i prog (op # os, s) d"
inductive_cases mstep_NilE: "mstep i prog ([], s) d"

lemma msteps_trans: "msteps i prog c d \<Longrightarrow> msteps i prog d e \<Longrightarrow> msteps i prog c e"
  by (induction rule: msteps.induct) (auto intro: msteps.intros)

lemma msteps_exec_list:
  "exec_list i xs s = Some t \<Longrightarrow> msteps i prog (xs @ os, s) (os, t)"
  by (induction xs arbitrary: s)
    (auto split: option.splits intro: msteps.intros mstep_data)

section \<open>What an operand depends on\<close>

text \<open>The registers an operand names.\<close>

fun kind_regs :: "asm_operand_kind \<Rightarrow> asm_register set" where
  "kind_regs (ASM_OPERAND_REGISTER r) = {r}"
| "kind_regs (ASM_OPERAND_MEMORY _ r) = {r}"
| "kind_regs (ASM_OPERAND_INDEXED b i _) = {b, i}"
| "kind_regs _ = {}"

definition avoids :: "asm_register set \<Rightarrow> asm_operand \<Rightarrow> bool" where
  "avoids R a \<longleftrightarrow> kind_regs (operand_type a) \<inter> R = {}"

text \<open>Two states that agree except in the registers \<open>R\<close>.\<close>

definition same_but :: "asm_register set \<Rightarrow> cpu \<Rightarrow> cpu \<Rightarrow> bool" where
  "same_but R s t \<longleftrightarrow> mem s = mem t \<and> flags s = flags t \<and> (\<forall>r. r \<notin> R \<longrightarrow> regs s r = regs t r)"

lemma same_but_refl [simp]: "same_but R s s"
  by (simp add: same_but_def)

lemma same_but_trans: "same_but R s t \<Longrightarrow> same_but R t u \<Longrightarrow> same_but R s u"
  by (simp add: same_but_def)

lemma same_but_sym: "same_but R s t \<Longrightarrow> same_but R t s"
  by (simp add: same_but_def)

lemma same_but_mono: "same_but R s t \<Longrightarrow> R \<subseteq> S \<Longrightarrow> same_but S s t"
  by (auto simp: same_but_def)

lemma trunc_trunc [simp]: "trunc w (trunc w v) = trunc w v"
  by (simp add: trunc_def)

lemma trunc_64 [simp]: "trunc ASM_WORD_64BIT v = v"
  by (simp add: trunc_def take_bit_word_eq_self)

lemma trunc_merge [simp]: "trunc w (merge w old v) = trunc w v"
proof (cases w)
  case ASM_WORD_08BIT
  have "take_bit 8 (old AND NOT 255) = (0 :: u64)"
    by (rule bit_eqI) (auto simp: bit_simps bit_numeral_iff)
  with ASM_WORD_08BIT show ?thesis by (simp add: merge_def trunc_def take_bit_or)
qed (simp_all add: merge_def)

lemma merge_64 [simp]: "merge ASM_WORD_64BIT old v = v"
  by (simp add: merge_def)

lemma merge_trunc [simp]: "merge w old (trunc w v) = merge w old v"
  by (cases w) (simp_all add: merge_def)

lemma addr_cong: "same_but R s t \<Longrightarrow> avoids R a \<Longrightarrow> addr i a s = addr i a t"
  by (cases "operand_type a") (auto simp: addr_def same_but_def avoids_def)

lemma read_cong: "same_but R s t \<Longrightarrow> avoids R a \<Longrightarrow> read_op i w a s = read_op i w a t"
  using addr_cong [of R s t a i]
  by (cases "operand_type a") (auto simp: read_op_def same_but_def avoids_def)

lemma write_cong:
  assumes "same_but R s t" "avoids R a"
  shows "same_but R (write_op i w a v s) (write_op i w a v t)"
  using assms addr_cong [OF assms, of i]
  by (cases "operand_type a") (auto simp: write_op_def same_but_def avoids_def)

lemma write_trunc: "write_op i w a (trunc w v) s = write_op i w a v s"
  by (cases "operand_type a") (simp_all add: write_op_def)

lemma trunc_read [simp]: "trunc w (read_op i w a s) = read_op i w a s"
  by (simp add: read_op_def)

lemma exec_int_cong:
  assumes "same_but R s t" "avoids R (arg0 op)" "avoids R (arg1 op)"
    and "ASM_REGISTER_AX \<notin> R" "ASM_REGISTER_DX \<notin> R"
  shows "same_but R (exec_int i oc op s) (exec_int i oc op t)"
proof -
  have r: "regs s ASM_REGISTER_AX = regs t ASM_REGISTER_AX" "regs s ASM_REGISTER_DX = regs t ASM_REGISTER_DX"
    using assms by (auto simp: same_but_def)
  have f: "same_but R (set_flags o' w a b s) (set_flags o' w a b t)" for o' w a b
    using assms(1) by (simp add: same_but_def set_flags_def)
  have n: "same_but R x y \<Longrightarrow> same_but R (x\<lparr>flags := None\<rparr>) (y\<lparr>flags := None\<rparr>)" for x y
    by (simp add: same_but_def)
  have d: "same_but R (s\<lparr>regs := (regs s)(q := v)\<rparr>) (t\<lparr>regs := (regs t)(q := v)\<rparr>)"
    "same_but R (s\<lparr>regs := (regs s)(q := v, q' := v'), flags := None\<rparr>)
       (t\<lparr>regs := (regs t)(q := v, q' := v'), flags := None\<rparr>)" for q v q' v'
    using assms(1) by (simp_all add: same_but_def)
  note rd = read_cong [OF assms(1) assms(2), of i] read_cong [OF assms(1) assms(3), of i]
    addr_cong [OF assms(1) assms(2), of i]
  note wr = write_cong [OF _ assms(2)] write_cong [OF _ assms(3)]
  show ?thesis
    by (cases oc) (auto simp: exec_int_def Let_def rd r split: prod.split intro: wr f n d assms(1))
qed

lemma exec_cong:
  assumes "same_but R s t" "avoids R (arg0 op)" "avoids R (arg1 op)"
    and R: "ASM_REGISTER_AX \<notin> R" "ASM_REGISTER_DX \<notin> R" "ASM_REGISTER_RSP \<notin> R"
    and s': "exec i op s = Some s'"
  shows "\<exists>t'. exec i op t = Some t' \<and> same_but R s' t'"
proof (cases "opcode op")
  case (IntOp oc)
  then show ?thesis using exec_int_cong [OF assms(1-5)] s' by (auto simp: exec_def Let_def)
next
  case (DoubleOp oc)
  then show ?thesis
    using s' assms(1) read_cong [OF assms(1,2)] read_cong [OF assms(1,3)] write_cong [OF assms(1,3)]
    by (auto simp: exec_def Let_def same_but_def set_flags_def split: if_splits)
next
  case (SetOp oc)
  then show ?thesis
    using s' assms(1) write_cong [OF assms(1,2)] by (auto simp: exec_def Let_def same_but_def)
next
  case ASM_OP_PUSH
  then show ?thesis
    using s' assms(1) R(3) read_cong [OF assms(1,2)] by (auto simp: exec_def Let_def same_but_def)
qed (use s' in \<open>auto simp: exec_def Let_def\<close>)

end
