(* ===== verification/Rewriting.thy ===== *)
theory Rewriting
  imports Machine
begin

text \<open>
  The interface of a pass that replaces each instruction by a sequence of its own. If every
  replacement has the effect of the instruction it stands for, up to a set of registers
  that the program does not use, then the rewritten program does, jumps and all, what the
  program did. The locale names what the pass promises about a single instruction; the
  simulation of whole programs is proved once from it.
\<close>

text \<open>The instructions that end a run on the machine.\<close>

definition stops :: "asm_op \<Rightarrow> bool" where
  "stops op = (case opcode op of
     ASM_OP_CALL \<Rightarrow> True | ASM_OP_RET \<Rightarrow> True | DoubleOp d \<Rightarrow> vector_op d | _ \<Rightarrow> False)"

definition transfers :: "asm_op \<Rightarrow> bool" where
  "transfers op = (case opcode op of ASM_OP_LABEL \<Rightarrow> True | JumpOp _ \<Rightarrow> True | _ \<Rightarrow> False)"

lemma exec_or_not: "exec i op s \<noteq> None \<longleftrightarrow> \<not> stops op \<and> \<not> transfers op"
  by (cases "opcode op") (auto simp: exec_def stops_def transfers_def Let_def)

locale op_rewriting =
  fixes rw :: "asm_op \<Rightarrow> asm_op list"
    and ok :: "asm_op \<Rightarrow> bool"
    and R :: "asm_register set"
  assumes sim: "ok op \<Longrightarrow> exec i op s = Some s' \<Longrightarrow>
      \<exists>t. exec_list i (rw op) s = Some t \<and> same_but R s' t"
    and keep: "ok op \<Longrightarrow> stops op \<or> transfers op \<Longrightarrow> rw op = [op]"
    and data: "ok op \<Longrightarrow> \<not> stops op \<Longrightarrow> \<not> transfers op \<Longrightarrow>
      list_all (\<lambda>op'. opcode op' \<noteq> ASM_OP_LABEL) (rw op)"
    and avoid: "ok op \<Longrightarrow> avoids R (arg0 op) \<and> avoids R (arg1 op)"
    and free: "ASM_REGISTER_AX \<notin> R" "ASM_REGISTER_DX \<notin> R" "ASM_REGISTER_RSP \<notin> R"
begin

definition all :: "asm_op list \<Rightarrow> asm_op list" where
  "all os = concat (map rw os)"

lemma all_simps [simp]: "all [] = []" "all (op # os) = rw op @ all os"
  by (simp_all add: all_def)

lemma from_label_skip:
  "list_all (\<lambda>op. opcode op \<noteq> ASM_OP_LABEL) xs \<Longrightarrow> from_label n (xs @ ys) = from_label n ys"
  by (induction xs) auto

lemma from_label_all:
  "list_all ok os \<Longrightarrow> from_label n (all os) = map_option all (from_label n os)"
proof (induction os)
  case (Cons op os)
  show ?case
  proof (cases "stops op \<or> transfers op")
    case True
    then show ?thesis using Cons keep [of op] by simp
  next
    case False
    then have "opcode op \<noteq> ASM_OP_LABEL" by (auto simp: transfers_def)
    then show ?thesis using Cons False data [of op] from_label_skip [of "rw op" n "all os"] by simp
  qed
qed simp

lemma from_label_ok: "from_label n os = Some os' \<Longrightarrow> list_all ok os \<Longrightarrow> list_all ok os'"
  by (induction os) (auto split: if_splits)

lemma step_ok: "mstep i prog (os, s) (os', s') \<Longrightarrow> list_all ok prog \<Longrightarrow> list_all ok os \<Longrightarrow> list_all ok os'"
  by (cases os) (auto elim!: mstep_NilE mstep_ConsE dest: from_label_ok)

lemma step_sim:
  assumes "mstep i prog (os, s) (os', s')" "list_all ok prog" "list_all ok os" "same_but R s t"
  shows "\<exists>t'. msteps i (all prog) (all os, t) (all os', t') \<and> same_but R s' t'"
proof -
  obtain op rest where os: "os = op # rest" using assms(1) by (cases os) (auto elim: mstep_NilE)
  then have ok: "ok op" using assms(3) by simp
  have fl: "flags s = flags t" using assms(4) by (simp add: same_but_def)
  have one: "mstep i (all prog) (op # all rest, t) c \<Longrightarrow> c = (all os', t) \<Longrightarrow> rw op = [op] \<Longrightarrow> s' = s \<Longrightarrow>
      \<exists>t'. msteps i (all prog) (all os, t) (all os', t') \<and> same_but R s' t'" for c
    using assms(4) os by (auto intro!: exI [of _ t] intro: msteps_step [OF _ msteps_refl])
  from assms(1) [unfolded os] show ?thesis
  proof (cases rule: mstep_ConsE [consumes 1, case_names mstep_data mstep_label mstep_jump mstep_fall])
    case (mstep_data s'')
    then have ex: "exec i op s = Some s'" and rest: "os' = rest" by auto
    obtain t1 where t1: "exec i op t = Some t1" "same_but R s' t1"
      using exec_cong [OF assms(4) _ _ free ex] avoid [OF ok] by auto
    obtain t2 where t2: "exec_list i (rw op) t = Some t2" "same_but R t1 t2"
      using sim [OF ok t1(1)] by auto
    show ?thesis
      using msteps_exec_list [OF t2(1), of "all prog" "all rest"] rest same_but_trans [OF t1(2) t2(2)]
      by (auto simp: os)
  next
    case mstep_label
    then have "rw op = [op]" using keep [OF ok] by (simp add: transfers_def)
    with mstep_label os show ?thesis using one mstep.mstep_label [of op i "all prog" "all rest" t] by auto
  next
    case (mstep_jump j n)
    then have "rw op = [op]" using keep [OF ok] by (simp add: transfers_def)
    moreover have "from_label n (all prog) = Some (all os')"
      using from_label_all [OF assms(2), of n] mstep_jump by auto
    ultimately show ?thesis
      using mstep_jump os fl one mstep.mstep_jump [of op j i t n "all prog" "all os'" "all rest"] by auto
  next
    case (mstep_fall j)
    then have "rw op = [op]" using keep [OF ok] by (simp add: transfers_def)
    with mstep_fall os fl show ?thesis
      using one mstep.mstep_fall [of op j i t "all prog" "all rest"] by auto
  qed
qed

lemma steps_sim:
  assumes "msteps i prog c d" "list_all ok prog" "list_all ok (fst c)" "same_but R (snd c) t"
  shows "\<exists>t'. msteps i (all prog) (all (fst c), t) (all (fst d), t') \<and> same_but R (snd d) t'"
  using assms
proof (induction arbitrary: t rule: msteps.induct)
  case (msteps_refl c)
  then show ?case using msteps.msteps_refl by blast
next
  case (msteps_step c d e)
  obtain os s os' s' where cd: "c = (os, s)" "d = (os', s')" by fastforce
  obtain t1 where t1: "msteps i (all prog) (all os, t) (all os', t1)" "same_but R s' t1"
    using step_sim [of i prog os s os' s' t] msteps_step cd by auto
  moreover have "list_all ok os'" using step_ok msteps_step cd by auto
  ultimately obtain t2 where "msteps i (all prog) (all os', t1) (all (fst e), t2)" "same_but R (snd e) t2"
    using msteps_step.IH [of t1] msteps_step.prems cd by auto
  then show ?case using t1(1) msteps_trans cd by fastforce
qed

text \<open>Where a run ends, the rewritten program has the same instruction before it.\<close>

lemma stops_same: "ok op \<Longrightarrow> stops op \<Longrightarrow> all (op # os) = op # all os"
  using keep by simp

end

end
