(* ===== verification/FixupFacts.thy ===== *)
theory FixupFacts
  imports Fixup Rewriting
begin

text \<open>
  What the rewriting of instructions promises: the passes work on each instruction on its
  own, the result has only instructions that the processor has, and it does what the
  original did, scratch registers apart.
\<close>

section \<open>Instruction by instruction\<close>

definition fix1 :: "fixer \<Rightarrow> asm_op \<Rightarrow> asm_op list result" where
  "fix1 fx op =
     check (fx op) (\<lambda>r.
       case r of None \<Rightarrow> Inr [op] | Some t \<Rightarrow> assert_that (length t \<ge> 2) (Inr t))"

fun fixseq :: "fixer \<Rightarrow> asm_op list \<Rightarrow> asm_op list result" where
  "fixseq fx [] = Inr []"
| "fixseq fx (op # os) =
     check (fix1 fx op) (\<lambda>xs. check (fixseq fx os) (\<lambda>ys. Inr (xs @ ys)))"

fun fixall :: "fixer list \<Rightarrow> asm_op list \<Rightarrow> asm_op list result" where
  "fixall [] os = Inr os"
| "fixall (fx # fxs) os = check (fixseq fx os) (fixall fxs)"

lemma fixup_loop_seq:
  "codegen_fixup_loop fx prev os = check (fixseq fx os) (\<lambda>xs. Inr (prev @ xs))"
proof (induction os arbitrary: prev)
  case (Cons op os)
  show ?case
  proof (cases "fx op")
    case (Inr r)
    then show ?thesis
      using Cons by (cases r) (auto simp: codegen_fixup_apply_def fix1_def check_assoc assert_that_def
          Suc_le_eq)
  qed (simp add: codegen_fixup_apply_def fix1_def)
qed simp

lemma fixup_all_seq:
  "codegen_fixup_all fxs f = check (fixall fxs (ops f)) (\<lambda>os. Inr (f\<lparr>ops := os\<rparr>))"
proof (induction fxs arbitrary: f)
  case (Cons fx fxs)
  show ?case
    by (simp add: codegen_fixup_function_def fixup_loop_seq Cons check_assoc)
qed simp

lemma fixseq_append:
  "fixseq fx xs = Inr xs' \<Longrightarrow> fixseq fx ys = Inr ys' \<Longrightarrow> fixseq fx (xs @ ys) = Inr (xs' @ ys')"
  by (induction xs arbitrary: xs') (auto simp: check_iff)

lemma fixall_append:
  "fixall fxs xs = Inr xs' \<Longrightarrow> fixall fxs ys = Inr ys' \<Longrightarrow> fixall fxs (xs @ ys) = Inr (xs' @ ys')"
proof (induction fxs arbitrary: xs ys)
  case (Cons fx fxs)
  then obtain a b where "fixseq fx xs = Inr a" "fixall fxs a = Inr xs'"
    "fixseq fx ys = Inr b" "fixall fxs b = Inr ys'" by (auto simp: check_iff)
  then show ?case using Cons.IH fixseq_append [of fx xs a ys b] by simp
qed simp

lemma fixall_Cons:
  "fixall fxs [op] = Inr xs \<Longrightarrow> fixall fxs os = Inr ys \<Longrightarrow> fixall fxs (op # os) = Inr (xs @ ys)"
  using fixall_append [of fxs "[op]" xs os ys] by simp

text \<open>The twelve fixers on one instruction.\<close>

definition rewrite :: "asm_op \<Rightarrow> asm_op list result" where
  "rewrite op = fixall fixers [op]"

lemmas fixer_defs =
  fix_s2s_def fix_imm_big_def fix_cmp_def fix_div_def fix_mul_def fix_shift_def
  fix_movsx_and_movzx_def fix_movzx_32bit_def fix_cvt_double_to_int_def
  fix_cvt_int_to_double_def fix_arithmetic_on_double_def fix_lea_def

lemmas setter_defs =
  codegen_set_operand_r10_def codegen_set_operand_r11_def codegen_set_operand_ecx_def
  OPERAND_R10_64BIT_def OPERAND_XMM15_def

lemma reg_operand_simps [simp]:
  "word_type (reg_operand w r) = w"
  "operand_type (reg_operand w r) = ASM_OPERAND_REGISTER r"
  "\<not> in_memory (reg_operand w r)"
  "\<not> is_immediate (reg_operand w r)"
  "\<not> immediate_above_int (reg_operand w r)"
  "is_xmm_register (reg_operand w r) = xmm r"
  "is_register (reg_operand w r)"
  by (simp_all add: reg_operand_def in_memory_def is_immediate_def immediate_above_int_def
      is_xmm_register_def is_register_def)

lemma xmm_scratch [simp]: "\<not> xmm ASM_REGISTER_R10" "\<not> xmm ASM_REGISTER_R11" "\<not> xmm ASM_REGISTER_CX"
  "xmm ASM_REGISTER_XMM15"
  by (simp_all add: xmm.simps)

lemma zero_operand_simps [simp]:
  "\<not> in_memory zero_operand" "\<not> is_immediate zero_operand" "\<not> immediate_above_int zero_operand"
  "\<not> is_xmm_register zero_operand" "operand_type zero_operand = ASM_OPERAND_NONE"
  by (simp_all add: zero_operand_def in_memory_def is_immediate_def immediate_above_int_def
      is_xmm_register_def)

lemma operand_classes:
  "in_memory a \<Longrightarrow> \<not> is_immediate a \<and> \<not> is_xmm_register a \<and> \<not> is_register a \<and>
     operand_type a \<noteq> ASM_OPERAND_NONE"
  "immediate_above_int a \<Longrightarrow> is_immediate a"
  by (cases "operand_type a";
      simp add: in_memory_def is_immediate_def immediate_above_int_def is_xmm_register_def
        is_register_def)+

lemma mov_op_simps [simp]:
  "opcode (mov_op a b) = IntOp ASM_OP_MOV" "arg0 (mov_op a b) = a" "arg1 (mov_op a b) = b"
  by (simp_all add: mov_op_def)

lemma alloc_op_simps [simp]:
  "opcode codegen_alloc_op = IntOp ASM_OP_MOV" "arg0 codegen_alloc_op = zero_operand"
  "arg1 codegen_alloc_op = zero_operand"
  by (simp_all add: codegen_alloc_op_def)

text \<open>An instruction from its parts.\<close>

definition op2 :: "asm_opcode \<Rightarrow> asm_operand \<Rightarrow> asm_operand \<Rightarrow> asm_op" where
  "op2 oc a b = \<lparr>opcode = oc, arg0 = a, arg1 = b\<rparr>"

lemma op2_simps [simp]:
  "opcode (op2 oc a b) = oc" "arg0 (op2 oc a b) = a" "arg1 (op2 oc a b) = b"
  "(op2 oc a b)\<lparr>arg0 := c\<rparr> = op2 oc c b" "(op2 oc a b)\<lparr>arg1 := c\<rparr> = op2 oc a c"
  "(op2 oc a b)\<lparr>opcode := oc'\<rparr> = op2 oc' a b"
  by (simp_all add: op2_def)

lemma mov_op_op2: "mov_op a b = op2 (IntOp ASM_OP_MOV) a b"
  by (simp add: mov_op_def op2_def codegen_alloc_op_def)

lemma alloc_op2:
  "codegen_alloc_op\<lparr>opcode := oc, arg0 := a, arg1 := b\<rparr> = op2 oc a b"
  "codegen_alloc_op\<lparr>opcode := oc, arg0 := a\<rparr> = op2 oc a zero_operand"
  by (simp_all add: op2_def codegen_alloc_op_def)

lemma op_op2: "op = op2 (opcode op) (arg0 op) (arg1 op)"
  by (simp add: op2_def)

abbreviation MOV :: asm_opcode where "MOV \<equiv> IntOp ASM_OP_MOV"
abbreviation r10 :: "asm_word \<Rightarrow> asm_operand" where "r10 w \<equiv> reg_operand w ASM_REGISTER_R10"
abbreviation r11 :: "asm_word \<Rightarrow> asm_operand" where "r11 w \<equiv> reg_operand w ASM_REGISTER_R11"
abbreviation ecx :: "asm_word \<Rightarrow> asm_operand" where "ecx w \<equiv> reg_operand w ASM_REGISTER_CX"
abbreviation xmm15 :: asm_operand where "xmm15 \<equiv> reg_operand ASM_WORD_64BIT ASM_REGISTER_XMM15"

lemmas fix_simps =
  fixers_def fix1_def fixer_defs setter_defs mov_op_op2 alloc_op2 shift_opcode_def Let_def

text \<open>What becomes of each kind of instruction.\<close>

lemma rewrite_mov:
  "rewrite (op2 MOV a b) = Inr
     (if in_memory a \<and> in_memory b then [op2 MOV a (r10 (word_type a)), op2 MOV (r10 (word_type b)) b]
      else if immediate_above_int a \<and> in_memory b \<or> is_immediate a \<and> is_xmm_register b
      then [op2 MOV a (r10 ASM_WORD_64BIT), op2 MOV (r10 ASM_WORD_64BIT) b]
      else [op2 MOV a b])"
  using operand_classes [of a] operand_classes [of b]
  by (auto simp: rewrite_def fix_simps)

definition arith :: "asm_opcode \<Rightarrow> bool" where
  "arith oc = (oc \<in> {IntOp ASM_OP_BINARY_ADD, IntOp ASM_OP_BINARY_SUBTRACT,
     IntOp ASM_OP_BITWISE_AND, IntOp ASM_OP_BITWISE_OR, IntOp ASM_OP_BITWISE_XOR})"

lemma rewrite_arith:
  "arith oc \<Longrightarrow> rewrite (op2 oc a b) = Inr
     (if in_memory a \<and> in_memory b then [op2 MOV a (r10 (word_type a)), op2 oc (r10 (word_type b)) b]
      else if immediate_above_int a
      then [op2 MOV a (r10 ASM_WORD_64BIT), op2 oc (r10 ASM_WORD_64BIT) b]
      else [op2 oc a b])"
  using operand_classes [of a] operand_classes [of b]
  unfolding arith_def insert_iff empty_iff
  by (elim disjE FalseE; hypsubst_thin; simp add: rewrite_def fix_simps; blast)

lemma rewrite_cmp:
  "rewrite (op2 (IntOp ASM_OP_COMPARE) a b) = Inr
     (if in_memory a \<and> in_memory b
      then [op2 MOV a (r10 (word_type a)), op2 (IntOp ASM_OP_COMPARE) (r10 (word_type b)) b]
      else if immediate_above_int a \<and> \<not> is_immediate b
      then [op2 MOV a (r10 ASM_WORD_64BIT), op2 (IntOp ASM_OP_COMPARE) (r10 ASM_WORD_64BIT) b]
      else if immediate_above_int a
      then [op2 MOV a (r10 ASM_WORD_64BIT), op2 MOV b (r11 (word_type b)),
            op2 (IntOp ASM_OP_COMPARE) (r10 ASM_WORD_64BIT) (r11 ASM_WORD_64BIT)]
      else if is_immediate b
      then [op2 MOV b (r11 (word_type b)), op2 (IntOp ASM_OP_COMPARE) a (r11 (word_type a))]
      else [op2 (IntOp ASM_OP_COMPARE) a b])"
  using operand_classes [of a] operand_classes [of b]
  by (auto simp: rewrite_def fix_simps)

lemma rewrite_mul:
  "rewrite (op2 (IntOp ASM_OP_BINARY_MULTIPLY) a b) = Inr
     ((if immediate_above_int a then [op2 MOV a (r10 ASM_WORD_64BIT)] else []) @
      (let a' = if immediate_above_int a then r10 ASM_WORD_64BIT else a in
       if in_memory b
       then [op2 MOV b (r11 (word_type b)),
             op2 (IntOp ASM_OP_BINARY_MULTIPLY) a' (r11 (word_type a')),
             op2 MOV (r11 (word_type b)) b]
       else [op2 (IntOp ASM_OP_BINARY_MULTIPLY) a' b]))"
  using operand_classes [of a] operand_classes [of b]
  by (auto simp: rewrite_def fix_simps)

lemma rewrite_div:
  "oc \<in> {IntOp ASM_OP_IDIV, IntOp ASM_OP_DIV} \<Longrightarrow> rewrite (op2 oc a b) = Inr
     (if is_immediate a then [op2 MOV a (r10 (word_type a)), op2 oc (r10 (word_type a)) zero_operand]
      else [op2 oc a b])"
  unfolding insert_iff empty_iff
  by (elim disjE FalseE; hypsubst_thin; simp add: rewrite_def fix_simps)

lemma rewrite_shift:
  "shift_opcode oc \<Longrightarrow> rewrite (op2 oc a b) = Inr
     (if is_immediate a then [op2 oc a b]
      else [op2 MOV a (ecx (word_type a)), op2 oc (ecx (word_type b)) b])"
  using operand_classes [of a]
  unfolding shift_opcode_def insert_iff empty_iff
  by (elim disjE FalseE; hypsubst_thin; simp add: rewrite_def fix_simps)

lemma rewrite_movsx:
  assumes "word_type a < word_type b"
  shows "rewrite (op2 (IntOp ASM_OP_MOV_WITH_SIGN_EXTENSION) a b) = Inr
     (if is_immediate a \<or> in_memory b
      then [op2 MOV a (r10 (word_type a)),
            op2 (IntOp ASM_OP_MOV_WITH_SIGN_EXTENSION) (r10 (word_type a)) (r11 (word_type b)),
            op2 MOV (r11 (word_type b)) b]
      else [op2 (IntOp ASM_OP_MOV_WITH_SIGN_EXTENSION) a b])"
  using assms by (cases "word_type a") (auto simp: rewrite_def fix_simps)

lemma rewrite_movzx:
  assumes "word_type a < word_type b" "word_type a = ASM_WORD_32BIT \<Longrightarrow> \<not> is_register b"
  shows "rewrite (op2 (IntOp ASM_OP_MOV_WITH_ZERO_EXTENSION) a b) = Inr
     (if word_type a = ASM_WORD_32BIT
      then [op2 MOV a (r11 (word_type a)), op2 MOV (r11 (word_type b)) b]
      else if is_immediate a \<or> in_memory b
      then [op2 MOV a (r10 (word_type a)),
            op2 (IntOp ASM_OP_MOV_WITH_ZERO_EXTENSION) (r10 (word_type a)) (r11 (word_type b)),
            op2 MOV (r11 (word_type b)) b]
      else [op2 (IntOp ASM_OP_MOV_WITH_ZERO_EXTENSION) a b])"
  using assms by (cases "word_type a") (auto simp: rewrite_def fix_simps)

text \<open>A 32-bit zero extension into a register fails an assertion.\<close>

lemma rewrite_movzx_register:
  assumes "word_type a = ASM_WORD_32BIT" "is_register b"
  shows "rewrite (op2 (IntOp ASM_OP_MOV_WITH_ZERO_EXTENSION) a b) = Inl Abort"
  using assms by (auto simp: rewrite_def fix_simps)

lemma rewrite_cvt_double_to_int:
  "rewrite (op2 (IntOp ASM_OP_CVT_DOUBLE_TO_INT) a b) = Inr
     (if in_memory b
      then [op2 (IntOp ASM_OP_CVT_DOUBLE_TO_INT) a (r11 (word_type a)), op2 MOV (r11 (word_type b)) b]
      else [op2 (IntOp ASM_OP_CVT_DOUBLE_TO_INT) a b])"
  by (auto simp: rewrite_def fix_simps)

lemma rewrite_cvt_int_to_double:
  "rewrite (op2 (IntOp ASM_OP_CVT_INT_TO_DOUBLE) a b) = Inr
     (if is_immediate a \<or> in_memory b
      then [op2 MOV a (r10 (word_type a)),
            op2 (IntOp ASM_OP_CVT_INT_TO_DOUBLE) (r10 (word_type a)) xmm15, op2 MOV xmm15 b]
      else [op2 (IntOp ASM_OP_CVT_INT_TO_DOUBLE) a b])"
  by (auto simp: rewrite_def fix_simps)

lemma rewrite_double:
  "\<not> vector_op oc \<Longrightarrow> rewrite (op2 (DoubleOp oc) a b) = Inr
     (if in_memory b
      then [op2 MOV b xmm15, op2 (DoubleOp oc) a xmm15] @
        (if oc = ASM_OP_DOUBLE_COMPARE then [] else [op2 MOV xmm15 b])
      else [op2 (DoubleOp oc) a b])"
  by (cases oc) (auto simp: rewrite_def fix_simps vector_op_def)

lemma rewrite_lea:
  "rewrite (op2 (IntOp ASM_OP_LEA) a b) = Inr
     (if in_memory b
      then [op2 (IntOp ASM_OP_LEA) a (r10 (word_type b)), op2 MOV (r10 (word_type b)) b]
      else [op2 (IntOp ASM_OP_LEA) a b])"
  by (auto simp: rewrite_def fix_simps)

lemma rewrite_push:
  "rewrite (op2 ASM_OP_PUSH a b) = Inr
     (if immediate_above_int a
      then [op2 MOV a (r10 ASM_WORD_64BIT), op2 ASM_OP_PUSH (r10 ASM_WORD_64BIT) b]
      else [op2 ASM_OP_PUSH a b])"
  using operand_classes [of a] by (auto simp: rewrite_def fix_simps)

text \<open>Everything else stays as it is.\<close>

definition plain :: "asm_opcode \<Rightarrow> bool" where
  "plain oc =
     (case oc of
        IntOp i \<Rightarrow> i \<in> {ASM_OP_UNARY_NEG, ASM_OP_UNARY_NOT, ASM_OP_UNARY_DECREMENT,
          ASM_OP_UNARY_INCREMENT, ASM_OP_CDQ, ASM_OP_CQO}
      | DoubleOp d \<Rightarrow> vector_op d
      | ASM_OP_PUSH \<Rightarrow> False
      | _ \<Rightarrow> True)"

lemma rewrite_plain: "plain oc \<Longrightarrow> rewrite (op2 oc a b) = Inr [op2 oc a b]"
proof (cases oc)
  case (IntOp i)
  assume "plain oc"
  with IntOp show ?thesis by (cases i) (simp_all add: rewrite_def fix_simps plain_def)
next
  case (DoubleOp d)
  assume "plain oc"
  with DoubleOp show ?thesis
    by (cases d) (simp_all add: rewrite_def fix_simps plain_def vector_op_def)
qed (simp_all add: rewrite_def fix_simps plain_def)

lemmas rewrite_simps =
  rewrite_mov rewrite_arith rewrite_cmp rewrite_mul rewrite_div rewrite_shift rewrite_movsx
  rewrite_movzx rewrite_cvt_double_to_int rewrite_cvt_int_to_double rewrite_double rewrite_lea
  rewrite_push rewrite_plain

lemma opcode_cases:
  obtains (mov) "oc = MOV" | (arith) "arith oc" | (cmp) "oc = IntOp ASM_OP_COMPARE"
  | (mul) "oc = IntOp ASM_OP_BINARY_MULTIPLY" | (div) "oc \<in> {IntOp ASM_OP_IDIV, IntOp ASM_OP_DIV}"
  | (shift) "shift_opcode oc" | (movsx) "oc = IntOp ASM_OP_MOV_WITH_SIGN_EXTENSION"
  | (movzx) "oc = IntOp ASM_OP_MOV_WITH_ZERO_EXTENSION"
  | (d2i) "oc = IntOp ASM_OP_CVT_DOUBLE_TO_INT" | (i2d) "oc = IntOp ASM_OP_CVT_INT_TO_DOUBLE"
  | (double) d where "oc = DoubleOp d" "\<not> vector_op d" | (lea) "oc = IntOp ASM_OP_LEA"
  | (push) "oc = ASM_OP_PUSH" | (plain) "plain oc"
proof (cases oc)
  case (IntOp i)
  then show thesis
    using that by (cases i) (simp_all add: arith_def shift_opcode_def plain_def)
next
  case (DoubleOp d)
  then show thesis using that by (cases "vector_op d") (simp_all add: plain_def)
qed (use that in \<open>simp_all add: plain_def\<close>)

section \<open>The rewriting succeeds\<close>

text \<open>What the extensions rely on.\<close>

definition extension_ok :: "asm_op \<Rightarrow> bool" where
  "extension_ok op =
     ((opcode op \<in> {IntOp ASM_OP_MOV_WITH_SIGN_EXTENSION, IntOp ASM_OP_MOV_WITH_ZERO_EXTENSION} \<longrightarrow>
         word_type (arg0 op) < word_type (arg1 op)) \<and>
      (opcode op = IntOp ASM_OP_MOV_WITH_ZERO_EXTENSION \<longrightarrow>
         word_type (arg0 op) = ASM_WORD_32BIT \<longrightarrow> \<not> is_register (arg1 op)))"

lemma rewrite_ok: "extension_ok (op2 oc a b) \<Longrightarrow> \<exists>os. rewrite (op2 oc a b) = Inr os"
proof (cases oc rule: opcode_cases)
  case double
  then show ?thesis by (simp add: rewrite_double)
qed (auto simp: rewrite_simps extension_ok_def)

section \<open>The same effect\<close>

definition scratch :: "asm_register set" where
  "scratch = {ASM_REGISTER_R10, ASM_REGISTER_R11, ASM_REGISTER_XMM15}"

text \<open>
  What the code generator feeds to the rewriting, for a set \<open>R\<close> of registers that the
  rewriting may overwrite: no instruction names one of them, the two operands of an
  instruction that is taken apart have one width (a move between two places in memory may
  also narrow), and a second operand is there where the instruction has two. \<open>R\<close> has CX where a shift takes its count from elsewhere.
\<close>

definition widths_ok :: "asm_op \<Rightarrow> bool" where
  "widths_ok op =
     (let oc = opcode op; a = arg0 op; b = arg1 op in
      ((oc = MOV \<or> arith oc) \<longrightarrow> in_memory a \<and> in_memory b \<longrightarrow> word_type b \<le> word_type a) \<and>
      (oc = IntOp ASM_OP_COMPARE \<longrightarrow> in_memory a \<and> in_memory b \<longrightarrow> word_type a = word_type b) \<and>
      (oc = IntOp ASM_OP_COMPARE \<longrightarrow> is_immediate b \<longrightarrow>
         word_type a = word_type b \<and> \<not> immediate_above_int a) \<and>
      (oc = IntOp ASM_OP_BINARY_MULTIPLY \<longrightarrow> in_memory b \<longrightarrow> word_type a = word_type b) \<and>
      (oc = IntOp ASM_OP_CVT_DOUBLE_TO_INT \<longrightarrow> in_memory b \<longrightarrow> word_type a = ASM_WORD_64BIT) \<and>
      (oc = IntOp ASM_OP_CVT_INT_TO_DOUBLE \<longrightarrow> word_type b = ASM_WORD_64BIT) \<and>
      ((\<exists>d. oc = DoubleOp d) \<longrightarrow> word_type b = ASM_WORD_64BIT))"

definition operands_ok :: "asm_op \<Rightarrow> bool" where
  "operands_ok op =
     (if opcode op \<in> {IntOp ASM_OP_IDIV, IntOp ASM_OP_DIV, ASM_OP_PUSH}
      then operand_type (arg1 op) = ASM_OPERAND_NONE
      else \<not> plain (opcode op) \<longrightarrow> operand_type (arg1 op) \<noteq> ASM_OPERAND_NONE)"

definition fix_input :: "asm_register set \<Rightarrow> asm_op \<Rightarrow> bool" where
  "fix_input R op =
     (avoids R (arg0 op) \<and> avoids R (arg1 op) \<and> extension_ok op \<and> widths_ok op \<and>
      operands_ok op \<and>
      (shift_opcode (opcode op) \<longrightarrow> \<not> is_immediate (arg0 op) \<longrightarrow> ASM_REGISTER_CX \<in> R))"

definition clobbers :: "asm_register set \<Rightarrow> bool" where
  "clobbers R \<longleftrightarrow> scratch \<subseteq> R \<and> ASM_REGISTER_AX \<notin> R \<and> ASM_REGISTER_DX \<notin> R \<and> ASM_REGISTER_RSP \<notin> R"

lemma read_reg: "read_op i w (reg_operand v r) s = trunc w (regs s r)"
  by (simp add: read_op_def reg_operand_def)

lemma write_reg:
  "write_op i w (reg_operand v r) x s = s\<lparr>regs := (regs s)(r := merge w (regs s r) x)\<rparr>"
  by (simp add: write_op_def reg_operand_def)

lemma width_op2:
  "op_width (op2 oc a b) =
     (if operand_type b \<noteq> ASM_OPERAND_NONE then word_type b else word_type a)"
  by (simp add: op_width_def)

lemma exec_mov_reg:
  "exec i (op2 MOV a (reg_operand w r)) s =
     Some (s\<lparr>regs := (regs s)(r := merge w (regs s r) (read_op i w a s))\<rparr>)"
  by (simp add: exec_def exec_int_def width_op2 write_reg Let_def)

lemma exec_mov:
  "operand_type b \<noteq> ASM_OPERAND_NONE \<Longrightarrow>
     exec i (op2 MOV a b) s = Some (write_op i (word_type b) b (read_op i (word_type b) a s) s)"
  by (simp add: exec_def exec_int_def width_op2 Let_def)

lemma same_but_reg: "r \<in> R \<Longrightarrow> same_but R s (s\<lparr>regs := (regs s)(r := v)\<rparr>)"
  by (simp add: same_but_def)

text \<open>A source that goes through a scratch register first.\<close>

lemma bounce_read:
  assumes "r \<in> R" "avoids R b"
    and "trunc w (read_op i v a s) = read_op i w a s"
    and s1: "s1 = s\<lparr>regs := (regs s)(r := merge v (regs s r) (read_op i v a s))\<rparr>" and "word_bits w \<le> word_bits v"
  shows "read_op i w (reg_operand u r) s1 = read_op i w a s" and "same_but R s s1"
    and "read_op i x b s1 = read_op i x b s"
proof -
  show sb: "same_but R s s1" unfolding s1 by (rule same_but_reg [OF assms(1)])
  have "trunc w (trunc v y) = trunc w y" for y
    using assms(5) by (simp add: trunc_def min_def)
  then have "trunc w (merge v y z) = trunc w z" for y z by (metis trunc_merge)
  with assms(3) show "read_op i w (reg_operand u r) s1 = read_op i w a s"
    by (simp add: read_reg s1)
  show "read_op i x b s1 = read_op i x b s" using read_cong [OF sb assms(2)] by simp
qed

text \<open>The effect of an instruction with two inputs, given the value of its source.\<close>

definition binop_effect ::
  "isa \<Rightarrow> asm_opcode \<Rightarrow> asm_word \<Rightarrow> asm_operand \<Rightarrow> u64 \<Rightarrow> cpu \<Rightarrow> cpu" where
  "binop_effect i oc w b x s =
     (case oc of
        IntOp ic \<Rightarrow>
          (if ic = ASM_OP_MOV then write_op i w b x s
           else if ic = ASM_OP_COMPARE then set_flags oc w x (read_op i w b s) s
           else if ic = ASM_OP_BINARY_MULTIPLY
           then (write_op i w b (read_op i w b s * x) s)\<lparr>flags := None\<rparr>
           else
             (case binary_alu ic x (read_op i w b s) of
                Some v \<Rightarrow> write_op i w b v (set_flags oc w x (read_op i w b s) s)
              | None \<Rightarrow> s))
      | _ \<Rightarrow> s)"

definition binop :: "asm_opcode \<Rightarrow> bool" where
  "binop oc = (oc = MOV \<or> arith oc \<or> oc = IntOp ASM_OP_COMPARE \<or> oc = IntOp ASM_OP_BINARY_MULTIPLY)"

lemma exec_binop:
  assumes "binop oc" "operand_type b \<noteq> ASM_OPERAND_NONE"
  shows "exec i (op2 oc a b) s =
    Some (binop_effect i oc (word_type b) b (read_op i (word_type b) a s) s)"
  using assms unfolding binop_def arith_def insert_iff empty_iff
  by (elim disjE FalseE; hypsubst_thin;
      simp add: exec_def exec_int_def width_op2 binop_effect_def Let_def)

lemma set_flags_cong: "same_but R s t \<Longrightarrow> same_but R (set_flags oc w x y s) (set_flags oc w x y t)"
  by (simp add: same_but_def set_flags_def)

lemma flags_None_cong: "same_but R s t \<Longrightarrow> same_but R (s\<lparr>flags := None\<rparr>) (t\<lparr>flags := None\<rparr>)"
  by (simp add: same_but_def)

lemma binop_effect_cong:
  assumes "same_but R s t" "avoids R b"
  shows "same_but R (binop_effect i oc w b x s) (binop_effect i oc w b x t)"
  using assms write_cong [OF assms] set_flags_cong [OF assms(1)]
    write_cong [OF set_flags_cong [OF assms(1)] assms(2)]
  by (cases oc)
    (auto simp: binop_effect_def read_cong [OF assms] intro: flags_None_cong split: option.split)

lemma trunc_le: "word_bits w \<le> word_bits v \<Longrightarrow> trunc w (trunc v y) = trunc w y"
  by (simp add: trunc_def min_def)

text \<open>Memory is little-endian: a narrow read is the low part of a wide one.\<close>

lemma load_prefix: "k \<le> n \<Longrightarrow> take_bit (8 * k) (load n a m) = load k a m"
proof (induction k arbitrary: n a)
  case (Suc k)
  then obtain n' where n: "n = Suc n'" "k \<le> n'" by (cases n) auto
  have "take_bit (8 * Suc k) (ucast (m a) :: u64) = ucast (m a)"
    by (rule bit_eqI) (auto simp: bit_simps dest: bit_imp_le_length)
  with Suc.IH [OF n(2), of "a + 1"] show ?case
    by (simp add: n(1) take_bit_or take_bit_push_bit)
qed simp

lemma word_bits_mono: "w \<le> v \<Longrightarrow> word_bits w \<le> word_bits v"
  by (cases w; cases v) (simp_all add: less_eq_asm_word_def)

lemma read_narrow:
  assumes "w \<le> v"
  shows "trunc w (read_op i v a s) = read_op i w a s"
proof -
  have bytes: "word_bits u = 8 * (word_bits u div 8)" for u by (cases u) simp_all
  have "word_bits w div 8 \<le> word_bits v div 8" using word_bits_mono [OF assms] by (rule div_le_mono)
  then have "trunc w (load (word_bits v div 8) c m) = trunc w (load (word_bits w div 8) c m)" for c m
    using load_prefix [of "word_bits w div 8" "word_bits v div 8" c m]
      load_prefix [of "word_bits w div 8" "word_bits w div 8" c m] bytes [of w]
    by (simp add: trunc_def)
  then show ?thesis
    using trunc_le [OF word_bits_mono [OF assms]]
    by (cases "operand_type a") (simp_all add: read_op_def)
qed

lemma trunc_mult: "trunc w (trunc w x * trunc w y) = trunc w (x * y)"
proof -
  have n: "min (word_bits w) 64 = word_bits w" by (cases w) simp_all
  have m: "uint (a * b) = take_bit 64 (uint a * uint b)" for a b :: u64
    by (simp add: uint_word_ariths take_bit_eq_mod)
  have "uint (take_bit (word_bits w) (take_bit (word_bits w) x * take_bit (word_bits w) y)) =
      uint (take_bit (word_bits w) (x * y))"
    by (simp add: unsigned_take_bit_eq m n take_bit_mult)
  then show ?thesis by (simp only: trunc_def word_uint_eq_iff)
qed

text \<open>A rewriting that puts the source into a scratch register.\<close>

lemma sound_bounce:
  assumes "binop oc" "operand_type b \<noteq> ASM_OPERAND_NONE" "r \<in> R" "avoids R b"
    and "trunc (word_type b) (read_op i v a s) = read_op i (word_type b) a s"
    and "word_bits (word_type b) \<le> word_bits v"
  shows "\<exists>t. exec_list i [op2 MOV a (reg_operand v r), op2 oc (reg_operand u r) b] s = Some t \<and>
    same_but R (binop_effect i oc (word_type b) b (read_op i (word_type b) a s) s) t"
proof -
  define s1 where "s1 = s\<lparr>regs := (regs s)(r := merge v (regs s r) (read_op i v a s))\<rparr>"
  note b = bounce_read(1) [OF assms(3,4,5) s1_def assms(6), of u]
    bounce_read(2) [OF assms(3,4,5) s1_def assms(6)]
  have "exec_list i [op2 MOV a (reg_operand v r), op2 oc (reg_operand u r) b] s =
      Some (binop_effect i oc (word_type b) b (read_op i (word_type b) a s) s1)"
    using exec_binop [OF assms(1,2), of i _ s1] b(1) by (simp add: exec_mov_reg s1_def)
  moreover have "same_but R (binop_effect i oc (word_type b) b (read_op i (word_type b) a s) s)
      (binop_effect i oc (word_type b) b (read_op i (word_type b) a s) s1)"
    using b(2) assms(4) by (rule binop_effect_cong)
  ultimately show ?thesis by blast
qed

lemma immediate_any_width:
  "is_immediate a \<Longrightarrow> word_bits w \<le> word_bits v \<Longrightarrow> trunc w (read_op i v a s) = read_op i w a s"
  by (cases "operand_type a") (simp_all add: is_immediate_def read_op_def trunc_le)

lemma word_bits_64 [simp]: "word_bits w \<le> 64"
  by (cases w) simp_all

lemma R_scratch:
  "clobbers R \<Longrightarrow> ASM_REGISTER_R10 \<in> R \<and> ASM_REGISTER_R11 \<in> R \<and> ASM_REGISTER_XMM15 \<in> R"
  by (auto simp: clobbers_def scratch_def)

definition rewrite_sound :: "isa \<Rightarrow> asm_register set \<Rightarrow> asm_op \<Rightarrow> cpu \<Rightarrow> bool" where
  "rewrite_sound i R op s \<longleftrightarrow>
     (\<exists>os s' t. rewrite op = Inr os \<and> exec i op s = Some s' \<and> exec_list i os s = Some t \<and>
        same_but R s' t)"

lemma sound_same: "rewrite op = Inr [op] \<Longrightarrow> exec i op s = Some s' \<Longrightarrow> rewrite_sound i R op s"
  by (simp add: rewrite_sound_def)

lemma sound_binop:
  assumes "clobbers R" "fix_input R (op2 oc a b)" "oc = MOV \<or> arith oc"
  shows "rewrite_sound i R (op2 oc a b) s"
proof -
  have oc: "binop oc" using assms(3) by (auto simp: binop_def)
  have np: "\<not> plain oc" "oc \<notin> {IntOp ASM_OP_IDIV, IntOp ASM_OP_DIV, ASM_OP_PUSH}"
    using assms(3) by (auto simp: arith_def plain_def)
  have b: "operand_type b \<noteq> ASM_OPERAND_NONE" "avoids R b"
    using assms(2) np by (auto simp: fix_input_def operands_ok_def)
  have ww: "word_type b \<le> word_type a" if "in_memory a" "in_memory b"
    using that assms(2,3) by (auto simp: fix_input_def widths_ok_def Let_def)
  note R = R_scratch [OF assms(1)]
  show ?thesis
  proof (cases "rewrite (op2 oc a b) = Inr [op2 oc a b]")
    case True
    then show ?thesis by (rule sound_same) (rule exec_binop [OF oc b(1)])
  next
    case False
    then have "in_memory a \<and> in_memory b \<and>
        rewrite (op2 oc a b) = Inr [op2 MOV a (r10 (word_type a)), op2 oc (r10 (word_type b)) b] \<or>
      is_immediate a \<and>
        rewrite (op2 oc a b) = Inr [op2 MOV a (r10 ASM_WORD_64BIT), op2 oc (r10 ASM_WORD_64BIT) b]"
      using assms(3) operand_classes(2) [of a]
      by (auto simp: rewrite_mov rewrite_arith split: if_splits)
    then show ?thesis
    proof (elim disjE conjE)
      assume "in_memory a" "in_memory b"
        "rewrite (op2 oc a b) = Inr [op2 MOV a (r10 (word_type a)), op2 oc (r10 (word_type b)) b]"
      then show ?thesis
        using sound_bounce [OF oc b(1) _ b(2), of ASM_REGISTER_R10 i "word_type a" a s "word_type b"]
          R ww read_narrow [of "word_type b" "word_type a" i a s] word_bits_mono exec_binop [OF oc b(1), of i a s]
        by (auto simp: rewrite_sound_def)
    next
      assume "is_immediate a"
        "rewrite (op2 oc a b) = Inr [op2 MOV a (r10 ASM_WORD_64BIT), op2 oc (r10 ASM_WORD_64BIT) b]"
      then show ?thesis
        using sound_bounce [OF oc b(1) _ b(2), of ASM_REGISTER_R10 i ASM_WORD_64BIT a s ASM_WORD_64BIT]
          R immediate_any_width [of a "word_type b" ASM_WORD_64BIT i s] exec_binop [OF oc b(1), of i a s]
        by (auto simp: rewrite_sound_def)
    qed
  qed
qed

lemma avoids_reg [simp]: "avoids R (reg_operand w r) \<longleftrightarrow> r \<notin> R"
  by (simp add: avoids_def reg_operand_def)

lemma sound_cmp:
  assumes "clobbers R" "fix_input R (op2 oc a b)" "oc = IntOp ASM_OP_COMPARE"
  shows "rewrite_sound i R (op2 oc a b) s"
proof -
  have b: "operand_type b \<noteq> ASM_OPERAND_NONE" "avoids R b" "avoids R a"
    using assms(2,3) by (auto simp: fix_input_def operands_ok_def plain_def)
  have ww: "word_type a = word_type b" if "in_memory a \<and> in_memory b \<or> is_immediate b"
    using that assms(2,3) by (auto simp: fix_input_def widths_ok_def Let_def)
  have small: "\<not> immediate_above_int a" if "is_immediate b"
    using that assms(2,3) by (auto simp: fix_input_def widths_ok_def Let_def)
  have oc: "binop oc" using assms(3) by (simp add: binop_def)
  note R = R_scratch [OF assms(1)] and ex = exec_binop [OF oc b(1), of i a s]
  consider "in_memory a" "in_memory b" | "immediate_above_int a" "\<not> is_immediate b"
    | "is_immediate b"
    | "\<not> (in_memory a \<and> in_memory b)" "\<not> immediate_above_int a" "\<not> is_immediate b"
    by blast
  then show ?thesis
  proof cases
    case 1
    with sound_bounce [OF oc b(1) _ b(2), of ASM_REGISTER_R10 i "word_type a" a s "word_type b"]
    show ?thesis using assms(3) R ww ex by (auto simp: rewrite_sound_def rewrite_cmp)
  next
    case 2
    with sound_bounce [OF oc b(1) _ b(2), of ASM_REGISTER_R10 i ASM_WORD_64BIT a s ASM_WORD_64BIT]
      immediate_any_width [of a "word_type b" ASM_WORD_64BIT i s] operand_classes [of a]
    show ?thesis using assms(3) R ww ex by (auto simp: rewrite_sound_def rewrite_cmp)
  next
    case 3
    define s1 where "s1 = s\<lparr>regs := (regs s)(ASM_REGISTER_R11 :=
      merge (word_type b) (regs s ASM_REGISTER_R11) (read_op i (word_type b) b s))\<rparr>"
    have sb: "same_but R s s1" unfolding s1_def using R by (intro same_but_reg) simp
    have w: "word_type a = word_type b" using ww 3 by simp
    have rd: "read_op i (word_type b) a s1 = read_op i (word_type b) a s"
      "read_op i (word_type b) (r11 (word_type b)) s1 = read_op i (word_type b) b s"
      using read_cong [OF sb b(3)] by (simp_all add: read_reg s1_def)
    have "exec i (op2 oc a (r11 (word_type a))) s1 =
        Some (set_flags oc (word_type b) (read_op i (word_type b) a s) (read_op i (word_type b) b s) s1)"
      using rd w assms(3) by (simp add: exec_def exec_int_def width_op2 Let_def)
    then have "exec_list i [op2 MOV b (r11 (word_type b)), op2 oc a (r11 (word_type a))] s =
        Some (set_flags oc (word_type b) (read_op i (word_type b) a s) (read_op i (word_type b) b s) s1)"
      by (simp add: exec_mov_reg s1_def [symmetric])
    moreover have "exec i (op2 oc a b) s =
        Some (set_flags oc (word_type b) (read_op i (word_type b) a s) (read_op i (word_type b) b s) s)"
      using ex assms(3) by (simp add: binop_effect_def)
    ultimately show ?thesis
      using 3 small assms(3) operand_classes(1) [of b] set_flags_cong [OF sb]
      by (auto simp: rewrite_sound_def rewrite_cmp)
  next
    case 4
    then have "rewrite (op2 oc a b) = Inr [op2 oc a b]" using assms(3) by (auto simp: rewrite_cmp)
    then show ?thesis using ex by (rule sound_same)
  qed
qed

lemma write_flags: "write_op i w b v (s\<lparr>flags := f\<rparr>) = (write_op i w b v s)\<lparr>flags := f\<rparr>"
  by (cases "operand_type b") (simp_all add: write_op_def addr_def)

lemma mul_tail:
  assumes R: "ASM_REGISTER_R11 \<in> R" and b: "avoids R b" "operand_type b \<noteq> ASM_OPERAND_NONE"
    and a': "avoids {ASM_REGISTER_R11} a'" "word_bits (word_type b) \<le> word_bits (word_type a')"
    and x: "trunc (word_type b) (read_op i (word_type a') a' s1) = x"
    and s1: "same_but R s s1"
  shows "\<exists>t. exec_list i [op2 MOV b (r11 (word_type b)),
      op2 (IntOp ASM_OP_BINARY_MULTIPLY) a' (r11 (word_type a')), op2 MOV (r11 (word_type b)) b] s1 = Some t \<and>
    same_but R (binop_effect i (IntOp ASM_OP_BINARY_MULTIPLY) (word_type b) b x s) t"
proof -
  let ?w = "word_type b" and ?v = "word_type a'"
  define s2 where "s2 = s1\<lparr>regs := (regs s1)(ASM_REGISTER_R11 :=
    merge ?w (regs s1 ASM_REGISTER_R11) (read_op i ?w b s1))\<rparr>"
  define p where "p = read_op i ?v (r11 ?v) s2 * read_op i ?v a' s2"
  define s3 where "s3 = s2\<lparr>regs := (regs s2)(ASM_REGISTER_R11 :=
    merge ?v (regs s2 ASM_REGISTER_R11) p), flags := None\<rparr>"
  have s12: "same_but {ASM_REGISTER_R11} s1 s2" unfolding s2_def by (rule same_but_reg) simp
  have s3: "same_but R (s\<lparr>flags := None\<rparr>) s3"
    using s1 R by (auto simp: same_but_def s3_def s2_def)
  have "trunc ?w p = trunc ?w (trunc ?w (read_op i ?v (r11 ?v) s2) * trunc ?w (read_op i ?v a' s2))"
    by (simp add: p_def trunc_mult)
  also have "trunc ?w (read_op i ?v (r11 ?v) s2) = read_op i ?w b s1"
    using a'(2) by (simp add: read_reg s2_def trunc_le)
  also have "read_op i ?w b s1 = read_op i ?w b s" using read_cong [OF s1 b(1)] by simp
  also have "read_op i ?v a' s2 = read_op i ?v a' s1" using read_cong [OF s12 a'(1)] by simp
  finally have p: "trunc ?w p = trunc ?w (read_op i ?w b s * x)" by (simp add: x)
  have "trunc ?w (merge ?v y p) = trunc ?w p" for y
    using trunc_le [OF a'(2), of "merge ?v y p"] trunc_le [OF a'(2), of p] by simp
  then have rd: "read_op i ?w (r11 ?w) s3 = trunc ?w (read_op i ?w b s * x)"
    by (simp add: read_reg s3_def p)
  have "exec i (op2 (IntOp ASM_OP_BINARY_MULTIPLY) a' (r11 ?v)) s2 = Some s3"
    by (simp add: exec_def exec_int_def width_op2 write_reg Let_def s3_def p_def)
  then have "exec_list i [op2 MOV b (r11 ?w), op2 (IntOp ASM_OP_BINARY_MULTIPLY) a' (r11 ?v),
      op2 MOV (r11 ?w) b] s1 = Some (write_op i ?w b (trunc ?w (read_op i ?w b s * x)) s3)"
    using rd exec_mov [OF b(2), of i "r11 ?w" s3] by (simp add: exec_mov_reg s2_def [symmetric])
  moreover have "same_but R (write_op i ?w b (read_op i ?w b s * x) (s\<lparr>flags := None\<rparr>))
      (write_op i ?w b (trunc ?w (read_op i ?w b s * x)) s3)"
    unfolding write_trunc by (rule write_cong [OF s3 b(1)])
  ultimately show ?thesis by (simp add: binop_effect_def write_flags)
qed

lemma avoids_subset: "avoids R a \<Longrightarrow> S \<subseteq> R \<Longrightarrow> avoids S a"
  by (auto simp: avoids_def)

lemma sound_mul:
  assumes "clobbers R" "fix_input R (op2 oc a b)" "oc = IntOp ASM_OP_BINARY_MULTIPLY"
  shows "rewrite_sound i R (op2 oc a b) s"
proof -
  have b: "operand_type b \<noteq> ASM_OPERAND_NONE" "avoids R b" "avoids R a"
    using assms(2,3) by (auto simp: fix_input_def operands_ok_def plain_def)
  have ww: "word_type a = word_type b" if "in_memory b"
    using that assms(2,3) by (auto simp: fix_input_def widths_ok_def Let_def arith_def)
  have oc: "binop oc" using assms(3) by (simp add: binop_def)
  note R = R_scratch [OF assms(1)] and ex = exec_binop [OF oc b(1), of i a s]
  let ?x = "read_op i (word_type b) a s"
  define s1 where "s1 = s\<lparr>regs := (regs s)(ASM_REGISTER_R10 :=
    merge ASM_WORD_64BIT (regs s ASM_REGISTER_R10) (read_op i ASM_WORD_64BIT a s))\<rparr>"
  have sb: "same_but R s s1" unfolding s1_def using R by (intro same_but_reg) simp
  consider "immediate_above_int a" "in_memory b" | "immediate_above_int a" "\<not> in_memory b"
    | "\<not> immediate_above_int a" "in_memory b" | "\<not> immediate_above_int a" "\<not> in_memory b"
    by blast
  then show ?thesis
  proof cases
    case 1
    have "trunc (word_type b) (read_op i ASM_WORD_64BIT (r10 ASM_WORD_64BIT) s1) = ?x"
      using immediate_any_width [of a "word_type b" ASM_WORD_64BIT i s] operand_classes(2) [of a] 1
      by (simp add: read_reg s1_def merge_def)
    moreover have "exec i (op2 MOV a (r10 ASM_WORD_64BIT)) s = Some s1"
      by (simp add: exec_mov_reg s1_def)
    ultimately show ?thesis
      using mul_tail [of R b "r10 ASM_WORD_64BIT" i s1 ?x s] 1 R b sb ex assms(3)
      by (auto simp: rewrite_sound_def rewrite_mul Let_def)
  next
    case 2
    with sound_bounce [OF oc b(1) _ b(2), of ASM_REGISTER_R10 i ASM_WORD_64BIT a s ASM_WORD_64BIT]
      immediate_any_width [of a "word_type b" ASM_WORD_64BIT i s] operand_classes [of a]
    show ?thesis using assms(3) R ww ex by (auto simp: rewrite_sound_def rewrite_mul Let_def)
  next
    case 3
    have "trunc (word_type b) (read_op i (word_type a) a s) = ?x" using ww 3 by simp
    with mul_tail [of R b a i s ?x s] 3 R b ex ww assms(3) avoids_subset [OF b(3)]
    show ?thesis by (auto simp: rewrite_sound_def rewrite_mul Let_def)
  next
    case 4
    then have "rewrite (op2 oc a b) = Inr [op2 oc a b]" using assms(3) by (simp add: rewrite_mul)
    then show ?thesis using ex by (rule sound_same)
  qed
qed

definition shift_effect ::
  "isa \<Rightarrow> asm_opcode \<Rightarrow> asm_word \<Rightarrow> asm_operand \<Rightarrow> u64 \<Rightarrow> cpu \<Rightarrow> cpu" where
  "shift_effect i oc w b count s =
     (let v = read_op i w b s in write_op i w b (alu i oc w count v) (set_flags oc w count v s))"

lemma exec_shift:
  assumes "shift_opcode oc" "operand_type b \<noteq> ASM_OPERAND_NONE"
  shows "exec i (op2 oc a b) s =
    Some (shift_effect i oc (word_type b) b (read_op i ASM_WORD_08BIT a s) s)"
  using assms unfolding shift_opcode_def insert_iff empty_iff
  by (elim disjE FalseE; hypsubst_thin;
      simp add: exec_def exec_int_def width_op2 shift_effect_def Let_def)

lemma shift_effect_cong:
  "same_but R s t \<Longrightarrow> avoids R b \<Longrightarrow>
     same_but R (shift_effect i oc w b x s) (shift_effect i oc w b x t)"
  by (simp add: shift_effect_def Let_def read_cong write_cong set_flags_cong)

lemma sound_shift:
  assumes "clobbers R" "fix_input R (op2 oc a b)" "shift_opcode oc"
  shows "rewrite_sound i R (op2 oc a b) s"
proof -
  have np: "\<not> plain oc" "oc \<notin> {IntOp ASM_OP_IDIV, IntOp ASM_OP_DIV, ASM_OP_PUSH}"
    using assms(3) by (auto simp: shift_opcode_def plain_def)
  have b: "operand_type b \<noteq> ASM_OPERAND_NONE" "avoids R b"
    using assms(2) np by (auto simp: fix_input_def operands_ok_def)
  note ex = exec_shift [OF assms(3) b(1)]
  show ?thesis
  proof (cases "is_immediate a")
    case True
    then show ?thesis using sound_same [OF _ ex] rewrite_shift [OF assms(3)] by simp
  next
    case False
    then have CX: "ASM_REGISTER_CX \<in> R" using assms(2,3) by (simp add: fix_input_def)
    define s1 where "s1 = s\<lparr>regs := (regs s)(ASM_REGISTER_CX :=
      merge (word_type a) (regs s ASM_REGISTER_CX) (read_op i (word_type a) a s))\<rparr>"
    have le: "word_bits ASM_WORD_08BIT \<le> word_bits (word_type a)" by (cases "word_type a") simp_all
    have narrow: "trunc ASM_WORD_08BIT (read_op i (word_type a) a s) = read_op i ASM_WORD_08BIT a s"
      by (rule read_narrow) (cases "word_type a"; simp add: less_eq_asm_word_def)
    note br = bounce_read(1) [OF CX b(2) narrow s1_def le]
      bounce_read(2) [OF CX b(2) narrow s1_def le]
    have "exec_list i [op2 MOV a (ecx (word_type a)), op2 oc (ecx (word_type b)) b] s =
        Some (shift_effect i oc (word_type b) b (read_op i ASM_WORD_08BIT a s) s1)"
      using ex [of i _ s1] br(1) by (simp add: exec_mov_reg s1_def [symmetric])
    with ex [of i a s] shift_effect_cong [OF br(2) b(2)] rewrite_shift [OF assms(3), of a b] False
    show ?thesis by (auto simp: rewrite_sound_def)
  qed
qed

lemma sound_div:
  assumes "clobbers R" "fix_input R (op2 oc a b)" "oc \<in> {IntOp ASM_OP_IDIV, IntOp ASM_OP_DIV}"
  shows "rewrite_sound i R (op2 oc a b) s"
proof -
  have b: "operand_type b = ASM_OPERAND_NONE"
    using assms(2,3) by (auto simp: fix_input_def operands_ok_def)
  note R = R_scratch [OF assms(1)]
  have AX: "ASM_REGISTER_AX \<notin> R" "ASM_REGISTER_DX \<notin> R" using assms(1) by (auto simp: clobbers_def)
  define eff where "eff x s = (case divide i oc (word_type a) (regs s ASM_REGISTER_AX)
      (regs s ASM_REGISTER_DX) x of
      (q, r) \<Rightarrow> s\<lparr>regs := (regs s)(ASM_REGISTER_AX := q, ASM_REGISTER_DX := r), flags := None\<rparr>)"
    for x and s :: cpu
  have ex: "exec i (op2 oc c d) s = Some (eff (read_op i (word_type a) c s) s)"
    if "operand_type d = ASM_OPERAND_NONE" "word_type c = word_type a" for c d s
    using that assms(3) unfolding insert_iff empty_iff
    by (elim disjE FalseE; simp add: exec_def exec_int_def width_op2 Let_def eff_def)
  have cong: "same_but R s t \<Longrightarrow> same_but R (eff x s) (eff x t)" for s t x
    using AX by (auto simp: same_but_def eff_def split: prod.split)
  show ?thesis
  proof (cases "is_immediate a")
    case False
    then show ?thesis
      using sound_same [OF _ ex [OF b refl]] rewrite_div [OF assms(3)] by simp
  next
    case True
    define s1 where "s1 = s\<lparr>regs := (regs s)(ASM_REGISTER_R10 :=
      merge (word_type a) (regs s ASM_REGISTER_R10) (read_op i (word_type a) a s))\<rparr>"
    have sb: "same_but R s s1" unfolding s1_def using R by (intro same_but_reg) simp
    have "read_op i (word_type a) (r10 (word_type a)) s1 = read_op i (word_type a) a s"
      by (simp add: read_reg s1_def)
    then have "exec_list i [op2 MOV a (r10 (word_type a)), op2 oc (r10 (word_type a)) zero_operand] s =
        Some (eff (read_op i (word_type a) a s) s1)"
      using ex [of zero_operand "r10 (word_type a)" s1]
      by (simp add: exec_mov_reg s1_def [symmetric])
    with ex [OF b refl, of s] cong [OF sb] rewrite_div [OF assms(3), of a b] True
    show ?thesis by (auto simp: rewrite_sound_def)
  qed
qed

text \<open>The rewritings that end by moving a scratch register to the destination.\<close>

lemma exec_mov_from:
  assumes "operand_type b \<noteq> ASM_OPERAND_NONE" "same_but R s s1" "avoids R b"
    and "trunc (word_type b) (regs s1 r) = trunc (word_type b) x"
  shows "\<exists>t. exec_list i [op2 MOV (reg_operand w r) b] s1 = Some t \<and>
    same_but R (write_op i (word_type b) b x s) t"
proof -
  have "exec_list i [op2 MOV (reg_operand w r) b] s1 =
      Some (write_op i (word_type b) b (trunc (word_type b) x) s1)"
    using exec_mov [OF assms(1), of i "reg_operand w r" s1] assms(4) by (simp add: read_reg)
  then show ?thesis using write_cong [OF assms(2,3)] by (simp add: write_trunc)
qed

lemma exec_unary_forms:
  assumes "operand_type b \<noteq> ASM_OPERAND_NONE"
  shows "exec i (op2 (IntOp ASM_OP_MOV_WITH_SIGN_EXTENSION) a b) s =
      Some (write_op i (word_type b) b (sign_extend (word_type a) (read_op i (word_type a) a s)) s)"
    and "exec i (op2 (IntOp ASM_OP_MOV_WITH_ZERO_EXTENSION) a b) s =
      Some (write_op i (word_type b) b (read_op i (word_type a) a s) s)"
    and "exec i (op2 (IntOp ASM_OP_LEA) a b) s = Some (write_op i (word_type b) b (addr i a s) s)"
    and "exec i (op2 (IntOp ASM_OP_CVT_DOUBLE_TO_INT) a b) s =
      Some (write_op i (word_type b) b
        (alu i (IntOp ASM_OP_CVT_DOUBLE_TO_INT) ASM_WORD_64BIT (read_op i ASM_WORD_64BIT a s) 0) s)"
    and "exec i (op2 (IntOp ASM_OP_CVT_INT_TO_DOUBLE) a b) s =
      Some (write_op i ASM_WORD_64BIT b
        (alu i (IntOp ASM_OP_CVT_INT_TO_DOUBLE) (word_type a) (read_op i (word_type a) a s) 0) s)"
  using assms by (simp_all add: exec_def exec_int_def width_op2 Let_def)

text \<open>
  The value \<open>x\<close> goes into the scratch register \<open>r\<close> and from there to \<open>b\<close>, from a state
  \<open>s1\<close> in which only registers of \<open>R\<close> have changed.
\<close>

lemma sound_through:
  assumes "operand_type b \<noteq> ASM_OPERAND_NONE" "avoids R b" "r \<in> R" "same_but R s s1"
    and "exec i op1 s1 = Some (s1\<lparr>regs := (regs s1)(r := y)\<rparr>)"
    and "trunc (word_type b) y = trunc (word_type b) x"
  shows "\<exists>t. exec_list i [op1, op2 MOV (reg_operand w r) b] s1 = Some t \<and>
    same_but R (write_op i (word_type b) b x s) t"
proof -
  have "same_but R s (s1\<lparr>regs := (regs s1)(r := y)\<rparr>)"
    using assms(4) same_but_reg [OF assms(3)] same_but_trans by blast
  then show ?thesis
    using exec_mov_from [OF assms(1) _ assms(2), of s "s1\<lparr>regs := (regs s1)(r := y)\<rparr>" r x i w]
      assms(5,6) by simp
qed

lemma sound_extend:
  assumes "clobbers R" "fix_input R (op2 oc a b)"
    and "oc \<in> {IntOp ASM_OP_MOV_WITH_SIGN_EXTENSION, IntOp ASM_OP_MOV_WITH_ZERO_EXTENSION}"
  shows "rewrite_sound i R (op2 oc a b) s"
proof -
  have b: "operand_type b \<noteq> ASM_OPERAND_NONE" "avoids R b"
    and lt: "word_type a < word_type b"
    and zr: "oc = IntOp ASM_OP_MOV_WITH_ZERO_EXTENSION \<Longrightarrow> word_type a = ASM_WORD_32BIT \<Longrightarrow> \<not> is_register b"
    using assms(2,3) by (auto simp: fix_input_def operands_ok_def extension_ok_def plain_def)
  note R = R_scratch [OF assms(1)]
  define ext where "ext v = (if oc = IntOp ASM_OP_MOV_WITH_SIGN_EXTENSION
    then sign_extend (word_type a) v else v)" for v
  have ex: "exec i (op2 oc c d) s = Some (write_op i (word_type d) d (ext (read_op i (word_type a) c s)) s)"
    if "operand_type d \<noteq> ASM_OPERAND_NONE" "word_type c = word_type a" for c d s
    using that assms(3) unfolding insert_iff empty_iff
    by (elim disjE FalseE; simp add: exec_unary_forms ext_def)
  define s1 where "s1 = s\<lparr>regs := (regs s)(ASM_REGISTER_R10 :=
    merge (word_type a) (regs s ASM_REGISTER_R10) (read_op i (word_type a) a s))\<rparr>"
  have sb: "same_but R s s1" unfolding s1_def using R by (intro same_but_reg) simp
  have rd: "read_op i (word_type a) (r10 (word_type a)) s1 = read_op i (word_type a) a s"
    by (simp add: read_reg s1_def)
  let ?x = "ext (read_op i (word_type a) a s)"
  have three: "\<exists>t. exec_list i [op2 MOV a (r10 (word_type a)), op2 oc (r10 (word_type a)) (r11 (word_type b)),
      op2 MOV (r11 (word_type b)) b] s = Some t \<and> same_but R (write_op i (word_type b) b ?x s) t"
    using sound_through [OF b _ sb, of ASM_REGISTER_R11 i "op2 oc (r10 (word_type a)) (r11 (word_type b))"
        "merge (word_type b) (regs s1 ASM_REGISTER_R11) ?x" ?x "word_type b"] R
      ex [of "r11 (word_type b)" "r10 (word_type a)" s1] rd
    by (simp add: exec_mov_reg s1_def [symmetric] write_reg)
  consider "rewrite (op2 oc a b) = Inr [op2 oc a b]"
    | "rewrite (op2 oc a b) = Inr [op2 MOV a (r10 (word_type a)),
        op2 oc (r10 (word_type a)) (r11 (word_type b)), op2 MOV (r11 (word_type b)) b]"
    | "oc = IntOp ASM_OP_MOV_WITH_ZERO_EXTENSION" "word_type a = ASM_WORD_32BIT"
  proof (cases "oc = IntOp ASM_OP_MOV_WITH_SIGN_EXTENSION")
    case True
    then show thesis using that(1,2) rewrite_movsx [OF lt]
      by (cases "is_immediate a \<or> in_memory b") simp_all
  next
    case False
    then have "oc = IntOp ASM_OP_MOV_WITH_ZERO_EXTENSION" using assms(3) by simp
    then show thesis using that rewrite_movzx [OF lt zr]
      by (cases "word_type a = ASM_WORD_32BIT"; cases "is_immediate a \<or> in_memory b") simp_all
  qed
  then show ?thesis
  proof cases
    case 1
    then show ?thesis using sound_same ex [OF b(1) refl] by blast
  next
    case 2
    then show ?thesis using three ex [OF b(1) refl, of s] by (auto simp: rewrite_sound_def)
  next
    case 3
    have y: "trunc (word_type b) (merge ASM_WORD_32BIT z v) = trunc (word_type b) v"
      if "trunc ASM_WORD_32BIT v = v" for z v
      using that by (simp add: merge_def)
    have x: "?x = read_op i (word_type a) a s" using 3 by (simp add: ext_def)
    have "exec i (op2 MOV a (r11 (word_type a))) s = Some (s\<lparr>regs := (regs s)(ASM_REGISTER_R11 :=
        merge (word_type a) (regs s ASM_REGISTER_R11) ?x)\<rparr>)"
      unfolding x by (rule exec_mov_reg)
    from sound_through [OF b _ same_but_refl this, of ?x "word_type b"]
    have "\<exists>t. exec_list i [op2 MOV a (r11 (word_type a)), op2 MOV (r11 (word_type b)) b] s = Some t \<and>
        same_but R (write_op i (word_type b) b ?x s) t"
      using R 3 y [of ?x] unfolding x by simp
    then show ?thesis
      using 3 rewrite_movzx [OF lt zr] ex [OF b(1) refl, of s] by (auto simp: rewrite_sound_def)
  qed
qed

lemma sound_lea:
  assumes "clobbers R" "fix_input R (op2 oc a b)" "oc = IntOp ASM_OP_LEA"
  shows "rewrite_sound i R (op2 oc a b) s"
proof -
  have b: "operand_type b \<noteq> ASM_OPERAND_NONE" "avoids R b"
    using assms(2,3) by (auto simp: fix_input_def operands_ok_def plain_def)
  note R = R_scratch [OF assms(1)] and ex = exec_unary_forms(3)
  have "exec i (op2 oc a (r10 (word_type b))) s = Some (s\<lparr>regs := (regs s)(ASM_REGISTER_R10 :=
      merge (word_type b) (regs s ASM_REGISTER_R10) (addr i a s))\<rparr>)"
    using assms(3) by (simp add: ex write_reg)
  from sound_through [OF b _ same_but_refl this, of "addr i a s" "word_type b"]
  have "\<exists>t. exec_list i [op2 oc a (r10 (word_type b)), op2 MOV (r10 (word_type b)) b] s = Some t \<and>
      same_but R (write_op i (word_type b) b (addr i a s) s) t"
    using R by simp
  then show ?thesis
    using assms(3) ex [OF b(1), of i a s] sound_same [of "op2 oc a b" i s]
    by (cases "in_memory b") (auto simp: rewrite_sound_def rewrite_lea)
qed

lemma sound_d2i:
  assumes "clobbers R" "fix_input R (op2 oc a b)" "oc = IntOp ASM_OP_CVT_DOUBLE_TO_INT"
  shows "rewrite_sound i R (op2 oc a b) s"
proof -
  have b: "operand_type b \<noteq> ASM_OPERAND_NONE" "avoids R b"
    and w: "in_memory b \<Longrightarrow> word_type a = ASM_WORD_64BIT"
    using assms(2,3) by (auto simp: fix_input_def operands_ok_def widths_ok_def plain_def Let_def)
  note R = R_scratch [OF assms(1)] and ex = exec_unary_forms(4)
  let ?x = "alu i oc ASM_WORD_64BIT (read_op i ASM_WORD_64BIT a s) 0"
  show ?thesis
  proof (cases "in_memory b")
    case False
    then show ?thesis
      using sound_same [OF _ ex [OF b(1)]] assms(3) by (simp add: rewrite_cvt_double_to_int)
  next
    case True
    have "exec i (op2 oc a (r11 (word_type a))) s = Some (s\<lparr>regs := (regs s)(ASM_REGISTER_R11 := ?x)\<rparr>)"
      using assms(3) w True by (simp add: ex write_reg)
    then have "\<exists>t. exec_list i [op2 oc a (r11 (word_type a)), op2 MOV (r11 (word_type b)) b] s = Some t \<and>
        same_but R (write_op i (word_type b) b ?x s) t"
      using R by (intro sound_through [OF b]) auto
    then show ?thesis
      using assms(3) True ex [OF b(1), of i a s]
      by (auto simp: rewrite_sound_def rewrite_cvt_double_to_int)
  qed
qed

lemma sound_i2d:
  assumes "clobbers R" "fix_input R (op2 oc a b)" "oc = IntOp ASM_OP_CVT_INT_TO_DOUBLE"
  shows "rewrite_sound i R (op2 oc a b) s"
proof -
  have b: "operand_type b \<noteq> ASM_OPERAND_NONE" "avoids R b" and w: "word_type b = ASM_WORD_64BIT"
    using assms(2,3) by (auto simp: fix_input_def operands_ok_def widths_ok_def plain_def Let_def
        arith_def)
  note R = R_scratch [OF assms(1)] and ex = exec_unary_forms(5)
  let ?v = "read_op i (word_type a) a s"
  let ?x = "alu i oc (word_type a) ?v 0"
  define s1 where "s1 = s\<lparr>regs := (regs s)(ASM_REGISTER_R10 :=
    merge (word_type a) (regs s ASM_REGISTER_R10) ?v)\<rparr>"
  have sb: "same_but R s s1" unfolding s1_def using R by (intro same_but_reg) simp
  have "exec i (op2 oc (r10 (word_type a)) xmm15) s1 =
      Some (s1\<lparr>regs := (regs s1)(ASM_REGISTER_XMM15 := ?x)\<rparr>)"
    using assms(3) by (simp add: ex write_reg read_reg s1_def)
  then have "\<exists>t. exec_list i [op2 oc (r10 (word_type a)) xmm15, op2 MOV xmm15 b] s1 = Some t \<and>
      same_but R (write_op i (word_type b) b ?x s) t"
    using R by (intro sound_through [OF b _ sb]) auto
  then have "\<exists>t. exec_list i [op2 MOV a (r10 (word_type a)), op2 oc (r10 (word_type a)) xmm15,
      op2 MOV xmm15 b] s = Some t \<and> same_but R (write_op i (word_type b) b ?x s) t"
    by (simp add: exec_mov_reg s1_def [symmetric])
  then show ?thesis
    using assms(3) ex [OF b(1), of i a s] sound_same [of "op2 oc a b" i s] w
    by (cases "is_immediate a \<or> in_memory b")
      (auto simp: rewrite_sound_def rewrite_cvt_int_to_double)
qed

lemma exec_double:
  assumes "\<not> vector_op d"
  shows "exec i (op2 (DoubleOp d) a b) s = Some
    (let x = read_op i ASM_WORD_64BIT a s; y = read_op i ASM_WORD_64BIT b s in
     if d = ASM_OP_DOUBLE_COMPARE then set_flags (DoubleOp d) ASM_WORD_64BIT x y s
     else write_op i ASM_WORD_64BIT b (alu i (DoubleOp d) ASM_WORD_64BIT x y) s)"
  using assms by (simp add: exec_def Let_def)

lemma sound_double:
  assumes "clobbers R" "fix_input R (op2 oc a b)" "oc = DoubleOp d" "\<not> vector_op d"
  shows "rewrite_sound i R (op2 oc a b) s"
proof -
  have b: "operand_type b \<noteq> ASM_OPERAND_NONE" "avoids R b" "avoids R a"
    and w: "word_type b = ASM_WORD_64BIT"
    using assms(2-4) by (auto simp: fix_input_def operands_ok_def widths_ok_def plain_def Let_def)
  note R = R_scratch [OF assms(1)] and ex = exec_double [OF assms(4)]
  let ?a = "read_op i ASM_WORD_64BIT a s" and ?b = "read_op i ASM_WORD_64BIT b s"
  define s1 where "s1 = s\<lparr>regs := (regs s)(ASM_REGISTER_XMM15 := ?b)\<rparr>"
  have sb: "same_but R s s1" unfolding s1_def using R by (intro same_but_reg) simp
  have mov: "exec i (op2 MOV b xmm15) s = Some s1"
    by (simp add: exec_mov_reg s1_def)
  have rd: "read_op i ASM_WORD_64BIT a s1 = ?a" "read_op i ASM_WORD_64BIT xmm15 s1 = ?b"
    using read_cong [OF sb b(3)] by (simp_all add: read_reg s1_def)
  consider "\<not> in_memory b" | "in_memory b" "d = ASM_OP_DOUBLE_COMPARE"
    | "in_memory b" "d \<noteq> ASM_OP_DOUBLE_COMPARE" by blast
  then show ?thesis
  proof cases
    case 1
    then show ?thesis using sound_same [OF _ ex] assms(3,4) by (simp add: rewrite_double)
  next
    case 2
    have "exec_list i [op2 MOV b xmm15, op2 oc a xmm15] s =
        Some (set_flags oc ASM_WORD_64BIT ?a ?b s1)"
      using mov ex [of i a xmm15 s1] rd 2 assms(3) by simp
    with 2 ex [of i a b s] set_flags_cong [OF sb, of oc ASM_WORD_64BIT ?a ?b] assms(3,4)
    show ?thesis by (auto simp: rewrite_sound_def rewrite_double)
  next
    case 3
    let ?x = "alu i oc ASM_WORD_64BIT ?a ?b"
    have "exec i (op2 oc a xmm15) s1 = Some (s1\<lparr>regs := (regs s1)(ASM_REGISTER_XMM15 := ?x)\<rparr>)"
      using ex [of i a xmm15 s1] rd 3 assms(3) by (simp add: write_reg)
    then have "\<exists>t. exec_list i [op2 oc a xmm15, op2 MOV xmm15 b] s1 = Some t \<and>
        same_but R (write_op i (word_type b) b ?x s) t"
      using R by (intro sound_through [OF b(1,2) _ sb]) auto
    with 3 ex [of i a b s] mov w assms(3,4)
    show ?thesis by (auto simp: rewrite_sound_def rewrite_double)
  qed
qed

lemma exec_push:
  "exec i (op2 ASM_OP_PUSH a b) s =
     Some (s\<lparr>regs := (regs s)(ASM_REGISTER_RSP := regs s ASM_REGISTER_RSP - 8),
       mem := store 8 (regs s ASM_REGISTER_RSP - 8) (read_op i ASM_WORD_64BIT a s) (mem s)\<rparr>)"
  by (simp add: exec_def Let_def)

lemma sound_push:
  assumes "clobbers R" "fix_input R (op2 oc a b)" "oc = ASM_OP_PUSH"
  shows "rewrite_sound i R (op2 oc a b) s"
proof (cases "immediate_above_int a")
  case False
  then show ?thesis using sound_same [OF _ exec_push] assms(3) by (simp add: rewrite_push)
next
  case True
  have "ASM_REGISTER_R10 \<in> R" "ASM_REGISTER_RSP \<notin> R"
    using assms(1) by (auto simp: clobbers_def scratch_def)
  then show ?thesis
    using True assms(3)
    by (auto simp: rewrite_sound_def rewrite_push exec_push exec_mov_reg read_reg
        same_but_def)
qed

text \<open>Every instruction that the machine runs is rewritten to something with its effect.\<close>

lemma rewrite_simulates:
  assumes "clobbers R" "fix_input R op" "exec i op s = Some s'"
  shows "\<exists>os t. rewrite op = Inr os \<and> exec_list i os s = Some t \<and> same_but R s' t"
proof -
  obtain oc a b where op: "op = op2 oc a b" using op_op2 by blast
  note in' = assms(1) assms(2) [unfolded op]
  have "rewrite_sound i R (op2 oc a b) s"
  proof (cases oc rule: opcode_cases)
    case mov then show ?thesis by (intro sound_binop [OF in'] disjI1)
  next
    case arith then show ?thesis by (intro sound_binop [OF in'] disjI2)
  next
    case cmp then show ?thesis by (rule sound_cmp [OF in'])
  next
    case mul then show ?thesis by (rule sound_mul [OF in'])
  next
    case div then show ?thesis by (rule sound_div [OF in'])
  next
    case shift then show ?thesis by (rule sound_shift [OF in'])
  next
    case movsx then show ?thesis by (intro sound_extend [OF in']) simp
  next
    case movzx then show ?thesis by (intro sound_extend [OF in']) simp
  next
    case d2i then show ?thesis by (rule sound_d2i [OF in'])
  next
    case i2d then show ?thesis by (rule sound_i2d [OF in'])
  next
    case double then show ?thesis by (rule sound_double [OF in'])
  next
    case lea then show ?thesis by (rule sound_lea [OF in'])
  next
    case push then show ?thesis by (rule sound_push [OF in'])
  next
    case plain
    then show ?thesis using sound_same [OF rewrite_plain] assms(3) op by simp
  qed
  then show ?thesis using assms(3) op by (auto simp: rewrite_sound_def)
qed

section \<open>Whole functions\<close>

text \<open>
  The registers the rewriting of a function may overwrite: the scratch registers, and CX
  where the function shifts by a variable.
\<close>

definition clobber_set :: "bool \<Rightarrow> asm_register set" where
  "clobber_set cx = scratch \<union> (if cx then {ASM_REGISTER_CX} else {})"

lemma clobber_set_ok: "clobbers (clobber_set cx)"
  by (auto simp: clobbers_def clobber_set_def scratch_def)

definition rewritten :: "asm_op \<Rightarrow> asm_op list" where
  "rewritten op = (case rewrite op of Inr os \<Rightarrow> os | Inl _ \<Rightarrow> [op])"

lemma rewrite_stays:
  assumes "stops op \<or> transfers op"
  shows "rewrite op = Inr [op]"
proof -
  obtain oc a b where op: "op = op2 oc a b" using op_op2 by blast
  have "plain oc"
    using assms by (cases oc) (auto simp: op stops_def transfers_def plain_def)
  then show ?thesis using op rewrite_plain by simp
qed

lemma rewrite_total:
  assumes "fix_input R op"
  shows "rewrite op = Inr (rewritten op)"
proof -
  obtain oc a b where op: "op = op2 oc a b" using op_op2 by blast
  then show ?thesis
    using rewrite_ok [of oc a b] assms by (auto simp: rewritten_def fix_input_def)
qed

lemma exec_list_no_label:
  "exec_list i os s \<noteq> None \<Longrightarrow> list_all (\<lambda>op. opcode op \<noteq> ASM_OP_LABEL) os"
  by (induction os arbitrary: s) (auto simp: exec_def Let_def split: option.splits)

interpretation fixup: op_rewriting rewritten "fix_input (clobber_set cx)" "clobber_set cx" for cx
proof
  fix op i s s'
  assume ok: "fix_input (clobber_set cx) op"
  show "exec i op s = Some s' \<Longrightarrow>
      \<exists>t. exec_list i (rewritten op) s = Some t \<and> same_but (clobber_set cx) s' t"
    using rewrite_simulates [OF clobber_set_ok ok] rewrite_total [OF ok] by fastforce
  show "stops op \<or> transfers op \<Longrightarrow> rewritten op = [op]"
    using rewrite_stays by (simp add: rewritten_def)
  show "avoids (clobber_set cx) (arg0 op) \<and> avoids (clobber_set cx) (arg1 op)"
    using ok by (simp add: fix_input_def)
  assume "\<not> stops op" "\<not> transfers op"
  then obtain i :: isa and s s' where "exec i op s = Some s'"
    using exec_or_not by (metis option.exhaust)
  then obtain t where "exec_list i (rewritten op) s = Some t"
    using rewrite_simulates [OF clobber_set_ok ok] rewrite_total [OF ok] by fastforce
  then show "list_all (\<lambda>op'. opcode op' \<noteq> ASM_OP_LABEL) (rewritten op)"
    using exec_list_no_label [of i "rewritten op" s] by simp
qed (auto simp: clobber_set_def scratch_def)

lemma fixall_rewritten:
  "list_all (fix_input R) os \<Longrightarrow> fixall fixers os = Inr (concat (map rewritten os))"
proof (induction os)
  case Nil
  have "fixall fxs [] = Inr []" for fxs by (induction fxs) simp_all
  then show ?case by simp
next
  case (Cons op os)
  then show ?case
    using fixall_Cons [of fixers op "rewritten op" os] rewrite_total [of R op]
    by (simp add: rewrite_def)
qed

lemma fixup_function:
  "list_all (fix_input R) (ops f) \<Longrightarrow>
     codegen_fixup_all fixers f = Inr (f\<lparr>ops := concat (map rewritten (ops f))\<rparr>)"
  by (simp add: fixup_all_seq fixall_rewritten)

end
