(* ===== verification/BackProps.thy ===== *)
theory BackProps
  imports FixupFacts
begin

text \<open>
  The properties of the end of the code generator: the layout of a stack frame, and the
  rewriting of the instructions that the processor does not have.
\<close>

section \<open>Stack frames\<close>

text \<open>
  C9. Every function gets a frame: on a function that first names each value in its full
  width, the replacement of pseudo-operands succeeds, leaves none of them, and puts each value
  \<open>place\<close> bytes below the frame pointer, within the recorded stack usage, aligned to its
  size (16 for arrays), no two values overlapping. Nothing else of the function changes.
\<close>
theorem frame_layout_sound:
  assumes "frame_ok f"
  shows "\<exists>f' place. codegen_replace_pseudo_one f = Inr f' \<and>
    f' = f\<lparr>ops := map (place_op place) (ops f), stack_usage := stack_usage f'\<rparr> \<and>
    pseudo_args (ops f') = [] \<and>
    frame_layout (set (pseudo_args (ops f))) place (stack_usage f')"
proof -
  obtain f' place where f': "codegen_replace_pseudo_one f = Inr f'"
    "f' = f\<lparr>ops := map (place_op place) (ops f), stack_usage := stack_usage f'\<rparr>"
    "frame_layout (set (pseudo_args (ops f))) place (stack_usage f')"
    using replace_pseudo_frame [OF assms] by blast
  moreover have "ops f' = map (place_op place) (ops f)" by (subst f'(2)) simp
  then have "pseudo_args (ops f') = []" by (simp add: place_op_not_pseudo)
  ultimately show ?thesis by blast
qed

definition pseudo_operand :: "asm_word \<Rightarrow> int \<Rightarrow> asm_operand" where
  "pseudo_operand w n = \<lparr>word_type = w, operand_type = ASM_OPERAND_PSEUDO_REGISTER n\<rparr>"

definition sample_function :: asm_function where
  "sample_function =
     \<lparr>fn_identifier = ''f'', fn_linkage = ASM_LINKAGE_EXTERNAL, stack_usage = 0,
      ops = [mov_op (pseudo_operand ASM_WORD_08BIT 7) (pseudo_operand ASM_WORD_08BIT 9),
             mov_op (pseudo_operand ASM_WORD_64BIT 8)
               \<lparr>word_type = ASM_WORD_32BIT, operand_type = ASM_OPERAND_PSEUDO_MEMORY 5 4 12\<rparr>]\<rparr>"

lemma frame_layout_sound_witness:
  "\<exists>f' place. codegen_replace_pseudo_one sample_function = Inr f' \<and>
    f' = sample_function\<lparr>ops := map (place_op place) (ops sample_function), stack_usage := stack_usage f'\<rparr> \<and>
    pseudo_args (ops f') = [] \<and>
    frame_layout (set (pseudo_args (ops sample_function))) place (stack_usage f')"
  by (rule frame_layout_sound)
    (simp add: sample_function_def frame_ok_def slot_ok_def fits_def
      pseudo_args_def op_args_def is_pseudo_def pid_def slot_size_def slot_align_def slot_offset_def
      pseudo_operand_def mov_op_def codegen_alloc_op_def LLONG_MAX_def)

text \<open>
  C22. The prologue reserves the frame: the stack pointer goes down by a multiple of 16 that
  is at least the stack usage and less than 16 more, before anything else runs.
\<close>
theorem frame_reserved:
  assumes "0 < stack_usage f"
  shows "\<exists>n. codegen_fixup_alloc_stack f = Inr (f\<lparr>ops := codegen_alloc_subq_rsp n # ops f\<rparr>) \<and>
    stack_usage f \<le> n \<and> n < stack_usage f + 16 \<and> 16 dvd n"
  using assms by (rule alloc_stack_ok)

lemma frame_reserved_witness:
  "\<exists>n. codegen_fixup_alloc_stack (sample_function\<lparr>stack_usage := 20\<rparr>) =
      Inr (sample_function\<lparr>stack_usage := 20, ops := codegen_alloc_subq_rsp n # ops sample_function\<rparr>) \<and>
    20 \<le> n \<and> n < 36 \<and> 16 dvd n"
  using frame_reserved [of "sample_function\<lparr>stack_usage := 20\<rparr>"] by (simp add: sample_function_def)

section \<open>Rewriting of instructions\<close>

text \<open>
  C4. The rewriting of instructions preserves the behaviour of a function, jumps included:
  whatever the function does on the machine from some state, the rewritten function does
  from that state, up to the scratch registers R10, R11 and XMM15 (and CX, if it shifts by
  a variable), for every choice of what the machine leaves open. Where the original stops
  in front of a call or a return, so does the rewritten one, with equal memory, flags and
  registers.
\<close>
theorem fixup_simulates:
  assumes "list_all (fix_input (clobber_set cx)) (ops f)"
    and "msteps i (ops f) (ops f, s) (os, s')"
  shows "\<exists>f' os' t'. codegen_fixup_all fixers f = Inr f' \<and>
    msteps i (ops f') (ops f', s) (os', t') \<and> same_but (clobber_set cx) s' t' \<and>
    (os = [] \<longrightarrow> os' = []) \<and>
    (\<forall>op rest. os = op # rest \<longrightarrow> stops op \<longrightarrow> (\<exists>rest'. os' = op # rest'))"
proof -
  let ?all = "\<lambda>os. concat (map rewritten os)"
  obtain t' where t': "msteps i (?all (ops f)) (?all (ops f), s) (?all os, t')"
    "same_but (clobber_set cx) s' t'"
    using fixup.steps_sim [OF assms(2,1), of s] assms(1)
    by (auto simp: fixup.all_def)
  have "stops op \<Longrightarrow> ?all (op # rest) = op # ?all rest" for op rest
    using rewrite_stays [of op] by (simp add: rewritten_def)
  with t' fixup_function [OF assms(1)] show ?thesis
    by (intro exI [of _ "f\<lparr>ops := ?all (ops f)\<rparr>"] exI [of _ "?all os"] exI [of _ t']) auto
qed

definition sample_isa :: isa where
  "sample_isa =
     \<lparr>layout = (\<lambda>_. 0), alu = (\<lambda>_ _ a b. a + b), divide = (\<lambda>_ _ a b c. (a, b)),
      cond_set = (\<lambda>_ _. 0), cond_jump = (\<lambda>_ _. False)\<rparr>"

definition sample_cpu :: cpu where
  "sample_cpu = \<lparr>regs = (\<lambda>_. 0), mem = (\<lambda>_. 0), flags = None\<rparr>"

definition stack_operand :: "int \<Rightarrow> asm_operand" where
  "stack_operand n =
     \<lparr>word_type = ASM_WORD_32BIT, operand_type = ASM_OPERAND_MEMORY n ASM_REGISTER_RBP\<rparr>"

definition sample_body :: asm_function where
  "sample_body = sample_function\<lparr>ops :=
     [mov_op (stack_operand (-4)) (stack_operand (-8)),
      codegen_alloc_op\<lparr>opcode := ASM_OP_RET\<rparr>]\<rparr>"

lemma sample_body_input: "list_all (fix_input (clobber_set False)) (ops sample_body)"
  by (simp add: sample_body_def fix_input_def stack_operand_def avoids_def clobber_set_def
      scratch_def extension_ok_def widths_ok_def operands_ok_def plain_def shift_opcode_def
      Let_def is_immediate_def arith_def)

lemma fixup_simulates_witness:
  "\<exists>s' f' os' t'. codegen_fixup_all fixers sample_body = Inr f' \<and>
    msteps sample_isa (ops f') (ops f', sample_cpu) (os', t') \<and> same_but (clobber_set False) s' t' \<and>
    (\<exists>rest'. os' = codegen_alloc_op\<lparr>opcode := ASM_OP_RET\<rparr> # rest')"
proof -
  let ?ret = "codegen_alloc_op\<lparr>opcode := ASM_OP_RET\<rparr>"
  have "exec sample_isa (mov_op (stack_operand (-4)) (stack_operand (-8))) sample_cpu \<noteq> None"
    by (simp add: exec_def)
  then obtain s' where "msteps sample_isa (ops sample_body) (ops sample_body, sample_cpu) ([?ret], s')"
    unfolding sample_body_def
    by (auto intro!: msteps_step [OF mstep_data msteps_refl])
  from fixup_simulates [OF sample_body_input this] show ?thesis
    by (fastforce simp: stops_def)
qed

end
