(* ===== verification/Encoding.thy ===== *)
theory Encoding
  imports FixupFacts
begin

text \<open>
  Which combinations of operands the x86-64 has, written down from the instruction set and
  not from the guards of \<^verbatim>\<open>codegen.c\<close>, and the proof that the rewriting of instructions leaves
  no other.
\<close>

section \<open>The instruction set\<close>

text \<open>
  What an operand is to the processor. Every name of a place in memory is a memory operand:
  relative to a register, relative to the instruction pointer (variables, constants and
  strings) or indexed. An immediate is kept in a signed field of 32 bits; one above that can
  still be loaded into a register, in 32 bits when it has no more than 32 bits.
\<close>

datatype operand_form = Absent | Gpr | Xmm | Mem | Imm32 | Imm32_unsigned | Imm64 | Target

definition immediate_form :: "int \<Rightarrow> operand_form" where
  "immediate_form n =
     (if - (2 ^ 31) \<le> n \<and> n < 2 ^ 31 then Imm32
      else if 0 \<le> n \<and> n < 2 ^ 32 then Imm32_unsigned else Imm64)"

definition form :: "asm_operand \<Rightarrow> operand_form" where
  "form a =
     (case operand_type a of
        ASM_OPERAND_NONE \<Rightarrow> Absent
      | ASM_OPERAND_IMMEDIATE n \<Rightarrow> immediate_form n
      | ASM_OPERAND_REGISTER r \<Rightarrow> (if xmm r then Xmm else Gpr)
      | ASM_OPERAND_MEMORY _ _ \<Rightarrow> Mem
      | ASM_OPERAND_INDEXED _ _ _ \<Rightarrow> Mem
      | ASM_OPERAND_VARIABLE_DATA _ \<Rightarrow> Mem
      | ASM_OPERAND_CONSTANT_DATA_DOUBLE _ \<Rightarrow> Mem
      | ASM_OPERAND_CONSTANT_DATA_VEC_LONGS _ \<Rightarrow> Mem
      | ASM_OPERAND_CONSTANT_DATA_VEC_QUADS _ \<Rightarrow> Mem
      | ASM_OPERAND_CONSTANT_STRING _ \<Rightarrow> Mem
      | _ \<Rightarrow> Target)"

text \<open>
  The rows of the instruction set: the sources and the destinations of an instruction that go
  together, in the order of the assembler (source first).
\<close>

definition x86_forms :: "asm_opcode \<Rightarrow> (operand_form list \<times> operand_form list) list" where
  "x86_forms oc =
     (let alu = [([Gpr, Imm32], [Gpr, Mem]), ([Mem], [Gpr])];
          unary = [([Gpr, Mem], [Absent])]; nullary = [([Absent], [Absent])] in
      case oc of
        IntOp i \<Rightarrow>
          (case i of
             ASM_OP_MOV \<Rightarrow>
               alu @ [([Imm32_unsigned, Imm64], [Gpr]), ([Xmm], [Gpr, Xmm, Mem]), ([Gpr, Mem], [Xmm])]
           | ASM_OP_MOV_WITH_SIGN_EXTENSION \<Rightarrow> [([Gpr, Mem], [Gpr])]
           | ASM_OP_MOV_WITH_ZERO_EXTENSION \<Rightarrow> [([Gpr, Mem], [Gpr])]
           | ASM_OP_LEA \<Rightarrow> [([Mem], [Gpr])]
           | ASM_OP_CVT_DOUBLE_TO_INT \<Rightarrow> [([Xmm, Mem], [Gpr])]
           | ASM_OP_CVT_INT_TO_DOUBLE \<Rightarrow> [([Gpr, Mem], [Xmm])]
           | ASM_OP_BINARY_ADD \<Rightarrow> alu
           | ASM_OP_BINARY_SUBTRACT \<Rightarrow> alu
           | ASM_OP_BITWISE_AND \<Rightarrow> alu
           | ASM_OP_BITWISE_OR \<Rightarrow> alu
           | ASM_OP_BITWISE_XOR \<Rightarrow> alu
           | ASM_OP_COMPARE \<Rightarrow> alu
           | ASM_OP_BINARY_MULTIPLY \<Rightarrow> [([Gpr, Mem, Imm32], [Gpr])]
           | ASM_OP_BITWISE_SIGNED_SHIFT_LEFT \<Rightarrow> [([Gpr, Imm32], [Gpr, Mem])]
           | ASM_OP_BITWISE_SIGNED_SHIFT_RIGHT \<Rightarrow> [([Gpr, Imm32], [Gpr, Mem])]
           | ASM_OP_BITWISE_UNSIGNED_SHIFT_LEFT \<Rightarrow> [([Gpr, Imm32], [Gpr, Mem])]
           | ASM_OP_BITWISE_UNSIGNED_SHIFT_RIGHT \<Rightarrow> [([Gpr, Imm32], [Gpr, Mem])]
           | ASM_OP_CDQ \<Rightarrow> nullary
           | ASM_OP_CQO \<Rightarrow> nullary
           | _ \<Rightarrow> unary)
      | DoubleOp _ \<Rightarrow> [([Xmm, Mem], [Xmm])]
      | SetOp _ \<Rightarrow> unary
      | JumpOp _ \<Rightarrow> [([Target], [Absent])]
      | ASM_OP_LABEL \<Rightarrow> [([Target], [Absent])]
      | ASM_OP_CALL \<Rightarrow> [([Target], [Absent])]
      | ASM_OP_PUSH \<Rightarrow> [([Gpr, Mem, Imm32], [Absent])]
      | ASM_OP_RET \<Rightarrow> nullary)"

definition in_rows :: "(operand_form list \<times> operand_form list) list \<Rightarrow> asm_op \<Rightarrow> bool" where
  "in_rows rows op =
     list_ex (\<lambda>(sources, destinations). form (arg0 op) \<in> set sources \<and> form (arg1 op) \<in> set destinations) rows"

text \<open>
  The widths: a full 64-bit immediate needs a 64-bit register, an extension a wider
  destination (and there is none from 32 bits that fills with zeros), the conversions and the
  multiplication of two operands have no form of 8 bits, and the count of a shift is the
  register CL or a byte.
\<close>

definition shift_count :: "asm_operand \<Rightarrow> bool" where
  "shift_count a =
     (case operand_type a of
        ASM_OPERAND_REGISTER r \<Rightarrow> r = ASM_REGISTER_CX
      | ASM_OPERAND_IMMEDIATE n \<Rightarrow> 0 \<le> n \<and> n < 256
      | _ \<Rightarrow> False)"

definition x86_widths :: "asm_op \<Rightarrow> bool" where
  "x86_widths op =
     (let v = word_type (arg0 op); w = word_type (arg1 op) in
      case opcode op of
        IntOp i \<Rightarrow>
          (case i of
             ASM_OP_MOV \<Rightarrow> form (arg0 op) = Imm64 \<longrightarrow> w = ASM_WORD_64BIT
           | ASM_OP_MOV_WITH_SIGN_EXTENSION \<Rightarrow> v < w
           | ASM_OP_MOV_WITH_ZERO_EXTENSION \<Rightarrow> v = ASM_WORD_08BIT \<and> v < w
           | ASM_OP_LEA \<Rightarrow> w \<noteq> ASM_WORD_08BIT
           | ASM_OP_CVT_DOUBLE_TO_INT \<Rightarrow> w \<noteq> ASM_WORD_08BIT
           | ASM_OP_CVT_INT_TO_DOUBLE \<Rightarrow> v \<noteq> ASM_WORD_08BIT
           | ASM_OP_BINARY_MULTIPLY \<Rightarrow> w \<noteq> ASM_WORD_08BIT
           | ASM_OP_BITWISE_SIGNED_SHIFT_LEFT \<Rightarrow> shift_count (arg0 op)
           | ASM_OP_BITWISE_SIGNED_SHIFT_RIGHT \<Rightarrow> shift_count (arg0 op)
           | ASM_OP_BITWISE_UNSIGNED_SHIFT_LEFT \<Rightarrow> shift_count (arg0 op)
           | ASM_OP_BITWISE_UNSIGNED_SHIFT_RIGHT \<Rightarrow> shift_count (arg0 op)
           | _ \<Rightarrow> True)
      | _ \<Rightarrow> True)"

definition x86_instruction :: "asm_op \<Rightarrow> bool" where
  "x86_instruction op = (in_rows (x86_forms (opcode op)) op \<and> x86_widths op)"

section \<open>What goes in\<close>

text \<open>
  What the rewriting is given: values stand anywhere, in memory or immediate, as source or
  destination. A value that an instruction computes or moves has a place, and only a
  comparison has an immediate on the right.
\<close>

definition selected_forms :: "asm_opcode \<Rightarrow> operand_form list \<times> operand_form list" where
  "selected_forms oc =
     (let imm = [Imm32, Imm32_unsigned, Imm64]; int = [Gpr, Mem] in
      case oc of
        IntOp i \<Rightarrow>
          (case i of
             ASM_OP_MOV \<Rightarrow> (Xmm # int @ imm, Xmm # int)
           | ASM_OP_LEA \<Rightarrow> ([Mem], int)
           | ASM_OP_CVT_DOUBLE_TO_INT \<Rightarrow> ([Xmm, Mem], int)
           | ASM_OP_CVT_INT_TO_DOUBLE \<Rightarrow> (int @ imm, [Xmm, Mem])
           | ASM_OP_COMPARE \<Rightarrow> (int @ imm, int @ imm)
           | ASM_OP_IDIV \<Rightarrow> (int @ imm, [Absent])
           | ASM_OP_DIV \<Rightarrow> (int @ imm, [Absent])
           | ASM_OP_CDQ \<Rightarrow> ([Absent], [Absent])
           | ASM_OP_CQO \<Rightarrow> ([Absent], [Absent])
           | ASM_OP_UNARY_NEG \<Rightarrow> (int, [Absent])
           | ASM_OP_UNARY_NOT \<Rightarrow> (int, [Absent])
           | ASM_OP_UNARY_DECREMENT \<Rightarrow> (int, [Absent])
           | ASM_OP_UNARY_INCREMENT \<Rightarrow> (int, [Absent])
           | _ \<Rightarrow> (int @ imm, int))
      | DoubleOp d \<Rightarrow> ([Xmm, Mem], if vector_op d then [Xmm] else [Xmm, Mem])
      | SetOp _ \<Rightarrow> (int, [Absent])
      | JumpOp _ \<Rightarrow> ([Target], [Absent])
      | ASM_OP_LABEL \<Rightarrow> ([Target], [Absent])
      | ASM_OP_CALL \<Rightarrow> ([Target], [Absent])
      | ASM_OP_PUSH \<Rightarrow> (int @ imm, [Absent])
      | ASM_OP_RET \<Rightarrow> ([Absent], [Absent]))"

text \<open>
  An immediate is not below the smallest \<^verbatim>\<open>int\<close> (the rewriting only looks for those above the
  largest), a 64-bit one has the width of a \<^verbatim>\<open>long\<close>, and no operand is indexed but the source
  of the instruction that computes an address.
\<close>

definition regular :: "asm_operand \<Rightarrow> bool" where
  "regular a =
     (case operand_type a of
        ASM_OPERAND_INDEXED _ _ _ \<Rightarrow> False
      | ASM_OPERAND_IMMEDIATE n \<Rightarrow> - (2 ^ 31) \<le> n \<and> (n < 2 ^ 32 \<or> word_type a = ASM_WORD_64BIT)
      | _ \<Rightarrow> True)"

definition selected_widths :: "asm_op \<Rightarrow> bool" where
  "selected_widths op =
     ((let v = word_type (arg0 op); w = word_type (arg1 op) in
      case opcode op of
        IntOp i \<Rightarrow>
          (case i of
             ASM_OP_MOV \<Rightarrow> form (arg0 op) = Imm64 \<longrightarrow> w = ASM_WORD_64BIT
           | ASM_OP_MOV_WITH_SIGN_EXTENSION \<Rightarrow> v < w
           | ASM_OP_MOV_WITH_ZERO_EXTENSION \<Rightarrow> v < w \<and> (v = ASM_WORD_32BIT \<longrightarrow> form (arg1 op) = Mem)
           | ASM_OP_LEA \<Rightarrow> w \<noteq> ASM_WORD_08BIT
           | ASM_OP_CVT_DOUBLE_TO_INT \<Rightarrow> v = ASM_WORD_64BIT \<and> w \<noteq> ASM_WORD_08BIT
           | ASM_OP_CVT_INT_TO_DOUBLE \<Rightarrow> v \<noteq> ASM_WORD_08BIT
           | ASM_OP_BINARY_MULTIPLY \<Rightarrow> v \<noteq> ASM_WORD_08BIT \<and> w \<noteq> ASM_WORD_08BIT
           | _ \<Rightarrow> True)
      | _ \<Rightarrow> True) \<and>
     (shift_opcode (opcode op) \<longrightarrow> is_immediate (arg0 op) \<longrightarrow> shift_count (arg0 op)))"

definition selected :: "asm_op \<Rightarrow> bool" where
  "selected op =
     (in_rows [selected_forms (opcode op)] op \<and> selected_widths op \<and>
      (opcode op \<noteq> IntOp ASM_OP_LEA \<longrightarrow> regular (arg0 op)) \<and> regular (arg1 op))"

section \<open>The guards of the rewriting, by form\<close>

lemma immediate_form_range:
  "immediate_form n \<in> {Imm32, Imm32_unsigned, Imm64}"
  "- (2 ^ 31) \<le> n \<Longrightarrow> immediate_form n \<in> {Imm32_unsigned, Imm64} \<longleftrightarrow> INT_MAX < n"
  "- (2 ^ 31) \<le> n \<Longrightarrow> immediate_form n = Imm64 \<longleftrightarrow> 2 ^ 32 \<le> n"
  by (auto simp: immediate_form_def INT_MAX_def)

lemma regular_guards:
  assumes "regular a"
  shows "in_memory a = (form a = Mem)" "is_immediate a = (form a \<in> {Imm32, Imm32_unsigned, Imm64})"
    "immediate_above_int a = (form a \<in> {Imm32_unsigned, Imm64})"
    "is_xmm_register a = (form a = Xmm)" "is_register a = (form a \<in> {Gpr, Xmm})"
    "form a = Imm64 \<Longrightarrow> word_type a = ASM_WORD_64BIT"
proof -
  note defs = form_def in_memory_def is_immediate_def immediate_above_int_def is_xmm_register_def
    is_register_def
  have "in_memory a = (form a = Mem) \<and> is_immediate a = (form a \<in> {Imm32, Imm32_unsigned, Imm64}) \<and>
    immediate_above_int a = (form a \<in> {Imm32_unsigned, Imm64}) \<and>
    is_xmm_register a = (form a = Xmm) \<and> is_register a = (form a \<in> {Gpr, Xmm}) \<and>
    (form a = Imm64 \<longrightarrow> word_type a = ASM_WORD_64BIT)"
  proof (cases "operand_type a")
    case (ASM_OPERAND_IMMEDIATE n)
    then have "- (2 ^ 31) \<le> n" "n < 2 ^ 32 \<or> word_type a = ASM_WORD_64BIT"
      using assms by (simp_all add: regular_def)
    then show ?thesis
      using ASM_OPERAND_IMMEDIATE immediate_form_range [of n]
      by (cases "immediate_form n"; simp add: defs)
  qed (use assms in \<open>simp_all add: defs regular_def\<close>)
  then show "in_memory a = (form a = Mem)" "is_immediate a = (form a \<in> {Imm32, Imm32_unsigned, Imm64})"
    "immediate_above_int a = (form a \<in> {Imm32_unsigned, Imm64})"
    "is_xmm_register a = (form a = Xmm)" "is_register a = (form a \<in> {Gpr, Xmm})"
    "form a = Imm64 \<Longrightarrow> word_type a = ASM_WORD_64BIT"
    by blast+
qed

lemma form_fixed [simp]:
  "form (reg_operand w r) = (if xmm r then Xmm else Gpr)" "form zero_operand = Absent"
  by (simp_all add: form_def zero_operand_def)

lemma in_rows_op2 [simp]:
  "in_rows [] (op2 oc a b) = False"
  "in_rows (row # rows) (op2 oc a b) =
     (form a \<in> set (fst row) \<and> form b \<in> set (snd row) \<or> in_rows rows (op2 oc a b))"
  by (auto simp: in_rows_def split_beta)

lemma scratch_not_xmm [simp]:
  "\<not> xmm ASM_REGISTER_R10" "\<not> xmm ASM_REGISTER_R11" "\<not> xmm ASM_REGISTER_CX" "xmm ASM_REGISTER_XMM15"
  by (simp_all add: xmm.simps)

lemma x86_op2:
  "x86_instruction (op2 oc a b) = (in_rows (x86_forms oc) (op2 oc a b) \<and> x86_widths (op2 oc a b))"
  by (simp add: x86_instruction_def)

lemmas x86_defs = x86_op2 x86_forms_def x86_widths_def Let_def

lemma selected_op2:
  assumes "selected (op2 oc a b)"
  shows "form a \<in> set (fst (selected_forms oc))" "form b \<in> set (snd (selected_forms oc))"
    "selected_widths (op2 oc a b)" "regular b" "oc \<noteq> IntOp ASM_OP_LEA \<Longrightarrow> regular a"
  using assms by (auto simp: selected_def)

text \<open>The tables, for the groups of opcodes that share a row.\<close>

lemma arith_tables:
  assumes "arith oc"
  shows "selected_forms oc = ([Gpr, Mem, Imm32, Imm32_unsigned, Imm64], [Gpr, Mem])"
    "x86_forms oc = [([Gpr, Imm32], [Gpr, Mem]), ([Mem], [Gpr])]" "x86_widths (op2 oc a b)"
    "oc \<noteq> IntOp ASM_OP_LEA"
  using assms by (auto simp: arith_def selected_forms_def x86_forms_def x86_widths_def Let_def)

lemma mov_tables:
  "x86_forms MOV = [([Gpr, Imm32], [Gpr, Mem]), ([Mem], [Gpr]), ([Imm32_unsigned, Imm64], [Gpr]),
     ([Xmm], [Gpr, Xmm, Mem]), ([Gpr, Mem], [Xmm])]"
  "x86_widths (op2 MOV a b) = (form a = Imm64 \<longrightarrow> word_type b = ASM_WORD_64BIT)"
  by (simp_all add: x86_forms_def x86_widths_def Let_def)

lemma division_tables:
  assumes "oc \<in> {IntOp ASM_OP_IDIV, IntOp ASM_OP_DIV}"
  shows "selected_forms oc = ([Gpr, Mem, Imm32, Imm32_unsigned, Imm64], [Absent])"
    "x86_forms oc = [([Gpr, Mem], [Absent])]" "x86_widths (op2 oc a b)" "oc \<noteq> IntOp ASM_OP_LEA"
  using assms by (auto simp: selected_forms_def x86_forms_def x86_widths_def Let_def)

lemma shift_tables:
  assumes "shift_opcode oc"
  shows "selected_forms oc = ([Gpr, Mem, Imm32, Imm32_unsigned, Imm64], [Gpr, Mem])"
    "x86_forms oc = [([Gpr, Imm32], [Gpr, Mem])]" "x86_widths (op2 oc a b) = shift_count a"
    "selected_widths (op2 oc a b) = (is_immediate a \<longrightarrow> shift_count a)"
    "oc \<noteq> IntOp ASM_OP_LEA"
  using assms
  by (auto simp: shift_opcode_def selected_forms_def x86_forms_def x86_widths_def selected_widths_def Let_def)

lemma shift_count_forms:
  "shift_count (ecx w)" "is_immediate a \<Longrightarrow> shift_count a \<Longrightarrow> form a = Imm32"
  by (auto simp: shift_count_def form_def immediate_form_def is_immediate_def split: asm_operand_kind.splits)

lemma rewrite_x86:
  assumes "selected (op2 oc a b)"
  shows "\<exists>os. rewrite (op2 oc a b) = Inr os \<and> list_all x86_instruction os"
proof -
  note sel = selected_op2 [OF assms]
  note gb = regular_guards [OF sel(4)]
  note defs = selected_forms_def selected_widths_def Let_def x86_defs
  have ra: "oc \<noteq> IntOp ASM_OP_LEA \<Longrightarrow> regular a" by (rule sel(5))
  show ?thesis
  proof (cases oc rule: opcode_cases)
    case mov
    then have "regular a" using ra by simp
    note g = gb regular_guards [OF this]
    show ?thesis
      by (cases "form a"; cases "form b"; use sel(1-3) in \<open>simp add: mov rewrite_mov defs shift_opcode_def g\<close>)
  next
    case cmp
    then have "regular a" using ra by simp
    note g = gb regular_guards [OF this]
    show ?thesis
      by (cases "form a"; cases "form b"; use sel(1-3) in \<open>simp add: cmp rewrite_cmp defs shift_opcode_def g\<close>)
  next
    case mul
    then have "regular a" using ra by simp
    note g = gb regular_guards [OF this]
    show ?thesis
      by (cases "form a"; cases "form b"; use sel(1-3) in \<open>simp add: mul rewrite_mul defs shift_opcode_def g\<close>)
  next
    case movsx
    then have "regular a" using ra by simp
    note g = gb regular_guards [OF this]
    show ?thesis
      by (cases "form a"; cases "form b"; use sel(1-3) in \<open>simp add: movsx rewrite_movsx defs shift_opcode_def g\<close>)
  next
    case d2i
    then have "regular a" using ra by simp
    note g = gb regular_guards [OF this]
    show ?thesis
      by (cases "form a"; cases "form b"; use sel(1-3) in \<open>simp add: d2i rewrite_cvt_double_to_int defs shift_opcode_def g\<close>)
  next
    case i2d
    then have "regular a" using ra by simp
    note g = gb regular_guards [OF this]
    show ?thesis
      by (cases "form a"; cases "form b"; use sel(1-3) in \<open>simp add: i2d rewrite_cvt_int_to_double defs shift_opcode_def g\<close>)
  next
    case push
    then have "regular a" using ra by simp
    note g = gb regular_guards [OF this]
    show ?thesis
      by (cases "form a"; cases "form b"; use sel(1-3) in \<open>simp add: push rewrite_push defs shift_opcode_def g\<close>)
  next
    case arith
    note t = arith_tables [OF this]
    have "regular a" using ra t(4) by blast
    note g = gb regular_guards [OF this]
    show ?thesis
      by (cases "form a"; cases "form b"; use sel(1-2) in \<open>simp add: arith t rewrite_arith x86_op2 mov_tables g\<close>)
  next
    case div
    note t = division_tables [OF this]
    have "regular a" using ra t(4) by blast
    note g = gb regular_guards [OF this]
    show ?thesis
      by (cases "form a"; use sel(1-2) in \<open>simp add: rewrite_div [OF div] t x86_op2 mov_tables g\<close>)
  next
    case shift
    note t = shift_tables [OF this]
    have "regular a" using ra t(5) by blast
    note g = gb regular_guards [OF this]
    have count: "is_immediate a \<Longrightarrow> shift_count a \<and> form a = Imm32"
      using sel(3) shift_count_forms(2) [of a] by (simp add: t)
    show ?thesis
    proof (cases "is_immediate a")
      case True
      then show ?thesis
        using sel(1,2) count by (auto simp: rewrite_shift [OF shift] t x86_op2)
    next
      case False
      then have "form a = Gpr \<or> form a = Mem" using sel(1) by (auto simp: t g)
      then show ?thesis
        using False sel(2) by (auto simp: rewrite_shift [OF shift] t x86_op2 mov_tables shift_count_forms(1))
    qed
  next
    case movzx
    then have "regular a" using ra by simp
    note g = gb regular_guards [OF this]
    have w: "word_type a < word_type b" "word_type a = ASM_WORD_32BIT \<longrightarrow> \<not> is_register b"
      using sel(2,3) by (auto simp: movzx defs g)
    then have rw: "rewrite (op2 oc a b) = Inr
       (if word_type a = ASM_WORD_32BIT
        then [op2 MOV a (r11 (word_type a)), op2 MOV (r11 (word_type b)) b]
        else if is_immediate a \<or> in_memory b
        then [op2 MOV a (r10 (word_type a)), op2 oc (r10 (word_type a)) (r11 (word_type b)),
              op2 MOV (r11 (word_type b)) b]
        else [op2 oc a b])"
      unfolding movzx by (intro rewrite_movzx) auto
    show ?thesis
      by (cases "word_type a"; cases "form a"; cases "form b"; use sel(1-3) in \<open>simp add: rw [unfolded movzx] movzx defs shift_opcode_def g\<close>)
  next
    case (double d)
    then have "regular a" using ra by simp
    note g = gb regular_guards [OF this]
    show ?thesis
      by (cases "form a"; cases "form b"; use sel(1-3) double(2) in \<open>simp add: double(1) rewrite_double defs shift_opcode_def g\<close>)
  next
    case lea
    then show ?thesis
      by (cases "form b"; use sel(1-3) in \<open>simp add: lea rewrite_lea defs shift_opcode_def gb\<close>)
  next
    case plain
    have "rewrite (op2 oc a b) = Inr [op2 oc a b]" using plain by (rule rewrite_plain)
    moreover have "x86_instruction (op2 oc a b)"
      using sel(1-3) plain unfolding plain_def
      by (cases oc; auto simp: defs split: asm_int_op.splits)
    ultimately show ?thesis by simp
  qed
qed

lemma fixall_x86:
  "list_all selected os \<Longrightarrow> \<exists>xs. fixall fixers os = Inr xs \<and> list_all x86_instruction xs"
proof (induction os)
  case Nil
  have "fixall fxs [] = Inr []" for fxs by (induction fxs) simp_all
  then show ?case by simp
next
  case (Cons op os)
  obtain oc a b where op: "op = op2 oc a b" using op_op2 by blast
  then obtain xs where "rewrite op = Inr xs" "list_all x86_instruction xs"
    using rewrite_x86 [of oc a b] Cons.prems by auto
  then show ?case
    using Cons fixall_Cons [of fixers op xs os] by (fastforce simp: rewrite_def)
qed

end
