(* ===== verification/FixupProps.thy ===== *)
theory FixupProps
  imports Encoding BackProps
begin

text \<open>
  More properties of the rewriting of instructions: what comes out is in the instruction set,
  and the two places where the rewriting goes wrong.
\<close>




text \<open>
  C34. A comparison of two immediates is done in the width of its first operand. When that is
  the narrower one, the rewritten comparison sees only the low bits of the second: the code
  generator makes such a comparison of \<^verbatim>\<open>!256\<close> and of \<^verbatim>\<open>if (256)\<close>, because the zero that it
  compares with counts as a byte.
\<close>
theorem fixup_compare_narrows:
  assumes "wa \<le> wb" and "m \<le> INT_MAX"
  shows "let cmp = op2 (IntOp ASM_OP_COMPARE) \<lparr>word_type = wa, operand_type = ASM_OPERAND_IMMEDIATE m\<rparr>
        \<lparr>word_type = wb, operand_type = ASM_OPERAND_IMMEDIATE n\<rparr>
    in \<exists>f' s' t'. codegen_fixup_all fixers (f\<lparr>ops := [cmp]\<rparr>) = Inr f' \<and>
        exec i cmp s = Some s' \<and> exec_list i (ops f') s = Some t' \<and>
        flags s' = Some (IntOp ASM_OP_COMPARE, wb, trunc wb (of_int m), trunc wb (of_int n)) \<and>
        flags t' = Some (IntOp ASM_OP_COMPARE, wa, trunc wa (of_int m), trunc wa (of_int n))"
proof -
  define a where "a = \<lparr>word_type = wa, operand_type = ASM_OPERAND_IMMEDIATE m\<rparr>"
  define b where "b = \<lparr>word_type = wb, operand_type = ASM_OPERAND_IMMEDIATE n\<rparr>"
  let ?cmp = "op2 (IntOp ASM_OP_COMPARE) a b"
  let ?os = "[op2 MOV b (r11 wb), op2 (IntOp ASM_OP_COMPARE) a (r11 wa)]"
  have kinds: "is_immediate b" "\<not> in_memory a" "\<not> immediate_above_int a" "word_type a = wa"
    "word_type b = wb" "operand_type b \<noteq> ASM_OPERAND_NONE"
    using assms(2) by (simp_all add: a_def b_def is_immediate_def in_memory_def immediate_above_int_def)
  then have fx: "codegen_fixup_all fixers (f\<lparr>ops := [?cmp]\<rparr>) = Inr (f\<lparr>ops := ?os\<rparr>)"
    using rewrite_cmp [of a b] by (simp add: fixup_all_seq rewrite_def)
  have rd: "read_op i w a t = trunc w (of_int m)" "read_op i w b t = trunc w (of_int n)" for w t
    by (simp_all add: a_def b_def read_op_def)
  have "word_bits wa \<le> word_bits wb" using assms(1) by (cases wa; cases wb) (simp_all add: less_eq_asm_word_def)
  then have low: "trunc wa (merge wb old v) = trunc wa v" for old v
    using trunc_merge [of wb old v] trunc_le [of wa wb] by metis
  have "exec i ?cmp s = Some (set_flags (IntOp ASM_OP_COMPARE) wb (trunc wb (of_int m)) (trunc wb (of_int n)) s)"
    by (simp add: exec_def exec_int_def width_op2 kinds rd Let_def)
  moreover have "exec_list i ?os s = Some (set_flags (IntOp ASM_OP_COMPARE) wa (trunc wa (of_int m))
      (trunc wa (of_int n)) (s\<lparr>regs := (regs s)(ASM_REGISTER_R11 :=
        merge wb (regs s ASM_REGISTER_R11) (trunc wb (of_int n)))\<rparr>))"
    by (simp add: exec_mov_reg rd) (simp add: exec_def exec_int_def width_op2 Let_def rd read_reg low)
  ultimately show ?thesis
    using fx by (simp add: Let_def a_def [symmetric] b_def [symmetric] set_flags_def)
qed

text \<open>\<^verbatim>\<open>!256\<close>: a byte of zero against 256; the rewritten comparison finds zero equal to zero.\<close>

lemma fixup_compare_narrows_witness:
  "let cmp = op2 (IntOp ASM_OP_COMPARE) (codegen_set_operand_immediate_zero zero_operand)
        \<lparr>word_type = ASM_WORD_32BIT, operand_type = ASM_OPERAND_IMMEDIATE 256\<rparr>
    in \<exists>f' s' t'. codegen_fixup_all fixers (sample_function\<lparr>ops := [cmp]\<rparr>) = Inr f' \<and>
        exec sample_isa cmp sample_cpu = Some s' \<and> exec_list sample_isa (ops f') sample_cpu = Some t' \<and>
        flags s' = Some (IntOp ASM_OP_COMPARE, ASM_WORD_32BIT, 0, 256) \<and>
        flags t' = Some (IntOp ASM_OP_COMPARE, ASM_WORD_08BIT, 0, 0)"
proof -
  have "trunc ASM_WORD_32BIT 256 = 256" "trunc ASM_WORD_08BIT 256 = 0" "trunc w 0 = 0" for w
    by (simp_all add: trunc_def)
  then show ?thesis
    using fixup_compare_narrows [of ASM_WORD_08BIT ASM_WORD_32BIT 0 256 sample_function sample_isa sample_cpu]
    by (simp add: less_eq_asm_word_def INT_MAX_def codegen_set_operand_immediate_zero_def zero_operand_def)
qed

section \<open>Where the rewriting fails\<close>

lemma fixer_error: "fx \<in> set fixers \<Longrightarrow> fx op = Inl e \<Longrightarrow> e = Abort"
  unfolding fixers_def list.set insert_iff empty_iff
  by (elim disjE FalseE; hypsubst_thin; simp add: fixer_defs assert_that_def Let_def split: if_splits)

lemma fixseq_error: "fx \<in> set fixers \<Longrightarrow> fixseq fx os = Inl e \<Longrightarrow> e = Abort"
  using fixer_error
  by (induction os) (auto simp: fix1_def check_def assert_that_def split: sum.splits option.splits if_splits)

lemma fixall_error: "set fxs \<subseteq> set fixers \<Longrightarrow> fixall fxs os = Inl e \<Longrightarrow> e = Abort"
  by (induction fxs arbitrary: os) (auto simp: check_def dest: fixseq_error split: sum.splits)

lemma fixseq_append_Inr:
  "fixseq fx (xs @ ys) = Inr zs \<Longrightarrow> \<exists>as bs. fixseq fx xs = Inr as \<and> fixseq fx ys = Inr bs \<and> zs = as @ bs"
  by (induction xs arbitrary: zs) (fastforce simp: check_iff)+

lemma fixall_append_Inr:
  "fixall fxs (xs @ ys) = Inr zs \<Longrightarrow> \<exists>as bs. fixall fxs xs = Inr as \<and> fixall fxs ys = Inr bs"
proof (induction fxs arbitrary: xs ys zs)
  case (Cons fx fxs)
  then obtain ms where ms: "fixseq fx (xs @ ys) = Inr ms" "fixall fxs ms = Inr zs" by (auto simp: check_iff)
  then obtain as bs where "fixseq fx xs = Inr as" "fixseq fx ys = Inr bs" "ms = as @ bs"
    using fixseq_append_Inr by blast
  then show ?case using Cons.IH [of as bs zs] ms(2) by simp
qed simp

lemma fixall_member:
  assumes "fixall fxs os = Inr zs" "op \<in> set os"
  shows "\<exists>xs. fixall fxs [op] = Inr xs"
proof -
  obtain pre post where "os = (pre @ [op]) @ post" using assms(2) by (auto simp: in_set_conv_decomp)
  then obtain as where "fixall fxs (pre @ [op]) = Inr as"
    using assms(1) fixall_append_Inr [of fxs "pre @ [op]" post zs] by blast
  then show ?thesis using fixall_append_Inr [of fxs pre "[op]"] by blast
qed

text \<open>
  C35. One 32-bit zero extension into a register, anywhere in a function and from any source,
  makes the rewriting fail an assertion: \<^verbatim>\<open>fix_movzx_32bit\<close> turns it into a single move, which
  the comment above it calls the simple case, and \<^verbatim>\<open>codegen_fixup_apply\<close> asserts that what
  takes the place of an instruction has two instructions or more.
\<close>
theorem fixup_movzx_register_aborts:
  assumes "op \<in> set (ops f)" and "opcode op = IntOp ASM_OP_MOV_WITH_ZERO_EXTENSION"
    and "word_type (arg0 op) = ASM_WORD_32BIT" and "is_register (arg1 op)"
  shows "codegen_fixup_all fixers f = Inl Abort"
proof -
  obtain a b where op: "op = op2 (IntOp ASM_OP_MOV_WITH_ZERO_EXTENSION) a b"
    using op_op2 assms(2) by (metis op2_simps(1))
  then have "fixall fixers [op] = Inl Abort"
    using rewrite_movzx_register [of a b] assms(3,4) by (simp add: rewrite_def)
  then have "\<nexists>zs. fixall fixers (ops f) = Inr zs" using fixall_member assms(1) by fastforce
  then obtain e where "fixall fixers (ops f) = Inl e" by (metis sum.exhaust)
  then show ?thesis using fixall_error [of fixers "ops f" e] by (simp add: fixup_all_seq)
qed

lemma fixup_movzx_register_aborts_witness:
  "codegen_fixup_all fixers
     (sample_body\<lparr>ops := ops sample_body @
        [op2 (IntOp ASM_OP_MOV_WITH_ZERO_EXTENSION) (stack_operand (-16)) OPERAND_RAX_64BIT]\<rparr>) = Inl Abort"
  by (rule fixup_movzx_register_aborts
      [of "op2 (IntOp ASM_OP_MOV_WITH_ZERO_EXTENSION) (stack_operand (-16)) OPERAND_RAX_64BIT"])
    (simp_all add: stack_operand_def OPERAND_RAX_64BIT_def is_register_def)

end
