(* ===== verification/Ast.thy ===== *)
theory Ast
  imports Symbols Lex
begin

text \<open>
  \<^verbatim>\<open>src/passes/parse.h\<close> (the syntax tree) and \<^verbatim>\<open>parse/token.c\<close> (the parser's view of the
  tokens).

  \<^verbatim>\<open>struct ast\<close> is a tagged union; \<open>ast\<close> has a constructor for every shape of the union and
  the node types that share a shape share a constructor: the unary operators (\<open>unary_node\<close>)
  and the binary ones (\<open>binary_node\<close>). The last argument of an expression node is its
  \<^verbatim>\<open>expr_type\<close>, which is zero (\<open>ctype_zero\<close>) until a later pass sets it. A
  \<^verbatim>\<open>struct flat\<close> is a list, a pointer that may be null an option.

  The source's tree shares a node in one place: the expansion of \<^verbatim>\<open>a += b\<close> to \<^verbatim>\<open>a = a + b\<close>
  refers to the node of \<open>a\<close> twice, which \<^verbatim>\<open>kludge.compound_assignment_twin\<close> marks. The second
  reference is \<open>NODE_SHARED a\<close>. Only \<^verbatim>\<open>sema.c\<close> makes it, and \<^verbatim>\<open>label_cases\<close> is empty before.

  A \<^verbatim>\<open>const struct token *\<close> that walks over the tokens is the list of the tokens from there on.
\<close>

datatype ast_specifier = SPECIFIER_NONE | SPECIFIER_STATIC | SPECIFIER_EXTERN

text \<open>A symbol that is not resolved yet has the ID \<open>NOT_YET_UNIQUE\<close>, or 0 for a declaration.\<close>

definition NOT_YET_UNIQUE :: int where "NOT_YET_UNIQUE = -1"
definition UNSET_LOOP_ID :: int where "UNSET_LOOP_ID = -1"
definition UNSET_LABEL_ID :: int where "UNSET_LABEL_ID = -2"
definition UNSET_SWITCH_ID :: int where "UNSET_SWITCH_ID = -3"

lemmas unset_defs = NOT_YET_UNIQUE_def UNSET_LOOP_ID_def UNSET_LABEL_ID_def UNSET_SWITCH_ID_def

record ast_symbol =
  as_name :: string
  as_unique :: int
  as_stype :: symbol_type
  as_ltype :: symbol_linkage

record ast_parameter =
  p_symbol :: ast_symbol
  parameter_type :: ctype

datatype prefix_op =
    EXPRESSION_UNARY_COMPLEMENT
  | EXPRESSION_UNARY_NEGATE
  | EXPRESSION_UNARY_NOT
  | EXPRESSION_UNARY_DEREFERENCE
  | EXPRESSION_UNARY_ADDRESS_OF
  | EXPRESSION_UNARY_SIZE_OF
  | EXPRESSION_PREDECREMENT
  | EXPRESSION_PREINCREMENT

datatype infix_binary =
    EXPRESSION_BINARY_ADD
  | EXPRESSION_BINARY_SUBTRACT
  | EXPRESSION_BINARY_MULTIPLY
  | EXPRESSION_BINARY_DIVIDE
  | EXPRESSION_BINARY_REMAINDER
  | EXPRESSION_BITWISE_AND
  | EXPRESSION_BITWISE_OR
  | EXPRESSION_BITWISE_XOR
  | EXPRESSION_BITWISE_SHIFT_LEFT
  | EXPRESSION_BITWISE_SHIFT_RIGHT
  | EXPRESSION_LOGICAL_AND
  | EXPRESSION_LOGICAL_OR
  | EXPRESSION_VARIABLE_ASSIGNMENT
  | EXPRESSION_COMPARE_EQUAL
  | EXPRESSION_COMPARE_NOT_EQUAL
  | EXPRESSION_COMPARE_LESS_THAN
  | EXPRESSION_COMPARE_LESS_THAN_EQ
  | EXPRESSION_COMPARE_MORE_THAN
  | EXPRESSION_COMPARE_MORE_THAN_EQ

datatype infix_compound =
    EXPRESSION_COMPOUND_ASSIGN_ADD
  | EXPRESSION_COMPOUND_ASSIGN_SUB
  | EXPRESSION_COMPOUND_ASSIGN_MUL
  | EXPRESSION_COMPOUND_ASSIGN_DIV
  | EXPRESSION_COMPOUND_ASSIGN_REM
  | EXPRESSION_COMPOUND_ASSIGN_AND
  | EXPRESSION_COMPOUND_ASSIGN_OR
  | EXPRESSION_COMPOUND_ASSIGN_XOR
  | EXPRESSION_COMPOUND_ASSIGN_SL
  | EXPRESSION_COMPOUND_ASSIGN_SR

datatype infix_op =
    Binary infix_binary
  | Compound infix_compound
  | EXPRESSION_TERNARY_CONDITIONAL

datatype unary_node =
    Prefix prefix_op
  | EXPRESSION_PAREN_ENCLOSED
  | EXPRESSION_POSTDECREMENT
  | EXPRESSION_POSTINCREMENT

datatype binary_node =
    Infix_binary infix_binary
  | Infix_compound infix_compound
  | EXPRESSION_SUBSCRIPT

text \<open>The tables of the prefix and of the infix operators, in the order of the source.\<close>

definition FOREACH_AST_NODE_EXPRESSION_PREFIX_OP :: "(lex_tokentype \<times> prefix_op) list" where
  "FOREACH_AST_NODE_EXPRESSION_PREFIX_OP = [
     (Char TOKEN_TILDE, EXPRESSION_UNARY_COMPLEMENT),
     (Char TOKEN_HYPHEN, EXPRESSION_UNARY_NEGATE),
     (Char TOKEN_EXCLAMATION, EXPRESSION_UNARY_NOT),
     (Char TOKEN_ASTERISK, EXPRESSION_UNARY_DEREFERENCE),
     (Char TOKEN_AMPERSAND, EXPRESSION_UNARY_ADDRESS_OF),
     (Keyword TOKEN_KEYWORD_SIZEOF, EXPRESSION_UNARY_SIZE_OF),
     (Multi TOKEN_HYPHEN_HYPHEN, EXPRESSION_PREDECREMENT),
     (Multi TOKEN_PLUS_SIGN_PLUS_SIGN, EXPRESSION_PREINCREMENT)]"

definition FOREACH_AST_NODE_EXPRESSION_INFIX_OP :: "(lex_tokentype \<times> infix_op) list" where
  "FOREACH_AST_NODE_EXPRESSION_INFIX_OP = [
     (Char TOKEN_PLUS_SIGN, Binary EXPRESSION_BINARY_ADD),
     (Char TOKEN_HYPHEN, Binary EXPRESSION_BINARY_SUBTRACT),
     (Char TOKEN_ASTERISK, Binary EXPRESSION_BINARY_MULTIPLY),
     (Char TOKEN_FORWARD_SLASH, Binary EXPRESSION_BINARY_DIVIDE),
     (Char TOKEN_PERCENT_SIGN, Binary EXPRESSION_BINARY_REMAINDER),
     (Char TOKEN_AMPERSAND, Binary EXPRESSION_BITWISE_AND),
     (Char TOKEN_VERT_BAR, Binary EXPRESSION_BITWISE_OR),
     (Char TOKEN_CARET, Binary EXPRESSION_BITWISE_XOR),
     (Multi TOKEN_LESS_THAN_LESS_THAN, Binary EXPRESSION_BITWISE_SHIFT_LEFT),
     (Multi TOKEN_MORE_THAN_MORE_THAN, Binary EXPRESSION_BITWISE_SHIFT_RIGHT),
     (Multi TOKEN_AMPERSAND_AMPERSAND, Binary EXPRESSION_LOGICAL_AND),
     (Multi TOKEN_VERT_BAR_VERT_BAR, Binary EXPRESSION_LOGICAL_OR),
     (Char TOKEN_EQUAL_SIGN, Binary EXPRESSION_VARIABLE_ASSIGNMENT),
     (Multi TOKEN_EQUAL_SIGN_EQUAL_SIGN, Binary EXPRESSION_COMPARE_EQUAL),
     (Multi TOKEN_EXCLAMATION_EQUAL_SIGN, Binary EXPRESSION_COMPARE_NOT_EQUAL),
     (Char TOKEN_LESS_THAN, Binary EXPRESSION_COMPARE_LESS_THAN),
     (Multi TOKEN_LESS_THAN_EQUAL_SIGN, Binary EXPRESSION_COMPARE_LESS_THAN_EQ),
     (Char TOKEN_MORE_THAN, Binary EXPRESSION_COMPARE_MORE_THAN),
     (Multi TOKEN_MORE_THAN_EQUAL_SIGN, Binary EXPRESSION_COMPARE_MORE_THAN_EQ),
     (Multi TOKEN_PLUS_SIGN_EQUAL_SIGN, Compound EXPRESSION_COMPOUND_ASSIGN_ADD),
     (Multi TOKEN_HYPHEN_EQUAL_SIGN, Compound EXPRESSION_COMPOUND_ASSIGN_SUB),
     (Multi TOKEN_ASTERISK_EQUAL_SIGN, Compound EXPRESSION_COMPOUND_ASSIGN_MUL),
     (Multi TOKEN_FORWARD_SLASH_EQUAL_SIGN, Compound EXPRESSION_COMPOUND_ASSIGN_DIV),
     (Multi TOKEN_PERCENT_SIGN_EQUAL_SIGN, Compound EXPRESSION_COMPOUND_ASSIGN_REM),
     (Multi TOKEN_AMPERSAND_EQUAL_SIGN, Compound EXPRESSION_COMPOUND_ASSIGN_AND),
     (Multi TOKEN_VERT_BAR_EQUAL_SIGN, Compound EXPRESSION_COMPOUND_ASSIGN_OR),
     (Multi TOKEN_CARET_EQUAL_SIGN, Compound EXPRESSION_COMPOUND_ASSIGN_XOR),
     (Multi TOKEN_LESS_THAN_LESS_THAN_EQUAL_SIGN, Compound EXPRESSION_COMPOUND_ASSIGN_SL),
     (Multi TOKEN_MORE_THAN_MORE_THAN_EQUAL_SIGN, Compound EXPRESSION_COMPOUND_ASSIGN_SR),
     (Char TOKEN_QUESTION, EXPRESSION_TERNARY_CONDITIONAL)]"

text \<open>
  The value of a \<^verbatim>\<open>NODE_CONSTANT\<close>: \<^verbatim>\<open>u.num\<close>, or \<^verbatim>\<open>u.double_\<close> when its type is
  \<^verbatim>\<open>CTYPE_DOUBLE\<close>. \<open>u.num\<close> is a 128-bit integer, so it holds every 64-bit value as it is.
\<close>

datatype constant_value = Num int | Dbl double

datatype ast =
    NODE_FUNCTION (fn_identifier: ast_symbol) (fn_specifier: ast_specifier)
      (return_type: ctype) (fn_params: "ast_parameter list") (fn_block: "ast option")
  | NODE_FUNCTION_RETURN_STATEMENT ast
  | NODE_BLOCK (statements: "ast list")
  | NODE_DECLARATION (d_identifier: ast_symbol) (d_specifier: ast_specifier) (var_type: ctype)
      (d_init: "ast option") ctype
  | NODE_IF_ELSE (condition: ast) (then_clause: "ast list") (else_clause: "ast list")
  | NODE_LOOP (precond: ast) (body: "ast list") (incr: ast) (postcond: ast)
      (loop_label_end: int) (label_continue: int) (label_start: int)
  | NODE_BREAK int
  | NODE_CONTINUE int
  | NODE_GOTO string int
  | NODE_LABEL string int
  | NODE_SWITCH (control: ast) (switch_body: "ast list") (label_default: int) (switch_label_end: int)
      (label_cases: "ast list")
  | NODE_CASE ast int
  | NODE_CASE_DEFAULT int
  | NODE_CONSTANT constant_value ctype
  | NODE_CONSTANT_STR string ctype
  | NODE_EXPRESSION_NULL ctype
  | NODE_EXPRESSION_INITIALIZER (single: "ast option") (multi: "ast list") ctype
  | Op_unary unary_node (operand: ast) ctype
  | Op_binary binary_node (lhs: ast) (rhs: ast) ctype
  | Op_ternary ast ast ast ctype
  | NODE_EXPRESSION_VARIABLE_USAGE ast_symbol ctype
  | NODE_EXPRESSION_FUNCTION_CALL ast_symbol (call_arguments: "ast list") ctype
  | NODE_EXPRESSION_CAST ctype ast ctype
  | NODE_SHARED ast

text \<open>\<^verbatim>\<open>NODE_PROGRAM\<close> is only ever the root of the tree.\<close>

datatype program = NODE_PROGRAM (globals: "ast list")

definition ast_symbol_zero :: ast_symbol where
  "ast_symbol_zero = \<lparr>as_name = [], as_unique = 0, as_stype = SYMBOL_VARIABLE,
     as_ltype = SYMBOL_LINKAGE_NONE\<rparr>"

definition ast_symbol_unresolved :: "string \<Rightarrow> ast_symbol" where
  "ast_symbol_unresolved name = ast_symbol_zero\<lparr>as_name := name, as_unique := NOT_YET_UNIQUE\<rparr>"

definition parse_alloc_null_expr :: ast where
  "parse_alloc_null_expr = NODE_EXPRESSION_NULL (CTYPE_VOID False)"

section \<open>Tokens\<close>

definition token_consume :: "token list \<Rightarrow> token list result" where
  "token_consume tok = (case tok of [] \<Rightarrow> Inl Abort | _ # next \<Rightarrow> Inr next)"

definition is_token_type :: "token list \<Rightarrow> lex_tokentype \<Rightarrow> bool" where
  "is_token_type tok expected = (case tok of [] \<Rightarrow> False | t # _ \<Rightarrow> token_type t = expected)"

definition is_token_variable_type :: "token list \<Rightarrow> bool" where
  "is_token_variable_type tok =
     (case tok of
        [] \<Rightarrow> False
      | t # _ \<Rightarrow>
          (case token_type t of
             Keyword TOKEN_KEYWORD_VOID \<Rightarrow> True
           | Keyword TOKEN_KEYWORD_CHAR \<Rightarrow> True
           | Keyword TOKEN_KEYWORD_INT \<Rightarrow> True
           | Keyword TOKEN_KEYWORD_LONG \<Rightarrow> True
           | Keyword TOKEN_KEYWORD_SIGNED \<Rightarrow> True
           | Keyword TOKEN_KEYWORD_UNSIGNED \<Rightarrow> True
           | Keyword TOKEN_KEYWORD_DOUBLE \<Rightarrow> True
           | _ \<Rightarrow> False))"

definition is_token_maybe_function_prefix :: "token list \<Rightarrow> bool" where
  "is_token_maybe_function_prefix tok =
     (is_token_variable_type tok \<or> is_token_type tok (Keyword TOKEN_KEYWORD_STATIC) \<or>
      is_token_type tok (Keyword TOKEN_KEYWORD_EXTERN))"

text \<open>
  \<open>expect tok t e k\<close> is the parser's idiom \<^verbatim>\<open>if (!is_token_type(*tok, t)) return make_result(e);
  token_consume(tok);\<close> followed by \<open>k\<close>.
\<close>

definition expect ::
  "token list \<Rightarrow> lex_tokentype \<Rightarrow> err \<Rightarrow> (token list \<Rightarrow> 'a result) \<Rightarrow> 'a result" where
  "expect tok t e k =
     (if \<not> is_token_type tok t then make_result_t e else check (token_consume tok) k)"

text \<open>The budget of a loop that consumes at least one token in each round.\<close>

definition budget :: "token list \<Rightarrow> nat" where "budget tok = length tok + 1"

lemma length_less_budget [simp]: "length tok < budget tok"
  by (simp add: budget_def)

lemma is_token_type_simps [simp]:
  "\<not> is_token_type [] t"
  "is_token_type (x # xs) t = (token_type x = t)"
  by (simp_all add: is_token_type_def)

lemma token_consume_simps [simp]:
  "token_consume [] = Inl Abort"
  "token_consume (x # xs) = Inr xs"
  by (simp_all add: token_consume_def)

lemma is_token_variable_type_Nil [simp]: "\<not> is_token_variable_type []"
  by (simp add: is_token_variable_type_def)

lemma is_token_prefix_Nil [simp]: "\<not> is_token_maybe_function_prefix []"
  by (simp add: is_token_maybe_function_prefix_def)

lemma token_consume_Inr [check_iff]: "token_consume tok = Inr r \<longleftrightarrow> (\<exists>x. tok = x # r)"
  by (cases tok) auto

lemma token_consume_not_NoFuel [simp]: "token_consume tok \<noteq> Inl NoFuel"
  by (cases tok) auto

lemma expect_Inr [check_iff]:
  "expect tok t e k = Inr y \<longleftrightarrow> (\<exists>x r. tok = x # r \<and> token_type x = t \<and> k r = Inr y)"
  by (cases tok) (auto simp: expect_def)

lemma expect_simps [simp]:
  "expect [] t e k = make_result_t e"
  "expect (x # xs) t e k = (if token_type x = t then k xs else make_result_t e)"
  by (simp_all add: expect_def)

lemma expect_cong [fundef_cong]:
  "tok = tok' \<Longrightarrow> t = t' \<Longrightarrow> e = e' \<Longrightarrow>
   (\<And>x r. tok' = x # r \<Longrightarrow> token_type x = t' \<Longrightarrow> k r = k' r) \<Longrightarrow>
   expect tok t e k = expect tok' t' e' k'"
  by (cases tok') auto

end
