(* ===== verification/Constant.thy ===== *)
theory Constant
  imports Ast
begin

text \<open>
  \<^verbatim>\<open>src/passes/parse/constant.c\<close>: numeric and character constants.

  \<^verbatim>\<open>strtoull()\<close> and \<^verbatim>\<open>strtod()\<close> read from the first character of the token up to the first
  character that cannot belong to the number. The character behind a constant token is
  a space, the end of the file or one of the single-character tokens (\<^verbatim>\<open>lex_peek_ok()\<close>), so
  both stop inside the token and the model reads the token's own text. A token of the lexer
  starts with a digit or a point, so the leading blanks and signs that the two functions
  would skip are not modelled.
\<close>

definition can_parse_constant :: "token list \<Rightarrow> bool" where
  "can_parse_constant tok =
     (is_token_type tok TOKEN_CONSTANT \<or> is_token_type tok TOKEN_CONSTANT_CHAR)"

definition is_constant_maybe_double :: "string \<Rightarrow> bool" where
  "is_constant_maybe_double txt =
     (CHR ''.'' \<in> set txt \<or> CHR ''E'' \<in> set txt \<or> CHR ''e'' \<in> set txt)"

section \<open>\<^verbatim>\<open>strtoull\<close> and \<^verbatim>\<open>strtod\<close>\<close>

definition ERANGE :: int where "ERANGE = 34"

definition digit_in_base :: "nat \<Rightarrow> char \<Rightarrow> nat option" where
  "digit_in_base base c =
     (let d = (if isdigit c then code c - 48
               else if isalpha c then code (toupper c) - 55 else base)
      in if d < base then Some d else None)"

fun digits_value :: "nat \<Rightarrow> nat \<Rightarrow> string \<Rightarrow> nat" where
  "digits_value base acc [] = acc"
| "digits_value base acc (c # s) =
     (case digit_in_base base c of None \<Rightarrow> acc | Some d \<Rightarrow> digits_value base (base * acc + d) s)"

text \<open>The value and the \<^verbatim>\<open>errno\<close> of \<^verbatim>\<open>strtoull(s, NULL, 0)\<close>.\<close>

definition strtoull_value :: "string \<Rightarrow> nat" where
  "strtoull_value s =
     (case s of
        z # x # d # s' \<Rightarrow>
          (if z = CHR ''0'' \<and> toupper x = CHR ''X'' \<and> digit_in_base 16 d \<noteq> None
           then digits_value 16 0 (d # s')
           else if z = CHR ''0'' then digits_value 8 0 s
           else digits_value 10 0 s)
      | z # s' \<Rightarrow> (if z = CHR ''0'' then digits_value 8 0 s else digits_value 10 0 s)
      | [] \<Rightarrow> 0)"

definition strtoull :: "string \<Rightarrow> int \<times> int" where
  "strtoull s =
     (let v = int (strtoull_value s)
      in if v > ULLONG_MAX then (ULLONG_MAX, ERANGE) else (v, 0))"

fun log2_floor :: "nat \<Rightarrow> nat" where
  "log2_floor n = (if n < 2 then 0 else Suc (log2_floor (n div 2)))"

declare log2_floor.simps [simp del]

text \<open>
  The double nearest to \<open>num / den\<close>, ties to even, as its 64 bits. \<open>scale\<close> is the power of
  two that brings the quotient to 53 bits, not above the smallest one a subnormal has;
  rounding up to the next power of two carries into the exponent field.
\<close>

definition double_of_ratio :: "nat \<Rightarrow> nat \<Rightarrow> double" where
  "double_of_ratio num den =
     (if num = 0 then 0
      else
        let quotient = (\<lambda>scale::int.
              if scale \<ge> 0 then (num * 2 ^ nat scale, den) else (num, den * 2 ^ nat (- scale)));
            guess = 52 - (int (log2_floor num) - int (log2_floor den));
            (n0, d0) = quotient guess;
            scale = min 1074 (if n0 div d0 < 2 ^ 52 then guess + 1 else guess);
            (n, d) = quotient scale;
            q = n div d;
            r = n mod d;
            rounded = (if 2 * r > d \<or> (2 * r = d \<and> odd q) then q + 1 else q);
            bits = (if q < 2 ^ 52 then int rounded
                    else (1074 - scale) * 2 ^ 52 + int rounded)
        in if bits \<ge> 0x7FF0000000000000 then 0x7FF0000000000000 else word_of_int bits)"

text \<open>
  The longest prefix of the form digits, point, digits, exponent, of which only the digits
  are required; a text without them is 0.
\<close>

definition strtod_exponent :: "string \<Rightarrow> int" where
  "strtod_exponent s =
     (case s of
        [] \<Rightarrow> 0
      | e # s1 \<Rightarrow>
          (if toupper e \<noteq> CHR ''E'' then 0
           else
             let (sign, s2) = (case s1 of
                   c # s' \<Rightarrow> (if c = CHR ''-'' then (-1, s') else if c = CHR ''+'' then (1, s') else (1, s1))
                 | [] \<Rightarrow> (1, []))
             in sign * int (decimal_value (takeWhile isdigit s2))))"

definition strtod :: "string \<Rightarrow> double" where
  "strtod s =
     (let whole = takeWhile isdigit s;
          s1 = dropWhile isdigit s;
          (fraction, s2) = (case s1 of
              c # s' \<Rightarrow> (if c = CHR ''.'' then (takeWhile isdigit s', dropWhile isdigit s')
                         else ([], s1))
            | [] \<Rightarrow> ([], []));
          digits = decimal_value (whole @ fraction);
          exponent = strtod_exponent s2 - int (length fraction)
      in if whole @ fraction = [] then 0
         else if exponent \<ge> 0 then double_of_ratio (digits * 10 ^ nat exponent) 1
         else double_of_ratio digits (10 ^ nat (- exponent)))"

section \<open>The constant of a token\<close>

text \<open>The loop over the last two characters of the token, which may be suffixes.\<close>

definition suffix_char :: "string \<Rightarrow> nat \<Rightarrow> char option" where
  "suffix_char txt i = (if i > 0 \<and> length txt \<ge> i then Some (toupper (txt ! (length txt - i))) else None)"

definition has_suffix :: "string \<Rightarrow> char \<Rightarrow> bool" where
  "has_suffix txt c =
     (suffix_char txt 2 = Some c \<or> suffix_char txt 1 = Some c)"

definition parse_constant_integer :: "string \<Rightarrow> ast result" where
  "parse_constant_integer txt =
     (let (tmp, errno) = strtoull txt
      in if errno \<noteq> 0
         then make_result_tiss (Parse ERR_PARSE_CONSTANT_STRTOULL) errno txt
         else
           let suffix_long = has_suffix txt (CHR ''L'');
               suffix_unsigned = has_suffix txt (CHR ''U'');
               maybe_null = (tmp = 0);
               constant = (\<lambda>t too_large.
                 if too_large then make_result_tss (Parse ERR_PARSE_CONSTANT_TOO_LARGE) txt
                 else Inr (NODE_CONSTANT (Num tmp) (t maybe_null)))
           in if suffix_unsigned \<and> (tmp > UINT_MAX \<or> suffix_long)
              then constant CTYPE_UNSIGNED_LONG (tmp > ULLONG_MAX)
              else if suffix_unsigned
              then assert_that (tmp \<le> UINT_MAX) (constant CTYPE_UNSIGNED_INT False)
              else if tmp > INT_MAX \<or> suffix_long
              then constant CTYPE_LONG (tmp > LLONG_MAX)
              else assert_that (tmp \<le> INT_MAX) (constant CTYPE_INT False))"

definition parse_constant :: "token list \<Rightarrow> (token list \<times> ast) result" where
  "parse_constant tok =
     (case tok of
        [] \<Rightarrow> Inl Abort
      | t # next \<Rightarrow>
          if token_type t = TOKEN_CONSTANT_CHAR then
            (case val t of
               [c] \<Rightarrow> Inr (next, NODE_CONSTANT (Num (char_value c)) (CTYPE_INT False))
             | _ \<Rightarrow> Inl Abort)
          else
            assert_that (token_type t = TOKEN_CONSTANT)
              (if is_constant_maybe_double (val t)
               then Inr (next, NODE_CONSTANT (Dbl (strtod (val t))) (CTYPE_DOUBLE False))
               else check (parse_constant_integer (val t)) (\<lambda>a. Inr (next, a))))"

section \<open>Facts\<close>

lemma can_parse_constant_Nil [simp]: "\<not> can_parse_constant []"
  by (simp add: can_parse_constant_def)

lemma parse_constant_rest: "parse_constant tok = Inr (r, a) \<Longrightarrow> \<exists>t. tok = t # r"
  by (auto simp: parse_constant_def check_iff split: list.splits if_splits)

lemma parse_constant_not_NoFuel [simp]: "parse_constant tok \<noteq> Inl NoFuel"
  by (auto simp: parse_constant_def parse_constant_integer_def check_iff Let_def split_beta
      split: list.splits if_splits)

end
