(* ===== verification/Declarator.thy ===== *)
theory Declarator
  imports Constant
begin

text \<open>
  \<^verbatim>\<open>src/passes/parse/declaration.c\<close>, first half: basic types, specifiers, declarators and
  parameter lists, up to \<^verbatim>\<open>parse_type()\<close> and \<^verbatim>\<open>parse_specifiers_and_type()\<close>. No expression is
  parsed here (an array size is a constant), so these routines call only each other.

  A declarator such as \<^verbatim>\<open>(*x[3])[4]\<close> is first cut into groups of tokens, one per level of
  parentheses, with the innermost group last (\<open>token_group\<close>), and then read from the
  outermost group to the innermost. The fragments of a type that it collects are lists of
  \<open>ctype_layer\<close>, because in the source they are types whose innermost referent is null.
\<close>

section \<open>Basic types and specifiers\<close>

record parse_basic_type_state =
  n_void :: nat
  n_char :: nat
  n_int :: nat
  n_long :: nat
  n_signed :: nat
  n_unsigned :: nat
  n_double :: nat

definition basic_type_state_zero :: parse_basic_type_state where
  "basic_type_state_zero = \<lparr>n_void = 0, n_char = 0, n_int = 0, n_long = 0, n_signed = 0,
     n_unsigned = 0, n_double = 0\<rparr>"

definition parse_basic_type_accumulate ::
  "token list \<Rightarrow> parse_basic_type_state \<Rightarrow> parse_basic_type_state result" where
  "parse_basic_type_accumulate tok state =
     (if \<not> is_token_variable_type tok then Inr state
      else case token_type (hd tok) of
        Keyword TOKEN_KEYWORD_VOID \<Rightarrow> Inr (state\<lparr>n_void := n_void state + 1\<rparr>)
      | Keyword TOKEN_KEYWORD_CHAR \<Rightarrow> Inr (state\<lparr>n_char := n_char state + 1\<rparr>)
      | Keyword TOKEN_KEYWORD_INT \<Rightarrow> Inr (state\<lparr>n_int := n_int state + 1\<rparr>)
      | Keyword TOKEN_KEYWORD_LONG \<Rightarrow> Inr (state\<lparr>n_long := n_long state + 1\<rparr>)
      | Keyword TOKEN_KEYWORD_SIGNED \<Rightarrow> Inr (state\<lparr>n_signed := n_signed state + 1\<rparr>)
      | Keyword TOKEN_KEYWORD_UNSIGNED \<Rightarrow> Inr (state\<lparr>n_unsigned := n_unsigned state + 1\<rparr>)
      | Keyword TOKEN_KEYWORD_DOUBLE \<Rightarrow> Inr (state\<lparr>n_double := n_double state + 1\<rparr>)
      | _ \<Rightarrow> Inl Abort)"

definition parse_basic_type_finalize :: "parse_basic_type_state \<Rightarrow> ctype result" where
  "parse_basic_type_finalize state =
     (if n_void state > 1 \<or> n_char state > 1 \<or> n_int state > 1 \<or> n_long state > 1 \<or>
         n_signed state > 1 \<or> n_unsigned state > 1 \<or> n_double state > 1 \<or>
         (n_signed state > 0 \<and> n_unsigned state > 0)
      then make_result_t (Parse_decl ERR_PARSE_DECL_TYPE_DUPLICATE)
      else if n_void state + n_char state + n_int state + n_long state + n_signed state +
              n_unsigned state + n_double state = 0
      then make_result_t (Parse_decl ERR_PARSE_DECL_EXPECT_TYPE)
      else if n_void state > 0 then
        (if n_char state + n_int state + n_long state + n_signed state + n_unsigned state +
            n_double state > 0
         then make_result_t (Parse_decl ERR_PARSE_DECL_TYPE_VOID_INVALID)
         else Inr (CTYPE_VOID False))
      else if n_double state > 0 then
        (if n_char state + n_int state + n_long state + n_signed state + n_unsigned state > 0
         then make_result_t (Parse_decl ERR_PARSE_DECL_TYPE_DOUBLE_INVALID)
         else Inr (CTYPE_DOUBLE False))
      else if n_char state > 0 then
        (if n_int state > 0 \<or> n_long state > 0
         then make_result_t (Parse_decl ERR_PARSE_DECL_TYPE_CHAR_INVALID)
         else if n_unsigned state > 0 then Inr (CTYPE_UNSIGNED_CHAR False)
         else if n_signed state > 0 then Inr (CTYPE_SIGNED_CHAR False)
         else Inr (CTYPE_CHAR False))
      else if n_long state = 1 then
        (if n_unsigned state > 0 then Inr (CTYPE_UNSIGNED_LONG False)
         else Inr (CTYPE_LONG False))
      else if n_long state = 0 then
        (if n_unsigned state > 0 then Inr (CTYPE_UNSIGNED_INT False)
         else assert_that (n_int state = 1 \<or> n_signed state = 1) (Inr (CTYPE_INT False)))
      else Inl Abort)"

text \<open>The loop of \<^verbatim>\<open>parse_specifiers()\<close>; \<open>count\<close> is \<^verbatim>\<open>specifier_count\<close>.\<close>

fun parse_specifiers_loop ::
  "token list \<Rightarrow> ast_specifier \<Rightarrow> parse_basic_type_state \<Rightarrow> nat \<Rightarrow>
    (token list \<times> ast_specifier \<times> parse_basic_type_state \<times> nat) result" where
  "parse_specifiers_loop [] dst state count = Inr ([], dst, state, count)"
| "parse_specifiers_loop (t # tok) dst state count =
     (if \<not> is_token_maybe_function_prefix (t # tok) then Inr (t # tok, dst, state, count)
      else if is_token_variable_type (t # tok) then
        check (parse_basic_type_accumulate (t # tok) state) (\<lambda>state.
        parse_specifiers_loop tok dst state count)
      else if token_type t = Keyword TOKEN_KEYWORD_STATIC then
        parse_specifiers_loop tok SPECIFIER_STATIC state (count + 1)
      else if token_type t = Keyword TOKEN_KEYWORD_EXTERN then
        parse_specifiers_loop tok SPECIFIER_EXTERN state (count + 1)
      else Inl Abort)"

definition parse_specifiers :: "token list \<Rightarrow> (token list \<times> ast_specifier \<times> ctype) result" where
  "parse_specifiers tok =
     check (parse_specifiers_loop tok SPECIFIER_NONE basic_type_state_zero 0)
       (\<lambda>(tok, dst, state, specifier_count).
     if specifier_count > 1 then make_result_t (Parse_decl ERR_PARSE_DECL_SPECIFIER_DUPLICATE)
     else check (parse_basic_type_finalize state) (\<lambda>var_type. Inr (tok, dst, var_type)))"

text \<open>The loop at the start of \<^verbatim>\<open>parse_type()\<close>.\<close>

fun parse_type_basic ::
  "token list \<Rightarrow> parse_basic_type_state \<Rightarrow> (token list \<times> parse_basic_type_state) result" where
  "parse_type_basic [] state = Inr ([], state)"
| "parse_type_basic (t # tok) state =
     (if is_token_variable_type (t # tok) then
        check (parse_basic_type_accumulate (t # tok) state) (\<lambda>state.
        parse_type_basic tok state)
      else Inr (t # tok, state))"

section \<open>Cutting a declarator into groups\<close>

definition PARSE_DECLARATOR_ABSTRACT :: "32 word" where
  "PARSE_DECLARATOR_ABSTRACT = 0x200"

definition PARSE_DECLARATOR_ACCEPT_FUNCTION_PARAMS :: "32 word" where
  "PARSE_DECLARATOR_ACCEPT_FUNCTION_PARAMS = 0x400"

definition PARSE_DECLARATION_ACCEPT_FUNCTION :: "32 word" where
  "PARSE_DECLARATION_ACCEPT_FUNCTION = 0x100"

definition has_flag :: "32 word \<Rightarrow> 32 word \<Rightarrow> bool" where
  "has_flag flags flag = (and flags flag \<noteq> 0)"

lemmas flag_defs = PARSE_DECLARATOR_ABSTRACT_def PARSE_DECLARATOR_ACCEPT_FUNCTION_PARAMS_def
  PARSE_DECLARATION_ACCEPT_FUNCTION_def has_flag_def

datatype token_group = Token_group (tokens: "token list") (child: "token_group option")

fun group_precheck_loop :: "token list \<Rightarrow> nat \<Rightarrow> bool \<Rightarrow> unit result" where
  "group_precheck_loop [] closing_paren_countdown got_closing_paren = Inr ()"
| "group_precheck_loop (t # tok) closing_paren_countdown got_closing_paren =
     (if token_type t = TOKEN_IDENTIFIER \<or>
         (token_type t = Char TOKEN_PAREN_CLOSE \<and> closing_paren_countdown = 0)
      then Inr ()
      else if token_type t = Char TOKEN_PAREN_OPEN
      then group_precheck_loop tok (closing_paren_countdown + 1) got_closing_paren
      else if token_type t = Char TOKEN_PAREN_CLOSE
      then group_precheck_loop tok
             (if closing_paren_countdown > 0 then closing_paren_countdown - 1
              else closing_paren_countdown) True
      else if token_type t = Char TOKEN_ASTERISK \<and> got_closing_paren
      then make_result_t (Parse_decl ERR_PARSE_DECL_ATOM_POINTER_AFTER_PARENS)
      else group_precheck_loop tok closing_paren_countdown got_closing_paren)"

definition parse_declarator_group_precheck :: "token list \<Rightarrow> unit result" where
  "parse_declarator_group_precheck tok = group_precheck_loop tok 0 False"

datatype lonely_state = COUNT_PAREN_OPEN | GOT_IDENTIFIER | GOT_MISMATCH

fun lonely_symbol_loop :: "lonely_state \<Rightarrow> nat \<Rightarrow> nat \<Rightarrow> token list \<Rightarrow> nat result" where
  "lonely_symbol_loop parse_state closing_paren_countdown max_paren_nesting [] = Inr 0"
| "lonely_symbol_loop parse_state closing_paren_countdown max_paren_nesting (t # tok) =
     (case parse_state of
        GOT_MISMATCH \<Rightarrow> Inr 0
      | COUNT_PAREN_OPEN \<Rightarrow>
          if token_type t = Char TOKEN_PAREN_OPEN
          then lonely_symbol_loop COUNT_PAREN_OPEN
                 (closing_paren_countdown + 1) (closing_paren_countdown + 1) tok
          else if token_type t = TOKEN_IDENTIFIER
          then (if closing_paren_countdown = 0 then Inr 0
                else lonely_symbol_loop GOT_IDENTIFIER
                       closing_paren_countdown max_paren_nesting tok)
          else lonely_symbol_loop GOT_MISMATCH closing_paren_countdown max_paren_nesting tok
      | GOT_IDENTIFIER \<Rightarrow>
          assert_that (closing_paren_countdown > 0)
            (if token_type t = Char TOKEN_PAREN_CLOSE
             then (if closing_paren_countdown - 1 = 0
                   then assert_that (max_paren_nesting > 0) (Inr max_paren_nesting)
                   else lonely_symbol_loop GOT_IDENTIFIER
                          (closing_paren_countdown - 1) max_paren_nesting tok)
             else lonely_symbol_loop GOT_MISMATCH
                    closing_paren_countdown max_paren_nesting tok))"

definition parse_needs_weird_hack_for_paren_lonely_symbol :: "token list \<Rightarrow> nat result" where
  "parse_needs_weird_hack_for_paren_lonely_symbol tok = lonely_symbol_loop COUNT_PAREN_OPEN 0 0 tok"

definition force_done :: "lex_tokentype list" where
  "force_done = map (Multi \<circ> snd) FOREACH_LEX_CHAR_REPEAT @
     map (Multi \<circ> snd) FOREACH_LEX_CHAR_EQUALS_SIGN"

definition force_done_a :: "lex_tokentype list" where
  "force_done_a = map (Keyword \<circ> snd) FOREACH_LEX_KEYWORD"

definition parse_declarator_group_split_is_done ::
  "32 word \<Rightarrow> token list \<Rightarrow> bool \<Rightarrow> nat \<Rightarrow> bool \<times> nat" where
  "parse_declarator_group_split_is_done flags tok done0 closing_paren_countdown =
     (let close = is_token_type tok (Char TOKEN_PAREN_CLOSE);
          done1 = (done0 \<or> (close \<and> closing_paren_countdown = 0));
          countdown = (if close \<and> closing_paren_countdown \<noteq> 0
                       then closing_paren_countdown - 1 else closing_paren_countdown);
          accept_fn_params = has_flag flags PARSE_DECLARATOR_ACCEPT_FUNCTION_PARAMS;
          done2 = (done1 \<or> is_token_type tok (Char TOKEN_SEMICOLON) \<or>
                   is_token_type tok (Char TOKEN_EQUAL_SIGN) \<or>
                   is_token_type tok (Char TOKEN_BRACE_OPEN) \<or>
                   (is_token_type tok (Char TOKEN_COMMA) \<and> \<not> accept_fn_params));
          done3 = (done2 \<or> list_ex (is_token_type tok) force_done);
          done4 = (done3 \<or> (has_flag flags PARSE_DECLARATOR_ABSTRACT \<and>
                            list_ex (is_token_type tok) force_done_a))
      in (done4, countdown))"

text \<open>The two loops that take the parentheses around a lonely symbol away.\<close>

fun consume_n :: "nat \<Rightarrow> lex_tokentype \<Rightarrow> token list \<Rightarrow> token list result" where
  "consume_n 0 t tok = Inr tok"
| "consume_n (Suc i) t tok =
     assert_that (is_token_type tok t) (check (token_consume tok) (\<lambda>tok. consume_n i t tok))"

lemma consume_n_length: "consume_n i t tok = Inr r \<Longrightarrow> length r + i = length tok"
  by (induction i arbitrary: tok) (auto simp: check_iff)

lemma consume_n_not_NoFuel [simp]: "consume_n i t tok \<noteq> Inl NoFuel"
  by (induction i arbitrary: tok) (auto simp: check_iff)

record split_state =
  sp_done :: bool
  sp_got_identifier :: bool
  sp_countdown :: nat
  sp_tokens :: "token list"

text \<open>The \<^verbatim>\<open>while\<close> loop of \<^verbatim>\<open>parse_declarator_group_split_impl()\<close>.\<close>

function group_split_loop ::
  "32 word \<Rightarrow> token list \<Rightarrow> split_state \<Rightarrow> (token list \<times> split_state) result" where
  "group_split_loop flags tok st =
     (if tok = [] then Inr (tok, st)
      else
        check (parse_needs_weird_hack_for_paren_lonely_symbol tok) (\<lambda>unpack_lonely_symbol.
        check (consume_n unpack_lonely_symbol (Char TOKEN_PAREN_OPEN) tok) (\<lambda>tok1.
        if is_token_type tok1 (Char TOKEN_PAREN_OPEN) \<and> \<not> sp_got_identifier st then Inr (tok1, st)
        else
          let (done0, countdown) =
                parse_declarator_group_split_is_done flags tok1 (sp_done st) (sp_countdown st);
              st1 = st\<lparr>sp_done := done0, sp_countdown := countdown\<rparr>
          in if done0 then Inr (tok1, st1)
             else (case tok1 of
                 [] \<Rightarrow> Inl Abort
               | t # tok2 \<Rightarrow>
                   let st2 = st1\<lparr>sp_tokens := sp_tokens st1 @ [t],
                         sp_got_identifier := (if token_type t = TOKEN_IDENTIFIER then True
                                               else sp_got_identifier st1),
                         sp_countdown := (if token_type t = Char TOKEN_PAREN_OPEN
                                          then sp_countdown st1 + 1 else sp_countdown st1)\<rparr>
                   in check (consume_n unpack_lonely_symbol (Char TOKEN_PAREN_CLOSE) tok2) (\<lambda>tok3.
                      group_split_loop flags tok3 st2)))))"
  by pat_completeness auto
termination
  by (relation "measure (\<lambda>(flags, tok, st). length tok)") (auto dest!: consume_n_length)

declare group_split_loop.simps [simp del]

text \<open>
  \<^verbatim>\<open>parse_declarator_group_split()\<close> and the rest of \<^verbatim>\<open>parse_declarator_group_split_impl()\<close>. The
  outer loop \<open>group_split_while\<close> carries the group built so far; every call takes one unit of
  the budget \<open>n\<close>.
\<close>

fun group_split_while ::
    "nat \<Rightarrow> 32 word \<Rightarrow> token list \<Rightarrow> split_state \<Rightarrow> token_group option \<Rightarrow>
      (token list \<times> token_group) result"
  and parse_declarator_group_split_impl ::
    "nat \<Rightarrow> 32 word \<Rightarrow> token list \<Rightarrow> split_state \<Rightarrow> token_group option \<Rightarrow>
      (token list \<times> split_state \<times> token_group option) result"
  and parse_declarator_group_split ::
    "nat \<Rightarrow> 32 word \<Rightarrow> token list \<Rightarrow> (token list \<times> token_group) result" where
  "group_split_while 0 flags tok st ch = Inl NoFuel"
| "group_split_while (Suc n) flags tok st ch =
     (if \<not> sp_done st \<and> tok \<noteq> [] then
        check (parse_declarator_group_split_impl n flags tok st ch) (\<lambda>(tok, st, ch).
        group_split_while n flags tok st ch)
      else Inr (tok, Token_group (sp_tokens st) ch))"
| "parse_declarator_group_split_impl 0 flags tok st ch = Inl NoFuel"
| "parse_declarator_group_split_impl (Suc n) flags tok st ch =
     check (group_split_loop flags tok st) (\<lambda>(tok, st).
     if is_token_type tok (Char TOKEN_PAREN_OPEN) \<and> \<not> sp_got_identifier st then
       check (token_consume tok) (\<lambda>tok.
       if ch \<noteq> None then make_result_t (Parse_decl ERR_PARSE_DECL_ATOM_PARENS_INVALID)
       else
         check (parse_declarator_group_split n flags tok) (\<lambda>(tok, g).
         expect tok (Char TOKEN_PAREN_CLOSE) (Parse_decl ERR_PARSE_DECL_ATOM_EXPECT_PAREN_CLOSE)
           (\<lambda>tok. Inr (tok, st, Some g))))
     else Inr (tok, st, ch))"
| "parse_declarator_group_split 0 flags tok = Inl NoFuel"
| "parse_declarator_group_split (Suc n) flags tok =
     group_split_while n flags tok
       \<lparr>sp_done = False, sp_got_identifier = False, sp_countdown = 0, sp_tokens = []\<rparr> None"

definition split_fuel :: "token list \<Rightarrow> nat" where
  "split_fuel tok = 3 * length tok + 2"

section \<open>Scanning a group\<close>

record token_group_scan =
  got_indirection :: nat
  got_identifier :: "string option"
  got_subscript :: "token list"
  got_params :: "token list"

definition token_group_scan_zero :: token_group_scan where
  "token_group_scan_zero =
     \<lparr>got_indirection = 0, got_identifier = None, got_subscript = [], got_params = []\<rparr>"

text \<open>
  \<open>tok\<close> is the position in the group, with \<open>t\<close> its first token. A null token pointer of the
  scan is the empty list.
\<close>

definition parse_declarator_group_scan_one ::
  "32 word \<Rightarrow> token \<Rightarrow> token list \<Rightarrow> bool \<Rightarrow> token_group_scan \<Rightarrow> nat \<Rightarrow>
    (token_group_scan \<times> nat) result" where
  "parse_declarator_group_scan_one flags t tok is_leaf_group scan closing_paren_countdown =
     (case token_type t of
        Char TOKEN_ASTERISK \<Rightarrow>
          Inr (if got_params scan = [] then scan\<lparr>got_indirection := got_indirection scan + 1\<rparr>
               else scan, closing_paren_countdown)
      | TOKEN_IDENTIFIER \<Rightarrow>
          if got_identifier scan = None then
            (if \<not> is_leaf_group
             then make_result_t (Parse_decl ERR_PARSE_DECL_ATOM_PARENS_INVALID)
             else Inr (scan\<lparr>got_identifier := Some (val t)\<rparr>, closing_paren_countdown))
          else Inr (scan, closing_paren_countdown)
      | Char TOKEN_SQUARE_BRACKET_OPEN \<Rightarrow>
          let scan = (if closing_paren_countdown = 0 \<and> got_subscript scan = []
                      then scan\<lparr>got_subscript := tok\<rparr> else scan)
          in if got_subscript scan \<noteq> [] \<and> got_identifier scan = None \<and>
                \<not> has_flag flags PARSE_DECLARATOR_ABSTRACT \<and> is_leaf_group
             then make_result_t (Parse_decl ERR_PARSE_DECL_ATOM_EARLY_SUBSCRIPT)
             else Inr (scan, closing_paren_countdown)
      | Char TOKEN_PAREN_OPEN \<Rightarrow>
          if got_params scan = []
          then Inr (scan\<lparr>got_params := tok\<rparr>, closing_paren_countdown + 1)
          else if closing_paren_countdown = 0
          then make_result_t (Parse_decl ERR_PARSE_DECL_ATOM_FUNC_PTR_UNSUPPORTED)
          else Inr (scan, closing_paren_countdown + 1)
      | Char TOKEN_PAREN_CLOSE \<Rightarrow>
          Inr (scan, if closing_paren_countdown > 0 then closing_paren_countdown - 1
                     else closing_paren_countdown)
      | _ \<Rightarrow> Inr (scan, closing_paren_countdown))"

fun group_scan_loop ::
  "32 word \<Rightarrow> token list \<Rightarrow> bool \<Rightarrow> token_group_scan \<Rightarrow> nat \<Rightarrow> token_group_scan result" where
  "group_scan_loop flags [] is_leaf_group scan closing_paren_countdown = Inr scan"
| "group_scan_loop flags (t # tok) is_leaf_group scan closing_paren_countdown =
     check (parse_declarator_group_scan_one flags t (t # tok) is_leaf_group scan
              closing_paren_countdown) (\<lambda>(scan, closing_paren_countdown).
     group_scan_loop flags tok is_leaf_group scan closing_paren_countdown)"

definition parse_declarator_group_scan :: "32 word \<Rightarrow> token_group \<Rightarrow> token_group_scan result" where
  "parse_declarator_group_scan flags grp =
     group_scan_loop flags (tokens grp) (child grp = None) token_group_scan_zero 0"

section \<open>Reading the groups\<close>

datatype ctype_layer = Array_layer u64 | Pointer_layer

fun layer_ctype :: "ctype_layer \<Rightarrow> ctype \<Rightarrow> ctype" where
  "layer_ctype (Array_layer s) c = CTYPE_ARRAY_OF False c s"
| "layer_ctype Pointer_layer c = CTYPE_POINTER_TO False c"

record declarator =
  top_level_pointer_indirection :: nat
  pointer_indirection :: nat
  type_fragment :: "ctype_layer list"
  out_identifier :: "string option"
  got_function :: bool
  out_params :: "ast_parameter list"

definition declarator_zero :: declarator where
  "declarator_zero = \<lparr>top_level_pointer_indirection = 0, pointer_indirection = 0,
     type_fragment = [], out_identifier = None, got_function = False, out_params = []\<rparr>"

text \<open>The sizes of the subscripts \<^verbatim>\<open>[2][3]...\<close> at the position, as fragments.\<close>

function group_postfix_loop :: "token list \<Rightarrow> ctype_layer list result" where
  "group_postfix_loop tok =
     (if \<not> is_token_type tok (Char TOKEN_SQUARE_BRACKET_OPEN) then Inr []
      else
        check (token_consume tok) (\<lambda>tok.
        if \<not> can_parse_constant tok
        then make_result_t (Parse_decl ERR_PARSE_DECL_ATOM_ARRAY_SIZE_NON_CONSTANT)
        else
          check (parse_constant tok) (\<lambda>(tok, constant).
          case constant of
            NODE_CONSTANT v expr_type \<Rightarrow>
              (if ctype_is_floating_point expr_type
               then make_result_t (Parse_decl ERR_PARSE_DECL_ATOM_ARRAY_SIZE_FLOATING_POINT)
               else case v of
                 Num num \<Rightarrow>
                   (if num = 0
                    then make_result_t (Parse_decl ERR_PARSE_DECL_ATOM_ARRAY_SIZE_NON_POSITIVE)
                    else
                      expect tok (Char TOKEN_SQUARE_BRACKET_CLOSE)
                        (Parse_decl ERR_PARSE_DECL_ATOM_EXPECT_SQ_BRACKET_CLOSE) (\<lambda>tok.
                      assert_that (num \<le> ULLONG_MAX)
                        (check (group_postfix_loop tok) (\<lambda>rest.
                         Inr (Array_layer (word_of_int num) # rest)))))
               | Dbl _ \<Rightarrow> Inl Abort)
          | _ \<Rightarrow> Inl Abort)))"
  by pat_completeness auto
termination
  by (relation "measure length") (auto dest!: parse_constant_rest simp: check_iff)

declare group_postfix_loop.simps [simp del]

definition parse_declarator_group_postfix ::
  "token list \<Rightarrow> declarator \<Rightarrow> declarator result" where
  "parse_declarator_group_postfix tok dst =
     check (group_postfix_loop tok) (\<lambda>new_fragment.
     if new_fragment \<noteq> [] then
       Inr (dst\<lparr>type_fragment :=
              new_fragment @ replicate (pointer_indirection dst) Pointer_layer @ type_fragment dst,
            pointer_indirection := 0\<rparr>)
     else Inr dst)"

definition map_declarator_to_ctype :: "ctype \<Rightarrow> declarator \<Rightarrow> ctype" where
  "map_declarator_to_ctype basic_type src =
     foldr layer_ctype
       (replicate (top_level_pointer_indirection src) Pointer_layer @ type_fragment src)
       (ctype_copy basic_type)"

fun ctype_has_fragment_array_of_incomplete :: "ctype \<Rightarrow> bool" where
  "ctype_has_fragment_array_of_incomplete (CTYPE_ARRAY_OF _ r _) =
     (ctype_is_incomplete r \<or> ctype_has_fragment_array_of_incomplete r)"
| "ctype_has_fragment_array_of_incomplete (CTYPE_POINTER_TO _ r) =
     ctype_has_fragment_array_of_incomplete r"
| "ctype_has_fragment_array_of_incomplete _ = False"

text \<open>The checks on the identifier at the end of \<^verbatim>\<open>parse_declarator()\<close>.\<close>

definition declarator_check_identifier :: "32 word \<Rightarrow> declarator \<Rightarrow> declarator result" where
  "declarator_check_identifier flags dst =
     (if \<not> has_flag flags PARSE_DECLARATOR_ABSTRACT \<and> out_identifier dst = None
      then make_result_t (Parse_decl ERR_PARSE_DECL_IDENTIFIER_MISSING)
      else if has_flag flags PARSE_DECLARATOR_ABSTRACT \<and> out_identifier dst \<noteq> None
      then make_result_t (Parse_decl ERR_PARSE_DECL_IDENTIFIER_UNEXPECTED)
      else Inr dst)"

text \<open>
  The routines below call \<^verbatim>\<open>parse_type()\<close> for the parameters of a function, and
  \<^verbatim>\<open>parse_type()\<close> calls them. They take the \<open>parse_type\<close> to call as their first
  argument \<open>pt\<close>, and the recursion is closed at the end, where \<open>parse_type (Suc n)\<close> passes
  \<open>parse_type n\<close> down.

  \<open>params_out\<close> says whether \<^verbatim>\<open>dst\<close> of \<^verbatim>\<open>parse_function_params_impl()\<close> is given: the first
  pass only counts, and the second fills the array that the count has sized. \<open>k\<close> bounds the
  number of parameters.
\<close>

type_synonym type_parser =
  "32 word \<Rightarrow> token list \<Rightarrow> (token list \<times> ctype \<times> string option) result"

fun parse_function_params_impl ::
  "type_parser \<Rightarrow> nat \<Rightarrow> token list \<Rightarrow> bool \<Rightarrow> int \<Rightarrow> bool \<Rightarrow> int \<Rightarrow> ast_parameter list \<Rightarrow>
    (token list \<times> ast_parameter list \<times> int) result" where
  "parse_function_params_impl pt 0 tok params_out count_in first count acc = Inl NoFuel"
| "parse_function_params_impl pt (Suc k) tok params_out count_in first count acc =
     (let comma = is_token_type tok (Char TOKEN_COMMA)
      in if \<not> first \<and> \<not> comma then Inr (tok, acc, count)
         else
           check (if first then Inr tok else token_consume tok) (\<lambda>tok.
           check (pt 0 tok) (\<lambda>(tok, parameter_type, identifier).
           let p = \<lparr>p_symbol = ast_symbol_unresolved
                      (case identifier of None \<Rightarrow> [] | Some i \<Rightarrow> i),
                    parameter_type = parameter_type\<rparr>
           in assert_that (params_out \<longrightarrow> count \<le> count_in)
                (parse_function_params_impl pt k tok params_out count_in False (count + 1)
                   (if params_out then acc @ [p] else acc)))))"

definition parse_function_params ::
  "type_parser \<Rightarrow> token list \<Rightarrow> (token list \<times> ast_parameter list) result" where
  "parse_function_params pt tok =
     (if is_token_type tok (Keyword TOKEN_KEYWORD_VOID) \<and>
         is_token_type (tl tok) (Char TOKEN_PAREN_CLOSE)
      then check (token_consume tok) (\<lambda>tok. Inr (tok, []))
      else
        check (parse_function_params_impl pt (budget tok) tok False 0 True 0 [])
          (\<lambda>(_, _, count).
        if count > 0 then
          check (parse_function_params_impl pt (budget tok) tok True count True 0 [])
            (\<lambda>(tok, params, _). Inr (tok, params))
        else Inr (tok, [])))"

definition parse_declarator_group_fn_params ::
  "type_parser \<Rightarrow> token list \<Rightarrow> declarator \<Rightarrow> declarator result" where
  "parse_declarator_group_fn_params pt tok dst =
     (if tok = [] then Inr dst
      else
        assert_that (is_token_type tok (Char TOKEN_PAREN_OPEN))
          (check (token_consume tok) (\<lambda>tok.
           if got_function dst
           then make_result_t (Parse_decl ERR_PARSE_DECL_ATOM_PARAMS_NESTING)
           else
             check (parse_function_params pt tok) (\<lambda>(tok, params).
             expect tok (Char TOKEN_PAREN_CLOSE)
               (Parse_decl ERR_PARSE_DECL_ATOM_PARAMS_EXPECT_PAREN_CLOSE) (\<lambda>tok.
             Inr (dst\<lparr>out_params := params, got_function := True\<rparr>))))))"

text \<open>What \<^verbatim>\<open>parse_declarator_by_group()\<close> does with a scan, before it descends.\<close>

definition group_apply_scan ::
  "type_parser \<Rightarrow> bool \<Rightarrow> token_group_scan \<Rightarrow> declarator \<Rightarrow> declarator result" where
  "group_apply_scan pt is_leaf_group scan dst =
     (let dst1 = dst\<lparr>pointer_indirection := pointer_indirection dst + got_indirection scan\<rparr>;
          dst2 = (case got_identifier scan of
                    None \<Rightarrow> dst1 | Some i \<Rightarrow> dst1\<lparr>out_identifier := Some i\<rparr>);
          leaf = (is_leaf_group \<and> got_subscript scan = []);
          dst3 = (if leaf
                  then dst2\<lparr>top_level_pointer_indirection := pointer_indirection dst2\<rparr>
                  else dst2)
      in assert_that (leaf \<longrightarrow> top_level_pointer_indirection dst2 = 0)
           (check (parse_declarator_group_postfix (got_subscript scan) dst3) (\<lambda>dst4.
            parse_declarator_group_fn_params pt (got_params scan) dst4)))"

fun parse_declarator_by_group ::
  "type_parser \<Rightarrow> 32 word \<Rightarrow> token_group \<Rightarrow> declarator \<Rightarrow> declarator result" where
  "parse_declarator_by_group pt flags (Token_group toks ch) dst =
     check (parse_declarator_group_scan flags (Token_group toks ch)) (\<lambda>scan.
     check (group_apply_scan pt (ch = None) scan dst) (\<lambda>dst.
     case ch of
       None \<Rightarrow> Inr dst
     | Some g \<Rightarrow> parse_declarator_by_group pt flags g dst))"

definition parse_declarator ::
  "type_parser \<Rightarrow> 32 word \<Rightarrow> token list \<Rightarrow> (token list \<times> declarator) result" where
  "parse_declarator pt flags tok =
     check (parse_declarator_group_precheck tok) (\<lambda>_.
     check (parse_declarator_group_split (split_fuel tok) flags tok) (\<lambda>(tok, grp).
     check (parse_declarator_by_group pt flags grp declarator_zero) (\<lambda>dst.
     check (declarator_check_identifier flags dst) (\<lambda>dst.
     Inr (tok, dst)))))"

fun parse_type :: "nat \<Rightarrow> type_parser" where
  "parse_type 0 flags tok = Inl NoFuel"
| "parse_type (Suc n) flags tok =
     check (parse_type_basic tok basic_type_state_zero) (\<lambda>(tok, state).
     check (parse_basic_type_finalize state) (\<lambda>basic_type.
     check (parse_declarator (\<lambda>flags tok. parse_type n flags tok) flags tok) (\<lambda>(tok, decl).
     if got_function decl
     then make_result_t (Parse_decl ERR_PARSE_DECL_ATOM_FUNC_PTR_UNSUPPORTED)
     else
       let var_type = map_declarator_to_ctype basic_type decl
       in if ctype_has_fragment_array_of_incomplete var_type
          then make_result_t (Parse_decl ERR_PARSE_DECL_TYPE_ARRAY_INCOMPLETE)
          else Inr (tok, var_type, out_identifier decl))))"

definition parse_specifiers_and_type ::
  "type_parser \<Rightarrow> token list \<Rightarrow> (token list \<times> ast_specifier \<times> ctype \<times> declarator) result" where
  "parse_specifiers_and_type pt tok =
     check (parse_specifiers tok) (\<lambda>(tok, dst, basic_type).
     check (parse_declarator pt PARSE_DECLARATOR_ACCEPT_FUNCTION_PARAMS tok) (\<lambda>(tok, decl).
     let var_type = map_declarator_to_ctype basic_type decl
     in if ctype_has_fragment_array_of_incomplete var_type
        then make_result_t (Parse_decl ERR_PARSE_DECL_TYPE_ARRAY_INCOMPLETE)
        else Inr (tok, dst, var_type, decl)))"

text \<open>
  \<open>parse_type\<close> with a budget that is always enough, which is how the rest of the parser
  calls it.
\<close>

definition parse_type_top :: type_parser where
  "parse_type_top flags tok = parse_type (budget tok) flags tok"

end
