(* ===== verification/Expression.thy ===== *)
theory Expression
  imports Declarator
begin

text \<open>
  \<^verbatim>\<open>src/passes/parse/expression.c\<close>: expressions, by precedence climbing.

  \<^verbatim>\<open>parse_expr()\<close> calls \<^verbatim>\<open>parse_factor()\<close> and both call \<^verbatim>\<open>parse_expr()\<close>. The routines take
  the \<open>parse_expr\<close> to call as their first argument \<open>pe\<close>; the recursion is closed in
  \<open>parse_expr\<close>, whose budget is one more than the number of tokens (\<open>parse_expr_top\<close>).
  A loop that reads one more item in each round has a budget of its own, the number of
  tokens that are left.
\<close>

type_synonym expr_parser = "token list \<Rightarrow> nat \<Rightarrow> (token list \<times> ast) result"

section \<open>Factors\<close>

definition parse_sizeof_with_parens ::
  "expr_parser \<Rightarrow> token list \<Rightarrow> (token list \<times> ast) result" where
  "parse_sizeof_with_parens pe tok =
     assert_that (is_token_type tok (Keyword TOKEN_KEYWORD_SIZEOF))
       (check (token_consume tok) (\<lambda>tok.
        assert_that (is_token_type tok (Char TOKEN_PAREN_OPEN))
          (check (token_consume tok) (\<lambda>rewind.
           check
             (case parse_type_top PARSE_DECLARATOR_ABSTRACT rewind of
                Inr (tok, tmp, _) \<Rightarrow> Inr (tok, NODE_EXPRESSION_NULL (ctype_copy tmp))
              | Inl (Error _ _ _) \<Rightarrow> pe rewind 0
              | Inl f \<Rightarrow> Inl f) (\<lambda>(tok, operand).
           expect tok (Char TOKEN_PAREN_CLOSE) (Parse ERR_PARSE_SIZEOF_EXPECT_TOKEN_PAREN_CLOSE)
             (\<lambda>tok. Inr (tok, Op_unary (Prefix EXPRESSION_UNARY_SIZE_OF) operand ctype_zero)))))))"

text \<open>The arguments of a call; \<open>k\<close> bounds their number.\<close>

fun call_args_loop ::
  "expr_parser \<Rightarrow> nat \<Rightarrow> token list \<Rightarrow> (token list \<times> ast list) result" where
  "call_args_loop pe 0 tok = Inl NoFuel"
| "call_args_loop pe (Suc k) tok =
     check (pe tok 0) (\<lambda>(tok, car).
     if \<not> is_token_type tok (Char TOKEN_COMMA) then Inr (tok, [car])
     else
       check (token_consume tok) (\<lambda>tok.
       check (call_args_loop pe k tok) (\<lambda>(tok, cdr). Inr (tok, car # cdr))))"

definition parse_symbol :: "expr_parser \<Rightarrow> token list \<Rightarrow> (token list \<times> ast) result" where
  "parse_symbol pe tok =
     assert_that (is_token_type tok TOKEN_IDENTIFIER)
       (let sym = ast_symbol_unresolved (val (hd tok)) in
        check (token_consume tok) (\<lambda>tok.
        if \<not> is_token_type tok (Char TOKEN_PAREN_OPEN)
        then Inr (tok, NODE_EXPRESSION_VARIABLE_USAGE sym ctype_zero)
        else
          check (token_consume tok) (\<lambda>tok.
          if is_token_type tok (Char TOKEN_PAREN_CLOSE)
          then check (token_consume tok) (\<lambda>tok.
               Inr (tok, NODE_EXPRESSION_FUNCTION_CALL sym [] ctype_zero))
          else
            check (call_args_loop pe (budget tok) tok) (\<lambda>(tok, args).
            expect tok (Char TOKEN_PAREN_CLOSE) (Parse ERR_PARSE_CALL_EXPECT_TOKEN_PAREN_CLOSE)
              (\<lambda>tok. Inr (tok, NODE_EXPRESSION_FUNCTION_CALL sym args ctype_zero))))))"

definition parse_needs_weird_hack_for_cast_lhs_precedence :: "ast \<Rightarrow> bool" where
  "parse_needs_weird_hack_for_cast_lhs_precedence expr =
     (case expr of
        Op_binary (Infix_binary op) _ _ _ \<Rightarrow>
          op \<in> {EXPRESSION_BINARY_ADD, EXPRESSION_BINARY_SUBTRACT, EXPRESSION_BINARY_MULTIPLY,
            EXPRESSION_BINARY_DIVIDE, EXPRESSION_BINARY_REMAINDER, EXPRESSION_BITWISE_AND,
            EXPRESSION_BITWISE_OR, EXPRESSION_BITWISE_XOR, EXPRESSION_BITWISE_SHIFT_LEFT,
            EXPRESSION_BITWISE_SHIFT_RIGHT, EXPRESSION_LOGICAL_AND, EXPRESSION_LOGICAL_OR,
            EXPRESSION_COMPARE_EQUAL, EXPRESSION_COMPARE_NOT_EQUAL,
            EXPRESSION_COMPARE_LESS_THAN, EXPRESSION_COMPARE_LESS_THAN_EQ,
            EXPRESSION_COMPARE_MORE_THAN, EXPRESSION_COMPARE_MORE_THAN_EQ,
            EXPRESSION_VARIABLE_ASSIGNMENT}
      | _ \<Rightarrow> False)"

text \<open>The cast of an expression, moved to its left operand when the hack applies.\<close>

definition make_cast :: "ctype \<Rightarrow> ast \<Rightarrow> ast" where
  "make_cast to_type expr =
     (if parse_needs_weird_hack_for_cast_lhs_precedence expr then
        (case expr of
           Op_binary b l r t \<Rightarrow> Op_binary b (NODE_EXPRESSION_CAST to_type l ctype_zero) r t
         | _ \<Rightarrow> NODE_EXPRESSION_CAST to_type expr ctype_zero)
      else NODE_EXPRESSION_CAST to_type expr ctype_zero)"

definition parse_cast :: "expr_parser \<Rightarrow> token list \<Rightarrow> (token list \<times> ast) result" where
  "parse_cast pe tok =
     check (token_consume tok) (\<lambda>tok.
     check (parse_type_top PARSE_DECLARATOR_ABSTRACT tok) (\<lambda>(tok, to_type, _).
     expect tok (Char TOKEN_PAREN_CLOSE) (Parse ERR_PARSE_CAST_EXPECT_TOKEN_PAREN_CLOSE) (\<lambda>tok.
     check (pe tok 0) (\<lambda>(tok, expr).
     Inr (tok, make_cast to_type expr)))))"

definition parse_paren_enclosed :: "expr_parser \<Rightarrow> token list \<Rightarrow> (token list \<times> ast) result" where
  "parse_paren_enclosed pe tok =
     check (token_consume tok) (\<lambda>tok.
     check (pe tok 0) (\<lambda>(tok, operand).
     expect tok (Char TOKEN_PAREN_CLOSE) (Parse ERR_PARSE_EXPR_EXPECT_TOKEN_PAREN_CLOSE) (\<lambda>tok.
     Inr (tok, Op_unary EXPRESSION_PAREN_ENCLOSED operand ctype_zero))))"

definition parse_postfix :: "token list \<Rightarrow> ast \<Rightarrow> (token list \<times> ast) result" where
  "parse_postfix tok dst =
     (if is_token_type tok (Multi TOKEN_PLUS_SIGN_PLUS_SIGN)
      then check (token_consume tok) (\<lambda>tok.
           Inr (tok, Op_unary EXPRESSION_POSTINCREMENT dst ctype_zero))
      else if is_token_type tok (Multi TOKEN_HYPHEN_HYPHEN)
      then check (token_consume tok) (\<lambda>tok.
           Inr (tok, Op_unary EXPRESSION_POSTDECREMENT dst ctype_zero))
      else Inr (tok, dst))"

fun subscript_loop ::
  "expr_parser \<Rightarrow> nat \<Rightarrow> token list \<Rightarrow> ast \<Rightarrow> (token list \<times> ast) result" where
  "subscript_loop pe 0 tok dst = Inl NoFuel"
| "subscript_loop pe (Suc k) tok dst =
     (if \<not> is_token_type tok (Char TOKEN_SQUARE_BRACKET_OPEN) then Inr (tok, dst)
      else
        check (token_consume tok) (\<lambda>tok.
        check (pe tok 0) (\<lambda>(tok, rhs).
        expect tok (Char TOKEN_SQUARE_BRACKET_CLOSE)
          (Parse ERR_PARSE_EXPR_EXPECT_TOKEN_SQ_BRACKET_CLOSE) (\<lambda>tok.
        subscript_loop pe k tok (Op_binary EXPRESSION_SUBSCRIPT dst rhs ctype_zero)))))"

definition factor_suffixes ::
  "expr_parser \<Rightarrow> token list \<Rightarrow> ast \<Rightarrow> (token list \<times> ast) result" where
  "factor_suffixes pe tok dst =
     check (parse_postfix tok dst) (\<lambda>(tok, dst).
     check (subscript_loop pe (budget tok) tok dst) (\<lambda>(tok, dst).
     parse_postfix tok dst))"

definition prefix_match :: "token \<Rightarrow> prefix_op option" where
  "prefix_match t = map_of FOREACH_AST_NODE_EXPRESSION_PREFIX_OP (token_type t)"

fun parse_factor :: "expr_parser \<Rightarrow> token list \<Rightarrow> (token list \<times> ast) result" where
  "parse_factor pe [] = make_result_t (Parse ERR_PARSE_EXPR_EXPECT_REASONABLE)"
| "parse_factor pe (t # tok) =
     check
       (case prefix_match t of
          Some op \<Rightarrow>
            if op = EXPRESSION_UNARY_SIZE_OF \<and> is_token_type tok (Char TOKEN_PAREN_OPEN)
            then parse_sizeof_with_parens pe (t # tok)
            else check (parse_factor pe tok) (\<lambda>(tok, operand).
                 Inr (tok, Op_unary (Prefix op) operand ctype_zero))
        | None \<Rightarrow>
            if can_parse_constant (t # tok) then parse_constant (t # tok)
            else if token_type t = TOKEN_CONSTANT_STR
            then Inr (tok, NODE_CONSTANT_STR (val t) (ctype_alloc_str_literal (val t)))
            else if token_type t = TOKEN_IDENTIFIER then parse_symbol pe (t # tok)
            else if token_type t = Char TOKEN_PAREN_OPEN \<and> is_token_variable_type tok
            then parse_cast pe (t # tok)
            else if token_type t = Char TOKEN_PAREN_OPEN then parse_paren_enclosed pe (t # tok)
            else make_result_t (Parse ERR_PARSE_EXPR_EXPECT_REASONABLE))
       (\<lambda>(tok, dst). factor_suffixes pe tok dst)"

section \<open>Precedence climbing\<close>

definition parse_expr_check_next_token :: "token list \<Rightarrow> infix_op option" where
  "parse_expr_check_next_token tok =
     (case tok of
        [] \<Rightarrow> None
      | t # _ \<Rightarrow> map_of FOREACH_AST_NODE_EXPRESSION_INFIX_OP (token_type t))"

definition parse_ternary_middle :: "expr_parser \<Rightarrow> token list \<Rightarrow> (token list \<times> ast) result" where
  "parse_ternary_middle pe tok =
     check (pe tok 0) (\<lambda>(tok, dst).
     expect tok (Char TOKEN_COLON) (Parse ERR_PARSE_EXPR_EXPECT_COLON_IN_TERNARY_OP)
       (\<lambda>tok. Inr (tok, dst)))"

definition PRECEDENCE_INCREMENT :: nat where "PRECEDENCE_INCREMENT = 10"

text \<open>
  The cases of the \<^verbatim>\<open>switch\<close> fall through, so an operator gets one increment for its own
  level and one for every level below it.
\<close>

fun precedence_levels :: "infix_op \<Rightarrow> nat" where
  "precedence_levels (Compound _) = 1"
| "precedence_levels EXPRESSION_TERNARY_CONDITIONAL = 2"
| "precedence_levels (Binary op) =
     (case op of
        EXPRESSION_VARIABLE_ASSIGNMENT \<Rightarrow> 1
      | EXPRESSION_LOGICAL_OR \<Rightarrow> 3
      | EXPRESSION_LOGICAL_AND \<Rightarrow> 4
      | EXPRESSION_BITWISE_OR \<Rightarrow> 5
      | EXPRESSION_BITWISE_XOR \<Rightarrow> 6
      | EXPRESSION_BITWISE_AND \<Rightarrow> 7
      | EXPRESSION_COMPARE_EQUAL \<Rightarrow> 8
      | EXPRESSION_COMPARE_NOT_EQUAL \<Rightarrow> 8
      | EXPRESSION_COMPARE_LESS_THAN \<Rightarrow> 9
      | EXPRESSION_COMPARE_LESS_THAN_EQ \<Rightarrow> 9
      | EXPRESSION_COMPARE_MORE_THAN \<Rightarrow> 9
      | EXPRESSION_COMPARE_MORE_THAN_EQ \<Rightarrow> 9
      | EXPRESSION_BITWISE_SHIFT_LEFT \<Rightarrow> 10
      | EXPRESSION_BITWISE_SHIFT_RIGHT \<Rightarrow> 10
      | EXPRESSION_BINARY_ADD \<Rightarrow> 11
      | EXPRESSION_BINARY_SUBTRACT \<Rightarrow> 11
      | EXPRESSION_BINARY_MULTIPLY \<Rightarrow> 12
      | EXPRESSION_BINARY_DIVIDE \<Rightarrow> 12
      | EXPRESSION_BINARY_REMAINDER \<Rightarrow> 12)"

definition get_precedence :: "infix_op \<Rightarrow> nat" where
  "get_precedence a = PRECEDENCE_INCREMENT * precedence_levels a"

definition is_right_associative :: "infix_op \<Rightarrow> bool" where
  "is_right_associative bop =
     (case bop of
        Compound _ \<Rightarrow> True
      | EXPRESSION_TERNARY_CONDITIONAL \<Rightarrow> True
      | Binary op \<Rightarrow> op = EXPRESSION_VARIABLE_ASSIGNMENT)"

text \<open>The precedence that the right operand must have at least: \<^verbatim>\<open>precedence + inc\<close>.\<close>

definition right_precedence :: "infix_op \<Rightarrow> nat" where
  "right_precedence bop = get_precedence bop + (if is_right_associative bop then 0 else 1)"

fun binary_node_of :: "infix_op \<Rightarrow> binary_node option" where
  "binary_node_of (Binary op) = Some (Infix_binary op)"
| "binary_node_of (Compound op) = Some (Infix_compound op)"
| "binary_node_of EXPRESSION_TERNARY_CONDITIONAL = None"

fun parse_expr_loop ::
  "expr_parser \<Rightarrow> nat \<Rightarrow> token list \<Rightarrow> ast \<Rightarrow> nat \<Rightarrow> (token list \<times> ast) result" where
  "parse_expr_loop pe 0 tok left minimum_precedence = Inl NoFuel"
| "parse_expr_loop pe (Suc k) tok left minimum_precedence =
     (case parse_expr_check_next_token tok of
        None \<Rightarrow> Inr (tok, left)
      | Some bop \<Rightarrow>
          if get_precedence bop < minimum_precedence then Inr (tok, left)
          else
            check (token_consume tok) (\<lambda>tok.
            check
              (case binary_node_of bop of
                 None \<Rightarrow>
                   check (parse_ternary_middle pe tok) (\<lambda>(tok, middle).
                   check (pe tok (right_precedence bop)) (\<lambda>(tok, right).
                   Inr (tok, Op_ternary left middle right ctype_zero)))
               | Some b \<Rightarrow>
                   check (pe tok (right_precedence bop)) (\<lambda>(tok, right).
                   Inr (tok, Op_binary b left right ctype_zero))) (\<lambda>(tok, left).
            parse_expr_loop pe k tok left minimum_precedence)))"

fun parse_expr :: "nat \<Rightarrow> expr_parser" where
  "parse_expr 0 tok minimum_precedence = Inl NoFuel"
| "parse_expr (Suc n) tok minimum_precedence =
     check (parse_factor (\<lambda>tok p. parse_expr n tok p) tok) (\<lambda>(tok, left).
     parse_expr_loop (\<lambda>tok p. parse_expr n tok p) (budget tok) tok left minimum_precedence)"

definition parse_expr_top :: "token list \<Rightarrow> (token list \<times> ast) result" where
  "parse_expr_top tok = parse_expr (budget tok) tok 0"

end
