(* ===== verification/Statement.thy ===== *)
theory Statement
  imports Expression
begin

text \<open>
  \<^verbatim>\<open>src/passes/parse/declaration.c\<close> (second half: initializers, declarations and functions),
  \<^verbatim>\<open>parse/block.c\<close> and the statements and \<^verbatim>\<open>parse_init()\<close>'s first loop of
  \<^verbatim>\<open>src/passes/parse.c\<close>.

  \<open>blk\<close> is the \<open>parse_block\<close> a routine calls and \<open>stmt\<close> the \<open>parse_stmt_one\<close>; the recursion
  between the two is closed in \<open>parse_block\<close> and \<open>parse_stmt_one\<close>. A statement parser also
  returns \<^verbatim>\<open>call_again\<close>.
\<close>

type_synonym ast_parser = "token list \<Rightarrow> (token list \<times> ast) result"
type_synonym stmt_parser = "token list \<Rightarrow> (token list \<times> ast \<times> bool) result"

section \<open>Initializers\<close>

text \<open>
  The \<^verbatim>\<open>do ... while\<close> loop of \<^verbatim>\<open>parse_initializer_arr()\<close>, which starts at the opening brace
  or at a comma. \<open>init\<close> is the \<open>parse_initializer\<close> it calls.
\<close>

fun initializer_arr_loop ::
  "ast_parser \<Rightarrow> nat \<Rightarrow> token list \<Rightarrow> (token list \<times> ast list) result" where
  "initializer_arr_loop init 0 tok = Inl NoFuel"
| "initializer_arr_loop init (Suc k) tok =
     check (token_consume tok) (\<lambda>tok.
     if is_token_type tok (Char TOKEN_BRACE_CLOSE) then Inr (tok, [])
     else
       check (init tok) (\<lambda>(tok, car).
       if is_token_type tok (Char TOKEN_COMMA)
       then check (initializer_arr_loop init k tok) (\<lambda>(tok, cdr). Inr (tok, car # cdr))
       else Inr (tok, [car])))"

definition parse_initializer_arr ::
  "ast_parser \<Rightarrow> token list \<Rightarrow> (token list \<times> ast list) result" where
  "parse_initializer_arr init tok =
     assert_that (is_token_type tok (Char TOKEN_BRACE_OPEN))
       (check (initializer_arr_loop init (budget tok) tok) (\<lambda>(tok, dst).
        expect tok (Char TOKEN_BRACE_CLOSE) (Parse_decl ERR_PARSE_DECL_EXPECT_BRACE_CLOSE) (\<lambda>tok.
        Inr (tok, dst))))"

fun parse_initializer :: "nat \<Rightarrow> ast_parser" where
  "parse_initializer 0 tok = Inl NoFuel"
| "parse_initializer (Suc n) tok =
     (if is_token_type tok (Char TOKEN_BRACE_OPEN) then
        check (parse_initializer_arr (\<lambda>tok. parse_initializer n tok) tok) (\<lambda>(tok, multi).
        Inr (tok, NODE_EXPRESSION_INITIALIZER None multi ctype_zero))
      else
        check (parse_expr_top tok) (\<lambda>(tok, single).
        Inr (tok, NODE_EXPRESSION_INITIALIZER (Some single) [] ctype_zero)))"

section \<open>Declarations\<close>

text \<open>\<^verbatim>\<open>FOREACH_FUNCTION_PARAMETER\<close> stops at the first parameter without a name.\<close>

definition foreach_function_parameter :: "ast_parameter list \<Rightarrow> ast_parameter list" where
  "foreach_function_parameter = takeWhile (\<lambda>p. as_name (p_symbol p) \<noteq> [])"

definition declarator_name :: "declarator \<Rightarrow> string" where
  "declarator_name decl = (case out_identifier decl of None \<Rightarrow> [] | Some i \<Rightarrow> i)"

text \<open>The two halves of \<^verbatim>\<open>parse_fn_or_var_declaration()\<close>: a variable and a function.\<close>

definition parse_var_declaration ::
  "token list \<Rightarrow> ast_specifier \<Rightarrow> ctype \<Rightarrow> string \<Rightarrow> (token list \<times> ast) result" where
  "parse_var_declaration tok spec ct name =
     (if ctype_is_void ct
      then make_result_tss (Parse_decl ERR_PARSE_DECL_TYPE_VOID_VAR_TYPE) name
      else
        check
          (if is_token_type tok (Char TOKEN_EQUAL_SIGN) then
             check (token_consume tok) (\<lambda>tok.
             check (parse_initializer (budget tok) tok) (\<lambda>(tok, init).
             Inr (tok, Some init)))
           else Inr (tok, None)) (\<lambda>(tok, init).
        expect tok (Char TOKEN_SEMICOLON) (Parse_decl ERR_PARSE_DECL_EXPECT_TOKEN_SEMICOLON)
          (\<lambda>tok. Inr (tok, NODE_DECLARATION (ast_symbol_zero\<lparr>as_name := name\<rparr>) spec
                    (ctype_copy ct) init ctype_zero))))"

definition parse_function_declaration ::
  "ast_parser \<Rightarrow> token list \<Rightarrow> ast_specifier \<Rightarrow> ctype \<Rightarrow> string \<Rightarrow> ast_parameter list \<Rightarrow>
    (token list \<times> ast) result" where
  "parse_function_declaration blk tok spec ret_type name params =
     (let node = (\<lambda>block. NODE_FUNCTION (ast_symbol_zero\<lparr>as_name := name\<rparr>) spec
            (ctype_copy ret_type) params block)
      in case filter (\<lambda>p. ctype_is_void (parameter_type p)) (foreach_function_parameter params) of
           cur # _ \<Rightarrow> make_result_tss (Parse_decl ERR_PARSE_DECL_TYPE_VOID_PARAM_TYPE)
                       (as_name (p_symbol cur))
         | [] \<Rightarrow>
             if is_token_type tok (Char TOKEN_SEMICOLON)
             then check (token_consume tok) (\<lambda>tok. Inr (tok, node None))
             else if is_token_type tok (Char TOKEN_BRACE_OPEN)
             then check (blk tok) (\<lambda>(tok, block). Inr (tok, node (Some block)))
             else make_result_t (Parse ERR_PARSE_FUNC_EXPECT_TOKEN_SEMICOLON_OR_BRACE_OPEN))"

definition parse_fn_or_var_declaration ::
  "ast_parser \<Rightarrow> 32 word \<Rightarrow> token list \<Rightarrow> (token list \<times> ast) result" where
  "parse_fn_or_var_declaration blk flags tok =
     check (parse_specifiers_and_type parse_type_top tok) (\<lambda>(tok, spec, ctype, decl).
     if \<not> got_function decl then parse_var_declaration tok spec ctype (declarator_name decl)
     else if \<not> has_flag flags PARSE_DECLARATION_ACCEPT_FUNCTION
     then make_result_t (Parse_decl ERR_PARSE_DECL_ATOM_FUNC_PTR_UNSUPPORTED)
     else parse_function_declaration blk tok spec ctype (declarator_name decl) (out_params decl))"

section \<open>Statements\<close>

definition parse_alloc_if_unset :: "ast option \<Rightarrow> ast" where
  "parse_alloc_if_unset dst = (case dst of None \<Rightarrow> parse_alloc_null_expr | Some a \<Rightarrow> a)"

fun stmt_multi_loop :: "stmt_parser \<Rightarrow> nat \<Rightarrow> token list \<Rightarrow> (token list \<times> ast list) result" where
  "stmt_multi_loop stmt 0 tok = Inl NoFuel"
| "stmt_multi_loop stmt (Suc k) tok =
     check (stmt tok) (\<lambda>(tok, car, call_again).
     if call_again
     then check (stmt_multi_loop stmt k tok) (\<lambda>(tok, cdr). Inr (tok, car # cdr))
     else Inr (tok, [car]))"

definition parse_stmt_multi :: "stmt_parser \<Rightarrow> token list \<Rightarrow> (token list \<times> ast list) result" where
  "parse_stmt_multi stmt tok = stmt_multi_loop stmt (budget tok) tok"

definition parse_if_else :: "stmt_parser \<Rightarrow> token list \<Rightarrow> (token list \<times> ast) result" where
  "parse_if_else stmt tok =
     assert_that (is_token_type tok (Keyword TOKEN_KEYWORD_IF))
       (check (token_consume tok) (\<lambda>tok.
        expect tok (Char TOKEN_PAREN_OPEN) (Parse ERR_PARSE_IF_ELSE_EXPECT_TOKEN_PAREN_OPEN) (\<lambda>tok.
        check (parse_expr_top tok) (\<lambda>(tok, cond).
        expect tok (Char TOKEN_PAREN_CLOSE) (Parse ERR_PARSE_IF_ELSE_EXPECT_TOKEN_PAREN_CLOSE)
          (\<lambda>tok.
        check (parse_stmt_multi stmt tok) (\<lambda>(tok, then_clause).
        if \<not> is_token_type tok (Keyword TOKEN_KEYWORD_ELSE)
        then Inr (tok, NODE_IF_ELSE cond then_clause [])
        else
          check (token_consume tok) (\<lambda>tok.
          check (parse_stmt_multi stmt tok) (\<lambda>(tok, else_clause).
          Inr (tok, NODE_IF_ELSE cond then_clause else_clause)))))))))"

text \<open>A declaration in a \<^verbatim>\<open>for\<close> must not be a function, so no block is ever parsed there.\<close>

definition parse_loop_for_init :: "ast_parser \<Rightarrow> token list \<Rightarrow> (token list \<times> ast) result" where
  "parse_loop_for_init blk tok =
     (if is_token_type tok (Char TOKEN_SEMICOLON)
      then check (token_consume tok) (\<lambda>tok. Inr (tok, parse_alloc_null_expr))
      else if is_token_variable_type tok then parse_fn_or_var_declaration blk 0 tok
      else
        check (parse_expr_top tok) (\<lambda>(tok, e).
        expect tok (Char TOKEN_SEMICOLON) (Parse ERR_PARSE_LOOP_EXPECT_TOKEN_SEMICOLON) (\<lambda>tok.
        Inr (tok, e))))"

definition parse_loop_do_while_suffix :: "token list \<Rightarrow> (token list \<times> ast) result" where
  "parse_loop_do_while_suffix tok =
     expect tok (Keyword TOKEN_KEYWORD_WHILE) (Parse ERR_PARSE_LOOP_EXPECT_TOKEN_WHILE) (\<lambda>tok.
     expect tok (Char TOKEN_PAREN_OPEN) (Parse ERR_PARSE_LOOP_EXPECT_TOKEN_PAREN_OPEN) (\<lambda>tok.
     check (parse_expr_top tok) (\<lambda>(tok, postcond).
     expect tok (Char TOKEN_PAREN_CLOSE) (Parse ERR_PARSE_LOOP_EXPECT_TOKEN_PAREN_CLOSE) (\<lambda>tok.
     expect tok (Char TOKEN_SEMICOLON) (Parse ERR_PARSE_LOOP_EXPECT_TOKEN_SEMICOLON) (\<lambda>tok.
     Inr (tok, postcond))))))"

datatype loop_type = PARSE_LOOP_DO | PARSE_LOOP_WHILE | PARSE_LOOP_FOR

definition loop_type_of :: "token list \<Rightarrow> loop_type result" where
  "loop_type_of tok =
     (if is_token_type tok (Keyword TOKEN_KEYWORD_DO) then Inr PARSE_LOOP_DO
      else if is_token_type tok (Keyword TOKEN_KEYWORD_WHILE) then Inr PARSE_LOOP_WHILE
      else if is_token_type tok (Keyword TOKEN_KEYWORD_FOR) then Inr PARSE_LOOP_FOR
      else Inl Abort)"

text \<open>An optional expression, as the conditions of a loop are.\<close>

definition parse_expr_if :: "bool \<Rightarrow> token list \<Rightarrow> (token list \<times> ast option) result" where
  "parse_expr_if b tok =
     (if b then check (parse_expr_top tok) (\<lambda>(tok, e). Inr (tok, Some e)) else Inr (tok, None))"

definition expect_if ::
  "bool \<Rightarrow> token list \<Rightarrow> lex_tokentype \<Rightarrow> err \<Rightarrow> (token list \<Rightarrow> 'a result) \<Rightarrow> 'a result" where
  "expect_if b tok t e k = (if b then expect tok t e k else k tok)"

definition parse_loop ::
  "stmt_parser \<Rightarrow> ast_parser \<Rightarrow> token list \<Rightarrow> (token list \<times> ast) result" where
  "parse_loop stmt blk tok =
     check (loop_type_of tok) (\<lambda>loop_type.
     check (token_consume tok) (\<lambda>tok.
     let is_for = (loop_type = PARSE_LOOP_FOR);
         is_while = (loop_type = PARSE_LOOP_WHILE);
         parens = (is_for \<or> is_while)
     in expect_if parens tok (Char TOKEN_PAREN_OPEN) (Parse ERR_PARSE_LOOP_EXPECT_TOKEN_PAREN_OPEN)
          (\<lambda>tok.
        check (if is_for then check (parse_loop_for_init blk tok) (\<lambda>(tok, i). Inr (tok, [i]))
               else Inr (tok, [])) (\<lambda>(tok, for_init).
        check (parse_expr_if ((is_for \<and> \<not> is_token_type tok (Char TOKEN_SEMICOLON)) \<or> is_while)
                 tok) (\<lambda>(tok, precond).
        expect_if is_for tok (Char TOKEN_SEMICOLON) (Parse ERR_PARSE_LOOP_EXPECT_TOKEN_SEMICOLON)
          (\<lambda>tok.
        check (parse_expr_if (is_for \<and> \<not> is_token_type tok (Char TOKEN_PAREN_CLOSE)) tok)
          (\<lambda>(tok, incr).
        expect_if parens tok (Char TOKEN_PAREN_CLOSE) (Parse ERR_PARSE_LOOP_EXPECT_TOKEN_PAREN_CLOSE)
          (\<lambda>tok.
        check (parse_stmt_multi stmt tok) (\<lambda>(tok, body).
        check (if loop_type = PARSE_LOOP_DO
               then check (parse_loop_do_while_suffix tok) (\<lambda>(tok, e). Inr (tok, Some e))
               else Inr (tok, None)) (\<lambda>(tok, postcond).
        let loop = NODE_LOOP (parse_alloc_if_unset precond) body (parse_alloc_if_unset incr)
              (parse_alloc_if_unset postcond) UNSET_LOOP_ID UNSET_LOOP_ID UNSET_LOOP_ID
        in Inr (tok, if is_for then NODE_BLOCK (for_init @ [loop]) else loop)))))))))))"

definition parse_switch :: "stmt_parser \<Rightarrow> token list \<Rightarrow> (token list \<times> ast) result" where
  "parse_switch stmt tok =
     assert_that (is_token_type tok (Keyword TOKEN_KEYWORD_SWITCH))
       (check (token_consume tok) (\<lambda>tok.
        expect tok (Char TOKEN_PAREN_OPEN) (Parse ERR_PARSE_SWITCH_EXPECT_TOKEN_PAREN_OPEN) (\<lambda>tok.
        check (parse_expr_top tok) (\<lambda>(tok, control).
        expect tok (Char TOKEN_PAREN_CLOSE) (Parse ERR_PARSE_SWITCH_EXPECT_TOKEN_PAREN_CLOSE) (\<lambda>tok.
        check (parse_stmt_multi stmt tok) (\<lambda>(tok, body).
        Inr (tok, NODE_SWITCH control body UNSET_SWITCH_ID UNSET_SWITCH_ID [])))))))"

definition parse_case :: "token list \<Rightarrow> (token list \<times> ast) result" where
  "parse_case tok =
     assert_that (is_token_type tok (Keyword TOKEN_KEYWORD_CASE))
       (check (token_consume tok) (\<lambda>tok.
        if \<not> can_parse_constant tok then make_result_t (Parse ERR_PARSE_CASE_EXPECT_CONSTANT)
        else
          check (parse_constant tok) (\<lambda>(tok, constant).
          expect tok (Char TOKEN_COLON) (Parse ERR_PARSE_CASE_EXPECT_COLON) (\<lambda>tok.
          Inr (tok, NODE_CASE constant UNSET_SWITCH_ID)))))"

text \<open>
  The branches of \<^verbatim>\<open>parse_stmt_one()\<close>; each gives the statement, \<^verbatim>\<open>call_again\<close> and
  \<^verbatim>\<open>expect_semicolon_after\<close>.
\<close>

definition stmt_branch ::
  "stmt_parser \<Rightarrow> ast_parser \<Rightarrow> token list \<Rightarrow> (token list \<times> ast \<times> bool \<times> bool) result" where
  "stmt_branch stmt blk tok =
     (let with = (\<lambda>m again semicolon. check m (\<lambda>(tok, a). Inr (tok, a, again, semicolon)));
          next_is = is_token_type (tl tok)
      in if is_token_type tok (Keyword TOKEN_KEYWORD_RETURN) then
           check (token_consume tok) (\<lambda>tok.
           if is_token_type tok (Char TOKEN_SEMICOLON)
           then Inr (tok, NODE_FUNCTION_RETURN_STATEMENT parse_alloc_null_expr, False, True)
           else check (parse_expr_top tok) (\<lambda>(tok, e).
                Inr (tok, NODE_FUNCTION_RETURN_STATEMENT e, False, True)))
         else if is_token_type tok (Char TOKEN_SEMICOLON) then
           check (token_consume tok) (\<lambda>tok. Inr (tok, parse_alloc_null_expr, False, False))
         else if is_token_type tok (Char TOKEN_BRACE_OPEN) then with (blk tok) False False
         else if is_token_type tok (Keyword TOKEN_KEYWORD_IF)
         then with (parse_if_else stmt tok) False False
         else if is_token_type tok (Keyword TOKEN_KEYWORD_DO) \<or>
                 is_token_type tok (Keyword TOKEN_KEYWORD_WHILE) \<or>
                 is_token_type tok (Keyword TOKEN_KEYWORD_FOR)
         then with (parse_loop stmt blk tok) False False
         else if is_token_type tok (Keyword TOKEN_KEYWORD_BREAK) then
           check (token_consume tok) (\<lambda>tok. Inr (tok, NODE_BREAK UNSET_LOOP_ID, False, True))
         else if is_token_type tok (Keyword TOKEN_KEYWORD_CONTINUE) then
           check (token_consume tok) (\<lambda>tok. Inr (tok, NODE_CONTINUE UNSET_LOOP_ID, False, True))
         else if is_token_type tok (Keyword TOKEN_KEYWORD_GOTO) \<and> next_is TOKEN_IDENTIFIER then
           check (token_consume tok) (\<lambda>tok1.
           check (token_consume tok1) (\<lambda>tok2.
           Inr (tok2, NODE_GOTO (val (hd tok1)) UNSET_LABEL_ID, False, True)))
         else if is_token_type tok TOKEN_IDENTIFIER \<and> next_is (Char TOKEN_COLON) then
           check (token_consume tok) (\<lambda>tok1.
           check (token_consume tok1) (\<lambda>tok2.
           Inr (tok2, NODE_LABEL (val (hd tok)) UNSET_LABEL_ID, True, False)))
         else if is_token_type tok (Keyword TOKEN_KEYWORD_SWITCH)
         then with (parse_switch stmt tok) False False
         else if is_token_type tok (Keyword TOKEN_KEYWORD_CASE)
         then with (parse_case tok) True False
         else if is_token_type tok (Keyword TOKEN_KEYWORD_DEFAULT) \<and> next_is (Char TOKEN_COLON) then
           check (token_consume tok) (\<lambda>tok1.
           check (token_consume tok1) (\<lambda>tok2.
           Inr (tok2, NODE_CASE_DEFAULT UNSET_SWITCH_ID, True, False)))
         else with (parse_expr_top tok) False True)"

definition stmt_body :: "stmt_parser \<Rightarrow> ast_parser \<Rightarrow> stmt_parser" where
  "stmt_body stmt blk tok =
     check (stmt_branch stmt blk tok) (\<lambda>(tok, a, call_again, expect_semicolon_after).
     expect_if expect_semicolon_after tok (Char TOKEN_SEMICOLON)
       (Parse ERR_PARSE_STMT_EXPECT_TOKEN_SEMICOLON) (\<lambda>tok. Inr (tok, a, call_again)))"

section \<open>Blocks\<close>

definition block_item ::
  "stmt_parser \<Rightarrow> ast_parser \<Rightarrow> token list \<Rightarrow> (token list \<times> ast) result" where
  "block_item stmt blk tok =
     (if is_token_maybe_function_prefix tok
      then parse_fn_or_var_declaration blk PARSE_DECLARATION_ACCEPT_FUNCTION tok
      else check (stmt tok) (\<lambda>(tok, a, dummy). Inr (tok, a)))"

fun block_items_loop ::
  "stmt_parser \<Rightarrow> ast_parser \<Rightarrow> nat \<Rightarrow> token list \<Rightarrow> (token list \<times> ast list) result" where
  "block_items_loop stmt blk 0 tok = Inl NoFuel"
| "block_items_loop stmt blk (Suc k) tok =
     (if is_token_type tok (Char TOKEN_BRACE_CLOSE) then Inr (tok, [])
      else
        check (block_item stmt blk tok) (\<lambda>(tok, car).
        check (block_items_loop stmt blk k tok) (\<lambda>(tok, cdr). Inr (tok, car # cdr))))"

definition block_body :: "stmt_parser \<Rightarrow> ast_parser \<Rightarrow> ast_parser" where
  "block_body stmt blk tok =
     expect tok (Char TOKEN_BRACE_OPEN) (Parse ERR_PARSE_FUNC_EXPECT_TOKEN_BRACE_OPEN) (\<lambda>tok.
     if is_token_type tok (Char TOKEN_BRACE_CLOSE)
     then check (token_consume tok) (\<lambda>tok. Inr (tok, NODE_BLOCK [parse_alloc_null_expr]))
     else
       check (block_items_loop stmt blk (budget tok) tok) (\<lambda>(tok, items).
       expect tok (Char TOKEN_BRACE_CLOSE) (Parse ERR_PARSE_FUNC_EXPECT_TOKEN_BRACE_CLOSE) (\<lambda>tok.
       Inr (tok, NODE_BLOCK items))))"

fun parse_block :: "nat \<Rightarrow> ast_parser"
  and parse_stmt_one :: "nat \<Rightarrow> stmt_parser" where
  "parse_block 0 tok = Inl NoFuel"
| "parse_block (Suc n) tok =
     block_body (\<lambda>tok. parse_stmt_one n tok) (\<lambda>tok. parse_block n tok) tok"
| "parse_stmt_one 0 tok = Inl NoFuel"
| "parse_stmt_one (Suc n) tok =
     stmt_body (\<lambda>tok. parse_stmt_one n tok) (\<lambda>tok. parse_block n tok) tok"

definition parse_block_top :: ast_parser where
  "parse_block_top tok = parse_block (2 * length tok + 1) tok"

section \<open>Programs\<close>

text \<open>The first loop of \<^verbatim>\<open>parse_init()\<close>.\<close>

fun parse_globals :: "nat \<Rightarrow> token list \<Rightarrow> ast list result" where
  "parse_globals 0 tok = Inl NoFuel"
| "parse_globals (Suc k) tok =
     (if tok = [] then Inr []
      else
        check (parse_fn_or_var_declaration parse_block_top PARSE_DECLARATION_ACCEPT_FUNCTION tok)
          (\<lambda>(tok, car).
        check (parse_globals k tok) (\<lambda>cdr. Inr (car # cdr))))"

definition parse_program :: "token list \<Rightarrow> program result" where
  "parse_program tok =
     check (parse_globals (budget tok) tok) (\<lambda>globals. Inr (NODE_PROGRAM globals))"

end
