(* ===== verification/Resolve.thy ===== *)
theory Resolve
  imports Statement
begin

text \<open>
  \<^verbatim>\<open>src/passes/parse/resolve.c\<close> and the second loop of \<^verbatim>\<open>parse_init()\<close>: every use of a name
  gets the unique ID, the kind, the linkage and the type of the symbol it refers to.

  The source changes the tree and the symbol table in place; a function of the model
  returns the new tree and the new table. A pointer to a node of the table is a \<open>node\<close> (see
  \<open>Symbols\<close>): the number of nodes from there to the end of the list, 0 for the null pointer.
\<close>

section \<open>Symbols\<close>

definition map_symbol_members :: "symbol \<Rightarrow> ast_symbol \<Rightarrow> ast_symbol \<times> ctype" where
  "map_symbol_members src dst_symbol =
     (dst_symbol\<lparr>as_unique := unique src, as_stype := stype src,
        as_ltype := linkage (sym_linkage src)\<rparr>,
      ctype_copy (c89type src))"

definition resolve_symbol :: "symbol list \<Rightarrow> ast_symbol \<Rightarrow> err \<Rightarrow> (ast_symbol \<times> ctype) result" where
  "resolve_symbol head use errtype =
     assert_that (as_unique use = NOT_YET_UNIQUE)
       (case symbols_get_anywhere head (as_name use) of
          None \<Rightarrow> make_result_tss errtype (as_name use)
        | Some resolved \<Rightarrow> Inr (map_symbol_members resolved use))"

definition resolve_var_usage :: "symbol list \<Rightarrow> ast_symbol \<Rightarrow> (ast_symbol \<times> ctype) result" where
  "resolve_var_usage head var =
     resolve_symbol head var (Sema_operand ERR_SEMA_VARIABLE_USAGE_WITHOUT_DECLARATION)"

definition resolve_function_call :: "symbol list \<Rightarrow> ast_symbol \<Rightarrow> (ast_symbol \<times> ctype) result" where
  "resolve_function_call head callee =
     resolve_symbol head callee (Sema ERR_SEMA_FUNCTION_CALL_UNDECLARED)"

section \<open>Declarations\<close>

definition set_linkage :: "symbol_linkage \<Rightarrow> symbol \<Rightarrow> symbol" where
  "set_linkage l s = s\<lparr>sym_linkage := (sym_linkage s)\<lparr>linkage := l\<rparr>\<rparr>"

definition declared_linkage :: "symbol_linkage \<Rightarrow> ast_specifier \<Rightarrow> symbol_linkage" where
  "declared_linkage assume_linkage specifier =
     (let l = (if specifier = SPECIFIER_EXTERN then SYMBOL_LINKAGE_EXTERNAL
               else SYMBOL_LINKAGE_NONE)
      in if linkage_num assume_linkage > linkage_num l then assume_linkage else l)"

text \<open>The symbol that a declaration pushes, when its name is not in the scope yet.\<close>

definition declare_symbol ::
  "ast_symbol \<Rightarrow> ctype \<Rightarrow> symbol_linkage \<Rightarrow> symbol list \<Rightarrow> symbol list" where
  "declare_symbol identifier vtype link symbols =
     (let anywhere = symbols_get_anywhere symbols (as_name identifier);
          symbols1 = symbols_prepend symbols (as_name identifier) SYMBOL_VARIABLE vtype;
          s = set_linkage link (hd symbols1)
      in (case anywhere of
            Some a \<Rightarrow>
              if is_external link \<and> some_linkage (linkage (sym_linkage a))
              then set_linkage (linkage (sym_linkage a)) (s\<lparr>unique := unique a\<rparr>) # tl symbols1
              else s # tl symbols1
          | None \<Rightarrow> s # tl symbols1))"

text \<open>\<open>resolve_declaration\<close> up to the initializer.\<close>

definition resolve_declared ::
  "ast_symbol \<Rightarrow> ast_specifier \<Rightarrow> ctype \<Rightarrow> symbol list \<Rightarrow> symbol_linkage \<Rightarrow>
    (ast_symbol \<times> ctype \<times> symbol list) result" where
  "resolve_declared identifier specifier vtype symbols assume_linkage =
     (let link = declared_linkage assume_linkage specifier
      in case symbols_get_limited symbols (as_name identifier) of
           Some in_scope \<Rightarrow>
             if is_external (linkage (sym_linkage in_scope)) \<and> is_external link
             then (case map_symbol_members in_scope identifier of (i, t) \<Rightarrow> Inr (i, t, symbols))
             else make_result_tss (Sema_operand ERR_SEMA_VARIABLE_DECLARATION_DUPLICATE)
                    (sym_name in_scope)
         | None \<Rightarrow>
             let symbols1 = declare_symbol identifier vtype link symbols
             in (case map_symbol_members (hd symbols1) identifier of
                   (i, t) \<Rightarrow> Inr (i, t, symbols1)))"

section \<open>Scopes\<close>

definition node_index :: "node \<Rightarrow> symbol list \<Rightarrow> nat" where
  "node_index point symbols = length symbols - point"

definition set_level_delimiter :: "node \<Rightarrow> bool \<Rightarrow> symbol list \<Rightarrow> symbol list" where
  "set_level_delimiter point b symbols =
     symbols[node_index point symbols :=
       (symbols ! node_index point symbols)\<lparr>level_delimiter := b\<rparr>]"

definition level_delimiter_prepare :: "node \<Rightarrow> symbol list \<Rightarrow> bool \<times> symbol list" where
  "level_delimiter_prepare point symbols =
     (if point = 0 then (False, symbols)
      else if level_delimiter (symbols ! node_index point symbols) then (False, symbols)
      else (True, set_level_delimiter point True symbols))"

definition level_delimiter_cleanup :: "bool \<Rightarrow> node \<Rightarrow> symbol list \<Rightarrow> symbol list" where
  "level_delimiter_cleanup cleanup point symbols =
     (if cleanup then set_level_delimiter point False symbols else symbols)"

text \<open>
  \<open>items\<close> is the loop over the items of the block; the rest of
  \<^verbatim>\<open>resolve_block_with_delimiter()\<close> opens the scope before it and closes it after it.
\<close>

definition resolve_block_with_delimiter ::
  "(symbol list \<Rightarrow> ('a \<times> symbol list) result) \<Rightarrow> symbol list \<Rightarrow> node \<Rightarrow>
    ('a \<times> symbol list) result" where
  "resolve_block_with_delimiter items syms level_delimiter_point =
     assert_that (syms \<noteq> [])
       (let (cleanup, sym1) = level_delimiter_prepare level_delimiter_point syms;
            outer_resetter = length sym1
        in check (items sym1) (\<lambda>(a, sym2).
           let sym3 = symbols_reset_scope sym2 outer_resetter
           in Inr (a, level_delimiter_cleanup cleanup level_delimiter_point sym3)))"

definition resolve_block ::
  "(symbol list \<Rightarrow> ('a \<times> symbol list) result) \<Rightarrow> symbol list \<Rightarrow> ('a \<times> symbol list) result" where
  "resolve_block items syms = resolve_block_with_delimiter items syms (length syms)"

section \<open>Functions\<close>

definition resolve_function_params_one ::
  "ast_parameter \<Rightarrow> symbol list \<Rightarrow> (ast_parameter \<times> symbol list) result" where
  "resolve_function_params_one a syms =
     (let adjust_type = ctype_array_decay_to_pointer (ctype_copy (parameter_type a));
          sym1 = symbols_prepend syms (as_name (p_symbol a)) SYMBOL_VARIABLE adjust_type;
          (i, dummy) = map_symbol_members (hd sym1) (p_symbol a)
      in assert_that (ctype_is_equal dummy adjust_type) (Inr (a\<lparr>p_symbol := i\<rparr>, sym1)))"

fun resolve_function_params ::
  "ast_parameter list \<Rightarrow> symbol list \<Rightarrow> (ast_parameter list \<times> symbol list) result" where
  "resolve_function_params [] syms = Inr ([], syms)"
| "resolve_function_params (cur # params) syms =
     (if as_name (p_symbol cur) = [] then Inr (cur # params, syms)
      else
        check (resolve_function_params_one cur syms) (\<lambda>(cur, syms).
        check (resolve_function_params params syms) (\<lambda>(params, syms).
        Inr (cur # params, syms))))"

text \<open>
  \<open>block\<close> is \<open>None\<close> for a declaration without a body; otherwise it resolves the body, or
  fails when the body is not a block.
\<close>

definition resolve_function_with ::
  "ast_symbol \<Rightarrow> ctype \<Rightarrow> ast_parameter list \<Rightarrow>
    (symbol list \<Rightarrow> ('a \<times> symbol list) result) option \<Rightarrow> symbol list \<Rightarrow>
    (ast_symbol \<times> ast_parameter list \<times> 'a option \<times> symbol list) result" where
  "resolve_function_with identifier ret_type params block symbols =
     (let st = (if block \<noteq> None then SYMBOL_FUNCTION_DEFINITION
                else SYMBOL_FUNCTION_DECLARATION);
          symbols1 = symbols_prepend symbols (as_name identifier) st ret_type;
          (identifier1, dummy) = map_symbol_members (hd symbols1) identifier
      in assert_that (ctype_is_equal dummy ret_type)
           (let before_params = length symbols1;
                (cleanup, symbols2) = level_delimiter_prepare before_params symbols1
            in check (resolve_function_params params symbols2) (\<lambda>(params, symbols3).
               check
                 (case block of
                    None \<Rightarrow> Inr (None, symbols3)
                  | Some items \<Rightarrow>
                      check (resolve_block_with_delimiter items symbols3 before_params)
                        (\<lambda>(b, symbols). Inr (Some b, symbols))) (\<lambda>(block, symbols4).
               let symbols5 = symbols_reset_scope symbols4 before_params
               in Inr (identifier1, params, block,
                    level_delimiter_cleanup cleanup before_params symbols5)))))"

section \<open>The tree\<close>

function resolve_expr :: "ast \<Rightarrow> symbol list \<Rightarrow> (ast \<times> symbol list) result"
  and resolve_opt :: "ast option \<Rightarrow> symbol list \<Rightarrow> (ast option \<times> symbol list) result"
  and resolve_exprs :: "ast list \<Rightarrow> symbol list \<Rightarrow> (ast list \<times> symbol list) result"
  and resolve_items :: "ast list \<Rightarrow> symbol list \<Rightarrow> (ast list \<times> symbol list) result"
  and resolve_item :: "symbol_linkage \<Rightarrow> ast \<Rightarrow> symbol list \<Rightarrow> (ast \<times> symbol list) result" where
  "resolve_expr (NODE_FUNCTION i sp rt ps b) syms = Inl Abort"
| "resolve_expr (NODE_BLOCK b) syms = Inl Abort"
| "resolve_expr (NODE_DECLARATION i sp vt init t) syms = Inl Abort"
| "resolve_expr (NODE_IF_ELSE c th el) syms =
     check (resolve_expr c syms) (\<lambda>(c, syms).
     check (resolve_block (\<lambda>syms. resolve_items th syms) syms) (\<lambda>(th, syms).
     check (resolve_block (\<lambda>syms. resolve_items el syms) syms) (\<lambda>(el, syms).
     Inr (NODE_IF_ELSE c th el, syms))))"
| "resolve_expr (NODE_LOOP pre b inc post le lc ls) syms =
     check (resolve_expr pre syms) (\<lambda>(pre, syms).
     check (resolve_expr post syms) (\<lambda>(post, syms).
     check (resolve_expr inc syms) (\<lambda>(inc, syms).
     check (resolve_block (\<lambda>syms. resolve_items b syms) syms) (\<lambda>(b, syms).
     Inr (NODE_LOOP pre b inc post le lc ls, syms)))))"
| "resolve_expr (NODE_SWITCH c b ld le cs) syms =
     check (resolve_expr c syms) (\<lambda>(c, syms).
     check (resolve_block (\<lambda>syms. resolve_items b syms) syms) (\<lambda>(b, syms).
     Inr (NODE_SWITCH c b ld le cs, syms)))"
| "resolve_expr (NODE_BREAK i) syms = Inr (NODE_BREAK i, syms)"
| "resolve_expr (NODE_CONTINUE i) syms = Inr (NODE_CONTINUE i, syms)"
| "resolve_expr (NODE_GOTO l i) syms = Inr (NODE_GOTO l i, syms)"
| "resolve_expr (NODE_LABEL l i) syms = Inr (NODE_LABEL l i, syms)"
| "resolve_expr (NODE_CASE c i) syms = Inr (NODE_CASE c i, syms)"
| "resolve_expr (NODE_CASE_DEFAULT i) syms = Inr (NODE_CASE_DEFAULT i, syms)"
| "resolve_expr (NODE_EXPRESSION_NULL t) syms = Inr (NODE_EXPRESSION_NULL t, syms)"
| "resolve_expr (NODE_CONSTANT v t) syms = Inr (NODE_CONSTANT v t, syms)"
| "resolve_expr (NODE_CONSTANT_STR s t) syms = Inr (NODE_CONSTANT_STR s t, syms)"
| "resolve_expr (NODE_EXPRESSION_INITIALIZER sg mu t) syms =
     check (resolve_opt sg syms) (\<lambda>(sg, syms).
     check (resolve_exprs mu syms) (\<lambda>(mu, syms).
     Inr (NODE_EXPRESSION_INITIALIZER sg mu t, syms)))"
| "resolve_expr (NODE_FUNCTION_RETURN_STATEMENT e) syms =
     check (resolve_expr e syms) (\<lambda>(e, syms). Inr (NODE_FUNCTION_RETURN_STATEMENT e, syms))"
| "resolve_expr (Op_unary u e t) syms =
     check (resolve_expr e syms) (\<lambda>(e, syms). Inr (Op_unary u e t, syms))"
| "resolve_expr (Op_binary b l r t) syms =
     check (resolve_expr l syms) (\<lambda>(l, syms).
     check (resolve_expr r syms) (\<lambda>(r, syms).
     Inr (Op_binary b l r t, syms)))"
| "resolve_expr (NODE_EXPRESSION_VARIABLE_USAGE var t) syms =
     check (resolve_var_usage syms var) (\<lambda>(var, t).
     Inr (NODE_EXPRESSION_VARIABLE_USAGE var t, syms))"
| "resolve_expr (Op_ternary c a b t) syms =
     check (resolve_expr c syms) (\<lambda>(c, syms).
     check (resolve_expr a syms) (\<lambda>(a, syms).
     check (resolve_expr b syms) (\<lambda>(b, syms).
     Inr (Op_ternary c a b t, syms))))"
| "resolve_expr (NODE_EXPRESSION_FUNCTION_CALL callee args t) syms =
     check (resolve_function_call syms callee) (\<lambda>(callee, t).
     check (resolve_exprs args syms) (\<lambda>(args, syms).
     Inr (NODE_EXPRESSION_FUNCTION_CALL callee args t, syms)))"
| "resolve_expr (NODE_EXPRESSION_CAST ty e t) syms =
     check (resolve_expr e syms) (\<lambda>(e, syms). Inr (NODE_EXPRESSION_CAST ty e t, syms))"
| "resolve_expr (NODE_SHARED e) syms =
     check (resolve_expr e syms) (\<lambda>(e, syms). Inr (NODE_SHARED e, syms))"
| "resolve_opt None syms = Inr (None, syms)"
| "resolve_opt (Some a) syms = check (resolve_expr a syms) (\<lambda>(a, syms). Inr (Some a, syms))"
| "resolve_exprs [] syms = Inr ([], syms)"
| "resolve_exprs (car # cdr) syms =
     check (resolve_expr car syms) (\<lambda>(car, syms).
     check (resolve_exprs cdr syms) (\<lambda>(cdr, syms). Inr (car # cdr, syms)))"
| "resolve_items [] syms = Inr ([], syms)"
| "resolve_items (car # cdr) syms =
     check (resolve_item SYMBOL_LINKAGE_NONE car syms) (\<lambda>(car, syms).
     check (resolve_items cdr syms) (\<lambda>(cdr, syms). Inr (car # cdr, syms)))"
| "resolve_item assume_linkage a syms =
     (case a of
        NODE_FUNCTION i sp rt ps block \<Rightarrow>
          check (resolve_function_with i rt ps
                   (case block of
                      None \<Rightarrow> None
                    | Some b \<Rightarrow>
                        Some (case b of
                          NODE_BLOCK items \<Rightarrow> \<lambda>syms. resolve_items items syms
                        | _ \<Rightarrow> \<lambda>syms. Inl Abort)) syms) (\<lambda>(i, ps, block, syms).
          Inr (NODE_FUNCTION i sp rt ps (map_option NODE_BLOCK block), syms))
      | NODE_DECLARATION i sp vt init t \<Rightarrow>
          check (resolve_declared i sp vt syms assume_linkage) (\<lambda>(i, t, syms).
          check (resolve_opt init syms) (\<lambda>(init, syms).
          Inr (NODE_DECLARATION i sp vt init t, syms)))
      | NODE_BLOCK items \<Rightarrow>
          check (resolve_block (\<lambda>syms. resolve_items items syms) syms) (\<lambda>(items, syms').
          Inr (NODE_BLOCK items, symbols_reset_scope syms' (length syms)))
      | _ \<Rightarrow> resolve_expr a syms)"
  by pat_completeness auto
termination
  by (relation "measure
      (case_sum
        (case_sum (\<lambda>(a, syms). 2 * size a) (\<lambda>(a, syms). 2 * size_option size a))
        (case_sum (\<lambda>(a, syms). 2 * size_list size a)
          (case_sum (\<lambda>(a, syms). 2 * size_list size a) (\<lambda>(l, a, syms). 2 * size a + 1))))")
    auto

text \<open>\<^verbatim>\<open>resolve_declaration()\<close> and \<^verbatim>\<open>resolve_function()\<close>, which insist on their node type.\<close>

definition resolve_declaration ::
  "ast \<Rightarrow> symbol list \<Rightarrow> symbol_linkage \<Rightarrow> (ast \<times> symbol list) result" where
  "resolve_declaration a symbols assume_linkage =
     (case a of
        NODE_DECLARATION _ _ _ _ _ \<Rightarrow> resolve_item assume_linkage a symbols
      | _ \<Rightarrow> Inl Abort)"

definition resolve_function :: "ast \<Rightarrow> symbol list \<Rightarrow> (ast \<times> symbol list) result" where
  "resolve_function a symbols =
     (case a of
        NODE_FUNCTION _ _ _ _ _ \<Rightarrow> resolve_item SYMBOL_LINKAGE_NONE a symbols
      | _ \<Rightarrow> Inl Abort)"

section \<open>\<open>parse_init\<close>\<close>

fun resolve_globals :: "ast list \<Rightarrow> symbol list \<Rightarrow> (ast list \<times> symbol list) result" where
  "resolve_globals [] symbols = Inr ([], symbols)"
| "resolve_globals (car # cdr) symbols =
     check
       (case car of
          NODE_FUNCTION _ _ _ _ _ \<Rightarrow> resolve_function car symbols
        | NODE_DECLARATION _ _ _ _ _ \<Rightarrow> resolve_declaration car symbols SYMBOL_LINKAGE_EXTERNAL
        | _ \<Rightarrow> Inl Abort) (\<lambda>(car, symbols).
     check (resolve_globals cdr symbols) (\<lambda>(cdr, symbols). Inr (car # cdr, symbols)))"

text \<open>
  \<open>generator\<close> is the value of \<^verbatim>\<open>*generator\<close>, or \<open>None\<close> when the caller passes no generator
  (then nothing is resolved).
\<close>

definition parse_init :: "token list \<Rightarrow> int option \<Rightarrow> (program \<times> int option) result" where
  "parse_init tok generator =
     check (parse_program tok) (\<lambda>p.
     case generator of
       None \<Rightarrow> Inr (p, None)
     | Some g \<Rightarrow>
         check (resolve_globals (globals p) []) (\<lambda>(gs, symbols).
         Inr (NODE_PROGRAM gs, Some (case symbols of [] \<Rightarrow> g | s # _ \<Rightarrow> cookie s))))"

end
