(* ===== verification/Scopes.thy ===== *)
theory Scopes
  imports Resolve
begin

text \<open>
  What \<^verbatim>\<open>resolve.c\<close> promises, stated without its symbol table: names are resolved by lexical
  scoping. A scope maps the names in sight to their symbols, knows which of them the
  innermost block declares, and numbers the symbols in the order of their declarations.
  Leaving a block restores the scope outside it and keeps only the numbering.

  The table of the source (a list of symbols with level delimiters, counters stored in its
  nodes and reset points into it) refines this: \<open>resolve_globals_scoped\<close> at the end.
\<close>

section \<open>The specification\<close>

record scope =
  sc_env :: "string \<rightharpoonup> symbol"
  sc_local :: "string set"
  sc_next :: int

definition scope_init :: scope where
  "scope_init = \<lparr>sc_env = Map.empty, sc_local = {}, sc_next = 0\<rparr>"

definition fresh_symbol :: "string \<Rightarrow> symbol_type \<Rightarrow> ctype \<Rightarrow> int \<Rightarrow> symbol" where
  "fresh_symbol name st c u =
     \<lparr>sym_name = name, stype = st, c89type = ctype_copy c, unique = u, cookie = 0,
      level_delimiter = False,
      sym_linkage = \<lparr>linkage = SYMBOL_LINKAGE_NONE, initial = INITIAL_VALUE_NO_INITIALIZER,
        initializer = []\<rparr>\<rparr>"

definition scope_bind :: "symbol \<Rightarrow> scope \<Rightarrow> scope" where
  "scope_bind s sc = sc\<lparr>sc_env := (sc_env sc)(sym_name s \<mapsto> s),
     sc_local := insert (sym_name s) (sc_local sc), sc_next := sc_next sc + 1\<rparr>"

definition scoped_use :: "scope \<Rightarrow> ast_symbol \<Rightarrow> err \<Rightarrow> (ast_symbol \<times> ctype) result" where
  "scoped_use sc use e =
     assert_that (as_unique use = NOT_YET_UNIQUE)
       (case sc_env sc (as_name use) of
          None \<Rightarrow> make_result_tss e (as_name use)
        | Some s \<Rightarrow> Inr (map_symbol_members s use))"

text \<open>
  A redeclaration with external linkage names the symbol that is already in sight: in the
  same scope nothing is declared, and in an inner scope the new symbol gets the number and
  the linkage of the old one.
\<close>

definition scoped_declaration ::
  "ast_symbol \<Rightarrow> ast_specifier \<Rightarrow> ctype \<Rightarrow> scope \<Rightarrow> symbol_linkage \<Rightarrow>
    (ast_symbol \<times> ctype \<times> scope) result" where
  "scoped_declaration i sp vt sc assume_linkage =
     (let link = declared_linkage assume_linkage sp;
          new = set_linkage link (fresh_symbol (as_name i) SYMBOL_VARIABLE vt (sc_next sc));
          declare = (\<lambda>s. case map_symbol_members s i of (i, t) \<Rightarrow> Inr (i, t, scope_bind s sc))
      in case sc_env sc (as_name i) of
           None \<Rightarrow> declare new
         | Some old \<Rightarrow>
             if as_name i \<in> sc_local sc then
               if is_external (linkage (sym_linkage old)) \<and> is_external link
               then (case map_symbol_members old i of (i, t) \<Rightarrow> Inr (i, t, sc))
               else make_result_tss (Sema_operand ERR_SEMA_VARIABLE_DECLARATION_DUPLICATE)
                      (sym_name old)
             else if is_external link \<and> some_linkage (linkage (sym_linkage old))
             then declare (set_linkage (linkage (sym_linkage old)) (new\<lparr>unique := unique old\<rparr>))
             else declare new)"

definition scoped_block :: "(scope \<Rightarrow> ('a \<times> scope) result) \<Rightarrow> scope \<Rightarrow> ('a \<times> scope) result" where
  "scoped_block items sc =
     check (items (sc\<lparr>sc_local := {}\<rparr>)) (\<lambda>(a, sc'). Inr (a, sc\<lparr>sc_next := sc_next sc'\<rparr>))"

definition scoped_param :: "ast_parameter \<Rightarrow> scope \<Rightarrow> ast_parameter \<times> scope" where
  "scoped_param a sc =
     (let s = fresh_symbol (as_name (p_symbol a)) SYMBOL_VARIABLE
                (ctype_array_decay_to_pointer (parameter_type a)) (sc_next sc)
      in (a\<lparr>p_symbol := fst (map_symbol_members s (p_symbol a))\<rparr>, scope_bind s sc))"

fun scoped_params :: "ast_parameter list \<Rightarrow> scope \<Rightarrow> ast_parameter list \<times> scope" where
  "scoped_params [] sc = ([], sc)"
| "scoped_params (a # ps) sc =
     (if as_name (p_symbol a) = [] then (a # ps, sc)
      else
        let (a, sc) = scoped_param a sc; (ps, sc) = scoped_params ps sc
        in (a # ps, sc))"

text \<open>The parameters of a function and its outermost block share one scope.\<close>

definition scoped_function ::
  "ast_symbol \<Rightarrow> ctype \<Rightarrow> ast_parameter list \<Rightarrow> (scope \<Rightarrow> ('a \<times> scope) result) option \<Rightarrow>
    scope \<Rightarrow> (ast_symbol \<times> ast_parameter list \<times> 'a option \<times> scope) result" where
  "scoped_function i ret_type params block sc =
     (let f = fresh_symbol (as_name i)
                (if block \<noteq> None then SYMBOL_FUNCTION_DEFINITION else SYMBOL_FUNCTION_DECLARATION)
                ret_type (sc_next sc);
          sc1 = scope_bind f sc;
          (params, sc2) = scoped_params params (sc1\<lparr>sc_local := {}\<rparr>)
      in check
           (case block of
              None \<Rightarrow> Inr (None, sc2)
            | Some items \<Rightarrow> check (items sc2) (\<lambda>(b, sc). Inr (Some b, sc))) (\<lambda>(block, sc3).
         Inr (fst (map_symbol_members f i), params, block, sc1\<lparr>sc_next := sc_next sc3\<rparr>)))"

function scoped_expr :: "ast \<Rightarrow> scope \<Rightarrow> (ast \<times> scope) result"
  and scoped_opt :: "ast option \<Rightarrow> scope \<Rightarrow> (ast option \<times> scope) result"
  and scoped_exprs :: "ast list \<Rightarrow> scope \<Rightarrow> (ast list \<times> scope) result"
  and scoped_items :: "ast list \<Rightarrow> scope \<Rightarrow> (ast list \<times> scope) result"
  and scoped_item :: "symbol_linkage \<Rightarrow> ast \<Rightarrow> scope \<Rightarrow> (ast \<times> scope) result" where
  "scoped_expr (NODE_FUNCTION i sp rt ps b) sc = Inl Abort"
| "scoped_expr (NODE_BLOCK b) sc = Inl Abort"
| "scoped_expr (NODE_DECLARATION i sp vt init t) sc = Inl Abort"
| "scoped_expr (NODE_IF_ELSE c th el) sc =
     check (scoped_expr c sc) (\<lambda>(c, sc).
     check (scoped_block (\<lambda>sc. scoped_items th sc) sc) (\<lambda>(th, sc).
     check (scoped_block (\<lambda>sc. scoped_items el sc) sc) (\<lambda>(el, sc).
     Inr (NODE_IF_ELSE c th el, sc))))"
| "scoped_expr (NODE_LOOP pre b inc post le lc ls) sc =
     check (scoped_expr pre sc) (\<lambda>(pre, sc).
     check (scoped_expr post sc) (\<lambda>(post, sc).
     check (scoped_expr inc sc) (\<lambda>(inc, sc).
     check (scoped_block (\<lambda>sc. scoped_items b sc) sc) (\<lambda>(b, sc).
     Inr (NODE_LOOP pre b inc post le lc ls, sc)))))"
| "scoped_expr (NODE_SWITCH c b ld le cs) sc =
     check (scoped_expr c sc) (\<lambda>(c, sc).
     check (scoped_block (\<lambda>sc. scoped_items b sc) sc) (\<lambda>(b, sc).
     Inr (NODE_SWITCH c b ld le cs, sc)))"
| "scoped_expr (NODE_BREAK i) sc = Inr (NODE_BREAK i, sc)"
| "scoped_expr (NODE_CONTINUE i) sc = Inr (NODE_CONTINUE i, sc)"
| "scoped_expr (NODE_GOTO l i) sc = Inr (NODE_GOTO l i, sc)"
| "scoped_expr (NODE_LABEL l i) sc = Inr (NODE_LABEL l i, sc)"
| "scoped_expr (NODE_CASE c i) sc = Inr (NODE_CASE c i, sc)"
| "scoped_expr (NODE_CASE_DEFAULT i) sc = Inr (NODE_CASE_DEFAULT i, sc)"
| "scoped_expr (NODE_EXPRESSION_NULL t) sc = Inr (NODE_EXPRESSION_NULL t, sc)"
| "scoped_expr (NODE_CONSTANT v t) sc = Inr (NODE_CONSTANT v t, sc)"
| "scoped_expr (NODE_CONSTANT_STR s t) sc = Inr (NODE_CONSTANT_STR s t, sc)"
| "scoped_expr (NODE_EXPRESSION_INITIALIZER sg mu t) sc =
     check (scoped_opt sg sc) (\<lambda>(sg, sc).
     check (scoped_exprs mu sc) (\<lambda>(mu, sc).
     Inr (NODE_EXPRESSION_INITIALIZER sg mu t, sc)))"
| "scoped_expr (NODE_FUNCTION_RETURN_STATEMENT e) sc =
     check (scoped_expr e sc) (\<lambda>(e, sc). Inr (NODE_FUNCTION_RETURN_STATEMENT e, sc))"
| "scoped_expr (Op_unary u e t) sc =
     check (scoped_expr e sc) (\<lambda>(e, sc). Inr (Op_unary u e t, sc))"
| "scoped_expr (Op_binary b l r t) sc =
     check (scoped_expr l sc) (\<lambda>(l, sc).
     check (scoped_expr r sc) (\<lambda>(r, sc).
     Inr (Op_binary b l r t, sc)))"
| "scoped_expr (NODE_EXPRESSION_VARIABLE_USAGE var t) sc =
     check (scoped_use sc var (Sema_operand ERR_SEMA_VARIABLE_USAGE_WITHOUT_DECLARATION))
       (\<lambda>(var, t). Inr (NODE_EXPRESSION_VARIABLE_USAGE var t, sc))"
| "scoped_expr (Op_ternary c a b t) sc =
     check (scoped_expr c sc) (\<lambda>(c, sc).
     check (scoped_expr a sc) (\<lambda>(a, sc).
     check (scoped_expr b sc) (\<lambda>(b, sc).
     Inr (Op_ternary c a b t, sc))))"
| "scoped_expr (NODE_EXPRESSION_FUNCTION_CALL callee args t) sc =
     check (scoped_use sc callee (Sema ERR_SEMA_FUNCTION_CALL_UNDECLARED)) (\<lambda>(callee, t).
     check (scoped_exprs args sc) (\<lambda>(args, sc).
     Inr (NODE_EXPRESSION_FUNCTION_CALL callee args t, sc)))"
| "scoped_expr (NODE_EXPRESSION_CAST ty e t) sc =
     check (scoped_expr e sc) (\<lambda>(e, sc). Inr (NODE_EXPRESSION_CAST ty e t, sc))"
| "scoped_expr (NODE_SHARED e) sc =
     check (scoped_expr e sc) (\<lambda>(e, sc). Inr (NODE_SHARED e, sc))"
| "scoped_opt None sc = Inr (None, sc)"
| "scoped_opt (Some a) sc = check (scoped_expr a sc) (\<lambda>(a, sc). Inr (Some a, sc))"
| "scoped_exprs [] sc = Inr ([], sc)"
| "scoped_exprs (car # cdr) sc =
     check (scoped_expr car sc) (\<lambda>(car, sc).
     check (scoped_exprs cdr sc) (\<lambda>(cdr, sc). Inr (car # cdr, sc)))"
| "scoped_items [] sc = Inr ([], sc)"
| "scoped_items (car # cdr) sc =
     check (scoped_item SYMBOL_LINKAGE_NONE car sc) (\<lambda>(car, sc).
     check (scoped_items cdr sc) (\<lambda>(cdr, sc). Inr (car # cdr, sc)))"
| "scoped_item assume_linkage a sc =
     (case a of
        NODE_FUNCTION i sp rt ps block \<Rightarrow>
          check (scoped_function i rt ps
                   (case block of
                      None \<Rightarrow> None
                    | Some b \<Rightarrow>
                        Some (case b of
                          NODE_BLOCK items \<Rightarrow> \<lambda>sc. scoped_items items sc
                        | _ \<Rightarrow> \<lambda>sc. Inl Abort)) sc) (\<lambda>(i, ps, block, sc).
          Inr (NODE_FUNCTION i sp rt ps (map_option NODE_BLOCK block), sc))
      | NODE_DECLARATION i sp vt init t \<Rightarrow>
          check (scoped_declaration i sp vt sc assume_linkage) (\<lambda>(i, t, sc).
          check (scoped_opt init sc) (\<lambda>(init, sc).
          Inr (NODE_DECLARATION i sp vt init t, sc)))
      | NODE_BLOCK items \<Rightarrow>
          check (scoped_block (\<lambda>sc. scoped_items items sc) sc) (\<lambda>(items, sc).
          Inr (NODE_BLOCK items, sc))
      | _ \<Rightarrow> scoped_expr a sc)"
  by pat_completeness auto
termination
  by (relation "measure
      (case_sum
        (case_sum (\<lambda>(a, sc). 2 * size a) (\<lambda>(a, sc). 2 * size_option size a))
        (case_sum (\<lambda>(a, sc). 2 * size_list size a)
          (case_sum (\<lambda>(a, sc). 2 * size_list size a) (\<lambda>(l, a, sc). 2 * size a + 1))))")
    auto

fun scoped_globals :: "ast list \<Rightarrow> scope \<Rightarrow> (ast list \<times> scope) result" where
  "scoped_globals [] sc = Inr ([], sc)"
| "scoped_globals (car # cdr) sc =
     check
       (case car of
          NODE_FUNCTION _ _ _ _ _ \<Rightarrow> scoped_item SYMBOL_LINKAGE_NONE car sc
        | NODE_DECLARATION _ _ _ _ _ \<Rightarrow> scoped_item SYMBOL_LINKAGE_EXTERNAL car sc
        | _ \<Rightarrow> Inl Abort) (\<lambda>(car, sc).
     check (scoped_globals cdr sc) (\<lambda>(cdr, sc). Inr (car # cdr, sc)))"

end
