(* ===== verification/ScopesFacts.thy ===== *)
theory ScopesFacts
  imports Scopes
begin

text \<open>
  The symbol table of \<^verbatim>\<open>resolve.c\<close> implements lexical scopes: \<open>scope_of\<close> reads the scope off
  the table, and every function of \<open>Resolve\<close> commutes with its specification in \<open>Scopes\<close>.
\<close>

section \<open>The scope of a table\<close>

definition scope_of :: "symbol list \<Rightarrow> scope" where
  "scope_of ss = \<lparr>sc_env = symbols_env ss,
     sc_local = sym_name ` set (takeWhile (\<lambda>s. \<not> level_delimiter s) ss),
     sc_next = symbols_bound ss + 1\<rparr>"

lemma scope_of_simps [simp]:
  "sc_env (scope_of ss) = symbols_env ss"
  "sc_next (scope_of ss) = symbols_bound ss + 1"
  by (simp_all add: scope_of_def)

lemma scope_of_Nil: "scope_of [] = scope_init"
  by (simp add: scope_of_def scope_init_def symbols_bound_def)

text \<open>
  What is in front of the table when a routine is entered stays there; only the counter in
  its first node may change.
\<close>

definition recook :: "int \<Rightarrow> symbol list \<Rightarrow> symbol list" where
  "recook c ss = (case ss of [] \<Rightarrow> [] | s # r \<Rightarrow> s\<lparr>cookie := c\<rparr> # r)"

definition grown :: "symbol list \<Rightarrow> symbol list \<Rightarrow> bool" where
  "grown ss ss' \<longleftrightarrow> (\<exists>new c. ss' = new @ recook c ss)"

lemma recook_simps [simp]:
  "recook c [] = []"
  "recook c (s # r) = s\<lparr>cookie := c\<rparr> # r"
  "recook c ss = [] \<longleftrightarrow> ss = []"
  "length (recook c ss) = length ss"
  "recook c (recook d ss) = recook c ss"
  "symbols_env (recook c ss) = symbols_env ss"
  by (cases ss; simp add: recook_def)+

lemma recook_self: "ss \<noteq> [] \<Longrightarrow> recook (cookie (hd ss)) ss = ss"
  by (cases ss) simp_all

lemma recook_append: "recook c (xs @ ys) = (if xs = [] then recook c ys else recook c xs @ ys)"
  by (cases xs) simp_all

lemma grown_refl [simp]: "grown ss ss"
proof (cases ss)
  case (Cons s r)
  then have "ss = [] @ recook (cookie s) ss" by simp
  then show ?thesis unfolding grown_def by blast
qed (simp add: grown_def)

lemma grown_recook [simp]: "grown ss (recook c ss)"
  unfolding grown_def by (metis append_Nil)

lemma grown_Cons [simp]: "grown ss (s # ss)"
proof (cases ss)
  case (Cons t r)
  then have "s # ss = [s] @ recook (cookie t) ss" by simp
  then show ?thesis unfolding grown_def by blast
qed (simp add: grown_def)

lemma grownI: "ss' = new @ recook c ss \<Longrightarrow> grown ss ss'"
  by (auto simp: grown_def)

lemma grown_trans [trans]:
  assumes "grown xs ys" "grown ys zs"
  shows "grown xs zs"
proof -
  obtain n c n' c' where "ys = n @ recook c xs" "zs = n' @ recook c' ys"
    using assms by (auto simp: grown_def)
  then show ?thesis
    by (cases "n = []")
      (auto simp: recook_append intro: grownI [of _ n' c'] grownI [of _ "n' @ recook c' n" c])
qed

lemma grown_nonempty: "grown ss ss' \<Longrightarrow> ss \<noteq> [] \<Longrightarrow> ss' \<noteq> []"
  by (auto simp: grown_def)

lemma scope_of_recook:
  "ss \<noteq> [] \<Longrightarrow> scope_of (recook c ss) = scope_of ss\<lparr>sc_next := c + 1\<rparr>"
  by (cases ss; cases "level_delimiter (hd ss)") (simp_all add: scope_of_def symbols_bound_def)

lemma reset_grown:
  assumes "grown ss ss'" "ss \<noteq> []"
  shows "symbols_reset_scope ss' (length ss) = recook (symbols_bound ss') ss"
proof -
  obtain new c where ss': "ss' = new @ recook c ss" using assms(1) by (auto simp: grown_def)
  have "ss' \<noteq> []" using grown_nonempty [OF assms] .
  then have "symbols_bound ss' = cookie (hd ss')" by (cases ss') (simp_all add: symbols_bound_def)
  moreover have "suffix_at (length ss) ss' = recook c ss"
    unfolding ss' using suffix_at_length [of "recook c ss" new] by simp
  ultimately show ?thesis
    using assms(2) by (cases ss) (simp_all add: symbols_reset_scope_def)
qed

lemma inv_recook:
  assumes "symbols_inv ss'" "grown ss ss'" "ss \<noteq> []"
  shows "symbols_inv (recook (symbols_bound ss') ss)"
proof -
  have "length ss \<le> length ss'" using assms(2) by (auto simp: grown_def)
  then show ?thesis
    using symbols_inv_reset [OF assms(1), of "length ss"] assms(3) reset_grown [OF assms(2,3)] by simp
qed

lemma get_anywhere_env: "symbols_env ss name = map_option sym_view (symbols_get_anywhere ss name)"
  by (simp add: symbols_env_def)

lemma get_limited_local:
  "symbols_get_limited ss name =
     (if name \<in> sc_local (scope_of ss) then symbols_get_anywhere ss name else None)"
  unfolding get_limited_takeWhile symbols_get_anywhere_def scope_of_def
  by (induction ss) auto

section \<open>The relation\<close>

definition refines :: "('a \<times> symbol list) result \<Rightarrow> ('a \<times> scope) result \<Rightarrow> symbol list \<Rightarrow> bool" where
  "refines m m' ss =
     (case m of
        Inl e \<Rightarrow> m' = Inl e
      | Inr (a, ss') \<Rightarrow> m' = Inr (a, scope_of ss') \<and> grown ss ss' \<and> symbols_inv ss')"

lemma refines_simps [simp]:
  "refines (Inr (a, ss')) m' ss \<longleftrightarrow> m' = Inr (a, scope_of ss') \<and> grown ss ss' \<and> symbols_inv ss'"
  "refines (Inl e) m' ss \<longleftrightarrow> m' = Inl e"
  by (simp_all add: refines_def)

lemma refines_check:
  assumes "refines m m' ss"
    and "\<And>a ss'. symbols_inv ss' \<Longrightarrow> grown ss ss' \<Longrightarrow> refines (k (a, ss')) (k' (a, scope_of ss')) ss'"
  shows "refines (check m k) (check m' k') ss"
proof (cases m)
  case (Inr x)
  obtain a ss' where x: "x = (a, ss')" by (cases x)
  have "refines (k (a, ss')) (k' (a, scope_of ss')) ss'" "grown ss ss'"
    using assms Inr x by simp_all
  then show ?thesis
    using assms(1) Inr x by (auto simp: refines_def split: sum.splits intro: grown_trans)
qed (use assms(1) in simp)

text \<open>A routine refines its specification on every table that is not empty.\<close>

abbreviation refines_on :: "(symbol list \<Rightarrow> ('a \<times> symbol list) result) \<Rightarrow> (scope \<Rightarrow> ('a \<times> scope) result) \<Rightarrow> bool" where
  "refines_on f g \<equiv> \<forall>ss. symbols_inv ss \<longrightarrow> ss \<noteq> [] \<longrightarrow> refines (f ss) (g (scope_of ss)) ss"

lemma refines_onD: "refines_on f g \<Longrightarrow> symbols_inv ss \<Longrightarrow> ss \<noteq> [] \<Longrightarrow> refines (f ss) (g (scope_of ss)) ss"
  by blast

lemma refines_on_check:
  assumes "refines_on f g" "\<And>a. refines_on (\<lambda>ss. k (a, ss)) (\<lambda>sc. k' (a, sc))"
  shows "refines_on (\<lambda>ss. check (f ss) k) (\<lambda>sc. check (g sc) k')"
  using assms by (auto intro!: refines_check dest: grown_nonempty)

section \<open>Blocks\<close>

lemma resolve_block_refines:
  assumes items: "refines_on items items'" and ss: "symbols_inv ss" "ss \<noteq> []"
  shows "case resolve_block items ss of
      Inl e \<Rightarrow> scoped_block items' (scope_of ss) = Inl e
    | Inr (a, ss') \<Rightarrow> (\<exists>c. ss' = recook c ss) \<and> symbols_inv ss' \<and>
        scoped_block items' (scope_of ss) = Inr (a, scope_of ss')"
proof -
  obtain h t where h: "ss = h # t" using ss(2) by (cases ss) auto
  let ?open = "h\<lparr>level_delimiter := True\<rparr> # t"
  have inv: "symbols_inv ?open" using ss(1) h by (auto simp: symbols_inv_def)
  have sc: "scope_of ?open = scope_of ss\<lparr>sc_local := {}\<rparr>"
    by (simp add: h scope_of_def symbols_bound_def)
  have prep: "level_delimiter_prepare (length ss) ss = (\<not> level_delimiter h, ?open)"
    by (cases "level_delimiter h")
      (simp_all add: h level_delimiter_prepare_def set_level_delimiter_def node_index_def)
  have ref: "refines (items ?open) (items' (scope_of ss\<lparr>sc_local := {}\<rparr>)) ?open"
    using refines_onD [OF items inv] sc by simp
  show ?thesis
  proof (cases "items ?open")
    case (Inl e)
    then show ?thesis
      using ref ss(2) by (simp add: resolve_block_def resolve_block_with_delimiter_def prep scoped_block_def)
  next
    case (Inr x)
    obtain a ss2 where x: "x = (a, ss2)" by (cases x)
    have r: "items' (scope_of ss\<lparr>sc_local := {}\<rparr>) = Inr (a, scope_of ss2)" "grown ?open ss2" "symbols_inv ss2"
      using ref Inr x by simp_all
    have reset: "symbols_reset_scope ss2 (length ?open) = recook (symbols_bound ss2) ?open"
      by (rule reset_grown [OF r(2)]) simp
    have inv': "symbols_inv (recook (symbols_bound ss2) ?open)"
      by (rule inv_recook [OF r(3,2)]) simp
    have clean: "level_delimiter_cleanup (\<not> level_delimiter h) (length ss) (recook (symbols_bound ss2) ?open) =
        recook (symbols_bound ss2) ss"
      by (cases "level_delimiter h")
        (simp_all add: h level_delimiter_cleanup_def set_level_delimiter_def node_index_def)
    have "symbols_inv (recook (symbols_bound ss2) ss)"
      using inv' h by (auto simp: symbols_inv_def)
    then show ?thesis
      using ss(2) r reset clean scope_of_recook [OF ss(2)]
      by (auto simp: resolve_block_def resolve_block_with_delimiter_def prep Inr x scoped_block_def
          simp del: length_Cons)
  qed
qed

lemma block_refines [intro]:
  "refines_on items items' \<Longrightarrow> refines_on (resolve_block items) (scoped_block items')"
  using resolve_block_refines [of items items']
  by (fastforce simp: refines_def split: sum.splits)

lemma block_item_refines:
  assumes items: "refines_on items items'"
  shows "refines_on
     (\<lambda>ss. check (resolve_block items ss) (\<lambda>(a, ss'). Inr (f a, symbols_reset_scope ss' (length ss))))
     (\<lambda>sc. check (scoped_block items' sc) (\<lambda>(a, sc). Inr (f a, sc)))"
proof (intro allI impI)
  fix ss :: "symbol list" assume ss: "symbols_inv ss" "ss \<noteq> []"
  have "symbols_reset_scope (recook c ss) (length ss) = recook c ss" for c
    using reset_grown [of "recook c ss" "recook c ss"] ss(2)
    by (cases ss) (simp_all add: symbols_bound_def)
  then show "refines
     (check (resolve_block items ss) (\<lambda>(a, ss'). Inr (f a, symbols_reset_scope ss' (length ss))))
     (check (scoped_block items' (scope_of ss)) (\<lambda>(a, sc). Inr (f a, sc))) ss"
    using resolve_block_refines [OF items ss] by (auto split: sum.splits)
qed

section \<open>Declarations\<close>

lemma map_symbol_members_view [simp]: "map_symbol_members (sym_view s) i = map_symbol_members s i"
  by (simp add: map_symbol_members_def sym_view_def)

lemma use_refines:
  "resolve_symbol ss use e = scoped_use (scope_of ss) use e"
  by (auto simp: resolve_symbol_def scoped_use_def get_anywhere_env split: option.split)

text \<open>Pushing a symbol declares it; the pushed node may have been given another number.\<close>

lemma symbols_prepend_eq:
  "symbols_inv ss \<Longrightarrow> symbols_prepend ss name st c =
     (fresh_symbol name st c (symbols_bound ss + 1))\<lparr>cookie := symbols_bound ss + 1\<rparr> # ss"
  by (cases ss) (auto simp: symbols_prepend_def fresh_symbol_def symbols_inv_def symbols_bound_def
      Let_def max_def)

lemma scope_of_bind:
  assumes "cookie s = symbols_bound ss + 1" "level_delimiter s = False"
  shows "scope_of (s # ss) = scope_bind (s\<lparr>cookie := 0\<rparr>) (scope_of ss)"
proof -
  have "sym_view s = s\<lparr>cookie := 0\<rparr>" using assms(2) by (cases s) (simp add: sym_view_def)
  then show ?thesis using assms by (simp add: scope_of_def scope_bind_def symbols_bound_def)
qed

lemma inv_bound: "symbols_inv ss \<Longrightarrow> s \<in> set ss \<Longrightarrow> 0 \<le> unique s \<and> unique s \<le> symbols_bound ss"
  by (cases ss) (auto simp: symbols_inv_def symbols_bound_def)

lemma inv_bound_ge: "symbols_inv ss \<Longrightarrow> -1 \<le> symbols_bound ss"
  by (cases ss) (auto simp: symbols_inv_def symbols_bound_def)

lemma inv_push:
  assumes "symbols_inv ss" "cookie s = symbols_bound ss + 1" "0 \<le> unique s" "unique s \<le> cookie s"
  shows "symbols_inv (s # ss)"
  using assms inv_bound [OF assms(1)] by (fastforce simp: symbols_inv_def)

lemma fresh_symbol_simps [simp]:
  "sym_name (fresh_symbol n st c u) = n" "unique (fresh_symbol n st c u) = u"
  "cookie (fresh_symbol n st c u) = 0" "level_delimiter (fresh_symbol n st c u) = False"
  "c89type (fresh_symbol n st c u) = c" "stype (fresh_symbol n st c u) = st"
  by (simp_all add: fresh_symbol_def)

lemma set_linkage_simps [simp]:
  "sym_name (set_linkage l s) = sym_name s" "unique (set_linkage l s) = unique s"
  "cookie (set_linkage l s) = cookie s" "level_delimiter (set_linkage l s) = level_delimiter s"
  "(set_linkage l s)\<lparr>cookie := k\<rparr> = set_linkage l (s\<lparr>cookie := k\<rparr>)"
  "set_linkage l (set_linkage l' s) = set_linkage l s"
  "set_linkage l (s\<lparr>unique := u\<rparr>) = (set_linkage l s)\<lparr>unique := u\<rparr>"
  by (simp_all add: set_linkage_def)

lemma fresh_symbol_cookie [simp]: "(fresh_symbol n st c u)\<lparr>cookie := 0\<rparr> = fresh_symbol n st c u"
  by (simp add: fresh_symbol_def)

lemma unique_cookie [simp]: "s\<lparr>unique := u, cookie := k\<rparr> = s\<lparr>cookie := k, unique := u\<rparr>"
  by simp

lemma map_symbol_members_cookie [simp]:
  "map_symbol_members (set_linkage l (s\<lparr>cookie := k\<rparr>)) i = map_symbol_members (set_linkage l s) i"
  "map_symbol_members (s\<lparr>cookie := k, unique := u\<rparr>) i = map_symbol_members (s\<lparr>unique := u\<rparr>) i"
  "map_symbol_members ((set_linkage l (s\<lparr>cookie := k\<rparr>))\<lparr>unique := u\<rparr>) i = map_symbol_members ((set_linkage l s)\<lparr>unique := u\<rparr>) i"
  "map_symbol_members (s\<lparr>cookie := k\<rparr>) i = map_symbol_members s i"
  by (simp_all add: map_symbol_members_def set_linkage_def)

lemma declare_refines:
  assumes ss: "symbols_inv ss" and s: "0 \<le> unique s" "unique s \<le> symbols_bound ss + 1"
    "level_delimiter s = False" "cookie s = symbols_bound ss + 1"
  shows "scope_of (s # ss) = scope_bind (s\<lparr>cookie := 0\<rparr>) (scope_of ss) \<and> grown ss (s # ss) \<and>
     symbols_inv (s # ss)"
  using s scope_of_bind [of s ss] inv_push [OF ss, of s] by simp

lemma resolve_declared_refines:
  assumes ss: "symbols_inv ss"
  shows "case resolve_declared i sp vt ss l of
      Inl e \<Rightarrow> scoped_declaration i sp vt (scope_of ss) l = Inl e
    | Inr (j, t, ss') \<Rightarrow> scoped_declaration i sp vt (scope_of ss) l = Inr (j, t, scope_of ss') \<and>
        grown ss ss' \<and> symbols_inv ss'"
proof -
  let ?link = "declared_linkage l sp"
  let ?u = "symbols_bound ss + 1"
  let ?new = "set_linkage ?link ((fresh_symbol (as_name i) SYMBOL_VARIABLE vt ?u)\<lparr>cookie := ?u\<rparr>)"
  have u: "0 \<le> ?u" using inv_bound_ge [OF ss] by simp
  show ?thesis
  proof (cases "symbols_get_anywhere ss (as_name i)")
    case None
    have lim: "symbols_get_limited ss (as_name i) = None"
      using None by (simp add: get_limited_local)
    have decl: "declare_symbol i vt ?link ss = ?new # ss"
      by (simp add: declare_symbol_def None symbols_prepend_eq [OF ss] Let_def)
    show ?thesis
      using declare_refines [OF ss, of ?new] u
      by (simp add: resolve_declared_def lim decl scoped_declaration_def get_anywhere_env None Let_def
          split: prod.split)
  next
    case (Some old)
    have old: "0 \<le> unique old" "unique old \<le> symbols_bound ss"
      using inv_bound [OF ss] get_anywhere_name [OF Some] by auto
    show ?thesis
    proof (cases "as_name i \<in> sc_local (scope_of ss)")
      case True
      then have lim: "symbols_get_limited ss (as_name i) = Some old"
        using Some by (simp add: get_limited_local)
      show ?thesis
        using True ss by (simp add: resolve_declared_def lim scoped_declaration_def get_anywhere_env Some
            Let_def make_result_defs split: prod.split)
    next
      case False
      then have lim: "symbols_get_limited ss (as_name i) = None"
        using Some by (simp add: get_limited_local)
      show ?thesis
      proof (cases "is_external ?link \<and> some_linkage (linkage (sym_linkage old))")
        case True
        let ?s = "set_linkage (linkage (sym_linkage old)) (?new\<lparr>unique := unique old\<rparr>)"
        have decl: "declare_symbol i vt ?link ss = ?s # ss"
          using True by (simp add: declare_symbol_def Some symbols_prepend_eq [OF ss] Let_def)
        show ?thesis
          using declare_refines [OF ss, of ?s] u old False True
          by (simp add: resolve_declared_def lim decl scoped_declaration_def get_anywhere_env Some Let_def
              split: prod.split)
      next
        case no: False
        have decl: "declare_symbol i vt ?link ss = ?new # ss"
          using no by (auto simp: declare_symbol_def Some symbols_prepend_eq [OF ss] Let_def)
        show ?thesis
          using declare_refines [OF ss, of ?new] u False no
          by (auto simp: resolve_declared_def lim decl scoped_declaration_def get_anywhere_env Some Let_def
              split: prod.split)
      qed
    qed
  qed
qed

section \<open>Functions\<close>

lemma push_refines:
  assumes "symbols_inv ss"
  shows "scope_of (symbols_prepend ss n st c) = scope_bind (fresh_symbol n st c (symbols_bound ss + 1)) (scope_of ss) \<and>
    grown ss (symbols_prepend ss n st c) \<and> symbols_inv (symbols_prepend ss n st c)"
  using declare_refines [OF assms, of "(fresh_symbol n st c (symbols_bound ss + 1))\<lparr>cookie := symbols_bound ss + 1\<rparr>"]
    inv_bound_ge [OF assms]
  by (simp add: symbols_prepend_eq [OF assms])

lemma params_refine:
  "symbols_inv ss \<Longrightarrow> \<exists>ps' ss'. resolve_function_params ps ss = Inr (ps', ss') \<and>
     scoped_params ps (scope_of ss) = (ps', scope_of ss') \<and> grown ss ss' \<and> symbols_inv ss'"
proof (induction ps arbitrary: ss)
  case (Cons a ps)
  show ?case
  proof (cases "as_name (p_symbol a) = []")
    case False
    let ?t = "ctype_array_decay_to_pointer (parameter_type a)"
    let ?ss = "symbols_prepend ss (as_name (p_symbol a)) SYMBOL_VARIABLE ?t"
    note push = push_refines [OF Cons.prems, of "as_name (p_symbol a)" SYMBOL_VARIABLE ?t]
    have one: "resolve_function_params_one a ss = Inr (fst (scoped_param a (scope_of ss)), ?ss)"
      by (simp add: resolve_function_params_one_def scoped_param_def Let_def assert_that_def
          map_symbol_members_def symbols_prepend_eq [OF Cons.prems] set_linkage_def fresh_symbol_def)
    have two: "snd (scoped_param a (scope_of ss)) = scope_of ?ss"
      using push by (simp add: scoped_param_def Let_def)
    obtain ps' ss' where "resolve_function_params ps ?ss = Inr (ps', ss')"
      "scoped_params ps (scope_of ?ss) = (ps', scope_of ss')" "grown ?ss ss'" "symbols_inv ss'"
      using Cons.IH push by blast
    then show ?thesis
      using False one two push by (auto simp: split_beta Let_def intro: grown_trans)
  qed (use Cons.prems in auto)
qed auto

lemma function_refines:
  assumes ss: "symbols_inv ss"
    and block: "rel_option (\<lambda>f g. refines_on f g) block block'"
  shows "case resolve_function_with i rt ps block ss of
      Inl e \<Rightarrow> scoped_function i rt ps block' (scope_of ss) = Inl e
    | Inr (j, ps', b, ss') \<Rightarrow> scoped_function i rt ps block' (scope_of ss) = Inr (j, ps', b, scope_of ss') \<and>
        grown ss ss' \<and> symbols_inv ss'"
proof -
  define st where "st = (if block \<noteq> None then SYMBOL_FUNCTION_DEFINITION else SYMBOL_FUNCTION_DECLARATION)"
  define f where "f = fresh_symbol (as_name i) st rt (symbols_bound ss + 1)"
  define ss1 where "ss1 = symbols_prepend ss (as_name i) st rt"
  have f: "ss1 = f\<lparr>cookie := symbols_bound ss + 1\<rparr> # ss"
    by (simp add: ss1_def f_def symbols_prepend_eq [OF ss])
  define ss2 where "ss2 = hd ss1\<lparr>level_delimiter := True\<rparr> # ss"
  have push: "scope_of ss1 = scope_bind f (scope_of ss)" "grown ss ss1" "symbols_inv ss1"
    using push_refines [OF ss, of "as_name i" st rt] by (simp_all add: ss1_def f_def)
  have fd: "level_delimiter f = False" by (simp add: f_def)
  have prep: "level_delimiter_prepare (length ss1) ss1 = (True, ss2)"
    by (simp add: f fd level_delimiter_prepare_def set_level_delimiter_def node_index_def ss2_def)
  have inv2: "symbols_inv ss2" using push(3) by (auto simp: f ss2_def symbols_inv_def)
  have sc2: "scope_of ss2 = (scope_of ss1)\<lparr>sc_local := {}\<rparr>"
    by (simp add: f ss2_def scope_of_def symbols_bound_def)
  obtain ps' ss3 where ps: "resolve_function_params ps ss2 = Inr (ps', ss3)"
    "scoped_params ps (scope_of ss2) = (ps', scope_of ss3)" "grown ss2 ss3" "symbols_inv ss3"
    using params_refine [OF inv2] by blast
  obtain new c where ss3: "ss3 = new @ recook c ss2" using ps(3) by (auto simp: grown_def)
  have ne3: "ss3 \<noteq> []" using grown_nonempty [OF ps(3)] by (simp add: ss2_def)
  have prep3: "level_delimiter_prepare (length ss1) ss3 = (False, ss3)"
    by (simp add: level_delimiter_prepare_def node_index_def ss3 ss2_def f nth_append)
  have len: "length ss1 = length ss2" by (simp add: f ss2_def)
  have close: "symbols_reset_scope ss4 (length ss1) = recook (symbols_bound ss4) ss2 \<and>
      level_delimiter_cleanup True (length ss1) (recook (symbols_bound ss4) ss2) = recook (symbols_bound ss4) ss1 \<and>
      scope_of (recook (symbols_bound ss4) ss1) = (scope_of ss1)\<lparr>sc_next := symbols_bound ss4 + 1\<rparr> \<and>
      grown ss (recook (symbols_bound ss4) ss1) \<and> symbols_inv (recook (symbols_bound ss4) ss1)"
    if "grown ss2 ss4" "symbols_inv ss4" for ss4
  proof (intro conjI)
    show "symbols_reset_scope ss4 (length ss1) = recook (symbols_bound ss4) ss2"
      unfolding len by (rule reset_grown [OF that(1)]) (simp add: ss2_def)
    show "level_delimiter_cleanup True (length ss1) (recook (symbols_bound ss4) ss2) = recook (symbols_bound ss4) ss1"
      by (simp add: level_delimiter_cleanup_def set_level_delimiter_def node_index_def len)
        (simp add: ss2_def f fd)
    show "scope_of (recook (symbols_bound ss4) ss1) = (scope_of ss1)\<lparr>sc_next := symbols_bound ss4 + 1\<rparr>"
      by (rule scope_of_recook) (simp add: f)
    show "grown ss (recook (symbols_bound ss4) ss1)"
      using push(2) grown_recook by (rule grown_trans)
    have "symbols_inv (recook (symbols_bound ss4) ss2)"
      by (rule inv_recook [OF that(2,1)]) (simp add: ss2_def)
    then show "symbols_inv (recook (symbols_bound ss4) ss1)"
      by (auto simp: f ss2_def symbols_inv_def)
  qed
  let ?i = "fst (map_symbol_members f i)"
  have hd1: "map_symbol_members (hd ss1) i = (?i, rt)"
    by (simp add: f) (simp add: map_symbol_members_def f_def)
  have eq: "resolve_function_with i rt ps block ss =
      check (case block of None \<Rightarrow> Inr (None, ss3)
             | Some items \<Rightarrow> check (resolve_block_with_delimiter items ss3 (length ss1))
                 (\<lambda>(b, symbols). Inr (Some b, symbols))) (\<lambda>(b, ss4).
      Inr (?i, ps', b, level_delimiter_cleanup True (length ss1) (symbols_reset_scope ss4 (length ss1))))"
    unfolding resolve_function_with_def st_def [symmetric] ss1_def [symmetric] Let_def
    by (simp add: hd1 prep ps(1) assert_that_def)
  have block_None: "block' = None \<longleftrightarrow> block = None" using block by (cases block; cases block') auto
  have eq': "scoped_function i rt ps block' (scope_of ss) =
      check (case block' of None \<Rightarrow> Inr (None, scope_of ss3)
             | Some items \<Rightarrow> check (items (scope_of ss3)) (\<lambda>(b, sc). Inr (Some b, sc))) (\<lambda>(b, sc3).
      Inr (?i, ps', b, (scope_of ss1)\<lparr>sc_next := sc_next sc3\<rparr>))"
    using ps(2) sc2 unfolding scoped_function_def block_None st_def [symmetric] Let_def
    by (simp add: push(1) f_def)
  show ?thesis
  proof (cases block)
    case None
    then show ?thesis
      unfolding eq eq' using close [OF ps(3,4)] block_None by simp
  next
    case (Some items)
    then obtain items' where Some': "block' = Some items'" and items: "refines_on items items'"
      using block by (cases block') auto
    have ref: "refines (items ss3) (items' (scope_of ss3)) ss3"
      by (rule refines_onD [OF items ps(4) ne3])
    show ?thesis
    proof (cases "items ss3")
      case (Inl e)
      then show ?thesis
        unfolding eq eq' using ref ne3 by (simp add: Some Some' resolve_block_with_delimiter_def prep3)
    next
      case (Inr x)
      obtain b ss4 where x: "x = (b, ss4)" by (cases x)
      have r: "items' (scope_of ss3) = Inr (b, scope_of ss4)" "grown ss3 ss4" "symbols_inv ss4"
        using ref Inr x by simp_all
      let ?ss4 = "recook (symbols_bound ss4) ss3"
      have reset: "symbols_reset_scope ss4 (length ss3) = ?ss4" by (rule reset_grown [OF r(2) ne3])
      have inv4: "symbols_inv ?ss4" by (rule inv_recook [OF r(3,2) ne3])
      have bound4: "symbols_bound ?ss4 = symbols_bound ss4" using ne3 by (cases ss3) (simp_all add: symbols_bound_def)
      have "grown ss2 ?ss4" using ps(3) grown_recook by (rule grown_trans)
      from close [OF this inv4] show ?thesis
        unfolding eq eq' using ne3
        by (simp add: Some Some' resolve_block_with_delimiter_def prep3 Inr x r reset bound4
            level_delimiter_cleanup_def [of False])
    qed
  qed
qed

section \<open>The tree\<close>

lemma refines_next:
  assumes "refines m m' ss" "ss \<noteq> []"
    and "\<And>a ss'. symbols_inv ss' \<Longrightarrow> ss' \<noteq> [] \<Longrightarrow> refines (k a ss') (k' a (scope_of ss')) ss'"
  shows "refines (check m (\<lambda>(a, ss). k a ss)) (check m' (\<lambda>(a, sc). k' a sc)) ss"
  using assms by (auto intro!: refines_check dest: grown_nonempty)

lemma opt_refines:
  "(\<And>e. a = Some e \<Longrightarrow> refines_on (resolve_expr e) (scoped_expr e)) \<Longrightarrow> refines_on (resolve_opt a) (scoped_opt a)"
  by (cases a) (auto intro!: refines_next)

lemma exprs_refine:
  "(\<And>e. e \<in> set as \<Longrightarrow> refines_on (resolve_expr e) (scoped_expr e)) \<Longrightarrow> refines_on (resolve_exprs as) (scoped_exprs as)"
  by (induction as) (auto intro!: refines_next)

lemma items_refine:
  "(\<And>e. e \<in> set as \<Longrightarrow> \<forall>l. refines_on (resolve_item l e) (scoped_item l e)) \<Longrightarrow>
   refines_on (resolve_items as) (scoped_items as)"
  by (induction as) (auto intro!: refines_next simp del: resolve_item.simps scoped_item.simps)

lemma declaration_refines:
  assumes init: "refines_on (resolve_opt init) (scoped_opt init)" and ss: "symbols_inv ss"
  shows "refines (resolve_item l (NODE_DECLARATION i sp vt init t) ss)
     (scoped_item l (NODE_DECLARATION i sp vt init t) (scope_of ss)) ss"
proof (cases "resolve_declared i sp vt ss l")
  case (Inl e)
  then show ?thesis using resolve_declared_refines [OF ss, of i sp vt l] by simp
next
  case (Inr x)
  obtain j t' ss' where x: "x = (j, t', ss')" by (cases x)
  have r: "scoped_declaration i sp vt (scope_of ss) l = Inr (j, t', scope_of ss')" "grown ss ss'" "symbols_inv ss'"
    using resolve_declared_refines [OF ss, of i sp vt l] Inr x by simp_all
  have ne: "ss' \<noteq> []"
  proof
    assume e: "ss' = []"
    then have "ss = []" using r(2) by (simp add: grown_def)
    then show False using Inr x e
      by (simp add: resolve_declared_def get_limited_local declare_symbol_def symbols_get_anywhere_def
          scope_of_def Let_def split: prod.splits)
  qed
  have "refines (check (resolve_opt init ss') (\<lambda>(init, ss). Inr (NODE_DECLARATION j sp vt init t', ss)))
      (check (scoped_opt init (scope_of ss')) (\<lambda>(init, ss). Inr (NODE_DECLARATION j sp vt init t', ss))) ss'"
    by (rule refines_next [OF refines_onD [OF init r(3) ne] ne]) simp
  then have "refines (check (resolve_opt init ss') (\<lambda>(init, ss). Inr (NODE_DECLARATION j sp vt init t', ss)))
      (check (scoped_opt init (scope_of ss')) (\<lambda>(init, ss). Inr (NODE_DECLARATION j sp vt init t', ss))) ss"
    using r(2) by (auto simp: refines_def split: sum.splits intro: grown_trans)
  then show ?thesis by (simp add: Inr x r(1))
qed

definition block_of :: "ast \<Rightarrow> (symbol list \<Rightarrow> (ast list \<times> symbol list) result)" where
  "block_of b = (case b of NODE_BLOCK items \<Rightarrow> \<lambda>syms. resolve_items items syms | _ \<Rightarrow> \<lambda>syms. Inl Abort)"

definition scoped_block_of :: "ast \<Rightarrow> (scope \<Rightarrow> (ast list \<times> scope) result)" where
  "scoped_block_of b = (case b of NODE_BLOCK items \<Rightarrow> \<lambda>sc. scoped_items items sc | _ \<Rightarrow> \<lambda>sc. Inl Abort)"

lemma function_item_refines:
  assumes "\<And>b. block = Some b \<Longrightarrow> refines_on (block_of b) (scoped_block_of b)" and ss: "symbols_inv ss"
  shows "refines (resolve_item l (NODE_FUNCTION i sp rt ps block) ss)
     (scoped_item l (NODE_FUNCTION i sp rt ps block) (scope_of ss)) ss"
proof -
  have "rel_option (\<lambda>f g. refines_on f g) (map_option block_of block) (map_option scoped_block_of block)"
    using assms(1) by (cases block) auto
  from function_refines [OF ss this, of i rt ps] show ?thesis
    by (cases "resolve_function_with i rt ps (map_option block_of block) ss")
      (auto simp: block_of_def [abs_def] scoped_block_of_def [abs_def] map_option_case cong: option.case_cong)
qed

definition tree_ok :: "ast \<Rightarrow> bool" where
  "tree_ok a \<longleftrightarrow> refines_on (resolve_expr a) (scoped_expr a) \<and>
     (\<forall>l. refines_on (resolve_item l a) (scoped_item l a)) \<and>
     refines_on (block_of a) (scoped_block_of a)"

text \<open>Expressions and the statements that are not blocks.\<close>

lemma tree_okI:
  assumes "refines_on (resolve_expr a) (scoped_expr a)"
    "case a of NODE_FUNCTION _ _ _ _ _ \<Rightarrow> False | NODE_DECLARATION _ _ _ _ _ \<Rightarrow> False
     | NODE_BLOCK _ \<Rightarrow> False | _ \<Rightarrow> True"
  shows "tree_ok a"
  using assms by (cases a) (simp_all add: tree_ok_def block_of_def scoped_block_of_def)

lemma tree_ok_expr: "tree_ok a \<Longrightarrow> refines_on (resolve_expr a) (scoped_expr a)"
  by (simp add: tree_ok_def)

lemma tree_ok_next:
  assumes "tree_ok a" "symbols_inv ss" "ss \<noteq> []"
    and "\<And>a ss'. symbols_inv ss' \<Longrightarrow> ss' \<noteq> [] \<Longrightarrow> refines (k a ss') (k' a (scope_of ss')) ss'"
  shows "refines (check (resolve_expr a ss) (\<lambda>(a, ss). k a ss))
      (check (scoped_expr a (scope_of ss)) (\<lambda>(a, sc). k' a sc)) ss"
  by (rule refines_next [OF refines_onD [OF tree_ok_expr [OF assms(1)] assms(2,3)] assms(3,4)])

lemma block_next:
  assumes "\<And>e. e \<in> set items \<Longrightarrow> tree_ok e" "symbols_inv ss" "ss \<noteq> []"
    and "\<And>a ss'. symbols_inv ss' \<Longrightarrow> ss' \<noteq> [] \<Longrightarrow> refines (k a ss') (k' a (scope_of ss')) ss'"
  shows "refines (check (resolve_block (\<lambda>ss. resolve_items items ss) ss) (\<lambda>(a, ss). k a ss))
      (check (scoped_block (\<lambda>sc. scoped_items items sc) (scope_of ss)) (\<lambda>(a, sc). k' a sc)) ss"
proof -
  have "refines_on (resolve_items items) (scoped_items items)"
    by (rule items_refine) (use assms(1) in \<open>simp add: tree_ok_def\<close>)
  from refines_next [OF refines_onD [OF block_refines [OF this] assms(2,3)] assms(3,4)] show ?thesis .
qed

lemma exprs_next:
  assumes "\<And>e. e \<in> set as \<Longrightarrow> tree_ok e" "symbols_inv ss" "ss \<noteq> []"
    and "\<And>a ss'. symbols_inv ss' \<Longrightarrow> ss' \<noteq> [] \<Longrightarrow> refines (k a ss') (k' a (scope_of ss')) ss'"
  shows "refines (check (resolve_exprs as ss) (\<lambda>(a, ss). k a ss))
      (check (scoped_exprs as (scope_of ss)) (\<lambda>(a, sc). k' a sc)) ss"
proof -
  have "refines_on (resolve_exprs as) (scoped_exprs as)"
    by (rule exprs_refine) (use assms(1) tree_ok_expr in blast)
  from refines_next [OF refines_onD [OF this assms(2,3)] assms(3,4)] show ?thesis .
qed

lemma opt_next:
  assumes "\<And>e. a = Some e \<Longrightarrow> tree_ok e" "symbols_inv ss" "ss \<noteq> []"
    and "\<And>a ss'. symbols_inv ss' \<Longrightarrow> ss' \<noteq> [] \<Longrightarrow> refines (k a ss') (k' a (scope_of ss')) ss'"
  shows "refines (check (resolve_opt a ss) (\<lambda>(a, ss). k a ss))
      (check (scoped_opt a (scope_of ss)) (\<lambda>(a, sc). k' a sc)) ss"
proof -
  have "refines_on (resolve_opt a) (scoped_opt a)"
    by (rule opt_refines) (use assms(1) tree_ok_expr in blast)
  from refines_next [OF refines_onD [OF this assms(2,3)] assms(3,4)] show ?thesis .
qed

lemma use_next:
  assumes "symbols_inv ss" "\<And>i t. refines (k i t) (k' i t) ss"
  shows "refines (check (resolve_symbol ss u e) (\<lambda>(i, t). k i t))
     (check (scoped_use (scope_of ss) u e) (\<lambda>(i, t). k' i t)) ss"
  unfolding use_refines using assms(2) by (cases "scoped_use (scope_of ss) u e") auto

lemmas tree_nexts = tree_ok_next block_next exprs_next opt_next use_next

lemma tree_refines: "tree_ok a"
proof (induction a)
  case (NODE_FUNCTION i sp rt ps b)
  then show ?case
    by (auto simp del: resolve_item.simps scoped_item.simps simp: tree_ok_def block_of_def [of "NODE_FUNCTION _ _ _ _ _"]
        scoped_block_of_def [of "NODE_FUNCTION _ _ _ _ _"] intro!: function_item_refines)
next
  case (NODE_DECLARATION i sp vt init t)
  have "refines_on (resolve_opt init) (scoped_opt init)"
    by (rule opt_refines) (use NODE_DECLARATION in \<open>auto simp: tree_ok_def\<close>)
  then show ?case
    by (auto simp del: resolve_item.simps scoped_item.simps simp: tree_ok_def block_of_def
        scoped_block_of_def intro!: declaration_refines)
next
  case (NODE_BLOCK items)
  then have "refines_on (resolve_items items) (scoped_items items)"
    by (intro items_refine) (auto simp: tree_ok_def)
  then show ?case using block_item_refines [of "resolve_items items" "scoped_items items" NODE_BLOCK]
    by (simp add: tree_ok_def block_of_def scoped_block_of_def)
qed (rule tree_okI; auto simp: resolve_var_usage_def resolve_function_call_def intro!: tree_nexts)+

section \<open>Programs\<close>

lemma item_refines:
  assumes "symbols_inv ss"
    "case a of NODE_FUNCTION _ _ _ _ _ \<Rightarrow> True | NODE_DECLARATION _ _ _ _ _ \<Rightarrow> True | _ \<Rightarrow> False"
  shows "refines (resolve_item l a ss) (scoped_item l a (scope_of ss)) ss"
proof (cases a)
  case (NODE_FUNCTION i sp rt ps b)
  show ?thesis unfolding NODE_FUNCTION
    by (rule function_item_refines [OF _ assms(1)]) (use tree_refines tree_ok_def in blast)
next
  case (NODE_DECLARATION i sp vt init t)
  have "refines_on (resolve_opt init) (scoped_opt init)"
    by (rule opt_refines) (rule tree_ok_expr [OF tree_refines])
  then show ?thesis unfolding NODE_DECLARATION by (rule declaration_refines [OF _ assms(1)])
qed (use assms(2) in simp_all)

lemma globals_refine:
  "symbols_inv ss \<Longrightarrow> refines (resolve_globals gs ss) (scoped_globals gs (scope_of ss)) ss"
proof (induction gs arbitrary: ss)
  case (Cons a gs)
  have rest: "refines (check (resolve_globals gs ss') (\<lambda>(cdr, symbols). Inr (car # cdr, symbols)))
      (check (scoped_globals gs (scope_of ss')) (\<lambda>(cdr, sc). Inr (car # cdr, sc))) ss'"
    if "symbols_inv ss'" for car ss'
    by (rule refines_check [OF Cons.IH [OF that]]) simp
  have "refines
      (case a of
          NODE_FUNCTION _ _ _ _ _ \<Rightarrow> resolve_function a ss
        | NODE_DECLARATION _ _ _ _ _ \<Rightarrow> resolve_declaration a ss SYMBOL_LINKAGE_EXTERNAL
        | _ \<Rightarrow> Inl Abort)
      (case a of
          NODE_FUNCTION _ _ _ _ _ \<Rightarrow> scoped_item SYMBOL_LINKAGE_NONE a (scope_of ss)
        | NODE_DECLARATION _ _ _ _ _ \<Rightarrow> scoped_item SYMBOL_LINKAGE_EXTERNAL a (scope_of ss)
        | _ \<Rightarrow> Inl Abort) ss"
    using item_refines [OF Cons.prems, of a]
    by (cases a) (simp_all add: resolve_function_def resolve_declaration_def
        del: resolve_item.simps scoped_item.simps)
  then show ?case
    unfolding resolve_globals.simps scoped_globals.simps
    by (rule refines_check) (unfold prod.case, rule rest)
qed simp

text \<open>The whole pass: same tree, same error, same numbering.\<close>

lemma resolve_globals_scoped:
  "(case resolve_globals gs [] of
      Inl e \<Rightarrow> scoped_globals gs scope_init = Inl e
    | Inr (gs', ss) \<Rightarrow> scoped_globals gs scope_init = Inr (gs', scope_of ss) \<and> symbols_inv ss)"
  using globals_refine [of "[]" gs] by (auto simp: refines_def symbols_inv_def scope_of_Nil split: sum.splits)

end
