(* ===== verification/Contracts.thy ===== *)
theory Contracts
  imports Ast
begin

text \<open>
  A small calculus for routines that return a \<open>result\<close>.

  \<open>fine b m Q\<close> says that \<open>m\<close> does not run out of its budget, that it fails no assertion when
  \<open>b\<close> holds, and that \<open>Q\<close> holds of its output if it has one; an error return is fine. The
  rules (\<open>fine_intros\<close>) follow the shape of a routine, so that the contract of a routine
  follows from the contracts of the routines it calls. With \<open>b = False\<close> a contract is about
  termination and consumption of input only, and needs no assumption on the tokens.
\<close>

definition fine :: "bool \<Rightarrow> 'a result \<Rightarrow> ('a \<Rightarrow> bool) \<Rightarrow> bool" where
  "fine b m Q =
     (case m of
        Inl (Error _ _ _) \<Rightarrow> True
      | Inl Abort \<Rightarrow> \<not> b
      | Inl NoFuel \<Rightarrow> False
      | Inr x \<Rightarrow> Q x)"

named_theorems fine_intros \<open>introduction rules of contracts\<close>

lemma fine_simps [simp]:
  "fine b (Inr x) Q = Q x"
  "fine b (Inl (Error e i msg)) Q"
  "fine b (Inl Abort) Q = (\<not> b)"
  "\<not> fine b (Inl NoFuel) Q"
  "fine b (make_result_t e) Q"
  "fine b (make_result_ti e i) Q"
  "fine b (make_result_tss e s) Q"
  "fine b (make_result_tiss e i s) Q"
  by (simp_all add: fine_def make_result_defs)

lemma fine_Inr [fine_intros]: "Q x \<Longrightarrow> fine b (Inr x) Q"
  by simp

lemma fine_errors [fine_intros]:
  "fine b (make_result_t e) Q"
  "fine b (make_result_tss e s) Q"
  "fine b (make_result_tiss e i s) Q"
  by simp_all

lemma fine_check_error [simp]: "fine b (check (make_result_t e) k) Q"
  by (simp add: make_result_defs)

lemma fine_mono: "fine b m P \<Longrightarrow> (\<And>x. P x \<Longrightarrow> Q x) \<Longrightarrow> fine b m Q"
  by (auto simp: fine_def split: sum.splits failure.splits)

lemma fine_check: "fine b m (\<lambda>x. fine b (k x) Q) \<Longrightarrow> fine b (check m k) Q"
  by (auto simp: fine_def split: sum.splits failure.splits)

text \<open>The rule for a step whose contract is known.\<close>

lemma fine_step: "fine b m P \<Longrightarrow> (\<And>x. P x \<Longrightarrow> fine b (k x) Q) \<Longrightarrow> fine b (check m k) Q"
  by (rule fine_check) (rule fine_mono)

lemma fine_assert [fine_intros]: "(b \<Longrightarrow> c) \<Longrightarrow> (c \<Longrightarrow> fine b m Q) \<Longrightarrow> fine b (assert_that c m) Q"
  by (cases c) (auto simp: assert_that_def)

lemma fine_if [fine_intros]:
  "(c \<Longrightarrow> fine b m Q) \<Longrightarrow> (\<not> c \<Longrightarrow> fine b m' Q) \<Longrightarrow> fine b (if c then m else m') Q"
  by simp

lemma fine_case_option:
  "(x = None \<Longrightarrow> fine b m Q) \<Longrightarrow> (\<And>y. x = Some y \<Longrightarrow> fine b (k y) Q) \<Longrightarrow>
     fine b (case x of None \<Rightarrow> m | Some y \<Rightarrow> k y) Q"
  by (cases x) auto

lemma fine_case_prod [fine_intros]:
  "(\<And>x y. p = (x, y) \<Longrightarrow> fine b (k x y) Q) \<Longrightarrow> fine b (case p of (x, y) \<Rightarrow> k x y) Q"
  by (cases p) auto

lemma fine_Let [fine_intros]: "fine b (k v) Q \<Longrightarrow> fine b (let x = v in k x) Q"
  by (simp add: Let_def)

lemma fine_expect [fine_intros]:
  "(\<And>x r. tok = x # r \<Longrightarrow> token_type x = t \<Longrightarrow> fine b (k r) Q) \<Longrightarrow> fine b (expect tok t e k) Q"
  by (cases tok) auto

lemma fine_consume:
  "(b \<Longrightarrow> tok \<noteq> []) \<Longrightarrow> (\<And>x r. tok = x # r \<Longrightarrow> Q r) \<Longrightarrow> fine b (token_consume tok) Q"
  by (cases tok) auto

lemma fine_check_consume [fine_intros]:
  "(b \<Longrightarrow> tok \<noteq> []) \<Longrightarrow> (\<And>x r. tok = x # r \<Longrightarrow> fine b (k r) Q) \<Longrightarrow>
     fine b (check (token_consume tok) k) Q"
  by (cases tok) auto

lemma fine_not_NoFuel: "fine b m Q \<Longrightarrow> m \<noteq> Inl NoFuel"
  by (auto simp: fine_def)

lemma fine_not_Abort: "fine True m Q \<Longrightarrow> m \<noteq> Inl Abort"
  by (auto simp: fine_def)

lemma fine_Inr_D: "fine b m Q \<Longrightarrow> m = Inr x \<Longrightarrow> Q x"
  by (auto simp: fine_def)

lemma fineI:
  "m \<noteq> Inl NoFuel \<Longrightarrow> (b \<Longrightarrow> m \<noteq> Inl Abort) \<Longrightarrow> (\<And>x. m = Inr x \<Longrightarrow> Q x) \<Longrightarrow> fine b m Q"
  by (auto simp: fine_def split: sum.splits failure.splits)

section \<open>Proper suffixes\<close>

text \<open>\<open>psfx ys xs\<close>: at least one element of \<open>xs\<close> is consumed before \<open>ys\<close>.\<close>

definition psfx :: "'a list \<Rightarrow> 'a list \<Rightarrow> bool" where
  "psfx ys xs \<longleftrightarrow> sfx ys xs \<and> length ys < length xs"

lemma psfx_sfx: "psfx ys xs \<Longrightarrow> sfx ys xs"
  by (simp add: psfx_def)

lemma psfx_length: "psfx ys xs \<Longrightarrow> length ys < length xs"
  by (simp add: psfx_def)

lemma psfx_Cons [simp]: "psfx ys (x # xs) \<longleftrightarrow> sfx ys xs"
  by (auto simp: psfx_def sfx_def Cons_eq_append_conv)

lemma psfx_Nil [simp]: "\<not> psfx ys []"
  by (simp add: psfx_def)

lemma psfx_trans1: "sfx zs ys \<Longrightarrow> psfx ys xs \<Longrightarrow> psfx zs xs"
  by (auto simp: psfx_def dest: sfx_trans sfx_length)

lemma psfx_trans2: "psfx zs ys \<Longrightarrow> sfx ys xs \<Longrightarrow> psfx zs xs"
  by (auto simp: psfx_def dest: sfx_trans sfx_length)

lemma psfx_trans: "psfx zs ys \<Longrightarrow> psfx ys xs \<Longrightarrow> psfx zs xs"
  by (rule psfx_trans1 [OF psfx_sfx])

lemma psfx_ConsD: "psfx (x # ys) xs \<Longrightarrow> psfx ys xs"
  by (auto simp: psfx_def dest: sfx_ConsD)

lemma psfx_skip: "psfx (x # ys) xs \<Longrightarrow> sfx ys xs"
  by (auto dest: psfx_sfx sfx_ConsD)

lemma psfx_skip_Cons: "psfx (x # ys) xs \<Longrightarrow> sfx ys (z # xs)"
  by (auto dest: psfx_skip)

lemma sfx_skip_Cons: "sfx (x # ys) xs \<Longrightarrow> sfx ys (z # xs)"
  by (auto dest: sfx_ConsD)

lemma sfx_psfx_trans: "sfx zs ys \<Longrightarrow> psfx ys xs \<Longrightarrow> sfx zs xs"
  by (auto dest: psfx_sfx sfx_trans)

lemma psfx_sfx_trans: "psfx zs ys \<Longrightarrow> sfx ys xs \<Longrightarrow> sfx zs xs"
  by (auto dest: psfx_sfx sfx_trans)

lemma skip_sfx_trans: "sfx (x # zs) ys \<Longrightarrow> sfx ys xs \<Longrightarrow> sfx zs xs"
  by (auto dest: sfx_ConsD sfx_trans)

lemma skip_psfx_trans: "psfx (x # zs) ys \<Longrightarrow> sfx ys xs \<Longrightarrow> sfx zs xs"
  by (auto dest: psfx_skip sfx_trans)

text \<open>How the rests of a chain of steps are compared with the input.\<close>

lemmas rests = psfx_skip_Cons sfx_skip_Cons sfx_trans psfx_trans1 psfx_trans2 psfx_sfx sfx_ConsD psfx_skip sfx_psfx_trans
  psfx_sfx_trans skip_sfx_trans skip_psfx_trans

section \<open>Tokens that the lexer makes\<close>

definition token_ok :: "token \<Rightarrow> bool" where
  "token_ok t = (token_type t = TOKEN_CONSTANT_CHAR \<longrightarrow> length (val t) = 1)"

definition toks_ok :: "bool \<Rightarrow> token list \<Rightarrow> bool" where
  "toks_ok b toks = (b \<longrightarrow> list_all token_ok toks)"

lemma toks_ok_False [simp]: "toks_ok False toks"
  by (simp add: toks_ok_def)

lemma toks_ok_Nil [simp]: "toks_ok b []"
  by (simp add: toks_ok_def)

lemma toks_ok_Cons [simp]: "toks_ok b (t # toks) \<longleftrightarrow> (b \<longrightarrow> token_ok t) \<and> toks_ok b toks"
  by (auto simp: toks_ok_def)

lemma toks_ok_append [simp]: "toks_ok b (xs @ ys) \<longleftrightarrow> toks_ok b xs \<and> toks_ok b ys"
  by (auto simp: toks_ok_def)

lemma toks_ok_sfx: "toks_ok b toks \<Longrightarrow> sfx r toks \<Longrightarrow> toks_ok b r"
  by (auto simp: sfx_def)

lemma toks_ok_psfx: "toks_ok b toks \<Longrightarrow> psfx r toks \<Longrightarrow> toks_ok b r"
  by (rule toks_ok_sfx) (auto dest: psfx_sfx)

end
