(* ===== verification/DeclaratorFacts.thy ===== *)
theory DeclaratorFacts
  imports Contracts Declarator
begin

text \<open>
  Contracts of the routines that parse constants, types and declarators: they end within
  their budgets, they fail no assertion on tokens of the lexer, and they consume a prefix
  of their input. The types they build have no array of incomplete elements and no array
  without elements.
\<close>

section \<open>Constants\<close>

lemma parse_constant_integer_fine [fine_intros]:
  "fine b (parse_constant_integer s) (\<lambda>a. \<exists>i t. a = NODE_CONSTANT (Num i) t \<and>
     \<not> ctype_is_floating_point t \<and> 0 \<le> i \<and> i \<le> ULLONG_MAX)"
  by (auto simp: parse_constant_integer_def strtoull_def Let_def limit_defs fine_def ERANGE_def
      assert_that_def make_result_defs ctype_is_floating_point_def split: if_splits)

lemma char_value_bounds: "-128 \<le> char_value c \<and> char_value c \<le> 127"
proof -
  have "code c < 256" by (simp add: code_def)
  then show ?thesis by (auto simp: char_value_def)
qed

lemma char_value_le [simp]: "char_value c \<le> 18446744073709551615"
  using char_value_bounds [of c] by linarith

text \<open>The value of a constant is an integer that fits in 64 bits, or a double.\<close>

definition constant_node :: "ast \<Rightarrow> bool" where
  "constant_node a =
     (case a of
        NODE_CONSTANT v t \<Rightarrow>
          (case v of
             Num i \<Rightarrow> \<not> ctype_is_floating_point t \<and> -128 \<le> i \<and> i \<le> ULLONG_MAX
           | Dbl d \<Rightarrow> ctype_is_floating_point t)
      | _ \<Rightarrow> False)"

lemma parse_constant_fine:
  assumes "can_parse_constant tok" "toks_ok b tok"
  shows "fine b (parse_constant tok) (\<lambda>(r, a). psfx r tok \<and> constant_node a)"
proof -
  obtain t tok' where tok: "tok = t # tok'" using assms(1) by (cases tok) auto
  show ?thesis
  proof (cases "token_type t = TOKEN_CONSTANT_CHAR")
    case True
    have "fine b (case val t of [c] \<Rightarrow> Inr (tok', NODE_CONSTANT (Num (char_value c)) (CTYPE_INT False))
         | _ \<Rightarrow> Inl Abort) (\<lambda>(r, a). psfx r (t # tok') \<and> constant_node a)"
      using assms(2) True char_value_bounds tok
      by (auto simp: token_ok_def constant_node_def ctype_is_floating_point_def limit_defs
          length_Suc_conv intro: order_trans split: list.splits)
    then show ?thesis using True by (simp add: parse_constant_def tok)
  next
    case False
    have "fine b (check (parse_constant_integer (val t)) (\<lambda>a. Inr (tok', a)))
        (\<lambda>(r, a). psfx r (t # tok') \<and> constant_node a)"
      by (rule fine_step [OF parse_constant_integer_fine]) (auto simp: constant_node_def)
    then show ?thesis
      using False assms(1)
      by (auto simp: parse_constant_def tok can_parse_constant_def constant_node_def
          ctype_is_floating_point_def)
  qed
qed

section \<open>Basic types and specifiers\<close>

lemma accumulate_fine [fine_intros]: "fine b (parse_basic_type_accumulate tok st) (\<lambda>_. True)"
  by (cases tok)
    (auto simp: parse_basic_type_accumulate_def is_token_variable_type_def
      split: lex_tokentype.splits lex_keyword.splits)

definition basic_ctype :: "ctype \<Rightarrow> bool" where
  "basic_ctype c = (\<not> ctype_is_pointer c)"

lemma basic_ctype_simps [simp]:
  "basic_ctype (CTYPE_CHAR n)" "basic_ctype (CTYPE_SIGNED_CHAR n)"
  "basic_ctype (CTYPE_UNSIGNED_CHAR n)" "basic_ctype (CTYPE_INT n)"
  "basic_ctype (CTYPE_UNSIGNED_INT n)" "basic_ctype (CTYPE_LONG n)"
  "basic_ctype (CTYPE_UNSIGNED_LONG n)" "basic_ctype (CTYPE_DOUBLE n)" "basic_ctype (CTYPE_VOID n)"
  by (simp_all add: basic_ctype_def ctype_is_pointer_def ctype_is_array_def)

lemma finalize_fine [fine_intros]: "fine b (parse_basic_type_finalize st) basic_ctype"
  by (auto simp: parse_basic_type_finalize_def assert_that_def)

text \<open>A type needs at least one keyword: without one the counts stay at zero.\<close>

lemma finalize_zero: "parse_basic_type_finalize basic_type_state_zero =
    make_result_t (Parse_decl ERR_PARSE_DECL_EXPECT_TYPE)"
  by (simp add: parse_basic_type_finalize_def basic_type_state_zero_def)

lemma specifiers_loop_fine:
  "fine b (parse_specifiers_loop tok dst st k)
     (\<lambda>x. sfx (fst x) tok \<and> (fst x = tok \<longrightarrow> fst (snd (snd x)) = st))"
proof (induction tok arbitrary: dst st k)
  case (Cons t tok)
  have rec: "fine b (parse_specifiers_loop tok d s c)
      (\<lambda>x. sfx (fst x) (t # tok) \<and> (fst x = t # tok \<longrightarrow> fst (snd (snd x)) = st))" for d s c
    by (rule fine_mono [OF Cons]) (auto dest: sfx_length)
  show ?case
    by (auto simp: is_token_maybe_function_prefix_def intro!: rec fine_step [OF accumulate_fine])
qed simp

lemma sfx_neq_psfx: "sfx r tok \<Longrightarrow> r \<noteq> tok \<Longrightarrow> psfx r tok"
  by (auto simp: psfx_def sfx_def)

lemma parse_specifiers_fine:
  "fine b (parse_specifiers tok) (\<lambda>x. psfx (fst x) tok \<and> basic_ctype (snd (snd x)))"
  unfolding parse_specifiers_def
proof (rule fine_step [OF specifiers_loop_fine], elim conjE)
  fix x :: "token list \<times> ast_specifier \<times> parse_basic_type_state \<times> nat"
  obtain r d st c where x: "x = (r, d, st, c)" by (cases x) auto
  assume "sfx (fst x) tok" "fst x = tok \<longrightarrow> fst (snd (snd x)) = basic_type_state_zero"
  then show "fine b (case x of (tok, dst, state, specifier_count) \<Rightarrow>
      if specifier_count > 1 then make_result_t (Parse_decl ERR_PARSE_DECL_SPECIFIER_DUPLICATE)
      else check (parse_basic_type_finalize state) (\<lambda>var_type. Inr (tok, dst, var_type)))
      (\<lambda>x. psfx (fst x) tok \<and> basic_ctype (snd (snd x)))"
    unfolding x
    by (cases "r = tok") (auto simp: finalize_zero intro!: fine_step [OF finalize_fine] sfx_neq_psfx)
qed

lemma parse_type_basic_fine:
  "fine b (parse_type_basic tok st) (\<lambda>x. sfx (fst x) tok \<and> (fst x = tok \<longrightarrow> snd x = st))"
proof (induction tok arbitrary: st)
  case (Cons t tok)
  have rec: "fine b (parse_type_basic tok s)
      (\<lambda>x. sfx (fst x) (t # tok) \<and> (fst x = t # tok \<longrightarrow> snd x = st))" for s
    by (rule fine_mono [OF Cons]) (auto dest: sfx_length)
  show ?case by (auto intro!: rec fine_step [OF accumulate_fine])
qed simp

section \<open>Cutting a declarator into groups\<close>

lemma precheck_fine [fine_intros]: "fine b (parse_declarator_group_precheck tok) (\<lambda>_. True)"
proof -
  have "fine b (group_precheck_loop tok c g) (\<lambda>_. True)" for c g
    by (induction tok c g rule: group_precheck_loop.induct) auto
  then show ?thesis by (simp add: parse_declarator_group_precheck_def)
qed

definition paren_open :: "token \<Rightarrow> bool" where
  "paren_open t = (token_type t = Char TOKEN_PAREN_OPEN)"

definition paren_close :: "token \<Rightarrow> bool" where
  "paren_close t = (token_type t = Char TOKEN_PAREN_CLOSE)"

text \<open>
  \<open>closes c tok\<close>: \<open>tok\<close> starts with \<open>c\<close> closing parentheses. \<open>lonely m k tok\<close>: behind \<open>m\<close>
  opening parentheses, \<open>tok\<close> goes on with \<open>k - m\<close> more of them, an identifier and \<open>k\<close>
  closing ones.
\<close>

fun closes :: "nat \<Rightarrow> token list \<Rightarrow> bool" where
  "closes 0 tok = True"
| "closes (Suc c) [] = False"
| "closes (Suc c) (t # tok) = (paren_close t \<and> closes c tok)"

fun lonely :: "nat \<Rightarrow> nat \<Rightarrow> token list \<Rightarrow> bool" where
  "lonely m k [] = False"
| "lonely m k (t # tok) =
     (if paren_open t then lonely (Suc m) k tok
      else token_type t = TOKEN_IDENTIFIER \<and> k = m \<and> closes m tok)"

lemma lonely_loop_mismatch [simp]: "lonely_symbol_loop GOT_MISMATCH c m tok = Inr 0"
  by (cases tok) auto

lemma lonely_loop_closing:
  "0 < c \<Longrightarrow> c \<le> m \<Longrightarrow> \<exists>k. lonely_symbol_loop GOT_IDENTIFIER c m tok = Inr k \<and>
     (k = 0 \<or> k = m \<and> closes c tok)"
proof (induction tok arbitrary: c)
  case (Cons t tok)
  obtain c' where c: "c = Suc c'" using Cons.prems by (cases c) auto
  show ?case
  proof (cases "c' = 0")
    case True
    then show ?thesis using c Cons.prems by (auto simp: paren_close_def)
  next
    case False
    with Cons.IH [of c'] Cons.prems c show ?thesis by (auto simp: paren_close_def)
  qed
qed simp

lemma lonely_loop_opening:
  "\<exists>k. lonely_symbol_loop COUNT_PAREN_OPEN m m tok = Inr k \<and> (k = 0 \<or> lonely m k tok)"
proof (induction tok arbitrary: m)
  case (Cons t tok)
  consider "paren_open t" | "\<not> paren_open t" "token_type t = TOKEN_IDENTIFIER" "0 < m"
    | "\<not> paren_open t" "token_type t = TOKEN_IDENTIFIER" "m = 0"
    | "\<not> paren_open t" "token_type t \<noteq> TOKEN_IDENTIFIER" by auto
  then show ?case
  proof cases
    case 1
    with Cons [of "Suc m"] show ?thesis by (auto simp: paren_open_def)
  next
    case 2
    with lonely_loop_closing [of m m tok] show ?thesis by (auto simp: paren_open_def)
  qed (auto simp: paren_open_def)
qed simp

lemma lonely_symbol_result:
  "\<exists>k. parse_needs_weird_hack_for_paren_lonely_symbol tok = Inr k \<and> (k = 0 \<or> lonely 0 k tok)"
  unfolding parse_needs_weird_hack_for_paren_lonely_symbol_def by (rule lonely_loop_opening)

lemma closes_consume: "closes c tok \<Longrightarrow> \<exists>r. consume_n c (Char TOKEN_PAREN_CLOSE) tok = Inr r"
  by (induction c tok rule: closes.induct) (auto simp: paren_close_def)

lemma lonely_consume:
  "lonely m k tok \<Longrightarrow> m \<le> k \<and> (\<exists>i tok2 r. consume_n (k - m) (Char TOKEN_PAREN_OPEN) tok = Inr (i # tok2) \<and>
     token_type i = TOKEN_IDENTIFIER \<and> consume_n k (Char TOKEN_PAREN_CLOSE) tok2 = Inr r)"
proof (induction m k tok rule: lonely.induct)
  case (2 m k t tok)
  show ?case
  proof (cases "paren_open t")
    case True
    with 2 have "Suc m \<le> k" by auto
    then have "k - m = Suc (k - Suc m)" by simp
    with 2 True show ?thesis by (auto simp: paren_open_def)
  next
    case False
    with 2 closes_consume [of m tok] show ?thesis by auto
  qed
qed simp

lemma consume_n_sfx: "consume_n i t tok = Inr r \<Longrightarrow> sfx r tok"
  by (induction i arbitrary: tok) (auto simp: check_iff)

text \<open>How one round of the loop of \<open>group_split_loop\<close> starts.\<close>

lemma lonely_symbol_cases:
  assumes "tok \<noteq> []"
  obtains
    (none) t tok' where "parse_needs_weird_hack_for_paren_lonely_symbol tok = Inr 0" "tok = t # tok'"
  | (some) k i tok2 r where
      "parse_needs_weird_hack_for_paren_lonely_symbol tok = Inr k"
      "consume_n k (Char TOKEN_PAREN_OPEN) tok = Inr (i # tok2)" "token_type i = TOKEN_IDENTIFIER"
      "consume_n k (Char TOKEN_PAREN_CLOSE) tok2 = Inr r" "sfx tok2 tok" "sfx r tok" "psfx r tok"
proof -
  obtain k where k: "parse_needs_weird_hack_for_paren_lonely_symbol tok = Inr k"
    "k = 0 \<or> lonely 0 k tok"
    using lonely_symbol_result by blast
  show thesis
  proof (cases "k = 0")
    case True
    with k assms show thesis by (cases tok) (auto intro: none)
  next
    case False
    with k obtain i tok2 r where *: "consume_n k (Char TOKEN_PAREN_OPEN) tok = Inr (i # tok2)"
      "token_type i = TOKEN_IDENTIFIER" "consume_n k (Char TOKEN_PAREN_CLOSE) tok2 = Inr r"
      using lonely_consume [of 0 k tok] by auto
    then have "sfx (i # tok2) tok" "sfx r tok2" by (auto dest: consume_n_sfx)
    then have "psfx r tok"
      using sfx_length [of "i # tok2" tok] sfx_length [of r tok2]
      by (auto simp: psfx_def dest: sfx_ConsD sfx_trans)
    with * \<open>sfx (i # tok2) tok\<close> show thesis
      using some [OF k(1)] by (blast dest: sfx_ConsD psfx_sfx)
  qed
qed

text \<open>
  The loop takes tokens off the input and appends some of them to the group. It stops at
  the end of the input, at a token that ends the declarator, or before a parenthesis that
  opens a nested group.
\<close>

definition split_post :: "token list \<Rightarrow> split_state \<Rightarrow> token list \<times> split_state \<Rightarrow> bool" where
  "split_post tok st x \<longleftrightarrow>
     sfx (fst x) tok \<and>
     length (sp_tokens (snd x)) + length (fst x) \<le> length (sp_tokens st) + length tok \<and>
     set (sp_tokens (snd x)) \<subseteq> set (sp_tokens st) \<union> set tok \<and>
     (fst x = [] \<or> sp_done (snd x) \<or>
      is_token_type (fst x) (Char TOKEN_PAREN_OPEN) \<and> \<not> sp_got_identifier (snd x))"

lemma split_post_step:
  assumes "split_post r st' x" "sp_tokens st' = sp_tokens st @ [t]" "psfx r tok" "t \<in> set tok"
  shows "split_post tok st x"
  using assms sfx_set [of r tok] by (auto simp: split_post_def psfx_def dest: sfx_trans)

lemma split_post_stop:
  assumes "sfx r tok" "sp_tokens st' = sp_tokens st"
    "r = [] \<or> sp_done st' \<or> is_token_type r (Char TOKEN_PAREN_OPEN) \<and> \<not> sp_got_identifier st'"
  shows "split_post tok st (r, st')"
  using assms sfx_length [of r tok] by (auto simp: split_post_def)

lemma group_split_loop_fine:
  "\<not> sp_done st \<Longrightarrow> fine b (group_split_loop flags tok st) (split_post tok st)"
proof (induction "length tok" arbitrary: tok st rule: less_induct)
  case less
  show ?case
  proof (cases "tok = []")
    case True
    then show ?thesis by (subst group_split_loop.simps) (simp add: split_post_stop)
  next
    case False
    obtain k t tok2 r where
      k: "parse_needs_weird_hack_for_paren_lonely_symbol tok = Inr k"
        "consume_n k (Char TOKEN_PAREN_OPEN) tok = Inr (t # tok2)"
        "consume_n k (Char TOKEN_PAREN_CLOSE) tok2 = Inr r" "psfx r tok"
      using False by (cases rule: lonely_symbol_cases) fastforce+
    have tok2: "sfx (t # tok2) tok" "t \<in> set tok"
      using k(2) sfx_set [of "t # tok2" tok] by (auto dest: consume_n_sfx)
    have rec: "fine b (group_split_loop flags r st') (split_post tok st)"
      if "\<not> sp_done st'" "sp_tokens st' = sp_tokens st @ [t]" for st'
      by (rule fine_mono [OF less(1) [OF psfx_length [OF k(4)] that(1)]])
        (rule split_post_step [OF _ that(2) k(4) tok2(2)])
    obtain d c where dc:
      "parse_declarator_group_split_is_done flags (t # tok2) (sp_done st) (sp_countdown st) = (d, c)"
      by fastforce
    show ?thesis
      unfolding group_split_loop.simps [of flags tok st] using False k(1-3) dc tok2(1)
      by (auto simp: Let_def intro!: rec split_post_stop)
  qed
qed

text \<open>The token lists of a group and of the groups nested in it.\<close>

fun group_list :: "token_group \<Rightarrow> token list list" where
  "group_list (Token_group toks ch) =
     toks # (case ch of None \<Rightarrow> [] | Some g \<Rightarrow> group_list g)"

definition group_within :: "token list \<Rightarrow> token_group \<Rightarrow> bool" where
  "group_within tok g = list_all (\<lambda>ts. length ts \<le> length tok \<and> set ts \<subseteq> set tok) (group_list g)"

definition state_within :: "token list \<Rightarrow> token list \<Rightarrow> split_state \<Rightarrow> token_group option \<Rightarrow> bool" where
  "state_within tok0 tok st ch \<longleftrightarrow>
     length (sp_tokens st) + length tok \<le> length tok0 \<and>
     set (sp_tokens st) \<union> set tok \<subseteq> set tok0 \<and>
     (case ch of None \<Rightarrow> True | Some g \<Rightarrow> group_within tok0 g)"

lemma group_within_made: "state_within tok0 tok st ch \<Longrightarrow> group_within tok0 (Token_group (sp_tokens st) ch)"
  by (auto simp: state_within_def group_within_def split: option.splits)

lemma group_within_mono:
  "group_within tok g \<Longrightarrow> sfx tok tok0 \<Longrightarrow> group_within tok0 g"
  using sfx_set [of tok tok0] sfx_length [of tok tok0]
  by (fastforce simp: group_within_def list_all_iff)

lemma state_within_step:
  "state_within tok0 tok st ch \<Longrightarrow> split_post tok st (r, st') \<Longrightarrow> state_within tok0 r st' ch"
  using sfx_set [of r tok] by (fastforce simp: state_within_def split_post_def)

lemma state_within_sfx:
  "state_within tok0 tok st ch \<Longrightarrow> sfx r tok \<Longrightarrow> state_within tok0 r st ch"
  using sfx_set [of r tok] sfx_length [of r tok] by (fastforce simp: state_within_def)

lemma state_within_tok: "state_within tok0 tok st ch \<Longrightarrow> group_within tok g \<Longrightarrow> group_within tok0 g"
  by (fastforce simp: state_within_def group_within_def list_all_iff)

definition impl_post ::
  "token list \<Rightarrow> token list \<Rightarrow> token list \<times> split_state \<times> token_group option \<Rightarrow> bool" where
  "impl_post tok0 tok x \<longleftrightarrow>
     (case x of (r, st, ch) \<Rightarrow> sfx r tok \<and> state_within tok0 r st ch \<and>
        (r = [] \<or> sp_done st \<or> length r < length tok))"

lemma split_fine_aux:
  "(3 * length tok + 1 \<le> n \<longrightarrow> state_within tok0 tok st ch \<longrightarrow>
      fine b (group_split_while n flags tok st ch) (\<lambda>(r, g). sfx r tok \<and> group_within tok0 g)) \<and>
   (3 * length tok \<le> n \<longrightarrow> tok \<noteq> [] \<longrightarrow> \<not> sp_done st \<longrightarrow> state_within tok0 tok st ch \<longrightarrow>
      fine b (parse_declarator_group_split_impl n flags tok st ch) (impl_post tok0 tok)) \<and>
   (3 * length tok + 2 \<le> n \<longrightarrow>
      fine b (parse_declarator_group_split n flags tok) (\<lambda>(r, g). sfx r tok \<and> group_within tok g))"
proof (induction n arbitrary: tok tok0 st ch)
  case (Suc n)
  have W: "fine b (group_split_while (Suc n) flags tok st ch) (\<lambda>(r, g). sfx r tok \<and> group_within tok0 g)"
    if n: "3 * length tok + 1 \<le> Suc n" and w: "state_within tok0 tok st ch"
  proof (cases "\<not> sp_done st \<and> tok \<noteq> []")
    case True
    with n w Suc have *: "fine b (parse_declarator_group_split_impl n flags tok st ch) (impl_post tok0 tok)"
      by simp
    have "fine b (group_split_while n flags r st' ch') (\<lambda>(r, g). sfx r tok \<and> group_within tok0 g)"
      if i: "impl_post tok0 tok (r, st', ch')" for r st' ch'
    proof (cases "sp_done st' \<or> r = []")
      case stop: True
      obtain m where "n = Suc m" using n True by (cases n) auto
      with stop i show ?thesis by (auto simp: impl_post_def intro: group_within_made)
    next
      case False
      with i n have "3 * length r + 1 \<le> n" "state_within tok0 r st' ch'" "sfx r tok"
        by (auto simp: impl_post_def)
      with Suc show ?thesis by (blast intro: fine_mono sfx_trans)
    qed
    with True * show ?thesis by (auto intro!: fine_step [OF *])
  next
    case False
    with w show ?thesis by (auto intro: group_within_made)
  qed
  have I: "fine b (parse_declarator_group_split_impl (Suc n) flags tok st ch) (impl_post tok0 tok)"
    if n: "3 * length tok \<le> Suc n" "tok \<noteq> []" and w: "\<not> sp_done st" "state_within tok0 tok st ch"
  proof -
    have "fine b (if is_token_type r (Char TOKEN_PAREN_OPEN) \<and> \<not> sp_got_identifier st' then
       check (token_consume r) (\<lambda>tok.
       if ch \<noteq> None then make_result_t (Parse_decl ERR_PARSE_DECL_ATOM_PARENS_INVALID)
       else
         check (parse_declarator_group_split n flags tok) (\<lambda>(tok, g).
         expect tok (Char TOKEN_PAREN_CLOSE) (Parse_decl ERR_PARSE_DECL_ATOM_EXPECT_PAREN_CLOSE)
           (\<lambda>tok. Inr (tok, st', Some g))))
     else Inr (r, st', ch)) (impl_post tok0 tok)"
      if p: "split_post tok st (r, st')" for r st'
    proof -
      have r: "sfx r tok" "state_within tok0 r st' ch"
        using p state_within_step [OF w(2) p] by (auto simp: split_post_def)
      show ?thesis
      proof (cases "is_token_type r (Char TOKEN_PAREN_OPEN) \<and> \<not> sp_got_identifier st'")
        case False
        with p r show ?thesis by (auto simp: impl_post_def split_post_def)
      next
        case True
        then obtain t r1 where r1: "r = t # r1" by (cases r) auto
        then have "3 * length r1 + 2 \<le> n" using n sfx_length [OF r(1)] by simp
        with Suc have *: "fine b (parse_declarator_group_split n flags r1)
            (\<lambda>(r', g). sfx r' r1 \<and> group_within r1 g)" by blast
        have "impl_post tok0 tok (r2, st', Some g)"
          if "sfx (x # r2) r1" "group_within r1 g" for x r2 g
        proof -
          have "sfx r2 r1" using that(1) by (rule sfx_ConsD)
          moreover have "sfx r1 tok" using r(1) r1 by (auto dest: sfx_ConsD)
          moreover have "length r2 < length tok"
            using sfx_length [OF \<open>sfx r2 r1\<close>] sfx_length [OF r(1)] r1 by simp
          moreover have "state_within tok0 r1 st' ch"
            using r(2) r1 by (auto intro: state_within_sfx)
          then have "state_within tok0 r2 st' (Some g)"
            using state_within_sfx [OF \<open>state_within tok0 r1 st' ch\<close> \<open>sfx r2 r1\<close>]
              state_within_tok [OF \<open>state_within tok0 r1 st' ch\<close> that(2)]
            by (simp add: state_within_def)
          ultimately show ?thesis by (auto simp: impl_post_def intro: sfx_trans)
        qed
        with True r1 show ?thesis by (auto intro!: fine_step [OF *] fine_expect)
      qed
    qed
    then show ?thesis
      by (auto intro!: fine_step [OF group_split_loop_fine] simp: w)
  qed
  have "state_within tok tok \<lparr>sp_done = False, sp_got_identifier = False, sp_countdown = 0,
      sp_tokens = []\<rparr> None" by (simp add: state_within_def)
  with W I Suc show ?case by auto
qed simp

lemma parse_declarator_group_split_fine:
  "fine b (parse_declarator_group_split (split_fuel tok) flags tok)
     (\<lambda>(r, g). sfx r tok \<and> group_within tok g)"
  using split_fine_aux [of tok "split_fuel tok"] by (simp add: split_fuel_def)

section \<open>Scanning a group\<close>

definition scan_within :: "token list \<Rightarrow> token_group_scan \<Rightarrow> bool" where
  "scan_within toks scan \<longleftrightarrow>
     sfx (got_subscript scan) toks \<and> sfx (got_params scan) toks \<and>
     (got_params scan = [] \<or> is_token_type (got_params scan) (Char TOKEN_PAREN_OPEN))"

lemma scan_one_fine:
  assumes "scan_within toks scan" "sfx (t # tok) toks"
  shows "fine b (parse_declarator_group_scan_one flags t (t # tok) leaf scan c)
     (\<lambda>x. scan_within toks (fst x))"
  using assms unfolding parse_declarator_group_scan_one_def
  by (auto simp: scan_within_def Let_def split: lex_tokentype.split lex_char.split)

lemma scan_loop_fine:
  "scan_within toks scan \<Longrightarrow> sfx tok toks \<Longrightarrow>
     fine b (group_scan_loop flags tok leaf scan c) (scan_within toks)"
proof (induction tok arbitrary: scan c)
  case (Cons t tok)
  show ?case
    using Cons.IH sfx_ConsD [OF Cons.prems(2)]
    by (auto intro!: fine_step [OF scan_one_fine [OF Cons.prems]])
qed simp

lemma parse_declarator_group_scan_fine:
  "fine b (parse_declarator_group_scan flags g) (scan_within (tokens g))"
  unfolding parse_declarator_group_scan_def
  by (rule scan_loop_fine) (simp_all add: scan_within_def token_group_scan_zero_def)

section \<open>Types\<close>

text \<open>No array is empty and none has elements of an incomplete type.\<close>

fun ctype_wf :: "ctype \<Rightarrow> bool" where
  "ctype_wf (CTYPE_ARRAY_OF _ r s) = (s \<noteq> 0 \<and> \<not> ctype_is_incomplete r \<and> ctype_wf r)"
| "ctype_wf (CTYPE_POINTER_TO _ r) = ctype_wf r"
| "ctype_wf _ = True"

definition layer_ok :: "ctype_layer \<Rightarrow> bool" where
  "layer_ok l = (case l of Array_layer s \<Rightarrow> s \<noteq> 0 | Pointer_layer \<Rightarrow> True)"

lemma layer_ok_simps [simp]: "layer_ok (Array_layer s) = (s \<noteq> 0)" "layer_ok Pointer_layer"
  by (simp_all add: layer_ok_def)

lemma basic_ctype_wf: "basic_ctype c \<Longrightarrow> ctype_wf c \<and> \<not> ctype_has_fragment_array_of_incomplete c"
  by (cases c) (auto simp: basic_ctype_def ctype_is_pointer_def ctype_is_array_def)

lemma layers_wf:
  "list_all layer_ok ls \<Longrightarrow> basic_ctype c \<Longrightarrow>
   \<not> ctype_has_fragment_array_of_incomplete (foldr layer_ctype ls c) \<Longrightarrow>
   ctype_wf (foldr layer_ctype ls c)"
proof (induction ls)
  case (Cons l ls)
  then show ?case by (cases l) auto
qed (simp add: basic_ctype_wf)

lemma word_of_size_nonzero:
  assumes "-128 \<le> i" "i \<le> ULLONG_MAX" "i \<noteq> 0"
  shows "(word_of_int i :: u64) \<noteq> 0"
proof
  assume "(word_of_int i :: u64) = 0"
  then have "2 ^ 64 dvd i" by (simp add: word_of_int_eq_0_iff)
  then show False using assms by (auto simp: limit_defs elim!: dvdE)
qed

lemma group_postfix_loop_fine:
  "toks_ok b tok \<Longrightarrow> fine b (group_postfix_loop tok) (list_all layer_ok)"
proof (induction "length tok" arbitrary: tok rule: less_induct)
  case less
  show ?case
  proof (cases "is_token_type tok (Char TOKEN_SQUARE_BRACKET_OPEN)")
    case False
    then show ?thesis by (subst group_postfix_loop.simps) simp
  next
    case True
    then obtain t tok1 where tok: "tok = t # tok1" by (cases tok) auto
    have ok: "toks_ok b tok1" using less.prems tok by simp
    have rec: "fine b (group_postfix_loop r) (list_all layer_ok)" if "psfx (x # r) tok1" for x r
    proof (rule less(1))
      show "length r < length tok" using psfx_length [OF that] tok by simp
      show "toks_ok b r" using toks_ok_psfx [OF ok that] by simp
    qed
    have num: "fine b (case a of NODE_CONSTANT v ct \<Rightarrow>
         (if ctype_is_floating_point ct then make_result_t (Parse_decl ERR_PARSE_DECL_ATOM_ARRAY_SIZE_FLOATING_POINT)
          else case v of Num num \<Rightarrow>
              (if num = 0 then make_result_t (Parse_decl ERR_PARSE_DECL_ATOM_ARRAY_SIZE_NON_POSITIVE)
               else expect r (Char TOKEN_SQUARE_BRACKET_CLOSE)
                      (Parse_decl ERR_PARSE_DECL_ATOM_EXPECT_SQ_BRACKET_CLOSE) (\<lambda>tok.
                    assert_that (num \<le> ULLONG_MAX)
                      (check (group_postfix_loop tok) (\<lambda>rest.
                       Inr (Array_layer (word_of_int num) # rest)))))
            | Dbl x \<Rightarrow> Inl Abort) | _ \<Rightarrow> Inl Abort) (list_all layer_ok)"
      if c: "psfx r tok1" "constant_node a" for r a
    proof -
      obtain v ct where v: "a = NODE_CONSTANT v ct"
        using c(2) by (cases a) (auto simp: constant_node_def)
      show ?thesis
      proof (cases v)
        case (Num i)
        then have i: "-128 \<le> i" "i \<le> ULLONG_MAX" "\<not> ctype_is_floating_point ct"
          using c(2) v by (auto simp: constant_node_def)
        have "fine b (check (group_postfix_loop tok) (\<lambda>rest. Inr (Array_layer (word_of_int i) # rest)))
            (list_all layer_ok)" if "r = x # tok" "i \<noteq> 0" for x tok
          using rec [of x tok] c(1) that word_of_size_nonzero [OF i(1,2) that(2)]
          by (auto intro!: fine_step)
        then show ?thesis using v Num i
          by (auto intro!: fine_expect fine_assert)
      next
        case (Dbl d)
        then show ?thesis using c(2) v by (auto simp: constant_node_def)
      qed
    qed
    show ?thesis
      unfolding group_postfix_loop.simps [of tok] using True tok ok num
      by (auto intro!: fine_step [OF parse_constant_fine])
  qed
qed

definition declarator_ok :: "declarator \<Rightarrow> bool" where
  "declarator_ok d = list_all layer_ok (type_fragment d)"

lemma parse_declarator_group_postfix_fine:
  assumes "toks_ok b tok" "declarator_ok d"
  shows "fine b (parse_declarator_group_postfix tok d) (\<lambda>d'. declarator_ok d' \<and>
     top_level_pointer_indirection d' = top_level_pointer_indirection d)"
  unfolding parse_declarator_group_postfix_def using assms
  by (auto intro!: fine_step [OF group_postfix_loop_fine] simp: declarator_ok_def list_all_iff)

section \<open>The contract of a type parser\<close>

text \<open>
  What the routines of a declarator need of the \<open>parse_type\<close> they call, on inputs shorter
  than \<open>N\<close>, and what they give in return. \<open>parse_type n\<close> satisfies the contract for
  \<open>N = n\<close>.
\<close>

definition type_post :: "token list \<Rightarrow> token list \<times> ctype \<times> string option \<Rightarrow> bool" where
  "type_post tok x \<longleftrightarrow> psfx (fst x) tok \<and> ctype_wf (fst (snd x))"

locale type_contract =
  fixes pt :: type_parser and N :: nat and b :: bool
  assumes pt_fine: "length tok < N \<Longrightarrow> toks_ok b tok \<Longrightarrow> fine b (pt flags tok) (type_post tok)"
begin

lemma params_impl_fine:
  "length tok < k \<Longrightarrow> length tok < N \<Longrightarrow> toks_ok b tok \<Longrightarrow>
   fine b (parse_function_params_impl pt k tok False ci f c acc) (\<lambda>x. sfx (fst x) tok)"
proof (induction k arbitrary: tok f c acc)
  case (Suc k)
  have rec: "fine b (parse_function_params_impl pt k r False ci False c' acc') (\<lambda>x. sfx (fst x) tok)"
    if "type_post tok1 (r, ty, i)" "sfx tok1 tok" for r ty i tok1 c' acc'
  proof (rule fine_mono [OF Suc.IH])
    have *: "psfx r tok" using that by (auto simp: type_post_def intro: psfx_trans2)
    show "length r < k" "length r < N" using psfx_length [OF *] Suc.prems by auto
    show "toks_ok b r" using Suc.prems(3) * by (rule toks_ok_psfx)
    show "sfx (fst x) tok" if "sfx (fst x) r" for x
      using that psfx_sfx [OF *] by (rule sfx_trans)
  qed
  have one: "fine b (check (pt 0 tok1) (\<lambda>(r, ty, i). parse_function_params_impl pt k r False ci False c' acc'))
      (\<lambda>x. sfx (fst x) tok)" if "sfx tok1 tok" for tok1 c' acc'
    using that Suc.prems sfx_length [OF that]
    by (auto intro!: fine_step [OF pt_fine] rec [OF _ that] intro: toks_ok_sfx)
  show ?case
  proof (cases f)
    case True
    then show ?thesis using one [of tok "c + 1" acc] by (simp add: Let_def)
  next
    case False
    then show ?thesis
      using one [of "tl tok" "c + 1" acc] by (cases tok) (auto simp: Let_def)
  qed
qed simp

text \<open>The second pass over the parameters finds as many as the first one counted.\<close>

lemma params_impl_second:
  "parse_function_params_impl pt k tok False ci f c acc = Inr (r, acc', n) \<Longrightarrow>
   c \<le> n \<and> (\<exists>ps. parse_function_params_impl pt k tok True n f c qs = Inr (r, ps, n))"
proof (induction k arbitrary: tok f c acc qs)
  case (Suc k)
  show ?case
  proof (cases "\<not> f \<and> \<not> is_token_type tok (Char TOKEN_COMMA)")
    case True
    with Suc.prems show ?thesis by (auto simp: Let_def)
  next
    case False
    with Suc.prems obtain tok1 tok2 ty i where
      1: "(if f then Inr tok else token_consume tok) = Inr tok1" "pt 0 tok1 = Inr (tok2, ty, i)"
        "parse_function_params_impl pt k tok2 False ci False (c + 1) acc = Inr (r, acc', n)"
      by (auto simp: Let_def check_iff split: prod.splits if_splits)
    let ?p = "\<lparr>p_symbol = ast_symbol_unresolved (case i of None \<Rightarrow> [] | Some i \<Rightarrow> i), parameter_type = ty\<rparr>"
    from Suc.IH [OF 1(3), of "qs @ [?p]"] obtain ps where
      "c + 1 \<le> n" "parse_function_params_impl pt k tok2 True n False (c + 1) (qs @ [?p]) = Inr (r, ps, n)"
      by auto
    with 1 False show ?thesis by (auto simp: Let_def check_def)
  qed
qed simp

lemma parse_function_params_fine:
  assumes "length tok < N" "toks_ok b tok"
  shows "fine b (parse_function_params pt tok) (\<lambda>x. sfx (fst x) tok)"
proof -
  have "fine b (check (parse_function_params_impl pt (budget tok) tok False 0 True 0 [])
          (\<lambda>(_, _, count).
        if count > 0 then
          check (parse_function_params_impl pt (budget tok) tok True count True 0 [])
            (\<lambda>(tok, params, _). Inr (tok, params))
        else Inr (tok, []))) (\<lambda>x. sfx (fst x) tok)"
  proof (rule fine_check, rule fineI)
    let ?m = "parse_function_params_impl pt (budget tok) tok False 0 True 0 []"
    have m: "fine b ?m (\<lambda>x. sfx (fst x) tok)"
      by (rule params_impl_fine) (use assms in auto)
    show "?m \<noteq> Inl NoFuel" using m by (rule fine_not_NoFuel)
    show "?m \<noteq> Inl Abort" if b using m that by (auto simp: fine_def)
    fix x assume x: "?m = Inr x"
    obtain r acc n where xe: "x = (r, acc, n)" by (cases x)
    from params_impl_second [OF x [unfolded xe], of "[]"] obtain ps where
      "parse_function_params_impl pt (budget tok) tok True n True 0 [] = Inr (r, ps, n)" by auto
    moreover have "sfx r tok" using fine_Inr_D [OF m x] xe by simp
    ultimately show "fine b (case x of (_, _, count) \<Rightarrow>
        if count > 0 then
          check (parse_function_params_impl pt (budget tok) tok True count True 0 [])
            (\<lambda>(tok, params, _). Inr (tok, params))
        else Inr (tok, [])) (\<lambda>x. sfx (fst x) tok)"
      using xe by auto
  qed
  moreover have "fine b (check (token_consume tok) (\<lambda>tok. Inr (tok, []))) (\<lambda>x. sfx (fst x) tok)"
    if "is_token_type tok t" for t
    using that by (cases tok) auto
  ultimately show ?thesis
    unfolding parse_function_params_def by (intro fine_if) blast+
qed

lemma fn_params_fine:
  assumes "length tok \<le> N" "toks_ok b tok" "declarator_ok d"
    "tok = [] \<or> is_token_type tok (Char TOKEN_PAREN_OPEN)"
  shows "fine b (parse_declarator_group_fn_params pt tok d) (\<lambda>d'. declarator_ok d' \<and>
     top_level_pointer_indirection d' = top_level_pointer_indirection d)"
  unfolding parse_declarator_group_fn_params_def
  using assms
  by (auto simp: declarator_ok_def
      intro!: fine_check_consume fine_if fine_assert fine_step [OF parse_function_params_fine] fine_expect)

lemma group_apply_scan_fine:
  assumes "scan_within toks scan" "length toks \<le> N" "toks_ok b toks" "declarator_ok d"
    "top_level_pointer_indirection d = 0"
  shows "fine b (group_apply_scan pt leaf scan d) (\<lambda>d'. declarator_ok d' \<and>
     (\<not> leaf \<longrightarrow> top_level_pointer_indirection d' = 0))"
proof -
  have toks: "toks_ok b (got_subscript scan)" "toks_ok b (got_params scan)" "length (got_params scan) \<le> N"
    "got_params scan = [] \<or> is_token_type (got_params scan) (Char TOKEN_PAREN_OPEN)"
    using assms(1-3) sfx_length [of "got_params scan" toks]
    by (auto simp: scan_within_def intro: toks_ok_sfx)
  have step: "fine b (check (parse_declarator_group_postfix (got_subscript scan) d3) (\<lambda>d4.
      parse_declarator_group_fn_params pt (got_params scan) d4)) (\<lambda>d'. declarator_ok d' \<and>
     (\<not> leaf \<longrightarrow> top_level_pointer_indirection d' = 0))"
    if "declarator_ok d3" "\<not> leaf \<longrightarrow> top_level_pointer_indirection d3 = 0" for d3
    by (rule fine_step [OF parse_declarator_group_postfix_fine [OF toks(1) that(1)]])
      (rule fine_mono [OF fn_params_fine [OF toks(3,2) _ toks(4)]]; use that in auto)
  show ?thesis
    unfolding group_apply_scan_def Let_def
    by (rule fine_assert, (use assms(5) in \<open>auto split: option.splits\<close>)[1])
      (rule step; use assms(4,5) in \<open>auto simp: declarator_ok_def split: option.splits\<close>)
qed

lemma by_group_fine:
  "list_all (\<lambda>ts. length ts \<le> N \<and> toks_ok b ts) (group_list g) \<Longrightarrow> declarator_ok d \<Longrightarrow>
   top_level_pointer_indirection d = 0 \<Longrightarrow>
   fine b (parse_declarator_by_group pt flags g d) declarator_ok"
proof (induction g arbitrary: d)
  case (Token_group toks ch)
  have toks: "length toks \<le> N" "toks_ok b toks" using Token_group.prems(1) by auto
  have "fine b (case ch of None \<Rightarrow> Inr d' | Some g \<Rightarrow> parse_declarator_by_group pt flags g d')
      declarator_ok"
    if d': "declarator_ok d'" "ch \<noteq> None \<longrightarrow> top_level_pointer_indirection d' = 0" for d'
    using d' Token_group.prems(1) Token_group.IH
    by (cases ch) auto
  then show ?case
    using toks Token_group.prems(2,3)
    by (auto intro!: fine_step [OF parse_declarator_group_scan_fine] fine_step [OF group_apply_scan_fine])
qed

lemma parse_declarator_fine:
  assumes "length tok \<le> N" "toks_ok b tok"
  shows "fine b (parse_declarator pt flags tok) (\<lambda>x. sfx (fst x) tok \<and> declarator_ok (snd x))"
proof -
  have within: "list_all (\<lambda>ts. length ts \<le> N \<and> toks_ok b ts) (group_list g)" if "group_within tok g" for g
    using that assms by (fastforce simp: group_within_def list_all_iff toks_ok_def)
  have zero: "declarator_ok declarator_zero" "top_level_pointer_indirection declarator_zero = 0"
    by (simp_all add: declarator_ok_def declarator_zero_def)
  have check: "fine b (declarator_check_identifier flags d) declarator_ok" if "declarator_ok d" for d
    using that by (auto simp: declarator_check_identifier_def)
  show ?thesis
    unfolding parse_declarator_def
    by (rule fine_step [OF precheck_fine], rule fine_step [OF parse_declarator_group_split_fine])
      (auto intro!: fine_step [OF by_group_fine [OF within zero]] fine_step [OF check])
qed

text \<open>The step from \<open>parse_type n\<close> to \<open>parse_type (Suc n)\<close>.\<close>

lemma parse_type_step:
  assumes "length tok < Suc N" "toks_ok b tok"
  shows "fine b
     (check (parse_type_basic tok basic_type_state_zero) (\<lambda>(tok, state).
      check (parse_basic_type_finalize state) (\<lambda>basic_type.
      check (parse_declarator pt flags tok) (\<lambda>(tok, decl).
      if got_function decl
      then make_result_t (Parse_decl ERR_PARSE_DECL_ATOM_FUNC_PTR_UNSUPPORTED)
      else
        let var_type = map_declarator_to_ctype basic_type decl
        in if ctype_has_fragment_array_of_incomplete var_type
           then make_result_t (Parse_decl ERR_PARSE_DECL_TYPE_ARRAY_INCOMPLETE)
           else Inr (tok, var_type, out_identifier decl))))) (type_post tok)"
proof (rule fine_step [OF parse_type_basic_fine])
  fix x assume x: "sfx (fst x) tok \<and> (fst x = tok \<longrightarrow> snd x = basic_type_state_zero)"
  obtain r st where xe: "x = (r, st)" by (cases x)
  have wf: "ctype_wf (map_declarator_to_ctype c d)"
    if "basic_ctype c" "declarator_ok d" "\<not> ctype_has_fragment_array_of_incomplete (map_declarator_to_ctype c d)"
    for c d
    using that unfolding map_declarator_to_ctype_def
    by (intro layers_wf) (auto simp: declarator_ok_def list_all_iff)
  show "fine b (case x of (tok, state) \<Rightarrow>
      check (parse_basic_type_finalize state) (\<lambda>basic_type.
      check (parse_declarator pt flags tok) (\<lambda>(tok, decl).
      if got_function decl
      then make_result_t (Parse_decl ERR_PARSE_DECL_ATOM_FUNC_PTR_UNSUPPORTED)
      else
        let var_type = map_declarator_to_ctype basic_type decl
        in if ctype_has_fragment_array_of_incomplete var_type
           then make_result_t (Parse_decl ERR_PARSE_DECL_TYPE_ARRAY_INCOMPLETE)
           else Inr (tok, var_type, out_identifier decl)))) (type_post tok)"
  proof (cases "r = tok")
    case True
    then show ?thesis using x xe by (simp add: finalize_zero)
  next
    case False
    then have p: "psfx r tok" using x xe by (auto simp: psfx_def sfx_def)
    then have "length r \<le> N" "toks_ok b r"
      using assms psfx_length [OF p] by (auto intro: toks_ok_psfx)
    then show ?thesis
      using p unfolding xe prod.case
      by (auto simp: Let_def type_post_def intro: psfx_trans1 wf
          intro!: fine_step [OF finalize_fine] fine_step [OF parse_declarator_fine])
  qed
qed

lemma parse_specifiers_and_type_fine:
  assumes "length tok \<le> N" "toks_ok b tok"
  shows "fine b (parse_specifiers_and_type pt tok) (\<lambda>x. psfx (fst x) tok \<and> ctype_wf (fst (snd (snd x))))"
proof -
  have wf: "ctype_wf (map_declarator_to_ctype c d)"
    if "basic_ctype c" "declarator_ok d" "\<not> ctype_has_fragment_array_of_incomplete (map_declarator_to_ctype c d)"
    for c d
    using that unfolding map_declarator_to_ctype_def
    by (intro layers_wf) (auto simp: declarator_ok_def list_all_iff)
  have decl: "fine b (parse_declarator pt fl r) (\<lambda>x. sfx (fst x) r \<and> declarator_ok (snd x))"
    if "sfx r tok" for fl r
    using that assms sfx_length [OF that] by (auto intro!: parse_declarator_fine intro: toks_ok_sfx)
  show ?thesis
    unfolding parse_specifiers_and_type_def
    by (auto simp: Let_def psfx_sfx intro: psfx_trans1 wf
        intro!: fine_step [OF parse_specifiers_fine] fine_step [OF decl])
qed

end

lemma type_contract_0: "type_contract (parse_type 0) 0 b"
  by unfold_locales simp

lemma type_contract_parse_type: "type_contract (parse_type n) n b"
proof (induction n)
  case (Suc n)
  show ?case
    by unfold_locales (simp only: parse_type.simps type_contract.parse_type_step [OF Suc])
qed (rule type_contract_0)

interpretation types: type_contract parse_type_top N b for N b
  by unfold_locales
    (unfold parse_type_top_def, rule type_contract.pt_fine [OF type_contract_parse_type], simp_all)

end
