(* ===== verification/ExpressionFacts.thy ===== *)
theory ExpressionFacts
  imports DeclaratorFacts Expression
begin

text \<open>
  Contracts of the routines that parse expressions. What they build is an expression
  (\<open>wf_expr\<close>): no statement or declaration inside, and no name resolved yet.
\<close>

section \<open>Expressions\<close>

fun wf_expr :: "ast \<Rightarrow> bool" where
  "wf_expr (NODE_CONSTANT v t) = True"
| "wf_expr (NODE_CONSTANT_STR s t) = True"
| "wf_expr (NODE_EXPRESSION_NULL t) = True"
| "wf_expr (Op_unary u e t) = wf_expr e"
| "wf_expr (Op_binary b l r t) = (wf_expr l \<and> wf_expr r)"
| "wf_expr (Op_ternary c x y t) = (wf_expr c \<and> wf_expr x \<and> wf_expr y)"
| "wf_expr (NODE_EXPRESSION_VARIABLE_USAGE s t) = (as_unique s = NOT_YET_UNIQUE)"
| "wf_expr (NODE_EXPRESSION_FUNCTION_CALL s args t) =
     (as_unique s = NOT_YET_UNIQUE \<and> (\<forall>a \<in> set args. wf_expr a))"
| "wf_expr (NODE_EXPRESSION_CAST ty e t) = wf_expr e"
| "wf_expr _ = False"

lemma wf_expr_constant [simp]: "constant_node a \<Longrightarrow> wf_expr a"
  by (cases a) (auto simp: constant_node_def)

lemma as_unique_unresolved [simp]: "as_unique (ast_symbol_unresolved s) = NOT_YET_UNIQUE"
  by (simp add: ast_symbol_unresolved_def)

lemma wf_expr_null [simp]: "wf_expr parse_alloc_null_expr"
  by (simp add: parse_alloc_null_expr_def)

lemma wf_make_cast [simp]: "wf_expr e \<Longrightarrow> wf_expr (make_cast ty e)"
  by (auto simp: make_cast_def split: ast.splits)

definition expr_post :: "token list \<Rightarrow> token list \<times> ast \<Rightarrow> bool" where
  "expr_post tok x \<longleftrightarrow> psfx (fst x) tok \<and> wf_expr (snd x)"

lemma expr_postI: "psfx r tok \<Longrightarrow> wf_expr a \<Longrightarrow> expr_post tok (r, a)"
  by (simp add: expr_post_def)

lemma expr_postD: "expr_post tok (r, a) \<Longrightarrow> psfx r tok \<and> wf_expr a"
  by (simp add: expr_post_def)

section \<open>The contract of an expression parser\<close>

locale expr_contract =
  fixes pe :: expr_parser and N :: nat and b :: bool
  assumes pe_fine: "length tok < N \<Longrightarrow> toks_ok b tok \<Longrightarrow> fine b (pe tok p) (expr_post tok)"
begin

lemma pe_step:
  assumes "length tok < N" "toks_ok b tok"
    and "\<And>r a. psfx r tok \<Longrightarrow> wf_expr a \<Longrightarrow> toks_ok b r \<Longrightarrow> length r < N \<Longrightarrow> fine b (k (r, a)) Q"
  shows "fine b (check (pe tok p) k) Q"
proof (rule fine_step [OF pe_fine [OF assms(1,2)]])
  fix x assume "expr_post tok x"
  then show "fine b (k x) Q"
    using assms by (cases x) (auto simp: expr_post_def psfx_def dest: toks_ok_sfx)
qed

lemma parse_sizeof_with_parens_fine:
  assumes "is_token_type tok (Keyword TOKEN_KEYWORD_SIZEOF)" "is_token_type (tl tok) (Char TOKEN_PAREN_OPEN)"
    "length tok \<le> N" "toks_ok b tok"
  shows "fine b (parse_sizeof_with_parens pe tok) (expr_post tok)"
proof -
  obtain t0 t1 tok2 where tok: "tok = t0 # t1 # tok2"
    using assms(1,2) by (cases tok; cases "tl tok") auto
  have ok: "toks_ok b tok2" "length tok2 < N" using assms(3,4) tok by auto
  have operand: "fine b
     (case parse_type_top PARSE_DECLARATOR_ABSTRACT tok2 of
        Inr (tok, tmp, _) \<Rightarrow> Inr (tok, NODE_EXPRESSION_NULL (ctype_copy tmp))
      | Inl (Error _ _ _) \<Rightarrow> pe tok2 0
      | Inl f \<Rightarrow> Inl f) (expr_post tok2)"
    using types.pt_fine [of tok2 N b PARSE_DECLARATOR_ABSTRACT, OF ok(2,1)] pe_fine [OF ok(2,1), of 0]
    by (auto simp: fine_def expr_post_def type_post_def split: sum.splits failure.splits)
  show ?thesis
    unfolding parse_sizeof_with_parens_def tok
    using assms(1,2) tok
    by (auto intro!: fine_step [OF operand] fine_expect simp: expr_post_def intro: rests)
qed

lemma call_args_fine:
  "length tok < k \<Longrightarrow> length tok < N \<Longrightarrow> toks_ok b tok \<Longrightarrow>
   fine b (call_args_loop pe k tok) (\<lambda>x. sfx (fst x) tok \<and> (\<forall>a \<in> set (snd x). wf_expr a))"
proof (induction k arbitrary: tok)
  case (Suc k)
  have rec: "fine b (check (call_args_loop pe k r) (\<lambda>(tok, cdr). Inr (tok, car # cdr)))
      (\<lambda>x. sfx (fst x) tok \<and> (\<forall>a \<in> set (snd x). wf_expr a))"
    if r: "psfx (c # r) tok" "wf_expr car" for c r car
  proof -
    have "length r < length tok" "length (c # r) < length tok" "sfx r tok"
      using r(1) by (auto simp: psfx_def dest: sfx_ConsD)
    then have "length r < k" "length r < N" "toks_ok b r"
      using Suc.prems by (auto intro: toks_ok_sfx)
    then show ?thesis
      using r \<open>sfx r tok\<close> by (auto intro!: fine_step [OF Suc.IH] intro: sfx_trans)
  qed
  show ?case
    using Suc.prems
    by (auto intro!: pe_step fine_if fine_check_consume rec dest: psfx_sfx)
qed simp

lemma parse_symbol_fine:
  assumes "is_token_type tok TOKEN_IDENTIFIER" "length tok \<le> N" "toks_ok b tok"
  shows "fine b (parse_symbol pe tok) (expr_post tok)"
proof -
  obtain t tok1 where tok: "tok = t # tok1" using assms(1) by (cases tok) auto
  show ?thesis
  proof (cases "is_token_type tok1 (Char TOKEN_PAREN_OPEN)")
    case False
    then show ?thesis using assms(1) tok by (auto simp: parse_symbol_def expr_post_def)
  next
    case True
    then obtain t1 tok2 where tok1: "tok1 = t1 # tok2" by (cases tok1) auto
    show ?thesis
    proof (cases "is_token_type tok2 (Char TOKEN_PAREN_CLOSE)")
      case cl: True
      then show ?thesis using assms(1) tok tok1 True
        by (cases tok2) (auto simp: parse_symbol_def expr_post_def)
    next
      case cl: False
      have args: "fine b (call_args_loop pe (budget tok2) tok2)
          (\<lambda>x. sfx (fst x) tok2 \<and> (\<forall>a \<in> set (snd x). wf_expr a))"
        by (rule call_args_fine) (use assms(2,3) tok tok1 in auto)
      show ?thesis
        using assms(1) tok tok1 True cl
        by (auto simp: parse_symbol_def expr_post_def
            intro!: fine_step [OF args] fine_expect intro: rests)
    qed
  qed
qed

lemma parse_cast_fine:
  assumes "length (t # tok) \<le> N" "toks_ok b (t # tok)"
  shows "fine b (parse_cast pe (t # tok)) (expr_post (t # tok))"
proof -
  have ok: "length tok < N" "toks_ok b tok" using assms by auto
  have "fine b (check (pe r 0) (\<lambda>(tok, expr). Inr (tok, make_cast ty expr))) (expr_post (t # tok))"
    if r: "psfx (c # r) tok" for c r ty
  proof -
    have "length r < N" "toks_ok b r" "sfx r tok"
      using ok r by (auto simp: psfx_def dest: sfx_ConsD toks_ok_sfx)
    then show ?thesis by (auto intro!: pe_step simp: expr_post_def intro: rests)
  qed
  then show ?thesis
    unfolding parse_cast_def
    by (auto intro!: fine_step [OF types.pt_fine [OF ok]] fine_expect simp: type_post_def)
qed

lemma parse_paren_enclosed_fine:
  assumes "length (t # tok) \<le> N" "toks_ok b (t # tok)"
  shows "fine b (parse_paren_enclosed pe (t # tok)) (expr_post (t # tok))"
  unfolding parse_paren_enclosed_def using assms
  by (auto intro!: pe_step fine_expect simp: expr_post_def intro: rests)

lemma parse_postfix_fine:
  "wf_expr a \<Longrightarrow> fine b (parse_postfix tok a) (\<lambda>x. sfx (fst x) tok \<and> wf_expr (snd x))"
  by (cases tok) (auto simp: parse_postfix_def)

lemma subscript_loop_fine:
  "length tok < k \<Longrightarrow> length tok \<le> N \<Longrightarrow> toks_ok b tok \<Longrightarrow> wf_expr a \<Longrightarrow>
   fine b (subscript_loop pe k tok a) (\<lambda>x. sfx (fst x) tok \<and> wf_expr (snd x))"
proof (induction k arbitrary: tok a)
  case (Suc k)
  show ?case
  proof (cases "is_token_type tok (Char TOKEN_SQUARE_BRACKET_OPEN)")
    case False
    then show ?thesis using Suc.prems by simp
  next
    case True
    then obtain t tok1 where tok: "tok = t # tok1" by (cases tok) auto
    have rec: "fine b (subscript_loop pe k r (Op_binary EXPRESSION_SUBSCRIPT a rhs ctype_zero))
        (\<lambda>x. sfx (fst x) (t # tok1) \<and> wf_expr (snd x))"
      if r: "psfx (c # r) tok1" "wf_expr rhs" for c r rhs
    proof -
      have "length r < k" "length r \<le> N" "toks_ok b r" "sfx r tok1"
        using r Suc.prems tok by (auto simp: psfx_def dest: sfx_ConsD toks_ok_sfx)
      then show ?thesis
        by (rule_tac fine_mono [OF Suc.IH]) (use Suc.prems r in \<open>auto intro: rests\<close>)
    qed
    show ?thesis
      using True Suc.prems tok by (auto intro!: pe_step fine_expect rec)
  qed
qed simp

lemma factor_suffixes_fine:
  assumes "sfx r tok" "length tok \<le> N" "toks_ok b tok" "wf_expr a"
  shows "fine b (factor_suffixes pe r a) (\<lambda>x. sfx (fst x) r \<and> wf_expr (snd x))"
proof -
  have sub: "fine b (subscript_loop pe (budget r') r' a') (\<lambda>x. sfx (fst x) r' \<and> wf_expr (snd x))"
    if "sfx r' r" "wf_expr a'" for r' a'
  proof (rule subscript_loop_fine)
    have "sfx r' tok" using that(1) assms(1) by (rule sfx_trans)
    then show "length r' \<le> N" "toks_ok b r'"
      using assms(2,3) by (auto dest: sfx_length intro: toks_ok_sfx)
  qed (use that in auto)
  have post: "fine b (parse_postfix r'' a'') (\<lambda>x. sfx (fst x) r \<and> wf_expr (snd x))"
    if "sfx r'' r'" "sfx r' r" "wf_expr a''" for r'' r' a''
    by (rule fine_mono [OF parse_postfix_fine [OF that(3)]]) (use that in \<open>auto intro: sfx_trans\<close>)
  show ?thesis
    unfolding factor_suffixes_def
    by (auto intro!: fine_step [OF parse_postfix_fine [OF assms(4)]] fine_step [OF sub] post
        intro: sfx_trans)
qed

lemma parse_factor_fine:
  "length tok \<le> N \<Longrightarrow> toks_ok b tok \<Longrightarrow> fine b (parse_factor pe tok) (expr_post tok)"
proof (induction tok)
  case (Cons t tok)
  have suffixes: "fine b (factor_suffixes pe r a) (expr_post (t # tok))"
    if "psfx r (t # tok)" "wf_expr a" for r a
    by (rule fine_mono [OF factor_suffixes_fine [of r "t # tok"]])
      (use that Cons.prems in \<open>auto simp: expr_post_def intro: rests\<close>)
  have prefix: "fine b (check (parse_factor pe tok) (\<lambda>(tok, operand).
      Inr (tok, Op_unary (Prefix op) operand ctype_zero))) (expr_post (t # tok))" for op
    using Cons by (auto intro!: fine_step [OF Cons.IH] simp: expr_post_def intro: psfx_sfx)
  have const: "fine b (parse_constant (t # tok)) (expr_post (t # tok))"
    if "can_parse_constant (t # tok)"
    by (rule fine_mono [OF parse_constant_fine [OF that Cons.prems(2)]]) (auto simp: expr_post_def)
  have sizeof: "fine b (parse_sizeof_with_parens pe (t # tok)) (expr_post (t # tok))"
    if "prefix_match t = Some EXPRESSION_UNARY_SIZE_OF" "is_token_type tok (Char TOKEN_PAREN_OPEN)"
  proof (rule parse_sizeof_with_parens_fine)
    show "is_token_type (t # tok) (Keyword TOKEN_KEYWORD_SIZEOF)"
      using that(1) by (auto simp: prefix_match_def FOREACH_AST_NODE_EXPRESSION_PREFIX_OP_def split: if_splits)
  qed (use that Cons.prems in auto)
  have "fine b (case prefix_match t of
          Some op \<Rightarrow>
            if op = EXPRESSION_UNARY_SIZE_OF \<and> is_token_type tok (Char TOKEN_PAREN_OPEN)
            then parse_sizeof_with_parens pe (t # tok)
            else check (parse_factor pe tok) (\<lambda>(tok, operand).
                 Inr (tok, Op_unary (Prefix op) operand ctype_zero))
        | None \<Rightarrow>
            if can_parse_constant (t # tok) then parse_constant (t # tok)
            else if token_type t = TOKEN_CONSTANT_STR
            then Inr (tok, NODE_CONSTANT_STR (val t) (ctype_alloc_str_literal (val t)))
            else if token_type t = TOKEN_IDENTIFIER then parse_symbol pe (t # tok)
            else if token_type t = Char TOKEN_PAREN_OPEN \<and> is_token_variable_type tok
            then parse_cast pe (t # tok)
            else if token_type t = Char TOKEN_PAREN_OPEN then parse_paren_enclosed pe (t # tok)
            else make_result_t (Parse ERR_PARSE_EXPR_EXPECT_REASONABLE)) (expr_post (t # tok))"
    by (intro fine_case_option fine_if sizeof prefix const parse_symbol_fine parse_cast_fine
        parse_paren_enclosed_fine Cons.prems fine_errors)
      (auto simp: expr_post_def)
  note prim = this
  show ?case
    unfolding parse_factor.simps
  proof (rule fine_step [OF prim])
    fix x assume "expr_post (t # tok) x"
    then show "fine b (case x of (tok, dst) \<Rightarrow> factor_suffixes pe tok dst) (expr_post (t # tok))"
      by (cases x) (auto intro: suffixes dest: expr_postD)
  qed
qed simp

lemma parse_expr_loop_fine:
  "length tok < k \<Longrightarrow> length tok \<le> N \<Longrightarrow> toks_ok b tok \<Longrightarrow> wf_expr a \<Longrightarrow>
   fine b (parse_expr_loop pe k tok a p) (\<lambda>x. sfx (fst x) tok \<and> wf_expr (snd x))"
proof (induction k arbitrary: tok a)
  case (Suc k)
  show ?case
  proof (cases tok)
    case Nil
    then show ?thesis using Suc.prems by (simp add: parse_expr_check_next_token_def)
  next
    case (Cons t tok1)
    have ok: "length tok1 < N" "toks_ok b tok1" using Suc.prems Cons by auto
    have rec: "fine b (parse_expr_loop pe k r a' p) (\<lambda>x. sfx (fst x) tok \<and> wf_expr (snd x))"
      if "expr_post tok1 (r, a')" for r a'
    proof -
      have "psfx r tok1" "wf_expr a'" using that by (auto simp: expr_post_def)
      moreover have "length r < k" "length r \<le> N" "toks_ok b r"
        using calculation ok Suc.prems Cons by (auto simp: psfx_def intro: toks_ok_sfx)
      ultimately show ?thesis
        by (rule_tac fine_mono [OF Suc.IH]) (auto simp: Cons intro: rests)
    qed
    have binary: "fine b (check (pe tok1 q) (\<lambda>(tok, right). Inr (tok, Op_binary op a right ctype_zero)))
        (expr_post tok1)" for op q
      using ok Suc.prems(4) by (auto intro!: pe_step expr_postI)
    have ternary: "fine b (check (parse_ternary_middle pe tok1) (\<lambda>(tok, middle).
          check (pe tok q) (\<lambda>(tok, right). Inr (tok, Op_ternary a middle right ctype_zero))))
        (expr_post tok1)" for q
    proof -
      have middle: "fine b (parse_ternary_middle pe tok1) (expr_post tok1)"
        unfolding parse_ternary_middle_def
        using ok by (auto intro!: pe_step fine_expect expr_postI intro: psfx_ConsD)
      have "fine b (check (pe r q) (\<lambda>(tok, right). Inr (tok, Op_ternary a m right ctype_zero)))
          (expr_post tok1)" if "expr_post tok1 (r, m)" for r m
      proof -
        have r: "psfx r tok1" "wf_expr m" using that by (auto simp: expr_post_def)
        then have "length r < N" "toks_ok b r"
          using ok psfx_length [OF r(1)] by (auto intro: toks_ok_psfx)
        then show ?thesis
          using r Suc.prems(4) by (auto intro!: pe_step expr_postI intro: psfx_trans)
      qed
      then show ?thesis by (auto intro!: fine_step [OF middle])
    qed
    have right: "fine b
        (case binary_node_of bop of
           None \<Rightarrow>
             check (parse_ternary_middle pe tok1) (\<lambda>(tok, middle).
             check (pe tok (right_precedence bop)) (\<lambda>(tok, right).
             Inr (tok, Op_ternary a middle right ctype_zero)))
         | Some op \<Rightarrow>
             check (pe tok1 (right_precedence bop)) (\<lambda>(tok, right).
             Inr (tok, Op_binary op a right ctype_zero))) (expr_post tok1)" for bop
      by (rule fine_case_option) (rule ternary, rule binary)
    show ?thesis
      using Suc.prems(4)
      by (auto simp: Cons intro!: fine_case_option fine_if fine_step [OF right] rec [unfolded Cons])
  qed
qed simp

lemma parse_expr_step:
  assumes "length tok < Suc N" "toks_ok b tok"
  shows "fine b
     (check (parse_factor pe tok) (\<lambda>(tok, left).
      parse_expr_loop pe (budget tok) tok left p)) (expr_post tok)"
proof (rule fine_step [OF parse_factor_fine])
  fix x assume "expr_post tok x"
  then obtain r a where x: "x = (r, a)" "psfx r tok" "wf_expr a"
    by (cases x) (auto simp: expr_post_def)
  have "fine b (parse_expr_loop pe (budget r) r a p) (\<lambda>y. sfx (fst y) r \<and> wf_expr (snd y))"
    using x assms psfx_length [OF x(2)] by (intro parse_expr_loop_fine) (auto intro: toks_ok_psfx)
  then show "fine b (case x of (tok, left) \<Rightarrow> parse_expr_loop pe (budget tok) tok left p) (expr_post tok)"
    unfolding x prod.case
    by (rule fine_mono) (use x in \<open>auto simp: expr_post_def intro: psfx_trans1\<close>)
qed (use assms in auto)

end

lemma expr_contract_parse_expr: "expr_contract (parse_expr n) n b"
proof (induction n)
  case (Suc n)
  show ?case
    by unfold_locales (simp only: parse_expr.simps expr_contract.parse_expr_step [OF Suc])
qed (unfold_locales, simp)

interpretation exprs: expr_contract "parse_expr n" n b for n b
  by (rule expr_contract_parse_expr)

lemma parse_expr_top_fine:
  "toks_ok b tok \<Longrightarrow> fine b (parse_expr_top tok) (expr_post tok)"
  unfolding parse_expr_top_def by (rule exprs.pe_fine) simp_all

end
