(* ===== verification/StatementFacts.thy ===== *)
theory StatementFacts
  imports ExpressionFacts Statement
begin

text \<open>
  Contracts of the routines that parse initializers, declarations, statements and blocks,
  up to \<open>parse_program\<close>. What they build has the shape that the later passes expect
  (\<open>wf_item\<close>): expressions where expressions belong, a block as the body of a function, a
  constant in a case label.
\<close>

fun wf_init :: "ast \<Rightarrow> bool" where
  "wf_init (NODE_EXPRESSION_INITIALIZER sg mu t) =
     ((case sg of None \<Rightarrow> True | Some e \<Rightarrow> wf_expr e) \<and> (\<forall>a \<in> set mu. wf_init a))"
| "wf_init _ = False"

function wf_item :: "ast \<Rightarrow> bool" where
  "wf_item a =
     (case a of
        NODE_FUNCTION i sp rt ps b \<Rightarrow>
          ctype_wf rt \<and>
          (\<forall>p \<in> set (foreach_function_parameter ps). \<not> ctype_is_void (parameter_type p)) \<and>
          (case b of
             None \<Rightarrow> True
           | Some blk \<Rightarrow> (case blk of NODE_BLOCK items \<Rightarrow> \<forall>x \<in> set items. wf_item x | _ \<Rightarrow> False))
      | NODE_FUNCTION_RETURN_STATEMENT e \<Rightarrow> wf_expr e
      | NODE_BLOCK items \<Rightarrow> \<forall>x \<in> set items. wf_item x
      | NODE_DECLARATION i sp vt init t \<Rightarrow>
          ctype_wf vt \<and> \<not> ctype_is_void vt \<and> (case init of None \<Rightarrow> True | Some e \<Rightarrow> wf_init e)
      | NODE_IF_ELSE c th el \<Rightarrow> wf_expr c \<and> (\<forall>x \<in> set th. wf_item x) \<and> (\<forall>x \<in> set el. wf_item x)
      | NODE_LOOP pre bd inc post le lc ls \<Rightarrow>
          wf_expr pre \<and> (\<forall>x \<in> set bd. wf_item x) \<and> wf_expr inc \<and> wf_expr post
      | NODE_BREAK i \<Rightarrow> True
      | NODE_CONTINUE i \<Rightarrow> True
      | NODE_GOTO l i \<Rightarrow> True
      | NODE_LABEL l i \<Rightarrow> True
      | NODE_SWITCH c bd ld le cs \<Rightarrow> wf_expr c \<and> (\<forall>x \<in> set bd. wf_item x)
      | NODE_CASE c i \<Rightarrow> constant_node c
      | NODE_CASE_DEFAULT i \<Rightarrow> True
      | _ \<Rightarrow> wf_expr a)"
  by pat_completeness auto
termination
  by (relation "measure size") (auto dest!: size_list_estimation' [of _ _ _ size, OF _ order.refl])

declare wf_item.simps [simp del]

lemma wf_item_simps [simp]:
  "wf_item (NODE_FUNCTION i sp rt ps b) =
     (ctype_wf rt \<and>
      (\<forall>p \<in> set (foreach_function_parameter ps). \<not> ctype_is_void (parameter_type p)) \<and>
      (case b of None \<Rightarrow> True
       | Some blk \<Rightarrow> (case blk of NODE_BLOCK items \<Rightarrow> \<forall>x \<in> set items. wf_item x | _ \<Rightarrow> False)))"
  "wf_item (NODE_FUNCTION_RETURN_STATEMENT e) = wf_expr e"
  "wf_item (NODE_BLOCK items) = (\<forall>x \<in> set items. wf_item x)"
  "wf_item (NODE_DECLARATION i sp vt init t) =
     (ctype_wf vt \<and> \<not> ctype_is_void vt \<and> (case init of None \<Rightarrow> True | Some e \<Rightarrow> wf_init e))"
  "wf_item (NODE_IF_ELSE c th el) =
     (wf_expr c \<and> (\<forall>x \<in> set th. wf_item x) \<and> (\<forall>x \<in> set el. wf_item x))"
  "wf_item (NODE_LOOP pre bd inc post le lc ls) =
     (wf_expr pre \<and> (\<forall>x \<in> set bd. wf_item x) \<and> wf_expr inc \<and> wf_expr post)"
  "wf_item (NODE_SWITCH c bd ld le cs) = (wf_expr c \<and> (\<forall>x \<in> set bd. wf_item x))"
  "wf_item (NODE_CASE c k) = constant_node c"
  "wf_item (NODE_BREAK k)" "wf_item (NODE_CONTINUE k)" "wf_item (NODE_GOTO l k)"
  "wf_item (NODE_LABEL l k)" "wf_item (NODE_CASE_DEFAULT k)"
  by (subst wf_item.simps; simp)+

lemma wf_item_expr: "wf_expr a \<Longrightarrow> wf_item a"
  by (cases a) (simp_all add: wf_item.simps)

lemma wf_item_null [simp]: "wf_item parse_alloc_null_expr"
  by (rule wf_item_expr) simp

text \<open>
  The contracts below compare every rest with the input \<open>tok0\<close> of the routine, so that a
  chain of steps needs no reasoning about its intermediate positions.
\<close>

definition node_post :: "('a \<Rightarrow> bool) \<Rightarrow> token list \<Rightarrow> token list \<times> 'a \<Rightarrow> bool" where
  "node_post P tok0 x \<longleftrightarrow> psfx (fst x) tok0 \<and> P (snd x)"

lemma node_postI: "psfx r tok0 \<Longrightarrow> P a \<Longrightarrow> node_post P tok0 (r, a)"
  by (simp add: node_post_def)

lemma parse_expr_node: "toks_ok b tok \<Longrightarrow> fine b (parse_expr_top tok) (node_post wf_expr tok)"
  by (rule fine_mono [OF parse_expr_top_fine]) (auto simp: expr_post_def node_post_def)

lemma node_post_weaken: "node_post P tok x \<Longrightarrow> (\<And>a. P a \<Longrightarrow> Q a) \<Longrightarrow> node_post Q tok x"
  by (auto simp: node_post_def)

lemma node_step:
  assumes "fine b m (node_post P r)" "sfx r tok0"
    and "\<And>r' a. psfx r' tok0 \<Longrightarrow> P a \<Longrightarrow> fine b (k (r', a)) Q"
  shows "fine b (check m k) Q"
  by (rule fine_step [OF assms(1)])
    (use assms(2,3) in \<open>auto simp: node_post_def split_paired_all intro: psfx_trans2\<close>)

lemma expr_step:
  assumes "psfx r tok0" "toks_ok b tok0"
    and "\<And>r' a. psfx r' tok0 \<Longrightarrow> wf_expr a \<Longrightarrow> fine b (k (r', a)) Q"
  shows "fine b (check (parse_expr_top r) k) Q"
  by (rule fine_step [OF parse_expr_top_fine])
    (use assms in \<open>auto simp: expr_post_def split_paired_all intro: toks_ok_psfx psfx_trans\<close>)

lemma expect_step:
  assumes "psfx r tok0" "\<And>r'. psfx r' tok0 \<Longrightarrow> fine b (k r') Q"
  shows "fine b (expect r t e k) Q"
  using assms by (auto intro!: fine_expect dest: psfx_ConsD)

lemma expect_if_step:
  assumes "psfx r tok0" "\<And>r'. psfx r' tok0 \<Longrightarrow> fine b (k r') Q"
  shows "fine b (expect_if c r t e k) Q"
  using assms by (auto simp: expect_if_def intro!: expect_step)

lemma consume_step:
  assumes "psfx r tok0" "b \<Longrightarrow> r \<noteq> []" "\<And>r'. psfx r' tok0 \<Longrightarrow> fine b (k r') Q"
  shows "fine b (check (token_consume r) k) Q"
  using assms by (auto intro!: fine_check_consume dest: psfx_ConsD)

lemma start_step:
  assumes "is_token_type tok0 t" "\<And>r. psfx r tok0 \<Longrightarrow> fine b (k r) Q"
  shows "fine b (check (token_consume tok0) k) Q"
  using assms by (cases tok0) auto

lemma check_expect [simp]: "check (expect r t e k) h = expect r t e (\<lambda>r. check (k r) h)"
  by (cases r) (auto simp: make_result_defs)

lemma fine_check_check: "fine b (check m (\<lambda>x. check (f x) k)) Q \<Longrightarrow> fine b (check (check m f) k) Q"
  by (auto simp: fine_def check_def split: sum.splits)

lemma is_token_nonempty: "is_token_type tok t \<Longrightarrow> tok \<noteq> []"
  by auto

section \<open>Initializers\<close>

lemma initializer_arr_loop_fine:
  assumes init: "\<And>tok. length tok < N \<Longrightarrow> toks_ok b tok \<Longrightarrow> fine b (init tok) (node_post wf_init tok)"
  shows "length tok < k \<Longrightarrow> length tok \<le> N \<Longrightarrow> toks_ok b tok \<Longrightarrow> tok \<noteq> [] \<Longrightarrow>
    fine b (initializer_arr_loop init k tok) (node_post (\<lambda>as. \<forall>a \<in> set as. wf_init a) tok)"
proof (induction k arbitrary: tok)
  case (Suc k)
  obtain t tok1 where tok: "tok = t # tok1" using Suc.prems by (cases tok) auto
  have init': "fine b (init tok1) (node_post wf_init tok1)"
    by (rule init) (use Suc.prems tok in auto)
  have rec: "fine b (check (initializer_arr_loop init k r) (\<lambda>(tok, cdr). Inr (tok, car # cdr)))
      (node_post (\<lambda>as. \<forall>a \<in> set as. wf_init a) tok)"
    if "psfx r tok1" "wf_init car" "is_token_type r t'" for r car t'
  proof (rule node_step)
    show "fine b (initializer_arr_loop init k r) (node_post (\<lambda>as. \<forall>a \<in> set as. wf_init a) r)"
      by (rule Suc.IH) (use that Suc.prems tok in \<open>auto simp: psfx_def intro: toks_ok_sfx\<close>)
    show "sfx r tok" using that(1) tok by (auto dest: psfx_sfx)
  qed (use that in \<open>auto simp: node_post_def\<close>)
  have "fine b (if is_token_type tok1 (Char TOKEN_BRACE_CLOSE) then Inr (tok1, [])
      else check (init tok1) (\<lambda>(tok, car).
        if is_token_type tok (Char TOKEN_COMMA)
        then check (initializer_arr_loop init k tok) (\<lambda>(tok, cdr). Inr (tok, car # cdr))
        else Inr (tok, [car]))) (node_post (\<lambda>as. \<forall>a \<in> set as. wf_init a) tok)"
    by (auto intro!: fine_if node_step [OF init' sfx_refl] rec [unfolded tok] node_postI simp: tok psfx_sfx)
  then show ?case by (simp add: tok)
qed simp

lemma parse_initializer_arr_fine:
  assumes "\<And>tok. length tok < N \<Longrightarrow> toks_ok b tok \<Longrightarrow> fine b (init tok) (node_post wf_init tok)"
    and "length tok \<le> N" "toks_ok b tok" "is_token_type tok (Char TOKEN_BRACE_OPEN)"
  shows "fine b (parse_initializer_arr init tok) (node_post (\<lambda>as. \<forall>a \<in> set as. wf_init a) tok)"
proof -
  have "fine b (initializer_arr_loop init (budget tok) tok) (node_post (\<lambda>as. \<forall>a \<in> set as. wf_init a) tok)"
    by (rule initializer_arr_loop_fine [of N]) (use assms in auto)
  then show ?thesis
    unfolding parse_initializer_arr_def using assms(4)
    by (auto intro!: fine_assert expect_step elim!: node_step simp: node_post_def)
qed

lemma parse_initializer_fine:
  "length tok < n \<Longrightarrow> toks_ok b tok \<Longrightarrow> fine b (parse_initializer n tok) (node_post wf_init tok)"
proof (induction n arbitrary: tok)
  case (Suc n)
  show ?case
  proof (cases "is_token_type tok (Char TOKEN_BRACE_OPEN)")
    case True
    have "fine b (parse_initializer_arr (\<lambda>tok. parse_initializer n tok) tok)
        (node_post (\<lambda>as. \<forall>a \<in> set as. wf_init a) tok)"
      by (rule parse_initializer_arr_fine [of n]) (use Suc True in auto)
    then have "fine b (check (parse_initializer_arr (\<lambda>tok. parse_initializer n tok) tok) (\<lambda>(tok, multi).
        Inr (tok, NODE_EXPRESSION_INITIALIZER None multi ctype_zero))) (node_post wf_init tok)"
      by (rule node_step [OF _ sfx_refl]) (simp add: node_post_def)
    with True show ?thesis by simp
  next
    case False
    have "fine b (check (parse_expr_top tok) (\<lambda>(tok, single).
        Inr (tok, NODE_EXPRESSION_INITIALIZER (Some single) [] ctype_zero))) (node_post wf_init tok)"
      by (rule fine_step [OF parse_expr_top_fine [OF Suc.prems(2)]])
        (auto simp: expr_post_def node_post_def)
    with False show ?thesis by simp
  qed
qed simp

section \<open>The contract of statements and blocks\<close>

definition block_node :: "ast \<Rightarrow> bool" where
  "block_node a = (case a of NODE_BLOCK items \<Rightarrow> \<forall>x \<in> set items. wf_item x | _ \<Rightarrow> False)"

lemma block_node_item: "block_node a \<Longrightarrow> wf_item a"
  by (cases a) (auto simp: block_node_def)

lemma block_node_simp [simp]: "block_node (NODE_BLOCK items) = (\<forall>x \<in> set items. wf_item x)"
  by (simp add: block_node_def)

definition decl_node :: "ast \<Rightarrow> bool" where
  "decl_node a = (wf_item a \<and> (case a of NODE_FUNCTION _ _ _ _ _ \<Rightarrow> True
     | NODE_DECLARATION _ _ _ _ _ \<Rightarrow> True | _ \<Rightarrow> False))"

lemma decl_node_item: "decl_node a \<Longrightarrow> wf_item a"
  by (simp add: decl_node_def)

abbreviation wf_items :: "ast list \<Rightarrow> bool" where
  "wf_items as \<equiv> \<forall>a \<in> set as. wf_item a"

text \<open>
  \<open>n\<close> is the budget: a block of \<open>l\<close> tokens needs \<open>2 l + 1\<close> of it, a statement \<open>2 l + 2\<close>,
  because a statement may be a block of the same length.
\<close>

locale stmt_contract =
  fixes stmt :: stmt_parser and blk :: ast_parser and n :: nat and b :: bool
  assumes stmt_fine: "2 * length tok + 2 \<le> n \<Longrightarrow> toks_ok b tok \<Longrightarrow>
      fine b (stmt tok) (node_post (\<lambda>x. wf_item (fst x)) tok)"
    and blk_fine: "2 * length tok + 1 \<le> n \<Longrightarrow> toks_ok b tok \<Longrightarrow>
      fine b (blk tok) (node_post block_node tok)"
begin

lemma blk_step:
  assumes "psfx r tok0" "2 * length tok0 \<le> n + 1" "toks_ok b tok0"
    and "\<And>r' a. psfx r' tok0 \<Longrightarrow> block_node a \<Longrightarrow> fine b (k (r', a)) Q"
  shows "fine b (check (blk r) k) Q"
proof (rule node_step [OF blk_fine])
  show "2 * length r + 1 \<le> n" "toks_ok b r" "sfx r tok0"
    using assms(1-3) psfx_length [OF assms(1)] by (auto intro: toks_ok_psfx psfx_sfx)
qed (rule assms(4))

lemma parse_var_declaration_fine:
  assumes "psfx r tok0" "toks_ok b tok0" "ctype_wf ct"
  shows "fine b (parse_var_declaration r sp ct name) (node_post decl_node tok0)"
proof -
  have init: "fine b (check (token_consume r) (\<lambda>tok.
      check (parse_initializer (budget tok) tok) (\<lambda>(tok, init). Inr (tok, Some init))))
      (\<lambda>x. psfx (fst x) tok0 \<and> (\<forall>i. snd x = Some i \<longrightarrow> wf_init i))"
    if "is_token_type r t" for t
    by (rule consume_step [OF assms(1)], use that in auto)
      (rule node_step [OF parse_initializer_fine],
        use assms in \<open>auto intro: toks_ok_psfx psfx_sfx\<close>)
  show ?thesis
    unfolding parse_var_declaration_def
    by (auto intro!: fine_if fine_step [OF init] expect_step assms(1) simp: node_post_def decl_node_def assms(3)
        split: option.splits)
qed

lemma parse_function_declaration_fine:
  assumes "psfx r tok0" "2 * length tok0 \<le> n + 1" "toks_ok b tok0" "ctype_wf ct"
  shows "fine b (parse_function_declaration blk r sp ct name params) (node_post decl_node tok0)"
  unfolding parse_function_declaration_def Let_def
  by (cases "filter (\<lambda>p. ctype_is_void (parameter_type p)) (foreach_function_parameter params)")
    (auto intro!: consume_step [OF assms(1)] blk_step [OF assms(1-3)]
      simp: node_post_def block_node_def decl_node_def assms(4) filter_empty_conv split: ast.splits)

lemma parse_fn_or_var_declaration_fine:
  assumes "2 * length tok \<le> n + 1" "toks_ok b tok"
  shows "fine b (parse_fn_or_var_declaration blk flags tok) (node_post decl_node tok)"
proof -
  have "fine b (parse_specifiers_and_type parse_type_top tok)
      (\<lambda>x. psfx (fst x) tok \<and> ctype_wf (fst (snd (snd x))))"
    by (rule types.parse_specifiers_and_type_fine [of tok "length tok" b]) (use assms(2) in auto)
  then show ?thesis
    unfolding parse_fn_or_var_declaration_def using assms
    by (auto intro!: fine_if fine_step [OF \<open>fine b _ _\<close>]
        parse_var_declaration_fine parse_function_declaration_fine)
qed

text \<open>A statement is parsed at a smaller budget than the construct it belongs to.\<close>

lemma stmt_multi_loop_fine:
  "length r < k \<Longrightarrow> 2 * length r + 2 \<le> n \<Longrightarrow> toks_ok b r \<Longrightarrow>
   fine b (stmt_multi_loop stmt k r) (node_post wf_items r)"
proof (induction k arbitrary: r)
  case (Suc k)
  have rec: "fine b (check (stmt_multi_loop stmt k r') (\<lambda>(tok, cdr). Inr (tok, car # cdr)))
      (node_post wf_items r)"
    if "psfx r' r" "wf_item car" for r' car
  proof (rule node_step [OF Suc.IH])
    show "length r' < k" "2 * length r' + 2 \<le> n" "toks_ok b r'" "sfx r' r"
      using that(1) Suc.prems psfx_length [OF that(1)] by (auto intro: toks_ok_psfx psfx_sfx)
  qed (use that in \<open>auto intro!: node_postI\<close>)
  show ?case
    using Suc.prems
    by (auto intro!: node_step [OF stmt_fine] rec node_postI)
qed simp

lemma stmt_multi_step:
  assumes "psfx r tok0" "2 * length tok0 \<le> n" "toks_ok b tok0"
    and "\<And>r' as. psfx r' tok0 \<Longrightarrow> wf_items as \<Longrightarrow> fine b (k (r', as)) Q"
  shows "fine b (check (parse_stmt_multi stmt r) k) Q"
  unfolding parse_stmt_multi_def
proof (rule node_step [OF stmt_multi_loop_fine])
  show "length r < budget r" "2 * length r + 2 \<le> n" "toks_ok b r" "sfx r tok0"
    using assms(1-3) psfx_length [OF assms(1)] by (auto intro: toks_ok_psfx psfx_sfx)
qed (rule assms(4))

lemma parse_if_else_fine:
  assumes "is_token_type tok (Keyword TOKEN_KEYWORD_IF)" "2 * length tok \<le> n" "toks_ok b tok"
  shows "fine b (parse_if_else stmt tok) (node_post wf_item tok)"
  unfolding parse_if_else_def
  using assms
  by (auto intro!: fine_assert start_step [OF assms(1)] expect_step expr_step [OF _ assms(3)]
      stmt_multi_step [OF _ assms(2,3)] fine_if consume_step node_postI)

lemma parse_loop_for_init_fine:
  assumes "psfx r tok0" "2 * length tok0 \<le> n + 1" "toks_ok b tok0"
  shows "fine b (parse_loop_for_init blk r) (node_post wf_item tok0)"
proof -
  have decl: "fine b (parse_fn_or_var_declaration blk 0 r) (node_post wf_item tok0)"
  proof (rule fine_mono [OF parse_fn_or_var_declaration_fine])
    show "2 * length r \<le> n + 1" "toks_ok b r"
      using assms psfx_length [OF assms(1)] by (auto intro: toks_ok_psfx)
  qed (use assms(1) in \<open>auto simp: node_post_def intro: psfx_trans decl_node_item\<close>)
  show ?thesis
    unfolding parse_loop_for_init_def
    by (auto intro!: fine_if consume_step [OF assms(1)] decl expr_step [OF assms(1,3)] expect_step
        node_postI wf_item_expr)
qed

lemma parse_loop_do_while_suffix_fine:
  assumes "psfx r tok0" "toks_ok b tok0"
  shows "fine b (parse_loop_do_while_suffix r) (node_post wf_expr tok0)"
  unfolding parse_loop_do_while_suffix_def
  by (auto intro!: expect_step assms(1) expr_step [OF _ assms(2)] node_postI)

lemma parse_expr_if_step:
  assumes "psfx r tok0" "toks_ok b tok0"
    and "\<And>r' e. psfx r' tok0 \<Longrightarrow> wf_expr (parse_alloc_if_unset e) \<Longrightarrow> fine b (k (r', e)) Q"
  shows "fine b (check (parse_expr_if c r) k) Q"
proof (rule fine_check)
  have "fine b (parse_expr_if c r) (\<lambda>x. psfx (fst x) tok0 \<and> wf_expr (parse_alloc_if_unset (snd x)))"
    unfolding parse_expr_if_def
    by (auto intro!: fine_if expr_step [OF assms(1,2)] simp: assms(1) parse_alloc_if_unset_def)
  then show "fine b (parse_expr_if c r) (\<lambda>x. fine b (k x) Q)"
    by (rule fine_mono) (auto simp: assms(3) split_paired_all)
qed

lemma for_init_step:
  assumes "psfx r tok0" "2 * length tok0 \<le> n + 1" "toks_ok b tok0"
    and "\<And>r' as. psfx r' tok0 \<Longrightarrow> wf_items as \<Longrightarrow> fine b (k (r', as)) Q"
  shows "fine b (check (if c then check (parse_loop_for_init blk r) (\<lambda>(tok, i). Inr (tok, [i]))
               else Inr (r, [])) k) Q"
  using assms
  by (auto simp: node_post_def intro!: fine_check_check fine_step [OF parse_loop_for_init_fine [OF assms(1-3)]])

lemma postcond_step:
  assumes "psfx r tok0" "toks_ok b tok0"
    and "\<And>r' e. psfx r' tok0 \<Longrightarrow> wf_expr (parse_alloc_if_unset e) \<Longrightarrow> fine b (k (r', e)) Q"
  shows "fine b (check (if c then check (parse_loop_do_while_suffix r) (\<lambda>(tok, e). Inr (tok, Some e))
               else Inr (r, None)) k) Q"
  using assms
  by (auto simp: node_post_def parse_alloc_if_unset_def
      intro!: fine_check_check fine_step [OF parse_loop_do_while_suffix_fine [OF assms(1,2)]])

lemma loop_type_step:
  assumes "is_token_type tok (Keyword TOKEN_KEYWORD_DO) \<or> is_token_type tok (Keyword TOKEN_KEYWORD_WHILE) \<or>
      is_token_type tok (Keyword TOKEN_KEYWORD_FOR)"
    and "\<And>lt. fine b (k lt) Q"
  shows "fine b (check (loop_type_of tok) k) Q"
  using assms by (auto simp: loop_type_of_def)

lemma parse_loop_fine:
  assumes "is_token_type tok (Keyword TOKEN_KEYWORD_DO) \<or> is_token_type tok (Keyword TOKEN_KEYWORD_WHILE) \<or>
      is_token_type tok (Keyword TOKEN_KEYWORD_FOR)"
    and len: "2 * length tok \<le> n" and ok: "toks_ok b tok"
  shows "fine b (parse_loop stmt blk tok) (node_post wf_item tok)"
proof -
  obtain t where t: "is_token_type tok t" using assms(1) by blast
  have len': "2 * length tok \<le> n + 1" using len by simp
  show ?thesis
    unfolding parse_loop_def Let_def
    apply (rule loop_type_step [OF assms(1)])
    apply (rule start_step [OF t])
    apply (rule expect_if_step, assumption)
    apply (rule for_init_step [OF _ len' ok], assumption, unfold prod.case)
    apply (rule parse_expr_if_step [OF _ ok], assumption, unfold prod.case)
    apply (rule expect_if_step, assumption)
    apply (rule parse_expr_if_step [OF _ ok], assumption, unfold prod.case)
    apply (rule expect_if_step, assumption)
    apply (rule stmt_multi_step [OF _ len ok], assumption, unfold prod.case)
    apply (rule postcond_step [OF _ ok], assumption, unfold prod.case)
    apply (auto intro!: node_postI)
    done
qed

lemma parse_switch_fine:
  assumes "is_token_type tok (Keyword TOKEN_KEYWORD_SWITCH)" "2 * length tok \<le> n" "toks_ok b tok"
  shows "fine b (parse_switch stmt tok) (node_post wf_item tok)"
  unfolding parse_switch_def
  using assms
  by (auto intro!: fine_assert start_step [OF assms(1)] expect_step expr_step [OF _ assms(3)]
      stmt_multi_step [OF _ assms(2,3)] node_postI)

lemma constant_step:
  assumes "psfx r tok0" "can_parse_constant r" "toks_ok b tok0"
    and "\<And>r' a. psfx r' tok0 \<Longrightarrow> constant_node a \<Longrightarrow> fine b (k (r', a)) Q"
  shows "fine b (check (parse_constant r) k) Q"
  by (rule fine_step [OF parse_constant_fine [OF assms(2) toks_ok_psfx [OF assms(3,1)]]])
    (use assms(1,4) in \<open>auto simp: split_paired_all intro: psfx_trans psfx_trans1 psfx_sfx\<close>)

lemma parse_case_fine:
  assumes "is_token_type tok (Keyword TOKEN_KEYWORD_CASE)" "toks_ok b tok"
  shows "fine b (parse_case tok) (node_post wf_item tok)"
  unfolding parse_case_def
  using assms
  by (auto intro!: fine_assert start_step [OF assms(1)] fine_if constant_step [OF _ _ assms(2)]
      expect_step node_postI)

lemma with_step:
  assumes "fine b m (node_post P tok)" "\<And>a. P a \<Longrightarrow> wf_item a"
  shows "fine b (check m (\<lambda>(tok, a). Inr (tok, a, again, semicolon)))
     (node_post (\<lambda>x. wf_item (fst x)) tok)"
  by (rule node_step [OF assms(1) sfx_refl]) (auto intro!: node_postI assms(2))

lemma next_step:
  assumes "is_token_type tok t" "is_token_type (tl tok) t'" "\<And>tok1. wf_item (f tok1)"
  shows "fine b (check (token_consume tok) (\<lambda>tok1. check (token_consume tok1) (\<lambda>tok2.
      Inr (tok2, f tok1, again, semicolon)))) (node_post (\<lambda>x. wf_item (fst x)) tok)"
  using assms by (cases tok; cases "tl tok") (auto simp: node_post_def)

lemma stmt_branch_fine:
  assumes len: "2 * length tok + 2 \<le> Suc n" and ok: "toks_ok b tok"
  shows "fine b (stmt_branch stmt blk tok) (node_post (\<lambda>x. wf_item (fst x)) tok)"
proof -
  have len': "2 * length tok \<le> n" "2 * length tok + 1 \<le> n" using len by auto
  note leaf = node_postI [where P = "\<lambda>x. wf_item (fst x)"]
  show ?thesis
    unfolding stmt_branch_def Let_def
    by (intro fine_if; (elim conjE)?; (rule next_step; simp; fail)?)
      (auto intro!: start_step fine_if expr_step [OF _ ok] with_step [OF blk_fine [OF len'(2) ok]]
        with_step [OF parse_if_else_fine] with_step [OF parse_loop_fine] with_step [OF parse_switch_fine]
        with_step [OF parse_case_fine] with_step [OF parse_expr_node] leaf
        simp: len' ok block_node_item wf_item_expr)
qed

lemma stmt_body_fine:
  assumes "2 * length tok + 2 \<le> Suc n" "toks_ok b tok"
  shows "fine b (stmt_body stmt blk tok) (node_post (\<lambda>x. wf_item (fst x)) tok)"
  unfolding stmt_body_def
  by (rule node_step [OF stmt_branch_fine [OF assms] sfx_refl])
    (auto intro!: expect_if_step node_postI [where P = "\<lambda>x. wf_item (fst x)"])

lemma block_item_fine:
  assumes "2 * length tok + 2 \<le> n" "toks_ok b tok"
  shows "fine b (block_item stmt blk tok) (node_post wf_item tok)"
  unfolding block_item_def using assms
  by (auto intro!: fine_if node_step [OF stmt_fine] node_postI
      fine_mono [OF parse_fn_or_var_declaration_fine] elim!: node_post_weaken decl_node_item)

lemma block_items_loop_fine:
  "length r < k \<Longrightarrow> 2 * length r + 2 \<le> n \<Longrightarrow> toks_ok b r \<Longrightarrow>
   fine b (block_items_loop stmt blk k r) (\<lambda>x. sfx (fst x) r \<and> wf_items (snd x))"
proof (induction k arbitrary: r)
  case (Suc k)
  have rec: "fine b (check (block_items_loop stmt blk k r') (\<lambda>(tok, cdr). Inr (tok, car # cdr)))
      (\<lambda>x. sfx (fst x) r \<and> wf_items (snd x))"
    if "psfx r' r" "wf_item car" for r' car
  proof (rule fine_step [OF Suc.IH])
    show "length r' < k" "2 * length r' + 2 \<le> n" "toks_ok b r'"
      using that(1) Suc.prems psfx_length [OF that(1)] by (auto intro: toks_ok_psfx)
  qed (use sfx_psfx_trans [OF _ that(1)] that(2) in auto)
  show ?case
    using Suc.prems
    by (auto intro!: node_step [OF block_item_fine] rec)
qed simp

lemma block_body_fine:
  assumes "2 * length tok + 1 \<le> Suc n" "toks_ok b tok"
  shows "fine b (block_body stmt blk tok) (node_post block_node tok)"
proof (cases tok)
  case (Cons t r)
  have items: "fine b (block_items_loop stmt blk (budget r) r) (\<lambda>x. sfx (fst x) r \<and> wf_items (snd x))"
    by (rule block_items_loop_fine) (use assms Cons in auto)
  show ?thesis
    unfolding block_body_def Cons
    by (auto intro!: fine_expect fine_if fine_step [OF items] start_step simp: node_post_def
        intro: psfx_sfx sfx_ConsD)
qed (simp add: block_body_def)

end

lemma stmt_contract_parse: "stmt_contract (parse_stmt_one n) (parse_block n) n b"
proof (induction n)
  case 0
  show ?case by unfold_locales auto
next
  case (Suc n)
  show ?case
    by unfold_locales
      (simp_all only: parse_block.simps parse_stmt_one.simps stmt_contract.stmt_body_fine [OF Suc]
        stmt_contract.block_body_fine [OF Suc])
qed

interpretation stmts: stmt_contract "parse_stmt_one n" "parse_block n" n b for n b
  by (rule stmt_contract_parse)

lemma parse_block_top_fine: "toks_ok b tok \<Longrightarrow> fine b (parse_block_top tok) (node_post block_node tok)"
  unfolding parse_block_top_def by (rule stmts.blk_fine) simp_all

section \<open>Programs\<close>

text \<open>A block always gets a budget that is enough, so its contract holds at any length.\<close>

lemma stmt_contract_top: "stmt_contract (\<lambda>_. make_result_t e) parse_block_top N b"
  by unfold_locales (auto intro: parse_block_top_fine)

interpretation global: stmt_contract "\<lambda>_. make_result_t e" parse_block_top N b for e N b
  by (rule stmt_contract_top)

lemma parse_globals_fine:
  "length tok < k \<Longrightarrow> toks_ok b tok \<Longrightarrow> fine b (parse_globals k tok) (list_all decl_node)"
proof (induction k arbitrary: tok)
  case (Suc k)
  have decl: "fine b (parse_fn_or_var_declaration parse_block_top PARSE_DECLARATION_ACCEPT_FUNCTION tok)
      (node_post decl_node tok)"
    by (rule global.parse_fn_or_var_declaration_fine [of tok "2 * length tok"]) (use Suc.prems in auto)
  have "fine b (check (parse_globals k r) (\<lambda>cdr. Inr (car # cdr))) (list_all decl_node)"
    if "psfx r tok" "decl_node car" for r car
  proof (rule fine_step [OF Suc.IH])
    show "length r < k" "toks_ok b r"
      using that(1) Suc.prems psfx_length [OF that(1)] by (auto intro: toks_ok_psfx)
  qed (use that in auto)
  then show ?case by (auto intro!: fine_if node_step [OF decl])
qed simp

lemma parse_program_fine:
  "toks_ok b tok \<Longrightarrow> fine b (parse_program tok) (\<lambda>p. list_all decl_node (globals p))"
  unfolding parse_program_def by (auto intro!: fine_step [OF parse_globals_fine])

end
