(* ===== verification/ResolveFacts.thy ===== *)
theory ResolveFacts
  imports ScopesFacts StatementFacts
begin

text \<open>
  Resolving what the parser builds: no assertion of \<^verbatim>\<open>resolve.c\<close> fails on it, and every use of
  a name in the result has the number of a declared symbol. Both are proved of the scopes of
  \<open>Scopes\<close> and carried over to the symbol table by \<open>resolve_globals_scoped\<close>.
\<close>

section \<open>Uses of names\<close>

function ast_uses :: "ast \<Rightarrow> ast_symbol list" where
  "ast_uses a =
     (case a of
        NODE_FUNCTION i sp rt ps b \<Rightarrow> (case b of None \<Rightarrow> [] | Some b \<Rightarrow> ast_uses b)
      | NODE_FUNCTION_RETURN_STATEMENT e \<Rightarrow> ast_uses e
      | NODE_BLOCK items \<Rightarrow> concat (map ast_uses items)
      | NODE_DECLARATION i sp vt init t \<Rightarrow> (case init of None \<Rightarrow> [] | Some e \<Rightarrow> ast_uses e)
      | NODE_IF_ELSE c th el \<Rightarrow> ast_uses c @ concat (map ast_uses th) @ concat (map ast_uses el)
      | NODE_LOOP pre bd inc post le lc ls \<Rightarrow>
          ast_uses pre @ concat (map ast_uses bd) @ ast_uses inc @ ast_uses post
      | NODE_SWITCH c bd ld le cs \<Rightarrow> ast_uses c @ concat (map ast_uses bd)
      | Op_unary u e t \<Rightarrow> ast_uses e
      | Op_binary b l r t \<Rightarrow> ast_uses l @ ast_uses r
      | Op_ternary c x y t \<Rightarrow> ast_uses c @ ast_uses x @ ast_uses y
      | NODE_EXPRESSION_VARIABLE_USAGE s t \<Rightarrow> [s]
      | NODE_EXPRESSION_FUNCTION_CALL s args t \<Rightarrow> s # concat (map ast_uses args)
      | NODE_EXPRESSION_CAST ty e t \<Rightarrow> ast_uses e
      | NODE_SHARED e \<Rightarrow> ast_uses e
      | NODE_EXPRESSION_INITIALIZER sg mu t \<Rightarrow>
          (case sg of None \<Rightarrow> [] | Some e \<Rightarrow> ast_uses e) @ concat (map ast_uses mu)
      | _ \<Rightarrow> [])"
  by pat_completeness auto
termination
  by (relation "measure size") (auto dest!: size_list_estimation' [of _ _ _ size, OF _ order.refl])

declare ast_uses.simps [simp del]

definition resolved :: "ast \<Rightarrow> bool" where
  "resolved a = (\<forall>s \<in> set (ast_uses a). 0 \<le> as_unique s)"

lemma resolved_simps [simp]:
  "resolved (NODE_FUNCTION i sp rt ps b) = (\<forall>x. b = Some x \<longrightarrow> resolved x)"
  "resolved (NODE_FUNCTION_RETURN_STATEMENT e) = resolved e"
  "resolved (NODE_BLOCK items) = (\<forall>x \<in> set items. resolved x)"
  "resolved (NODE_DECLARATION i sp vt init t) = (\<forall>x. init = Some x \<longrightarrow> resolved x)"
  "resolved (NODE_IF_ELSE c th el) =
     (resolved c \<and> (\<forall>x \<in> set th. resolved x) \<and> (\<forall>x \<in> set el. resolved x))"
  "resolved (NODE_LOOP pre bd inc post le lc ls) =
     (resolved pre \<and> (\<forall>x \<in> set bd. resolved x) \<and> resolved inc \<and> resolved post)"
  "resolved (NODE_SWITCH c bd ld le cs) = (resolved c \<and> (\<forall>x \<in> set bd. resolved x))"
  "resolved (Op_unary u e t) = resolved e"
  "resolved (Op_binary bo l r t) = (resolved l \<and> resolved r)"
  "resolved (Op_ternary c x y t) = (resolved c \<and> resolved x \<and> resolved y)"
  "resolved (NODE_EXPRESSION_VARIABLE_USAGE s t) = (0 \<le> as_unique s)"
  "resolved (NODE_EXPRESSION_FUNCTION_CALL s args t) =
     (0 \<le> as_unique s \<and> (\<forall>x \<in> set args. resolved x))"
  "resolved (NODE_EXPRESSION_CAST ty e t) = resolved e"
  "resolved (NODE_SHARED e) = resolved e"
  "resolved (NODE_EXPRESSION_INITIALIZER sg mu t) =
     ((\<forall>x. sg = Some x \<longrightarrow> resolved x) \<and> (\<forall>x \<in> set mu. resolved x))"
  "resolved (NODE_BREAK k)" "resolved (NODE_CONTINUE k)" "resolved (NODE_GOTO l' k)"
  "resolved (NODE_LABEL l' k)" "resolved (NODE_CASE c k)" "resolved (NODE_CASE_DEFAULT k)"
  "resolved (NODE_CONSTANT v t)" "resolved (NODE_CONSTANT_STR s' t)" "resolved (NODE_EXPRESSION_NULL t)"
  by (unfold resolved_def; subst ast_uses.simps; fastforce split: option.splits)+

section \<open>Contracts of the scopes\<close>

definition sc_ok :: "scope \<Rightarrow> bool" where
  "sc_ok sc \<longleftrightarrow> 0 \<le> sc_next sc \<and> (\<forall>name s. sc_env sc name = Some s \<longrightarrow> 0 \<le> unique s)"

lemma sc_okD [dest]:
  "sc_ok sc \<Longrightarrow> 0 \<le> sc_next sc"
  "sc_ok sc \<Longrightarrow> sc_env sc name = Some s \<Longrightarrow> 0 \<le> unique s"
  by (auto simp: sc_ok_def)

lemma sc_ok_bind: "sc_ok sc \<Longrightarrow> 0 \<le> unique s \<Longrightarrow> sc_ok (scope_bind s sc)"
  by (auto simp: sc_ok_def scope_bind_def)

lemma sc_ok_local [simp]: "sc_ok (sc\<lparr>sc_local := l\<rparr>) = sc_ok sc"
  by (simp add: sc_ok_def)

lemma sc_ok_next: "sc_ok sc \<Longrightarrow> sc_ok sc' \<Longrightarrow> sc_ok (sc\<lparr>sc_next := sc_next sc'\<rparr>)"
  by (simp add: sc_ok_def)

abbreviation scoped_post :: "('a \<Rightarrow> bool) \<Rightarrow> 'a \<times> scope \<Rightarrow> bool" where
  "scoped_post P x \<equiv> P (fst x) \<and> sc_ok (snd x)"

abbreviation safe :: "(scope \<Rightarrow> ('a \<times> scope) result) \<Rightarrow> ('a \<Rightarrow> bool) \<Rightarrow> bool" where
  "safe f P \<equiv> \<forall>sc. sc_ok sc \<longrightarrow> fine True (f sc) (scoped_post P)"

lemma safe_next:
  assumes "fine True m (scoped_post P)" "\<And>a sc. P a \<Longrightarrow> sc_ok sc \<Longrightarrow> fine True (k a sc) Q"
  shows "fine True (check m (\<lambda>(a, sc). k a sc)) Q"
  by (rule fine_step [OF assms(1)]) (auto simp: split_paired_all assms(2))

lemma scoped_use_fine:
  assumes "sc_ok sc" "as_unique u = NOT_YET_UNIQUE" "\<And>i t. 0 \<le> as_unique i \<Longrightarrow> fine True (k i t) Q"
  shows "fine True (check (scoped_use sc u e) (\<lambda>(i, t). k i t)) Q"
  using assms
  by (auto simp: scoped_use_def assert_that_def make_result_defs map_symbol_members_def sc_ok_def
      split: option.split)

lemma scoped_block_fine: "safe items P \<Longrightarrow> safe (scoped_block items) P"
  unfolding scoped_block_def by (auto intro!: safe_next [of _ P] sc_ok_next)

lemma scoped_params_ok: "sc_ok sc \<Longrightarrow> sc_ok (snd (scoped_params ps sc))"
proof (induction ps arbitrary: sc)
  case (Cons a ps)
  have "sc_ok (snd (scoped_param a sc))"
    using Cons.prems by (auto simp: scoped_param_def Let_def intro!: sc_ok_bind)
  then show ?case using Cons by (simp add: split_beta Let_def)
qed simp

lemma scoped_declaration_fine:
  assumes "sc_ok sc"
  shows "fine True (scoped_declaration i sp vt sc l) (\<lambda>x. sc_ok (snd (snd x)))"
  using assms
  by (auto simp: scoped_declaration_def Let_def map_symbol_members_def intro!: sc_ok_bind
      split: option.split)

lemma scoped_function_fine:
  assumes "sc_ok sc" "\<And>f. block = Some f \<Longrightarrow> safe f P"
  shows "fine True (scoped_function i rt ps block sc)
     (\<lambda>(i, ps, b, sc). (\<forall>x. b = Some x \<longrightarrow> P x) \<and> sc_ok sc)"
proof -
  let ?f = "fresh_symbol (as_name i)
    (if block \<noteq> None then SYMBOL_FUNCTION_DEFINITION else SYMBOL_FUNCTION_DECLARATION) rt (sc_next sc)"
  have sc1: "sc_ok (scope_bind ?f sc)" using assms(1) by (auto intro!: sc_ok_bind)
  obtain ps' sc2 where ps: "scoped_params ps ((scope_bind ?f sc)\<lparr>sc_local := {}\<rparr>) = (ps', sc2)"
    by fastforce
  have sc2: "sc_ok sc2"
    using scoped_params_ok [of "(scope_bind ?f sc)\<lparr>sc_local := {}\<rparr>" ps] sc1 ps by simp
  have "fine True
      (case block of None \<Rightarrow> Inr (None, sc2) | Some items \<Rightarrow> check (items sc2) (\<lambda>(b, sc). Inr (Some b, sc)))
      (scoped_post (\<lambda>b. \<forall>x. b = Some x \<longrightarrow> P x))"
    using sc2 assms(2) by (auto split: option.split intro!: safe_next [of _ P])
  then show ?thesis
    unfolding scoped_function_def Let_def ps prod.case
    by (rule safe_next) (use sc1 in \<open>auto intro: sc_ok_next\<close>)
qed

section \<open>The tree\<close>

lemma opt_safe: "(\<And>e. a = Some e \<Longrightarrow> safe (scoped_expr e) resolved) \<Longrightarrow>
    safe (scoped_opt a) (\<lambda>x. \<forall>e. x = Some e \<longrightarrow> resolved e)"
  by (cases a) (auto intro!: safe_next [of _ resolved])

abbreviation resolved_all :: "ast list \<Rightarrow> bool" where
  "resolved_all as \<equiv> \<forall>a \<in> set as. resolved a"

lemma exprs_safe:
  "(\<And>e. e \<in> set as \<Longrightarrow> safe (scoped_expr e) resolved) \<Longrightarrow> safe (scoped_exprs as) resolved_all"
  by (induction as) (auto intro!: safe_next [of _ resolved] safe_next [of _ resolved_all])

lemma items_safe:
  "(\<And>e. e \<in> set as \<Longrightarrow> safe (scoped_item SYMBOL_LINKAGE_NONE e) resolved) \<Longrightarrow>
   safe (scoped_items as) resolved_all"
  by (induction as)
    (auto intro!: safe_next [of _ resolved] safe_next [of _ resolved_all] simp del: scoped_item.simps)

definition inner_node :: "ast \<Rightarrow> bool" where
  "inner_node a = (case a of NODE_FUNCTION _ _ _ _ _ \<Rightarrow> False | NODE_DECLARATION _ _ _ _ _ \<Rightarrow> False
     | NODE_BLOCK _ \<Rightarrow> False | _ \<Rightarrow> True)"

definition tree_safe :: "ast \<Rightarrow> bool" where
  "tree_safe a \<longleftrightarrow>
     (wf_expr a \<or> wf_init a \<or> wf_item a \<and> inner_node a \<longrightarrow> safe (scoped_expr a) resolved) \<and>
     (wf_item a \<longrightarrow> (\<forall>l. safe (scoped_item l a) resolved)) \<and>
     (block_node a \<longrightarrow> safe (scoped_block_of a) resolved_all)"

lemma tree_safeI:
  assumes "inner_node a" "wf_expr a \<or> wf_init a \<or> wf_item a \<Longrightarrow> safe (scoped_expr a) resolved"
  shows "tree_safe a"
  using assms by (cases a) (simp_all add: tree_safe_def inner_node_def block_node_def)

lemma function_safe:
  assumes "\<And>b. block = Some b \<Longrightarrow> safe (scoped_block_of b) resolved_all"
  shows "safe (scoped_item l (NODE_FUNCTION i sp rt ps block)) resolved"
proof (intro allI impI)
  fix sc assume sc: "sc_ok sc"
  have "fine True (scoped_function i rt ps (map_option scoped_block_of block) sc)
      (\<lambda>(i, ps, b, sc). (\<forall>x. b = Some x \<longrightarrow> resolved_all x) \<and> sc_ok sc)"
    by (rule scoped_function_fine [OF sc]) (use assms in auto)
  then have "fine True (check (scoped_function i rt ps (map_option scoped_block_of block) sc)
      (\<lambda>(i, ps, b, sc). Inr (NODE_FUNCTION i sp rt ps (map_option NODE_BLOCK b), sc))) (scoped_post resolved)"
    by (rule fine_step) auto
  moreover have "(case block of None \<Rightarrow> None
      | Some b \<Rightarrow> Some (case b of NODE_BLOCK items \<Rightarrow> \<lambda>sc. scoped_items items sc | _ \<Rightarrow> \<lambda>sc. Inl Abort)) =
      map_option scoped_block_of block"
    by (cases block) (simp_all add: scoped_block_of_def)
  ultimately show "fine True (scoped_item l (NODE_FUNCTION i sp rt ps block) sc) (scoped_post resolved)"
    by simp
qed

lemma declaration_safe:
  assumes "safe (scoped_opt init) (\<lambda>x. \<forall>e. x = Some e \<longrightarrow> resolved e)"
  shows "safe (scoped_item l (NODE_DECLARATION i sp vt init t)) resolved"
proof (intro allI impI)
  fix sc assume sc: "sc_ok sc"
  have "fine True (check (scoped_opt init sc') (\<lambda>(init, sc). Inr (NODE_DECLARATION j sp vt init t', sc)))
      (scoped_post resolved)" if "sc_ok sc'" for j t' sc'
    by (rule safe_next [of _ "\<lambda>x. \<forall>e. x = Some e \<longrightarrow> resolved e"]) (use assms that in auto)
  then show "fine True (scoped_item l (NODE_DECLARATION i sp vt init t) sc) (scoped_post resolved)"
    by (auto intro!: fine_step [OF scoped_declaration_fine [OF sc]])
qed

lemma tree_safe_next:
  assumes "tree_safe a" "wf_expr a \<or> wf_init a" "sc_ok sc"
    "\<And>a sc. resolved a \<Longrightarrow> sc_ok sc \<Longrightarrow> fine True (k a sc) Q"
  shows "fine True (check (scoped_expr a sc) (\<lambda>(a, sc). k a sc)) Q"
  by (rule safe_next [of _ resolved]) (use assms in \<open>auto simp: tree_safe_def\<close>)

lemma block_safe_next:
  assumes "\<And>e. e \<in> set items \<Longrightarrow> tree_safe e" "\<forall>e \<in> set items. wf_item e" "sc_ok sc"
    "\<And>as sc. resolved_all as \<Longrightarrow> sc_ok sc \<Longrightarrow> fine True (k as sc) Q"
  shows "fine True (check (scoped_block (\<lambda>sc. scoped_items items sc) sc) (\<lambda>(a, sc). k a sc)) Q"
proof -
  have items: "safe (scoped_items items) resolved_all"
    by (rule items_safe) (use assms in \<open>simp add: tree_safe_def\<close>)
  have "fine True (scoped_block (\<lambda>sc. scoped_items items sc) sc) (scoped_post resolved_all)"
    using scoped_block_fine [OF items] assms(3) by simp
  then show ?thesis by (rule safe_next) (rule assms(4))
qed

lemma exprs_safe_next:
  assumes "\<And>e. e \<in> set as \<Longrightarrow> tree_safe e" "\<forall>e \<in> set as. wf_expr e \<or> wf_init e" "sc_ok sc"
    "\<And>as sc. resolved_all as \<Longrightarrow> sc_ok sc \<Longrightarrow> fine True (k as sc) Q"
  shows "fine True (check (scoped_exprs as sc) (\<lambda>(a, sc). k a sc)) Q"
proof -
  have "safe (scoped_exprs as) resolved_all"
    by (rule exprs_safe) (use assms in \<open>auto simp: tree_safe_def\<close>)
  then have "fine True (scoped_exprs as sc) (scoped_post resolved_all)" using assms(3) by blast
  then show ?thesis by (rule safe_next) (rule assms(4))
qed

lemma opt_safe_next:
  assumes "\<And>e. a = Some e \<Longrightarrow> tree_safe e \<and> wf_expr e" "sc_ok sc"
    "\<And>x sc. \<forall>e. x = Some e \<longrightarrow> resolved e \<Longrightarrow> sc_ok sc \<Longrightarrow> fine True (k x sc) Q"
  shows "fine True (check (scoped_opt a sc) (\<lambda>(a, sc). k a sc)) Q"
proof -
  have "safe (scoped_opt a) (\<lambda>x. \<forall>e. x = Some e \<longrightarrow> resolved e)"
    by (rule opt_safe) (use assms in \<open>auto simp: tree_safe_def\<close>)
  then have "fine True (scoped_opt a sc) (scoped_post (\<lambda>x. \<forall>e. x = Some e \<longrightarrow> resolved e))"
    using assms(2) by blast
  then show ?thesis by (rule safe_next) (rule assms(3))
qed

lemmas safe_nexts = tree_safe_next block_safe_next exprs_safe_next opt_safe_next scoped_use_fine

lemma wf_item_expr_simps [simp]:
  "wf_item (Op_unary u e t) = wf_expr e"
  "wf_item (Op_binary bo x y t) = (wf_expr x \<and> wf_expr y)"
  "wf_item (Op_ternary c x y t) = (wf_expr c \<and> wf_expr x \<and> wf_expr y)"
  "wf_item (NODE_EXPRESSION_VARIABLE_USAGE s t) = (as_unique s = NOT_YET_UNIQUE)"
  "wf_item (NODE_EXPRESSION_FUNCTION_CALL s args t) =
     (as_unique s = NOT_YET_UNIQUE \<and> (\<forall>a \<in> set args. wf_expr a))"
  "wf_item (NODE_EXPRESSION_CAST ty e t) = wf_expr e"
  "wf_item (NODE_EXPRESSION_INITIALIZER sg mu t) = False"
  "wf_item (NODE_SHARED e) = False"
  by (subst wf_item.simps; simp)+

lemma tree_is_safe: "tree_safe a"
proof (induction a)
  case (NODE_FUNCTION i sp rt ps b)
  then show ?case
    by (auto simp del: scoped_item.simps simp: tree_safe_def inner_node_def block_node_def
        intro!: function_safe split: option.splits)
next
  case (NODE_DECLARATION i sp vt init t)
  have "wf_item (NODE_DECLARATION i sp vt init t) \<Longrightarrow> safe (scoped_opt init) (\<lambda>x. \<forall>e. x = Some e \<longrightarrow> resolved e)"
    by (rule opt_safe) (use NODE_DECLARATION in \<open>simp add: tree_safe_def\<close>)
  then show ?case
    by (simp add: tree_safe_def inner_node_def block_node_def declaration_safe del: scoped_item.simps)
next
  case (NODE_BLOCK items)
  have items: "wf_items items \<Longrightarrow> safe (scoped_items items) resolved_all"
    by (rule items_safe) (use NODE_BLOCK in \<open>simp add: tree_safe_def\<close>)
  then have "wf_items items \<Longrightarrow> safe (scoped_item l (NODE_BLOCK items)) resolved" for l
    by (auto intro!: block_safe_next NODE_BLOCK)
  then show ?case using items
    by (simp add: tree_safe_def inner_node_def scoped_block_of_def del: scoped_item.simps)
next
  case (NODE_IF_ELSE c th el)
  show ?case
    by (rule tree_safeI; auto simp: inner_node_def NODE_IF_ELSE intro!: safe_nexts)
next
  case (NODE_EXPRESSION_INITIALIZER sg mu t)
  show ?case
    by (rule tree_safeI; auto simp: inner_node_def NODE_EXPRESSION_INITIALIZER simp del: scoped_opt.simps
        intro!: opt_safe_next exprs_safe_next split: option.splits)
next
  case (NODE_LOOP pre bd inc post le lc ls)
  show ?case
    by (rule tree_safeI; auto simp: inner_node_def NODE_LOOP intro!: safe_nexts)
qed (rule tree_safeI; auto simp: inner_node_def intro!: safe_nexts)+

section \<open>Programs\<close>

lemma scoped_globals_fine:
  "list_all decl_node gs \<Longrightarrow> safe (scoped_globals gs) resolved_all"
proof (induction gs)
  case (Cons a gs)
  have item: "safe (scoped_item l a) resolved" for l
    using Cons.prems tree_is_safe [of a] by (simp add: tree_safe_def decl_node_def)
  have rest: "fine True (check (scoped_globals gs sc) (\<lambda>(cdr, sc). Inr (car # cdr, sc))) (scoped_post resolved_all)"
    if "resolved car" "sc_ok sc" for car sc
    by (rule safe_next [of _ resolved_all]) (use Cons that in auto)
  have "fine True
      (case a of
          NODE_FUNCTION _ _ _ _ _ \<Rightarrow> scoped_item SYMBOL_LINKAGE_NONE a sc
        | NODE_DECLARATION _ _ _ _ _ \<Rightarrow> scoped_item SYMBOL_LINKAGE_EXTERNAL a sc
        | _ \<Rightarrow> Inl Abort) (scoped_post resolved)" if "sc_ok sc" for sc
    using Cons.prems item that by (cases a) (auto simp: decl_node_def simp del: scoped_item.simps)
  then show ?case by (auto intro!: safe_next rest simp del: scoped_item.simps)
qed simp

lemma sc_ok_init: "sc_ok scope_init"
  by (simp add: sc_ok_def scope_init_def)

lemma resolve_globals_fine:
  assumes "list_all decl_node gs"
  shows "fine True (resolve_globals gs []) (\<lambda>x. resolved_all (fst x))"
  using scoped_globals_fine [OF assms] sc_ok_init resolve_globals_scoped [of gs]
  by (fastforce simp: fine_def split: sum.splits failure.splits)

text \<open>The contract of the whole parser.\<close>

lemma parse_init_fine:
  assumes "toks_ok b tok"
  shows "fine b (parse_init tok g) (\<lambda>x. (g \<noteq> None \<longrightarrow> resolved_all (globals (fst x))))"
proof -
  have res: "fine b (resolve_globals gs []) (\<lambda>x. resolved_all (fst x))" if "list_all decl_node gs" for gs
    using resolve_globals_fine [OF that] by (auto simp: fine_def split: sum.splits failure.splits)
  then show ?thesis
    unfolding parse_init_def
    by (auto intro!: fine_step [OF parse_program_fine [OF assms]] fine_step [OF res] split: option.split
        simp: split_paired_all)
qed

end
