(* ===== verification/ExprPrint.thy ===== *)
theory ExprPrint
  imports DeclaratorFacts Expression
begin

text \<open>
  A printer for expressions, and the proof that the parser inverts it: precedence climbing
  (\<^verbatim>\<open>parse_expr()\<close>) recovers the tree that was printed.

  The spelling, the precedence and the associativity of the operators are written down here
  from the grammar of ISO C (6.5.3 to 6.5.16), not taken from the tables of the parser.
  \<open>fits p e\<close> says that \<open>e\<close> may stand where the grammar of C wants an expression of precedence
  at least \<open>p\<close>: its operands fit the levels of its operator, left or right associative.
  \<open>parens p e\<close> puts an arbitrary tree into that form with the fewest parentheses.
\<close>

section \<open>Constants\<close>

definition constant_suffix :: "ctype \<Rightarrow> string" where
  "constant_suffix t =
     (case t of CTYPE_LONG _ \<Rightarrow> ''L'' | CTYPE_UNSIGNED_INT _ \<Rightarrow> ''U'' | CTYPE_UNSIGNED_LONG _ \<Rightarrow> ''UL''
      | _ \<Rightarrow> [])"

definition constant_fits :: "int \<Rightarrow> ctype \<Rightarrow> bool" where
  "constant_fits n t \<longleftrightarrow>
     0 \<le> n \<and>
     (t = CTYPE_INT (n = 0) \<and> n \<le> INT_MAX \<or> t = CTYPE_LONG (n = 0) \<and> n \<le> LLONG_MAX \<or>
      t = CTYPE_UNSIGNED_INT (n = 0) \<and> n \<le> UINT_MAX \<or>
      t = CTYPE_UNSIGNED_LONG (n = 0) \<and> n \<le> ULLONG_MAX)"

definition constant_text :: "int \<Rightarrow> ctype \<Rightarrow> string" where
  "constant_text n t = nat_decimal (nat n) @ constant_suffix t"

lemma digit_in_base_digit: "isdigit c \<Longrightarrow> digit_in_base 10 c = Some (digit_value c)"
  by (auto simp: digit_in_base_def isdigit_def digit_value_def Let_def)

lemma digits_value_digits:
  assumes "\<And>c. c \<in> set s \<Longrightarrow> isdigit c" "digits_value 10 (foldl (\<lambda>n c. 10 * n + digit_value c) acc s) r =
      foldl (\<lambda>n c. 10 * n + digit_value c) acc s"
  shows "digits_value 10 acc (s @ r) = foldl (\<lambda>n c. 10 * n + digit_value c) acc s"
  using assms by (induction s arbitrary: acc) (simp_all add: digit_in_base_digit)

lemma digits_value_suffix: "digits_value 10 acc (constant_suffix t) = acc"
  by (cases t) (simp_all add: constant_suffix_def digit_in_base_def ctype_char_defs Let_def toupper_def)

lemma nat_decimal_first: "0 < n \<Longrightarrow> hd (nat_decimal n) \<noteq> CHR ''0''"
proof (induction n rule: nat_decimal.induct)
  case (1 n)
  show ?case
  proof (cases "n < 10")
    case True
    then have "digit_char n \<noteq> CHR ''0''"
      using 1 code_digit_char [of n] by (auto simp: code_def)
    then show ?thesis using True by (simp add: nat_decimal.simps)
  next
    case False
    then show ?thesis using 1 by (subst nat_decimal.simps) simp
  qed
qed

lemma strtoull_value_text: "strtoull_value (nat_decimal n @ constant_suffix t) = n"
proof (cases "n = 0")
  case True
  moreover have "digit_char 0 = CHR ''0''" by code_simp
  ultimately have "nat_decimal n = ''0''" by (simp add: nat_decimal.simps)
  then show ?thesis
    using True by (cases t) (simp_all add: strtoull_value_def constant_suffix_def digit_in_base_def
        ctype_char_defs Let_def toupper_def)
next
  case False
  then obtain c s where s: "nat_decimal n = c # s" "c \<noteq> CHR ''0''"
    using nat_decimal_first [of n] by (cases "nat_decimal n") auto
  have "digits_value 10 0 (nat_decimal n @ constant_suffix t) = n"
    using digits_value_digits [of "nat_decimal n" 0 "constant_suffix t"] nat_decimal_digits
      decimal_roundtrip [of n] by (simp add: digits_value_suffix decimal_value_def)
  then show ?thesis using s by (auto simp: strtoull_value_def split: list.split)
qed

lemma toupper_isdigit: "isdigit c \<Longrightarrow> toupper c = c"
  by (simp add: toupper_def ctype_char_defs)

lemma has_suffix_digits:
  assumes s: "\<And>c. c \<in> set s \<Longrightarrow> isdigit c" "s \<noteq> []" and x: "isalpha x"
  shows "has_suffix s x = False" "has_suffix (s @ [a]) x = (toupper a = x)"
    "has_suffix (s @ [a, b]) x = (toupper a = x \<or> toupper b = x)"
proof -
  have no: "toupper (s ! i) \<noteq> x" if "i < length s" for i
    using s(1) [of "s ! i"] that x char_class_disjoint(1) toupper_isdigit by (metis nth_mem)
  show "has_suffix s x = False" "has_suffix (s @ [a]) x = (toupper a = x)"
    "has_suffix (s @ [a, b]) x = (toupper a = x \<or> toupper b = x)"
    using no [of "length s - 1"] no [of "length s - 2"] s(2)
    by (auto simp: has_suffix_def suffix_char_def nth_append Suc_le_eq numeral_2_eq_2)
qed

lemma not_maybe_double: "\<not> is_constant_maybe_double (constant_text n t)"
proof -
  have "c \<in> set (nat_decimal m) \<Longrightarrow> c \<noteq> CHR ''.'' \<and> c \<noteq> CHR ''E'' \<and> c \<noteq> CHR ''e''" for c m
    using nat_decimal_digits [of c m] by (auto simp: isdigit_def code_def)
  then show ?thesis
    by (cases t) (auto simp: is_constant_maybe_double_def constant_text_def constant_suffix_def)
qed

lemma parse_constant_text:
  assumes "constant_fits n t"
  shows "parse_constant_integer (constant_text n t) = Inr (NODE_CONSTANT (Num n) t)"
proof -
  let ?s = "nat_decimal (nat n)"
  have alpha: "isalpha (CHR ''L'')" "isalpha (CHR ''U'')" by (simp_all add: ctype_char_defs)
  note suffix = has_suffix_digits [OF nat_decimal_digits nat_decimal_nonempty]
  have sfx: "has_suffix (constant_text n t) (CHR ''L'') = (CHR ''L'' \<in> set (constant_suffix t))"
    "has_suffix (constant_text n t) (CHR ''U'') = (CHR ''U'' \<in> set (constant_suffix t))"
    using alpha by (cases t; simp add: constant_text_def constant_suffix_def suffix toupper_def ctype_char_defs)+
  have "n \<le> ULLONG_MAX" using assms by (auto simp: constant_fits_def limit_defs)
  then have val: "strtoull (constant_text n t) = (n, 0)"
    using assms strtoull_value_text [of "nat n" t] by (simp add: strtoull_def constant_text_def constant_fits_def)
  show ?thesis
    using assms
    by (auto simp: parse_constant_integer_def val sfx constant_suffix_def constant_fits_def Let_def
        assert_that_def limit_defs)
qed

section \<open>The printer\<close>

definition token_of :: "lex_tokentype \<Rightarrow> token" where
  "token_of tt = \<lparr>token_type = tt, val = []\<rparr>"

text \<open>How C spells its operators.\<close>

definition prefix_token :: "prefix_op \<Rightarrow> token" where
  "prefix_token op = token_of
     (case op of
        EXPRESSION_UNARY_COMPLEMENT \<Rightarrow> Char TOKEN_TILDE
      | EXPRESSION_UNARY_NEGATE \<Rightarrow> Char TOKEN_HYPHEN
      | EXPRESSION_UNARY_NOT \<Rightarrow> Char TOKEN_EXCLAMATION
      | EXPRESSION_UNARY_DEREFERENCE \<Rightarrow> Char TOKEN_ASTERISK
      | EXPRESSION_UNARY_ADDRESS_OF \<Rightarrow> Char TOKEN_AMPERSAND
      | EXPRESSION_UNARY_SIZE_OF \<Rightarrow> Keyword TOKEN_KEYWORD_SIZEOF
      | EXPRESSION_PREDECREMENT \<Rightarrow> Multi TOKEN_HYPHEN_HYPHEN
      | EXPRESSION_PREINCREMENT \<Rightarrow> Multi TOKEN_PLUS_SIGN_PLUS_SIGN)"

definition binary_token :: "infix_binary \<Rightarrow> lex_tokentype" where
  "binary_token op =
     (case op of
        EXPRESSION_BINARY_ADD \<Rightarrow> Char TOKEN_PLUS_SIGN
      | EXPRESSION_BINARY_SUBTRACT \<Rightarrow> Char TOKEN_HYPHEN
      | EXPRESSION_BINARY_MULTIPLY \<Rightarrow> Char TOKEN_ASTERISK
      | EXPRESSION_BINARY_DIVIDE \<Rightarrow> Char TOKEN_FORWARD_SLASH
      | EXPRESSION_BINARY_REMAINDER \<Rightarrow> Char TOKEN_PERCENT_SIGN
      | EXPRESSION_BITWISE_AND \<Rightarrow> Char TOKEN_AMPERSAND
      | EXPRESSION_BITWISE_OR \<Rightarrow> Char TOKEN_VERT_BAR
      | EXPRESSION_BITWISE_XOR \<Rightarrow> Char TOKEN_CARET
      | EXPRESSION_BITWISE_SHIFT_LEFT \<Rightarrow> Multi TOKEN_LESS_THAN_LESS_THAN
      | EXPRESSION_BITWISE_SHIFT_RIGHT \<Rightarrow> Multi TOKEN_MORE_THAN_MORE_THAN
      | EXPRESSION_LOGICAL_AND \<Rightarrow> Multi TOKEN_AMPERSAND_AMPERSAND
      | EXPRESSION_LOGICAL_OR \<Rightarrow> Multi TOKEN_VERT_BAR_VERT_BAR
      | EXPRESSION_VARIABLE_ASSIGNMENT \<Rightarrow> Char TOKEN_EQUAL_SIGN
      | EXPRESSION_COMPARE_EQUAL \<Rightarrow> Multi TOKEN_EQUAL_SIGN_EQUAL_SIGN
      | EXPRESSION_COMPARE_NOT_EQUAL \<Rightarrow> Multi TOKEN_EXCLAMATION_EQUAL_SIGN
      | EXPRESSION_COMPARE_LESS_THAN \<Rightarrow> Char TOKEN_LESS_THAN
      | EXPRESSION_COMPARE_LESS_THAN_EQ \<Rightarrow> Multi TOKEN_LESS_THAN_EQUAL_SIGN
      | EXPRESSION_COMPARE_MORE_THAN \<Rightarrow> Char TOKEN_MORE_THAN
      | EXPRESSION_COMPARE_MORE_THAN_EQ \<Rightarrow> Multi TOKEN_MORE_THAN_EQUAL_SIGN)"

definition compound_token :: "infix_compound \<Rightarrow> lex_tokentype" where
  "compound_token op = Multi
     (case op of
        EXPRESSION_COMPOUND_ASSIGN_ADD \<Rightarrow> TOKEN_PLUS_SIGN_EQUAL_SIGN
      | EXPRESSION_COMPOUND_ASSIGN_SUB \<Rightarrow> TOKEN_HYPHEN_EQUAL_SIGN
      | EXPRESSION_COMPOUND_ASSIGN_MUL \<Rightarrow> TOKEN_ASTERISK_EQUAL_SIGN
      | EXPRESSION_COMPOUND_ASSIGN_DIV \<Rightarrow> TOKEN_FORWARD_SLASH_EQUAL_SIGN
      | EXPRESSION_COMPOUND_ASSIGN_REM \<Rightarrow> TOKEN_PERCENT_SIGN_EQUAL_SIGN
      | EXPRESSION_COMPOUND_ASSIGN_AND \<Rightarrow> TOKEN_AMPERSAND_EQUAL_SIGN
      | EXPRESSION_COMPOUND_ASSIGN_OR \<Rightarrow> TOKEN_VERT_BAR_EQUAL_SIGN
      | EXPRESSION_COMPOUND_ASSIGN_XOR \<Rightarrow> TOKEN_CARET_EQUAL_SIGN
      | EXPRESSION_COMPOUND_ASSIGN_SL \<Rightarrow> TOKEN_LESS_THAN_LESS_THAN_EQUAL_SIGN
      | EXPRESSION_COMPOUND_ASSIGN_SR \<Rightarrow> TOKEN_MORE_THAN_MORE_THAN_EQUAL_SIGN)"

definition infix_token :: "infix_op \<Rightarrow> token" where
  "infix_token op = token_of
     (case op of
        Binary b \<Rightarrow> binary_token b
      | Compound c \<Rightarrow> compound_token c
      | EXPRESSION_TERNARY_CONDITIONAL \<Rightarrow> Char TOKEN_QUESTION)"

lemmas infix_token_defs = infix_token_def binary_token_def compound_token_def

lemma token_of_simps [simp]: "token_type (token_of tt) = tt" "val (token_of tt) = []"
  by (simp_all add: token_of_def)

lemma prefix_match_token [simp]: "prefix_match (prefix_token op) = Some op"
  by (cases op) (simp_all add: prefix_match_def prefix_token_def FOREACH_AST_NODE_EXPRESSION_PREFIX_OP_def)

lemma check_next_infix [simp]: "parse_expr_check_next_token (infix_token op # r) = Some op"
proof (cases op)
  case (Binary b)
  then show ?thesis
    by (cases b) (simp_all add: parse_expr_check_next_token_def infix_token_defs
        FOREACH_AST_NODE_EXPRESSION_INFIX_OP_def)
next
  case (Compound c)
  then show ?thesis
    by (cases c) (simp_all add: parse_expr_check_next_token_def infix_token_defs
        FOREACH_AST_NODE_EXPRESSION_INFIX_OP_def)
qed (simp add: parse_expr_check_next_token_def infix_token_defs FOREACH_AST_NODE_EXPRESSION_INFIX_OP_def)

text \<open>The infix operator of a binary node.\<close>

fun node_infix :: "binary_node \<Rightarrow> infix_op option" where
  "node_infix (Infix_binary op) = Some (Binary op)"
| "node_infix (Infix_compound op) = Some (Compound op)"
| "node_infix EXPRESSION_SUBSCRIPT = None"

lemma node_infix_Some: "node_infix b = Some op \<longleftrightarrow> binary_node_of op = Some b"
  by (cases b; cases op) auto

fun comma_separated :: "token list list \<Rightarrow> token list" where
  "comma_separated [] = []"
| "comma_separated [ts] = ts"
| "comma_separated (ts # us) = ts @ token_of (Char TOKEN_COMMA) # comma_separated us"

function print_expr :: "ast \<Rightarrow> token list" where
  "print_expr a =
     (case a of
        NODE_CONSTANT v t \<Rightarrow>
          [\<lparr>token_type = TOKEN_CONSTANT,
            val = (case v of Num n \<Rightarrow> constant_text n t | Dbl d \<Rightarrow> [])\<rparr>]
      | NODE_CONSTANT_STR s t \<Rightarrow> [\<lparr>token_type = TOKEN_CONSTANT_STR, val = s\<rparr>]
      | NODE_EXPRESSION_VARIABLE_USAGE s t \<Rightarrow> [\<lparr>token_type = TOKEN_IDENTIFIER, val = as_name s\<rparr>]
      | NODE_EXPRESSION_FUNCTION_CALL s args t \<Rightarrow>
          \<lparr>token_type = TOKEN_IDENTIFIER, val = as_name s\<rparr> # token_of (Char TOKEN_PAREN_OPEN) #
          comma_separated (map print_expr args) @ [token_of (Char TOKEN_PAREN_CLOSE)]
      | Op_unary u e t \<Rightarrow>
          (case u of
             Prefix op \<Rightarrow>
               if op = EXPRESSION_UNARY_SIZE_OF
               then prefix_token op # token_of (Char TOKEN_PAREN_OPEN) # print_expr e @
                    [token_of (Char TOKEN_PAREN_CLOSE)]
               else prefix_token op # print_expr e
           | EXPRESSION_PAREN_ENCLOSED \<Rightarrow>
               token_of (Char TOKEN_PAREN_OPEN) # print_expr e @ [token_of (Char TOKEN_PAREN_CLOSE)]
           | EXPRESSION_POSTINCREMENT \<Rightarrow> print_expr e @ [token_of (Multi TOKEN_PLUS_SIGN_PLUS_SIGN)]
           | EXPRESSION_POSTDECREMENT \<Rightarrow> print_expr e @ [token_of (Multi TOKEN_HYPHEN_HYPHEN)])
      | Op_binary b l r t \<Rightarrow>
          (case node_infix b of
             Some op \<Rightarrow> print_expr l @ infix_token op # print_expr r
           | None \<Rightarrow>
               print_expr l @ token_of (Char TOKEN_SQUARE_BRACKET_OPEN) # print_expr r @
               [token_of (Char TOKEN_SQUARE_BRACKET_CLOSE)])
      | Op_ternary c x y t \<Rightarrow>
          print_expr c @ infix_token EXPRESSION_TERNARY_CONDITIONAL # print_expr x @
          token_of (Char TOKEN_COLON) # print_expr y
      | _ \<Rightarrow> [])"
  by pat_completeness auto
termination
  by (relation "measure size") (auto dest!: size_list_estimation' [of _ _ _ size, OF _ order.refl])

declare print_expr.simps [simp del]

lemma print_expr_simps [simp]:
  "print_expr (NODE_CONSTANT (Num n) t) = [\<lparr>token_type = TOKEN_CONSTANT, val = constant_text n t\<rparr>]"
  "print_expr (NODE_CONSTANT_STR s t) = [\<lparr>token_type = TOKEN_CONSTANT_STR, val = s\<rparr>]"
  "print_expr (NODE_EXPRESSION_VARIABLE_USAGE i t) = [\<lparr>token_type = TOKEN_IDENTIFIER, val = as_name i\<rparr>]"
  "print_expr (NODE_EXPRESSION_FUNCTION_CALL i args t) =
     \<lparr>token_type = TOKEN_IDENTIFIER, val = as_name i\<rparr> # token_of (Char TOKEN_PAREN_OPEN) #
     comma_separated (map print_expr args) @ [token_of (Char TOKEN_PAREN_CLOSE)]"
  "print_expr (Op_unary (Prefix op) e t) =
     (if op = EXPRESSION_UNARY_SIZE_OF
      then prefix_token op # token_of (Char TOKEN_PAREN_OPEN) # print_expr e @
           [token_of (Char TOKEN_PAREN_CLOSE)]
      else prefix_token op # print_expr e)"
  "print_expr (Op_unary EXPRESSION_PAREN_ENCLOSED e t) =
     token_of (Char TOKEN_PAREN_OPEN) # print_expr e @ [token_of (Char TOKEN_PAREN_CLOSE)]"
  "print_expr (Op_unary EXPRESSION_POSTINCREMENT e t) =
     print_expr e @ [token_of (Multi TOKEN_PLUS_SIGN_PLUS_SIGN)]"
  "print_expr (Op_unary EXPRESSION_POSTDECREMENT e t) =
     print_expr e @ [token_of (Multi TOKEN_HYPHEN_HYPHEN)]"
  "print_expr (Op_binary EXPRESSION_SUBSCRIPT l r t) =
     print_expr l @ token_of (Char TOKEN_SQUARE_BRACKET_OPEN) # print_expr r @
     [token_of (Char TOKEN_SQUARE_BRACKET_CLOSE)]"
  "node_infix b = Some bop \<Longrightarrow> print_expr (Op_binary b l r t) = print_expr l @ infix_token bop # print_expr r"
  "print_expr (Op_ternary c x y t) =
     print_expr c @ infix_token EXPRESSION_TERNARY_CONDITIONAL # print_expr x @
     token_of (Char TOKEN_COLON) # print_expr y"
  by (subst print_expr.simps; simp)+

section \<open>Levels\<close>

definition UNARY_LEVEL :: nat where "UNARY_LEVEL = 130"
definition POSTFIX_LEVEL :: nat where "POSTFIX_LEVEL = 140"
definition SUBSCRIPT_LEVEL :: nat where "SUBSCRIPT_LEVEL = 150"

text \<open>
  The binary operators of C, one row per level of the grammar from the loosest to the
  tightest: the assignments (6.5.16), the conditional (6.5.15), then 6.5.14 down to 6.5.5.
  The first two levels group from right to left, the others from left to right.
\<close>

definition C_OPERATORS :: "infix_binary list list" where
  "C_OPERATORS = [
     [EXPRESSION_VARIABLE_ASSIGNMENT],
     [],
     [EXPRESSION_LOGICAL_OR],
     [EXPRESSION_LOGICAL_AND],
     [EXPRESSION_BITWISE_OR],
     [EXPRESSION_BITWISE_XOR],
     [EXPRESSION_BITWISE_AND],
     [EXPRESSION_COMPARE_EQUAL, EXPRESSION_COMPARE_NOT_EQUAL],
     [EXPRESSION_COMPARE_LESS_THAN, EXPRESSION_COMPARE_MORE_THAN,
      EXPRESSION_COMPARE_LESS_THAN_EQ, EXPRESSION_COMPARE_MORE_THAN_EQ],
     [EXPRESSION_BITWISE_SHIFT_LEFT, EXPRESSION_BITWISE_SHIFT_RIGHT],
     [EXPRESSION_BINARY_ADD, EXPRESSION_BINARY_SUBTRACT],
     [EXPRESSION_BINARY_MULTIPLY, EXPRESSION_BINARY_DIVIDE, EXPRESSION_BINARY_REMAINDER]]"

fun c_level :: "infix_op \<Rightarrow> nat" where
  "c_level (Compound _) = 0"
| "c_level EXPRESSION_TERNARY_CONDITIONAL = 1"
| "c_level (Binary op) = length (takeWhile (\<lambda>ops. op \<notin> set ops) C_OPERATORS)"

text \<open>
  The levels are ten apart, so that there is a number for \<open>tighter than this level\<close>. The operand
  on the side that the operator groups to may have the operator's own level, the other one
  must bind tighter.
\<close>

definition c_precedence :: "infix_op \<Rightarrow> nat" where
  "c_precedence op = 10 + 10 * c_level op"

definition c_right_to_left :: "infix_op \<Rightarrow> bool" where
  "c_right_to_left op \<longleftrightarrow> c_level op \<le> 1"

definition c_left_operand :: "infix_op \<Rightarrow> nat" where
  "c_left_operand op = (if c_right_to_left op then c_precedence op + 1 else c_precedence op)"

definition c_right_operand :: "infix_op \<Rightarrow> nat" where
  "c_right_operand op = (if c_right_to_left op then c_precedence op else c_precedence op + 1)"

text \<open>The parser's table is the one of C.\<close>

definition left_precedence :: "infix_op \<Rightarrow> nat" where
  "left_precedence bop = get_precedence bop + (if is_right_associative bop then 1 else 0)"

lemma parser_precedence [simp]:
  "c_precedence op = get_precedence op" "c_right_to_left op = is_right_associative op"
proof -
  have "c_precedence op = get_precedence op \<and> c_right_to_left op = is_right_associative op"
  proof (cases op)
    case (Binary b)
    then show ?thesis
      by (cases b) (simp_all add: c_precedence_def c_right_to_left_def C_OPERATORS_def
          get_precedence_def PRECEDENCE_INCREMENT_def is_right_associative_def)
  qed (simp_all add: c_precedence_def c_right_to_left_def get_precedence_def
      PRECEDENCE_INCREMENT_def is_right_associative_def)
  then show "c_precedence op = get_precedence op" "c_right_to_left op = is_right_associative op"
    by simp_all
qed

lemma parser_operands [simp]:
  "c_left_operand op = left_precedence op" "c_right_operand op = right_precedence op"
  by (simp_all add: c_left_operand_def c_right_operand_def left_precedence_def right_precedence_def)

definition unresolved :: "ast_symbol \<Rightarrow> bool" where
  "unresolved s = (s = ast_symbol_unresolved (as_name s))"

function fits :: "nat \<Rightarrow> ast \<Rightarrow> bool" where
  "fits p a =
     (case a of
        NODE_CONSTANT v t \<Rightarrow> (case v of Num n \<Rightarrow> constant_fits n t | Dbl d \<Rightarrow> False)
      | NODE_CONSTANT_STR s t \<Rightarrow> t = ctype_alloc_str_literal s
      | NODE_EXPRESSION_VARIABLE_USAGE s t \<Rightarrow> unresolved s \<and> t = ctype_zero
      | NODE_EXPRESSION_FUNCTION_CALL s args t \<Rightarrow>
          unresolved s \<and> t = ctype_zero \<and> (\<forall>e \<in> set args. fits 0 e)
      | Op_unary u e t \<Rightarrow>
          t = ctype_zero \<and>
          (case u of
             Prefix op \<Rightarrow>
               p \<le> UNARY_LEVEL \<and> fits (if op = EXPRESSION_UNARY_SIZE_OF then 0 else UNARY_LEVEL) e
           | EXPRESSION_PAREN_ENCLOSED \<Rightarrow> fits 0 e
           | _ \<Rightarrow> p \<le> POSTFIX_LEVEL \<and> fits SUBSCRIPT_LEVEL e)
      | Op_binary b l r t \<Rightarrow>
          t = ctype_zero \<and>
          (case node_infix b of
             Some op \<Rightarrow>
               p \<le> c_precedence op \<and> fits (c_left_operand op) l \<and> fits (c_right_operand op) r
           | None \<Rightarrow> fits SUBSCRIPT_LEVEL l \<and> fits 0 r)
      | Op_ternary c x y t \<Rightarrow>
          t = ctype_zero \<and> p \<le> c_precedence EXPRESSION_TERNARY_CONDITIONAL \<and>
          fits (c_left_operand EXPRESSION_TERNARY_CONDITIONAL) c \<and> fits 0 x \<and>
          fits (c_right_operand EXPRESSION_TERNARY_CONDITIONAL) y
      | _ \<Rightarrow> False)"
  by pat_completeness auto
termination
  by (relation "measure (\<lambda>(p, a). size a)") (auto dest!: size_list_estimation' [of _ _ _ size, OF _ order.refl])

declare fits.simps [simp del]

lemma fits_simps [simp]:
  "fits p (NODE_CONSTANT v t) = (case v of Num n \<Rightarrow> constant_fits n t | Dbl d \<Rightarrow> False)"
  "fits p (NODE_CONSTANT_STR s t) = (t = ctype_alloc_str_literal s)"
  "fits p (NODE_EXPRESSION_VARIABLE_USAGE i t) = (unresolved i \<and> t = ctype_zero)"
  "fits p (NODE_EXPRESSION_FUNCTION_CALL i args t) =
     (unresolved i \<and> t = ctype_zero \<and> (\<forall>e \<in> set args. fits 0 e))"
  "fits p (Op_unary (Prefix op) e t) =
     (t = ctype_zero \<and> p \<le> UNARY_LEVEL \<and>
      fits (if op = EXPRESSION_UNARY_SIZE_OF then 0 else UNARY_LEVEL) e)"
  "fits p (Op_unary EXPRESSION_PAREN_ENCLOSED e t) = (t = ctype_zero \<and> fits 0 e)"
  "fits p (Op_unary EXPRESSION_POSTINCREMENT e t) =
     (t = ctype_zero \<and> p \<le> POSTFIX_LEVEL \<and> fits SUBSCRIPT_LEVEL e)"
  "fits p (Op_unary EXPRESSION_POSTDECREMENT e t) =
     (t = ctype_zero \<and> p \<le> POSTFIX_LEVEL \<and> fits SUBSCRIPT_LEVEL e)"
  "fits p (Op_binary EXPRESSION_SUBSCRIPT l r t) =
     (t = ctype_zero \<and> fits SUBSCRIPT_LEVEL l \<and> fits 0 r)"
  "node_infix b = Some bop \<Longrightarrow> fits p (Op_binary b l r t) =
     (t = ctype_zero \<and> p \<le> get_precedence bop \<and> fits (left_precedence bop) l \<and>
      fits (right_precedence bop) r)"
  "fits p (Op_ternary c x y t) =
     (t = ctype_zero \<and> p \<le> get_precedence EXPRESSION_TERNARY_CONDITIONAL \<and>
      fits (left_precedence EXPRESSION_TERNARY_CONDITIONAL) c \<and> fits 0 x \<and>
      fits (right_precedence EXPRESSION_TERNARY_CONDITIONAL) y)"
  by (subst fits.simps; simp)+

lemma fits_other [simp]:
  "\<not> fits p (NODE_EXPRESSION_NULL t)" "\<not> fits p (NODE_EXPRESSION_CAST ty e t)"
  "\<not> fits p (NODE_FUNCTION i sp rt ps b)" "\<not> fits p (NODE_FUNCTION_RETURN_STATEMENT e)"
  "\<not> fits p (NODE_BLOCK items)" "\<not> fits p (NODE_DECLARATION i sp vt init t)"
  "\<not> fits p (NODE_IF_ELSE c th el)" "\<not> fits p (NODE_LOOP pre bd inc post le lc ls)"
  "\<not> fits p (NODE_BREAK k)" "\<not> fits p (NODE_CONTINUE k)" "\<not> fits p (NODE_GOTO s k)"
  "\<not> fits p (NODE_LABEL s k)" "\<not> fits p (NODE_SWITCH c bd ld le cs)" "\<not> fits p (NODE_CASE c k)"
  "\<not> fits p (NODE_SHARED e)" "\<not> fits p (NODE_CASE_DEFAULT k)" "\<not> fits p (NODE_EXPRESSION_INITIALIZER sg mu t)"
  by (subst fits.simps; simp)+

lemma get_precedence_bounds: "10 \<le> get_precedence op \<and> get_precedence op \<le> 120"
proof (cases op)
  case (Binary b)
  then show ?thesis by (cases b) (simp_all add: get_precedence_def PRECEDENCE_INCREMENT_def)
qed (simp_all add: get_precedence_def PRECEDENCE_INCREMENT_def)

lemma fits_mono: "fits q e \<Longrightarrow> p \<le> q \<Longrightarrow> fits p e"
proof (cases e)
  case (Op_unary u e' t)
  then show "fits q e \<Longrightarrow> p \<le> q \<Longrightarrow> fits p e" by (cases u) simp_all
next
  case (Op_binary b l r t)
  then show "fits q e \<Longrightarrow> p \<le> q \<Longrightarrow> fits p e" by (cases b) simp_all
qed (simp_all split: constant_value.splits)

text \<open>The first token of an expression: it is never the name of a type.\<close>

definition starts_expr :: "token list \<Rightarrow> bool" where
  "starts_expr toks \<longleftrightarrow> toks \<noteq> [] \<and> \<not> is_token_variable_type toks \<and>
     \<not> is_token_type toks (Char TOKEN_PAREN_CLOSE)"

lemma starts_expr_append: "starts_expr xs \<Longrightarrow> starts_expr (xs @ ys)"
  by (cases xs) (auto simp: starts_expr_def is_token_variable_type_def)

lemma starts_expr_token [simp]:
  "starts_expr (prefix_token op # r)"
  "starts_expr (token_of (Char TOKEN_PAREN_OPEN) # r)"
  "starts_expr (\<lparr>token_type = TOKEN_IDENTIFIER, val = v\<rparr> # r)"
  "starts_expr (\<lparr>token_type = TOKEN_CONSTANT, val = v\<rparr> # r)"
  "starts_expr (\<lparr>token_type = TOKEN_CONSTANT_STR, val = v\<rparr> # r)"
  by (cases op; simp add: starts_expr_def is_token_variable_type_def prefix_token_def
      FOREACH_AST_NODE_EXPRESSION_PREFIX_OP_def)+

lemma print_starts: "fits p e \<Longrightarrow> starts_expr (print_expr e)"
proof (induction e arbitrary: p)
  case (Op_unary u e t)
  then show ?case by (cases u) (auto intro: starts_expr_append)
next
  case (Op_binary b l r t)
  then show ?case by (cases b) (auto intro: starts_expr_append)
next
  case (NODE_CONSTANT v t)
  then show ?case by (cases v) auto
qed (auto intro: starts_expr_append)

text \<open>What may follow an expression of level \<open>p\<close>.\<close>

definition nosuffix :: "token list \<Rightarrow> bool" where
  "nosuffix rest \<longleftrightarrow> \<not> is_token_type rest (Multi TOKEN_PLUS_SIGN_PLUS_SIGN) \<and>
     \<not> is_token_type rest (Multi TOKEN_HYPHEN_HYPHEN) \<and>
     \<not> is_token_type rest (Char TOKEN_SQUARE_BRACKET_OPEN) \<and>
     \<not> is_token_type rest (Char TOKEN_PAREN_OPEN)"

definition stops :: "nat \<Rightarrow> token list \<Rightarrow> bool" where
  "stops p rest \<longleftrightarrow> nosuffix rest \<and>
     (\<forall>op. parse_expr_check_next_token rest = Some op \<longrightarrow> get_precedence op < p)"

lemma stops_mono: "stops p rest \<Longrightarrow> p \<le> q \<Longrightarrow> stops q rest"
  by (auto simp: stops_def)

lemma nosuffix_infix [simp]: "nosuffix (infix_token op # r)"
proof (cases op)
  case (Binary b)
  then show ?thesis
    by (cases b) (simp_all add: nosuffix_def infix_token_defs FOREACH_AST_NODE_EXPRESSION_INFIX_OP_def)
next
  case (Compound c)
  then show ?thesis
    by (cases c) (simp_all add: nosuffix_def infix_token_defs FOREACH_AST_NODE_EXPRESSION_INFIX_OP_def)
qed (simp add: nosuffix_def infix_token_defs FOREACH_AST_NODE_EXPRESSION_INFIX_OP_def)

lemma stops_infix [simp]: "stops p (infix_token op # r) \<longleftrightarrow> get_precedence op < p"
  by (simp add: stops_def)

lemma stops_closing [simp]:
  "stops p (token_of (Char TOKEN_PAREN_CLOSE) # r)"
  "stops p (token_of (Char TOKEN_SQUARE_BRACKET_CLOSE) # r)"
  "stops p (token_of (Char TOKEN_COMMA) # r)"
  "stops p (token_of (Char TOKEN_COLON) # r)"
  by (simp_all add: stops_def nosuffix_def parse_expr_check_next_token_def
      FOREACH_AST_NODE_EXPRESSION_INFIX_OP_def)

section \<open>Factors\<close>

text \<open>\<open>inverts pe N\<close>: the parser \<open>pe\<close> inverts the printer on inputs shorter than \<open>N\<close>.\<close>

definition inverts :: "expr_parser \<Rightarrow> nat \<Rightarrow> bool" where
  "inverts pe N \<longleftrightarrow>
     (\<forall>e p rest. fits p e \<longrightarrow> stops p rest \<longrightarrow> length (print_expr e @ rest) < N \<longrightarrow>
        pe (print_expr e @ rest) p = Inr (rest, e))"

lemma invertsD:
  "inverts pe N \<Longrightarrow> fits p e \<Longrightarrow> stops p rest \<Longrightarrow> length (print_expr e) + length rest < N \<Longrightarrow>
   pe (print_expr e @ rest) p = Inr (rest, e)"
  by (simp add: inverts_def)

lemma args_inverted:
  assumes pe: "inverts pe N"
  shows "args \<noteq> [] \<Longrightarrow> \<forall>e \<in> set args. fits 0 e \<Longrightarrow>
    toks = comma_separated (map print_expr args) @ token_of (Char TOKEN_PAREN_CLOSE) # rest \<Longrightarrow>
    length toks < N \<Longrightarrow> length toks < k \<Longrightarrow>
    call_args_loop pe k toks = Inr (token_of (Char TOKEN_PAREN_CLOSE) # rest, args)"
proof (induction args arbitrary: toks k)
  case (Cons e es)
  obtain k' where k: "k = Suc k'" using Cons.prems(5) by (cases k) auto
  show ?case
  proof (cases es)
    case Nil
    then show ?thesis using Cons.prems invertsD [OF pe, of 0 e] by (simp add: k)
  next
    case (Cons e' es')
    then show ?thesis
      using Cons.prems Cons.IH invertsD [OF pe, of 0 e] by (simp add: k)
  qed
qed simp

fun primary :: "ast \<Rightarrow> bool" where
  "primary (NODE_CONSTANT v t) = True"
| "primary (NODE_CONSTANT_STR s t) = True"
| "primary (NODE_EXPRESSION_VARIABLE_USAGE i t) = True"
| "primary (NODE_EXPRESSION_FUNCTION_CALL i args t) = True"
| "primary (Op_unary EXPRESSION_PAREN_ENCLOSED e t) = True"
| "primary _ = False"

lemma prefix_match_none [simp]:
  "prefix_match \<lparr>token_type = TOKEN_CONSTANT, val = v\<rparr> = None"
  "prefix_match \<lparr>token_type = TOKEN_CONSTANT_STR, val = v\<rparr> = None"
  "prefix_match \<lparr>token_type = TOKEN_IDENTIFIER, val = v\<rparr> = None"
  "prefix_match (token_of (Char TOKEN_PAREN_OPEN)) = None"
  by (simp_all add: prefix_match_def FOREACH_AST_NODE_EXPRESSION_PREFIX_OP_def)

lemma comma_separated_starts:
  assumes "args \<noteq> []" "\<forall>e \<in> set args. fits 0 e"
  shows "starts_expr (comma_separated (map print_expr args) @ r)"
proof (cases args)
  case (Cons e es)
  then have "starts_expr (print_expr e)" using assms(2) by (auto intro: print_starts)
  then show ?thesis using Cons by (cases es) (auto intro: starts_expr_append)
qed (use assms(1) in simp)

lemma primary_inverted:
  assumes pe: "inverts pe N" and e: "primary e" "fits p e"
    and rest: "\<not> is_token_type rest (Char TOKEN_PAREN_OPEN)" "length (print_expr e @ rest) \<le> N"
  shows "parse_factor pe (print_expr e @ rest) = factor_suffixes pe rest e"
proof (cases e)
  case (NODE_CONSTANT v t)
  then obtain n where n: "v = Num n" "constant_fits n t" using e(2) by (cases v) auto
  show ?thesis
    by (simp add: NODE_CONSTANT n can_parse_constant_def parse_constant_def assert_that_def
        not_maybe_double parse_constant_text [OF n(2)])
next
  case (NODE_CONSTANT_STR s t)
  then show ?thesis using e(2) by (simp add: can_parse_constant_def)
next
  case (NODE_EXPRESSION_VARIABLE_USAGE i t)
  then show ?thesis
    using e(2) rest(1) by (simp add: can_parse_constant_def parse_symbol_def assert_that_def unresolved_def [symmetric])
      (simp add: unresolved_def)
next
  case (NODE_EXPRESSION_FUNCTION_CALL i args t)
  show ?thesis
  proof (cases "args = []")
    case True
    then show ?thesis using e(2) NODE_EXPRESSION_FUNCTION_CALL
      by (simp add: can_parse_constant_def parse_symbol_def assert_that_def unresolved_def)
  next
    case False
    let ?toks = "comma_separated (map print_expr args) @ token_of (Char TOKEN_PAREN_CLOSE) # rest"
    have "call_args_loop pe (budget ?toks) ?toks = Inr (token_of (Char TOKEN_PAREN_CLOSE) # rest, args)"
    proof (rule args_inverted [OF pe False _ refl])
      show "\<forall>e \<in> set args. fits 0 e" using e(2) NODE_EXPRESSION_FUNCTION_CALL by simp
      show "length ?toks < N" using rest(2) NODE_EXPRESSION_FUNCTION_CALL by simp
    qed (rule length_less_budget)
    moreover have "starts_expr ?toks"
      using False e(2) NODE_EXPRESSION_FUNCTION_CALL by (intro comma_separated_starts) auto
    ultimately show ?thesis using e(2) NODE_EXPRESSION_FUNCTION_CALL
      by (simp add: can_parse_constant_def parse_symbol_def assert_that_def unresolved_def starts_expr_def)
  qed
next
  case (Op_unary u e' t)
  then have u: "u = EXPRESSION_PAREN_ENCLOSED" "fits 0 e'" "t = ctype_zero" using e by (cases u; simp)+
  have start: "starts_expr (print_expr e' @ token_of (Char TOKEN_PAREN_CLOSE) # rest)"
    by (intro starts_expr_append print_starts [OF u(2)])
  have "pe (print_expr e' @ token_of (Char TOKEN_PAREN_CLOSE) # rest) 0 =
      Inr (token_of (Char TOKEN_PAREN_CLOSE) # rest, e')"
    by (rule invertsD [OF pe u(2)]) (use rest(2) Op_unary u in auto)
  then show ?thesis using start
    by (simp add: Op_unary u can_parse_constant_def parse_paren_enclosed_def starts_expr_def)
qed (use e in auto)

lemma no_suffixes:
  "nosuffix rest \<Longrightarrow> factor_suffixes pe rest e = Inr (rest, e)"
  by (simp add: factor_suffixes_def parse_postfix_def nosuffix_def budget_def)

text \<open>A chain of subscripts behind a primary expression.\<close>

definition is_subscript :: "ast \<Rightarrow> bool" where
  "is_subscript e = (case e of Op_binary EXPRESSION_SUBSCRIPT _ _ _ \<Rightarrow> True | _ \<Rightarrow> False)"

lemma subscript_level: "fits SUBSCRIPT_LEVEL e \<longleftrightarrow> (primary e \<and> fits 0 e) \<or> (is_subscript e \<and> fits 0 e)"
proof (cases e)
  case (Op_unary u e' t)
  then show ?thesis
    by (cases u) (simp_all add: SUBSCRIPT_LEVEL_def UNARY_LEVEL_def POSTFIX_LEVEL_def is_subscript_def)
next
  case (Op_binary b l r t)
  have "\<not> SUBSCRIPT_LEVEL \<le> get_precedence op" for op
    using get_precedence_bounds [of op] by (simp add: SUBSCRIPT_LEVEL_def)
  with Op_binary show ?thesis by (cases b) (simp_all add: is_subscript_def)
next
  case (Op_ternary c x y t)
  then show ?thesis
    using get_precedence_bounds [of EXPRESSION_TERNARY_CONDITIONAL]
    by (simp add: is_subscript_def SUBSCRIPT_LEVEL_def)
qed (simp_all add: is_subscript_def)

lemma subscripts_base:
  assumes pe: "inverts pe N" and e: "fits SUBSCRIPT_LEVEL e" "\<not> is_subscript e"
    and rest: "\<not> is_token_type rest (Char TOKEN_PAREN_OPEN)"
      "\<not> is_token_type rest (Multi TOKEN_PLUS_SIGN_PLUS_SIGN)" "\<not> is_token_type rest (Multi TOKEN_HYPHEN_HYPHEN)"
      "length (print_expr e @ rest) \<le> N"
  shows "parse_factor pe (print_expr e @ rest) =
      check (subscript_loop pe (budget rest) rest e) (\<lambda>(tok, dst). parse_postfix tok dst)"
proof -
  have "primary e" "fits 0 e" using e subscript_level by auto
  from primary_inverted [OF pe this rest(1,4)] show ?thesis
    using rest(2,3) by (simp add: factor_suffixes_def parse_postfix_def [of rest])
qed

lemma subscripts_base_ex:
  assumes "inverts pe N" "\<not> is_subscript e" "fits SUBSCRIPT_LEVEL e" "\<not> is_token_type rest (Char TOKEN_PAREN_OPEN)"
    "is_subscript e \<or> \<not> is_token_type rest (Multi TOKEN_PLUS_SIGN_PLUS_SIGN) \<and>
      \<not> is_token_type rest (Multi TOKEN_HYPHEN_HYPHEN)" "length (print_expr e @ rest) \<le> N"
  shows "\<exists>k. length rest < k \<and> parse_factor pe (print_expr e @ rest) =
      check (subscript_loop pe k rest e) (\<lambda>(tok, dst). parse_postfix tok dst)"
  using assms by (intro exI [of _ "budget rest"] conjI length_less_budget subscripts_base) auto

lemma subscripts_inverted:
  assumes pe: "inverts pe N"
  shows "fits SUBSCRIPT_LEVEL e \<Longrightarrow> \<not> is_token_type rest (Char TOKEN_PAREN_OPEN) \<Longrightarrow>
    is_subscript e \<or> \<not> is_token_type rest (Multi TOKEN_PLUS_SIGN_PLUS_SIGN) \<and>
      \<not> is_token_type rest (Multi TOKEN_HYPHEN_HYPHEN) \<Longrightarrow>
    length (print_expr e @ rest) \<le> N \<Longrightarrow>
    \<exists>k. length rest < k \<and> parse_factor pe (print_expr e @ rest) =
      check (subscript_loop pe k rest e) (\<lambda>(tok, dst). parse_postfix tok dst)"
proof (induction e arbitrary: rest)
  case (Op_binary b l r t)
  then have b: "b = EXPRESSION_SUBSCRIPT" "fits SUBSCRIPT_LEVEL l" "fits 0 r" "t = ctype_zero"
    using subscript_level [of "Op_binary b l r t"] by (cases b; auto simp: is_subscript_def)+
  let ?rest = "token_of (Char TOKEN_SQUARE_BRACKET_OPEN) # print_expr r @
    token_of (Char TOKEN_SQUARE_BRACKET_CLOSE) # rest"
  obtain k where k: "k > length ?rest"
    "parse_factor pe (print_expr l @ ?rest) =
      check (subscript_loop pe k ?rest l) (\<lambda>(tok, dst). parse_postfix tok dst)"
    using Op_binary.IH(1) [of ?rest] b Op_binary.prems by auto
  obtain k' where k': "k = Suc k'" using k(1) by (cases k) auto
  have "pe (print_expr r @ token_of (Char TOKEN_SQUARE_BRACKET_CLOSE) # rest) 0 =
      Inr (token_of (Char TOKEN_SQUARE_BRACKET_CLOSE) # rest, r)"
    by (rule invertsD [OF pe b(3)]) (use Op_binary.prems b in auto)
  then show ?case using k by (intro exI [of _ k']) (auto simp: b k')
qed (rule subscripts_base_ex [OF pe], simp add: is_subscript_def, assumption+)+

text \<open>Factors: prefix operators, and at most one postfix operator behind the subscripts.\<close>

lemma postfix_inverted:
  assumes pe: "inverts pe N" and e: "fits SUBSCRIPT_LEVEL e" and rest: "nosuffix rest"
    and post: "parse_postfix (t # rest) e = Inr (rest, e')" "token_type t = Multi m"
    and len: "length (print_expr e @ t # rest) \<le> N"
  shows "parse_factor pe (print_expr e @ t # rest) = Inr (rest, e')"
proof (cases "is_subscript e")
  case True
  obtain k where "length (t # rest) < k" "parse_factor pe (print_expr e @ t # rest) =
      check (subscript_loop pe k (t # rest) e) (\<lambda>(tok, dst). parse_postfix tok dst)"
    using subscripts_inverted [OF pe e, of "t # rest"] True post(2) len by auto
  then show ?thesis using post by (cases k) auto
next
  case False
  then have "primary e" "fits 0 e" using e subscript_level by auto
  from primary_inverted [OF pe this, of "t # rest"] show ?thesis
    using post len rest no_suffixes [OF rest, of pe e']
    by (simp add: factor_suffixes_def parse_postfix_def [of rest] nosuffix_def)
qed

lemma type_needs_keyword:
  assumes "starts_expr toks"
  shows "\<exists>e i msg. parse_type_top flags toks = Inl (Error e i msg)"
  using assms
  by (cases toks) (simp_all add: starts_expr_def parse_type_top_def budget_def finalize_zero make_result_defs)

lemma factor_primary:
  assumes "inverts pe N" "primary e" "fits p e" "nosuffix rest" "length (print_expr e @ rest) \<le> N"
  shows "parse_factor pe (print_expr e @ rest) = Inr (rest, e)"
  using primary_inverted [OF assms(1-3), of rest] assms no_suffixes by (simp add: nosuffix_def)

lemma factor_inverted:
  assumes pe: "inverts pe N"
  shows "fits UNARY_LEVEL e \<Longrightarrow> nosuffix rest \<Longrightarrow> length (print_expr e @ rest) \<le> N \<Longrightarrow>
    parse_factor pe (print_expr e @ rest) = Inr (rest, e)"
proof (induction e)
  case (Op_unary u e t)
  show ?case
  proof (cases u)
    case (Prefix op)
    show ?thesis
    proof (cases "op = EXPRESSION_UNARY_SIZE_OF")
      case True
      let ?toks = "print_expr e @ token_of (Char TOKEN_PAREN_CLOSE) # rest"
      have e: "fits 0 e" "t = ctype_zero" using Op_unary.prems(1) Prefix True by simp_all
      obtain er i msg where "parse_type_top PARSE_DECLARATOR_ABSTRACT ?toks = Inl (Error er i msg)"
        using type_needs_keyword [OF starts_expr_append [OF print_starts [OF e(1)]]] by blast
      moreover have "pe ?toks 0 = Inr (token_of (Char TOKEN_PAREN_CLOSE) # rest, e)"
        by (rule invertsD [OF pe e(1)]) (use Op_unary.prems(3) Prefix True in auto)
      moreover have "is_token_type (prefix_token op # toks) (Keyword TOKEN_KEYWORD_SIZEOF)" for toks
        by (simp add: True prefix_token_def FOREACH_AST_NODE_EXPRESSION_PREFIX_OP_def)
      ultimately show ?thesis
        using no_suffixes [OF Op_unary.prems(2)]
        by (simp add: Prefix True e parse_sizeof_with_parens_def assert_that_def)
    next
      case False
      then show ?thesis
        using Op_unary no_suffixes [OF Op_unary.prems(2)] Prefix by simp
    qed
  next
    case EXPRESSION_POSTINCREMENT
    then show ?thesis
      using Op_unary.prems postfix_inverted [OF pe, of e rest "token_of (Multi TOKEN_PLUS_SIGN_PLUS_SIGN)"]
      by (simp add: parse_postfix_def)
  next
    case EXPRESSION_POSTDECREMENT
    then show ?thesis
      using Op_unary.prems postfix_inverted [OF pe, of e rest "token_of (Multi TOKEN_HYPHEN_HYPHEN)"]
      by (simp add: parse_postfix_def)
  next
    case EXPRESSION_PAREN_ENCLOSED
    then show ?thesis
      using Op_unary.prems primary_inverted [OF pe, of "Op_unary u e t" 0 rest] no_suffixes
      by (simp add: nosuffix_def)
  qed
next
  case (Op_binary b l r t)
  have "\<not> UNARY_LEVEL \<le> get_precedence op" for op
    using get_precedence_bounds [of op] by (simp add: UNARY_LEVEL_def)
  then have "b = EXPRESSION_SUBSCRIPT" using Op_binary.prems(1) by (cases b) auto
  then have "fits SUBSCRIPT_LEVEL (Op_binary b l r t)" using Op_binary.prems(1) by simp
  then obtain k where "length rest < k" "parse_factor pe (print_expr (Op_binary b l r t) @ rest) =
      check (subscript_loop pe k rest (Op_binary b l r t)) (\<lambda>(tok, dst). parse_postfix tok dst)"
    using subscripts_inverted [OF pe, of "Op_binary b l r t" rest] Op_binary.prems by (auto simp: nosuffix_def)
  then show ?case using Op_binary.prems(2) by (cases k) (auto simp: nosuffix_def parse_postfix_def)
next
  case (Op_ternary c x y t)
  then show ?case
    using get_precedence_bounds [of EXPRESSION_TERNARY_CONDITIONAL] by (simp add: UNARY_LEVEL_def)
qed ((rule factor_primary [OF pe], simp, assumption+) | simp)+

section \<open>Precedence climbing\<close>

text \<open>The level that an operator behind the expression must stay below.\<close>

definition right_level :: "ast \<Rightarrow> nat" where
  "right_level e =
     (case e of
        Op_binary b l r t \<Rightarrow> (case node_infix b of Some op \<Rightarrow> right_precedence op | None \<Rightarrow> UNARY_LEVEL)
      | Op_ternary c x y t \<Rightarrow> right_precedence EXPRESSION_TERNARY_CONDITIONAL
      | _ \<Rightarrow> UNARY_LEVEL)"

text \<open>\<open>parse_expr\<close> without its first budget.\<close>

definition climb :: "expr_parser \<Rightarrow> token list \<Rightarrow> nat \<Rightarrow> (token list \<times> ast) result" where
  "climb pe tok p = check (parse_factor pe tok) (\<lambda>(tok, left). parse_expr_loop pe (budget tok) tok left p)"

definition infix_node :: "ast \<Rightarrow> infix_op option" where
  "infix_node e =
     (case e of
        Op_binary b l r t \<Rightarrow> node_infix b
      | Op_ternary c x y t \<Rightarrow> Some EXPRESSION_TERNARY_CONDITIONAL
      | _ \<Rightarrow> None)"

lemma fits_factor: "fits p e \<Longrightarrow> infix_node e = None \<Longrightarrow> fits UNARY_LEVEL e"
proof (cases e)
  case (Op_unary u e' t)
  then show "fits p e \<Longrightarrow> infix_node e = None \<Longrightarrow> fits UNARY_LEVEL e"
    by (cases u) (simp_all add: POSTFIX_LEVEL_def UNARY_LEVEL_def)
next
  case (Op_binary b l r t)
  then show "fits p e \<Longrightarrow> infix_node e = None \<Longrightarrow> fits UNARY_LEVEL e"
    by (cases b) (simp_all add: infix_node_def)
qed (simp_all add: infix_node_def split: constant_value.splits)

lemma right_level_factor: "infix_node e = None \<Longrightarrow> right_level e = UNARY_LEVEL"
  by (auto simp: infix_node_def right_level_def split: ast.splits)

lemma right_level_infix: "infix_node e = Some op \<Longrightarrow> right_level e = right_precedence op"
  by (auto simp: infix_node_def right_level_def split: ast.splits)

lemma precedences [simp]:
  "get_precedence op \<le> left_precedence op" "get_precedence op \<le> right_precedence op"
  "is_right_associative op \<Longrightarrow> right_precedence op = get_precedence op"
  "\<not> is_right_associative op \<Longrightarrow> right_precedence op = get_precedence op + 1"
  by (simp_all add: left_precedence_def right_precedence_def)

text \<open>Operators of one level have the same associativity.\<close>

lemma assoc_level:
  "get_precedence op = get_precedence op' \<Longrightarrow> is_right_associative op = is_right_associative op'"
proof -
  have levels: "precedence_levels op \<le> 2 \<longleftrightarrow> is_right_associative op" for op
  proof (cases op)
    case (Binary b)
    then show ?thesis by (cases b) (simp_all add: is_right_associative_def)
  qed (simp_all add: is_right_associative_def)
  assume "get_precedence op = get_precedence op'"
  then have "precedence_levels op = precedence_levels op'"
    by (simp add: get_precedence_def PRECEDENCE_INCREMENT_def)
  then show ?thesis using levels by metis
qed

lemma left_below_right:
  assumes "fits (left_precedence op) l"
  shows "get_precedence op < right_level l"
proof (cases "infix_node l")
  case None
  then show ?thesis using right_level_factor [OF None] get_precedence_bounds [of op]
    by (simp add: UNARY_LEVEL_def)
next
  case (Some op')
  have le: "left_precedence op \<le> get_precedence op'"
    using assms Some by (cases l) (auto simp: infix_node_def)
  have "get_precedence op < right_precedence op'"
  proof (cases "is_right_associative op")
    case True
    then have "get_precedence op < get_precedence op'" using le by (simp add: left_precedence_def)
    then show ?thesis using precedences(2) [of op'] by linarith
  next
    case False
    show ?thesis
    proof (cases "get_precedence op = get_precedence op'")
      case True
      then show ?thesis using False assoc_level [OF True] by simp
    next
      case ne: False
      then show ?thesis using le precedences(1) [of op] precedences(2) [of op'] by linarith
    qed
  qed
  then show ?thesis by (simp add: right_level_infix [OF Some])
qed

lemma climb_factor:
  assumes "inverts pe N" "infix_node e = None" "fits q e" "stops (right_level e) rest"
    "length (print_expr e @ rest) \<le> N"
  shows "\<exists>k. length rest < k \<and> climb pe (print_expr e @ rest) q = parse_expr_loop pe k rest e q"
proof (intro exI conjI)
  have "parse_factor pe (print_expr e @ rest) = Inr (rest, e)"
    by (rule factor_inverted [OF assms(1) fits_factor [OF assms(3,2)] _ assms(5)])
      (use assms(4) in \<open>simp add: stops_def\<close>)
  then show "climb pe (print_expr e @ rest) q = parse_expr_loop pe (budget rest) rest e q"
    by (simp add: climb_def)
qed (rule length_less_budget)

lemma climb_inverted:
  assumes pe: "inverts pe N"
  shows "fits q e \<Longrightarrow> stops (right_level e) rest \<Longrightarrow> length (print_expr e @ rest) \<le> N \<Longrightarrow>
    \<exists>k. length rest < k \<and> climb pe (print_expr e @ rest) q = parse_expr_loop pe k rest e q"
proof (induction e arbitrary: rest)
  case (Op_binary b l r t)
  show ?case
  proof (cases "node_infix b")
    case None
    then show ?thesis using Op_binary.prems by (intro climb_factor [OF pe]) (simp_all add: infix_node_def)
  next
    case (Some op)
    have f: "q \<le> get_precedence op" "fits (left_precedence op) l" "fits (right_precedence op) r" "t = ctype_zero"
      using Op_binary.prems(1) Some by simp_all
    have "fits q l" using f(1) precedences(1) [of op] by (intro fits_mono [OF f(2)]) linarith
    then obtain k where k: "length (infix_token op # print_expr r @ rest) < k"
      "climb pe (print_expr l @ infix_token op # print_expr r @ rest) q =
        parse_expr_loop pe k (infix_token op # print_expr r @ rest) l q"
      using Op_binary.IH(1) [of "infix_token op # print_expr r @ rest"] left_below_right [OF f(2)]
        Op_binary.prems(3) Some by auto
    obtain k' where k': "k = Suc k'" using k(1) by (cases k) auto
    have "pe (print_expr r @ rest) (right_precedence op) = Inr (rest, r)"
      by (rule invertsD [OF pe f(3)])
        (use Op_binary.prems(2,3) Some in \<open>auto simp: right_level_def\<close>)
    then show ?thesis using k f Some
      by (intro exI [of _ k']) (simp add: k' node_infix_Some)
  qed
next
  case (Op_ternary c x y t)
  let ?op = "EXPRESSION_TERNARY_CONDITIONAL"
  let ?rest = "infix_token ?op # print_expr x @ token_of (Char TOKEN_COLON) # print_expr y @ rest"
  have f: "q \<le> get_precedence ?op" "fits (left_precedence ?op) c" "fits 0 x" "fits (right_precedence ?op) y"
    "t = ctype_zero"
    using Op_ternary.prems(1) by simp_all
  have "fits q c" using f(1) precedences(1) [of ?op] by (intro fits_mono [OF f(2)]) linarith
  then obtain k where k: "length ?rest < k"
    "climb pe (print_expr c @ ?rest) q = parse_expr_loop pe k ?rest c q"
    using Op_ternary.IH(1) [of ?rest] left_below_right [OF f(2)] Op_ternary.prems(3) by auto
  obtain k' where k': "k = Suc k'" using k(1) by (cases k) auto
  have "pe (print_expr x @ token_of (Char TOKEN_COLON) # print_expr y @ rest) 0 =
      Inr (token_of (Char TOKEN_COLON) # print_expr y @ rest, x)"
    by (rule invertsD [OF pe f(3)]) (use Op_ternary.prems(3) in auto)
  moreover have "pe (print_expr y @ rest) (right_precedence ?op) = Inr (rest, y)"
    by (rule invertsD [OF pe f(4)]) (use Op_ternary.prems(2,3) in \<open>auto simp: right_level_def\<close>)
  ultimately show ?case using k f
    by (intro exI [of _ k']) (simp add: k' parse_ternary_middle_def)
qed (rule climb_factor [OF pe]; simp add: infix_node_def)+

lemma fits_right_level: "fits p e \<Longrightarrow> stops p rest \<Longrightarrow> stops (right_level e) rest"
proof (cases "infix_node e")
  case None
  assume "stops p rest"
  then have "nosuffix rest" by (simp add: stops_def)
  then show ?thesis
    using get_precedence_bounds right_level_factor [OF None]
    by (auto simp: stops_def UNARY_LEVEL_def le_less_trans [of _ 120])
next
  case (Some op)
  assume f: "fits p e" "stops p rest"
  have "p \<le> get_precedence op" using f(1) Some by (cases e) (auto simp: infix_node_def)
  then show ?thesis
    using precedences(2) [of op] unfolding right_level_infix [OF Some]
    by (intro stops_mono [OF f(2)]) linarith
qed

lemma parse_expr_inverts: "inverts (parse_expr n) n"
proof (induction n)
  case (Suc n)
  have "parse_expr (Suc n) (print_expr e @ rest) p = Inr (rest, e)"
    if f: "fits p e" "stops p rest" and len: "length (print_expr e @ rest) < Suc n" for e p rest
  proof -
    obtain k where "length rest < k"
      "climb (parse_expr n) (print_expr e @ rest) p = parse_expr_loop (parse_expr n) k rest e p"
      using climb_inverted [OF Suc f(1) fits_right_level [OF f]] len by auto
    moreover then obtain k' where "k = Suc k'" by (cases k) auto
    ultimately show ?thesis
      using f(2) by (simp add: climb_def stops_def split: option.split)
  qed
  then show ?case by (simp add: inverts_def)
qed (simp add: inverts_def)

lemma parse_expr_top_print:
  "fits 0 e \<Longrightarrow> stops 0 rest \<Longrightarrow> parse_expr_top (print_expr e @ rest) = Inr (rest, e)"
  unfolding parse_expr_top_def
  by (rule invertsD [OF parse_expr_inverts]) (simp_all add: budget_def)

section \<open>Parentheses\<close>

text \<open>The trees that the printer covers, whatever the levels of their operands.\<close>

function plain :: "ast \<Rightarrow> bool" where
  "plain a =
     (case a of
        NODE_CONSTANT v t \<Rightarrow> (case v of Num n \<Rightarrow> constant_fits n t | Dbl d \<Rightarrow> False)
      | NODE_CONSTANT_STR s t \<Rightarrow> t = ctype_alloc_str_literal s
      | NODE_EXPRESSION_VARIABLE_USAGE s t \<Rightarrow> unresolved s \<and> t = ctype_zero
      | NODE_EXPRESSION_FUNCTION_CALL s args t \<Rightarrow>
          unresolved s \<and> t = ctype_zero \<and> (\<forall>e \<in> set args. plain e)
      | Op_unary u e t \<Rightarrow> t = ctype_zero \<and> plain e
      | Op_binary b l r t \<Rightarrow> t = ctype_zero \<and> plain l \<and> plain r
      | Op_ternary c x y t \<Rightarrow> t = ctype_zero \<and> plain c \<and> plain x \<and> plain y
      | _ \<Rightarrow> False)"
  by pat_completeness auto
termination
  by (relation "measure size") (auto dest!: size_list_estimation' [of _ _ _ size, OF _ order.refl])

declare plain.simps [simp del]

lemma plain_simps [simp]:
  "plain (NODE_CONSTANT v t) = (case v of Num n \<Rightarrow> constant_fits n t | Dbl d \<Rightarrow> False)"
  "plain (NODE_CONSTANT_STR s t) = (t = ctype_alloc_str_literal s)"
  "plain (NODE_EXPRESSION_VARIABLE_USAGE i t) = (unresolved i \<and> t = ctype_zero)"
  "plain (NODE_EXPRESSION_FUNCTION_CALL i args t) =
     (unresolved i \<and> t = ctype_zero \<and> (\<forall>e \<in> set args. plain e))"
  "plain (Op_unary u e t) = (t = ctype_zero \<and> plain e)"
  "plain (Op_binary b l r t) = (t = ctype_zero \<and> plain l \<and> plain r)"
  "plain (Op_ternary c x y t) = (t = ctype_zero \<and> plain c \<and> plain x \<and> plain y)"
  "\<not> plain (NODE_EXPRESSION_NULL t)" "\<not> plain (NODE_EXPRESSION_CAST ty e t)"
  "\<not> plain (NODE_FUNCTION i sp rt ps bo)" "\<not> plain (NODE_FUNCTION_RETURN_STATEMENT e)"
  "\<not> plain (NODE_BLOCK items)" "\<not> plain (NODE_DECLARATION i sp vt init t)"
  "\<not> plain (NODE_IF_ELSE c th el)" "\<not> plain (NODE_LOOP pre bd inc post le lc ls)"
  "\<not> plain (NODE_BREAK k)" "\<not> plain (NODE_CONTINUE k)" "\<not> plain (NODE_GOTO s k)"
  "\<not> plain (NODE_LABEL s k)" "\<not> plain (NODE_SWITCH c bd ld le cs)" "\<not> plain (NODE_CASE c k)"
  "\<not> plain (NODE_SHARED e)" "\<not> plain (NODE_CASE_DEFAULT k)" "\<not> plain (NODE_EXPRESSION_INITIALIZER sg mu t)"
  by (subst plain.simps; simp)+

text \<open>Put parentheses around a node whose level is too low.\<close>

definition wrap :: "bool \<Rightarrow> ast \<Rightarrow> ast" where
  "wrap enough e = (if enough then e else Op_unary EXPRESSION_PAREN_ENCLOSED e ctype_zero)"

function parens :: "nat \<Rightarrow> ast \<Rightarrow> ast" where
  "parens p a =
     (case a of
        NODE_EXPRESSION_FUNCTION_CALL s args t \<Rightarrow>
          NODE_EXPRESSION_FUNCTION_CALL s (map (parens 0) args) t
      | Op_unary u e t \<Rightarrow>
          (case u of
             Prefix op \<Rightarrow>
               wrap (p \<le> UNARY_LEVEL)
                 (Op_unary u (parens (if op = EXPRESSION_UNARY_SIZE_OF then 0 else UNARY_LEVEL) e) t)
           | EXPRESSION_PAREN_ENCLOSED \<Rightarrow> Op_unary u (parens 0 e) t
           | _ \<Rightarrow> wrap (p \<le> POSTFIX_LEVEL) (Op_unary u (parens SUBSCRIPT_LEVEL e) t))
      | Op_binary b l r t \<Rightarrow>
          (case node_infix b of
             Some op \<Rightarrow>
               wrap (p \<le> c_precedence op)
                 (Op_binary b (parens (c_left_operand op) l) (parens (c_right_operand op) r) t)
           | None \<Rightarrow> Op_binary b (parens SUBSCRIPT_LEVEL l) (parens 0 r) t)
      | Op_ternary c x y t \<Rightarrow>
          wrap (p \<le> c_precedence EXPRESSION_TERNARY_CONDITIONAL)
            (Op_ternary (parens (c_left_operand EXPRESSION_TERNARY_CONDITIONAL) c) (parens 0 x)
              (parens (c_right_operand EXPRESSION_TERNARY_CONDITIONAL) y) t)
      | _ \<Rightarrow> a)"
  by pat_completeness auto
termination
  by (relation "measure (\<lambda>(p, a). size a)") (auto dest!: size_list_estimation' [of _ _ _ size, OF _ order.refl])

declare parens.simps [simp del]

text \<open>The tree without its parentheses.\<close>

function bare :: "ast \<Rightarrow> ast" where
  "bare a =
     (case a of
        NODE_EXPRESSION_FUNCTION_CALL s args t \<Rightarrow> NODE_EXPRESSION_FUNCTION_CALL s (map bare args) t
      | Op_unary u e t \<Rightarrow> (if u = EXPRESSION_PAREN_ENCLOSED then bare e else Op_unary u (bare e) t)
      | Op_binary b l r t \<Rightarrow> Op_binary b (bare l) (bare r) t
      | Op_ternary c x y t \<Rightarrow> Op_ternary (bare c) (bare x) (bare y) t
      | _ \<Rightarrow> a)"
  by pat_completeness auto
termination
  by (relation "measure size") (auto dest!: size_list_estimation' [of _ _ _ size, OF _ order.refl])

declare bare.simps [simp del]

lemma bare_wrap [simp]: "bare (wrap enough e) = bare e"
  by (simp add: wrap_def bare.simps [of "Op_unary _ _ _"])

lemma fits_wrap [simp]: "fits p (wrap enough e) = (if enough then fits p e else fits 0 e)"
  by (simp add: wrap_def)

lemma parens_fit: "plain e \<Longrightarrow> fits p (parens p e)"
proof (induction e arbitrary: p)
  case (Op_unary u e t)
  then show ?case by (cases u) (simp_all add: parens.simps [of _ "Op_unary _ _ _"])
next
  case (Op_binary b l r t)
  then show ?case
    by (cases b) (simp_all add: parens.simps [of _ "Op_binary _ _ _ _"])
next
  case (Op_ternary c x y t)
  then show ?case by (simp add: parens.simps [of _ "Op_ternary _ _ _ _"])
next
  case (NODE_EXPRESSION_FUNCTION_CALL i args t)
  then show ?case by (auto simp: parens.simps [of _ "NODE_EXPRESSION_FUNCTION_CALL _ _ _"])
qed (simp_all add: parens.simps split: constant_value.splits)

lemma bare_parens: "bare (parens p e) = bare e"
proof (induction e arbitrary: p)
  case (Op_unary u e t)
  then show ?case
    by (cases u) (simp_all add: parens.simps [of _ "Op_unary _ _ _"] bare.simps [of "Op_unary _ _ _"])
next
  case (Op_binary b l r t)
  then show ?case
    by (cases b) (simp_all add: parens.simps [of _ "Op_binary _ _ _ _"] bare.simps [of "Op_binary _ _ _ _"])
next
  case (Op_ternary c x y t)
  then show ?case by (simp add: parens.simps [of _ "Op_ternary _ _ _ _"] bare.simps [of "Op_ternary _ _ _ _"])
next
  case (NODE_EXPRESSION_FUNCTION_CALL i args t)
  then show ?case
    by (auto simp: parens.simps [of _ "NODE_EXPRESSION_FUNCTION_CALL _ _ _"]
        bare.simps [of "NODE_EXPRESSION_FUNCTION_CALL _ _ _"])
qed (simp_all add: parens.simps)

lemma parens_id: "fits p e \<Longrightarrow> parens p e = e"
proof (induction e arbitrary: p)
  case (Op_unary u e t)
  then show ?case by (cases u) (simp_all add: parens.simps [of _ "Op_unary _ _ _"] wrap_def)
next
  case (Op_binary b l r t)
  then show ?case by (cases b) (simp_all add: parens.simps [of _ "Op_binary _ _ _ _"] wrap_def)
next
  case (Op_ternary c x y t)
  then show ?case by (simp add: parens.simps [of _ "Op_ternary _ _ _ _"] wrap_def)
next
  case (NODE_EXPRESSION_FUNCTION_CALL i args t)
  then show ?case
    by (auto simp: parens.simps [of _ "NODE_EXPRESSION_FUNCTION_CALL _ _ _"] intro: map_idI)
qed (simp_all add: parens.simps)

end
