(* ===== verification/ParseProps.thy ===== *)
theory ParseProps
  imports LexPrint ResolveFacts ExprPrint "HOL-Library.Multiset"
begin

text \<open>
  The properties of the parser, each a theorem of its own with a witness where it has
  hypotheses.
\<close>

section \<open>Tokens of the lexer\<close>

lemma strlike_token_ok: "lex_one_strlike pos tt = Inr (pos', t) \<Longrightarrow> token_ok t"
  by (auto simp: lex_one_strlike_def lex_one_strlike_check_size_def token_ok_def Let_def check_iff
      make_result_defs split: if_splits)

lemma char_token_type: "fst (lex_readahead_one_or_two_chars (c # r) t0) \<noteq> TOKEN_CONSTANT_CHAR"
  by (auto simp: lex_readahead_one_or_two_chars_def split: list.split option.split)

lemma keyword_maybe_type: "lex_one_token_keyword_maybe v \<noteq> TOKEN_CONSTANT_CHAR"
  by (simp add: lex_one_token_keyword_maybe_def split: option.split)

lemma lex_one_token_ok:
  assumes "lex_one_token pos = Inr (pos', t)"
  shows "token_ok t"
proof (cases rule: lex_one_token_cases [OF assms])
  case (1 c r t0)
  then show ?thesis using assms char_token_type [of c r t0]
    by (auto simp: lex_one_token_operator token_ok_def split: prod.splits)
next
  case (2 tt pos'')
  then show ?thesis by (auto dest: strlike_token_ok)
next
  case 3
  then show ?thesis by (simp add: token_ok_def)
next
  case 4
  then show ?thesis using keyword_maybe_type by (simp add: token_ok_def)
qed

lemma lex_loop_ok: "lex_loop src = Inr toks \<Longrightarrow> toks_ok True toks"
proof (induction src arbitrary: toks rule: lex_loop.induct)
  case (1 src)
  then show ?case
    by (subst (asm) (3) lex_loop.simps)
      (auto simp: check_iff split: if_splits dest: lex_one_token_ok)
qed

lemma lex_init_ok: "lex_init src = Inr toks \<Longrightarrow> toks_ok b toks"
  using lex_loop_ok [of src toks]
  by (cases b) (auto simp: lex_init_def make_result_defs toks_ok_def split: if_splits)

section \<open>Termination and safety\<close>

text \<open>
  C12. The parser terminates on every list of tokens, also on lists that no lexer makes: the
  budgets of its loops and of its recursion (the number of tokens that are left, twice that
  number for blocks and statements) never run out.
\<close>
theorem parse_init_terminates: "parse_init tok generator \<noteq> Inl NoFuel"
  by (rule fine_not_NoFuel [OF parse_init_fine [of False]]) simp

text \<open>
  C11. No assertion of the lexer or of the parser fails, and no null pointer is followed, on
  any source text: the front end returns a tree or an error.
\<close>
theorem front_end_no_abort:
  "check (lex_init src) (\<lambda>tok. parse_init tok generator) \<noteq> Inl Abort"
proof (cases "lex_init src")
  case (Inr toks)
  then show ?thesis
    using fine_not_Abort [OF parse_init_fine [of True toks generator]] lex_init_ok by simp
qed (use lex_loop_error [of src] in \<open>auto simp: lex_init_def make_result_defs split: if_splits\<close>)

section \<open>What the parser builds\<close>

definition sample_source :: string where
  "sample_source = ''int f(int a) { return -a; }''"

definition is_success :: "'a result \<Rightarrow> bool" where
  "is_success m = (case m of Inr _ \<Rightarrow> True | Inl _ \<Rightarrow> False)"

lemma is_successD: "is_success m \<Longrightarrow> \<exists>x. m = Inr x"
  by (cases m) (auto simp: is_success_def)

lemma sample_success:
  "is_success (check (lex_init sample_source) (\<lambda>tok. parse_init tok (Some 0)))"
  by code_simp

lemma sample_parsed:
  obtains tok p q g where "lex_init sample_source = Inr tok" "parse_program tok = Inr p"
    "parse_init tok (Some 0) = Inr (q, g)"
  using is_successD [OF sample_success] by (fastforce simp: check_iff parse_init_def)

text \<open>
  C15. The shape of the tree: a program is a list of functions and declarations whose types
  are well formed (no array of incomplete elements, no array of length zero, no variable or
  parameter of type void), whose bodies are blocks, with expressions where expressions
  belong and a constant in every case label.
\<close>
theorem parse_program_shape:
  assumes "parse_program tok = Inr p"
  shows "list_all decl_node (globals p)"
  using fine_Inr_D [OF parse_program_fine [of False tok] assms] by simp

lemma parse_program_shape_witness:
  "\<exists>tok p. lex_init sample_source = Inr tok \<and> parse_program tok = Inr p \<and> list_all decl_node (globals p)"
  by (rule sample_parsed) (use parse_program_shape in blast)

text \<open>
  C2. Name resolution implements lexical scoping: the symbol table of \<^verbatim>\<open>resolve.c\<close>, a list
  with level delimiters and reset points, gives every name the meaning, every declaration
  the number and every program the error that nested scopes give them.
\<close>
theorem resolve_is_lexical:
  "(case resolve_globals gs [] of
      Inl e \<Rightarrow> scoped_globals gs scope_init = Inl e
    | Inr (gs', symbols) \<Rightarrow> scoped_globals gs scope_init = Inr (gs', scope_of symbols))"
  using resolve_globals_scoped [of gs] by (auto split: sum.splits)

section \<open>Expressions\<close>

text \<open>
  C3. Precedence climbing is right. Take any tree of integer and string constants, variables,
  calls, subscripts and the unary, binary, assignment and conditional operators (casts and
  floating constants are not printed), print it with the spelling of the operators and with
  parentheses exactly where the precedences and associativities of ISO C, \<open>C_OPERATORS\<close>, ask for
  them (and around a postfix operator that is subscripted or takes another one): the parser gives
  that tree back, parentheses included, and leaves what follows it. The parentheses change
  nothing else of the tree, and a tree that has those it needs gets no more.
\<close>
theorem parse_expr_print:
  assumes "plain e" and "stops 0 rest"
  shows "parse_expr_top (print_expr (parens 0 e) @ rest) = Inr (rest, parens 0 e) \<and>
    bare (parens 0 e) = bare e \<and> (fits 0 e \<longrightarrow> parens 0 e = e)"
  using parse_expr_top_print [OF parens_fit [OF assms(1)] assms(2)] bare_parens parens_id by simp

definition var :: "string \<Rightarrow> ast" where
  "var name = NODE_EXPRESSION_VARIABLE_USAGE (ast_symbol_unresolved name) ctype_zero"

definition infix_expr :: "infix_binary \<Rightarrow> ast \<Rightarrow> ast \<Rightarrow> ast" where
  "infix_expr op l r = Op_binary (Infix_binary op) l r ctype_zero"

definition semicolon :: token where
  "semicolon = token_of (Char TOKEN_SEMICOLON)"

lemma unresolved_name [simp]: "unresolved (ast_symbol_unresolved name)"
  by (simp add: unresolved_def ast_symbol_unresolved_def)

lemma stops_semicolon [simp]: "stops p (semicolon # r)"
  by (simp add: semicolon_def stops_def nosuffix_def parse_expr_check_next_token_def
      FOREACH_AST_NODE_EXPRESSION_INFIX_OP_def)

lemma plain_var [simp]: "plain (var name)" "fits p (var name)"
  by (simp_all add: var_def)

lemma plain_infix_expr [simp]: "plain (infix_expr op l r) = (plain l \<and> plain r)"
  by (simp add: infix_expr_def)

text \<open>\<^verbatim>\<open>(a - (b - c)) * d\<close> needs its parentheses.\<close>

definition sample_expr :: ast where
  "sample_expr = infix_expr EXPRESSION_BINARY_MULTIPLY
     (infix_expr EXPRESSION_BINARY_SUBTRACT (var ''a'')
        (infix_expr EXPRESSION_BINARY_SUBTRACT (var ''b'') (var ''c''))) (var ''d'')"

lemma parse_expr_print_witness:
  "parse_expr_top (print_expr (parens 0 sample_expr) @ [semicolon]) = Inr ([semicolon], parens 0 sample_expr)"
  using parse_expr_print [of sample_expr "[semicolon]"] by (simp add: sample_expr_def)

text \<open>
  C16. The same from the source text: lexing and parsing the text of an expression, one
  blank between its tokens, gives the expression.
\<close>
theorem lex_parse_expr:
  assumes "fits 0 e" and "list_all printable (print_expr e)" and "separate (print_expr e)"
  shows "check (lex_init (print_tokens (print_expr e))) parse_expr_top = Inr ([], e)"
proof -
  have ne: "print_expr e \<noteq> []" using print_starts [OF assms(1)] by (simp add: starts_expr_def)
  then have "print_tokens (print_expr e) \<noteq> []"
    by (cases "print_expr e") (simp_all add: print_tokens_def)
  then have "lex_init (print_tokens (print_expr e)) = Inr (print_expr e)"
    using lex_loop_print [OF assms(2,3)] by (simp add: lex_init_def)
  then show ?thesis
    using parse_expr_top_print [OF assms(1), of "[]"]
    by (simp add: stops_def nosuffix_def parse_expr_check_next_token_def)
qed

lemma lex_parse_expr_witness:
  "check (lex_init (print_tokens (print_expr (infix_expr EXPRESSION_BINARY_ADD (var ''a'') (var ''b''))))) parse_expr_top =
     Inr ([], infix_expr EXPRESSION_BINARY_ADD (var ''a'') (var ''b''))"
proof (rule lex_parse_expr)
  let ?e = "infix_expr EXPRESSION_BINARY_ADD (var ''a'') (var ''b'')"
  show "fits 0 ?e" by (simp add: infix_expr_def)
  have toks: "print_expr ?e = [\<lparr>token_type = TOKEN_IDENTIFIER, val = ''a''\<rparr>, token_of (Char TOKEN_PLUS_SIGN),
      \<lparr>token_type = TOKEN_IDENTIFIER, val = ''b''\<rparr>]"
    by (simp add: infix_expr_def var_def infix_token_defs FOREACH_AST_NODE_EXPRESSION_INFIX_OP_def
        ast_symbol_unresolved_def)
  show "list_all printable (print_expr ?e)" unfolding toks
    by (simp add: word_def token_of_def ident_char_def ctype_char_defs lex_one_token_keyword_maybe_def
        FOREACH_LEX_KEYWORD_def)
  show "separate (print_expr ?e)" unfolding toks by (simp add: is_lit_def token_of_def)
qed

text \<open>
  C29. A cast takes the whole expression behind it, of any precedence: the operand is read
  with \<^verbatim>\<open>parse_expr(..., 0)\<close>, and the cast then goes to the whole of it, or to its left operand
  when it is a binary operator of the list in \<^verbatim>\<open>parse_needs_weird_hack_for_cast_lhs_precedence()\<close>.
  So \<^verbatim>\<open>(int) a * b + c\<close> casts \<^verbatim>\<open>a * b\<close>, where C casts \<^verbatim>\<open>a\<close>.
\<close>
theorem cast_takes_expression:
  assumes "is_token_variable_type ts"
    and "parse_type_top PARSE_DECLARATOR_ABSTRACT (ts @ token_of (Char TOKEN_PAREN_CLOSE) # print_expr e @ rest) =
      Inr (token_of (Char TOKEN_PAREN_CLOSE) # print_expr e @ rest, ty, i)"
    and "fits 0 e" and "stops 0 rest"
  shows "parse_expr_top (token_of (Char TOKEN_PAREN_OPEN) # ts @ token_of (Char TOKEN_PAREN_CLOSE) # print_expr e @ rest) =
    Inr (rest, make_cast ty e)"
proof -
  let ?toks = "ts @ token_of (Char TOKEN_PAREN_CLOSE) # print_expr e @ rest"
  let ?pe = "parse_expr (budget ?toks)"
  have "?pe (print_expr e @ rest) 0 = Inr (rest, e)"
    by (rule invertsD [OF parse_expr_inverts assms(3,4)]) (simp add: budget_def)
  moreover have "is_token_variable_type ?toks" using assms(1) by (cases ts) (auto simp: is_token_variable_type_def)
  ultimately have "parse_factor ?pe (token_of (Char TOKEN_PAREN_OPEN) # ?toks) = Inr (rest, make_cast ty e)"
    using no_suffixes [of rest ?pe] assms(2,4)
    by (simp add: can_parse_constant_def parse_cast_def stops_def)
  then have "parse_expr (Suc (budget ?toks)) (token_of (Char TOKEN_PAREN_OPEN) # ?toks) 0 = Inr (rest, make_cast ty e)"
    using assms(4) by (simp add: budget_def [of rest] stops_def split: option.split)
  then show ?thesis by (simp add: parse_expr_top_def budget_def)
qed

text \<open>\<^verbatim>\<open>(int) a * b + c;\<close>: the product is cast.\<close>

definition cast_operand :: ast where
  "cast_operand = infix_expr EXPRESSION_BINARY_ADD
     (infix_expr EXPRESSION_BINARY_MULTIPLY (var ''a'') (var ''b'')) (var ''c'')"

lemma cast_takes_expression_witness:
  "parse_expr_top (token_of (Char TOKEN_PAREN_OPEN) # [token_of (Keyword TOKEN_KEYWORD_INT)] @
      token_of (Char TOKEN_PAREN_CLOSE) # print_expr cast_operand @ [semicolon]) =
    Inr ([semicolon], infix_expr EXPRESSION_BINARY_ADD
      (NODE_EXPRESSION_CAST (CTYPE_INT False) (infix_expr EXPRESSION_BINARY_MULTIPLY (var ''a'') (var ''b'')) ctype_zero)
      (var ''c''))"
proof -
  have type: "parse_type_top PARSE_DECLARATOR_ABSTRACT ([token_of (Keyword TOKEN_KEYWORD_INT)] @
      token_of (Char TOKEN_PAREN_CLOSE) # print_expr cast_operand @ [semicolon]) =
    Inr (token_of (Char TOKEN_PAREN_CLOSE) # print_expr cast_operand @ [semicolon], CTYPE_INT False, None)"
    by code_simp
  have fit: "fits 0 cast_operand"
    by (simp add: cast_operand_def infix_expr_def left_precedence_def right_precedence_def get_precedence_def
        PRECEDENCE_INCREMENT_def is_right_associative_def)
  have "make_cast ty cast_operand = infix_expr EXPRESSION_BINARY_ADD
      (NODE_EXPRESSION_CAST ty (infix_expr EXPRESSION_BINARY_MULTIPLY (var ''a'') (var ''b'')) ctype_zero) (var ''c'')"
    for ty by (simp add: cast_operand_def infix_expr_def make_cast_def
        parse_needs_weird_hack_for_cast_lhs_precedence_def)
  then show ?thesis
    using cast_takes_expression [OF _ type fit] by (simp add: is_token_variable_type_def)
qed

text \<open>
  C30. \<^verbatim>\<open>sizeof (e)[i]\<close> is the subscript of \<^verbatim>\<open>sizeof (e)\<close>, not the size of \<^verbatim>\<open>(e)[i]\<close> as in C:
  behind a parenthesis \<^verbatim>\<open>sizeof\<close> ends at the closing one, and the suffix goes to the operator.
\<close>
theorem sizeof_before_subscript:
  assumes "fits 0 e" and "fits 0 i" and "stops 0 rest"
  shows "parse_expr_top
     (prefix_token EXPRESSION_UNARY_SIZE_OF # token_of (Char TOKEN_PAREN_OPEN) # print_expr e @
      token_of (Char TOKEN_PAREN_CLOSE) # token_of (Char TOKEN_SQUARE_BRACKET_OPEN) # print_expr i @
      token_of (Char TOKEN_SQUARE_BRACKET_CLOSE) # rest) =
    Inr (rest, Op_binary EXPRESSION_SUBSCRIPT (Op_unary (Prefix EXPRESSION_UNARY_SIZE_OF) e ctype_zero) i ctype_zero)"
proof -
  let ?rest = "token_of (Char TOKEN_SQUARE_BRACKET_OPEN) # print_expr i @
      token_of (Char TOKEN_SQUARE_BRACKET_CLOSE) # rest"
  let ?toks = "print_expr e @ token_of (Char TOKEN_PAREN_CLOSE) # ?rest"
  let ?sizeof = "prefix_token EXPRESSION_UNARY_SIZE_OF"
  let ?pe = "parse_expr (Suc (budget ?toks))"
  have "?pe ?toks 0 = Inr (token_of (Char TOKEN_PAREN_CLOSE) # ?rest, e)"
    by (rule invertsD [OF parse_expr_inverts assms(1)]) (simp_all add: budget_def)
  moreover have "?pe (print_expr i @ token_of (Char TOKEN_SQUARE_BRACKET_CLOSE) # rest) 0 =
      Inr (token_of (Char TOKEN_SQUARE_BRACKET_CLOSE) # rest, i)"
    by (rule invertsD [OF parse_expr_inverts assms(2)]) (simp_all add: budget_def)
  moreover obtain er k msg where "parse_type_top PARSE_DECLARATOR_ABSTRACT ?toks = Inl (Error er k msg)"
    using type_needs_keyword [OF starts_expr_append [OF print_starts [OF assms(1)]]] by blast
  moreover have "is_token_type (?sizeof # toks) (Keyword TOKEN_KEYWORD_SIZEOF)" for toks
    by (simp add: prefix_token_def FOREACH_AST_NODE_EXPRESSION_PREFIX_OP_def)
  ultimately have "parse_factor ?pe (?sizeof # token_of (Char TOKEN_PAREN_OPEN) # ?toks) =
      Inr (rest, Op_binary EXPRESSION_SUBSCRIPT (Op_unary (Prefix EXPRESSION_UNARY_SIZE_OF) e ctype_zero) i ctype_zero)"
    using assms(3)
    by (simp add: parse_sizeof_with_parens_def assert_that_def factor_suffixes_def parse_postfix_def
        budget_def [of "_ # _"] stops_def nosuffix_def)
  then have "parse_expr (Suc (Suc (budget ?toks))) (?sizeof # token_of (Char TOKEN_PAREN_OPEN) # ?toks) 0 =
      Inr (rest, Op_binary EXPRESSION_SUBSCRIPT (Op_unary (Prefix EXPRESSION_UNARY_SIZE_OF) e ctype_zero) i ctype_zero)"
    using assms(3) by (simp add: budget_def [of rest] stops_def split: option.split)
  then show ?thesis by (simp add: parse_expr_top_def budget_def)
qed

lemma sizeof_before_subscript_witness:
  "parse_expr_top
     (prefix_token EXPRESSION_UNARY_SIZE_OF # token_of (Char TOKEN_PAREN_OPEN) # print_expr (var ''x'') @
      token_of (Char TOKEN_PAREN_CLOSE) # token_of (Char TOKEN_SQUARE_BRACKET_OPEN) # print_expr (var ''n'') @
      token_of (Char TOKEN_SQUARE_BRACKET_CLOSE) # [semicolon]) =
    Inr ([semicolon], Op_binary EXPRESSION_SUBSCRIPT
      (Op_unary (Prefix EXPRESSION_UNARY_SIZE_OF) (var ''x'') ctype_zero) (var ''n'') ctype_zero)"
  by (rule sizeof_before_subscript) simp_all

section \<open>Types\<close>

definition count_keyword :: "lex_keyword \<Rightarrow> token list \<Rightarrow> nat" where
  "count_keyword k ts = count_list (map token_type ts) (Keyword k)"

definition type_counts :: "token list \<Rightarrow> parse_basic_type_state \<Rightarrow> parse_basic_type_state" where
  "type_counts ts st =
     \<lparr>n_void = n_void st + count_keyword TOKEN_KEYWORD_VOID ts,
      n_char = n_char st + count_keyword TOKEN_KEYWORD_CHAR ts,
      n_int = n_int st + count_keyword TOKEN_KEYWORD_INT ts,
      n_long = n_long st + count_keyword TOKEN_KEYWORD_LONG ts,
      n_signed = n_signed st + count_keyword TOKEN_KEYWORD_SIGNED ts,
      n_unsigned = n_unsigned st + count_keyword TOKEN_KEYWORD_UNSIGNED ts,
      n_double = n_double st + count_keyword TOKEN_KEYWORD_DOUBLE ts\<rparr>"

abbreviation type_keywords :: "token list \<Rightarrow> bool" where
  "type_keywords \<equiv> list_all (\<lambda>t. is_token_variable_type [t])"

lemma variable_type_Cons: "is_token_variable_type (t # ts) = is_token_variable_type [t]"
  by (simp add: is_token_variable_type_def)

lemma accumulate_counts:
  assumes "is_token_variable_type [t]"
  shows "parse_basic_type_accumulate (t # ts) st = Inr (type_counts [t] st)"
  using assms
  by (cases st) (auto simp: parse_basic_type_accumulate_def is_token_variable_type_def type_counts_def count_keyword_def
      split: lex_tokentype.splits lex_keyword.splits)

lemma type_counts_Cons: "type_counts ts (type_counts [t] st) = type_counts (t # ts) st"
  by (simp add: type_counts_def count_keyword_def)

lemma parse_type_basic_counts:
  "type_keywords ts \<Longrightarrow> \<not> is_token_variable_type rest \<Longrightarrow>
   parse_type_basic (ts @ rest) st = Inr (rest, type_counts ts st)"
proof (induction ts arbitrary: st)
  case Nil
  then show ?case
    by (cases rest; cases st) (auto simp: type_counts_def count_keyword_def)
next
  case (Cons t ts)
  then show ?case
    by (simp add: variable_type_Cons [of t "ts @ rest"] accumulate_counts type_counts_Cons)
qed

text \<open>
  C28. The order of the keywords of a basic type does not matter: \<^verbatim>\<open>long unsigned int\<close> and
  \<^verbatim>\<open>unsigned int long\<close> are read alike, to the same type or the same error.
\<close>
theorem type_keyword_order:
  assumes "type_keywords ts" and "mset (map token_type ts) = mset (map token_type us)"
    and "\<not> is_token_variable_type rest"
  shows "parse_type_basic (ts @ rest) st = parse_type_basic (us @ rest) st"
proof -
  have count: "count_list (map token_type ts) = count_list (map token_type us)"
    using assms(2) by (metis count_mset ext)
  have "token_type ` set us = token_type ` set ts"
    using mset_eq_setD [OF assms(2)] by simp
  then have "type_keywords us"
    using assms(1) unfolding list_all_iff
    by (auto simp: is_token_variable_type_def) (metis (no_types, lifting) imageE image_eqI)
  then show ?thesis
    using parse_type_basic_counts [OF assms(1,3)] parse_type_basic_counts [OF _ assms(3), of us] count
    by (simp add: type_counts_def count_keyword_def)
qed

lemma type_keyword_order_witness:
  "parse_type_basic ([token_of (Keyword TOKEN_KEYWORD_LONG), token_of (Keyword TOKEN_KEYWORD_UNSIGNED)] @ [semicolon])
     basic_type_state_zero =
   parse_type_basic ([token_of (Keyword TOKEN_KEYWORD_UNSIGNED), token_of (Keyword TOKEN_KEYWORD_LONG)] @ [semicolon])
     basic_type_state_zero"
  by (rule type_keyword_order) (simp_all add: is_token_variable_type_def semicolon_def)

end
