(* ===== verification/Emit.thy ===== *)
theory Emit
  imports Asm
begin

text \<open>
  \<^verbatim>\<open>src/passes/emit.c\<close>: the assembly program as text.

  \<^verbatim>\<open>dprintf(fd, ...)\<close> writes to a file; an emitter of the model returns the text that it
  writes, and emitters that fail an assertion return \<open>Inl Abort\<close>. \<open>text_of\<close> runs emitters one
  after the other.
\<close>

datatype platform = PLATFORM_MACOS | PLATFORM_LINUX

section \<open>Printing numbers\<close>

definition hex_digit :: "nat \<Rightarrow> char" where
  "hex_digit d = char_of (if d < 10 then 48 + d else 87 + d)"

fun nat_hex :: "nat \<Rightarrow> string" where
  "nat_hex n = (if n < 16 then [hex_digit n] else nat_hex (n div 16) @ [hex_digit (n mod 16)])"

declare nat_hex.simps [simp del]

text \<open>\<^verbatim>\<open>%llx\<close> and \<^verbatim>\<open>%llu\<close> of 64 bits, and the cast of a 128-bit integer to \<^verbatim>\<open>long long\<close>.\<close>

definition word_hex :: "u64 \<Rightarrow> string" where "word_hex w = nat_hex (unat w)"

definition word_decimal :: "u64 \<Rightarrow> string" where "word_decimal w = nat_decimal (unat w)"

definition to_long_long :: "int \<Rightarrow> int" where
  "to_long_long n = sint (word_of_int n :: 64 word)"

fun text_of :: "string result list \<Rightarrow> string result" where
  "text_of [] = Inr []"
| "text_of (m # ms) = check m (\<lambda>s. check (text_of ms) (\<lambda>t. Inr (s @ t)))"

definition nl :: string where "nl = [CHR 0x0A]"
definition tab :: string where "tab = [CHR 0x09]"

section \<open>Platforms\<close>

definition LINUX_NX :: string where
  "LINUX_NX = tab @ ''.section .note.GNU-stack,'' @ [CHR 0x22, CHR 0x22] @ '',@progbits'' @ nl"

definition get_label_prefix :: "platform \<Rightarrow> string" where
  "get_label_prefix plat = (case plat of PLATFORM_MACOS \<Rightarrow> ''L'' | PLATFORM_LINUX \<Rightarrow> ''.L'')"

definition get_section_fp_constants :: "platform \<Rightarrow> string" where
  "get_section_fp_constants plat =
     (case plat of PLATFORM_MACOS \<Rightarrow> ''.literal8'' | PLATFORM_LINUX \<Rightarrow> ''.section .rodata'')"

definition get_section_string_literals :: "platform \<Rightarrow> string" where
  "get_section_string_literals plat =
     (case plat of PLATFORM_MACOS \<Rightarrow> ''.cstring'' | PLATFORM_LINUX \<Rightarrow> ''.section .rodata'')"

definition get_symbol_with_linkage_prefix :: "platform \<Rightarrow> string" where
  "get_symbol_with_linkage_prefix plat = (case plat of PLATFORM_MACOS \<Rightarrow> ''_'' | PLATFORM_LINUX \<Rightarrow> [])"

definition emit_asm_footer :: "platform \<Rightarrow> string" where
  "emit_asm_footer plat = (if plat = PLATFORM_LINUX then LINUX_NX else [])"

section \<open>Operands\<close>

datatype register_alias = REGISTER_ALIAS_8BYTE | REGISTER_ALIAS_4BYTE | REGISTER_ALIAS_1BYTE

text \<open>The source compares aliases by their position in the enumeration.\<close>

fun alias_rank :: "register_alias \<Rightarrow> nat" where
  "alias_rank REGISTER_ALIAS_8BYTE = 0"
| "alias_rank REGISTER_ALIAS_4BYTE = 1"
| "alias_rank REGISTER_ALIAS_1BYTE = 2"

definition register_names :: "asm_register \<Rightarrow> string \<times> string \<times> string" where
  "register_names r =
     (case r of
        ASM_REGISTER_DI \<Rightarrow> (''rdi'', ''edi'', ''dil'')
      | ASM_REGISTER_SI \<Rightarrow> (''rsi'', ''esi'', ''sil'')
      | ASM_REGISTER_DX \<Rightarrow> (''rdx'', ''edx'', ''dl'')
      | ASM_REGISTER_CX \<Rightarrow> (''rcx'', ''ecx'', ''cl'')
      | ASM_REGISTER_R8 \<Rightarrow> (''r8'', ''r8d'', ''r8b'')
      | ASM_REGISTER_R9 \<Rightarrow> (''r9'', ''r9d'', ''r9b'')
      | ASM_REGISTER_AX \<Rightarrow> (''rax'', ''eax'', ''al'')
      | ASM_REGISTER_R10 \<Rightarrow> (''r10'', ''r10d'', ''r10b'')
      | ASM_REGISTER_R11 \<Rightarrow> (''r11'', ''r11d'', ''r11b'')
      | ASM_REGISTER_RSP \<Rightarrow> (''rsp'', ''rsp'', ''rsp'')
      | ASM_REGISTER_RBP \<Rightarrow> (''rbp'', ''rbp'', ''rbp'')
      | ASM_REGISTER_XMM0 \<Rightarrow> (''xmm0'', ''xmm0'', ''xmm0'')
      | ASM_REGISTER_XMM1 \<Rightarrow> (''xmm1'', ''xmm1'', ''xmm1'')
      | ASM_REGISTER_XMM2 \<Rightarrow> (''xmm2'', ''xmm2'', ''xmm2'')
      | ASM_REGISTER_XMM3 \<Rightarrow> (''xmm3'', ''xmm3'', ''xmm3'')
      | ASM_REGISTER_XMM4 \<Rightarrow> (''xmm4'', ''xmm4'', ''xmm4'')
      | ASM_REGISTER_XMM5 \<Rightarrow> (''xmm5'', ''xmm5'', ''xmm5'')
      | ASM_REGISTER_XMM6 \<Rightarrow> (''xmm6'', ''xmm6'', ''xmm6'')
      | ASM_REGISTER_XMM7 \<Rightarrow> (''xmm7'', ''xmm7'', ''xmm7'')
      | ASM_REGISTER_XMM14 \<Rightarrow> (''xmm14'', ''xmm14'', ''xmm14'')
      | ASM_REGISTER_XMM15 \<Rightarrow> (''xmm15'', ''xmm15'', ''xmm15''))"

definition REGISTER_AS_STR :: "asm_register \<Rightarrow> register_alias \<Rightarrow> string" where
  "REGISTER_AS_STR r a =
     CHR ''%'' # (case register_names r of (b8, b4, b1) \<Rightarrow>
       (case a of REGISTER_ALIAS_8BYTE \<Rightarrow> b8 | REGISTER_ALIAS_4BYTE \<Rightarrow> b4 | REGISTER_ALIAS_1BYTE \<Rightarrow> b1))"

text \<open>The names and the macros below are as in the source: the frame pointer is RBP.\<close>

definition STR_REG_RSP :: string where
  "STR_REG_RSP = REGISTER_AS_STR ASM_REGISTER_RSP REGISTER_ALIAS_4BYTE"

definition STR_REG_RBP :: string where
  "STR_REG_RBP = REGISTER_AS_STR ASM_REGISTER_RBP REGISTER_ALIAS_4BYTE"

definition rip_relative :: "string \<Rightarrow> string" where
  "rip_relative s = s @ ''(%rip)''"

definition double_label :: "platform \<Rightarrow> double \<Rightarrow> string" where
  "double_label plat d = get_label_prefix plat @ ''double_'' @ word_hex (get_double_as_quadword d)"

definition longs_label :: "platform \<Rightarrow> u64 list \<Rightarrow> string" where
  "longs_label plat ws = get_label_prefix plat @ ''vecl_'' @ concat (map word_hex (take 4 ws))"

definition quads_label :: "platform \<Rightarrow> u64 list \<Rightarrow> string" where
  "quads_label plat ws = get_label_prefix plat @ ''vecq_'' @ concat (map word_hex (take 2 ws))"

definition jump_label :: "platform \<Rightarrow> int \<Rightarrow> string" where
  "jump_label plat n = get_label_prefix plat @ ''boba_'' @ int_decimal (to_long_long n)"

definition string_label :: "platform \<Rightarrow> int \<Rightarrow> string" where
  "string_label plat n = get_label_prefix plat @ ''.str.'' @ int_decimal (to_long_long n)"

definition emit_asm_operand :: "asm_operand \<Rightarrow> platform \<Rightarrow> register_alias \<Rightarrow> string result" where
  "emit_asm_operand o' plat ralias =
     (let fprefix = get_symbol_with_linkage_prefix plat
      in case operand_type o' of
           ASM_OPERAND_NONE \<Rightarrow> Inl Abort
         | ASM_OPERAND_IMMEDIATE n \<Rightarrow>
             if n > LLONG_MAX
             then assert_that (n \<le> ULLONG_MAX) (Inr (''$'' @ word_decimal (word_of_int n)))
             else Inr (''$'' @ int_decimal (to_long_long n))
         | ASM_OPERAND_REGISTER r \<Rightarrow> Inr (REGISTER_AS_STR r ralias)
         | ASM_OPERAND_PSEUDO_REGISTER _ \<Rightarrow> Inl Abort
         | ASM_OPERAND_MEMORY off r \<Rightarrow>
             Inr (int_decimal off @ ''('' @ REGISTER_AS_STR r REGISTER_ALIAS_8BYTE @ '')'')
         | ASM_OPERAND_PSEUDO_MEMORY _ _ _ \<Rightarrow> Inl Abort
         | ASM_OPERAND_INDEXED base ix scale \<Rightarrow>
             Inr (''('' @ REGISTER_AS_STR base REGISTER_ALIAS_8BYTE @ '', '' @
               REGISTER_AS_STR ix REGISTER_ALIAS_8BYTE @ '', '' @ int_decimal scale @ '')'')
         | ASM_OPERAND_JUMP_TARGET_LABEL n \<Rightarrow> assert_that (n \<le> LLONG_MAX) (Inr (jump_label plat n))
         | ASM_OPERAND_CALL_TARGET_FUNCTION f \<Rightarrow> Inr (fprefix @ f)
         | ASM_OPERAND_VARIABLE_DATA v \<Rightarrow> Inr (rip_relative (fprefix @ v))
         | ASM_OPERAND_CONSTANT_DATA_DOUBLE d \<Rightarrow> Inr (rip_relative (double_label plat d))
         | ASM_OPERAND_CONSTANT_DATA_VEC_LONGS ws \<Rightarrow> Inr (rip_relative (longs_label plat ws))
         | ASM_OPERAND_CONSTANT_DATA_VEC_QUADS ws \<Rightarrow> Inr (rip_relative (quads_label plat ws))
         | ASM_OPERAND_CONSTANT_STRING n \<Rightarrow> Inr (rip_relative (string_label plat n)))"

section \<open>Instructions\<close>

definition map_wordtype_to_register_alias :: "asm_operand \<Rightarrow> register_alias" where
  "map_wordtype_to_register_alias o' =
     (case word_type o' of
        ASM_WORD_08BIT \<Rightarrow> REGISTER_ALIAS_1BYTE
      | ASM_WORD_32BIT \<Rightarrow> REGISTER_ALIAS_4BYTE
      | ASM_WORD_64BIT \<Rightarrow> REGISTER_ALIAS_8BYTE)"

definition map_ralias_to_op_suffix :: "register_alias \<Rightarrow> string" where
  "map_ralias_to_op_suffix reg =
     (case reg of REGISTER_ALIAS_8BYTE \<Rightarrow> ''q'' | REGISTER_ALIAS_4BYTE \<Rightarrow> ''l''
      | REGISTER_ALIAS_1BYTE \<Rightarrow> ''b'')"

text \<open>The alias of the last operand that is there, which is the destination.\<close>

definition ralias_default :: "asm_op \<Rightarrow> register_alias" where
  "ralias_default op =
     (if operand_type (arg1 op) \<noteq> ASM_OPERAND_NONE then map_wordtype_to_register_alias (arg1 op)
      else if operand_type (arg0 op) \<noteq> ASM_OPERAND_NONE then map_wordtype_to_register_alias (arg0 op)
      else REGISTER_ALIAS_4BYTE)"

text \<open>
  What the \<^verbatim>\<open>switch\<close> over the opcodes decides: the name, the suffixes of the name (one of the
  source operand, for moves with extension, and one of the whole instruction) and the alias
  of the first operand.
\<close>

record print_op =
  print_opcode :: string
  suffix_src :: string
  suffix_dst :: string
  ralias0 :: register_alias

definition int_op_name :: "asm_int_op \<Rightarrow> string" where
  "int_op_name op =
     (case op of
        ASM_OP_MOV \<Rightarrow> ''mov''
      | ASM_OP_MOV_WITH_SIGN_EXTENSION \<Rightarrow> ''movs''
      | ASM_OP_MOV_WITH_ZERO_EXTENSION \<Rightarrow> ''movz''
      | ASM_OP_LEA \<Rightarrow> ''lea''
      | ASM_OP_CVT_DOUBLE_TO_INT \<Rightarrow> ''cvttsd2si''
      | ASM_OP_CVT_INT_TO_DOUBLE \<Rightarrow> ''cvtsi2sd''
      | ASM_OP_UNARY_NEG \<Rightarrow> ''neg''
      | ASM_OP_UNARY_NOT \<Rightarrow> ''not''
      | ASM_OP_UNARY_DECREMENT \<Rightarrow> ''dec''
      | ASM_OP_UNARY_INCREMENT \<Rightarrow> ''inc''
      | ASM_OP_BINARY_ADD \<Rightarrow> ''add''
      | ASM_OP_BINARY_SUBTRACT \<Rightarrow> ''sub''
      | ASM_OP_BINARY_MULTIPLY \<Rightarrow> ''imul''
      | ASM_OP_BITWISE_AND \<Rightarrow> ''and''
      | ASM_OP_BITWISE_OR \<Rightarrow> ''or''
      | ASM_OP_BITWISE_XOR \<Rightarrow> ''xor''
      | ASM_OP_BITWISE_SIGNED_SHIFT_LEFT \<Rightarrow> ''sal''
      | ASM_OP_BITWISE_SIGNED_SHIFT_RIGHT \<Rightarrow> ''sar''
      | ASM_OP_BITWISE_UNSIGNED_SHIFT_LEFT \<Rightarrow> ''shl''
      | ASM_OP_BITWISE_UNSIGNED_SHIFT_RIGHT \<Rightarrow> ''shr''
      | ASM_OP_COMPARE \<Rightarrow> ''cmp''
      | ASM_OP_IDIV \<Rightarrow> ''idiv''
      | ASM_OP_DIV \<Rightarrow> ''div''
      | ASM_OP_CDQ \<Rightarrow> ''cdq''
      | ASM_OP_CQO \<Rightarrow> ''cqo'')"

definition double_op_name :: "asm_double_op \<Rightarrow> string" where
  "double_op_name op =
     (case op of
        ASM_OP_DOUBLE_BINARY_ADD \<Rightarrow> ''addsd''
      | ASM_OP_DOUBLE_BINARY_SUBTRACT \<Rightarrow> ''subsd''
      | ASM_OP_DOUBLE_BINARY_MULTIPLY \<Rightarrow> ''mulsd''
      | ASM_OP_DOUBLE_BINARY_DIVIDE \<Rightarrow> ''divsd''
      | ASM_OP_DOUBLE_BITWISE_XOR \<Rightarrow> ''xorpd''
      | ASM_OP_DOUBLE_COMPARE \<Rightarrow> ''comisd''
      | ASM_OP_VEC_DOUBLE_BINARY_SUBTRACT \<Rightarrow> ''subpd''
      | ASM_OP_VEC_DOUBLE_UNPACK_INTERLEAVE_HI \<Rightarrow> ''unpckhpd''
      | ASM_OP_VEC_DOUBLE_UNPACK_INTERLEAVE_LO \<Rightarrow> ''punpckld'')"

definition jump_op_name :: "asm_jump_op \<Rightarrow> string" where
  "jump_op_name op =
     (case op of
        ASM_OP_JMP \<Rightarrow> ''jmp'' | ASM_OP_JMP_IF_EQ \<Rightarrow> ''je'' | ASM_OP_JMP_IF_NEQ \<Rightarrow> ''jne''
      | ASM_OP_JMP_IF_GT \<Rightarrow> ''jg'' | ASM_OP_JMP_IF_GTE \<Rightarrow> ''jge'' | ASM_OP_JMP_IF_LT \<Rightarrow> ''jl''
      | ASM_OP_JMP_IF_LTE \<Rightarrow> ''jle'' | ASM_OP_JMP_IF_A \<Rightarrow> ''ja'' | ASM_OP_JMP_IF_AE \<Rightarrow> ''jae''
      | ASM_OP_JMP_IF_B \<Rightarrow> ''jb'' | ASM_OP_JMP_IF_BE \<Rightarrow> ''jbe'')"

definition set_op_name :: "asm_set_op \<Rightarrow> string" where
  "set_op_name op =
     (case op of
        ASM_OP_SET_IF_EQ \<Rightarrow> ''sete'' | ASM_OP_SET_IF_NEQ \<Rightarrow> ''setne'' | ASM_OP_SET_IF_GT \<Rightarrow> ''setg''
      | ASM_OP_SET_IF_GTE \<Rightarrow> ''setge'' | ASM_OP_SET_IF_LT \<Rightarrow> ''setl'' | ASM_OP_SET_IF_LTE \<Rightarrow> ''setle''
      | ASM_OP_SET_IF_A \<Rightarrow> ''seta'' | ASM_OP_SET_IF_AE \<Rightarrow> ''setae'' | ASM_OP_SET_IF_B \<Rightarrow> ''setb''
      | ASM_OP_SET_IF_BE \<Rightarrow> ''setbe'' | ASM_OP_SET_IF_P \<Rightarrow> ''setp'' | ASM_OP_SET_IF_NP \<Rightarrow> ''setnp'')"

definition is_memory :: "asm_operand \<Rightarrow> bool" where
  "is_memory o' = (case operand_type o' of ASM_OPERAND_MEMORY _ _ \<Rightarrow> True | _ \<Rightarrow> False)"

definition print_int_op :: "asm_int_op \<Rightarrow> asm_op \<Rightarrow> print_op result" where
  "print_int_op i op =
     (let dflt = ralias_default op;
          src = map_wordtype_to_register_alias (arg0 op);
          p = \<lparr>print_opcode = int_op_name i, suffix_src = [],
                suffix_dst = map_ralias_to_op_suffix dflt, ralias0 = dflt\<rparr>
      in if i = ASM_OP_MOV then
           if is_xmm_register (arg0 op) \<and> is_memory (arg1 op) \<or>
              is_memory (arg0 op) \<and> is_xmm_register (arg1 op)
           then Inr (p\<lparr>print_opcode := ''movsd'', suffix_dst := []\<rparr>)
           else Inr p
         else if i \<in> {ASM_OP_MOV_WITH_SIGN_EXTENSION, ASM_OP_MOV_WITH_ZERO_EXTENSION} then
           assert_that (alias_rank src > alias_rank dflt)
             (assert_that (alias_rank src > alias_rank REGISTER_ALIAS_8BYTE)
               (assert_that (alias_rank dflt < alias_rank REGISTER_ALIAS_1BYTE)
                 (Inr (p\<lparr>suffix_src := map_ralias_to_op_suffix src, ralias0 := src\<rparr>))))
         else if i = ASM_OP_CVT_INT_TO_DOUBLE
         then Inr (p\<lparr>suffix_dst := map_ralias_to_op_suffix src, ralias0 := src\<rparr>)
         else if i \<in> {ASM_OP_BITWISE_SIGNED_SHIFT_LEFT, ASM_OP_BITWISE_SIGNED_SHIFT_RIGHT,
                  ASM_OP_BITWISE_UNSIGNED_SHIFT_LEFT, ASM_OP_BITWISE_UNSIGNED_SHIFT_RIGHT}
         then Inr (p\<lparr>ralias0 := REGISTER_ALIAS_1BYTE\<rparr>)
         else if i \<in> {ASM_OP_CDQ, ASM_OP_CQO} then Inr (p\<lparr>suffix_dst := []\<rparr>)
         else Inr p)"

definition emit_print_op :: "print_op \<Rightarrow> asm_op \<Rightarrow> platform \<Rightarrow> string result" where
  "emit_print_op p op plat =
     (let present = (\<lambda>o'. operand_type o' \<noteq> ASM_OPERAND_NONE)
      in text_of
        [Inr (tab @ print_opcode p @ suffix_src p @ suffix_dst p),
         if present (arg0 op)
         then text_of [Inr '' '', emit_asm_operand (arg0 op) plat (ralias0 p)] else Inr [],
         if present (arg1 op)
         then text_of [Inr '', '', emit_asm_operand (arg1 op) plat (ralias_default op)] else Inr [],
         Inr nl])"

definition emit_asm_op :: "asm_op \<Rightarrow> platform \<Rightarrow> string result" where
  "emit_asm_op op plat =
     (let dflt = ralias_default op;
          plain = (\<lambda>name suffix a.
            emit_print_op \<lparr>print_opcode = name, suffix_src = [], suffix_dst = suffix, ralias0 = a\<rparr> op plat)
      in case opcode op of
           IntOp i \<Rightarrow> check (print_int_op i op) (\<lambda>p. emit_print_op p op plat)
         | DoubleOp d \<Rightarrow>
             plain (double_op_name d)
               (if d = ASM_OP_VEC_DOUBLE_UNPACK_INTERLEAVE_LO then map_ralias_to_op_suffix dflt else []) dflt
         | JumpOp j \<Rightarrow> plain (jump_op_name j) [] dflt
         | SetOp s \<Rightarrow> plain (set_op_name s) [] REGISTER_ALIAS_1BYTE
         | ASM_OP_LABEL \<Rightarrow>
             (case operand_type (arg0 op) of
                ASM_OPERAND_JUMP_TARGET_LABEL n \<Rightarrow>
                  assert_that (n \<le> LLONG_MAX) (Inr (jump_label plat n @ '':'' @ nl))
              | _ \<Rightarrow> Inl Abort)
         | ASM_OP_PUSH \<Rightarrow> plain ''pushq'' [] REGISTER_ALIAS_8BYTE
         | ASM_OP_CALL \<Rightarrow> plain ''call'' [] dflt
         | ASM_OP_RET \<Rightarrow>
             Inr (tab @ ''movq '' @ STR_REG_RBP @ '', '' @ STR_REG_RSP @ nl @
               tab @ ''popq '' @ STR_REG_RBP @ nl @ tab @ ''ret'' @ nl))"

definition emit_asm_fn :: "asm_function \<Rightarrow> platform \<Rightarrow> string result" where
  "emit_asm_fn fn plat =
     (let fprefix = get_symbol_with_linkage_prefix plat; fname = fn_identifier fn
      in text_of
        (Inr (if fn_linkage fn = ASM_LINKAGE_EXTERNAL
              then tab @ ''.globl '' @ fprefix @ fname @ nl else []) #
         Inr (tab @ ''.text'' @ nl @ fprefix @ fname @ '':'' @ nl @
           tab @ ''pushq '' @ STR_REG_RBP @ nl @
           tab @ ''movq '' @ STR_REG_RSP @ '', '' @ STR_REG_RBP @ nl) #
         map (\<lambda>op. emit_asm_op op plat) (ops fn)))"

section \<open>Data\<close>

definition MAX_ALIGNMENT :: u64 where "MAX_ALIGNMENT = 16"

definition emit_element :: "constant_bytes \<Rightarrow> platform \<Rightarrow> string result" where
  "emit_element e plat =
     check
       (if byte_count e = 1 then Inr (tab @ ''.byte '')
        else if byte_count e = 4 then Inr (tab @ ''.long '')
        else if byte_count e = 8 then Inr (tab @ ''.quad '')
        else Inl Abort) (\<lambda>directive.
     Inr (directive @
       (if cb_unique e > 0 then string_label plat (cb_unique e)
        else ''0x'' @ word_hex (byte_value e)) @ nl))"

text \<open>\<^verbatim>\<open>elements[0]\<close> does not exist in an empty initializer.\<close>

definition emit_asm_initializer ::
  "string \<Rightarrow> string \<Rightarrow> string \<Rightarrow> constant_initializer \<Rightarrow> platform \<Rightarrow> string result" where
  "emit_asm_initializer name sect linkage_prefix ci plat =
     (let bytes = constant_byte_count ci
      in check
          (if bytes \<ge> MAX_ALIGNMENT then Inr MAX_ALIGNMENT
           else case ci of [] \<Rightarrow> Inl Abort | e # _ \<Rightarrow> Inr (byte_count e)) (\<lambda>alignment.
         check (constant_is_zero ci) (\<lambda>zero.
         if zero then
           Inr (tab @ ''.bss'' @ nl @ tab @ ''.balign '' @ word_decimal alignment @ nl @
             linkage_prefix @ name @ '':'' @ nl @ tab @ ''.zero '' @ word_decimal bytes @ nl)
         else
           text_of
             (Inr (tab @ sect @ nl @
                (if alignment > 1 then tab @ ''.balign '' @ word_decimal alignment @ nl else []) @
                linkage_prefix @ name @ '':'' @ nl) #
              map (\<lambda>e. emit_element e plat) ci))))"

definition emit_asm_str :: "asm_str \<Rightarrow> platform \<Rightarrow> string result" where
  "emit_asm_str s plat =
     emit_asm_initializer (string_label plat (string_unique s)) (get_section_string_literals plat) []
       (str_initializer s) plat"

definition emit_asm_var :: "asm_variable \<Rightarrow> platform \<Rightarrow> string result" where
  "emit_asm_var v plat =
     (let vprefix = get_symbol_with_linkage_prefix plat
      in text_of
        [Inr (if var_linkage v = ASM_LINKAGE_EXTERNAL
              then tab @ ''.globl '' @ vprefix @ var_identifier v @ nl else []),
         emit_asm_initializer (var_identifier v) ''.data'' vprefix (var_initializer v) plat])"

section \<open>Floating-point constants\<close>

text \<open>All operands of all functions, in the order of the loops.\<close>

definition all_operands :: "asm_function list \<Rightarrow> asm_operand list" where
  "all_operands fs = concat (map (\<lambda>f. concat (map (\<lambda>op. [arg0 op, arg1 op]) (ops f))) fs)"

definition operand_longs :: "asm_operand \<Rightarrow> u64 list option" where
  "operand_longs o' =
     (case operand_type o' of ASM_OPERAND_CONSTANT_DATA_VEC_LONGS ws \<Rightarrow> Some ws | _ \<Rightarrow> None)"

definition operand_quads :: "asm_operand \<Rightarrow> u64 list option" where
  "operand_quads o' =
     (case operand_type o' of ASM_OPERAND_CONSTANT_DATA_VEC_QUADS ws \<Rightarrow> Some ws | _ \<Rightarrow> None)"

definition operand_double :: "asm_operand \<Rightarrow> double option" where
  "operand_double o' =
     (case operand_type o' of ASM_OPERAND_CONSTANT_DATA_DOUBLE d \<Rightarrow> Some d | _ \<Rightarrow> None)"

definition last_of :: "'a list \<Rightarrow> 'a option" where
  "last_of xs = (if xs = [] then None else Some (last xs))"

definition emit_asm_fp_vector_constants :: "asm_function list \<Rightarrow> platform \<Rightarrow> string" where
  "emit_asm_fp_vector_constants fs plat =
     (let got_longs = last_of (List.map_filter operand_longs (all_operands fs));
          got_quads = last_of (List.map_filter operand_quads (all_operands fs))
      in (if got_longs \<noteq> None \<or> got_quads \<noteq> None
          then tab @ get_section_fp_constants plat @ nl @ tab @ ''.balign 16'' @ nl else []) @
         (case got_longs of
            None \<Rightarrow> []
          | Some ws \<Rightarrow>
              longs_label plat ws @ '':'' @ nl @
              concat (map (\<lambda>w. tab @ ''.long 0x'' @ word_hex w @ nl) (take 4 ws))) @
         (case got_quads of
            None \<Rightarrow> []
          | Some ws \<Rightarrow>
              quads_label plat ws @ '':'' @ nl @
              concat (map (\<lambda>w. tab @ ''.quad 0x'' @ word_hex w @ nl) (take 2 ws))))"

text \<open>\<^verbatim>\<open>==\<close> on doubles and \<^verbatim>\<open>signbit()\<close>, on their bits.\<close>

definition is_nan :: "double \<Rightarrow> bool" where
  "is_nan d = (take_bit 63 d > 0x7FF0000000000000)"

definition double_eq :: "double \<Rightarrow> double \<Rightarrow> bool" where
  "double_eq d e = (\<not> is_nan d \<and> \<not> is_nan e \<and> (d = e \<or> (take_bit 63 d = 0 \<and> take_bit 63 e = 0)))"

definition signbit :: "double \<Rightarrow> bool" where "signbit d = bit d 63"

text \<open>The list of the constants already emitted, and whether to emit the value.\<close>

definition emit_asm_fp_check :: "double list \<Rightarrow> double \<Rightarrow> double list \<times> bool" where
  "emit_asm_fp_check emitted d =
     (if list_ex (\<lambda>e. double_eq e d \<and> signbit e = signbit d) emitted then (emitted, False)
      else (d # emitted, True))"

definition emit_asm_fp_one :: "double \<Rightarrow> platform \<Rightarrow> string result" where
  "emit_asm_fp_one d plat =
     check (ctype_to_size_bytes (CTYPE_DOUBLE False)) (\<lambda>align.
     Inr (tab @ get_section_fp_constants plat @ nl @
       tab @ ''.balign '' @ int_decimal (sint align) @ nl @
       double_label plat d @ '':'' @ nl @
       tab @ ''.quad 0x'' @ word_hex (get_double_as_quadword d) @ nl))"

fun emit_asm_fp_loop :: "double list \<Rightarrow> double list \<Rightarrow> platform \<Rightarrow> string result" where
  "emit_asm_fp_loop emitted [] plat = Inr []"
| "emit_asm_fp_loop emitted (d # ds) plat =
     (case emit_asm_fp_check emitted d of (emitted, do_emit) \<Rightarrow>
        check (if do_emit then emit_asm_fp_one d plat else Inr []) (\<lambda>s.
        check (emit_asm_fp_loop emitted ds plat) (\<lambda>t. Inr (s @ t))))"

definition emit_asm_fp_constants :: "asm_function list \<Rightarrow> platform \<Rightarrow> string result" where
  "emit_asm_fp_constants fs plat =
     emit_asm_fp_loop [] (List.map_filter operand_double (all_operands fs)) plat"

section \<open>The program\<close>

text \<open>\<open>None\<close> is the null pointer that the driver passes when it stops before this pass.\<close>

definition emit_asm :: "assembly option \<Rightarrow> platform \<Rightarrow> string result" where
  "emit_asm cg plat =
     (case cg of
        None \<Rightarrow> Inr []
      | Some cg \<Rightarrow>
          text_of
            (map (\<lambda>s. emit_asm_str s plat) (asm_strings cg) @
             map (\<lambda>v. emit_asm_var v plat) (asm_variables cg) @
             [Inr (emit_asm_fp_vector_constants (asm_functions cg) plat),
              emit_asm_fp_constants (asm_functions cg) plat] @
             map (\<lambda>f. emit_asm_fn f plat) (asm_functions cg) @
             [Inr (emit_asm_footer plat)]))"

end
