(* ===== verification/EmitFacts.thy ===== *)
theory EmitFacts
  imports Emit FixupFacts
begin

text \<open>
  What the emitter relies on and what it promises: which instructions it prints, that the
  lowering of a function leaves only such instructions, that its labels are unambiguous, and
  that every double constant gets its label once.
\<close>

section \<open>Instructions that are printed\<close>

definition operand_fine :: "asm_operand \<Rightarrow> bool" where
  "operand_fine a =
     (case operand_type a of
        ASM_OPERAND_IMMEDIATE n \<Rightarrow> n \<le> ULLONG_MAX
      | ASM_OPERAND_PSEUDO_REGISTER _ \<Rightarrow> False
      | ASM_OPERAND_PSEUDO_MEMORY _ _ _ \<Rightarrow> False
      | ASM_OPERAND_JUMP_TARGET_LABEL n \<Rightarrow> n \<le> LLONG_MAX
      | _ \<Rightarrow> True)"

definition is_label_operand :: "asm_operand \<Rightarrow> bool" where
  "is_label_operand a =
     (case operand_type a of ASM_OPERAND_JUMP_TARGET_LABEL _ \<Rightarrow> True | _ \<Rightarrow> False)"

definition extends :: "asm_opcode \<Rightarrow> bool" where
  "extends oc = (oc \<in> {IntOp ASM_OP_MOV_WITH_SIGN_EXTENSION, IntOp ASM_OP_MOV_WITH_ZERO_EXTENSION})"

definition op_shape :: "asm_op \<Rightarrow> bool" where
  "op_shape op =
     ((extends (opcode op) \<longrightarrow>
        operand_type (arg1 op) \<noteq> ASM_OPERAND_NONE \<and> word_type (arg0 op) < word_type (arg1 op)) \<and>
      (opcode op = ASM_OP_LABEL \<longrightarrow> is_label_operand (arg0 op)))"

definition emit_ok :: "asm_op \<Rightarrow> bool" where
  "emit_ok op = (operand_fine (arg0 op) \<and> operand_fine (arg1 op) \<and> op_shape op)"

lemma text_of_ok: "(\<And>m. m \<in> set ms \<Longrightarrow> \<exists>s. m = Inr s) \<Longrightarrow> \<exists>s. text_of ms = Inr s"
  by (induction ms) fastforce+

lemma text_of_append:
  "text_of (xs @ ys) = check (text_of xs) (\<lambda>s. check (text_of ys) (\<lambda>t. Inr (s @ t)))"
  by (induction xs) (auto simp: check_def split: sum.splits)

lemma emit_operand_ok:
  "operand_fine a \<Longrightarrow> operand_type a \<noteq> ASM_OPERAND_NONE \<Longrightarrow> \<exists>s. emit_asm_operand a plat r = Inr s"
  by (cases "operand_type a") (simp_all add: operand_fine_def emit_asm_operand_def Let_def)

lemma emit_print_ok:
  assumes "operand_fine (arg0 op)" "operand_fine (arg1 op)"
  shows "\<exists>s. emit_print_op p op plat = Inr s"
  using assms emit_operand_ok [of "arg0 op" plat "ralias0 p"]
    emit_operand_ok [of "arg1 op" plat "ralias_default op"]
  by (auto simp: emit_print_op_def Let_def)

lemma alias_of_word:
  "alias_rank (map_wordtype_to_register_alias a) = 2 - word_rank (word_type a)"
  by (cases "word_type a") (simp_all add: map_wordtype_to_register_alias_def)

lemma alias_rank_le: "alias_rank a \<le> 2"
  by (cases a) simp_all

lemma print_int_ok:
  assumes "op_shape op" "opcode op = IntOp i"
  shows "\<exists>p. print_int_op i op = Inr p"
proof (cases "extends (IntOp i)")
  case True
  have "word_rank w \<le> 2" for w by (cases w) simp_all
  with True assms have "alias_rank (ralias_default op) < alias_rank (map_wordtype_to_register_alias (arg0 op))"
    by (auto simp: op_shape_def ralias_default_def alias_of_word less_asm_word_def
        intro: diff_less_mono2 order_less_le_trans)
  then show ?thesis
    using True alias_rank_le [of "map_wordtype_to_register_alias (arg0 op)"]
    by (auto simp: print_int_op_def extends_def Let_def)
next
  case False
  then show ?thesis by (auto simp: print_int_op_def extends_def Let_def)
qed

lemma emit_op_ok: "emit_ok op \<Longrightarrow> \<exists>s. emit_asm_op op plat = Inr s"
proof (cases "opcode op")
  case (IntOp i)
  assume ok: "emit_ok op"
  then obtain p where "print_int_op i op = Inr p"
    using print_int_ok [OF _ IntOp] by (auto simp: emit_ok_def)
  then show ?thesis
    using ok IntOp emit_print_ok [of op p plat] by (auto simp: emit_asm_op_def emit_ok_def)
next
  case ASM_OP_LABEL
  assume "emit_ok op"
  with ASM_OP_LABEL show ?thesis
    by (cases "operand_type (arg0 op)")
      (simp_all add: emit_ok_def emit_asm_op_def op_shape_def is_label_operand_def operand_fine_def)
qed (use emit_print_ok in \<open>auto simp: emit_asm_op_def emit_ok_def Let_def\<close>)

lemma emit_fn_ok:
  assumes "list_all emit_ok (ops f)"
  shows "\<exists>s. emit_asm_fn f plat = Inr s"
  unfolding emit_asm_fn_def Let_def
  using assms by (intro text_of_ok) (auto simp: list_all_iff intro: emit_op_ok)

section \<open>Lowering leaves instructions that are printed\<close>

lemma operand_fine_reg [simp]: "operand_fine (reg_operand w r)"
  by (simp add: operand_fine_def reg_operand_def)

lemma operand_fine_zero [simp]: "operand_fine zero_operand"
  by (simp add: operand_fine_def zero_operand_def)

lemma emit_ok_op2:
  "emit_ok (op2 oc a b) \<longleftrightarrow> operand_fine a \<and> operand_fine b \<and> op_shape (op2 oc a b)"
  by (simp add: emit_ok_def)

lemma op_shape_plain:
  "\<not> extends oc \<Longrightarrow> oc \<noteq> ASM_OP_LABEL \<Longrightarrow> op_shape (op2 oc a b)"
  by (simp add: op_shape_def)

lemma no_extension [simp]:
  "\<not> extends MOV" "\<not> extends ASM_OP_PUSH" "\<not> extends (DoubleOp d)" "\<not> extends (IntOp ASM_OP_COMPARE)"
  "\<not> extends (IntOp ASM_OP_BINARY_MULTIPLY)" "\<not> extends (IntOp ASM_OP_CVT_DOUBLE_TO_INT)"
  "\<not> extends (IntOp ASM_OP_CVT_INT_TO_DOUBLE)" "\<not> extends (IntOp ASM_OP_LEA)"
  "\<not> extends (IntOp ASM_OP_IDIV)" "\<not> extends (IntOp ASM_OP_DIV)"
  by (simp_all add: extends_def)

lemma no_extension_class:
  "arith oc \<Longrightarrow> \<not> extends oc \<and> oc \<noteq> ASM_OP_LABEL"
  "shift_opcode oc \<Longrightarrow> \<not> extends oc \<and> oc \<noteq> ASM_OP_LABEL"
  by (auto simp: arith_def shift_opcode_def extends_def)

lemma rewrite_emit_ok:
  assumes rw: "rewrite (op2 oc a b) = Inr os"
    and ext: "extension_ok (op2 oc a b)" and ok: "emit_ok (op2 oc a b)"
  shows "list_all emit_ok os"
proof -
  have fine: "operand_fine a" "operand_fine b" and sh: "op_shape (op2 oc a b)"
    using ok by (auto simp: emit_ok_op2)
  have reg: "operand_type (reg_operand w r) \<noteq> ASM_OPERAND_NONE" for w r
    by (simp add: reg_operand_def)
  note emit = emit_ok_op2 op_shape_plain fine
  show ?thesis
  proof (cases oc rule: opcode_cases)
    case mov then show ?thesis using rw fine by (auto simp: rewrite_mov emit split: if_splits)
  next
    case arith
    then show ?thesis using rw fine no_extension_class [of oc]
      by (auto simp: rewrite_arith emit split: if_splits)
  next
    case cmp then show ?thesis using rw fine by (auto simp: rewrite_cmp emit split: if_splits)
  next
    case mul
    then show ?thesis using rw fine by (auto simp: rewrite_mul emit Let_def split: if_splits)
  next
    case div
    then have "\<not> extends oc" "oc \<noteq> ASM_OP_LABEL" by auto
    then show ?thesis using rw fine rewrite_div [OF div, of a b] by (auto simp: emit split: if_splits)
  next
    case shift
    then show ?thesis using rw fine no_extension_class [of oc]
      by (auto simp: rewrite_shift emit split: if_splits)
  next
    case movsx
    then have "word_type a < word_type b" using ext by (simp add: extension_ok_def)
    with movsx show ?thesis using rw fine sh rewrite_movsx [of a b] reg
      by (auto simp: emit op_shape_def extends_def split: if_splits)
  next
    case movzx
    then have "word_type a < word_type b" "word_type a = ASM_WORD_32BIT \<Longrightarrow> \<not> is_register b"
      using ext by (simp_all add: extension_ok_def)
    with movzx show ?thesis using rw fine sh rewrite_movzx [of a b] reg
      by (auto simp: emit op_shape_def extends_def split: if_splits)
  next
    case d2i
    then show ?thesis using rw fine by (auto simp: rewrite_cvt_double_to_int emit split: if_splits)
  next
    case i2d
    then show ?thesis using rw fine by (auto simp: rewrite_cvt_int_to_double emit split: if_splits)
  next
    case double
    then show ?thesis using rw fine by (auto simp: rewrite_double emit split: if_splits)
  next
    case lea then show ?thesis using rw fine by (auto simp: rewrite_lea emit split: if_splits)
  next
    case push then show ?thesis using rw fine by (auto simp: rewrite_push emit split: if_splits)
  next
    case plain then show ?thesis using rw ok by (auto simp: rewrite_plain)
  qed
qed

lemma rewritten_emit_ok:
  assumes "fix_input R op" "emit_ok op"
  shows "list_all emit_ok (rewritten op)"
  using assms op_op2 [of op] rewrite_total [OF assms(1)]
    rewrite_emit_ok [of "opcode op" "arg0 op" "arg1 op" "rewritten op"]
  by (simp add: fix_input_def op_op2 [symmetric])

text \<open>A pseudo operand is the only thing the frame layout has to mend.\<close>

definition operand_fine_pseudo :: "asm_operand \<Rightarrow> bool" where
  "operand_fine_pseudo a = (is_pseudo a \<or> operand_fine a)"

definition emit_ok_pseudo :: "asm_op \<Rightarrow> bool" where
  "emit_ok_pseudo op =
     (operand_fine_pseudo (arg0 op) \<and> operand_fine_pseudo (arg1 op) \<and> op_shape op)"

lemma place_arg_simps [simp]:
  "word_type (place_arg p a) = word_type a"
  "operand_type (place_arg p a) = ASM_OPERAND_NONE \<longleftrightarrow> operand_type a = ASM_OPERAND_NONE"
  "is_label_operand (place_arg p a) = is_label_operand a"
  by (cases "operand_type a"; simp add: place_arg_def is_pseudo_def is_label_operand_def)+

lemma place_arg_fine: "operand_fine_pseudo a \<Longrightarrow> operand_fine (place_arg p a)"
  by (auto simp: operand_fine_pseudo_def place_arg_def operand_fine_def)

lemma place_op_emit_ok: "emit_ok_pseudo op \<Longrightarrow> emit_ok (place_op p op)"
  by (auto simp: emit_ok_def emit_ok_pseudo_def place_op_def op_shape_def place_arg_fine)

lemma subq_rsp_ok:
  assumes "n \<le> ULLONG_MAX" "clobbers R"
  shows "emit_ok (codegen_alloc_subq_rsp n)" "fix_input R (codegen_alloc_subq_rsp n)"
proof -
  have op: "codegen_alloc_subq_rsp n =
      op2 (IntOp ASM_OP_BINARY_SUBTRACT) (zero_operand\<lparr>operand_type := ASM_OPERAND_IMMEDIATE n\<rparr>)
        (reg_operand ASM_WORD_64BIT ASM_REGISTER_RSP)"
    by (simp add: codegen_alloc_subq_rsp_def codegen_alloc_modify_rsp_def OPERAND_RSP_64BIT_def
        alloc_op2)
  show "emit_ok (codegen_alloc_subq_rsp n)"
    using assms(1) by (simp add: op emit_ok_op2 op_shape_def extends_def operand_fine_def)
  show "fix_input R (codegen_alloc_subq_rsp n)"
    using assms(2)
    by (simp add: op fix_input_def extension_ok_def widths_ok_def operands_ok_def plain_def
        shift_opcode_def clobbers_def arith_def Let_def avoids_def in_memory_def reg_operand_def)
qed

section \<open>Hexadecimal numerals\<close>

definition hex_value_digit :: "char \<Rightarrow> nat" where
  "hex_value_digit c = (if isdigit c then code c - 48 else code c - 87)"

definition hex_value :: "string \<Rightarrow> nat" where
  "hex_value s = foldl (\<lambda>n c. 16 * n + hex_value_digit c) 0 s"

definition lower_hex :: "char \<Rightarrow> bool" where
  "lower_hex c = (isdigit c \<or> 97 \<le> code c \<and> code c \<le> 102)"

lemma code_hex_digit: "d < 16 \<Longrightarrow> code (hex_digit d) = (if d < 10 then 48 + d else 87 + d)"
  by (simp add: code_def hex_digit_def take_bit_nat_eq_self)

lemma hex_digit_value [simp]: "d < 16 \<Longrightarrow> hex_value_digit (hex_digit d) = d"
  by (simp add: hex_value_digit_def isdigit_def code_hex_digit)

lemma hex_digit_lower: "d < 16 \<Longrightarrow> lower_hex (hex_digit d)"
  by (auto simp: lower_hex_def isdigit_def code_hex_digit)

lemma hex_value_snoc: "hex_value (s @ [c]) = 16 * hex_value s + hex_value_digit c"
  by (simp add: hex_value_def)

lemma nat_hex_value [simp]: "hex_value (nat_hex n) = n"
proof (induction n rule: nat_hex.induct)
  case (1 n)
  show ?case
  proof (cases "n < 16")
    case True
    then show ?thesis by (simp add: nat_hex.simps hex_value_def)
  next
    case False
    with 1 have "hex_value (nat_hex n) = 16 * (n div 16) + n mod 16"
      by (subst nat_hex.simps) (simp add: hex_value_snoc)
    then show ?thesis by simp
  qed
qed

lemma nat_hex_chars: "c \<in> set (nat_hex n) \<Longrightarrow> lower_hex c"
proof (induction n rule: nat_hex.induct)
  case (1 n)
  then show ?case by (subst (asm) nat_hex.simps) (auto split: if_splits intro: hex_digit_lower)
qed

lemma nat_hex_inj [simp]: "nat_hex m = nat_hex n \<longleftrightarrow> m = n"
  by (metis nat_hex_value)

lemma word_hex_inj [simp]: "word_hex v = word_hex w \<longleftrightarrow> v = w"
  by (simp add: word_hex_def word_unat_eq_iff)

section \<open>Labels\<close>

text \<open>The kinds of symbols that the emitter defines and refers to.\<close>

datatype asm_symbol =
    Double_label double
  | Jump_label int
  | String_label int
  | Program_symbol string

definition symbol_text :: "platform \<Rightarrow> asm_symbol \<Rightarrow> string" where
  "symbol_text plat l =
     (case l of
        Double_label d \<Rightarrow> double_label plat d
      | Jump_label n \<Rightarrow> jump_label plat n
      | String_label n \<Rightarrow> string_label plat n
      | Program_symbol s \<Rightarrow> get_symbol_with_linkage_prefix plat @ s)"

text \<open>Numbers fit a \<^verbatim>\<open>long long\<close>, and a name of the program does not begin with a dot.\<close>

definition symbol_ok :: "asm_symbol \<Rightarrow> bool" where
  "symbol_ok l =
     (case l of
        Double_label d \<Rightarrow> True
      | Jump_label n \<Rightarrow> LLONG_MIN \<le> n \<and> n \<le> LLONG_MAX
      | String_label n \<Rightarrow> LLONG_MIN \<le> n \<and> n \<le> LLONG_MAX
      | Program_symbol s \<Rightarrow> s \<noteq> [] \<and> hd s \<noteq> CHR ''.'')"

lemma to_long_long_id: "LLONG_MIN \<le> n \<Longrightarrow> n \<le> LLONG_MAX \<Longrightarrow> to_long_long n = n"
  by (simp add: to_long_long_def limit_defs sint_sbintrunc' signed_take_bit_int_eq_self)

lemma symbol_text_inj:
  assumes "symbol_ok k" "symbol_ok l" "symbol_text plat k = symbol_text plat l"
  shows "k = l"
proof -
  note sym_defs = symbol_text_def symbol_ok_def double_label_def jump_label_def string_label_def
    get_label_prefix_def get_symbol_with_linkage_prefix_def get_double_as_quadword_def
  show ?thesis
    using assms
    by (cases k; cases l; cases plat) (auto simp: sym_defs to_long_long_id)
qed

section \<open>Double constants\<close>

lemma double_same_bits: "(double_eq e d \<and> signbit e = signbit d) = (e = d)" if "\<not> is_nan d" "\<not> is_nan e"
proof -
  have "e = d" if "take_bit 63 e = 0" "take_bit 63 d = 0" "bit e 63 = bit d 63"
  proof (rule bit_eqI)
    fix n assume "possible_bit TYPE(u64) n"
    then have "n < 63 \<or> n = 63" by auto
    moreover have "bit e n = bit (take_bit 63 e) n" "bit d n = bit (take_bit 63 d) n" if "n < 63"
      using that by (simp_all add: bit_take_bit_iff)
    ultimately show "bit e n = bit d n" using that by auto
  qed
  with that show ?thesis by (auto simp: double_eq_def signbit_def)
qed

text \<open>The definition of one constant.\<close>

definition double_block :: "platform \<Rightarrow> double \<Rightarrow> string" where
  "double_block plat d =
     tab @ get_section_fp_constants plat @ nl @ tab @ ''.balign 8'' @ nl @
     double_label plat d @ '':'' @ nl @ tab @ ''.quad 0x'' @ word_hex d @ nl"

lemma emit_fp_one: "emit_asm_fp_one d plat = Inr (double_block plat d)"
proof -
  have "int_decimal 8 = ''8''"
    by code_simp
  then show ?thesis
    by (simp add: emit_asm_fp_one_def double_block_def get_double_as_quadword_def)
qed

lemma map_filter_set: "set (List.map_filter f xs) = {y. \<exists>x \<in> set xs. f x = Some y}"
  by (induction xs) (auto simp: List.map_filter_simps split: option.splits)

lemma operand_double_iff:
  "operand_double a = Some d \<longleftrightarrow> operand_type a = ASM_OPERAND_CONSTANT_DATA_DOUBLE d"
  by (simp add: operand_double_def split: asm_operand_kind.splits)

fun first_uses :: "double list \<Rightarrow> double list \<Rightarrow> double list" where
  "first_uses seen [] = []"
| "first_uses seen (d # ds) =
     (if d \<in> set seen then first_uses seen ds else d # first_uses (d # seen) ds)"

lemma first_uses_set: "set (first_uses seen ds) = set ds - set seen"
  by (induction ds arbitrary: seen) auto

lemma first_uses_distinct: "distinct (first_uses seen ds)"
  by (induction ds arbitrary: seen) (auto simp: first_uses_set)

lemma fp_loop_first_uses:
  assumes "list_all (\<lambda>d. \<not> is_nan d) ds" "list_all (\<lambda>d. \<not> is_nan d) seen"
  shows "emit_asm_fp_loop seen ds plat = Inr (concat (map (double_block plat) (first_uses seen ds)))"
  using assms
proof (induction ds arbitrary: seen)
  case (Cons d ds)
  then have "list_ex (\<lambda>e. double_eq e d \<and> signbit e = signbit d) seen = (d \<in> set seen)"
    by (auto simp: list_ex_iff list_all_iff double_same_bits)
  with Cons show ?case by (simp add: emit_asm_fp_check_def emit_fp_one)
qed simp

end
