(* ===== verification/EmitData.thy ===== *)
theory EmitData
  imports EmitFacts
begin

text \<open>
  The data directives of the emitted text, read back: a small assembler for the lines
  \<^verbatim>\<open>.byte\<close>, \<^verbatim>\<open>.long\<close>, \<^verbatim>\<open>.quad\<close> and \<^verbatim>\<open>.zero\<close>, and what it makes of the text of a variable or
  of a string.
\<close>

section \<open>An assembler for data\<close>

text \<open>A byte, or the address of a symbol, in so many bytes.\<close>

datatype datum = Byte nat | Address nat string

definition little_endian :: "nat \<Rightarrow> nat \<Rightarrow> datum list" where
  "little_endian n v = map (\<lambda>i. Byte (v div 256 ^ i mod 256)) [0..<n]"

fun strip_prefix :: "string \<Rightarrow> string \<Rightarrow> string option" where
  "strip_prefix [] s = Some s"
| "strip_prefix (p # ps) [] = None"
| "strip_prefix (p # ps) (c # cs) = (if p = c then strip_prefix ps cs else None)"

fun lines_from :: "string \<Rightarrow> string \<Rightarrow> string list" where
  "lines_from cur [] = (if cur = [] then [] else [cur])"
| "lines_from cur (c # cs) =
     (if c = CHR 0x0A then cur # lines_from [] cs else lines_from (cur @ [c]) cs)"

definition value_data :: "nat \<Rightarrow> string \<Rightarrow> datum list" where
  "value_data n s =
     (case strip_prefix ''0x'' s of Some h \<Rightarrow> little_endian n (hex_value h) | None \<Rightarrow> [Address n s])"

definition directives :: "(string \<times> (string \<Rightarrow> datum list)) list" where
  "directives =
     [(tab @ ''.byte '', value_data 1), (tab @ ''.long '', value_data 4),
      (tab @ ''.quad '', value_data 8), (tab @ ''.zero '', \<lambda>s. replicate (decimal_value s) (Byte 0))]"

fun line_data :: "(string \<times> (string \<Rightarrow> datum list)) list \<Rightarrow> string \<Rightarrow> datum list" where
  "line_data [] l = []"
| "line_data ((d, f) # ds) l =
     (case strip_prefix d l of Some s \<Rightarrow> f s | None \<Rightarrow> line_data ds l)"

definition assemble :: "string \<Rightarrow> datum list" where
  "assemble t = concat (map (line_data directives) (lines_from [] t))"

text \<open>What an initializer stands for.\<close>

definition element_data :: "platform \<Rightarrow> constant_bytes \<Rightarrow> datum list" where
  "element_data plat e =
     (let n = unat (byte_count e) in
      if cb_unique e > 0 then [Address n (string_label plat (cb_unique e))]
      else little_endian n (unat (byte_value e)))"

definition element_ok :: "constant_bytes \<Rightarrow> bool" where
  "element_ok e = (byte_count e \<in> {1, 4, 8} \<and> 0 \<le> cb_unique e)"

definition name_ok :: "string \<Rightarrow> bool" where
  "name_ok s = list_all (\<lambda>c. c \<noteq> CHR 0x0A \<and> c \<noteq> CHR 0x09) s"

section \<open>Lines\<close>

lemma strip_prefix_append [simp]: "strip_prefix p (p @ s) = Some s"
  by (induction p) simp_all

lemma lines_from_line:
  "list_all (\<lambda>c. c \<noteq> CHR 0x0A) l \<Longrightarrow>
     lines_from cur (l @ CHR 0x0A # t) = (cur @ l) # lines_from [] t"
  by (induction l arbitrary: cur) simp_all

lemma assemble_Nil [simp]: "assemble [] = []"
  by (simp add: assemble_def)

lemma assemble_line:
  "list_all (\<lambda>c. c \<noteq> CHR 0x0A) l \<Longrightarrow> assemble (l @ nl @ t) = line_data directives l @ assemble t"
  by (simp add: assemble_def nl_def lines_from_line)

lemma line_data_other:
  "hd (l @ [c]) \<noteq> CHR 0x09 \<Longrightarrow> line_data directives (l @ [c]) = []"
  by (cases l) (simp_all add: directives_def tab_def)

lemma directive_lines:
  "line_data directives (tab @ ''.byte '' @ s) = value_data 1 s"
  "line_data directives (tab @ ''.long '' @ s) = value_data 4 s"
  "line_data directives (tab @ ''.quad '' @ s) = value_data 8 s"
  "line_data directives (tab @ ''.zero '' @ s) = replicate (decimal_value s) (Byte 0)"
  "line_data directives (tab @ ''.balign '' @ s) = []"
  "line_data directives (tab @ ''.globl '' @ s) = []"
  "line_data directives (tab @ ''.bss'') = []"
  "line_data directives (tab @ ''.data'') = []"
  by (simp_all add: directives_def tab_def)

lemmas directive_simps [simp] = directive_lines directive_lines [simplified append_Cons append_Nil]

lemma value_data_hex [simp]: "value_data n (CHR ''0'' # CHR ''x'' # word_hex w) = little_endian n (unat w)"
  by (simp add: value_data_def word_hex_def)

lemma value_data_label [simp]: "value_data n (string_label plat u) = [Address n (string_label plat u)]"
  by (cases plat) (simp_all add: value_data_def string_label_def get_label_prefix_def)

section \<open>Initializers\<close>

text \<open>Text without a line break.\<close>

abbreviation one_line :: "string \<Rightarrow> bool" where
  "one_line \<equiv> list_all (\<lambda>c. c \<noteq> CHR 0x0A)"

lemma one_line_digits: "one_line (nat_decimal n)" "one_line (int_decimal i)" "one_line (nat_hex n)"
proof -
  have "c = CHR 0x0A \<Longrightarrow> \<not> isdigit c \<and> c \<noteq> CHR ''-'' \<and> \<not> lower_hex c" for c
    by (simp add: isdigit_def code_def lower_hex_def)
  then show "one_line (nat_decimal n)" "one_line (int_decimal i)" "one_line (nat_hex n)"
    unfolding list_all_iff
    by (blast dest: nat_decimal_digits int_decimal_chars nat_hex_chars)+
qed

lemma one_line_labels [simp]:
  "one_line (word_decimal w)" "one_line (word_hex w)" "one_line (string_label plat u)" "one_line tab"
  by (cases plat; simp add: word_decimal_def word_hex_def string_label_def one_line_digits
      get_label_prefix_def tab_def)+

lemma name_ok_line: "name_ok s \<Longrightarrow> one_line s"
  by (auto simp: name_ok_def list_all_iff)

lemma emit_element_data:
  assumes "element_ok e"
  shows "\<exists>t. emit_element e plat = Inr t \<and> (\<forall>u. assemble (t @ u) = element_data plat e @ assemble u)"
proof -
  let ?s = "if cb_unique e > 0 then string_label plat (cb_unique e) else ''0x'' @ word_hex (byte_value e)"
  have data: "value_data (unat (byte_count e)) ?s = element_data plat e"
    by (simp add: element_data_def Let_def)
  have line: "one_line ?s" by simp
  consider "byte_count e = 1" | "byte_count e = 4" | "byte_count e = 8"
    using assms by (auto simp: element_ok_def)
  then obtain d where d: "emit_element e plat = Inr (tab @ d @ ?s @ nl)"
    "line_data directives (tab @ d @ ?s) = value_data (unat (byte_count e)) ?s" "one_line d"
    by cases (force simp: emit_element_def)+
  then show ?thesis
    using assemble_line [of "tab @ d @ ?s"] data line by (intro exI [of _ "tab @ d @ ?s @ nl"]) simp
qed

lemma emit_elements_data:
  assumes "list_all element_ok ci"
  shows "\<exists>t. text_of (map (\<lambda>e. emit_element e plat) ci) = Inr t \<and>
    assemble t = concat (map (element_data plat) ci)"
  using assms
proof (induction ci)
  case (Cons e ci)
  then obtain t u where "emit_element e plat = Inr t" "\<forall>v. assemble (t @ v) = element_data plat e @ assemble v"
    "text_of (map (\<lambda>e. emit_element e plat) ci) = Inr u"
    "assemble u = concat (map (element_data plat) ci)"
    using emit_element_data [of e plat] by auto
  then show ?case by simp
qed simp

lemma little_endian_zero: "little_endian n 0 = replicate n (Byte 0)"
  by (simp add: little_endian_def map_replicate_trivial)

definition total_bytes :: "constant_initializer \<Rightarrow> nat" where
  "total_bytes ci = sum_list (map (\<lambda>e. unat (byte_count e)) ci)"

lemma constant_byte_count_total:
  assumes "total_bytes ci < 2 ^ 64"
  shows "unat (constant_byte_count ci) = total_bytes ci"
proof -
  have "foldl (\<lambda>n e. n + byte_count e) m ci = m + of_nat (total_bytes ci)" for m
    by (induction ci arbitrary: m) (simp_all add: total_bytes_def ac_simps)
  then show ?thesis
    using assms by (simp add: constant_byte_count_def unat_of_nat take_bit_nat_eq_self)
qed

lemma zero_elements:
  assumes "list_all element_ok ci" "list_all (\<lambda>e. \<not> (byte_value e \<noteq> 0 \<or> cb_unique e \<noteq> 0)) ci"
  shows "concat (map (element_data plat) ci) = replicate (total_bytes ci) (Byte 0)"
  using assms
  by (induction ci) (auto simp: total_bytes_def element_data_def little_endian_zero replicate_add)

lemma emit_initializer_data:
  assumes "ci \<noteq> []" "list_all element_ok ci" "total_bytes ci < 2 ^ 64"
    and name: "one_line (p @ name)" "hd (p @ name @ '':'') \<noteq> CHR 0x09"
    and sec: "one_line sect" "line_data directives (tab @ sect) = []"
  shows "\<exists>t. emit_asm_initializer name sect p ci plat = Inr t \<and>
    assemble t = concat (map (element_data plat) ci)"
proof -
  obtain al where al: "(if constant_byte_count ci \<ge> MAX_ALIGNMENT then Inr MAX_ALIGNMENT
      else case ci of [] \<Rightarrow> Inl Abort | e # _ \<Rightarrow> Inr (byte_count e)) = (Inr al :: u64 result)"
    using assms(1) by (cases ci; cases "constant_byte_count ci \<ge> MAX_ALIGNMENT") simp_all
  let ?z = "list_all (\<lambda>e. \<not> (byte_value e \<noteq> 0 \<or> cb_unique e \<noteq> 0)) ci"
  have zero: "constant_is_zero ci = Inr ?z" using assms(1) by (simp add: constant_is_zero_def)
  have label: "assemble (p @ name @ '':'' @ nl @ t) = assemble t" for t
    using assemble_line [of "p @ name @ '':''"] line_data_other [of "p @ name" "CHR '':''"] name by simp
  have lines: "assemble (tab @ ''.bss'' @ nl @ t) = assemble t"
    "assemble (tab @ sect @ nl @ t) = assemble t"
    "assemble (tab @ ''.balign '' @ word_decimal w @ nl @ t) = assemble t"
    "assemble (tab @ ''.zero '' @ word_decimal w @ nl) = replicate (unat w) (Byte 0)" for t w
    using assemble_line [of "tab @ ''.bss''" t] assemble_line [of "tab @ sect" t] sec
      assemble_line [of "tab @ ''.balign '' @ word_decimal w" t]
      assemble_line [of "tab @ ''.zero '' @ word_decimal w" "[]"]
    by (simp_all add: word_decimal_def decimal_roundtrip one_line_digits)
  note read = lines label lines [simplified append_Cons append_Nil]
    label [simplified append_Cons append_Nil]
  show ?thesis
  proof (cases ?z)
    case True
    then show ?thesis
      using zero al zero_elements [OF assms(2) True, of plat] constant_byte_count_total [OF assms(3)]
      by (simp add: emit_asm_initializer_def Let_def read)
  next
    case False
    then show ?thesis
      using zero al emit_elements_data [OF assms(2), of plat]
      by (auto simp: emit_asm_initializer_def Let_def read)
  qed
qed

end
