(* ===== verification/EmitProps.thy ===== *)
theory EmitProps
  imports EmitData BackProps
begin

text \<open>
  The properties of the assembly output: the data of a variable reads back, labels are
  unambiguous, and every double constant is defined once.
\<close>

text \<open>
  C23. Static data survives printing: the text of a variable or of a string literal, read
  back by an assembler, is the bytes of its initializer in little-endian order, with the
  addresses of string literals in their places, whether the text is a \<^verbatim>\<open>.zero\<close> or one
  directive for each element. The initializer has elements of 1, 4 or 8 bytes and is not
  empty; the name is an identifier.
\<close>
theorem static_data_roundtrip:
  assumes "ci \<noteq> []" "list_all element_ok ci" "total_bytes ci < 2 ^ 64" "name_ok name"
  shows "\<exists>t u. emit_asm_var \<lparr>var_identifier = name, var_linkage = l, var_initializer = ci\<rparr> plat = Inr t \<and>
    assemble t = concat (map (element_data plat) ci) \<and>
    emit_asm_str \<lparr>string_unique = n, str_initializer = ci\<rparr> plat = Inr u \<and>
    assemble u = concat (map (element_data plat) ci)"
proof -
  let ?p = "get_symbol_with_linkage_prefix plat"
  have p: "one_line (?p @ name)" "hd (?p @ name @ '':'') \<noteq> CHR 0x09"
    using assms(4) name_ok_line [OF assms(4)]
    by (cases plat; cases name; simp add: get_symbol_with_linkage_prefix_def name_ok_def)+
  have q: "one_line ([] @ string_label plat n)" "hd ([] @ string_label plat n @ '':'') \<noteq> CHR 0x09"
    by simp (cases plat; simp add: string_label_def get_label_prefix_def)
  have sec: "one_line (get_section_string_literals plat)"
    "line_data directives (tab @ get_section_string_literals plat) = []"
    by (cases plat; simp add: get_section_string_literals_def directives_def tab_def)+
  obtain t where t: "emit_asm_initializer name ''.data'' ?p ci plat = Inr t"
    "assemble t = concat (map (element_data plat) ci)"
    using emit_initializer_data [OF assms(1-3) p, of "''.data''"] by auto
  obtain u where u: "emit_asm_initializer (string_label plat n) (get_section_string_literals plat) []
      ci plat = Inr u" "assemble u = concat (map (element_data plat) ci)"
    using emit_initializer_data [OF assms(1-3) q sec] by auto
  have "assemble (tab @ ''.globl '' @ ?p @ name @ nl @ s) = assemble s" for s
    using assemble_line [of "tab @ ''.globl '' @ ?p @ name" s] p(1) by simp
  then show ?thesis
    using t u by (auto simp: emit_asm_var_def emit_asm_str_def Let_def)
qed

lemma static_data_roundtrip_witness:
  "\<exists>t u. emit_asm_var \<lparr>var_identifier = ''a'', var_linkage = ASM_LINKAGE_EXTERNAL,
      var_initializer = [\<lparr>byte_count = 4, byte_value = 258, cb_unique = 0\<rparr>,
        \<lparr>byte_count = 8, byte_value = 0, cb_unique = 3\<rparr>]\<rparr> PLATFORM_LINUX = Inr t \<and>
    assemble t = [Byte 2, Byte 1, Byte 0, Byte 0, Address 8 ''.L.str.3''] \<and>
    emit_asm_str \<lparr>string_unique = 3,
      str_initializer = [\<lparr>byte_count = 4, byte_value = 258, cb_unique = 0\<rparr>,
        \<lparr>byte_count = 8, byte_value = 0, cb_unique = 3\<rparr>]\<rparr> PLATFORM_LINUX = Inr u \<and>
    assemble u = [Byte 2, Byte 1, Byte 0, Byte 0, Address 8 ''.L.str.3'']"
proof -
  let ?ci = "[\<lparr>byte_count = 4, byte_value = 258, cb_unique = 0\<rparr>,
    \<lparr>byte_count = 8, byte_value = 0, cb_unique = 3\<rparr>] :: constant_initializer"
  have label: "string_label PLATFORM_LINUX 3 = ''.L.str.3''"
    by code_simp
  have "concat (map (element_data PLATFORM_LINUX) ?ci) =
      [Byte 2, Byte 1, Byte 0, Byte 0, Address 8 ''.L.str.3'']"
    by (simp add: element_data_def little_endian_def upt_rec label)
  then show ?thesis
    using static_data_roundtrip [of ?ci "''a''" ASM_LINKAGE_EXTERNAL PLATFORM_LINUX 3]
    by (simp add: element_ok_def total_bytes_def name_ok_def)
qed

text \<open>
  C24. Names in the assembly text are unambiguous: the labels of double constants, of jump
  targets and of string literals and the names of the program (which never begin with a dot)
  are pairwise different texts on either platform, so no two things share a label.
\<close>
theorem labels_unambiguous:
  "inj_on (symbol_text plat) (Collect symbol_ok)"
  by (rule inj_onI) (simp add: symbol_text_inj)

text \<open>
  C25. Every double constant has one definition: for instructions whose constants are
  numbers, the emitted constants are the constants that occur as operands, each exactly once
  (positive and negative zero count as two), each behind its own label, with its bits in
  hexadecimal.
\<close>
theorem double_constants_defined_once:
  assumes "list_all (\<lambda>d. \<not> is_nan d) (List.map_filter operand_double (all_operands fs))"
  shows "\<exists>cs. emit_asm_fp_constants fs plat = Inr (concat (map (double_block plat) cs)) \<and>
    distinct cs \<and> distinct (map (double_label plat) cs) \<and>
    set cs = {d. \<exists>a \<in> set (all_operands fs). operand_type a = ASM_OPERAND_CONSTANT_DATA_DOUBLE d}"
proof -
  let ?ds = "List.map_filter operand_double (all_operands fs)"
  have "set ?ds = {d. \<exists>a \<in> set (all_operands fs). operand_type a = ASM_OPERAND_CONSTANT_DATA_DOUBLE d}"
    by (auto simp: map_filter_set operand_double_iff)
  moreover have "inj_on (double_label plat) A" for A
    by (rule inj_onI) (simp add: double_label_def get_double_as_quadword_def)
  ultimately show ?thesis
    using fp_loop_first_uses [OF assms, of "[]" plat] first_uses_distinct [of "[]" ?ds]
    by (intro exI [of _ "first_uses [] ?ds"])
      (simp add: emit_asm_fp_constants_def first_uses_set distinct_map)
qed

definition double_use :: "double \<Rightarrow> asm_op" where
  "double_use d = codegen_alloc_op
     \<lparr>arg0 := \<lparr>word_type = ASM_WORD_64BIT, operand_type = ASM_OPERAND_CONSTANT_DATA_DOUBLE d\<rparr>,
      arg1 := OPERAND_XMM15\<rparr>"

lemma double_constants_defined_once_witness:
  "\<exists>cs. emit_asm_fp_constants [sample_function\<lparr>ops := [double_use 0, double_use 0x8000000000000000, double_use 0]\<rparr>]
      PLATFORM_LINUX = Inr (concat (map (double_block PLATFORM_LINUX) cs)) \<and>
    distinct cs \<and> set cs = {0, 0x8000000000000000}"
proof -
  let ?fs = "[sample_function\<lparr>ops := [double_use 0, double_use 0x8000000000000000, double_use 0]\<rparr>]"
  have all: "all_operands ?fs = [arg0 (double_use 0), OPERAND_XMM15,
      arg0 (double_use 0x8000000000000000), OPERAND_XMM15, arg0 (double_use 0), OPERAND_XMM15]"
    by (simp add: all_operands_def sample_function_def double_use_def)
  have "list_all (\<lambda>d. \<not> is_nan d) (List.map_filter operand_double (all_operands ?fs))"
    by code_simp
  then obtain cs where cs: "emit_asm_fp_constants ?fs PLATFORM_LINUX =
      Inr (concat (map (double_block PLATFORM_LINUX) cs))" "distinct cs"
    "set cs = {d. \<exists>a \<in> set (all_operands ?fs). operand_type a = ASM_OPERAND_CONSTANT_DATA_DOUBLE d}"
    using double_constants_defined_once [of ?fs PLATFORM_LINUX] by blast
  then have "set cs = {0, 0x8000000000000000}"
    unfolding all by (auto simp: double_use_def OPERAND_XMM15_def reg_operand_def)
  with cs show ?thesis by blast
qed

end
