(* ===== verification/Ir.thy ===== *)
theory Ir
  imports Symbols
begin

text \<open>
  \<^verbatim>\<open>src/passes/ir.h\<close>: the three-address code between \<^verbatim>\<open>ir.c\<close>, which makes it, and
  \<^verbatim>\<open>codegen.c\<close>, which selects instructions for it.

  The 32 entries of \<^verbatim>\<open>args\<close> and \<^verbatim>\<open>params\<close> are a list whose missing entries are zeroed
  values; \<open>ir_arg op i\<close> reads \<^verbatim>\<open>op->args[i]\<close>. A null \<^verbatim>\<open>string_view\<close> is \<open>None\<close>.
\<close>

definition FUNCTION_PARAMETER_LIMIT :: nat where "FUNCTION_PARAMETER_LIMIT = 32"

datatype ir_val_subtype =
    IR_VAL_NONE | IR_VAL_CONSTANT | IR_VAL_TEMPORARY_VARIABLE | IR_VAL_JUMP_TARGET_LABEL
  | IR_VAL_VARIABLE_DATA | IR_VAL_STRING_LITERAL | IR_VAL_DUMMY

record ir_val =
  subtype :: ir_val_subtype
  val_num :: int
  val_dnum :: double
  val_offset :: int
  varname :: "string option"
  val_type :: ctype

definition ir_val_zero :: ir_val where
  "ir_val_zero = \<lparr>subtype = IR_VAL_NONE, val_num = 0, val_dnum = 0, val_offset = 0,
     varname = None, val_type = ctype_zero\<rparr>"

datatype ir_opcode =
    IR_OP_RET
  | IR_OP_UNARY_COMPLEMENT | IR_OP_UNARY_NEGATE | IR_OP_UNARY_NOT | IR_OP_UNARY_DECREMENT
  | IR_OP_UNARY_INCREMENT
  | IR_OP_BINARY_ADD | IR_OP_BINARY_SUBTRACT | IR_OP_BINARY_MULTIPLY | IR_OP_BINARY_DIVIDE
  | IR_OP_BINARY_REMAINDER
  | IR_OP_BITWISE_AND | IR_OP_BITWISE_OR | IR_OP_BITWISE_XOR | IR_OP_BITWISE_SHIFT_LEFT
  | IR_OP_BITWISE_SHIFT_RIGHT
  | IR_OP_COMPARE_EQUAL | IR_OP_COMPARE_NOT_EQUAL | IR_OP_COMPARE_LESS_THAN
  | IR_OP_COMPARE_LESS_THAN_EQ | IR_OP_COMPARE_MORE_THAN | IR_OP_COMPARE_MORE_THAN_EQ
  | IR_OP_COPY
  | IR_OP_CTYPE_SIGN_EXTEND | IR_OP_CTYPE_TRUNCATE | IR_OP_CTYPE_ZERO_EXTEND
  | IR_OP_CTYPE_DOUBLE_TO_INT | IR_OP_CTYPE_DOUBLE_TO_UINT | IR_OP_CTYPE_INT_TO_DOUBLE
  | IR_OP_CTYPE_UINT_TO_DOUBLE
  | IR_OP_GET_ADDRESS | IR_OP_LOAD | IR_OP_STORE | IR_OP_POINTER_ADD
  | IR_OP_JUMP | IR_OP_JUMP_IF_ZERO | IR_OP_JUMP_IF_NOT_ZERO | IR_OP_LABEL | IR_OP_CALL

record ir_op =
  ir_opcode :: ir_opcode
  ir_fun :: "string option"
  ir_args :: "ir_val list"

definition ir_arg :: "ir_op \<Rightarrow> nat \<Rightarrow> ir_val" where
  "ir_arg op i = (if i < length (ir_args op) then ir_args op ! i else ir_val_zero)"

text \<open>The entries of an argument array in front of the first that is not set.\<close>

definition ir_present :: "ir_val list \<Rightarrow> ir_val list" where
  "ir_present vs = takeWhile (\<lambda>v. subtype v \<noteq> IR_VAL_NONE) (take FUNCTION_PARAMETER_LIMIT vs)"

datatype ir_linkage = IR_LINKAGE_INTERNAL | IR_LINKAGE_EXTERNAL

record ir_function =
  ir_fn_identifier :: string
  ir_fn_linkage :: ir_linkage
  ir_params :: "ir_val list"
  ir_ops :: "ir_op list"

record ir_variable =
  ir_var_identifier :: string
  ir_var_linkage :: ir_linkage
  ir_var_initializer :: constant_initializer

record ir_str =
  ir_string_unique :: int
  ir_str_initializer :: constant_initializer

record ir_env =
  generator :: int
  ir_labels :: int

record intermediate =
  ir_functions :: "ir_function list"
  ir_variables :: "ir_variable list"
  ir_strings :: "ir_str list"
  ir_state :: ir_env

end
