(* ===== verification/Select.thy ===== *)
theory Select
  imports Ir Asm Frame
begin

text \<open>
  \<^verbatim>\<open>src/passes/codegen.c\<close>, the first step: instruction selection. Each operation of the
  three-address code becomes a sequence of instructions over pseudo-operands.

  A C function that appends to the list behind \<^verbatim>\<open>dst\<close> returns the instructions it appends.
  An instruction is written \<open>ins opcode arg0 arg1\<close>; an operand that the source leaves
  zeroed is \<open>zero_operand\<close>.
\<close>

definition ins :: "asm_opcode \<Rightarrow> asm_operand \<Rightarrow> asm_operand \<Rightarrow> asm_op" where
  "ins oc a b = codegen_alloc_op\<lparr>opcode := oc, arg0 := a, arg1 := b\<rparr>"

definition CODEGEN_REGISTER_ARGS :: nat where "CODEGEN_REGISTER_ARGS = length CALL_REG"
definition CODEGEN_FP_REGISTER_ARGS :: nat where "CODEGEN_FP_REGISTER_ARGS = length CALL_FP"
definition CODEGEN_BYTES_ARG_FIRST :: int where "CODEGEN_BYTES_ARG_FIRST = 16"
definition UINT_TO_DOUBLE_MAGIC_L1 :: u64 where "UINT_TO_DOUBLE_MAGIC_L1 = 0x43300000"
definition UINT_TO_DOUBLE_MAGIC_L2 :: u64 where "UINT_TO_DOUBLE_MAGIC_L2 = 0x45300000"
definition UINT_TO_DOUBLE_MAGIC_Q1 :: u64 where "UINT_TO_DOUBLE_MAGIC_Q1 = 0x4330000000000000"
definition UINT_TO_DOUBLE_MAGIC_Q2 :: u64 where "UINT_TO_DOUBLE_MAGIC_Q2 = 0x4530000000000000"

text \<open>The bits of \<^verbatim>\<open>-0.0\<close>, \<^verbatim>\<open>1.0\<close> and \<^verbatim>\<open>(double)INT_MAX\<close>.\<close>

definition double_minus_zero :: double where "double_minus_zero = 0x8000000000000000"
definition double_one :: double where "double_one = 0x3FF0000000000000"
definition double_int_max :: double where "double_int_max = 0x41DFFFFFFFC00000"

definition OPERAND_XMM0 :: asm_operand where
  "OPERAND_XMM0 = reg_operand ASM_WORD_64BIT ASM_REGISTER_XMM0"

definition OPERAND_XMM1 :: asm_operand where
  "OPERAND_XMM1 = reg_operand ASM_WORD_64BIT ASM_REGISTER_XMM1"

definition OPERAND_XMM2 :: asm_operand where
  "OPERAND_XMM2 = reg_operand ASM_WORD_64BIT ASM_REGISTER_XMM2"

text \<open>An immediate zero, or a constant, in an operand that was zeroed before.\<close>

definition imm_zero :: asm_operand where
  "imm_zero = codegen_set_operand_immediate_zero zero_operand"

definition set_constant :: "asm_operand_kind \<Rightarrow> asm_operand" where
  "set_constant k = zero_operand\<lparr>operand_type := k\<rparr>"

section \<open>Operands\<close>

fun codegen_map_ctype_impl :: "ctype \<Rightarrow> asm_word result" where
  "codegen_map_ctype_impl (CTYPE_CHAR _) = Inr ASM_WORD_08BIT"
| "codegen_map_ctype_impl (CTYPE_SIGNED_CHAR _) = Inr ASM_WORD_08BIT"
| "codegen_map_ctype_impl (CTYPE_UNSIGNED_CHAR _) = Inr ASM_WORD_08BIT"
| "codegen_map_ctype_impl (CTYPE_INT _) = Inr ASM_WORD_32BIT"
| "codegen_map_ctype_impl (CTYPE_UNSIGNED_INT _) = Inr ASM_WORD_32BIT"
| "codegen_map_ctype_impl (CTYPE_VOID _) = Inl Abort"
| "codegen_map_ctype_impl _ = Inr ASM_WORD_64BIT"

definition codegen_map_ctype :: "ir_val \<Rightarrow> asm_word result" where
  "codegen_map_ctype src = codegen_map_ctype_impl (val_type src)"

definition codegen_set_operand_memory :: "ir_val \<Rightarrow> asm_register \<Rightarrow> int \<Rightarrow> asm_operand result" where
  "codegen_set_operand_memory basis reg off =
     check (codegen_map_ctype basis) (\<lambda>w.
       Inr \<lparr>word_type = w, operand_type = ASM_OPERAND_MEMORY off reg\<rparr>)"

definition codegen_set_operand_stack :: "ir_val \<Rightarrow> int \<Rightarrow> asm_operand result" where
  "codegen_set_operand_stack basis off = codegen_set_operand_memory basis ASM_REGISTER_RBP off"

definition codegen_set_operand_indexed :: "ir_val \<Rightarrow> int \<Rightarrow> asm_operand result" where
  "codegen_set_operand_indexed basis scale =
     check (codegen_map_ctype basis) (\<lambda>w.
       Inr \<lparr>word_type = w,
         operand_type = ASM_OPERAND_INDEXED ASM_REGISTER_AX ASM_REGISTER_DX scale\<rparr>)"

definition codegen_set_operand_register :: "ir_val \<Rightarrow> asm_register \<Rightarrow> asm_operand result" where
  "codegen_set_operand_register basis reg =
     check (codegen_map_ctype basis) (\<lambda>w. Inr (reg_operand w reg))"

definition codegen_set_operand_pseudo :: "ir_val \<Rightarrow> asm_operand result" where
  "codegen_set_operand_pseudo basis =
     check (codegen_map_ctype basis) (\<lambda>w.
       Inr \<lparr>word_type = w, operand_type = ASM_OPERAND_PSEUDO_REGISTER (val_num basis)\<rparr>)"

definition codegen_set_operand_eax :: "ir_val \<Rightarrow> asm_operand result" where
  "codegen_set_operand_eax basis =
     check (codegen_map_ctype basis) (\<lambda>w. Inr (reg_operand w ASM_REGISTER_AX))"

fun innermost_element :: "ctype \<Rightarrow> ctype" where
  "innermost_element (CTYPE_ARRAY_OF _ r _) = innermost_element r"
| "innermost_element c = c"

definition constant_operand :: "ir_val \<Rightarrow> asm_operand_kind result" where
  "constant_operand src =
     (case val_type src of
        CTYPE_DOUBLE _ \<Rightarrow> Inr (ASM_OPERAND_CONSTANT_DATA_DOUBLE (val_dnum src))
      | CTYPE_VOID _ \<Rightarrow> Inl Abort
      | _ \<Rightarrow> Inr (ASM_OPERAND_IMMEDIATE (val_num src)))"

text \<open>A variable without a name does not occur; its \<^verbatim>\<open>string_view\<close> is empty.\<close>

definition operand_kind_of :: "ir_val \<Rightarrow> asm_operand_kind result" where
  "operand_kind_of src =
     (case subtype src of
        IR_VAL_NONE \<Rightarrow> Inl Abort
      | IR_VAL_CONSTANT \<Rightarrow> constant_operand src
      | IR_VAL_TEMPORARY_VARIABLE \<Rightarrow> Inr (ASM_OPERAND_PSEUDO_REGISTER (val_num src))
      | IR_VAL_JUMP_TARGET_LABEL \<Rightarrow> Inr (ASM_OPERAND_JUMP_TARGET_LABEL (val_num src))
      | IR_VAL_VARIABLE_DATA \<Rightarrow>
          Inr (ASM_OPERAND_VARIABLE_DATA (case varname src of None \<Rightarrow> [] | Some s \<Rightarrow> s))
      | IR_VAL_STRING_LITERAL \<Rightarrow> Inr (ASM_OPERAND_CONSTANT_STRING (val_num src))
      | IR_VAL_DUMMY \<Rightarrow> Inl Abort)"

definition codegen_map_operand :: "ir_val \<Rightarrow> asm_operand result" where
  "codegen_map_operand src =
     (if ctype_is_array (val_type src) \<and> subtype src = IR_VAL_TEMPORARY_VARIABLE then
        check (ctype_to_size_bytes (val_type src)) (\<lambda>total.
        check (codegen_map_ctype_impl (innermost_element (val_type src))) (\<lambda>w.
          Inr \<lparr>word_type = w,
            operand_type = ASM_OPERAND_PSEUDO_MEMORY (val_num src) (val_offset src) (sint total)\<rparr>))
      else
        check (operand_kind_of src) (\<lambda>k.
        check (codegen_map_ctype src) (\<lambda>w. Inr \<lparr>word_type = w, operand_type = k\<rparr>)))"

definition codegen_map_operands_all :: "ir_op \<Rightarrow> (asm_operand \<times> asm_operand) result" where
  "codegen_map_operands_all src =
     check (codegen_map_operand (ir_arg src 0)) (\<lambda>a.
     check (codegen_map_operand (ir_arg src 1)) (\<lambda>b. Inr (a, b)))"

fun codegen_map_linkage :: "ir_linkage \<Rightarrow> asm_linkage" where
  "codegen_map_linkage IR_LINKAGE_INTERNAL = ASM_LINKAGE_INTERNAL"
| "codegen_map_linkage IR_LINKAGE_EXTERNAL = ASM_LINKAGE_EXTERNAL"

definition in_place_update :: "ir_op \<Rightarrow> nat \<Rightarrow> bool" where
  "in_place_update src result_pos =
     (let a = ir_arg src 0; r = ir_arg src result_pos in
      subtype a = subtype r \<and> val_num a = val_num r \<and> varname a = varname r)"

section \<open>Integer operations\<close>

definition codegen_statement_unary_op :: "ir_op \<Rightarrow> asm_op list result" where
  "codegen_statement_unary_op src =
     (if ir_opcode src \<in> {IR_OP_UNARY_NEGATE, IR_OP_UNARY_COMPLEMENT} then
        check (codegen_map_operands_all src) (\<lambda>(a, b).
        Inr [ins (IntOp ASM_OP_MOV) a b,
             ins (IntOp (if ir_opcode src = IR_OP_UNARY_NEGATE then ASM_OP_UNARY_NEG
               else ASM_OP_UNARY_NOT)) b zero_operand])
      else if ir_opcode src = IR_OP_UNARY_NOT then
        check (codegen_map_operand (ir_arg src 0)) (\<lambda>a.
        check (codegen_map_operand (ir_arg src 1)) (\<lambda>b.
        Inr [ins (IntOp ASM_OP_COMPARE) imm_zero a,
             ins (IntOp ASM_OP_MOV) imm_zero b,
             ins (SetOp ASM_OP_SET_IF_EQ) b zero_operand]))
      else if ir_opcode src \<in> {IR_OP_UNARY_DECREMENT, IR_OP_UNARY_INCREMENT} then
        assert_that (in_place_update src 1)
          (check (codegen_map_operand (ir_arg src 0)) (\<lambda>a.
           Inr [ins (IntOp (if ir_opcode src = IR_OP_UNARY_DECREMENT then ASM_OP_UNARY_DECREMENT
             else ASM_OP_UNARY_INCREMENT)) a zero_operand]))
      else Inl Abort)"

text \<open>A binary operation first copies its first argument to the result, unless it is there.\<close>

definition copy_to_result :: "ir_op \<Rightarrow> asm_op list result" where
  "copy_to_result src =
     (if in_place_update src 2 then Inr []
      else
        check (codegen_map_operand (ir_arg src 0)) (\<lambda>a.
        check (codegen_map_operand (ir_arg src 2)) (\<lambda>r. Inr [ins (IntOp ASM_OP_MOV) a r])))"

definition binary_opcode :: "ir_opcode \<Rightarrow> bool \<Rightarrow> asm_int_op option" where
  "binary_opcode oc a_signed =
     (case oc of
        IR_OP_BINARY_ADD \<Rightarrow> Some ASM_OP_BINARY_ADD
      | IR_OP_BINARY_SUBTRACT \<Rightarrow> Some ASM_OP_BINARY_SUBTRACT
      | IR_OP_BINARY_MULTIPLY \<Rightarrow> Some ASM_OP_BINARY_MULTIPLY
      | IR_OP_BITWISE_AND \<Rightarrow> Some ASM_OP_BITWISE_AND
      | IR_OP_BITWISE_OR \<Rightarrow> Some ASM_OP_BITWISE_OR
      | IR_OP_BITWISE_XOR \<Rightarrow> Some ASM_OP_BITWISE_XOR
      | IR_OP_BITWISE_SHIFT_LEFT \<Rightarrow>
          Some (if a_signed then ASM_OP_BITWISE_SIGNED_SHIFT_LEFT
            else ASM_OP_BITWISE_UNSIGNED_SHIFT_LEFT)
      | IR_OP_BITWISE_SHIFT_RIGHT \<Rightarrow>
          Some (if a_signed then ASM_OP_BITWISE_SIGNED_SHIFT_RIGHT
            else ASM_OP_BITWISE_UNSIGNED_SHIFT_RIGHT)
      | _ \<Rightarrow> None)"

definition codegen_statement_binary_op :: "ir_op \<Rightarrow> asm_op list result" where
  "codegen_statement_binary_op src =
     check (copy_to_result src) (\<lambda>pre.
     (case binary_opcode (ir_opcode src) (ctype_is_signed (val_type (ir_arg src 0))) of
        None \<Rightarrow> Inl Abort
      | Some oc \<Rightarrow>
          check (codegen_map_operand (ir_arg src 1)) (\<lambda>b.
          check (codegen_map_operand (ir_arg src 2)) (\<lambda>r. Inr (pre @ [ins (IntOp oc) b r])))))"

text \<open>What widens the dividend into the double-width register pair.\<close>

definition widen_dividend :: "ctype \<Rightarrow> asm_op result" where
  "widen_dividend c =
     (case c of
        CTYPE_INT _ \<Rightarrow> Inr (ins (IntOp ASM_OP_CDQ) zero_operand zero_operand)
      | CTYPE_LONG _ \<Rightarrow> Inr (ins (IntOp ASM_OP_CQO) zero_operand zero_operand)
      | CTYPE_UNSIGNED_INT _ \<Rightarrow> Inr (ins (IntOp ASM_OP_MOV) imm_zero OPERAND_RDX_64BIT)
      | CTYPE_UNSIGNED_LONG _ \<Rightarrow> Inr (ins (IntOp ASM_OP_MOV) imm_zero OPERAND_RDX_64BIT)
      | _ \<Rightarrow> Inl Abort)"

definition codegen_statement_div_rem :: "ir_op \<Rightarrow> asm_op list result" where
  "codegen_statement_div_rem src =
     (let a_signed = ctype_is_signed (val_type (ir_arg src 0)) in
      check (codegen_map_operand (ir_arg src 0)) (\<lambda>a.
      check (codegen_set_operand_eax (ir_arg src 0)) (\<lambda>eax.
      check (widen_dividend (val_type (ir_arg src 0))) (\<lambda>widen.
      check (codegen_map_operand (ir_arg src 1)) (\<lambda>b.
      assert_that (ctype_is_equal (val_type (ir_arg src 0)) (val_type (ir_arg src 1)))
        (check
          (if ir_opcode src = IR_OP_BINARY_DIVIDE then codegen_set_operand_eax (ir_arg src 0)
           else if ir_opcode src = IR_OP_BINARY_REMAINDER
           then codegen_set_operand_register (ir_arg src 0) ASM_REGISTER_DX
           else Inl Abort) (\<lambda>res.
        check (codegen_map_operand (ir_arg src 2)) (\<lambda>r.
        Inr [ins (IntOp ASM_OP_MOV) a eax, widen,
             ins (IntOp (if a_signed then ASM_OP_IDIV else ASM_OP_DIV)) b zero_operand,
             ins (IntOp ASM_OP_MOV) res r]))))))))"

definition cmp_set_op :: "ir_opcode \<Rightarrow> bool \<Rightarrow> asm_set_op option" where
  "cmp_set_op oc a_signed =
     (case oc of
        IR_OP_COMPARE_EQUAL \<Rightarrow> Some ASM_OP_SET_IF_EQ
      | IR_OP_COMPARE_NOT_EQUAL \<Rightarrow> Some ASM_OP_SET_IF_NEQ
      | IR_OP_COMPARE_LESS_THAN \<Rightarrow> Some (if a_signed then ASM_OP_SET_IF_LT else ASM_OP_SET_IF_B)
      | IR_OP_COMPARE_LESS_THAN_EQ \<Rightarrow> Some (if a_signed then ASM_OP_SET_IF_LTE else ASM_OP_SET_IF_BE)
      | IR_OP_COMPARE_MORE_THAN \<Rightarrow> Some (if a_signed then ASM_OP_SET_IF_GT else ASM_OP_SET_IF_A)
      | IR_OP_COMPARE_MORE_THAN_EQ \<Rightarrow> Some (if a_signed then ASM_OP_SET_IF_GTE else ASM_OP_SET_IF_AE)
      | _ \<Rightarrow> None)"

definition codegen_statement_cmp_op :: "ir_op \<Rightarrow> asm_op list result" where
  "codegen_statement_cmp_op src =
     check (codegen_map_operand (ir_arg src 1)) (\<lambda>b.
     check (codegen_map_operand (ir_arg src 0)) (\<lambda>a.
     check (codegen_map_operand (ir_arg src 2)) (\<lambda>r.
     (case cmp_set_op (ir_opcode src) (ctype_is_signed (val_type (ir_arg src 0))) of
        None \<Rightarrow> Inl Abort
      | Some s \<Rightarrow>
          Inr [ins (IntOp ASM_OP_COMPARE) b a, ins (IntOp ASM_OP_MOV) imm_zero r,
               ins (SetOp s) r zero_operand]))))"

definition codegen_statement_ptr_add_op :: "ir_op \<Rightarrow> asm_op list result" where
  "codegen_statement_ptr_add_op src =
     assert_that (ir_opcode src = IR_OP_POINTER_ADD)
      (check (codegen_map_operand (ir_arg src 0)) (\<lambda>p.
       check (codegen_map_operand (ir_arg src 1)) (\<lambda>i.
       assert_that (subtype (ir_arg src 2) = IR_VAL_CONSTANT)
        (let n = val_num (ir_arg src 2);
             scaled = n \<in> {1, 2, 4, 8}
         in
         check (codegen_set_operand_indexed (ir_arg src 0) (if scaled then n else 1)) (\<lambda>ix.
         check (codegen_map_operand (ir_arg src 3)) (\<lambda>r.
         check
           (if scaled then Inr []
            else check (codegen_map_operand (ir_arg src 2)) (\<lambda>s.
              Inr [ins (IntOp ASM_OP_BINARY_MULTIPLY) s OPERAND_RDX_64BIT])) (\<lambda>mul.
         Inr ([ins (IntOp ASM_OP_MOV) p OPERAND_RAX_64BIT, ins (IntOp ASM_OP_MOV) i OPERAND_RDX_64BIT] @
              mul @ [ins (IntOp ASM_OP_LEA) ix (r\<lparr>word_type := ASM_WORD_64BIT\<rparr>)]))))))))"

section \<open>Calls\<close>

definition is_return_value_void :: "ir_op \<Rightarrow> nat \<Rightarrow> bool result" where
  "is_return_value_void src pos =
     assert_that (subtype (ir_arg src pos) \<noteq> IR_VAL_NONE)
       (Inr (subtype (ir_arg src pos) = IR_VAL_DUMMY))"

text \<open>
  The register for the next argument, given how many registers of each kind are taken; the
  loop over the arguments returns the moves into registers and the arguments for the stack.
\<close>

definition argument_register :: "nat \<Rightarrow> nat \<Rightarrow> ir_val \<Rightarrow> asm_register option" where
  "argument_register n_general n_double v =
     (let is_fp = ctype_is_floating_point (val_type v) in
      if is_fp \<and> n_double < CODEGEN_FP_REGISTER_ARGS then Some (CALL_FP ! n_double)
      else if \<not> is_fp \<and> n_general < CODEGEN_REGISTER_ARGS then Some (CALL_REG ! n_general)
      else None)"

fun place_arguments :: "nat \<Rightarrow> nat \<Rightarrow> ir_val list \<Rightarrow> (asm_op list \<times> ir_val list) result" where
  "place_arguments n_general n_double [] = Inr ([], [])"
| "place_arguments n_general n_double (v # vs) =
     (case argument_register n_general n_double v of
        Some reg \<Rightarrow>
          check (codegen_map_operand v) (\<lambda>a.
          check (codegen_set_operand_register v reg) (\<lambda>r.
          check
            (if ctype_is_floating_point (val_type v)
             then place_arguments n_general (n_double + 1) vs
             else place_arguments (n_general + 1) n_double vs) (\<lambda>(os, stacked).
          Inr (ins (IntOp ASM_OP_MOV) a r # os, stacked))))
      | None \<Rightarrow>
          check (place_arguments n_general n_double vs) (\<lambda>(os, stacked). Inr (os, v # stacked)))"

definition push_argument :: "ir_val \<Rightarrow> asm_op list result" where
  "push_argument v =
     check
       (if subtype v = IR_VAL_CONSTANT then Inr True
        else check (ctype_to_size_bytes (val_type v)) (\<lambda>n. Inr (sint n = CODEGEN_BYTES_PER_PUSH))) (\<lambda>whole.
     check (codegen_map_operand v) (\<lambda>a.
     if whole then Inr [ins ASM_OP_PUSH a zero_operand]
     else
       check (codegen_set_operand_eax v) (\<lambda>eax.
       Inr [ins (IntOp ASM_OP_MOV) a eax, ins ASM_OP_PUSH OPERAND_RAX_64BIT zero_operand])))"

text \<open>The stack arguments are pushed from the last to the first.\<close>

fun push_arguments :: "ir_val list \<Rightarrow> asm_op list result" where
  "push_arguments [] = Inr []"
| "push_arguments (v # vs) =
     check (push_arguments vs) (\<lambda>later.
     check (push_argument v) (\<lambda>os. Inr (later @ os)))"

text \<open>The arguments of a call, without the value it returns; the padding that goes with them.\<close>

definition call_args :: "ir_op \<Rightarrow> ir_val list" where
  "call_args src = butlast (ir_present (ir_args src))"

definition call_padding :: "ir_op \<Rightarrow> int" where
  "call_padding src = (if length (call_args src) mod 2 = 1 then CODEGEN_BYTES_PER_PUSH else 0)"

definition reserve :: "int \<Rightarrow> asm_op list" where
  "reserve n = (if n > 0 then [codegen_alloc_subq_rsp n] else [])"

definition release :: "int \<Rightarrow> asm_op list" where
  "release n = (if n > 0 then [codegen_alloc_addq_rsp n] else [])"

definition call_result :: "ir_op \<Rightarrow> asm_op list result" where
  "call_result src =
     (let v = ir_arg src (length (call_args src)) in
      check (is_return_value_void src (length (call_args src))) (\<lambda>void.
      if void then Inr []
      else
        check (if ctype_is_floating_point (val_type v) then Inr OPERAND_XMM0
               else codegen_set_operand_eax v) (\<lambda>res.
        check (codegen_map_operand v) (\<lambda>r. Inr [ins (IntOp ASM_OP_MOV) res r]))))"

definition codegen_op_call :: "ir_op \<Rightarrow> asm_op list result" where
  "codegen_op_call src =
     assert_that (ir_opcode src = IR_OP_CALL)
      (case ir_fun src of
        None \<Rightarrow> Inl Abort
      | Some callee \<Rightarrow>
        assert_that (callee \<noteq> [] \<and> ir_present (ir_args src) \<noteq> [])
          (check (place_arguments 0 0 (call_args src)) (\<lambda>(moves, stacked).
           check (push_arguments stacked) (\<lambda>pushes.
           check (call_result src) (\<lambda>res.
           Inr (reserve (call_padding src) @ moves @ pushes @
             ins ASM_OP_CALL (set_constant (ASM_OPERAND_CALL_TARGET_FUNCTION callee)) zero_operand #
             release (CODEGEN_BYTES_PER_PUSH * int (length stacked) + call_padding src) @ res))))))"

section \<open>Floating point\<close>

definition codegen_statement_fp_arithmetic_op :: "ir_op \<Rightarrow> asm_op list result" where
  "codegen_statement_fp_arithmetic_op src =
     check (copy_to_result src) (\<lambda>pre.
     check
       (case ir_opcode src of
          IR_OP_BINARY_ADD \<Rightarrow> Inr ASM_OP_DOUBLE_BINARY_ADD
        | IR_OP_BINARY_SUBTRACT \<Rightarrow> Inr ASM_OP_DOUBLE_BINARY_SUBTRACT
        | IR_OP_BINARY_MULTIPLY \<Rightarrow> Inr ASM_OP_DOUBLE_BINARY_MULTIPLY
        | IR_OP_BINARY_DIVIDE \<Rightarrow> Inr ASM_OP_DOUBLE_BINARY_DIVIDE
        | _ \<Rightarrow> Inl Abort) (\<lambda>oc.
     check (codegen_map_operand (ir_arg src 1)) (\<lambda>b.
     check (codegen_map_operand (ir_arg src 2)) (\<lambda>r. Inr (pre @ [ins (DoubleOp oc) b r])))))"

text \<open>The parity flag, the flag for the comparison and how the two are combined.\<close>

definition fp_cmp_set_ops :: "ir_opcode \<Rightarrow> (asm_set_op \<times> asm_set_op \<times> asm_int_op) option" where
  "fp_cmp_set_ops oc =
     (case oc of
        IR_OP_COMPARE_EQUAL \<Rightarrow> Some (ASM_OP_SET_IF_NP, ASM_OP_SET_IF_EQ, ASM_OP_BITWISE_AND)
      | IR_OP_COMPARE_LESS_THAN \<Rightarrow> Some (ASM_OP_SET_IF_NP, ASM_OP_SET_IF_B, ASM_OP_BITWISE_AND)
      | IR_OP_COMPARE_LESS_THAN_EQ \<Rightarrow> Some (ASM_OP_SET_IF_NP, ASM_OP_SET_IF_BE, ASM_OP_BITWISE_AND)
      | IR_OP_COMPARE_MORE_THAN \<Rightarrow> Some (ASM_OP_SET_IF_NP, ASM_OP_SET_IF_A, ASM_OP_BITWISE_AND)
      | IR_OP_COMPARE_MORE_THAN_EQ \<Rightarrow> Some (ASM_OP_SET_IF_NP, ASM_OP_SET_IF_AE, ASM_OP_BITWISE_AND)
      | IR_OP_COMPARE_NOT_EQUAL \<Rightarrow> Some (ASM_OP_SET_IF_P, ASM_OP_SET_IF_NEQ, ASM_OP_BITWISE_OR)
      | _ \<Rightarrow> None)"

definition codegen_statement_fp_cmp_op :: "ir_op \<Rightarrow> asm_op list result" where
  "codegen_statement_fp_cmp_op src =
     check (codegen_map_operand (ir_arg src 1)) (\<lambda>b.
     check (codegen_map_operand (ir_arg src 0)) (\<lambda>a.
     check (codegen_map_operand (ir_arg src 2)) (\<lambda>r.
     (case fp_cmp_set_ops (ir_opcode src) of
        None \<Rightarrow> Inl Abort
      | Some (parity, flag, combine) \<Rightarrow>
          Inr [ins (DoubleOp ASM_OP_DOUBLE_COMPARE) b a,
               ins (IntOp ASM_OP_MOV) imm_zero r,
               ins (IntOp ASM_OP_MOV) imm_zero OPERAND_RCX_64BIT,
               ins (SetOp parity) OPERAND_RCX_64BIT zero_operand,
               ins (SetOp flag) r zero_operand,
               ins (IntOp combine) OPERAND_RCX_64BIT r]))))"

definition fp_convert_signed :: "ir_op \<Rightarrow> asm_op list result" where
  "fp_convert_signed src =
     (let to_int = (ir_opcode src = IR_OP_CTYPE_DOUBLE_TO_INT);
          cvt = (if to_int then ASM_OP_CVT_DOUBLE_TO_INT else ASM_OP_CVT_INT_TO_DOUBLE)
      in
      check (codegen_map_operands_all src) (\<lambda>(a, b).
      if ctype_is_charlike (val_type (ir_arg src 0)) then
        assert_that (\<not> to_int)
          (assert_that (word_type a = ASM_WORD_08BIT)
            (Inr [ins (IntOp ASM_OP_MOV_WITH_SIGN_EXTENSION) a OPERAND_RAX_32BIT,
                  ins (IntOp cvt) OPERAND_RAX_32BIT b]))
      else if ctype_is_charlike (val_type (ir_arg src 1)) then
        assert_that to_int
          (assert_that (word_type b = ASM_WORD_08BIT)
            (Inr [ins (IntOp cvt) a OPERAND_RAX_32BIT, ins (IntOp ASM_OP_MOV) OPERAND_RAX_08BIT b]))
      else Inr [ins (IntOp cvt) a b]))"

definition fp_convert_to_unsigned :: "ir_op \<Rightarrow> asm_op list result" where
  "fp_convert_to_unsigned src =
     check (codegen_map_operand (ir_arg src 0)) (\<lambda>a.
     check (codegen_map_operand (ir_arg src 1)) (\<lambda>b.
     Inr [ins (IntOp ASM_OP_MOV) a OPERAND_XMM0,
          ins (IntOp ASM_OP_MOV) (set_constant (ASM_OPERAND_CONSTANT_DATA_DOUBLE double_int_max))
            OPERAND_XMM2,
          ins (IntOp ASM_OP_MOV) OPERAND_XMM0 OPERAND_XMM1,
          ins (DoubleOp ASM_OP_DOUBLE_BINARY_SUBTRACT) OPERAND_XMM2 OPERAND_XMM1,
          ins (IntOp ASM_OP_CVT_DOUBLE_TO_INT) OPERAND_XMM1 OPERAND_RCX_64BIT,
          ins (IntOp ASM_OP_CVT_DOUBLE_TO_INT) OPERAND_XMM0 OPERAND_RAX_64BIT,
          ins (IntOp ASM_OP_MOV) OPERAND_RAX_64BIT OPERAND_RDX_64BIT,
          ins (IntOp ASM_OP_BITWISE_SIGNED_SHIFT_RIGHT) (set_constant (ASM_OPERAND_IMMEDIATE (64 - 1)))
            OPERAND_RDX_64BIT,
          ins (IntOp ASM_OP_BITWISE_AND) OPERAND_RDX_64BIT OPERAND_RCX_64BIT,
          ins (IntOp ASM_OP_BITWISE_OR) OPERAND_RCX_64BIT OPERAND_RAX_64BIT,
          ins (IntOp ASM_OP_MOV) OPERAND_RAX_64BIT b]))"

definition fp_convert_from_unsigned :: "ir_op \<Rightarrow> asm_op list result" where
  "fp_convert_from_unsigned src =
     check (codegen_map_operand (ir_arg src 0)) (\<lambda>a.
     check (codegen_map_operand (ir_arg src 1)) (\<lambda>b.
     let t = val_type (ir_arg src 0) in
     if ctype_t t \<in> {ctype_t (CTYPE_UNSIGNED_CHAR False), ctype_t (CTYPE_UNSIGNED_INT False)} then
       Inr [ins (IntOp (if ctype_is_charlike t then ASM_OP_MOV_WITH_ZERO_EXTENSION else ASM_OP_MOV))
              a OPERAND_RAX_32BIT,
            ins (IntOp ASM_OP_CVT_INT_TO_DOUBLE) OPERAND_RAX_64BIT b]
     else
       assert_that (ctype_t t = ctype_t (CTYPE_UNSIGNED_LONG False))
         (Inr [ins (IntOp ASM_OP_MOV) a OPERAND_XMM0,
               ins (DoubleOp ASM_OP_VEC_DOUBLE_UNPACK_INTERLEAVE_LO)
                 (set_constant (ASM_OPERAND_CONSTANT_DATA_VEC_LONGS
                   [UINT_TO_DOUBLE_MAGIC_L1, UINT_TO_DOUBLE_MAGIC_L2, 0, 0])) OPERAND_XMM0,
               ins (DoubleOp ASM_OP_VEC_DOUBLE_BINARY_SUBTRACT)
                 (set_constant (ASM_OPERAND_CONSTANT_DATA_VEC_QUADS
                   [UINT_TO_DOUBLE_MAGIC_Q1, UINT_TO_DOUBLE_MAGIC_Q2])) OPERAND_XMM0,
               ins (IntOp ASM_OP_MOV) OPERAND_XMM0 OPERAND_XMM1,
               ins (DoubleOp ASM_OP_VEC_DOUBLE_UNPACK_INTERLEAVE_HI) OPERAND_XMM0 OPERAND_XMM0,
               ins (DoubleOp ASM_OP_DOUBLE_BINARY_ADD) OPERAND_XMM1 OPERAND_XMM0,
               ins (IntOp ASM_OP_MOV) OPERAND_XMM0 b])))"

text \<open>An empty list is a null \<^verbatim>\<open>*dst\<close>: the common handling takes over.\<close>

definition codegen_statement_fp :: "ir_op \<Rightarrow> asm_op list result" where
  "codegen_statement_fp src =
     (let oc = ir_opcode src; arg = (\<lambda>i. codegen_map_operand (ir_arg src i));
          constant_data = (\<lambda>d. set_constant (ASM_OPERAND_CONSTANT_DATA_DOUBLE d)) in
      if oc = IR_OP_RET then
        check (is_return_value_void src 0) (\<lambda>void.
        check (if void then Inr [] else check (arg 0) (\<lambda>a. Inr [ins (IntOp ASM_OP_MOV) a OPERAND_XMM0])) (\<lambda>mov.
        Inr (mov @ [ins ASM_OP_RET zero_operand zero_operand])))
      else if oc = IR_OP_UNARY_NEGATE then
        check (arg 0) (\<lambda>a. check (arg 1) (\<lambda>b.
        Inr [ins (IntOp ASM_OP_MOV) a OPERAND_XMM1,
             ins (IntOp ASM_OP_MOV) (constant_data double_minus_zero) OPERAND_XMM0,
             ins (DoubleOp ASM_OP_DOUBLE_BITWISE_XOR) OPERAND_XMM0 OPERAND_XMM1,
             ins (IntOp ASM_OP_MOV) OPERAND_XMM1 b]))
      else if oc \<in> {IR_OP_UNARY_DECREMENT, IR_OP_UNARY_INCREMENT} then
        check (arg 0) (\<lambda>a.
        Inr [ins (IntOp ASM_OP_MOV) (constant_data double_one) OPERAND_XMM0,
             ins (DoubleOp (if oc = IR_OP_UNARY_DECREMENT then ASM_OP_DOUBLE_BINARY_SUBTRACT
               else ASM_OP_DOUBLE_BINARY_ADD)) OPERAND_XMM0 a])
      else if oc \<in> {IR_OP_BINARY_ADD, IR_OP_BINARY_SUBTRACT, IR_OP_BINARY_MULTIPLY,
               IR_OP_BINARY_DIVIDE}
      then codegen_statement_fp_arithmetic_op src
      else if oc \<in> {IR_OP_COMPARE_EQUAL, IR_OP_COMPARE_NOT_EQUAL, IR_OP_COMPARE_LESS_THAN,
               IR_OP_COMPARE_LESS_THAN_EQ, IR_OP_COMPARE_MORE_THAN, IR_OP_COMPARE_MORE_THAN_EQ}
      then codegen_statement_fp_cmp_op src
      else if oc \<in> {IR_OP_CTYPE_DOUBLE_TO_INT, IR_OP_CTYPE_INT_TO_DOUBLE}
      then fp_convert_signed src
      else if oc = IR_OP_CTYPE_DOUBLE_TO_UINT then fp_convert_to_unsigned src
      else if oc = IR_OP_CTYPE_UINT_TO_DOUBLE then fp_convert_from_unsigned src
      else if oc \<in> {IR_OP_JUMP_IF_ZERO, IR_OP_JUMP_IF_NOT_ZERO} then
        check (arg 0) (\<lambda>a. check (arg 1) (\<lambda>l.
        Inr [ins (IntOp ASM_OP_MOV) imm_zero OPERAND_RAX_64BIT,
             ins (IntOp ASM_OP_MOV) imm_zero OPERAND_RCX_64BIT,
             ins (DoubleOp ASM_OP_DOUBLE_COMPARE) (constant_data 0) a,
             ins (SetOp ASM_OP_SET_IF_NEQ) OPERAND_RAX_64BIT zero_operand,
             ins (SetOp ASM_OP_SET_IF_P) OPERAND_RCX_64BIT zero_operand,
             ins (IntOp ASM_OP_BITWISE_OR) OPERAND_RAX_64BIT OPERAND_RCX_64BIT,
             ins (IntOp ASM_OP_COMPARE) imm_zero OPERAND_RCX_64BIT,
             ins (JumpOp (if oc = IR_OP_JUMP_IF_ZERO then ASM_OP_JMP_IF_EQ else ASM_OP_JMP_IF_NEQ))
               l zero_operand]))
      else Inr [])"

section \<open>One operation\<close>

definition statement_extend :: "ir_op \<Rightarrow> asm_op list result" where
  "statement_extend src =
     check (codegen_map_operands_all src) (\<lambda>(a, b).
     assert_that (word_type a < ASM_WORD_64BIT)
       (assert_that (word_type a < word_type b)
         (Inr [ins (IntOp (if ir_opcode src = IR_OP_CTYPE_SIGN_EXTEND
           then ASM_OP_MOV_WITH_SIGN_EXTENSION else ASM_OP_MOV_WITH_ZERO_EXTENSION)) a b])))"

definition statement_truncate :: "ir_op \<Rightarrow> asm_op list result" where
  "statement_truncate src =
     check (codegen_map_operands_all src) (\<lambda>(a, b).
     assert_that (word_type b < ASM_WORD_64BIT)
       (assert_that (word_type a > word_type b)
         (Inr [ins (IntOp ASM_OP_MOV) (a\<lparr>word_type := word_type b\<rparr>) b])))"

definition statement_load :: "ir_op \<Rightarrow> asm_op list result" where
  "statement_load src =
     check (codegen_map_operand (ir_arg src 0)) (\<lambda>p.
     check (codegen_set_operand_eax (ir_arg src 0)) (\<lambda>eax.
     check (codegen_set_operand_memory (ir_arg src 0) ASM_REGISTER_AX 0) (\<lambda>m.
     check (codegen_map_operand (ir_arg src 1)) (\<lambda>b.
     Inr [ins (IntOp ASM_OP_MOV) p (eax\<lparr>word_type := ASM_WORD_64BIT\<rparr>), ins (IntOp ASM_OP_MOV) m b]))))"

definition statement_store :: "ir_op \<Rightarrow> asm_op list result" where
  "statement_store src =
     check (codegen_map_operand (ir_arg src 1)) (\<lambda>p.
     check (codegen_set_operand_eax (ir_arg src 1)) (\<lambda>eax.
     assert_that (word_type p = ASM_WORD_64BIT)
       (check (codegen_map_operand (ir_arg src 0)) (\<lambda>a.
        check (codegen_set_operand_memory (ir_arg src 0) ASM_REGISTER_AX 0) (\<lambda>m.
        Inr [ins (IntOp ASM_OP_MOV) p eax, ins (IntOp ASM_OP_MOV) a m])))))"

definition codegen_statement_common :: "ir_op \<Rightarrow> asm_op list result" where
  "codegen_statement_common src =
     (let oc = ir_opcode src; arg = (\<lambda>i. codegen_map_operand (ir_arg src i)) in
      case oc of
        IR_OP_RET \<Rightarrow>
          check (is_return_value_void src 0) (\<lambda>void.
          check
            (if void then Inr []
             else check (arg 0) (\<lambda>a. check (codegen_set_operand_eax (ir_arg src 0)) (\<lambda>eax.
               Inr [ins (IntOp ASM_OP_MOV) a eax]))) (\<lambda>mov.
          Inr (mov @ [ins ASM_OP_RET zero_operand zero_operand])))
      | IR_OP_BINARY_DIVIDE \<Rightarrow> codegen_statement_div_rem src
      | IR_OP_BINARY_REMAINDER \<Rightarrow> codegen_statement_div_rem src
      | IR_OP_COPY \<Rightarrow>
          check (codegen_map_operands_all src) (\<lambda>(a, b). Inr [ins (IntOp ASM_OP_MOV) a b])
      | IR_OP_CTYPE_SIGN_EXTEND \<Rightarrow> statement_extend src
      | IR_OP_CTYPE_ZERO_EXTEND \<Rightarrow> statement_extend src
      | IR_OP_CTYPE_TRUNCATE \<Rightarrow> statement_truncate src
      | IR_OP_CTYPE_DOUBLE_TO_INT \<Rightarrow> Inl Abort
      | IR_OP_CTYPE_DOUBLE_TO_UINT \<Rightarrow> Inl Abort
      | IR_OP_CTYPE_INT_TO_DOUBLE \<Rightarrow> Inl Abort
      | IR_OP_CTYPE_UINT_TO_DOUBLE \<Rightarrow> Inl Abort
      | IR_OP_GET_ADDRESS \<Rightarrow>
          check (codegen_map_operands_all src) (\<lambda>(a, b).
          assert_that (word_type b = ASM_WORD_64BIT) (Inr [ins (IntOp ASM_OP_LEA) a b]))
      | IR_OP_LOAD \<Rightarrow> statement_load src
      | IR_OP_STORE \<Rightarrow> statement_store src
      | IR_OP_POINTER_ADD \<Rightarrow> codegen_statement_ptr_add_op src
      | IR_OP_JUMP \<Rightarrow> check (arg 0) (\<lambda>l. Inr [ins (JumpOp ASM_OP_JMP) l zero_operand])
      | IR_OP_LABEL \<Rightarrow> check (arg 0) (\<lambda>l. Inr [ins ASM_OP_LABEL l zero_operand])
      | IR_OP_CALL \<Rightarrow> codegen_op_call src
      | _ \<Rightarrow>
          if oc \<in> {IR_OP_JUMP_IF_ZERO, IR_OP_JUMP_IF_NOT_ZERO} then
            check (arg 0) (\<lambda>a. check (arg 1) (\<lambda>l.
            Inr [ins (IntOp ASM_OP_COMPARE) imm_zero a,
                 ins (JumpOp (if oc = IR_OP_JUMP_IF_ZERO then ASM_OP_JMP_IF_EQ
                   else ASM_OP_JMP_IF_NEQ)) l zero_operand]))
          else if oc \<in> {IR_OP_UNARY_COMPLEMENT, IR_OP_UNARY_NEGATE, IR_OP_UNARY_NOT,
                   IR_OP_UNARY_DECREMENT, IR_OP_UNARY_INCREMENT}
          then codegen_statement_unary_op src
          else if oc \<in> {IR_OP_COMPARE_EQUAL, IR_OP_COMPARE_NOT_EQUAL, IR_OP_COMPARE_LESS_THAN,
                   IR_OP_COMPARE_LESS_THAN_EQ, IR_OP_COMPARE_MORE_THAN, IR_OP_COMPARE_MORE_THAN_EQ}
          then codegen_statement_cmp_op src
          else codegen_statement_binary_op src)"

definition codegen_statement_one :: "ir_op \<Rightarrow> asm_op list result" where
  "codegen_statement_one src =
     (if ctype_is_floating_point (val_type (ir_arg src 0)) \<or>
         ctype_is_floating_point (val_type (ir_arg src 1))
      then check (codegen_statement_fp src) (\<lambda>os.
        if os \<noteq> [] then Inr os else codegen_statement_common src)
      else codegen_statement_common src)"

fun codegen_statement :: "ir_op list \<Rightarrow> asm_op list result" where
  "codegen_statement [] = Inr []"
| "codegen_statement (src # rest) =
     check (codegen_statement_one src) (\<lambda>os.
     check (codegen_statement rest) (\<lambda>later. Inr (os @ later)))"

section \<open>Functions and the program\<close>

text \<open>An index past the end of the register table would read outside of it.\<close>

definition codegen_copy_reg_to_pseudo :: "ir_val \<Rightarrow> nat \<Rightarrow> asm_op result" where
  "codegen_copy_reg_to_pseudo src pos =
     (let regs = (if ctype_is_floating_point (val_type src) then CALL_FP else CALL_REG) in
      assert_that (pos < length regs)
       (check (codegen_set_operand_register src (regs ! pos)) (\<lambda>r.
        check (codegen_set_operand_pseudo src) (\<lambda>p. Inr (ins (IntOp ASM_OP_MOV) r p)))))"

definition codegen_copy_stack_to_pseudo :: "ir_val \<Rightarrow> nat \<Rightarrow> asm_op result" where
  "codegen_copy_stack_to_pseudo src stack_pos =
     (let stack_offset = CODEGEN_BYTES_ARG_FIRST + CODEGEN_BYTES_PER_PUSH * int stack_pos in
      assert_that (stack_offset mod CODEGEN_BYTES_PER_VALUE = 0)
       (check (codegen_set_operand_stack src stack_offset) (\<lambda>m.
        check (codegen_set_operand_pseudo src) (\<lambda>p. Inr (ins (IntOp ASM_OP_MOV) m p)))))"

fun function_params_loop :: "nat \<Rightarrow> nat \<Rightarrow> nat \<Rightarrow> ir_val list \<Rightarrow> asm_op list result" where
  "function_params_loop n_general n_double n_stack [] = Inr []"
| "function_params_loop n_general n_double n_stack (v # vs) =
     (let is_fp = ctype_is_floating_point (val_type v);
          in_reg = (if is_fp then n_double < CODEGEN_FP_REGISTER_ARGS
                    else n_general < CODEGEN_REGISTER_ARGS)
      in
      check
        (if in_reg then codegen_copy_reg_to_pseudo v (if is_fp then n_double else n_general)
         else codegen_copy_stack_to_pseudo v n_stack) (\<lambda>op.
      check
        (function_params_loop (if is_fp then n_general else n_general + 1)
          (if is_fp then n_double + 1 else n_double)
          (if in_reg then n_stack else n_stack + 1) vs) (\<lambda>os.
      Inr (op # os))))"

definition codegen_function_params :: "ir_val list \<Rightarrow> asm_op list result" where
  "codegen_function_params ir = function_params_loop 0 0 0 (ir_present ir)"

definition codegen_function :: "ir_function \<Rightarrow> asm_function result" where
  "codegen_function ir =
     check (codegen_function_params (ir_params ir)) (\<lambda>params.
     check (codegen_statement (ir_ops ir)) (\<lambda>body.
     Inr \<lparr>fn_identifier = ir_fn_identifier ir, fn_linkage = codegen_map_linkage (ir_fn_linkage ir),
       stack_usage = 0, ops = params @ body\<rparr>))"

fun codegen_functions :: "ir_function list \<Rightarrow> asm_function list result" where
  "codegen_functions [] = Inr []"
| "codegen_functions (f # fs) =
     check (codegen_function f) (\<lambda>f'. check (codegen_functions fs) (\<lambda>fs'. Inr (f' # fs')))"

definition codegen_variable :: "ir_variable \<Rightarrow> asm_variable" where
  "codegen_variable v =
     \<lparr>var_identifier = ir_var_identifier v, var_linkage = codegen_map_linkage (ir_var_linkage v),
      var_initializer = ir_var_initializer v\<rparr>"

definition codegen_string_literal :: "ir_str \<Rightarrow> asm_str" where
  "codegen_string_literal s =
     \<lparr>string_unique = ir_string_unique s, str_initializer = ir_str_initializer s\<rparr>"

definition codegen_program :: "intermediate \<Rightarrow> assembly result" where
  "codegen_program ir =
     check (codegen_functions (ir_functions ir)) (\<lambda>fs.
     Inr \<lparr>asm_functions = fs, asm_variables = map codegen_variable (ir_variables ir),
       asm_strings = map codegen_string_literal (ir_strings ir)\<rparr>)"

definition codegen_init :: "intermediate \<Rightarrow> assembly result" where
  "codegen_init ir = codegen_program ir"

end
