(* ===== verification/SelectFacts.thy ===== *)
theory SelectFacts
  imports Select EmitFacts
begin

text \<open>
  What instruction selection promises: on well-formed operations no assertion fails, and what
  is selected can be lowered and printed; where calls put their arguments and where functions
  look for their parameters; what a call does to the stack pointer.
\<close>

section \<open>Instructions that can be lowered\<close>

definition lowerable :: "asm_op \<Rightarrow> bool" where
  "lowerable op = (emit_ok_pseudo op \<and> extension_ok op)"

lemma ins_op2: "ins oc a b = op2 oc a b"
  by (simp add: ins_def alloc_op2)

text \<open>An operand that selection makes: it is fine, or will be when it has its place.\<close>

lemma lowerable_op2:
  "\<not> extends oc \<Longrightarrow> oc \<noteq> ASM_OP_LABEL \<Longrightarrow>
     lowerable (op2 oc a b) \<longleftrightarrow> operand_fine_pseudo a \<and> operand_fine_pseudo b"
  by (auto simp: lowerable_def emit_ok_pseudo_def op_shape_def extension_ok_def extends_def)

lemma lowerable_label:
  "operand_fine_pseudo a \<Longrightarrow> is_label_operand a \<Longrightarrow> lowerable (op2 ASM_OP_LABEL a zero_operand)"
  by (simp add: lowerable_def emit_ok_pseudo_def op_shape_def extension_ok_def extends_def
      operand_fine_pseudo_def)

lemma lowerable_extend:
  assumes "extends oc" "word_type a < word_type b" "operand_type b \<noteq> ASM_OPERAND_NONE"
    and "operand_fine_pseudo a" "operand_fine_pseudo b"
    and "oc = IntOp ASM_OP_MOV_WITH_ZERO_EXTENSION \<Longrightarrow> word_type a = ASM_WORD_32BIT \<Longrightarrow> \<not> is_register b"
  shows "lowerable (op2 oc a b)"
  using assms by (auto simp: lowerable_def emit_ok_pseudo_def op_shape_def extension_ok_def extends_def)

lemma fine_fixed [simp]:
  "operand_fine_pseudo (reg_operand w r)" "operand_fine_pseudo zero_operand"
  "operand_fine_pseudo imm_zero"
  by (simp_all add: operand_fine_pseudo_def imm_zero_def codegen_set_operand_immediate_zero_def
      operand_fine_def zero_operand_def ULLONG_MAX_def)

lemma fine_constant [simp]:
  "operand_fine_pseudo (set_constant (ASM_OPERAND_CONSTANT_DATA_DOUBLE d))"
  "operand_fine_pseudo (set_constant (ASM_OPERAND_CONSTANT_DATA_VEC_LONGS ws))"
  "operand_fine_pseudo (set_constant (ASM_OPERAND_CONSTANT_DATA_VEC_QUADS ws))"
  "operand_fine_pseudo (set_constant (ASM_OPERAND_CALL_TARGET_FUNCTION f))"
  "operand_fine_pseudo (set_constant (ASM_OPERAND_IMMEDIATE n)) \<longleftrightarrow> n \<le> ULLONG_MAX"
  by (simp_all add: operand_fine_pseudo_def operand_fine_def set_constant_def is_pseudo_def)

lemma fine_width [simp]: "operand_fine_pseudo (a\<lparr>word_type := w\<rparr>) = operand_fine_pseudo a"
  by (simp add: operand_fine_pseudo_def is_pseudo_def operand_fine_def)

lemma fine_kinds [simp]:
  "operand_fine_pseudo \<lparr>word_type = w, operand_type = ASM_OPERAND_MEMORY off r\<rparr>"
  "operand_fine_pseudo \<lparr>word_type = w, operand_type = ASM_OPERAND_INDEXED b ix n\<rparr>"
  "operand_fine_pseudo \<lparr>word_type = w, operand_type = ASM_OPERAND_PSEUDO_REGISTER k\<rparr>"
  by (simp_all add: operand_fine_pseudo_def operand_fine_def is_pseudo_def)

lemmas fixed_operands =
  OPERAND_XMM0_def OPERAND_XMM1_def OPERAND_XMM2_def OPERAND_XMM15_def OPERAND_RAX_64BIT_def
  OPERAND_RAX_32BIT_def OPERAND_RAX_08BIT_def OPERAND_RCX_64BIT_def OPERAND_RDX_64BIT_def
  OPERAND_RSP_64BIT_def

section \<open>Values\<close>

text \<open>A constant is at most \<^verbatim>\<open>ULLONG_MAX\<close>, a label at most \<^verbatim>\<open>LLONG_MAX\<close>.\<close>

definition val_fits :: "ir_val \<Rightarrow> bool" where
  "val_fits v =
     ((subtype v = IR_VAL_CONSTANT \<longrightarrow> val_num v \<le> ULLONG_MAX) \<and>
      (subtype v = IR_VAL_JUMP_TARGET_LABEL \<longrightarrow> val_num v \<le> LLONG_MAX))"

definition val_ok :: "ir_val \<Rightarrow> bool" where
  "val_ok v =
     (subtype v \<noteq> IR_VAL_NONE \<and> subtype v \<noteq> IR_VAL_DUMMY \<and> \<not> ctype_is_void (val_type v) \<and>
      (ctype_is_array (val_type v) \<longrightarrow> subtype v = IR_VAL_TEMPORARY_VARIABLE \<longrightarrow>
         ctype_sizes_ok (val_type v) \<and> \<not> ctype_is_void (innermost_element (val_type v))))"

text \<open>The width of the operand that a value becomes.\<close>

definition val_word :: "ir_val \<Rightarrow> asm_word" where
  "val_word v = (case codegen_map_operand v of Inr a \<Rightarrow> word_type a | Inl _ \<Rightarrow> ASM_WORD_08BIT)"

lemma map_ctype_ok: "(\<exists>w. codegen_map_ctype_impl c = Inr w) \<longleftrightarrow> \<not> ctype_is_void c"
  by (cases c) (simp_all add: ctype_is_void_def)

lemma map_operand_ok:
  assumes "val_ok v"
  obtains a where "codegen_map_operand v = Inr a" "word_type a = val_word v"
proof -
  have "\<exists>k. operand_kind_of v = Inr k"
    using assms
    by (cases "subtype v"; cases "val_type v")
      (simp_all add: val_ok_def operand_kind_of_def constant_operand_def ctype_is_void_def)
  then have "\<exists>a. codegen_map_operand v = Inr a"
    using assms map_ctype_ok [of "val_type v"] map_ctype_ok [of "innermost_element (val_type v)"]
    by (auto simp: codegen_map_operand_def val_ok_def codegen_map_ctype_def size_bytes_word)
  then show thesis using that by (auto simp: val_word_def)
qed

lemma eax_ok: "val_ok v \<Longrightarrow> \<exists>w. codegen_set_operand_eax v = Inr (reg_operand w ASM_REGISTER_AX)"
  using map_ctype_ok [of "val_type v"]
  by (auto simp: val_ok_def codegen_set_operand_eax_def codegen_map_ctype_def)

lemma register_ok: "val_ok v \<Longrightarrow> \<exists>w. codegen_set_operand_register v r = Inr (reg_operand w r)"
  using map_ctype_ok [of "val_type v"]
  by (auto simp: val_ok_def codegen_set_operand_register_def codegen_map_ctype_def)

lemma memory_ok:
  "val_ok v \<Longrightarrow> \<exists>w. codegen_set_operand_memory v r off =
     Inr \<lparr>word_type = w, operand_type = ASM_OPERAND_MEMORY off r\<rparr>"
  using map_ctype_ok [of "val_type v"]
  by (auto simp: val_ok_def codegen_set_operand_memory_def codegen_map_ctype_def)

lemma indexed_ok:
  "val_ok v \<Longrightarrow> \<exists>w. codegen_set_operand_indexed v n =
     Inr \<lparr>word_type = w, operand_type = ASM_OPERAND_INDEXED ASM_REGISTER_AX ASM_REGISTER_DX n\<rparr>"
  using map_ctype_ok [of "val_type v"]
  by (auto simp: val_ok_def codegen_set_operand_indexed_def codegen_map_ctype_def)

lemma map_operand_fine:
  assumes "codegen_map_operand v = Inr a" "val_fits v"
  shows "operand_fine_pseudo a" "\<not> is_register a" "operand_type a \<noteq> ASM_OPERAND_NONE"
    "subtype v = IR_VAL_JUMP_TARGET_LABEL \<Longrightarrow> is_label_operand a"
  using assms
  by (auto simp: codegen_map_operand_def check_iff operand_kind_of_def constant_operand_def
      operand_fine_pseudo_def operand_fine_def is_pseudo_def is_register_def val_fits_def
      is_label_operand_def split: if_splits ir_val_subtype.splits ctype.splits)

lemma setter_fine:
  "codegen_set_operand_eax v = Inr a \<Longrightarrow> operand_fine_pseudo a"
  "codegen_set_operand_register v r = Inr a \<Longrightarrow> operand_fine_pseudo a"
  "codegen_set_operand_memory v r off = Inr a \<Longrightarrow> operand_fine_pseudo a"
  "codegen_set_operand_stack v off = Inr a \<Longrightarrow> operand_fine_pseudo a"
  "codegen_set_operand_pseudo v = Inr a \<Longrightarrow> operand_fine_pseudo a"
  "codegen_set_operand_indexed v n = Inr a \<Longrightarrow> operand_fine_pseudo a"
  by (auto simp: codegen_set_operand_eax_def codegen_set_operand_register_def check_iff
      codegen_set_operand_memory_def codegen_set_operand_indexed_def codegen_set_operand_stack_def
      codegen_set_operand_pseudo_def)

lemma val_fits_arg: "list_all val_fits (ir_args op) \<Longrightarrow> val_fits (ir_arg op i)"
  by (auto simp: ir_arg_def list_all_length val_fits_def ir_val_zero_def)

section \<open>What is selected can be lowered\<close>

lemma map_arg_fine:
  assumes "list_all val_fits (ir_args src)" "codegen_map_operand (ir_arg src i) = Inr a"
  shows "operand_fine_pseudo a" "\<not> is_register a" "operand_type a \<noteq> ASM_OPERAND_NONE"
  using map_operand_fine [OF assms(2) val_fits_arg [OF assms(1)]] by auto

lemmas select_simps = check_iff ins_op2 lowerable_op2 extends_def fixed_operands

lemma unary_lowerable:
  assumes "codegen_statement_unary_op src = Inr os" "list_all val_fits (ir_args src)"
  shows "list_all lowerable os"
  using assms map_arg_fine [OF assms(2)]
  by (auto simp: codegen_statement_unary_op_def codegen_map_operands_all_def select_simps
      split: if_splits)

lemma copy_to_result_lowerable:
  assumes "copy_to_result src = Inr os" "list_all val_fits (ir_args src)"
  shows "list_all lowerable os"
  using assms map_arg_fine [OF assms(2)]
  by (auto simp: copy_to_result_def select_simps split: if_splits)

lemma binary_opcode_plain:
  "binary_opcode oc sg = Some i \<Longrightarrow> \<not> extends (IntOp i)"
  by (auto simp: binary_opcode_def extends_def split: ir_opcode.splits if_splits)

lemma binary_lowerable:
  assumes "codegen_statement_binary_op src = Inr os" "list_all val_fits (ir_args src)"
  shows "list_all lowerable os"
proof -
  from assms(1) obtain pre oc a r where "copy_to_result src = Inr pre"
    "binary_opcode (ir_opcode src) (ctype_is_signed (val_type (ir_arg src 0))) = Some oc"
    "codegen_map_operand (ir_arg src 1) = Inr a" "codegen_map_operand (ir_arg src 2) = Inr r"
    "os = pre @ [op2 (IntOp oc) a r]"
    by (auto simp: codegen_statement_binary_op_def check_iff ins_op2 split: option.splits)
  then show ?thesis
    using copy_to_result_lowerable [OF _ assms(2)] map_arg_fine [OF assms(2)] binary_opcode_plain
    by (auto simp: lowerable_op2)
qed

lemma div_rem_lowerable:
  assumes "codegen_statement_div_rem src = Inr os" "list_all val_fits (ir_args src)"
  shows "list_all lowerable os"
  using assms map_arg_fine [OF assms(2)]
  by (auto simp: codegen_statement_div_rem_def widen_dividend_def Let_def select_simps setter_fine
      split: if_splits ctype.splits)

lemma cmp_lowerable:
  assumes "codegen_statement_cmp_op src = Inr os" "list_all val_fits (ir_args src)"
  shows "list_all lowerable os"
  using assms map_arg_fine [OF assms(2)]
  by (auto simp: codegen_statement_cmp_op_def select_simps split: option.splits)

lemma ptr_add_lowerable:
  assumes "codegen_statement_ptr_add_op src = Inr os" "list_all val_fits (ir_args src)"
  shows "list_all lowerable os"
  using assms map_arg_fine [OF assms(2)]
  by (auto simp: codegen_statement_ptr_add_op_def Let_def select_simps setter_fine split: if_splits)

lemma place_arguments_lowerable:
  assumes "place_arguments g d vs = Inr (os, st)" "list_all val_fits vs"
  shows "list_all lowerable os \<and> list_all val_fits st"
  using assms
proof (induction vs arbitrary: g d os st)
  case (Cons v vs)
  then show ?case
    by (auto simp: select_simps setter_fine map_operand_fine(1) split: option.splits if_splits)
qed simp

lemma push_arguments_lowerable:
  assumes "push_arguments vs = Inr os" "list_all val_fits vs"
  shows "list_all lowerable os"
  using assms
proof (induction vs arbitrary: os)
  case (Cons v vs)
  have "list_all lowerable ps" if "push_argument v = Inr ps" for ps
    using that Cons.prems(2)
    by (auto simp: push_argument_def select_simps setter_fine map_operand_fine(1) split: if_splits)
  with Cons show ?case by (auto simp: check_iff)
qed simp

lemma modify_rsp_lowerable:
  "n \<le> ULLONG_MAX \<Longrightarrow> lowerable (codegen_alloc_subq_rsp n) \<and> lowerable (codegen_alloc_addq_rsp n)"
  by (simp add: codegen_alloc_subq_rsp_def codegen_alloc_addq_rsp_def codegen_alloc_modify_rsp_def
      alloc_op2 lowerable_op2 extends_def OPERAND_RSP_64BIT_def operand_fine_pseudo_def operand_fine_def)

lemma place_arguments_length:
  "place_arguments g d vs = Inr r \<Longrightarrow> length (snd r) \<le> length vs"
proof (induction vs arbitrary: g d r)
  case (Cons v vs)
  show ?case
  proof (cases "argument_register g d v")
    case None
    with Cons.prems obtain p where "place_arguments g d vs = Inr p" "snd r = v # snd p"
      by (clarsimp simp: check_iff split_beta)
    then show ?thesis using Cons.IH by fastforce
  next
    case (Some a)
    with Cons.prems obtain p g' d' where "place_arguments g' d' vs = Inr p" "snd r = snd p"
      by (clarsimp simp: check_iff split_beta split: if_splits)
    then show ?thesis using Cons.IH by fastforce
  qed
qed simp

lemma ir_present_props:
  "length (ir_present vs) \<le> 32" "list_all P vs \<Longrightarrow> list_all P (ir_present vs)"
  "v \<in> set (ir_present vs) \<Longrightarrow> v \<in> set vs \<and> subtype v \<noteq> IR_VAL_NONE"
proof -
  have "length (ir_present vs) \<le> length (take 32 vs)"
    unfolding ir_present_def FUNCTION_PARAMETER_LIMIT_def by (rule length_takeWhile_le)
  then show "length (ir_present vs) \<le> 32" by simp
  show mem: "v \<in> set (ir_present vs) \<Longrightarrow> v \<in> set vs \<and> subtype v \<noteq> IR_VAL_NONE" for v
    unfolding ir_present_def by (auto dest!: set_takeWhileD in_set_takeD)
  show "list_all P vs \<Longrightarrow> list_all P (ir_present vs)"
    using mem by (auto simp: list_all_iff)
qed

lemma call_result_fine:
  assumes "call_result src = Inr res" "list_all val_fits (ir_args src)"
  shows "list_all lowerable res"
  using assms map_arg_fine [OF assms(2)]
  by (auto simp: call_result_def Let_def select_simps setter_fine split: if_splits)

lemma call_lowerable:
  assumes "codegen_op_call src = Inr os" "list_all val_fits (ir_args src)"
  shows "list_all lowerable os"
proof -
  obtain callee moves stacked pushes res where
    parts: "place_arguments 0 0 (call_args src) = Inr (moves, stacked)" "push_arguments stacked = Inr pushes"
      "call_result src = Inr res"
    and os: "os = reserve (call_padding src) @ moves @ pushes @
      ins ASM_OP_CALL (set_constant (ASM_OPERAND_CALL_TARGET_FUNCTION callee)) zero_operand #
      release (CODEGEN_BYTES_PER_PUSH * int (length stacked) + call_padding src) @ res"
    using assms(1) unfolding codegen_op_call_def by (auto simp: check_iff split: option.splits)
  have fit: "list_all val_fits (call_args src)"
    using ir_present_props(2) [OF assms(2)] by (auto simp: call_args_def list_all_iff dest: in_set_butlastD)
  have "length stacked \<le> 32"
    using place_arguments_length [OF parts(1)] ir_present_props(1) [of "ir_args src"]
    by (simp add: call_args_def)
  then have "CODEGEN_BYTES_PER_PUSH * int (length stacked) + call_padding src \<le> ULLONG_MAX"
    "call_padding src \<le> ULLONG_MAX"
    by (auto simp: CODEGEN_BYTES_PER_PUSH_def ULLONG_MAX_def call_padding_def)
  moreover have "list_all lowerable moves" "list_all lowerable pushes"
    using place_arguments_lowerable [OF parts(1) fit] push_arguments_lowerable [OF parts(2)] by auto
  ultimately show ?thesis
    using call_result_fine [OF parts(3) assms(2)] modify_rsp_lowerable
    by (auto simp: os reserve_def release_def ins_op2 lowerable_op2 extends_def)
qed

lemma fp_lowerable:
  assumes "codegen_statement_fp src = Inr os" "list_all val_fits (ir_args src)"
  shows "list_all lowerable os"
proof -
  note fine = map_arg_fine [OF assms(2)]
  have arith: "list_all lowerable os" if "codegen_statement_fp_arithmetic_op src = Inr os" for os
    using that fine copy_to_result_lowerable [OF _ assms(2)]
    by (auto simp: codegen_statement_fp_arithmetic_op_def select_simps)
  have cmp: "list_all lowerable os" if "codegen_statement_fp_cmp_op src = Inr os" for os
    using that fine
    by (auto simp: codegen_statement_fp_cmp_op_def fp_cmp_set_ops_def select_simps
        split: ir_opcode.splits)
  have to_u: "list_all lowerable os" if "fp_convert_to_unsigned src = Inr os" for os
    using that fine by (auto simp: fp_convert_to_unsigned_def select_simps ULLONG_MAX_def)
  have signed: "list_all lowerable os" if "fp_convert_signed src = Inr os" for os
    using that fine
    by (auto simp: fp_convert_signed_def codegen_map_operands_all_def Let_def select_simps
        intro!: lowerable_extend split: if_splits)
  have from_u: "list_all lowerable os" if "fp_convert_from_unsigned src = Inr os" for os
  proof -
    have "word_type a = ASM_WORD_08BIT"
      if "ctype_is_charlike (val_type v)" "codegen_map_operand v = Inr a" for v a
      using that by (cases "val_type v") (auto simp: codegen_map_operand_def check_iff
          codegen_map_ctype_def ctype_is_array_def split: if_splits)
    with that fine show ?thesis
      by (auto simp: fp_convert_from_unsigned_def Let_def select_simps
          intro!: lowerable_extend split: if_splits)
  qed
  from assms(1) fine show ?thesis
    unfolding codegen_statement_fp_def Let_def
    by (auto simp: select_simps dest: arith cmp to_u signed from_u split: if_splits)
qed

lemma extend_lowerable:
  assumes "statement_extend src = Inr os" "list_all val_fits (ir_args src)"
  shows "list_all lowerable os"
  using assms(1) map_arg_fine [OF assms(2)]
  by (auto simp: statement_extend_def codegen_map_operands_all_def check_iff ins_op2
      intro!: lowerable_extend) (auto simp: extends_def)

lemma common_lowerable:
  assumes "codegen_statement_common src = Inr os" "list_all val_fits (ir_args src)"
    and "ir_opcode src = IR_OP_LABEL \<Longrightarrow> subtype (ir_arg src 0) = IR_VAL_JUMP_TARGET_LABEL"
  shows "list_all lowerable os"
proof -
  note fine = map_arg_fine [OF assms(2)]
  have trunc: "list_all lowerable os" if "statement_truncate src = Inr os" for os
    using that fine by (auto simp: statement_truncate_def codegen_map_operands_all_def select_simps)
  have load: "list_all lowerable os" if "statement_load src = Inr os" for os
    using that fine by (auto simp: statement_load_def select_simps setter_fine)
  have store: "list_all lowerable os" if "statement_store src = Inr os" for os
    using that fine by (auto simp: statement_store_def select_simps setter_fine)
  have label: "lowerable (op2 ASM_OP_LABEL a zero_operand)"
    if "ir_opcode src = IR_OP_LABEL" "codegen_map_operand (ir_arg src 0) = Inr a" for a
    using map_operand_fine [OF that(2) val_fits_arg [OF assms(2)]] assms(3) that(1)
    by (intro lowerable_label) auto
  show ?thesis
    using assms(1) fine label
    unfolding codegen_statement_common_def Let_def
    by (cases "ir_opcode src")
      (auto simp: select_simps codegen_map_operands_all_def setter_fine
        dest: unary_lowerable [OF _ assms(2)] binary_lowerable [OF _ assms(2)]
          div_rem_lowerable [OF _ assms(2)] cmp_lowerable [OF _ assms(2)]
          ptr_add_lowerable [OF _ assms(2)] call_lowerable [OF _ assms(2)]
          extend_lowerable [OF _ assms(2)] trunc load store split: if_splits)
qed

lemma select_one_lowerable:
  assumes "codegen_statement_one src = Inr os" "list_all val_fits (ir_args src)"
    and "ir_opcode src = IR_OP_LABEL \<Longrightarrow> subtype (ir_arg src 0) = IR_VAL_JUMP_TARGET_LABEL"
  shows "list_all lowerable os"
  using assms fp_lowerable [OF _ assms(2)] common_lowerable [OF _ assms(2,3)]
  by (auto simp: codegen_statement_one_def check_iff split: if_splits)

end
