(* ===== verification/SelectTotal.thy ===== *)
theory SelectTotal
  imports SelectFacts
begin

text \<open>
  Instruction selection on well-formed operations: what the operation needs, so that no
  assertion of the selection fails.
\<close>

definition fp_val :: "ir_val \<Rightarrow> bool" where
  "fp_val v = ctype_is_floating_point (val_type v)"

definition divisible :: "ctype \<Rightarrow> bool" where
  "divisible c =
     (case c of CTYPE_INT _ \<Rightarrow> True | CTYPE_UNSIGNED_INT _ \<Rightarrow> True | CTYPE_LONG _ \<Rightarrow> True
      | CTYPE_UNSIGNED_LONG _ \<Rightarrow> True | _ \<Rightarrow> False)"

definition convertible_unsigned :: "ctype \<Rightarrow> bool" where
  "convertible_unsigned c =
     (case c of CTYPE_UNSIGNED_CHAR _ \<Rightarrow> True | CTYPE_UNSIGNED_INT _ \<Rightarrow> True
      | CTYPE_UNSIGNED_LONG _ \<Rightarrow> True | _ \<Rightarrow> False)"

text \<open>An argument of a call: a value whose size is known.\<close>

definition argument_ok :: "ir_val \<Rightarrow> bool" where
  "argument_ok v = (val_ok v \<and> ctype_sizes_ok (val_type v))"

definition call_ok :: "ir_op \<Rightarrow> bool" where
  "call_ok op =
     (let present = ir_present (ir_args op) in
      ir_fun op \<noteq> None \<and> ir_fun op \<noteq> Some [] \<and> present \<noteq> [] \<and>
      list_all argument_ok (butlast present) \<and>
      (subtype (last present) = IR_VAL_DUMMY \<or> val_ok (last present)))"

definition division_ok :: "ir_op \<Rightarrow> bool" where
  "division_ok op =
     (divisible (val_type (ir_arg op 0)) \<and>
      ctype_is_equal (val_type (ir_arg op 0)) (val_type (ir_arg op 1)))"

definition ir_op_ok :: "ir_op \<Rightarrow> bool" where
  "ir_op_ok op =
     (let v = ir_arg op; ok = (\<lambda>n. list_all (\<lambda>i. val_ok (v i)) [0..<n]) in
      case ir_opcode op of
        IR_OP_RET \<Rightarrow> subtype (v 0) = IR_VAL_DUMMY \<or> val_ok (v 0)
      | IR_OP_UNARY_COMPLEMENT \<Rightarrow> ok 2
      | IR_OP_UNARY_NEGATE \<Rightarrow> ok 2
      | IR_OP_UNARY_NOT \<Rightarrow> ok 2
      | IR_OP_UNARY_DECREMENT \<Rightarrow> ok 1 \<and> in_place_update op 1
      | IR_OP_UNARY_INCREMENT \<Rightarrow> ok 1 \<and> in_place_update op 1
      | IR_OP_BINARY_DIVIDE \<Rightarrow> ok 3 \<and> (fp_val (v 0) \<or> fp_val (v 1) \<or> division_ok op)
      | IR_OP_BINARY_REMAINDER \<Rightarrow> ok 3 \<and> division_ok op
      | IR_OP_COPY \<Rightarrow> ok 2
      | IR_OP_CTYPE_SIGN_EXTEND \<Rightarrow> ok 2 \<and> val_word (v 0) < val_word (v 1)
      | IR_OP_CTYPE_ZERO_EXTEND \<Rightarrow> ok 2 \<and> val_word (v 0) < val_word (v 1)
      | IR_OP_CTYPE_TRUNCATE \<Rightarrow> ok 2 \<and> val_word (v 1) < val_word (v 0)
      | IR_OP_CTYPE_DOUBLE_TO_INT \<Rightarrow> ok 2 \<and> fp_val (v 0)
      | IR_OP_CTYPE_DOUBLE_TO_UINT \<Rightarrow> ok 2 \<and> fp_val (v 0)
      | IR_OP_CTYPE_INT_TO_DOUBLE \<Rightarrow> ok 2 \<and> fp_val (v 1)
      | IR_OP_CTYPE_UINT_TO_DOUBLE \<Rightarrow> ok 2 \<and> fp_val (v 1) \<and> convertible_unsigned (val_type (v 0))
      | IR_OP_GET_ADDRESS \<Rightarrow> ok 2 \<and> val_word (v 1) = ASM_WORD_64BIT
      | IR_OP_LOAD \<Rightarrow> ok 2
      | IR_OP_STORE \<Rightarrow> ok 2 \<and> val_word (v 1) = ASM_WORD_64BIT
      | IR_OP_POINTER_ADD \<Rightarrow> ok 4 \<and> subtype (v 2) = IR_VAL_CONSTANT
      | IR_OP_JUMP \<Rightarrow> ok 1
      | IR_OP_JUMP_IF_ZERO \<Rightarrow> ok 2
      | IR_OP_JUMP_IF_NOT_ZERO \<Rightarrow> ok 2
      | IR_OP_LABEL \<Rightarrow> ok 1 \<and> subtype (v 0) = IR_VAL_JUMP_TARGET_LABEL
      | IR_OP_CALL \<Rightarrow> call_ok op
      | _ \<Rightarrow> ok 3)"

lemma word_less_64: "(v :: asm_word) < w \<Longrightarrow> v \<noteq> ASM_WORD_64BIT"
  by (cases v) simp_all

lemma map_ok: "val_ok v \<Longrightarrow> \<exists>a. codegen_map_operand v = Inr a \<and> word_type a = val_word v"
  by (blast elim: map_operand_ok)

lemma ok_upto:
  "list_all P [0..<1] \<longleftrightarrow> P 0" "list_all P [0..<2] \<longleftrightarrow> P 0 \<and> P 1"
  "list_all P [0..<3] \<longleftrightarrow> P 0 \<and> P 1 \<and> P (2::nat)"
  "list_all P [0..<4] \<longleftrightarrow> P 0 \<and> P 1 \<and> P 2 \<and> P (3::nat)"
  by (simp_all add: upt_rec numeral_2_eq_2 numeral_3_eq_3)

lemma divisible_widen: "divisible c \<Longrightarrow> \<exists>op. widen_dividend c = Inr op"
  by (cases c) (simp_all add: divisible_def widen_dividend_def)

lemma div_rem_ok:
  assumes "val_ok (ir_arg op 0)" "val_ok (ir_arg op 1)" "val_ok (ir_arg op 2)" "division_ok op"
    and "ir_opcode op \<in> {IR_OP_BINARY_DIVIDE, IR_OP_BINARY_REMAINDER}"
  shows "\<exists>os. codegen_statement_div_rem op = Inr os"
  using assms(4,5) map_ok [OF assms(1)] map_ok [OF assms(2)] map_ok [OF assms(3)] eax_ok [OF assms(1)]
    register_ok [OF assms(1), of ASM_REGISTER_DX] divisible_widen [of "val_type (ir_arg op 0)"]
  by (auto simp: codegen_statement_div_rem_def division_ok_def)

lemma place_arguments_ok:
  assumes "list_all argument_ok vs"
  shows "\<exists>os st. place_arguments g d vs = Inr (os, st) \<and> list_all argument_ok st"
  using assms
proof (induction vs arbitrary: g d)
  case (Cons v vs)
  obtain a where a: "codegen_map_operand v = Inr a" using Cons.prems map_ok by (auto simp: argument_ok_def)
  show ?case
  proof (cases "argument_register g d v")
    case None
    from Cons obtain os st where "place_arguments g d vs = Inr (os, st)" "list_all argument_ok st"
      by fastforce
    with None Cons.prems show ?thesis by simp
  next
    case (Some r)
    then obtain w where "codegen_set_operand_register v r = Inr (reg_operand w r)"
      using Cons.prems register_ok by (fastforce simp: argument_ok_def)
    moreover have "\<exists>os st. (if ctype_is_floating_point (val_type v)
        then place_arguments g (d + 1) vs else place_arguments (g + 1) d vs) = Inr (os, st) \<and>
        list_all argument_ok st"
      using Cons by simp
    then obtain os st where "(if ctype_is_floating_point (val_type v)
        then place_arguments g (d + 1) vs else place_arguments (g + 1) d vs) = Inr (os, st)"
      "list_all argument_ok st" by blast
    ultimately show ?thesis using Some a by simp
  qed
qed simp

lemma push_arguments_ok:
  assumes "list_all argument_ok vs"
  shows "\<exists>os. push_arguments vs = Inr os"
  using assms
proof (induction vs)
  case (Cons v vs)
  then have "argument_ok v" by simp
  then have "\<exists>os. push_argument v = Inr os"
    using map_ok [of v] eax_ok [of v]
    by (auto simp: push_argument_def argument_ok_def size_bytes_word)
  with Cons show ?case by auto
qed simp

lemma present_arg:
  "ir_present (ir_args op) \<noteq> [] \<Longrightarrow>
     ir_arg op (length (call_args op)) = last (ir_present (ir_args op))"
proof -
  assume ne: "ir_present (ir_args op) \<noteq> []"
  let ?ts = "take FUNCTION_PARAMETER_LIMIT (ir_args op)"
  let ?n = "length (ir_present (ir_args op)) - 1"
  have n: "?n < length (ir_present (ir_args op))" using ne by (cases "ir_present (ir_args op)") auto
  then have "ir_present (ir_args op) ! ?n = ?ts ! ?n"
    unfolding ir_present_def by (rule takeWhile_nth)
  moreover have "?n < length ?ts"
    using n unfolding ir_present_def by (rule less_le_trans [OF _ length_takeWhile_le])
  ultimately show ?thesis
    using ne by (simp add: ir_arg_def call_args_def last_conv_nth)
qed

lemma call_total:
  assumes "ir_opcode op = IR_OP_CALL" "call_ok op"
  shows "\<exists>os. codegen_op_call op = Inr os"
proof -
  let ?last = "last (ir_present (ir_args op))"
  obtain moves st where p: "place_arguments 0 0 (call_args op) = Inr (moves, st)" "list_all argument_ok st"
    using assms(2) place_arguments_ok [of "call_args op" 0 0] by (auto simp: call_ok_def Let_def call_args_def)
  have ne: "ir_present (ir_args op) \<noteq> []" using assms(2) by (simp add: call_ok_def Let_def)
  have "subtype ?last \<noteq> IR_VAL_NONE" using ir_present_props(3) ne last_in_set by blast
  then have "\<exists>os. call_result op = Inr os"
    using assms(2) present_arg [OF ne] map_ok [of ?last] eax_ok [of ?last]
    by (auto simp: call_result_def Let_def is_return_value_void_def call_ok_def)
  then show ?thesis
    using assms p push_arguments_ok [OF p(2)]
    by (auto simp: codegen_op_call_def call_ok_def Let_def split: option.split)
qed

lemma convert_signed_ok:
  assumes "val_ok (ir_arg op 0)" "val_ok (ir_arg op 1)"
    and "ir_opcode op = IR_OP_CTYPE_DOUBLE_TO_INT \<and> fp_val (ir_arg op 0) \<or>
      ir_opcode op = IR_OP_CTYPE_INT_TO_DOUBLE \<and> fp_val (ir_arg op 1)"
  shows "\<exists>os. fp_convert_signed op = Inr os"
proof -
  have char: "word_type a = ASM_WORD_08BIT"
    if "ctype_is_charlike (val_type v)" "codegen_map_operand v = Inr a" for v a
    using that by (cases "val_type v") (auto simp: codegen_map_operand_def check_iff
        codegen_map_ctype_def ctype_is_array_def split: if_splits)
  have "\<not> ctype_is_charlike (val_type v)" if "fp_val v" for v
    using that by (cases "val_type v") (simp_all add: fp_val_def ctype_is_floating_point_def)
  with assms(3) map_ok [OF assms(1)] map_ok [OF assms(2)] char show ?thesis
    by (auto simp: fp_convert_signed_def codegen_map_operands_all_def Let_def)
qed

lemma from_unsigned_ok:
  assumes "val_ok (ir_arg op 0)" "val_ok (ir_arg op 1)" "convertible_unsigned (val_type (ir_arg op 0))"
  shows "\<exists>os. fp_convert_from_unsigned op = Inr os"
  using map_ok [OF assms(1)] map_ok [OF assms(2)] assms(3)
  by (cases "val_type (ir_arg op 0)")
    (auto simp: fp_convert_from_unsigned_def convertible_unsigned_def Let_def)

lemma check_ok:
  "\<exists>x. m = Inr x \<Longrightarrow> (\<And>x. m = Inr x \<Longrightarrow> \<exists>y. k x = Inr y) \<Longrightarrow> \<exists>y. check m k = Inr y"
  by auto

lemma map_total: "val_ok v \<Longrightarrow> \<exists>a. codegen_map_operand v = Inr a"
  using map_ok by blast

section \<open>Every well-formed operation is selected\<close>

lemma common_total:
  assumes "ir_op_ok op" "\<not> fp_val (ir_arg op 0) \<and> \<not> fp_val (ir_arg op 1) \<or> codegen_statement_fp op = Inr []"
  shows "\<exists>os. codegen_statement_common op = Inr os"
proof -
  have unary: "\<exists>os. codegen_statement_unary_op op = Inr os"
    if "ir_opcode op \<in> {IR_OP_UNARY_NEGATE, IR_OP_UNARY_COMPLEMENT, IR_OP_UNARY_NOT}"
      "val_ok (ir_arg op 0)" "val_ok (ir_arg op 1)"
    using that map_ok [OF that(2)] map_ok [OF that(3)]
    by (auto simp: codegen_statement_unary_op_def codegen_map_operands_all_def)
  have inc: "\<exists>os. codegen_statement_unary_op op = Inr os"
    if "ir_opcode op \<in> {IR_OP_UNARY_DECREMENT, IR_OP_UNARY_INCREMENT}"
      "val_ok (ir_arg op 0)" "in_place_update op 1"
    using that map_ok [OF that(2)] by (auto simp: codegen_statement_unary_op_def)
  have cmp: "\<exists>os. codegen_statement_cmp_op op = Inr os"
    if "cmp_set_op (ir_opcode op) True \<noteq> None" "val_ok (ir_arg op 0)" "val_ok (ir_arg op 1)" "val_ok (ir_arg op 2)"
    using map_ok [OF that(2)] map_ok [OF that(3)] map_ok [OF that(4)] that(1)
    by (auto simp: codegen_statement_cmp_op_def cmp_set_op_def split: ir_opcode.splits)
  have binary: "\<exists>os. codegen_statement_binary_op op = Inr os"
    if "binary_opcode (ir_opcode op) True \<noteq> None" "val_ok (ir_arg op 0)" "val_ok (ir_arg op 1)" "val_ok (ir_arg op 2)"
    using map_ok [OF that(2)] map_ok [OF that(3)] map_ok [OF that(4)] that(1)
    by (auto simp: codegen_statement_binary_op_def binary_opcode_def copy_to_result_def
        split: ir_opcode.splits)
  have ptr: "\<exists>os. codegen_statement_ptr_add_op op = Inr os"
    if "ir_opcode op = IR_OP_POINTER_ADD" "val_ok (ir_arg op 0)" "val_ok (ir_arg op 1)" "val_ok (ir_arg op 2)"
      "val_ok (ir_arg op 3)" "subtype (ir_arg op 2) = IR_VAL_CONSTANT"
    using map_ok [OF that(2)] map_ok [OF that(3)] map_ok [OF that(4)] map_ok [OF that(5)] that(1,6)
      indexed_ok [OF that(2), of "if val_num (ir_arg op 2) \<in> {1, 2, 4, 8} then val_num (ir_arg op 2) else 1"]
    by (auto simp: codegen_statement_ptr_add_op_def Let_def split: if_splits)
  have ext: "\<exists>os. statement_extend op = Inr os"
    if "val_ok (ir_arg op 0)" "val_ok (ir_arg op 1)" "val_word (ir_arg op 0) < val_word (ir_arg op 1)"
    using map_ok [OF that(1)] map_ok [OF that(2)] that(3)
    word_less_64 [OF that(3)]
    by (auto simp: statement_extend_def codegen_map_operands_all_def)
  have trunc: "\<exists>os. statement_truncate op = Inr os"
    if "val_ok (ir_arg op 0)" "val_ok (ir_arg op 1)" "val_word (ir_arg op 1) < val_word (ir_arg op 0)"
    using map_ok [OF that(1)] map_ok [OF that(2)] that(3)
    word_less_64 [OF that(3)]
    by (auto simp: statement_truncate_def codegen_map_operands_all_def)
  have load: "\<exists>os. statement_load op = Inr os" if "val_ok (ir_arg op 0)" "val_ok (ir_arg op 1)"
    using map_ok [OF that(1)] map_ok [OF that(2)] eax_ok [OF that(1)]
      memory_ok [OF that(1), of ASM_REGISTER_AX 0]
    by (auto simp: statement_load_def)
  have store: "\<exists>os. statement_store op = Inr os"
    if "val_ok (ir_arg op 0)" "val_ok (ir_arg op 1)" "val_word (ir_arg op 1) = ASM_WORD_64BIT"
    using map_ok [OF that(1)] map_ok [OF that(2)] eax_ok [OF that(2)]
      memory_ok [OF that(1), of ASM_REGISTER_AX 0] that(3)
    by (auto simp: statement_store_def)
  have pair: "\<exists>a b. codegen_map_operands_all op = Inr (a, b) \<and> word_type b = val_word (ir_arg op 1)"
    if "val_ok (ir_arg op 0)" "val_ok (ir_arg op 1)"
    using map_ok [OF that(1)] map_ok [OF that(2)] by (auto simp: codegen_map_operands_all_def)
  have none: "fp_val (ir_arg op i) \<Longrightarrow> i \<in> {0, 1} \<Longrightarrow> codegen_statement_fp op = Inr []" for i
    using assms(2) by auto
  note ok = assms(1) [unfolded ir_op_ok_def Let_def]
  show ?thesis
  proof (cases "ir_opcode op")
    case IR_OP_RET
    then show ?thesis
      using ok map_ok [of "ir_arg op 0"] eax_ok [of "ir_arg op 0"]
      by (auto simp: codegen_statement_common_def is_return_value_void_def val_ok_def)
  next
    case IR_OP_BINARY_DIVIDE
    then have "codegen_statement_fp op \<noteq> Inr []"
      by (auto simp: codegen_statement_fp_def codegen_statement_fp_arithmetic_op_def Let_def check_iff)
    then show ?thesis
      using ok IR_OP_BINARY_DIVIDE none [of 0] none [of 1] div_rem_ok [of op]
      by (auto simp: codegen_statement_common_def ok_upto)
  next
    case IR_OP_BINARY_REMAINDER
    then show ?thesis
      using ok div_rem_ok [of op] by (simp add: codegen_statement_common_def ok_upto)
  next
    case IR_OP_CALL
    then show ?thesis using ok call_total [of op] by (simp add: codegen_statement_common_def)
  next
    case IR_OP_CTYPE_DOUBLE_TO_INT
    then have "codegen_statement_fp op = Inr []" "val_ok (ir_arg op 0)" "val_ok (ir_arg op 1)"
      using ok none [of 0] by (auto simp: ok_upto)
    then show ?thesis
      using IR_OP_CTYPE_DOUBLE_TO_INT
      by (auto simp: codegen_statement_fp_def fp_convert_signed_def Let_def check_iff assert_that_def
          split: if_splits)
  next
    case IR_OP_CTYPE_DOUBLE_TO_UINT
    then have "codegen_statement_fp op = Inr []"
      using ok none [of 0] by (auto simp: ok_upto)
    then show ?thesis
      using IR_OP_CTYPE_DOUBLE_TO_UINT
      by (auto simp: codegen_statement_fp_def fp_convert_to_unsigned_def Let_def check_iff)
  next
    case IR_OP_CTYPE_INT_TO_DOUBLE
    then have "codegen_statement_fp op = Inr []"
      using ok none [of 1] by (auto simp: ok_upto)
    then show ?thesis
      using IR_OP_CTYPE_INT_TO_DOUBLE
      by (auto simp: codegen_statement_fp_def fp_convert_signed_def Let_def check_iff assert_that_def
          split: if_splits)
  next
    case IR_OP_CTYPE_UINT_TO_DOUBLE
    then have "codegen_statement_fp op = Inr []"
      using ok none [of 1] by (auto simp: ok_upto)
    then show ?thesis
      using IR_OP_CTYPE_UINT_TO_DOUBLE
      by (auto simp: codegen_statement_fp_def fp_convert_from_unsigned_def Let_def check_iff
          assert_that_def split: if_splits)
  qed (use ok in \<open>auto simp: codegen_statement_common_def ok_upto cmp_set_op_def binary_opcode_def
      intro!: check_ok map_total intro: load store trunc ext ptr unary inc cmp binary dest: pair\<close>)
qed

lemma fp_total:
  assumes "ir_op_ok op" "fp_val (ir_arg op 0) \<or> fp_val (ir_arg op 1)"
  shows "\<exists>os. codegen_statement_fp op = Inr os"
proof -
  note ok = assms(1) [unfolded ir_op_ok_def Let_def]
  have three: "\<exists>a b r. codegen_map_operand (ir_arg op 0) = Inr a \<and> codegen_map_operand (ir_arg op 1) = Inr b \<and>
      codegen_map_operand (ir_arg op 2) = Inr r"
    if "val_ok (ir_arg op 0)" "val_ok (ir_arg op 1)" "val_ok (ir_arg op 2)"
    using that map_ok by blast
  have arith: "\<exists>os. codegen_statement_fp_arithmetic_op op = Inr os"
    if "ir_opcode op \<in> {IR_OP_BINARY_ADD, IR_OP_BINARY_SUBTRACT, IR_OP_BINARY_MULTIPLY, IR_OP_BINARY_DIVIDE}"
      "val_ok (ir_arg op 0)" "val_ok (ir_arg op 1)" "val_ok (ir_arg op 2)"
    using three [OF that(2-4)] that(1)
    by (auto simp: codegen_statement_fp_arithmetic_op_def copy_to_result_def)
  have cmp: "\<exists>os. codegen_statement_fp_cmp_op op = Inr os"
    if "fp_cmp_set_ops (ir_opcode op) \<noteq> None"
      "val_ok (ir_arg op 0)" "val_ok (ir_arg op 1)" "val_ok (ir_arg op 2)"
    using three [OF that(2-4)] that(1) by (auto simp: codegen_statement_fp_cmp_op_def)
  have to_u: "\<exists>os. fp_convert_to_unsigned op = Inr os" if "val_ok (ir_arg op 0)" "val_ok (ir_arg op 1)"
    using map_ok [OF that(1)] map_ok [OF that(2)] by (auto simp: fp_convert_to_unsigned_def)
  show ?thesis
    using ok convert_signed_ok [of op] from_unsigned_ok [of op] assms(2)
    by (cases "ir_opcode op")
      (auto simp: codegen_statement_fp_def Let_def ok_upto is_return_value_void_def fp_cmp_set_ops_def
        val_ok_def [of "ir_arg op 0"] intro!: check_ok map_total arith cmp to_u)
qed

lemma select_one_ok: "ir_op_ok op \<Longrightarrow> \<exists>os. codegen_statement_one op = Inr os"
proof (cases "fp_val (ir_arg op 0) \<or> fp_val (ir_arg op 1)")
  case True
  assume ok: "ir_op_ok op"
  obtain os where os: "codegen_statement_fp op = Inr os" using fp_total [OF ok True] by blast
  then show ?thesis
    using common_total [OF ok] True by (cases "os = []") (auto simp: codegen_statement_one_def fp_val_def)
next
  case False
  assume "ir_op_ok op"
  from common_total [OF this] False show ?thesis by (auto simp: codegen_statement_one_def fp_val_def)
qed

end
