(* ===== verification/Convention.thy ===== *)
theory Convention
  imports SelectTotal Machine
begin

text \<open>
  The calling convention: where a call puts its arguments, where a function looks for its
  parameters, and what a call does to the stack pointer.
\<close>

section \<open>Places of arguments\<close>

datatype arg_place = In_register asm_register | On_stack nat

text \<open>
  The System V convention: the first eight floating point arguments and the first six others
  go into registers, in order; the rest goes to the stack. \<open>f\<close> and \<open>g\<close> arguments of the two
  kinds come before the list.
\<close>

definition place_of :: "nat \<Rightarrow> nat \<Rightarrow> ctype \<Rightarrow> arg_place" where
  "place_of g f c =
     (if ctype_is_floating_point c \<and> f < 8 then In_register (CALL_FP ! f)
      else if \<not> ctype_is_floating_point c \<and> g < 6 then In_register (CALL_REG ! g)
      else On_stack ((f - 8) + (g - 6)))"

definition arg_place_from :: "nat \<Rightarrow> nat \<Rightarrow> ctype list \<Rightarrow> nat \<Rightarrow> arg_place" where
  "arg_place_from g f cs i =
     place_of (g + length (filter (\<lambda>c. \<not> ctype_is_floating_point c) (take i cs)))
       (f + length (filter ctype_is_floating_point (take i cs))) (cs ! i)"

definition arg_place :: "ctype list \<Rightarrow> nat \<Rightarrow> arg_place" where
  "arg_place cs i = arg_place_from 0 0 cs i"

lemma arg_place_from_simps [simp]:
  "arg_place_from g f (c # cs) 0 = place_of g f c"
  "arg_place_from g f (c # cs) (Suc i) =
     (if ctype_is_floating_point c then arg_place_from g (Suc f) cs i
      else arg_place_from (Suc g) f cs i)"
  by (simp_all add: arg_place_from_def)

lemma arg_place_range:
  "case arg_place_from g f cs i of
     In_register r \<Rightarrow> (\<exists>m. f \<le> m \<and> m < 8 \<and> r = CALL_FP ! m) \<or> (\<exists>m. g \<le> m \<and> m < 6 \<and> r = CALL_REG ! m)
   | On_stack k \<Rightarrow> (f - 8) + (g - 6) \<le> k"
proof -
  let ?f = "f + length (filter ctype_is_floating_point (take i cs))"
  let ?g = "g + length (filter (\<lambda>c. \<not> ctype_is_floating_point c) (take i cs))"
  have le: "(f - 8) + (g - 6) \<le> (?f - 8) + (?g - 6)" "f \<le> ?f" "g \<le> ?g" by auto
  show ?thesis
  proof (cases "arg_place_from g f cs i")
    case (In_register r)
    then show ?thesis 
      by (auto simp: arg_place_from_def place_of_def split: if_splits) (metis le_add1)+
  next
    case (On_stack k)
    then have "k = (?f - 8) + (?g - 6)"
      by (simp add: arg_place_from_def place_of_def split: if_splits)
    then show ?thesis using On_stack le(1) by simp
  qed
qed

lemma call_registers_distinct:
  "m < 8 \<Longrightarrow> n < 8 \<Longrightarrow> CALL_FP ! m = CALL_FP ! n \<longleftrightarrow> m = n"
  "m < 6 \<Longrightarrow> n < 6 \<Longrightarrow> CALL_REG ! m = CALL_REG ! n \<longleftrightarrow> m = n"
  "m < 8 \<Longrightarrow> n < 6 \<Longrightarrow> CALL_FP ! m \<noteq> CALL_REG ! n"
proof -
  have d: "distinct (CALL_FP @ CALL_REG)" by (simp add: CALL_FP_def CALL_REG_def)
  have l: "length CALL_FP = 8" "length CALL_REG = 6" by (simp_all add: CALL_FP_def CALL_REG_def)
  show "m < 8 \<Longrightarrow> n < 8 \<Longrightarrow> CALL_FP ! m = CALL_FP ! n \<longleftrightarrow> m = n"
    "m < 6 \<Longrightarrow> n < 6 \<Longrightarrow> CALL_REG ! m = CALL_REG ! n \<longleftrightarrow> m = n"
    using d l by (simp_all add: nth_eq_iff_index_eq)
  show "m < 8 \<Longrightarrow> n < 6 \<Longrightarrow> CALL_FP ! m \<noteq> CALL_REG ! n"
    using d l by (metis distinct_append disjoint_iff nth_mem)
qed

lemma arg_place_from_differ:
  "i < j \<Longrightarrow> j < length cs \<Longrightarrow> arg_place_from g f cs i \<noteq> arg_place_from g f cs j"
proof (induction cs arbitrary: g f i j)
  case (Cons c cs)
  obtain j' where j: "j = Suc j'" using Cons.prems by (cases j) auto
  show ?case
  proof (cases i)
    case 0
    have "arg_place_from g (Suc f) cs j' \<noteq> arg_place_from g f (c # cs) 0"
      if "ctype_is_floating_point c"
      using that arg_place_range [where g = g and f = "Suc f" and cs = cs and i = j']
        call_registers_distinct
      by (auto simp: place_of_def split: arg_place.splits if_splits)
    moreover have "arg_place_from (Suc g) f cs j' \<noteq> arg_place_from g f (c # cs) 0"
      if "\<not> ctype_is_floating_point c"
      using that arg_place_range [where g = "Suc g" and f = f and cs = cs and i = j']
        call_registers_distinct call_registers_distinct(3) [THEN not_sym]
      by (auto simp: place_of_def split: arg_place.splits if_splits)
    ultimately show ?thesis using 0 j by (metis arg_place_from_simps(2))
  next
    case (Suc i')
    then show ?thesis using Cons.IH [of i' j'] Cons.prems j by simp
  qed
qed simp

lemma arg_place_inj: "inj_on (arg_place cs) {..<length cs}"
  unfolding arg_place_def
proof (rule inj_onI)
  fix i j assume "i \<in> {..<length cs}" "j \<in> {..<length cs}" "arg_place_from 0 0 cs i = arg_place_from 0 0 cs j"
  then show "i = j" using arg_place_from_differ [of i j cs] arg_place_from_differ [of j i cs]
    by (metis lessThan_iff linorder_neqE_nat)
qed

section \<open>The caller\<close>

lemma register_args [simp]: "CODEGEN_REGISTER_ARGS = 6" "CODEGEN_FP_REGISTER_ARGS = 8"
  by (simp_all add: CODEGEN_REGISTER_ARGS_def CODEGEN_FP_REGISTER_ARGS_def CALL_REG_def CALL_FP_def)

definition caller_puts :: "asm_op list \<Rightarrow> ir_val list \<Rightarrow> nat \<Rightarrow> ir_val \<Rightarrow> arg_place \<Rightarrow> bool" where
  "caller_puts moves stacked base v p =
     (case p of
        In_register r \<Rightarrow>
          (\<exists>a w. codegen_map_operand v = Inr a \<and> codegen_map_ctype v = Inr w \<and>
             ins (IntOp ASM_OP_MOV) a (reg_operand w r) \<in> set moves)
      | On_stack k \<Rightarrow> base \<le> k \<and> k - base < length stacked \<and> stacked ! (k - base) = v)"

lemma caller_puts_Cons:
  "caller_puts moves stacked base v p \<Longrightarrow> caller_puts (m # moves) stacked base v p"
  by (auto simp: caller_puts_def split: arg_place.splits)

lemma caller_puts_stack:
  "caller_puts moves stacked (Suc base) v p \<Longrightarrow> caller_puts moves (u # stacked) base v p"
  by (auto simp: caller_puts_def Suc_diff_le nth_Cons' split: arg_place.splits)

lemma place_arguments_places:
  assumes "place_arguments (min g 6) (min f 8) vs = Inr (moves, stacked)" "i < length vs"
  shows "caller_puts moves stacked ((f - 8) + (g - 6)) (vs ! i) (arg_place_from g f (map val_type vs) i)"
  using assms
proof (induction vs arbitrary: g f moves stacked i)
  case (Cons v vs)
  let ?fp = "ctype_is_floating_point (val_type v)"
  have mins: "\<And>n m. n < m \<Longrightarrow> Suc n = min (Suc n) m" "\<And>n m. \<not> n < m \<Longrightarrow> min n m = min (Suc n) (m::nat)"
    by simp_all
  show ?case
  proof (cases "argument_register (min g 6) (min f 8) v")
    case (Some r)
    then have room: "if ?fp then f < 8 \<and> r = CALL_FP ! f else g < 6 \<and> r = CALL_REG ! g"
      by (auto simp: argument_register_def Let_def split: if_splits)
    obtain a w moves' where m: "codegen_map_operand v = Inr a" "codegen_map_ctype v = Inr w"
      "moves = ins (IntOp ASM_OP_MOV) a (reg_operand w r) # moves'"
      "(if ?fp then place_arguments (min g 6) (min (Suc f) 8) vs
        else place_arguments (min (Suc g) 6) (min f 8) vs) = Inr (moves', stacked)"
      using Some Cons.prems(1) room mins(1)
      by (auto simp: check_iff codegen_set_operand_register_def split: if_splits)
    show ?thesis
    proof (cases i)
      case 0
      then show ?thesis using m room by (auto simp: caller_puts_def place_of_def split: if_splits)
    next
      case (Suc i')
      have "caller_puts moves' stacked
          (if ?fp then (Suc f - 8) + (g - 6) else (f - 8) + (Suc g - 6)) (vs ! i')
          (if ?fp then arg_place_from g (Suc f) (map val_type vs) i'
           else arg_place_from (Suc g) f (map val_type vs) i')"
        using m(4) Cons.prems(2) Suc Cons.IH [of g "Suc f" moves' stacked i']
          Cons.IH [of "Suc g" f moves' stacked i'] by (auto split: if_splits)
      then show ?thesis using Suc m(3) room by (auto intro: caller_puts_Cons split: if_splits)
    qed
  next
    case None
    then have room: "if ?fp then 8 \<le> f else 6 \<le> g"
      by (auto simp: argument_register_def Let_def split: if_splits)
    obtain stacked' where m: "stacked = v # stacked'"
      "place_arguments (min g 6) (min f 8) vs = Inr (moves, stacked')"
      using None Cons.prems(1) by (auto simp: check_iff)
    then have rest: "(if ?fp then place_arguments (min g 6) (min (Suc f) 8) vs
        else place_arguments (min (Suc g) 6) (min f 8) vs) = Inr (moves, stacked')"
      using room by (auto simp: min_def split: if_splits)
    show ?thesis
    proof (cases i)
      case 0
      then show ?thesis using m room by (auto simp: caller_puts_def place_of_def split: if_splits)
    next
      case (Suc i')
      have "caller_puts moves stacked' (Suc ((f - 8) + (g - 6))) (vs ! i')
          (if ?fp then arg_place_from g (Suc f) (map val_type vs) i'
           else arg_place_from (Suc g) f (map val_type vs) i')"
      proof (cases ?fp)
        case True
        then have "(Suc f - 8) + (g - 6) = Suc ((f - 8) + (g - 6))" using room by simp
        with True show ?thesis
          using rest Cons.prems(2) Suc Cons.IH [of g "Suc f" moves stacked' i'] by simp
      next
        case False
        then have "(f - 8) + (Suc g - 6) = Suc ((f - 8) + (g - 6))" using room by simp
        with False show ?thesis
          using rest Cons.prems(2) Suc Cons.IH [of "Suc g" f moves stacked' i'] by simp
      qed
      then show ?thesis using Suc m(1) by (auto intro: caller_puts_stack split: if_splits)
    qed
  qed
qed simp

section \<open>The callee\<close>

definition callee_takes :: "ir_val \<Rightarrow> arg_place \<Rightarrow> asm_op" where
  "callee_takes v p =
     (let w = projr (codegen_map_ctype v) in
      ins (IntOp ASM_OP_MOV)
        (case p of
           In_register r \<Rightarrow> reg_operand w r
         | On_stack k \<Rightarrow> \<lparr>word_type = w, operand_type = ASM_OPERAND_MEMORY (16 + 8 * int k) ASM_REGISTER_RBP\<rparr>)
        \<lparr>word_type = w, operand_type = ASM_OPERAND_PSEUDO_REGISTER (val_num v)\<rparr>)"

lemma params_places:
  assumes "function_params_loop g f ((f - 8) + (g - 6)) vs = Inr os"
  shows "length os = length vs \<and>
    (\<forall>i < length vs. os ! i = callee_takes (vs ! i) (arg_place_from g f (map val_type vs) i))"
  using assms
proof (induction vs arbitrary: g f os)
  case (Cons v vs)
  let ?fp = "ctype_is_floating_point (val_type v)"
  let ?in = "if ?fp then f < 8 else g < 6"
  let ?k = "(f - 8) + (g - 6)"
  obtain op os' where os: "os = op # os'"
    and op: "(if ?in then codegen_copy_reg_to_pseudo v (if ?fp then f else g)
       else codegen_copy_stack_to_pseudo v ?k) = Inr op"
    and rest: "function_params_loop (if ?fp then g else Suc g) (if ?fp then Suc f else f)
       (if ?in then ?k else Suc ?k) vs = Inr os'"
    using Cons.prems by (cases ?fp) (auto simp: Let_def check_iff cong: if_cong)
  have "(if ?in then ?k else Suc ?k) = ((if ?fp then Suc f else f) - 8) + ((if ?fp then g else Suc g) - 6)"
    by auto
  then have IH: "length os' = length vs \<and> (\<forall>i < length vs. os' ! i = callee_takes (vs ! i)
      (arg_place_from (if ?fp then g else Suc g) (if ?fp then Suc f else f) (map val_type vs) i))"
    using Cons.IH [where f = "if ?fp then Suc f else f" and g = "if ?fp then g else Suc g" and os = os'] rest
    by simp
  have "op = callee_takes v (arg_place_from g f (map val_type (v # vs)) 0)"
    using op
    by (auto simp: callee_takes_def place_of_def codegen_copy_reg_to_pseudo_def codegen_copy_stack_to_pseudo_def
        codegen_set_operand_register_def codegen_set_operand_pseudo_def codegen_set_operand_stack_def
        codegen_set_operand_memory_def CODEGEN_BYTES_ARG_FIRST_def CODEGEN_BYTES_PER_PUSH_def Let_def
        check_iff split: if_splits)
  then show ?case using IH os by (auto simp: nth_Cons' less_Suc_eq_0_disj split: if_splits)
qed simp

section \<open>The stack pointer\<close>

text \<open>The instructions run to their end and move the stack pointer by \<open>d\<close>.\<close>

definition moves_rsp :: "int \<Rightarrow> asm_op list \<Rightarrow> bool" where
  "moves_rsp d os \<longleftrightarrow>
     (\<forall>i s. \<exists>t. exec_list i os s = Some t \<and>
        regs t ASM_REGISTER_RSP = regs s ASM_REGISTER_RSP + of_int d)"

lemma moves_rsp_Nil [intro]: "moves_rsp 0 []"
  by (simp add: moves_rsp_def)

lemma moves_rsp_append:
  assumes "moves_rsp d xs" "moves_rsp e ys" "d + e = n"
  shows "moves_rsp n (xs @ ys)"
  unfolding moves_rsp_def
proof (intro allI)
  fix i s
  obtain t where t: "exec_list i xs s = Some t" "regs t ASM_REGISTER_RSP = regs s ASM_REGISTER_RSP + of_int d"
    using assms(1) moves_rsp_def by blast
  obtain u where "exec_list i ys t = Some u" "regs u ASM_REGISTER_RSP = regs t ASM_REGISTER_RSP + of_int e"
    using assms(2) moves_rsp_def by blast
  then show "\<exists>t. exec_list i (xs @ ys) s = Some t \<and>
      regs t ASM_REGISTER_RSP = regs s ASM_REGISTER_RSP + of_int n"
    using t assms(3) by (auto simp: exec_list_append add.assoc simp flip: of_int_add)
qed

lemma moves_rsp_Cons: "moves_rsp d [x] \<Longrightarrow> moves_rsp e xs \<Longrightarrow> d + e = n \<Longrightarrow> moves_rsp n (x # xs)"
  using moves_rsp_append [of d "[x]" e xs n] by simp

definition sets_rsp :: "asm_operand \<Rightarrow> bool" where
  "sets_rsp a \<longleftrightarrow> operand_type a = ASM_OPERAND_REGISTER ASM_REGISTER_RSP"

lemma mov_moves_rsp: "\<not> sets_rsp b \<Longrightarrow> moves_rsp 0 [ins (IntOp ASM_OP_MOV) a b]"
  by (cases "operand_type b")
    (simp_all add: moves_rsp_def ins_op2 exec_def exec_int_def write_op_def sets_rsp_def Let_def)

lemma push_moves_rsp: "moves_rsp (- 8) [ins ASM_OP_PUSH a zero_operand]"
  by (simp add: moves_rsp_def ins_op2 exec_def Let_def)

lemma modify_moves_rsp:
  "moves_rsp (- n) [codegen_alloc_subq_rsp n]" "moves_rsp n [codegen_alloc_addq_rsp n]"
  by (simp_all add: moves_rsp_def codegen_alloc_subq_rsp_def codegen_alloc_addq_rsp_def
      codegen_alloc_modify_rsp_def alloc_op2 exec_def exec_int_def OPERAND_RSP_64BIT_def read_op_def
      write_op_def op_width_def set_flags_def Let_def)

lemma reserve_moves_rsp: "0 \<le> n \<Longrightarrow> moves_rsp (- n) (reserve n)" "0 \<le> n \<Longrightarrow> moves_rsp n (release n)"
  using modify_moves_rsp by (auto simp: reserve_def release_def)

lemma register_not_rsp: "r \<in> set (ASM_REGISTER_AX # CALL_FP @ CALL_REG) \<Longrightarrow> \<not> sets_rsp (reg_operand w r)"
  by (auto simp: sets_rsp_def CALL_FP_def CALL_REG_def)

lemma operand_not_rsp: "codegen_map_operand v = Inr a \<Longrightarrow> \<not> sets_rsp a"
  by (auto simp: codegen_map_operand_def operand_kind_of_def constant_operand_def check_iff sets_rsp_def
      split: if_splits ir_val_subtype.splits ctype.splits)

lemma argument_register_in: "argument_register g f v = Some r \<Longrightarrow> r \<in> set (ASM_REGISTER_AX # CALL_FP @ CALL_REG)"
  using nth_mem [of f CALL_FP] nth_mem [of g CALL_REG] register_args
  by (auto simp: argument_register_def CODEGEN_REGISTER_ARGS_def CODEGEN_FP_REGISTER_ARGS_def Let_def
      simp del: register_args split: if_splits)

lemma place_arguments_rsp: "place_arguments g f vs = Inr (moves, stacked) \<Longrightarrow> moves_rsp 0 moves"
proof (induction vs arbitrary: g f moves stacked)
  case (Cons v vs)
  show ?case
  proof (cases "argument_register g f v")
    case (Some r)
    obtain a w moves' g' f' where "moves = ins (IntOp ASM_OP_MOV) a (reg_operand w r) # moves'"
      "place_arguments g' f' vs = Inr (moves', stacked)"
      using Some Cons.prems by (auto simp: check_iff codegen_set_operand_register_def split: if_splits)
    then show ?thesis
      using Cons.IH mov_moves_rsp [OF register_not_rsp [OF argument_register_in [OF Some]]]
        moves_rsp_Cons [of 0 _ 0 moves' 0] by auto
  next
    case None
    then show ?thesis using Cons by (auto simp: check_iff)
  qed
qed auto

lemma push_argument_rsp: "push_argument v = Inr os \<Longrightarrow> moves_rsp (- 8) os"
  by (auto simp: push_argument_def check_iff codegen_set_operand_eax_def split: if_splits
      intro!: push_moves_rsp mov_moves_rsp moves_rsp_Cons [of 0 _ "- 8"] register_not_rsp)

lemma push_arguments_rsp: "push_arguments vs = Inr os \<Longrightarrow> moves_rsp (- 8 * int (length vs)) os"
proof (induction vs arbitrary: os)
  case (Cons v vs)
  then obtain later ps where "push_arguments vs = Inr later" "push_argument v = Inr ps" "os = later @ ps"
    by (auto simp: check_iff)
  then show ?case
    using Cons.IH push_argument_rsp moves_rsp_append [of "- 8 * int (length vs)" later "- 8" ps "- 8 - 8 * int (length vs)"]
    by auto
qed auto

lemma call_result_rsp: "call_result src = Inr os \<Longrightarrow> moves_rsp 0 os"
  by (auto simp: call_result_def Let_def check_iff intro!: mov_moves_rsp dest: operand_not_rsp
      split: if_splits)

text \<open>How many arguments of a call go to the stack.\<close>

definition on_stack :: "ctype list \<Rightarrow> nat" where
  "on_stack cs =
     (length (filter ctype_is_floating_point cs) - 8) +
     (length (filter (\<lambda>c. \<not> ctype_is_floating_point c) cs) - 6)"

lemma place_arguments_stacked:
  "place_arguments (min g 6) (min f 8) vs = Inr (moves, stacked) \<Longrightarrow>
     length stacked + (f - 8) + (g - 6) =
       (f + length (filter (\<lambda>v. ctype_is_floating_point (val_type v)) vs) - 8) +
       (g + length (filter (\<lambda>v. \<not> ctype_is_floating_point (val_type v)) vs) - 6)"
proof (induction vs arbitrary: g f moves stacked)
  case (Cons v vs)
  let ?fp = "ctype_is_floating_point (val_type v)"
  have mins: "\<And>n m. n < m \<Longrightarrow> Suc (min n m) = min (Suc n) m" "\<And>n m. \<not> n < m \<Longrightarrow> min n m = min (Suc n) (m::nat)"
    by simp_all
  consider "?fp" "f < 8" | "?fp" "\<not> f < 8" | "\<not> ?fp" "g < 6" | "\<not> ?fp" "\<not> g < 6" by blast
  then show ?case
  proof cases
    case 1
    then obtain m where "place_arguments (min g 6) (min (Suc f) 8) vs = Inr (m, stacked)"
      using Cons.prems mins(1) [of f 8] by (auto simp: argument_register_def check_iff)
    from Cons.IH [OF this] 1 show ?thesis by simp
  next
    case 2
    then obtain m st where "place_arguments (min g 6) (min (Suc f) 8) vs = Inr (m, st)" "stacked = v # st"
      using Cons.prems mins(2) [of f 8] by (auto simp: argument_register_def check_iff)
    with Cons.IH [OF this(1)] 2 show ?thesis by simp
  next
    case 3
    then obtain m where "place_arguments (min (Suc g) 6) (min f 8) vs = Inr (m, stacked)"
      using Cons.prems mins(1) [of g 6] by (auto simp: argument_register_def check_iff)
    from Cons.IH [OF this] 3 show ?thesis by simp
  next
    case 4
    then obtain m st where "place_arguments (min (Suc g) 6) (min f 8) vs = Inr (m, st)" "stacked = v # st"
      using Cons.prems mins(2) [of g 6] by (auto simp: argument_register_def check_iff)
    with Cons.IH [OF this(1)] 4 show ?thesis by simp
  qed
qed auto

text \<open>A call, taken apart.\<close>

lemma op_call_parts:
  assumes "codegen_op_call src = Inr os"
  obtains callee moves stacked pushes res where
    "place_arguments 0 0 (call_args src) = Inr (moves, stacked)" "push_arguments stacked = Inr pushes"
    "call_result src = Inr res" "ir_fun src = Some callee"
    "os = reserve (call_padding src) @ moves @ pushes @
      ins ASM_OP_CALL (set_constant (ASM_OPERAND_CALL_TARGET_FUNCTION callee)) zero_operand #
      release (CODEGEN_BYTES_PER_PUSH * int (length stacked) + call_padding src) @ res"
  using assms unfolding codegen_op_call_def by (auto simp: check_iff split: option.splits)

lemma stacked_length:
  assumes "place_arguments 0 0 vs = Inr (moves, stacked)"
  shows "length stacked = on_stack (map val_type vs)"
  using place_arguments_stacked [of 0 0 vs moves stacked] assms by (simp add: on_stack_def filter_map o_def)

lemma op_call_rsp:
  assumes "codegen_op_call src = Inr os"
    and "d = 8 * int (on_stack (map val_type (call_args src)) + length (call_args src) mod 2)"
  shows "\<exists>pre callee post. os = pre @ ins ASM_OP_CALL
      (set_constant (ASM_OPERAND_CALL_TARGET_FUNCTION callee)) zero_operand # post \<and>
    moves_rsp (- d) pre \<and> moves_rsp d post"
proof -
  obtain callee moves stacked pushes res where
    parts: "place_arguments 0 0 (call_args src) = Inr (moves, stacked)" "push_arguments stacked = Inr pushes"
      "call_result src = Inr res"
    and os: "os = (reserve (call_padding src) @ moves @ pushes) @
      ins ASM_OP_CALL (set_constant (ASM_OPERAND_CALL_TARGET_FUNCTION callee)) zero_operand #
      release (CODEGEN_BYTES_PER_PUSH * int (length stacked) + call_padding src) @ res"
    using op_call_parts [OF assms(1)] by (metis append.assoc)
  have d: "d = CODEGEN_BYTES_PER_PUSH * int (length stacked) + call_padding src" "0 \<le> call_padding src"
    using stacked_length [OF parts(1)] assms(2)
    by (auto simp: call_padding_def CODEGEN_BYTES_PER_PUSH_def mod_2_eq_odd)
  have "moves_rsp (- d) (reserve (call_padding src) @ moves @ pushes)"
    by (rule moves_rsp_append [OF reserve_moves_rsp(1) moves_rsp_append
          [OF place_arguments_rsp [OF parts(1)] push_arguments_rsp [OF parts(2)] refl]])
      (simp_all add: d CODEGEN_BYTES_PER_PUSH_def)
  moreover have "moves_rsp d
      (release (CODEGEN_BYTES_PER_PUSH * int (length stacked) + call_padding src) @ res)"
    by (rule moves_rsp_append [OF reserve_moves_rsp(2) call_result_rsp [OF parts(3)]])
      (use d in \<open>simp_all add: CODEGEN_BYTES_PER_PUSH_def\<close>)
  ultimately show ?thesis using os by blast
qed

text \<open>
  How a call passes an argument: with a move into its register, or with a push after which
  the stack pointer goes down by eight bytes for each argument in front of it, so that the
  argument is at \<open>8 * k\<close> above the stack pointer when the call is made.
\<close>

definition passes :: "asm_op list \<Rightarrow> asm_op list \<Rightarrow> ir_val \<Rightarrow> arg_place \<Rightarrow> bool" where
  "passes moves pushes v p =
     (case p of
        In_register r \<Rightarrow>
          (\<exists>a w. codegen_map_operand v = Inr a \<and> codegen_map_ctype v = Inr w \<and>
             ins (IntOp ASM_OP_MOV) a (reg_operand w r) \<in> set moves)
      | On_stack k \<Rightarrow>
          (\<exists>before push after. pushes = before @ push @ after \<and> push_argument v = Inr push \<and>
             moves_rsp (- 8 * int k) after))"

lemma push_arguments_split:
  "push_arguments vs = Inr os \<Longrightarrow> k < length vs \<Longrightarrow>
     \<exists>before push after. os = before @ push @ after \<and> push_argument (vs ! k) = Inr push \<and>
       moves_rsp (- 8 * int k) after"
proof (induction vs arbitrary: os k)
  case (Cons v vs)
  obtain later ps where parts: "push_arguments vs = Inr later" "push_argument v = Inr ps" "os = later @ ps"
    using Cons.prems(1) by (auto simp: check_iff)
  show ?case
  proof (cases k)
    case 0
    then show ?thesis using parts by (intro exI [of _ later] exI [of _ ps] exI [of _ "[]"]) auto
  next
    case (Suc j)
    then obtain before push after where "later = before @ push @ after" "push_argument (vs ! j) = Inr push"
      "moves_rsp (- 8 * int j) after"
      using Cons.IH [OF parts(1), of j] Cons.prems(2) by auto
    moreover have "moves_rsp (- 8 * int k) (after @ ps)"
      using calculation(3) push_argument_rsp [OF parts(2)] Suc by (intro moves_rsp_append) auto
    ultimately show ?thesis using parts(3) Suc by (intro exI [of _ before] exI [of _ push] exI [of _ "after @ ps"]) simp
  qed
qed simp

lemma call_passes:
  assumes "codegen_op_call src = Inr os" "i < length (call_args src)"
  obtains callee moves pushes post where
    "os = reserve (call_padding src) @ moves @ pushes @
       ins ASM_OP_CALL (set_constant (ASM_OPERAND_CALL_TARGET_FUNCTION callee)) zero_operand # post"
    "passes moves pushes (call_args src ! i) (arg_place (map val_type (call_args src)) i)"
proof -
  obtain callee moves stacked pushes res where
    parts: "place_arguments 0 0 (call_args src) = Inr (moves, stacked)" "push_arguments stacked = Inr pushes"
    and os: "os = reserve (call_padding src) @ moves @ pushes @
      ins ASM_OP_CALL (set_constant (ASM_OPERAND_CALL_TARGET_FUNCTION callee)) zero_operand #
      release (CODEGEN_BYTES_PER_PUSH * int (length stacked) + call_padding src) @ res"
    using op_call_parts [OF assms(1)] by metis
  have "caller_puts moves stacked 0 (call_args src ! i) (arg_place (map val_type (call_args src)) i)"
    using place_arguments_places [where f = 0 and g = 0] parts(1) assms(2) by (simp add: arg_place_def)
  then have "passes moves pushes (call_args src ! i) (arg_place (map val_type (call_args src)) i)"
    using push_arguments_split [OF parts(2)]
    by (fastforce simp: caller_puts_def passes_def split: arg_place.splits)
  with os that show thesis by blast
qed

end
