(* ===== verification/Backend.thy ===== *)
theory Backend
  imports Convention EmitData
begin

text \<open>
  The back end in the order of \<^verbatim>\<open>compile()\<close> in \<^verbatim>\<open>src/main.c\<close>: instruction selection, frame
  layout, rewriting of instructions and output of the text. On a well-formed program in
  three-address code every one of the four steps reaches its end.
\<close>

definition compile_backend :: "intermediate \<Rightarrow> platform \<Rightarrow> string result" where
  "compile_backend ir plat =
     check (codegen_init ir) (\<lambda>cg0.
     check (codegen_replace_pseudo cg0) (\<lambda>cg1.
     check (codegen_fixup_instructions cg1) (\<lambda>cg2.
     emit_asm (Some cg2) plat)))"

section \<open>Well-formed programs\<close>

definition ir_statement_ok :: "ir_op \<Rightarrow> bool" where
  "ir_statement_ok op =
     (ir_op_ok op \<and> list_all val_fits (ir_args op))"

definition ir_function_ok :: "ir_function \<Rightarrow> bool" where
  "ir_function_ok f =
     (list_all (\<lambda>v. \<not> ctype_is_void (val_type v)) (ir_present (ir_params f)) \<and>
      list_all ir_statement_ok (ir_ops f))"

definition data_ok :: "constant_initializer \<Rightarrow> bool" where
  "data_ok ci = (ci \<noteq> [] \<and> list_all element_ok ci)"

definition ir_program_ok :: "intermediate \<Rightarrow> bool" where
  "ir_program_ok ir =
     (list_all ir_function_ok (ir_functions ir) \<and>
      list_all (\<lambda>v. data_ok (ir_var_initializer v)) (ir_variables ir) \<and>
      list_all (\<lambda>s. data_ok (ir_str_initializer s)) (ir_strings ir))"

text \<open>The frame of a function that was selected can be laid out.\<close>

definition frame_fits :: "asm_function \<Rightarrow> bool" where
  "frame_fits a =
     (frame_ok a \<and> (case codegen_replace_pseudo_one a of Inr a' \<Rightarrow> stack_usage a' \<le> LLONG_MAX | Inl _ \<Rightarrow> True))"

definition frames_fit :: "intermediate \<Rightarrow> bool" where
  "frames_fit ir =
     (case codegen_functions (ir_functions ir) of Inr as \<Rightarrow> list_all frame_fits as | Inl _ \<Rightarrow> True)"

section \<open>Selection\<close>

lemma params_ok:
  assumes "list_all (\<lambda>v. \<not> ctype_is_void (val_type v)) vs"
  shows "\<exists>os. function_params_loop g f k vs = Inr os \<and> list_all lowerable os"
  using assms
proof (induction vs arbitrary: g f k)
  case (Cons v vs)
  let ?fp = "ctype_is_floating_point (val_type v)"
  obtain w where w: "codegen_map_ctype v = Inr w"
    using Cons.prems map_ctype_ok [of "val_type v"] by (auto simp: codegen_map_ctype_def)
  obtain os where os: "function_params_loop (if ?fp then g else g + 1) (if ?fp then f + 1 else f)
      (if (if ?fp then f < CODEGEN_FP_REGISTER_ARGS else g < CODEGEN_REGISTER_ARGS) then k else k + 1) vs = Inr os"
    "list_all lowerable os"
    using Cons by fastforce
  have "(16 + 8 * int k) mod 4 = 0"
    by presburger
  then have stack: "\<exists>op. codegen_copy_stack_to_pseudo v k = Inr op \<and> lowerable op"
    by (simp add: codegen_copy_stack_to_pseudo_def codegen_set_operand_stack_def w
        codegen_set_operand_memory_def codegen_set_operand_pseudo_def CODEGEN_BYTES_ARG_FIRST_def
        CODEGEN_BYTES_PER_PUSH_def CODEGEN_BYTES_PER_VALUE_def ins_op2 lowerable_op2 extends_def Let_def)
  have reg: "\<exists>op. codegen_copy_reg_to_pseudo v n = Inr op \<and> lowerable op"
    if "if ?fp then n < CODEGEN_FP_REGISTER_ARGS else n < CODEGEN_REGISTER_ARGS" for n
    using that
    by (simp add: codegen_copy_reg_to_pseudo_def codegen_set_operand_register_def w
        codegen_set_operand_pseudo_def CODEGEN_REGISTER_ARGS_def CODEGEN_FP_REGISTER_ARGS_def
        ins_op2 lowerable_op2 extends_def Let_def del: register_args split: if_splits)
  have "\<exists>op. (if (if ?fp then f < CODEGEN_FP_REGISTER_ARGS else g < CODEGEN_REGISTER_ARGS)
      then codegen_copy_reg_to_pseudo v (if ?fp then f else g)
      else codegen_copy_stack_to_pseudo v k) = Inr op \<and> lowerable op"
    using stack reg [of "if ?fp then f else g"] by (auto split: if_splits)
  then obtain op where "(if (if ?fp then f < CODEGEN_FP_REGISTER_ARGS else g < CODEGEN_REGISTER_ARGS)
      then codegen_copy_reg_to_pseudo v (if ?fp then f else g)
      else codegen_copy_stack_to_pseudo v k) = Inr op" "lowerable op" by blast
  with os show ?case unfolding function_params_loop.simps(2) Let_def by simp
qed simp

lemma statement_ok:
  assumes "list_all ir_statement_ok os"
  shows "\<exists>as. codegen_statement os = Inr as \<and> list_all lowerable as"
  using assms
proof (induction os)
  case (Cons op os)
  then obtain xs ys where "codegen_statement_one op = Inr xs" "codegen_statement os = Inr ys"
    "list_all lowerable ys"
    using select_one_ok [of op] by (auto simp: ir_statement_ok_def)
  moreover have "ir_opcode op = IR_OP_LABEL \<Longrightarrow> subtype (ir_arg op 0) = IR_VAL_JUMP_TARGET_LABEL"
    using Cons.prems by (simp add: ir_statement_ok_def ir_op_ok_def Let_def)
  then have "list_all lowerable xs"
    using Cons.prems calculation(1) select_one_lowerable [of op xs] by (auto simp: ir_statement_ok_def)
  ultimately show ?case by simp
qed simp

lemma function_ok:
  assumes "ir_function_ok f"
  shows "\<exists>a. codegen_function f = Inr a \<and> list_all lowerable (ops a)"
proof -
  obtain ps os where "codegen_function_params (ir_params f) = Inr ps" "list_all lowerable ps"
    "codegen_statement (ir_ops f) = Inr os" "list_all lowerable os"
    using assms params_ok [of "ir_present (ir_params f)" 0 0 0] statement_ok [of "ir_ops f"]
    by (auto simp: ir_function_ok_def codegen_function_params_def)
  then show ?thesis by (simp add: codegen_function_def)
qed

lemma functions_ok:
  "list_all ir_function_ok fs \<Longrightarrow>
     \<exists>as. codegen_functions fs = Inr as \<and> list_all (\<lambda>a. list_all lowerable (ops a)) as"
proof (induction fs)
  case (Cons f fs)
  then show ?case using function_ok [of f] by fastforce
qed simp

section \<open>Frame and rewriting\<close>

definition printable :: "asm_op \<Rightarrow> bool" where
  "printable op = (emit_ok op \<and> extension_ok op)"

lemma lowerable_placed: "lowerable op \<Longrightarrow> printable (place_op p op)"
proof -
  have "is_register (place_arg p a) = is_register a" for a
    by (cases "operand_type a") (simp_all add: place_arg_def is_register_def is_pseudo_def)
  then show "lowerable op \<Longrightarrow> printable (place_op p op)"
    using place_op_emit_ok [of op]
    by (auto simp: lowerable_def printable_def extension_ok_def place_op_def)
qed

lemma subq_printable: "n \<le> ULLONG_MAX \<Longrightarrow> printable (codegen_alloc_subq_rsp n)"
  using subq_rsp_ok(1) [OF _ clobber_set_ok, of n] subq_rsp_ok(2) [OF _ clobber_set_ok, of n False]
  by (simp add: printable_def fix_input_def)

lemma fixall_printable:
  "list_all printable os \<Longrightarrow> \<exists>xs. fixall fixers os = Inr xs \<and> list_all emit_ok xs"
proof (induction os)
  case Nil
  have "fixall fxs [] = Inr []" for fxs by (induction fxs) simp_all
  then show ?case by simp
next
  case (Cons op os)
  obtain oc a b where op: "op = op2 oc a b" using op_op2 by blast
  then obtain xs where xs: "rewrite op = Inr xs"
    using rewrite_ok [of oc a b] Cons.prems by (auto simp: printable_def)
  then have "list_all emit_ok xs"
    using rewrite_emit_ok [of oc a b xs] Cons.prems op by (simp add: printable_def)
  then show ?case
    using Cons xs fixall_Cons [of fixers op xs os] by (auto simp: rewrite_def)
qed

lemma lower_function_ok:
  assumes "list_all lowerable (ops a)" "frame_fits a"
  shows "\<exists>a1 a2 a3. codegen_replace_pseudo_one a = Inr a1 \<and> codegen_fixup_alloc_stack a1 = Inr a2 \<and>
    codegen_fixup_all fixers a2 = Inr a3 \<and> list_all emit_ok (ops a3)"
proof -
  obtain a1 place where a1: "codegen_replace_pseudo_one a = Inr a1"
    "ops a1 = map (place_op place) (ops a)" "0 \<le> stack_usage a1"
    using replace_pseudo_frame [of a] assms(2) unfolding frame_fits_def
    by (metis asm_function.select_convs(4) asm_function.surjective asm_function.update_convs(3,4))
  have fit: "stack_usage a1 \<le> LLONG_MAX" using assms(2) a1(1) by (simp add: frame_fits_def)
  have ok1: "list_all printable (ops a1)"
    using assms(1) by (simp add: a1(2) list_all_iff lowerable_placed)
  obtain a2 where a2: "codegen_fixup_alloc_stack a1 = Inr a2" "list_all printable (ops a2)"
  proof (cases "stack_usage a1 = 0")
    case True
    then show thesis using that ok1 by (simp add: codegen_fixup_alloc_stack_def)
  next
    case False
    then obtain n where "codegen_fixup_alloc_stack a1 = Inr (a1\<lparr>ops := codegen_alloc_subq_rsp n # ops a1\<rparr>)"
      "n < stack_usage a1 + 16"
      using alloc_stack_ok [of a1] a1(3) by force
    moreover have "n \<le> ULLONG_MAX" using fit calculation(2) by (simp add: limit_defs)
    ultimately show thesis using that ok1 subq_printable by simp
  qed
  obtain xs where "fixall fixers (ops a2) = Inr xs" "list_all emit_ok xs"
    using fixall_printable [OF a2(2)] by blast
  then show ?thesis using a1(1) a2(1) by (simp add: fixup_all_seq)
qed

lemma lower_functions_ok:
  assumes "list_all (\<lambda>a. list_all lowerable (ops a)) as" "list_all frame_fits as"
  shows "\<exists>bs cs. codegen_replace_pseudo_fns as = Inr bs \<and> codegen_fixup_fns bs = Inr cs \<and>
    list_all (\<lambda>c. list_all emit_ok (ops c)) cs"
  using assms
proof (induction as)
  case (Cons a as)
  then show ?case using lower_function_ok [of a] by fastforce
qed simp

section \<open>Output\<close>

lemma emit_initializer_ok:
  assumes "data_ok ci"
  shows "\<exists>t. emit_asm_initializer name sect p ci plat = Inr t"
proof -
  obtain t where "text_of (map (\<lambda>e. emit_element e plat) ci) = Inr t"
    using assms emit_elements_data [of ci plat] by (auto simp: data_ok_def)
  moreover obtain e es where "ci = e # es" using assms by (cases ci) (auto simp: data_ok_def)
  ultimately show ?thesis by (simp add: emit_asm_initializer_def constant_is_zero_def Let_def)
qed

lemma emit_fp_loop_ok: "\<exists>t. emit_asm_fp_loop seen ds plat = Inr t"
proof (induction ds arbitrary: seen)
  case (Cons d ds)
  obtain t where "emit_asm_fp_loop (fst (emit_asm_fp_check seen d)) ds plat = Inr t" using Cons by blast
  then show ?case by (auto simp: emit_fp_one split: prod.split)
qed simp

lemma emit_asm_ok:
  assumes "list_all (\<lambda>f. list_all emit_ok (ops f)) (asm_functions cg)"
    and "list_all (\<lambda>v. data_ok (var_initializer v)) (asm_variables cg)"
    and "list_all (\<lambda>s. data_ok (str_initializer s)) (asm_strings cg)"
  shows "\<exists>t. emit_asm (Some cg) plat = Inr t"
proof -
  have "\<exists>t. emit_asm_str s plat = Inr t" if "s \<in> set (asm_strings cg)" for s
    using that assms(3) emit_initializer_ok by (auto simp: emit_asm_str_def list_all_iff)
  moreover have "\<exists>t. emit_asm_var v plat = Inr t" if "v \<in> set (asm_variables cg)" for v
    using that assms(2) emit_initializer_ok [of "var_initializer v"]
    unfolding emit_asm_var_def Let_def by (intro text_of_ok) (auto simp: list_all_iff)
  moreover have "\<exists>t. emit_asm_fp_constants (asm_functions cg) plat = Inr t"
    by (simp add: emit_asm_fp_constants_def emit_fp_loop_ok)
  moreover have "\<exists>t. emit_asm_fn f plat = Inr t" if "f \<in> set (asm_functions cg)" for f
    using that assms(1) emit_fn_ok by (auto simp: list_all_iff)
  ultimately show ?thesis
    unfolding emit_asm_def by (auto simp del: text_of.simps intro!: text_of_ok)
qed

lemma backend_ok:
  assumes "ir_program_ok ir" "frames_fit ir"
  shows "\<exists>t. compile_backend ir plat = Inr t"
proof -
  obtain as where as: "codegen_functions (ir_functions ir) = Inr as"
    "list_all (\<lambda>a. list_all lowerable (ops a)) as"
    using assms(1) functions_ok by (auto simp: ir_program_ok_def)
  then have "list_all frame_fits as" using assms(2) by (simp add: frames_fit_def)
  then obtain bs cs where low: "codegen_replace_pseudo_fns as = Inr bs" "codegen_fixup_fns bs = Inr cs"
    "list_all (\<lambda>c. list_all emit_ok (ops c)) cs"
    using lower_functions_ok [OF as(2)] by blast
  let ?cg = "\<lparr>asm_functions = cs, asm_variables = map codegen_variable (ir_variables ir),
    asm_strings = map codegen_string_literal (ir_strings ir)\<rparr>"
  have "compile_backend ir plat = emit_asm (Some ?cg) plat"
    using as(1) low(1,2)
    by (simp add: compile_backend_def codegen_init_def codegen_program_def codegen_replace_pseudo_def
        codegen_fixup_instructions_def)
  moreover have "\<exists>t. emit_asm (Some ?cg) plat = Inr t"
    using assms(1) low(3)
    by (intro emit_asm_ok)
      (simp_all add: ir_program_ok_def list_all_iff codegen_variable_def codegen_string_literal_def)
  ultimately show ?thesis by simp
qed

end
