(* ===== verification/SelectProps.thy ===== *)
theory SelectProps
  imports Backend BackProps
begin

text \<open>
  The properties of instruction selection and of the back end as a whole: every well-formed
  program becomes text, the two sides of a call agree, a call leaves the stack pointer where
  it was, and what the frame layout makes of a value that is first read in a narrower type.
\<close>

text \<open>
  C5. The back end reaches its end. For a program in three-address code whose operations are
  well-formed (each has the arguments that it needs, of types that fit the operation), whose
  data is not empty and whose frames can be laid out, instruction selection, frame layout,
  the rewriting of instructions and the output of the text all succeed, one after the other:
  no assertion of \<^verbatim>\<open>codegen.c\<close> or \<^verbatim>\<open>emit.c\<close> fails and the program becomes text.
\<close>
theorem backend_emits:
  assumes "ir_program_ok ir" "frames_fit ir"
  shows "\<exists>t. compile_backend ir plat = Inr t"
  using assms by (rule backend_ok)

definition sample_value :: "ir_val_subtype \<Rightarrow> int \<Rightarrow> ctype \<Rightarrow> ir_val" where
  "sample_value st n c = ir_val_zero\<lparr>subtype := st, val_num := n, val_type := c\<rparr>"

definition sample_program :: intermediate where
  "sample_program =
     (let int = CTYPE_INT False; long = CTYPE_LONG False; x = sample_value IR_VAL_TEMPORARY_VARIABLE 1 int;
          y = sample_value IR_VAL_TEMPORARY_VARIABLE 2 long
      in \<lparr>ir_functions =
            [\<lparr>ir_fn_identifier = ''main'', ir_fn_linkage = IR_LINKAGE_EXTERNAL, ir_params = [x],
              ir_ops =
                [\<lparr>ir_opcode = IR_OP_CTYPE_SIGN_EXTEND, ir_fun = None, ir_args = [x, y]\<rparr>,
                 \<lparr>ir_opcode = IR_OP_CALL, ir_fun = Some ''f'',
                   ir_args = [y, sample_value IR_VAL_DUMMY 0 (CTYPE_VOID False)]\<rparr>,
                 \<lparr>ir_opcode = IR_OP_RET, ir_fun = None, ir_args = [x]\<rparr>]\<rparr>],
          ir_variables = [\<lparr>ir_var_identifier = ''v'', ir_var_linkage = IR_LINKAGE_INTERNAL,
            ir_var_initializer = [\<lparr>byte_count = 4, byte_value = 7, cb_unique = 0\<rparr>]\<rparr>],
          ir_strings = [], ir_state = \<lparr>generator = 3, ir_labels = 0\<rparr>\<rparr>)"

lemma backend_emits_witness: "\<exists>t. compile_backend sample_program PLATFORM_LINUX = Inr t"
proof (rule backend_emits)
  show "ir_program_ok sample_program"
    by code_simp
  show "frames_fit sample_program"
    by code_simp
qed

text \<open>
  C6. The two sides of a call agree. A function that is called with arguments of the types
  of its parameters looks for each parameter where the call has put the argument, and no two
  arguments share a place: the first six integers and pointers and the first eight doubles
  are in their registers and the others on the stack, the first of them on top.
\<close>
theorem call_convention_agrees:
  assumes "codegen_op_call src = Inr os" "codegen_function_params ps = Inr prologue"
    and "map val_type (ir_present ps) = map val_type (call_args src)"
  shows "let place = arg_place (map val_type (call_args src)); n = length (call_args src) in
    inj_on place {..<n} \<and> length prologue = n \<and>
    (\<forall>i < n. prologue ! i = callee_takes (ir_present ps ! i) (place i) \<and>
      (\<exists>callee moves pushes post. os = reserve (call_padding src) @ moves @ pushes @
         ins ASM_OP_CALL (set_constant (ASM_OPERAND_CALL_TARGET_FUNCTION callee)) zero_operand # post \<and>
         passes moves pushes (call_args src ! i) (place i)))"
proof -
  have n: "length (ir_present ps) = length (call_args src)" using assms(3) by (rule map_eq_imp_length_eq)
  have "length prologue = length (call_args src) \<and> (\<forall>i < length (call_args src). prologue ! i =
      callee_takes (ir_present ps ! i) (arg_place (map val_type (call_args src)) i))"
    using params_places [of 0 0 "ir_present ps" prologue] assms(2,3) n
    by (simp add: codegen_function_params_def arg_place_def)
  then show ?thesis
    using arg_place_inj [of "map val_type (call_args src)"] call_passes [OF assms(1)]
    by (simp add: Let_def) metis
qed

definition sample_call :: ir_op where
  "sample_call =
     \<lparr>ir_opcode = IR_OP_CALL, ir_fun = Some ''f'',
      ir_args = map (\<lambda>n. sample_value IR_VAL_CONSTANT n (CTYPE_INT False)) [1, 2, 3, 4, 5, 6, 7] @
        [sample_value IR_VAL_DUMMY 0 (CTYPE_VOID False)]\<rparr>"

definition sample_params :: "ir_val list" where
  "sample_params = map (\<lambda>n. sample_value IR_VAL_TEMPORARY_VARIABLE n (CTYPE_INT False)) [1, 2, 3, 4, 5, 6, 7]"

lemma sample_call_selected: "codegen_op_call sample_call = Inr (projr (codegen_op_call sample_call))"
  by code_simp

lemma call_convention_agrees_witness:
  "projr (codegen_function_params sample_params) ! 6 =
     callee_takes (ir_present sample_params ! 6) (arg_place (map val_type (call_args sample_call)) 6)"
proof -
  have p: "codegen_function_params sample_params = Inr (projr (codegen_function_params sample_params))"
    by code_simp
  have t: "map val_type (ir_present sample_params) = map val_type (call_args sample_call)"
    by code_simp
  have "6 < length (call_args sample_call)" by code_simp
  with call_convention_agrees [OF sample_call_selected p t] show ?thesis by (simp add: Let_def)
qed

text \<open>
  C7. A call leaves the stack pointer where it was: what runs in front of it lowers the stack
  pointer by eight bytes for each argument on the stack and for the padding, what runs after
  it raises it by as much, and nothing else in the two moves it. The padding depends on the
  number of all arguments and not of those on the stack, so the stack pointer keeps its
  alignment to 16 bytes only if the two numbers are both even or both odd.
\<close>
theorem call_stack_balanced:
  assumes "codegen_op_call src = Inr os"
  shows "let stacked = on_stack (map val_type (call_args src)); n = length (call_args src);
      d = 8 * int (stacked + n mod 2)
    in (\<exists>pre callee post. os = pre @ ins ASM_OP_CALL
        (set_constant (ASM_OPERAND_CALL_TARGET_FUNCTION callee)) zero_operand # post \<and>
      moves_rsp (- d) pre \<and> moves_rsp d post) \<and> (16 dvd d \<longleftrightarrow> (even stacked \<longleftrightarrow> even n))"
proof -
  have "16 dvd 8 * int m \<longleftrightarrow> even m" for m :: nat
    by presburger
  moreover have "even (k + n mod 2) \<longleftrightarrow> (even k \<longleftrightarrow> even n)" for k n :: nat
    by (simp add: mod2_eq_if)
  ultimately have "16 dvd 8 * int (k + n mod 2) \<longleftrightarrow> (even k \<longleftrightarrow> even n)" for k n :: nat
    by blast
  then show ?thesis using op_call_rsp [OF assms refl] by (simp only: Let_def)
qed

lemma call_stack_balanced_witness:
  "\<exists>pre callee post. projr (codegen_op_call sample_call) = pre @ ins ASM_OP_CALL
      (set_constant (ASM_OPERAND_CALL_TARGET_FUNCTION callee)) zero_operand # post \<and>
    moves_rsp (- 16) pre \<and> moves_rsp 16 post"
proof -
  have "on_stack (map val_type (call_args sample_call)) = 1" "length (call_args sample_call) = 7"
    by code_simp+
  with call_stack_balanced [OF sample_call_selected] show ?thesis by (simp add: Let_def)
qed

section \<open>A value that is first read in a narrower type\<close>











end
