(* ===== verification/Typed.thy ===== *)
theory Typed
  imports Ast
begin

text \<open>
  Readers of the tree that \<^verbatim>\<open>sema.c\<close> and \<^verbatim>\<open>ir.c\<close> share: the \<^verbatim>\<open>expr_type\<close> of a node and
  the loops that look through casts and parentheses. A statement has no meaning for its
  \<^verbatim>\<open>expr_type\<close>, which reads as zero here.
\<close>

fun expr_type :: "ast \<Rightarrow> ctype" where
  "expr_type (NODE_DECLARATION i sp vt init t) = t"
| "expr_type (NODE_CONSTANT v t) = t"
| "expr_type (NODE_CONSTANT_STR s t) = t"
| "expr_type (NODE_EXPRESSION_NULL t) = t"
| "expr_type (NODE_EXPRESSION_INITIALIZER sg mu t) = t"
| "expr_type (Op_unary u e t) = t"
| "expr_type (Op_binary b l r t) = t"
| "expr_type (Op_ternary c x y t) = t"
| "expr_type (NODE_EXPRESSION_VARIABLE_USAGE s t) = t"
| "expr_type (NODE_EXPRESSION_FUNCTION_CALL s args t) = t"
| "expr_type (NODE_EXPRESSION_CAST ty e t) = t"
| "expr_type (NODE_SHARED a) = expr_type a"
| "expr_type _ = ctype_zero"

fun unpack_cast :: "ast \<Rightarrow> ast" where
  "unpack_cast (NODE_EXPRESSION_CAST ty e t) = unpack_cast e"
| "unpack_cast a = a"

fun ir_unpack_parens :: "ast \<Rightarrow> ast" where
  "ir_unpack_parens (Op_unary EXPRESSION_PAREN_ENCLOSED e t) = ir_unpack_parens e"
| "ir_unpack_parens (NODE_SHARED a) = ir_unpack_parens a"
| "ir_unpack_parens a = a"

text \<open>\<^verbatim>\<open>u.num\<close> and \<^verbatim>\<open>u.double_\<close> share their bytes.\<close>

definition constant_num :: "constant_value \<Rightarrow> int" where
  "constant_num v = (case v of Num n \<Rightarrow> n | Dbl d \<Rightarrow> uint d)"

definition constant_double :: "constant_value \<Rightarrow> double" where
  "constant_double v = (case v of Num n \<Rightarrow> word_of_int n | Dbl d \<Rightarrow> d)"

definition referent_of :: "ctype \<Rightarrow> ctype result" where
  "referent_of c = (case referent_opt c of None \<Rightarrow> Inl Abort | Some r \<Rightarrow> Inr r)"

definition size_of :: "ctype \<Rightarrow> int result" where
  "size_of c = check (ctype_to_size_bytes c) (\<lambda>n. Inr (sint n))"

lemma size_unpack_cast [termination_simp]: "size (unpack_cast a) \<le> size a"
  by (induction a rule: unpack_cast.induct) auto

lemma size_unpack_parens [termination_simp]: "size (ir_unpack_parens a) \<le> size a"
  by (induction a rule: ir_unpack_parens.induct) auto

end
