(* ===== verification/IrGen.thy ===== *)
theory IrGen
  imports Ir Typed Statement
begin

text \<open>
  \<^verbatim>\<open>src/passes/ir.c\<close>: the translation of the typed syntax tree to three-address code.

  A C function that appends to \<^verbatim>\<open>*dst\<close> and sets \<^verbatim>\<open>*return_value\<close> returns the list of
  operations, the value and the new generators of temporaries and labels (\<^verbatim>\<open>ir->env\<close>); the
  value is \<open>ir_val_zero\<close> where the source leaves it unset. Every caller passes an empty list
  and an unset value, so the assertions that say so hold by construction.

  The translation of an expression calls itself; the routines for one kind of node take the
  recursive call as their first argument, and \<open>ir_expr\<close> closes the loop with a budget for the
  depth of the tree. \<^verbatim>\<open>kludge.userdata\<close>, the value that the translation of a compound
  assignment caches for its second reference to the left-hand side, is the argument \<open>ud\<close> of
  the translation of the right-hand side.
\<close>

type_synonym ir_code = "ir_op list \<times> ir_val \<times> ir_env"
type_synonym ir_gen = "ir_env \<Rightarrow> ir_code result"
type_synonym ir_rec = "ir_val option \<Rightarrow> ast \<Rightarrow> ir_gen"

section \<open>Operations and values\<close>

definition mk_op :: "ir_opcode \<Rightarrow> ir_val list \<Rightarrow> ir_op" where
  "mk_op oc args = \<lparr>ir_opcode = oc, ir_fun = None, ir_args = args\<rparr>"

definition label_val :: "int \<Rightarrow> ir_val" where
  "label_val n = ir_val_zero\<lparr>subtype := IR_VAL_JUMP_TARGET_LABEL, val_num := n\<rparr>"

definition constant_val :: "int \<Rightarrow> ctype \<Rightarrow> ir_val" where
  "constant_val n t = ir_val_zero\<lparr>subtype := IR_VAL_CONSTANT, val_num := n, val_type := t\<rparr>"

definition dummy_val :: ir_val where
  "dummy_val = ir_val_zero\<lparr>subtype := IR_VAL_DUMMY\<rparr>"

definition ir_val_tmpvar :: "int \<Rightarrow> ctype \<Rightarrow> ir_val" where
  "ir_val_tmpvar uniq vtype =
     ir_val_zero\<lparr>subtype := IR_VAL_TEMPORARY_VARIABLE, val_num := uniq, val_type := ctype_copy vtype\<rparr>"

definition ir_val_tmpvar_gen :: "ctype \<Rightarrow> ir_env \<Rightarrow> ir_val \<times> ir_env" where
  "ir_val_tmpvar_gen vtype env =
     (ir_val_tmpvar (generator env) vtype, env\<lparr>generator := generator env + 1\<rparr>)"

definition new_label :: "ir_env \<Rightarrow> int \<times> ir_env" where
  "new_label env = (ir_labels env, env\<lparr>ir_labels := ir_labels env + 1\<rparr>)"

definition is_set :: "ir_val \<Rightarrow> bool" where "is_set v = (subtype v \<noteq> IR_VAL_NONE)"

definition is_null_expr :: "ast \<Rightarrow> bool" where
  "is_null_expr a = (case a of NODE_EXPRESSION_NULL _ \<Rightarrow> True | _ \<Rightarrow> False)"

section \<open>Left-hand sides\<close>

definition incr_decr_node :: "unary_node \<Rightarrow> bool" where
  "incr_decr_node u =
     (u \<in> {Prefix EXPRESSION_PREDECREMENT, EXPRESSION_POSTDECREMENT,
        Prefix EXPRESSION_PREINCREMENT, EXPRESSION_POSTINCREMENT})"

abbreviation ASSIGN :: binary_node where
  "ASSIGN \<equiv> Infix_binary EXPRESSION_VARIABLE_ASSIGNMENT"

abbreviation DEREFERENCE :: unary_node where
  "DEREFERENCE \<equiv> Prefix EXPRESSION_UNARY_DEREFERENCE"

abbreviation ADDRESS_OF :: unary_node where
  "ADDRESS_OF \<equiv> Prefix EXPRESSION_UNARY_ADDRESS_OF"

definition is_unary :: "unary_node \<Rightarrow> ast \<Rightarrow> bool" where
  "is_unary u a = (case a of Op_unary u' _ _ \<Rightarrow> u' = u | _ \<Rightarrow> False)"

definition lvalue_candidate :: "ast \<Rightarrow> ast option" where
  "lvalue_candidate src =
     (case src of
        Op_unary u e _ \<Rightarrow> if incr_decr_node u then Some (ir_unpack_parens e) else None
      | Op_binary b l _ _ \<Rightarrow> if b = ASSIGN then Some (ir_unpack_parens l) else None
      | _ \<Rightarrow> None)"

definition lvalue_through_pointer :: "ast \<Rightarrow> ast option" where
  "lvalue_through_pointer src =
     (case lvalue_candidate src of
        Some (Op_unary u e _) \<Rightarrow>
          if u = DEREFERENCE \<and> \<not> is_unary ADDRESS_OF (ir_unpack_parens e)
          then Some (ir_unpack_parens e) else None
      | _ \<Rightarrow> None)"

definition var_of :: "ast \<Rightarrow> ast_symbol result" where
  "var_of a = (case a of NODE_EXPRESSION_VARIABLE_USAGE v _ \<Rightarrow> Inr v | _ \<Rightarrow> Inl Abort)"

definition lvalue_symbol :: "ast \<Rightarrow> ast_symbol result" where
  "lvalue_symbol src =
     (case src of
        NODE_DECLARATION i _ _ _ _ \<Rightarrow> Inr i
      | NODE_EXPRESSION_VARIABLE_USAGE v _ \<Rightarrow> Inr v
      | Op_unary u _ _ \<Rightarrow>
          (case lvalue_candidate src of None \<Rightarrow> Inl Abort | Some c \<Rightarrow> var_of c)
      | Op_binary _ _ _ _ \<Rightarrow>
          (case lvalue_candidate src of
             None \<Rightarrow> Inl Abort
           | Some c \<Rightarrow> (case c of NODE_EXPRESSION_CAST _ inner _ \<Rightarrow> var_of inner | _ \<Rightarrow> var_of c))
      | _ \<Rightarrow> Inl Abort)"

text \<open>The pointer that is stored through, or the variable.\<close>

definition ir_assignment_lvalue :: "ast \<Rightarrow> (ast option \<times> ir_val) result" where
  "ir_assignment_lvalue src =
     (case lvalue_through_pointer src of
        Some inner \<Rightarrow> Inr (Some inner, ir_val_zero)
      | None \<Rightarrow>
          check (lvalue_symbol src) (\<lambda>direct.
          let v = (if as_stype direct = SYMBOL_STRING_LITERAL
                   then ir_val_zero\<lparr>subtype := IR_VAL_STRING_LITERAL\<rparr>
                   else if some_linkage (as_ltype direct)
                   then ir_val_zero\<lparr>subtype := IR_VAL_VARIABLE_DATA, varname := Some (as_name direct)\<rparr>
                   else ir_val_zero\<lparr>subtype := IR_VAL_TEMPORARY_VARIABLE\<rparr>)
          in Inr (None, v\<lparr>val_num := as_unique direct, val_type := ctype_copy (expr_type src)\<rparr>)))"

definition ir_assignment_lvalue_load_before_store ::
  "ir_val \<Rightarrow> ctype \<Rightarrow> ir_env \<Rightarrow> ir_op \<times> ir_val \<times> ir_env" where
  "ir_assignment_lvalue_load_before_store ptr_to_load referent_type env =
     (let (v, env) = ir_val_tmpvar_gen referent_type env
      in (mk_op IR_OP_LOAD [ptr_to_load, v], v, env))"

definition ir_map_linkage :: "symbol_linkage \<Rightarrow> ir_linkage result" where
  "ir_map_linkage l =
     assert_that (some_linkage l)
       (Inr (if is_external l then IR_LINKAGE_EXTERNAL else IR_LINKAGE_INTERNAL))"

section \<open>Statements\<close>

definition ir_ret_op :: "ir_rec \<Rightarrow> ast \<Rightarrow> ir_gen" where
  "ir_ret_op rec e env =
     check (if is_null_expr e then Inr ([], dummy_val, env) else rec None e env)
       (\<lambda>(inner, inner_return, env).
     assert_that (is_set inner_return)
       (Inr (inner @ [mk_op IR_OP_RET [inner_return]], ir_val_zero, env)))"

definition is_function :: "ast \<Rightarrow> bool" where
  "is_function a = (case a of NODE_FUNCTION _ _ _ _ _ \<Rightarrow> True | _ \<Rightarrow> False)"

fun ir_block :: "ir_rec \<Rightarrow> ast list \<Rightarrow> ir_gen" where
  "ir_block rec [] env = Inr ([], ir_val_zero, env)"
| "ir_block rec (car # cdr) env =
     (if is_function car then ir_block rec cdr env
      else
        check (rec None car env) (\<lambda>(os, _, env).
        check (ir_block rec cdr env) (\<lambda>(later, v, env). Inr (os @ later, v, env))))"

definition single_within :: "ast \<Rightarrow> bool result" where
  "single_within a =
     (case unpack_cast a of
        NODE_EXPRESSION_INITIALIZER sg _ _ \<Rightarrow> Inr (sg \<noteq> None)
      | _ \<Rightarrow> Inl Abort)"

text \<open>One element: copied to its offset in the array; the other result is the next offset.\<close>

definition ir_decl_init_single :: "ir_rec \<Rightarrow> ctype \<Rightarrow> ast \<Rightarrow> ir_val \<Rightarrow> int \<Rightarrow> ir_env \<Rightarrow>
    (ir_op list \<times> int \<times> ir_env) result" where
  "ir_decl_init_single rec declaration_type a lvalue_base pos env =
     check (rec None a env) (\<lambda>(element, element_return, env).
     check (size_of declaration_type) (\<lambda>n.
     Inr (element @ [mk_op IR_OP_COPY [element_return, lvalue_base\<lparr>val_offset := pos\<rparr>]], pos + n, env)))"

fun ir_decl_init_multi :: "ir_rec \<Rightarrow> ctype \<Rightarrow> ast \<Rightarrow> ir_val \<Rightarrow> int \<Rightarrow> ir_env \<Rightarrow>
    (ir_op list \<times> int \<times> ir_env) result"
  and ir_decl_init_list :: "ir_rec \<Rightarrow> ctype \<Rightarrow> ast list \<Rightarrow> ir_val \<Rightarrow> int \<Rightarrow> ir_env \<Rightarrow>
    (ir_op list \<times> int \<times> ir_env) result" where
  "ir_decl_init_multi rec declaration_type (NODE_EXPRESSION_INITIALIZER None mu t) lvalue_base pos env =
     assert_that (mu \<noteq> [] \<and> ctype_is_pointer declaration_type)
       (ir_decl_init_list rec (referent declaration_type) mu lvalue_base pos env)"
| "ir_decl_init_multi rec declaration_type a lvalue_base pos env =
     check (single_within a) (\<lambda>single.
     assert_that single (ir_decl_init_single rec declaration_type a lvalue_base pos env))"
| "ir_decl_init_list rec declaration_type [] lvalue_base pos env = Inr ([], pos, env)"
| "ir_decl_init_list rec declaration_type (car # cdr) lvalue_base pos env =
     check (ir_decl_init_multi rec declaration_type car lvalue_base pos env) (\<lambda>(os, pos, env).
     check (ir_decl_init_list rec declaration_type cdr lvalue_base pos env) (\<lambda>(later, pos, env).
     Inr (os @ later, pos, env)))"

text \<open>
  \<^verbatim>\<open>a->u.declare.init\<close> may be a cast around the initializer, whose first member is then read
  for \<^verbatim>\<open>u.init.single\<close>; it is not null there either.
\<close>

definition init_single_set :: "ast \<Rightarrow> bool" where
  "init_single_set a =
     (case a of
        NODE_EXPRESSION_INITIALIZER sg _ _ \<Rightarrow> sg \<noteq> None
      | _ \<Rightarrow> True)"

definition ir_decl_init :: "ir_rec \<Rightarrow> ast \<Rightarrow> ctype \<Rightarrow> ast \<Rightarrow> ir_gen" where
  "ir_decl_init rec a vt init env =
     check (ir_assignment_lvalue a) (\<lambda>(_, lvalue_direct).
     if init_single_set init then
       check (rec None init env) (\<lambda>(inner, inner_return, env).
       Inr (inner @ [mk_op IR_OP_COPY [inner_return, lvalue_direct]], ir_val_zero, env))
     else
       check (ir_decl_init_multi rec vt init lvalue_direct 0 env) (\<lambda>(os, _, env).
       Inr (os, ir_val_zero, env)))"

text \<open>
  The parts of a branch: the jump around it, its code, the copy of its value to the common
  result, and the label behind it.
\<close>

record if_else_prep =
  jumper :: "ir_op list"
  prep_body :: "ir_op list"
  assign_result :: "ir_op list"
  jump_target :: "ir_op list"

definition if_else_prep_zero :: if_else_prep where
  "if_else_prep_zero = \<lparr>jumper = [], prep_body = [], assign_result = [], jump_target = []\<rparr>"

text \<open>The clause is a list of statements (\<open>Inl\<close>) or an expression with a value (\<open>Inr\<close>).\<close>

definition ir_if_else_prepare ::
  "ir_rec \<Rightarrow> ast list + ast \<Rightarrow> ir_val option \<Rightarrow> int \<Rightarrow> int \<Rightarrow> ir_env \<Rightarrow> (if_else_prep \<times> ir_env) result" where
  "ir_if_else_prepare rec clause jump_operand jump_label assign_result_unique env =
     assert_that (clause \<noteq> Inl [])
      (assert_that (assign_result_unique < 0 \<or> \<not> isl clause)
       (check (case clause of Inl stmts \<Rightarrow> ir_block rec stmts env | Inr e \<Rightarrow> rec None e env)
         (\<lambda>(body, body_return, env).
        Inr (\<lparr>jumper =
                [case jump_operand of
                   Some v \<Rightarrow> mk_op IR_OP_JUMP_IF_ZERO [v, label_val jump_label]
                 | None \<Rightarrow> mk_op IR_OP_JUMP [label_val jump_label]],
              prep_body = body,
              assign_result =
                (if assign_result_unique \<ge> 0 then
                   (case clause of
                      Inr e \<Rightarrow>
                        [mk_op IR_OP_COPY [body_return, ir_val_tmpvar assign_result_unique (expr_type e)]]
                    | Inl _ \<Rightarrow> [])
                 else []),
              jump_target = [mk_op IR_OP_LABEL [label_val jump_label]]\<rparr>, env))))"

definition if_else_collect :: "ir_op list \<Rightarrow> if_else_prep \<Rightarrow> if_else_prep \<Rightarrow> ir_op list" where
  "if_else_collect cond_ops then_p or_p =
     cond_ops @ jumper then_p @ prep_body then_p @ assign_result then_p @ jumper or_p @
     jump_target then_p @ prep_body or_p @ assign_result or_p @ jump_target or_p"

text \<open>\<^verbatim>\<open>ir_if_else()\<close> on an \<^verbatim>\<open>if\<close> statement and on a conditional expression.\<close>

definition ir_if_else_statement :: "ir_rec \<Rightarrow> ast \<Rightarrow> ast list \<Rightarrow> ast list \<Rightarrow> ir_gen" where
  "ir_if_else_statement rec c th el env =
     (let has_else = (el \<noteq> []);
          (cond_jump_to, env) = new_label env;
          (end_jump_to, env) = (if has_else then new_label env else (-1, env))
      in check (rec None c env) (\<lambda>(cond_ops, cond_return, env).
         check (ir_if_else_prepare rec (Inl th) (Some cond_return) cond_jump_to (-1) env)
           (\<lambda>(then_p, env).
         check
           (if has_else then ir_if_else_prepare rec (Inl el) None end_jump_to (-1) env
            else Inr (if_else_prep_zero, env)) (\<lambda>(or_p, env).
         Inr (if_else_collect cond_ops then_p or_p, ir_val_zero, env)))))"

definition ir_if_else_ternary :: "ir_rec \<Rightarrow> ast \<Rightarrow> ast \<Rightarrow> ast \<Rightarrow> ctype \<Rightarrow> ir_gen" where
  "ir_if_else_ternary rec c then_expr else_expr t env =
     (let (cond_jump_to, env) = new_label env;
          (end_jump_to, env) = new_label env;
          has_value = (\<not> ctype_is_void (expr_type then_expr) \<and> \<not> ctype_is_void (expr_type else_expr));
          (uniq, env) = (if has_value then (generator env, env\<lparr>generator := generator env + 1\<rparr>)
                         else (-1, env))
      in check (rec None c env) (\<lambda>(cond_ops, cond_return, env).
         check (ir_if_else_prepare rec (Inr then_expr) (Some cond_return) cond_jump_to uniq env)
           (\<lambda>(then_p, env).
         check (ir_if_else_prepare rec (Inr else_expr) None end_jump_to uniq env) (\<lambda>(or_p, env).
         if uniq \<ge> 0 then
           Inr (if_else_collect cond_ops then_p or_p, ir_val_tmpvar uniq t, env)
         else
           assert_that (ctype_is_void (expr_type then_expr) \<and> ctype_is_void (expr_type else_expr))
             (Inr (if_else_collect cond_ops then_p or_p, dummy_val, env))))))"

text \<open>The jump out of a loop when its condition is there and false.\<close>

definition loop_exit :: "ast \<Rightarrow> ir_val \<Rightarrow> int \<Rightarrow> ir_op list result" where
  "loop_exit cond v label_end =
     (if is_null_expr cond then Inr []
      else assert_that (is_set v) (Inr [mk_op IR_OP_JUMP_IF_ZERO [v, label_val label_end]]))"

definition ir_loop ::
  "ir_rec \<Rightarrow> ast \<Rightarrow> ast list \<Rightarrow> ast \<Rightarrow> ast \<Rightarrow> int \<Rightarrow> int \<Rightarrow> int \<Rightarrow> ir_gen" where
  "ir_loop rec pc bd inc qc le lc ls env =
     check (rec None pc env) (\<lambda>(pre, precond_return, env).
     check (loop_exit pc precond_return le) (\<lambda>precond_jumper.
     check (ir_block rec bd env) (\<lambda>(body_ops, _, env).
     check (rec None inc env) (\<lambda>(incr_ops, _, env).
     check (rec None qc env) (\<lambda>(post, postcond_return, env).
     check (loop_exit qc postcond_return le) (\<lambda>postcond_jumper.
     Inr ([mk_op IR_OP_LABEL [label_val ls]] @ pre @ precond_jumper @ body_ops @
          [mk_op IR_OP_LABEL [label_val lc]] @ incr_ops @ post @ postcond_jumper @
          [mk_op IR_OP_JUMP [label_val ls], mk_op IR_OP_LABEL [label_val le]],
          ir_val_zero, env)))))))"

definition ir_jump :: "int \<Rightarrow> ir_gen" where
  "ir_jump n env = Inr ([mk_op IR_OP_JUMP [label_val n]], ir_val_zero, env)"

definition ir_label :: "int \<Rightarrow> ir_gen" where
  "ir_label n env = Inr ([mk_op IR_OP_LABEL [label_val n]], ir_val_zero, env)"

text \<open>The comparisons with the cases: each goes in front of those of the cases before it.\<close>

fun ir_case_jumpers :: "ir_rec \<Rightarrow> ir_val \<Rightarrow> ast list \<Rightarrow> ir_op list \<Rightarrow> ir_env \<Rightarrow>
    (ir_op list \<times> ir_env) result" where
  "ir_case_jumpers rec control_return [] case_jumpers env = Inr (case_jumpers, env)"
| "ir_case_jumpers rec control_return (car # cdr) case_jumpers env =
     (case car of
        NODE_CASE constant case_unique \<Rightarrow>
          check (rec None constant env) (\<lambda>(case_expr, case_return, env).
          let (v, env) = ir_val_tmpvar_gen (CTYPE_INT False) env
          in ir_case_jumpers rec control_return cdr
               (case_expr @ [mk_op IR_OP_COMPARE_EQUAL [control_return, case_return, v],
                  mk_op IR_OP_JUMP_IF_NOT_ZERO [v, label_val case_unique]] @ case_jumpers) env)
      | _ \<Rightarrow> Inl Abort)"

definition ir_switch :: "ir_rec \<Rightarrow> ast \<Rightarrow> ast list \<Rightarrow> int \<Rightarrow> int \<Rightarrow> ast list \<Rightarrow> ir_gen" where
  "ir_switch rec c bd ld le cs env =
     check (rec None c env) (\<lambda>(control_ops, control_return, env).
     check (ir_case_jumpers rec control_return cs [] env) (\<lambda>(case_jumpers, env).
     check (ir_block rec bd env) (\<lambda>(body_ops, _, env).
     Inr (control_ops @ case_jumpers @
          (if ld \<ge> 0 then [mk_op IR_OP_JUMP [label_val ld]] else []) @
          [mk_op IR_OP_JUMP [label_val le]] @ body_ops @
          [mk_op IR_OP_LABEL [label_val le]], ir_val_zero, env))))"

section \<open>Assignments\<close>

text \<open>Whether \<^verbatim>\<open>compound_assignment_twin\<close> of the left-hand side is set.\<close>

definition compound_assignment_twin :: "ast \<Rightarrow> bool" where
  "compound_assignment_twin r =
     (case unpack_cast r of
        Op_binary _ l _ _ \<Rightarrow> (case unpack_cast l of NODE_SHARED _ \<Rightarrow> True | _ \<Rightarrow> False)
      | _ \<Rightarrow> False)"

definition ir_assignment :: "ir_rec \<Rightarrow> ast \<Rightarrow> ast \<Rightarrow> ir_gen" where
  "ir_assignment rec a r env =
     check (ir_assignment_lvalue a) (\<lambda>(lvalue_indirect, lvalue_direct).
     case lvalue_indirect of
       None \<Rightarrow>
         check (rec None r env) (\<lambda>(rhs_expr, rhs_return, env).
         assert_that (is_set rhs_return)
           (Inr (rhs_expr @ [mk_op IR_OP_COPY [rhs_return, lvalue_direct]], rhs_return, env)))
     | Some ptr \<Rightarrow>
         check (rec None ptr env) (\<lambda>(addr, addr_return, env).
         check
           (if compound_assignment_twin r then
              check (referent_of (expr_type ptr)) (\<lambda>ref.
              let (glue, v, env) = ir_assignment_lvalue_load_before_store addr_return ref env
              in Inr ([glue], Some v, env))
            else Inr ([], None, env)) (\<lambda>(glue, ud, env).
         check (rec ud r env) (\<lambda>(rhs_expr, rhs_return, env).
         assert_that (is_set rhs_return)
           (Inr (addr @ glue @ rhs_expr @ [mk_op IR_OP_STORE [rhs_return, addr_return]],
              rhs_return, env))))))"

definition is_decrement :: "unary_node \<Rightarrow> bool" where
  "is_decrement u = (u \<in> {Prefix EXPRESSION_PREDECREMENT, EXPRESSION_POSTDECREMENT})"

definition is_postfix :: "unary_node \<Rightarrow> bool" where
  "is_postfix u = (u \<in> {EXPRESSION_POSTDECREMENT, EXPRESSION_POSTINCREMENT})"

text \<open>The operation on \<open>v\<close>, the variable or the copy of what the pointer points to.\<close>

definition incr_decr_op :: "unary_node \<Rightarrow> ctype \<Rightarrow> ir_val \<Rightarrow> ir_op result" where
  "incr_decr_op u t v =
     (if \<not> ctype_is_pointer t then
        Inr (mk_op (if is_decrement u then IR_OP_UNARY_DECREMENT else IR_OP_UNARY_INCREMENT) [v, v])
      else
        check (size_of (referent t)) (\<lambda>n.
        Inr (mk_op IR_OP_POINTER_ADD
          [v, constant_val (if is_decrement u then -1 else 1) (CTYPE_LONG False),
           constant_val n (CTYPE_LONG False), v])))"

definition ir_incr_decr :: "ir_rec \<Rightarrow> ast \<Rightarrow> unary_node \<Rightarrow> ctype \<Rightarrow> ir_gen" where
  "ir_incr_decr rec a u t env =
     check (ir_assignment_lvalue a) (\<lambda>(lvalue_indirect, lvalue_direct).
     check
       (case lvalue_indirect of
          None \<Rightarrow> Inr ([], ir_val_zero, [], lvalue_direct, env)
        | Some ptr \<Rightarrow>
            check (rec None ptr env) (\<lambda>(addr, addr_return, env).
            check (referent_of (expr_type ptr)) (\<lambda>ref.
            let (load, v, env) = ir_assignment_lvalue_load_before_store addr_return ref env
            in Inr (addr, addr_return, [load], v, env)))) (\<lambda>(addr, addr_return, load, v, env).
     check (incr_decr_op u t v) (\<lambda>incr.
     let store = (if lvalue_indirect = None then [] else [mk_op IR_OP_STORE [v, addr_return]]);
         (stash, res, env) =
           (if is_postfix u then
              (let (w, env) = ir_val_tmpvar_gen t env
               in ([if lvalue_indirect = None then mk_op IR_OP_COPY [lvalue_direct, w]
                    else mk_op IR_OP_LOAD [addr_return, w]], w, env))
            else ([], v, env))
     in Inr (addr @ stash @ load @ [incr] @ store, res, env))))"

section \<open>Operators\<close>

definition unary_opcode :: "unary_node \<Rightarrow> ctype \<Rightarrow> ir_opcode result" where
  "unary_opcode u t =
     (case u of
        Prefix EXPRESSION_UNARY_COMPLEMENT \<Rightarrow> Inr IR_OP_UNARY_COMPLEMENT
      | Prefix EXPRESSION_UNARY_NEGATE \<Rightarrow> Inr IR_OP_UNARY_NEGATE
      | Prefix EXPRESSION_UNARY_NOT \<Rightarrow> Inr IR_OP_UNARY_NOT
      | Prefix EXPRESSION_UNARY_DEREFERENCE \<Rightarrow>
          Inr (if ctype_is_array t then IR_OP_COPY else IR_OP_LOAD)
      | Prefix EXPRESSION_UNARY_ADDRESS_OF \<Rightarrow> Inr IR_OP_GET_ADDRESS
      | _ \<Rightarrow> Inl Abort)"

definition ir_unary_op :: "ir_rec \<Rightarrow> unary_node \<Rightarrow> ast \<Rightarrow> ctype \<Rightarrow> ir_gen" where
  "ir_unary_op rec u e t env =
     check (unary_opcode u t) (\<lambda>oc.
     check (rec None e env) (\<lambda>(inner, inner_return, env).
     assert_that (is_set inner_return)
       (if oc = IR_OP_GET_ADDRESS \<and> ctype_is_array (expr_type e)
        then Inr (inner, inner_return, env)
        else
          let (v, env) = ir_val_tmpvar_gen t env;
              v = v\<lparr>val_type := ctype_array_decay_to_pointer (val_type v)\<rparr>
          in Inr (inner @ [mk_op oc [inner_return, v]], v, env))))"

definition ir_sizeof :: "ast \<Rightarrow> ctype \<Rightarrow> ir_gen" where
  "ir_sizeof e t env =
     assert_that (\<not> ctype_is_incomplete (expr_type e))
      (check (size_of (expr_type e)) (\<lambda>n.
       assert_that (ctype_is_integer t) (Inr ([], constant_val n t, env))))"

definition cast_opcode :: "ctype \<Rightarrow> ctype \<Rightarrow> ir_opcode result" where
  "cast_opcode from_type to_type =
     (if ctype_is_floating_point from_type \<noteq> ctype_is_floating_point to_type then
        Inr (if ctype_is_floating_point from_type \<and>
                (ctype_is_signed to_type \<or> ctype_is_charlike to_type) then IR_OP_CTYPE_DOUBLE_TO_INT
             else if ctype_is_floating_point from_type then IR_OP_CTYPE_DOUBLE_TO_UINT
             else if ctype_is_signed from_type then IR_OP_CTYPE_INT_TO_DOUBLE
             else IR_OP_CTYPE_UINT_TO_DOUBLE)
      else
        check (size_of from_type) (\<lambda>m.
        check (size_of to_type) (\<lambda>n.
        Inr (if m = n \<or> ctype_is_pointer from_type \<and> ctype_is_pointer to_type then IR_OP_COPY
             else if m > n then IR_OP_CTYPE_TRUNCATE
             else if ctype_is_signed from_type then IR_OP_CTYPE_SIGN_EXTEND
             else IR_OP_CTYPE_ZERO_EXTEND))))"

definition ir_cast :: "ir_rec \<Rightarrow> ir_val option \<Rightarrow> ctype \<Rightarrow> ast \<Rightarrow> ctype \<Rightarrow> ir_gen" where
  "ir_cast rec ud to_type e t env =
     (if ctype_is_void to_type then
        check (rec ud e env) (\<lambda>(os, _, env). Inr (os, dummy_val, env))
      else if ctype_is_equal (expr_type e) to_type then rec ud e env
      else
        check (cast_opcode (expr_type e) to_type) (\<lambda>oc.
        check (rec ud e env) (\<lambda>(inner, inner_return, env).
        assert_that (is_set inner_return)
          (let (v, env) = ir_val_tmpvar_gen t env;
               v = v\<lparr>val_type := ctype_array_decay_to_pointer (val_type v)\<rparr>
           in Inr (inner @ [mk_op oc [inner_return, v]], v, env)))))"

definition ir_ptr_ptr_math :: "ir_rec \<Rightarrow> ir_val option \<Rightarrow> ast \<Rightarrow> ast \<Rightarrow> ctype \<Rightarrow> ir_gen" where
  "ir_ptr_ptr_math rec ud l r t env =
     assert_that (ctype_is_integer t \<and> ctype_is_pointer (expr_type l) \<and> ctype_is_pointer (expr_type r))
      (check (rec ud l env) (\<lambda>(left, left_return, env).
       assert_that (is_set left_return)
        (check (rec None r env) (\<lambda>(right, right_return, env).
         assert_that (is_set right_return)
          (let (v, env) = ir_val_tmpvar_gen t env in
           check (size_of (referent (expr_type l))) (\<lambda>scale.
           assert_that (scale > 0)
            (let (w, env) = ir_val_tmpvar_gen t env in
             Inr (left @ right @ [mk_op IR_OP_BINARY_SUBTRACT [left_return, right_return, v],
                    mk_op IR_OP_BINARY_DIVIDE [v, constant_val scale (val_type v), w]], w, env))))))))"

text \<open>\<open>sub\<close> for a subtraction: the index is negated first.\<close>

definition ir_ptr_math :: "ir_rec \<Rightarrow> ir_val option \<Rightarrow> bool \<Rightarrow> ast \<Rightarrow> ast \<Rightarrow> ctype \<Rightarrow> ir_gen" where
  "ir_ptr_math rec ud sub l r t env =
     (let swap_lhs_rhs = (\<not> sub \<and> \<not> ctype_is_pointer (expr_type l));
          pointer = (if swap_lhs_rhs then r else l)
      in check (rec ud l env) (\<lambda>(left, left_return, env).
         assert_that (is_set left_return)
          (check (rec None r env) (\<lambda>(right, right_return, env).
           assert_that (is_set right_return)
            (let (right, right_return, env) =
                   (if sub then
                      let (v, env) = ir_val_tmpvar_gen (expr_type r) env
                      in (right @ [mk_op IR_OP_UNARY_NEGATE [right_return, v]], v, env)
                    else (right, right_return, env))
             in check (referent_of (expr_type pointer)) (\<lambda>ref.
                check (size_of ref) (\<lambda>scale.
                assert_that (scale > 0)
                 (let (v, env) = ir_val_tmpvar_gen t env;
                      v = v\<lparr>val_type := ctype_array_decay_to_pointer (val_type v)\<rparr>;
                      (p, i) = (if swap_lhs_rhs then (right_return, left_return)
                                else (left_return, right_return))
                  in Inr (left @ right @
                       [mk_op IR_OP_POINTER_ADD [p, i, constant_val scale ctype_zero, v]], v, env)))))))))"

fun binary_ir_opcode :: "infix_binary \<Rightarrow> ir_opcode result" where
  "binary_ir_opcode EXPRESSION_BINARY_ADD = Inr IR_OP_BINARY_ADD"
| "binary_ir_opcode EXPRESSION_BINARY_SUBTRACT = Inr IR_OP_BINARY_SUBTRACT"
| "binary_ir_opcode EXPRESSION_BINARY_MULTIPLY = Inr IR_OP_BINARY_MULTIPLY"
| "binary_ir_opcode EXPRESSION_BINARY_DIVIDE = Inr IR_OP_BINARY_DIVIDE"
| "binary_ir_opcode EXPRESSION_BINARY_REMAINDER = Inr IR_OP_BINARY_REMAINDER"
| "binary_ir_opcode EXPRESSION_BITWISE_AND = Inr IR_OP_BITWISE_AND"
| "binary_ir_opcode EXPRESSION_BITWISE_OR = Inr IR_OP_BITWISE_OR"
| "binary_ir_opcode EXPRESSION_BITWISE_XOR = Inr IR_OP_BITWISE_XOR"
| "binary_ir_opcode EXPRESSION_BITWISE_SHIFT_LEFT = Inr IR_OP_BITWISE_SHIFT_LEFT"
| "binary_ir_opcode EXPRESSION_BITWISE_SHIFT_RIGHT = Inr IR_OP_BITWISE_SHIFT_RIGHT"
| "binary_ir_opcode EXPRESSION_COMPARE_EQUAL = Inr IR_OP_COMPARE_EQUAL"
| "binary_ir_opcode EXPRESSION_COMPARE_NOT_EQUAL = Inr IR_OP_COMPARE_NOT_EQUAL"
| "binary_ir_opcode EXPRESSION_COMPARE_LESS_THAN = Inr IR_OP_COMPARE_LESS_THAN"
| "binary_ir_opcode EXPRESSION_COMPARE_LESS_THAN_EQ = Inr IR_OP_COMPARE_LESS_THAN_EQ"
| "binary_ir_opcode EXPRESSION_COMPARE_MORE_THAN = Inr IR_OP_COMPARE_MORE_THAN"
| "binary_ir_opcode EXPRESSION_COMPARE_MORE_THAN_EQ = Inr IR_OP_COMPARE_MORE_THAN_EQ"
| "binary_ir_opcode _ = Inl Abort"

definition ir_binary_op :: "ir_rec \<Rightarrow> ir_val option \<Rightarrow> infix_binary \<Rightarrow> ast \<Rightarrow> ast \<Rightarrow> ctype \<Rightarrow> ir_gen" where
  "ir_binary_op rec ud b l r t env =
     (let pl = ctype_is_pointer (expr_type l); pr = ctype_is_pointer (expr_type r) in
      if b = EXPRESSION_BINARY_ADD \<and> (pl \<or> pr) then ir_ptr_math rec ud False l r t env
      else if b = EXPRESSION_BINARY_SUBTRACT \<and> pl \<and> pr then ir_ptr_ptr_math rec ud l r t env
      else if b = EXPRESSION_BINARY_SUBTRACT \<and> pl then ir_ptr_math rec ud True l r t env
      else
        check (binary_ir_opcode b) (\<lambda>oc.
        check (rec ud l env) (\<lambda>(left, left_return, env).
        assert_that (is_set left_return)
         (check (rec None r env) (\<lambda>(right, right_return, env).
          assert_that (is_set right_return)
           (let (v, env) = ir_val_tmpvar_gen t env
            in Inr (left @ right @ [mk_op oc [left_return, right_return, v]], v, env)))))))"

definition ir_logical_op_arm :: "ir_rec \<Rightarrow> ir_val option \<Rightarrow> ast \<Rightarrow> bool \<Rightarrow> int \<Rightarrow> ir_env \<Rightarrow>
    (ir_op list \<times> ir_env) result" where
  "ir_logical_op_arm rec ud a jz jump_label env =
     check (rec ud a env) (\<lambda>(inner, inner_return, env).
     Inr (inner @ [mk_op (if jz then IR_OP_JUMP_IF_ZERO else IR_OP_JUMP_IF_NOT_ZERO)
            [inner_return, label_val jump_label]], env))"

definition ir_logical_op :: "ir_rec \<Rightarrow> ir_val option \<Rightarrow> bool \<Rightarrow> ast \<Rightarrow> ast \<Rightarrow> ctype \<Rightarrow> ir_gen" where
  "ir_logical_op rec ud jz l r t env =
     (let (lf, env) = new_label env in
      check (ir_logical_op_arm rec ud l jz lf env) (\<lambda>(left, env).
      check (ir_logical_op_arm rec None r jz lf env) (\<lambda>(right, env).
      let (label_end, env) = new_label env;
          (v, env) = ir_val_tmpvar_gen t env
      in Inr (left @ right @
           [mk_op IR_OP_COPY [constant_val (if jz then 1 else 0) ctype_zero, v],
            mk_op IR_OP_JUMP [label_val label_end],
            mk_op IR_OP_LABEL [label_val lf],
            mk_op IR_OP_COPY [constant_val (if jz then 0 else 1) ctype_zero, v],
            mk_op IR_OP_LABEL [label_val label_end]], v, env))))"

text \<open>An argument past the end of \<^verbatim>\<open>caller->args\<close> would be written outside of it.\<close>

fun ir_call_args :: "ir_rec \<Rightarrow> ast list \<Rightarrow> ir_val list \<Rightarrow> ir_env \<Rightarrow>
    (ir_op list \<times> ir_val list \<times> ir_env) result" where
  "ir_call_args rec [] values env = Inr ([], values, env)"
| "ir_call_args rec (car # cdr) values env =
     check (rec None car env) (\<lambda>(os, arg_value, env).
     assert_that (is_set arg_value \<and> length values < FUNCTION_PARAMETER_LIMIT)
      (check (ir_call_args rec cdr (values @ [arg_value]) env) (\<lambda>(later, values, env).
       Inr (os @ later, values, env))))"

definition ir_call :: "ir_rec \<Rightarrow> ast_symbol \<Rightarrow> ast list \<Rightarrow> ctype \<Rightarrow> ir_gen" where
  "ir_call rec callee args t env =
     check (ir_call_args rec args [] env) (\<lambda>(inner, values, env).
     assert_that (length values < FUNCTION_PARAMETER_LIMIT)
      (let (v, env) = (if ctype_is_void t then (dummy_val, env) else ir_val_tmpvar_gen t env)
       in Inr (inner @ [\<lparr>ir_opcode = IR_OP_CALL, ir_fun = Some (as_name callee),
                          ir_args = values @ [v]\<rparr>], v, env)))"

section \<open>Any node\<close>

text \<open>
  An array decays to its address. Behind a load of the array the load is taken back and the
  value is the pointer that it read.
\<close>

definition ir_expr_get_addr_implicit :: "ir_code \<Rightarrow> ir_code" where
  "ir_expr_get_addr_implicit out =
     (case out of
        (os, v, env) \<Rightarrow>
          if \<not> ctype_is_array (val_type v) then out
          else if length os \<ge> 2 \<and> ir_opcode (last os) = IR_OP_LOAD then
            (butlast os,
             (case filter is_set (ir_args (last (butlast os))) of [] \<Rightarrow> v | vs \<Rightarrow> last vs), env)
          else
            let (w, env) = ir_val_tmpvar_gen (val_type v) env;
                w = w\<lparr>val_type := ctype_array_decay_to_pointer (val_type w)\<rparr>
            in (os @ [mk_op IR_OP_GET_ADDRESS [v, w]], w, env))"

definition ir_constant :: "constant_value \<Rightarrow> ctype \<Rightarrow> ir_gen" where
  "ir_constant v t env =
     (case t of
        CTYPE_DOUBLE _ \<Rightarrow>
          Inr ([], ir_val_zero\<lparr>subtype := IR_VAL_CONSTANT, val_dnum := constant_double v, val_type := t\<rparr>, env)
      | CTYPE_VOID _ \<Rightarrow> Inl Abort
      | _ \<Rightarrow> Inr ([], constant_val (constant_num v) t, env))"

text \<open>The position in \<^verbatim>\<open>enum ast_nodetype\<close> of the node types that are refused.\<close>

fun refused_node_type :: "ast \<Rightarrow> int" where
  "refused_node_type (NODE_FUNCTION _ _ _ _ _) = 1"
| "refused_node_type (NODE_CONSTANT_STR _ _) = 15"
| "refused_node_type (Op_binary (Infix_compound c) _ _ _) =
     (case c of
        EXPRESSION_COMPOUND_ASSIGN_ADD \<Rightarrow> 52 | EXPRESSION_COMPOUND_ASSIGN_SUB \<Rightarrow> 53
      | EXPRESSION_COMPOUND_ASSIGN_MUL \<Rightarrow> 54 | EXPRESSION_COMPOUND_ASSIGN_DIV \<Rightarrow> 55
      | EXPRESSION_COMPOUND_ASSIGN_REM \<Rightarrow> 56 | EXPRESSION_COMPOUND_ASSIGN_AND \<Rightarrow> 57
      | EXPRESSION_COMPOUND_ASSIGN_OR \<Rightarrow> 58 | EXPRESSION_COMPOUND_ASSIGN_XOR \<Rightarrow> 59
      | EXPRESSION_COMPOUND_ASSIGN_SL \<Rightarrow> 60 | EXPRESSION_COMPOUND_ASSIGN_SR \<Rightarrow> 61)"
| "refused_node_type _ = 21"

text \<open>\<^verbatim>\<open>*&\<close> and \<^verbatim>\<open>&*\<close> are no-ops: the operand of the inner operator.\<close>

definition cancelled_operand :: "unary_node \<Rightarrow> ast \<Rightarrow> ast option" where
  "cancelled_operand u e =
     (case ir_unpack_parens e of
        Op_unary u' grandchild _ \<Rightarrow>
          if u = DEREFERENCE \<and> u' = ADDRESS_OF \<or> u = ADDRESS_OF \<and> u' = DEREFERENCE
          then Some grandchild else None
      | _ \<Rightarrow> None)"

definition ir_unary_node :: "ir_rec \<Rightarrow> ast \<Rightarrow> unary_node \<Rightarrow> ast \<Rightarrow> ctype \<Rightarrow> ir_gen" where
  "ir_unary_node rec a u e t env =
     (if u = EXPRESSION_PAREN_ENCLOSED then rec None e env
      else if incr_decr_node u then ir_incr_decr rec a u t env
      else if u = Prefix EXPRESSION_UNARY_SIZE_OF then ir_sizeof e t env
      else case cancelled_operand u e of
             Some grandchild \<Rightarrow> rec None grandchild env
           | None \<Rightarrow> ir_unary_op rec u e t env)"

definition ir_binary_node :: "ir_rec \<Rightarrow> ir_val option \<Rightarrow> ast \<Rightarrow> infix_binary \<Rightarrow> ast \<Rightarrow> ast \<Rightarrow> ctype \<Rightarrow> ir_gen" where
  "ir_binary_node rec ud a b l r t env =
     (if b = EXPRESSION_VARIABLE_ASSIGNMENT then ir_assignment rec a r env
      else if b = EXPRESSION_LOGICAL_AND then ir_logical_op rec ud True l r t env
      else if b = EXPRESSION_LOGICAL_OR then ir_logical_op rec ud False l r t env
      else ir_binary_op rec ud b l r t env)"

definition ir_node :: "ir_rec \<Rightarrow> ir_val option \<Rightarrow> ast \<Rightarrow> ir_gen" where
  "ir_node rec ud a env =
     (case a of
        NODE_CONSTANT v t \<Rightarrow> ir_constant v t env
      | NODE_FUNCTION_RETURN_STATEMENT e \<Rightarrow> ir_ret_op rec e env
      | NODE_BLOCK items \<Rightarrow>
          check (ir_block rec items env) (\<lambda>(os, _, env). Inr (os, ir_val_zero, env))
      | NODE_DECLARATION i sp vt init t \<Rightarrow>
          (case init of None \<Rightarrow> Inr ([], ir_val_zero, env) | Some e \<Rightarrow> ir_decl_init rec a vt e env)
      | NODE_IF_ELSE c th el \<Rightarrow> ir_if_else_statement rec c th el env
      | Op_ternary c x y t \<Rightarrow> ir_if_else_ternary rec c x y t env
      | NODE_LOOP pre bd inc post le lc ls \<Rightarrow> ir_loop rec pre bd inc post le lc ls env
      | NODE_BREAK n \<Rightarrow> ir_jump n env
      | NODE_CONTINUE n \<Rightarrow> ir_jump n env
      | NODE_GOTO _ n \<Rightarrow> ir_jump n env
      | NODE_LABEL _ n \<Rightarrow> ir_label n env
      | NODE_SWITCH c bd ld le cs \<Rightarrow> ir_switch rec c bd ld le cs env
      | NODE_CASE _ n \<Rightarrow> ir_label n env
      | NODE_CASE_DEFAULT n \<Rightarrow> ir_label n env
      | NODE_EXPRESSION_VARIABLE_USAGE _ _ \<Rightarrow>
          check (ir_assignment_lvalue a) (\<lambda>(_, v). Inr ([], v, env))
      | NODE_EXPRESSION_NULL _ \<Rightarrow> Inr ([], ir_val_zero, env)
      | NODE_EXPRESSION_INITIALIZER sg mu _ \<Rightarrow>
          (case sg of
             Some e \<Rightarrow> assert_that (mu = []) (rec None e env)
           | None \<Rightarrow> Inl Abort)
      | Op_unary u e t \<Rightarrow> ir_unary_node rec a u e t env
      | Op_binary (Infix_binary b) l r t \<Rightarrow> ir_binary_node rec ud a b l r t env
      | NODE_EXPRESSION_CAST to_type e t \<Rightarrow> ir_cast rec ud to_type e t env
      | NODE_EXPRESSION_FUNCTION_CALL callee args t \<Rightarrow> ir_call rec callee args t env
      | _ \<Rightarrow> make_result_ti (Other ERR_IR_EXPECT_AST_NODE_EXPRESSION) (refused_node_type a))"

text \<open>
  A shared node is the node itself. \<open>ud\<close> reaches it through the casts and the left operands
  in front of it, which are all that \<^verbatim>\<open>sema.c\<close> puts there.
\<close>

fun ir_expr :: "nat \<Rightarrow> ir_val option \<Rightarrow> ast \<Rightarrow> ir_gen" where
  "ir_expr 0 ud a env = Inl NoFuel"
| "ir_expr (Suc n) ud (NODE_SHARED a) env =
     (case ud of Some v \<Rightarrow> Inr ([], v, env) | None \<Rightarrow> ir_expr n None a env)"
| "ir_expr (Suc n) ud a env =
     check (ir_node (ir_expr n) ud a env) (\<lambda>out. Inr (ir_expr_get_addr_implicit out))"

section \<open>Functions and the program\<close>

definition ir_budget :: "ast list \<Rightarrow> nat" where
  "ir_budget stmts = size_list size stmts"

definition ir_func :: "ast_symbol \<Rightarrow> ctype \<Rightarrow> ast_parameter list \<Rightarrow> ast list \<Rightarrow> ir_env \<Rightarrow>
    (ir_function \<times> ir_env) result" where
  "ir_func identifier ret_type params stmts env =
     (let ps = foreach_function_parameter params in
      assert_that (length ps \<le> FUNCTION_PARAMETER_LIMIT)
       (check (ir_block (ir_expr (ir_budget stmts)) stmts env) (\<lambda>(os, _, env).
        Inr (\<lparr>ir_fn_identifier = as_name identifier, ir_fn_linkage = IR_LINKAGE_INTERNAL,
              ir_params = map (\<lambda>p. ir_val_tmpvar (as_unique (p_symbol p)) (parameter_type p)) ps,
              ir_ops = os @
                (if os \<noteq> [] \<and> ir_opcode (last os) = IR_OP_RET then []
                 else [mk_op IR_OP_RET
                   [if ctype_is_void ret_type then dummy_val else constant_val 0 ctype_zero]])\<rparr>, env))))"

definition ir_var :: "symbol \<Rightarrow> ir_variable result" where
  "ir_var s =
     check (ir_map_linkage (linkage (sym_linkage s))) (\<lambda>l.
     check
       (case initial (sym_linkage s) of
          INITIAL_VALUE_NO_INITIALIZER \<Rightarrow> Inl Abort
        | INITIAL_VALUE_TENTATIVE \<Rightarrow> constant_make_zero (c89type s)
        | INITIAL_VALUE_CONSTANT \<Rightarrow> Inr (initializer (sym_linkage s))) (\<lambda>init.
     Inr \<lparr>ir_var_identifier = sym_name s, ir_var_linkage = l, ir_var_initializer = init\<rparr>))"

definition ir_string_literal :: "symbol \<Rightarrow> ir_str result" where
  "ir_string_literal s =
     assert_that (initial (sym_linkage s) = INITIAL_VALUE_CONSTANT)
       (Inr \<lparr>ir_string_unique = unique s, ir_str_initializer = initializer (sym_linkage s)\<rparr>)"

fun ir_functions_of :: "ast list \<Rightarrow> ir_env \<Rightarrow> (ir_function list \<times> ir_env) result" where
  "ir_functions_of [] env = Inr ([], env)"
| "ir_functions_of (car # cdr) env =
     (case car of
        NODE_FUNCTION i sp rt ps block \<Rightarrow>
          (case block of
             None \<Rightarrow> ir_functions_of cdr env
           | Some (NODE_BLOCK stmts) \<Rightarrow>
               check (ir_func i rt ps stmts env) (\<lambda>(f, env).
               check (ir_functions_of cdr env) (\<lambda>(fs, env). Inr (f # fs, env)))
           | Some _ \<Rightarrow> Inl Abort)
      | NODE_DECLARATION _ _ _ _ _ \<Rightarrow> ir_functions_of cdr env
      | _ \<Rightarrow> Inl Abort)"

text \<open>The first function with the name of the symbol gets its linkage.\<close>

fun set_linkage :: "symbol \<Rightarrow> ir_function list \<Rightarrow> ir_function list result" where
  "set_linkage s [] = Inr []"
| "set_linkage s (f # fs) =
     (if sym_name s = ir_fn_identifier f then
        check (ir_map_linkage (linkage (sym_linkage s))) (\<lambda>l. Inr (f\<lparr>ir_fn_linkage := l\<rparr> # fs))
      else check (set_linkage s fs) (\<lambda>fs. Inr (f # fs)))"

fun set_linkages :: "symbol list \<Rightarrow> ir_function list \<Rightarrow> ir_function list result" where
  "set_linkages [] fs = Inr fs"
| "set_linkages (s # ss) fs =
     assert_that (stype s = SYMBOL_FUNCTION_DECLARATION \<or> stype s = SYMBOL_FUNCTION_DEFINITION)
       (check (set_linkage s fs) (\<lambda>fs. set_linkages ss fs))"

fun ir_vars :: "symbol list \<Rightarrow> ir_variable list result" where
  "ir_vars [] = Inr []"
| "ir_vars (s # ss) =
     assert_that (stype s = SYMBOL_VARIABLE)
       (if initial (sym_linkage s) = INITIAL_VALUE_NO_INITIALIZER then ir_vars ss
        else check (ir_var s) (\<lambda>v. check (ir_vars ss) (\<lambda>vs. Inr (v # vs))))"

fun ir_string_literals :: "symbol list \<Rightarrow> ir_str list result" where
  "ir_string_literals [] = Inr []"
| "ir_string_literals (s # ss) =
     assert_that (stype s = SYMBOL_STRING_LITERAL)
       (check (ir_string_literal s) (\<lambda>t. check (ir_string_literals ss) (\<lambda>ts. Inr (t # ts))))"

record symbol_table =
  symbol_functions :: "symbol list"
  symbol_variables :: "symbol list"
  symbol_string_literals :: "symbol list"

definition ir_program :: "ast list \<Rightarrow> symbol_table \<Rightarrow> ir_env \<Rightarrow> intermediate result" where
  "ir_program gs syms env =
     check (ir_functions_of gs env) (\<lambda>(fs, env).
     check (set_linkages (symbol_functions syms) fs) (\<lambda>fs.
     check (ir_vars (symbol_variables syms)) (\<lambda>vs.
     check (ir_string_literals (symbol_string_literals syms)) (\<lambda>ss.
     Inr \<lparr>ir_functions = fs, ir_variables = vs, ir_strings = ss, ir_state = env\<rparr>))))"

definition ir_init :: "program \<Rightarrow> int \<Rightarrow> int \<Rightarrow> symbol_table \<Rightarrow> intermediate result" where
  "ir_init a base_id base_label syms =
     ir_program (globals a) syms \<lparr>generator = base_id, ir_labels = base_label\<rparr>"

end
