(* ===== verification/IrTotal.thy ===== *)
theory IrTotal
  imports IrGen
begin

text \<open>
  The translation to three-address code comes to an end: on a tree that is smaller than its
  budget no routine runs out of it. The locale \<open>translates\<close> states what the routines for
  one kind of node rely on, the recursive call; \<open>ir_expr\<close> provides it.
\<close>

definition ends :: "'a result \<Rightarrow> bool" where "ends m \<longleftrightarrow> m \<noteq> Inl NoFuel"

named_theorems ends_intros \<open>introduction rules of termination\<close>

lemma ends_simps [simp]:
  "ends (Inr x)" "ends (Inl Abort)" "ends (Inl (Error e i s))" "\<not> ends (Inl NoFuel)"
  "ends (make_result_ti e i)"
  by (simp_all add: ends_def)

lemma ends_check [ends_intros]: "ends m \<Longrightarrow> (\<And>x. m = Inr x \<Longrightarrow> ends (k x)) \<Longrightarrow> ends (check m k)"
  by (cases m) (auto simp: ends_def)

lemma ends_assert [ends_intros]: "(c \<Longrightarrow> ends m) \<Longrightarrow> ends (assert_that c m)"
  by (cases c) auto

lemma ends_if [ends_intros]: "(c \<Longrightarrow> ends m) \<Longrightarrow> (\<not> c \<Longrightarrow> ends m') \<Longrightarrow> ends (if c then m else m')"
  by simp

lemma ends_case_prod [ends_intros]: "(\<And>x y. p = (x, y) \<Longrightarrow> ends (k x y)) \<Longrightarrow> ends (case p of (x, y) \<Rightarrow> k x y)"
  by (cases p) auto

lemma ends_case_option [ends_intros]:
  "(x = None \<Longrightarrow> ends m) \<Longrightarrow> (\<And>y. x = Some y \<Longrightarrow> ends (k y)) \<Longrightarrow>
     ends (case x of None \<Rightarrow> m | Some y \<Rightarrow> k y)"
  by (cases x) auto

lemma ends_case_sum [ends_intros]:
  "(\<And>y. x = Inl y \<Longrightarrow> ends (h y)) \<Longrightarrow> (\<And>y. x = Inr y \<Longrightarrow> ends (k y)) \<Longrightarrow>
     ends (case x of Inl y \<Rightarrow> h y | Inr y \<Rightarrow> k y)"
  by (cases x) auto

lemma ends_Let [ends_intros]: "ends (k v) \<Longrightarrow> ends (let x = v in k x)"
  by (simp add: Let_def)

section \<open>Routines without a recursive call\<close>

lemma size_of_ends [simp, ends_intros]: "ends (size_of c)"
  by (simp add: size_of_def size_bytes_word)

lemma referent_of_ends [simp, ends_intros]: "ends (referent_of c)"
  by (simp add: referent_of_def split: option.split)

lemma var_of_ends [simp]: "ends (var_of a)"
  by (cases a) (simp_all add: var_of_def)

lemma lvalue_symbol_ends [simp]: "ends (lvalue_symbol a)"
proof -
  have "ends (case c of NODE_EXPRESSION_CAST _ inner _ \<Rightarrow> var_of inner | _ \<Rightarrow> var_of c)" for c
    by (cases c) simp_all
  then show ?thesis by (cases a) (simp_all add: lvalue_symbol_def split: option.split)
qed

lemma lvalue_ends [simp, ends_intros]: "ends (ir_assignment_lvalue a)"
  unfolding ir_assignment_lvalue_def by (auto intro!: ends_intros)

lemma opcode_ends [simp, ends_intros]:
  "ends (unary_opcode u t)" "ends (binary_ir_opcode b)" "ends (cast_opcode c d)"
  "ends (incr_decr_op u t v)" "ends (loop_exit a v n)" "ends (ir_map_linkage l)"
  "ends (single_within a)"
  by (cases b; auto intro!: ends_intros simp: unary_opcode_def cast_opcode_def incr_decr_op_def
      loop_exit_def ir_map_linkage_def single_within_def
      split: unary_node.split prefix_op.split ast.split)+

lemma leaf_ends [simp, ends_intros]:
  "ends (ir_sizeof e t env)" "ends (ir_jump n env)" "ends (ir_label n env)" "ends (ir_constant v t env)"
  unfolding ir_sizeof_def ir_jump_def ir_label_def ir_constant_def
  by (auto intro!: ends_intros split: ctype.split)

lemma size_through_pointer: "lvalue_through_pointer a = Some e \<Longrightarrow> size e < size a"
proof -
  assume "lvalue_through_pointer a = Some e"
  then obtain c where c: "lvalue_candidate a = Some c" and e: "size e < size c"
    by (auto simp: lvalue_through_pointer_def le_imp_less_Suc size_unpack_parens
        split: option.splits ast.splits if_splits)
  from c have "size c < size a"
    by (auto simp: lvalue_candidate_def le_imp_less_Suc size_unpack_parens trans_less_add1
        split: ast.splits if_splits)
      (metis add_lessD1 less_add_Suc1 less_SucI nat_le_iff_add size_unpack_parens le_imp_less_Suc trans_less_add1)
  with e show ?thesis by simp
qed

lemma lvalue_pointer: "ir_assignment_lvalue a = Inr (Some e, v) \<Longrightarrow> lvalue_through_pointer a = Some e"
  by (auto simp: ir_assignment_lvalue_def check_iff Let_def split: option.splits)

lemma size_cancelled: "cancelled_operand u e = Some g \<Longrightarrow> size g < size e"
  using size_unpack_parens [of e]
  by (auto simp: cancelled_operand_def split: ast.splits if_splits)

lemma size_in_list: "a \<in> set as \<Longrightarrow> size a < size_list size as"
  by (induction as) auto

section \<open>Routines with a recursive call\<close>

locale translates =
  fixes rec :: ir_rec and n :: nat
  assumes rec_ends: "size a < n \<Longrightarrow> ends (rec ud a env)"
begin

lemma block_ends [ends_intros]: "size_list size as \<le> n \<Longrightarrow> ends (ir_block rec as env)"
  by (induction as arbitrary: env) (auto intro!: ends_intros rec_ends)

lemma ret_ends: "size e < n \<Longrightarrow> ends (ir_ret_op rec e env)"
  unfolding ir_ret_op_def by (auto intro!: ends_intros rec_ends)

lemma decl_init_single_ends [ends_intros]:
  "size a < n \<Longrightarrow> ends (ir_decl_init_single rec t a v pos env)"
  unfolding ir_decl_init_single_def by (auto intro!: ends_intros rec_ends)

lemma decl_init_multi_ends_all:
  "r = rec \<longrightarrow> size a < n \<longrightarrow> ends (ir_decl_init_multi r t a v pos env)"
  "r = rec \<longrightarrow> size_list size as < n \<longrightarrow> ends (ir_decl_init_list r t as v pos env)"
  by (induction r t a v pos env and r t as v pos env rule: ir_decl_init_multi_ir_decl_init_list.induct)
    (auto intro!: ends_intros)

lemmas decl_init_multi_ends [ends_intros] = decl_init_multi_ends_all [rule_format, OF refl]

lemma decl_init_ends: "size e < n \<Longrightarrow> ends (ir_decl_init rec a t e env)"
  unfolding ir_decl_init_def by (auto intro!: ends_intros rec_ends)

lemma prepare_ends [ends_intros]:
  "(case clause of Inl as \<Rightarrow> size_list size as \<le> n | Inr e \<Rightarrow> size e < n) \<Longrightarrow>
     ends (ir_if_else_prepare rec clause jump l uniq env)"
  unfolding ir_if_else_prepare_def
  by (cases clause) (auto intro!: ends_intros rec_ends)

lemma if_else_ends:
  "size c < n \<Longrightarrow> size_list size th \<le> n \<Longrightarrow> size_list size el \<le> n \<Longrightarrow>
     ends (ir_if_else_statement rec c th el env)"
  unfolding ir_if_else_statement_def by (auto intro!: ends_intros rec_ends)

lemma ternary_ends:
  "size c < n \<Longrightarrow> size x < n \<Longrightarrow> size y < n \<Longrightarrow> ends (ir_if_else_ternary rec c x y t env)"
  unfolding ir_if_else_ternary_def by (auto intro!: ends_intros rec_ends)

lemma loop_ends:
  "size pc < n \<Longrightarrow> size_list size bd \<le> n \<Longrightarrow> size inc < n \<Longrightarrow> size qc < n \<Longrightarrow>
     ends (ir_loop rec pc bd inc qc le lc ls env)"
  unfolding ir_loop_def by (auto intro!: ends_intros rec_ends)

lemma case_jumpers_ends [ends_intros]:
  "size_list size cs \<le> n \<Longrightarrow> ends (ir_case_jumpers rec v cs os env)"
  by (induction cs arbitrary: os env)
    (auto intro!: ends_intros rec_ends split: ast.split)

lemma switch_ends:
  "size c < n \<Longrightarrow> size_list size bd \<le> n \<Longrightarrow> size_list size cs \<le> n \<Longrightarrow>
     ends (ir_switch rec c bd ld le cs env)"
  unfolding ir_switch_def by (auto intro!: ends_intros rec_ends)

lemma assignment_ends: "size a \<le> n \<Longrightarrow> size r < n \<Longrightarrow> ends (ir_assignment rec a r env)"
  unfolding ir_assignment_def
  by (auto intro!: ends_intros rec_ends dest!: lvalue_pointer size_through_pointer)

lemma incr_decr_ends: "size a \<le> n \<Longrightarrow> ends (ir_incr_decr rec a u t env)"
  unfolding ir_incr_decr_def
  by (auto intro!: ends_intros rec_ends dest!: lvalue_pointer size_through_pointer)

lemma unary_op_ends: "size e < n \<Longrightarrow> ends (ir_unary_op rec u e t env)"
  unfolding ir_unary_op_def by (auto intro!: ends_intros rec_ends)

lemma cast_ends: "size e < n \<Longrightarrow> ends (ir_cast rec ud to e t env)"
  unfolding ir_cast_def by (auto intro!: ends_intros rec_ends)

lemma ptr_math_ends:
  "size l < n \<Longrightarrow> size r < n \<Longrightarrow> ends (ir_ptr_ptr_math rec ud l r t env)"
  "size l < n \<Longrightarrow> size r < n \<Longrightarrow> ends (ir_ptr_math rec ud sub l r t env)"
  unfolding ir_ptr_ptr_math_def ir_ptr_math_def by (auto intro!: ends_intros rec_ends)

lemma binary_op_ends: "size l < n \<Longrightarrow> size r < n \<Longrightarrow> ends (ir_binary_op rec ud b l r t env)"
  unfolding ir_binary_op_def by (auto intro!: ends_intros rec_ends ptr_math_ends)

lemma logical_op_ends: "size l < n \<Longrightarrow> size r < n \<Longrightarrow> ends (ir_logical_op rec ud jz l r t env)"
  unfolding ir_logical_op_def ir_logical_op_arm_def by (auto intro!: ends_intros rec_ends)

lemma call_ends: "size_list size args \<le> n \<Longrightarrow> ends (ir_call rec callee args t env)"
proof -
  have "size_list size args \<le> n \<Longrightarrow> ends (ir_call_args rec args vs env)" for vs env
    by (induction args arbitrary: vs env) (auto intro!: ends_intros rec_ends)
  then show "size_list size args \<le> n \<Longrightarrow> ends (ir_call rec callee args t env)"
    unfolding ir_call_def by (auto intro!: ends_intros)
qed

lemma unary_node_ends:
  "size e < n \<Longrightarrow> a = Op_unary u e t \<Longrightarrow> ends (ir_unary_node rec a u e t env)"
  unfolding ir_unary_node_def
  by (auto intro!: ends_intros rec_ends incr_decr_ends unary_op_ends dest!: size_cancelled)

lemma binary_node_ends:
  "size l + size r < n \<Longrightarrow> a = Op_binary (Infix_binary b) l r t \<Longrightarrow>
     ends (ir_binary_node rec ud a b l r t env)"
  unfolding ir_binary_node_def
  by (auto intro!: ends_intros rec_ends assignment_ends logical_op_ends binary_op_ends)

lemma node_ends: "size a \<le> n \<Longrightarrow> ends (ir_node rec ud a env)"
  unfolding ir_node_def
  by (cases a)
    (auto intro!: ends_intros rec_ends ret_ends decl_init_ends if_else_ends ternary_ends loop_ends
      switch_ends call_ends cast_ends unary_node_ends binary_node_ends split: option.split binary_node.split)

end

lemma translates_expr: "translates (ir_expr n) n"
proof (induction n)
  case (Suc n)
  show ?case
  proof
    fix a :: ast and ud env
    assume a: "size a < Suc n"
    show "ends (ir_expr (Suc n) ud a env)"
      using translates.node_ends [OF Suc, of a ud env] translates.rec_ends [OF Suc, of _ None env] a
      by (cases a) (auto intro!: ends_intros split: option.split)
  qed
qed (simp add: translates_def)

interpretation translation: translates "ir_expr n" n for n
  by (rule translates_expr)

section \<open>The program\<close>

lemma func_ends: "ends (ir_func i rt ps stmts env)"
  unfolding ir_func_def ir_budget_def
  by (auto intro!: ends_intros translation.block_ends)

lemma functions_of_end [ends_intros]: "ends (ir_functions_of gs env)"
  by (induction gs arbitrary: env) (auto intro!: ends_intros func_ends split: ast.split option.split)

lemma set_linkage_ends [ends_intros]: "ends (set_linkage s fs)" "ends (set_linkages ss fs)"
proof -
  show one: "ends (set_linkage s fs)" for s fs by (induction fs) (auto intro!: ends_intros)
  show "ends (set_linkages ss fs)" by (induction ss arbitrary: fs) (auto intro!: ends_intros one)
qed

lemma element_size_ends [simp]: "ends (get_initializer_element_size_bytes c)"
  by (induction c) (simp_all add: size_bytes_word)

lemma make_zero_ends [simp, ends_intros]: "ends (constant_make_zero c)"
  unfolding constant_make_zero_def constant_set_zero_def by (auto intro!: ends_intros)

lemma variables_end [ends_intros]: "ends (ir_vars ss)" "ends (ir_string_literals ss)"
  by (induction ss)
    (auto intro!: ends_intros simp: ir_var_def ir_string_literal_def split: initial_value.split)

lemma ir_init_ends: "ends (ir_init a base_id base_label syms)"
  unfolding ir_init_def ir_program_def by (auto intro!: ends_intros)

end
