(* ===== verification/IrLabels.thy ===== *)
theory IrLabels
  imports IrTotal
begin

text \<open>
  The labels of the code that the translation makes. The labels of loops, switches, cases and
  user labels come with the tree (\<open>tree_labels\<close>), the labels of conditions are generated.
  Every label of the tree and every generated one is defined exactly once, and a jump goes to
  a label of the code unless it is a jump of the tree (\<open>tree_jumps\<close>) to a label elsewhere.

  The facts are about the number of definitions of one label \<open>x\<close>, so that they are equations
  between numbers that add up along a sequence of operations.
\<close>

section \<open>Trees\<close>

text \<open>Expressions all the way down.\<close>

fun plain_expr :: "ast \<Rightarrow> bool" where
  "plain_expr (NODE_CONSTANT v t) = True"
| "plain_expr (NODE_CONSTANT_STR s t) = True"
| "plain_expr (NODE_EXPRESSION_NULL t) = True"
| "plain_expr (NODE_EXPRESSION_INITIALIZER sg mu t) = (pred_option plain_expr sg \<and> list_all plain_expr mu)"
| "plain_expr (Op_unary u e t) = plain_expr e"
| "plain_expr (Op_binary b l r t) = (plain_expr l \<and> plain_expr r)"
| "plain_expr (Op_ternary c x y t) = (plain_expr c \<and> plain_expr x \<and> plain_expr y)"
| "plain_expr (NODE_EXPRESSION_VARIABLE_USAGE s t) = True"
| "plain_expr (NODE_EXPRESSION_FUNCTION_CALL s args t) = list_all plain_expr args"
| "plain_expr (NODE_EXPRESSION_CAST ty e t) = plain_expr e"
| "plain_expr (NODE_SHARED a) = plain_expr a"
| "plain_expr _ = False"

definition plain_case :: "ast \<Rightarrow> bool" where
  "plain_case a = (case a of NODE_CASE e n \<Rightarrow> plain_expr e | _ \<Rightarrow> False)"

fun plain_item :: "ast \<Rightarrow> bool" where
  "plain_item (NODE_FUNCTION i sp rt ps b) = True"
| "plain_item (NODE_FUNCTION_RETURN_STATEMENT e) = plain_expr e"
| "plain_item (NODE_BLOCK items) = list_all plain_item items"
| "plain_item (NODE_DECLARATION i sp vt init t) = pred_option plain_expr init"
| "plain_item (NODE_IF_ELSE c th el) = (plain_expr c \<and> list_all plain_item th \<and> list_all plain_item el)"
| "plain_item (NODE_LOOP pc bd inc qc le lc ls) =
     (plain_expr pc \<and> list_all plain_item bd \<and> plain_expr inc \<and> plain_expr qc)"
| "plain_item (NODE_BREAK n) = True"
| "plain_item (NODE_CONTINUE n) = True"
| "plain_item (NODE_GOTO s n) = True"
| "plain_item (NODE_LABEL s n) = True"
| "plain_item (NODE_SWITCH c bd ld le cs) =
     (plain_expr c \<and> list_all plain_item bd \<and> list_all plain_case cs)"
| "plain_item (NODE_CASE e n) = plain_expr e"
| "plain_item (NODE_CASE_DEFAULT n) = True"
| "plain_item a = plain_expr a"

text \<open>The labels that the code of a statement defines, and those it jumps to.\<close>

fun tree_labels :: "ast \<Rightarrow> int list" where
  "tree_labels (NODE_BLOCK items) = concat (map tree_labels items)"
| "tree_labels (NODE_IF_ELSE c th el) = concat (map tree_labels th) @ concat (map tree_labels el)"
| "tree_labels (NODE_LOOP pc bd inc qc le lc ls) = [ls, lc, le] @ concat (map tree_labels bd)"
| "tree_labels (NODE_LABEL s n) = [n]"
| "tree_labels (NODE_SWITCH c bd ld le cs) = le # concat (map tree_labels bd)"
| "tree_labels (NODE_CASE e n) = [n]"
| "tree_labels (NODE_CASE_DEFAULT n) = [n]"
| "tree_labels _ = []"

definition case_label :: "ast \<Rightarrow> int list" where
  "case_label a = (case a of NODE_CASE e n \<Rightarrow> [n] | _ \<Rightarrow> [])"

fun tree_jumps :: "ast \<Rightarrow> int list" where
  "tree_jumps (NODE_BLOCK items) = concat (map tree_jumps items)"
| "tree_jumps (NODE_IF_ELSE c th el) = concat (map tree_jumps th) @ concat (map tree_jumps el)"
| "tree_jumps (NODE_LOOP pc bd inc qc le lc ls) = concat (map tree_jumps bd)"
| "tree_jumps (NODE_BREAK n) = [n]"
| "tree_jumps (NODE_CONTINUE n) = [n]"
| "tree_jumps (NODE_GOTO s n) = [n]"
| "tree_jumps (NODE_SWITCH c bd ld le cs) =
     concat (map case_label cs) @ (if ld \<ge> 0 then [ld] else []) @ concat (map tree_jumps bd)"
| "tree_jumps _ = []"

abbreviation labels_of :: "ast list \<Rightarrow> int list" where "labels_of as \<equiv> concat (map tree_labels as)"
abbreviation jumps_of :: "ast list \<Rightarrow> int list" where "jumps_of as \<equiv> concat (map tree_jumps as)"

lemma tree_labels_expr: "plain_expr a \<Longrightarrow> tree_labels a = []"
  by (cases a) auto

lemma tree_jumps_expr: "plain_expr a \<Longrightarrow> tree_jumps a = []"
  by (cases a) auto

section \<open>Code\<close>

definition label_defs :: "ir_op list \<Rightarrow> int list" where
  "label_defs os = map (\<lambda>op. val_num (ir_arg op 0)) (filter (\<lambda>op. ir_opcode op = IR_OP_LABEL) os)"

definition op_targets :: "ir_op \<Rightarrow> int list" where
  "op_targets op =
     (case ir_opcode op of
        IR_OP_JUMP \<Rightarrow> [val_num (ir_arg op 0)]
      | IR_OP_JUMP_IF_ZERO \<Rightarrow> [val_num (ir_arg op 1)]
      | IR_OP_JUMP_IF_NOT_ZERO \<Rightarrow> [val_num (ir_arg op 1)]
      | _ \<Rightarrow> [])"

definition jump_targets :: "ir_op list \<Rightarrow> int list" where
  "jump_targets os = concat (map op_targets os)"

definition uses_label :: "int \<Rightarrow> ir_op list \<Rightarrow> bool" where
  "uses_label x os \<longleftrightarrow> x \<in> set (jump_targets os)"

definition defined_times :: "int \<Rightarrow> ir_op list \<Rightarrow> nat" where
  "defined_times x os = count_list (label_defs os) x"

definition given_out :: "int \<Rightarrow> ir_env \<Rightarrow> nat" where
  "given_out x e = (if x < ir_labels e then 1 else 0)"

lemma defined_times_simps [simp]:
  "defined_times x [] = 0" "defined_times x (os @ os') = defined_times x os + defined_times x os'"
  "defined_times x (op # os) =
     (if ir_opcode op = IR_OP_LABEL \<and> val_num (ir_arg op 0) = x then 1 else 0) + defined_times x os"
  by (simp_all add: defined_times_def label_defs_def)

lemma uses_label_simps [simp]:
  "\<not> uses_label x []" "uses_label x (os @ os') \<longleftrightarrow> uses_label x os \<or> uses_label x os'"
  "uses_label x (op # os) \<longleftrightarrow> x \<in> set (op_targets op) \<or> uses_label x os"
  by (simp_all add: uses_label_def jump_targets_def)

lemma mk_op_simps [simp]:
  "ir_opcode (mk_op oc args) = oc" "ir_args (mk_op oc args) = args" "ir_fun (mk_op oc args) = None"
  "ir_arg (mk_op oc (v # vs)) 0 = v" "ir_arg (mk_op oc (v # w # vs)) (Suc 0) = w"
  by (simp_all add: mk_op_def ir_arg_def)

lemma val_simps [simp]:
  "val_num (label_val n) = n" "subtype (label_val n) = IR_VAL_JUMP_TARGET_LABEL"
  "val_num (constant_val n t) = n" "subtype (constant_val n t) = IR_VAL_CONSTANT"
  "val_type (constant_val n t) = t" "val_type (label_val n) = ctype_zero"
  "subtype dummy_val = IR_VAL_DUMMY"
  by (simp_all add: label_val_def constant_val_def dummy_val_def ir_val_zero_def)

lemma given_out_simps [simp]:
  "given_out x (e\<lparr>generator := g\<rparr>) = given_out x e"
  "given_out x (e\<lparr>ir_labels := ir_labels e + 1\<rparr>) = given_out x e + (if x = ir_labels e then 1 else 0)"
  by (auto simp: given_out_def)

definition lab :: "int \<Rightarrow> nat \<Rightarrow> bool \<Rightarrow> ir_env \<Rightarrow> ir_op list \<Rightarrow> ir_env \<Rightarrow> bool" where
  "lab x t j e os e' \<longleftrightarrow>
     generator e \<le> generator e' \<and> ir_labels e \<le> ir_labels e' \<and>
     defined_times x os + given_out x e = t + given_out x e' \<and>
     (uses_label x os \<longrightarrow> j \<or> 0 < defined_times x os)"

lemma lab_I:
  "generator e \<le> generator e' \<Longrightarrow> ir_labels e \<le> ir_labels e' \<Longrightarrow>
   defined_times x os + given_out x e = t + given_out x e' \<Longrightarrow>
   (uses_label x os \<Longrightarrow> j \<or> 0 < defined_times x os) \<Longrightarrow> lab x t j e os e'"
  by (simp add: lab_def)

text \<open>The operations that neither define a label nor jump.\<close>

fun straight :: "ir_opcode \<Rightarrow> bool" where
  "straight IR_OP_JUMP = False"
| "straight IR_OP_JUMP_IF_ZERO = False"
| "straight IR_OP_JUMP_IF_NOT_ZERO = False"
| "straight IR_OP_LABEL = False"
| "straight _ = True"

lemma straight_simps [simp]:
  "straight (ir_opcode op) \<Longrightarrow> op_targets op = []" "straight (ir_opcode op) \<Longrightarrow> ir_opcode op \<noteq> IR_OP_LABEL"
  "straight oc \<Longrightarrow> oc \<noteq> IR_OP_LABEL"
  "ir_opcode op = IR_OP_LABEL \<Longrightarrow> op_targets op = []"
  "op_targets (mk_op IR_OP_JUMP [v]) = [val_num v]"
  "op_targets (mk_op IR_OP_JUMP_IF_ZERO [w, v]) = [val_num v]"
  "op_targets (mk_op IR_OP_JUMP_IF_NOT_ZERO [w, v]) = [val_num v]"
  by (auto simp: op_targets_def split: ir_opcode.splits)

lemma no_code [simp]: "lab x 0 False e [] e"
  by (simp add: lab_def)

lemma lab_addr_implicit:
  assumes "lab x t j e os e'" "ir_expr_get_addr_implicit (os, v, e') = (os', v', e'')"
  shows "lab x t j e os' e''"
proof (cases "os = []")
  case False
  then obtain front l where os: "os = front @ [l]" by (cases os rule: rev_cases) auto
  show ?thesis
    using assms os
    by (auto simp: ir_expr_get_addr_implicit_def lab_def ir_val_tmpvar_gen_def Let_def split: if_splits)
qed (use assms in \<open>auto simp: ir_expr_get_addr_implicit_def lab_def ir_val_tmpvar_gen_def Let_def split: if_splits\<close>)

section \<open>The routines\<close>

lemma plain_unpack [simp]: "plain_expr (ir_unpack_parens a) = plain_expr a"
  by (induction a rule: ir_unpack_parens.induct) auto

lemma plain_pointer: "lvalue_through_pointer a = Some p \<Longrightarrow> plain_expr a \<Longrightarrow> plain_expr p"
proof -
  assume p: "lvalue_through_pointer a = Some p" "plain_expr a"
  then obtain c where c: "lvalue_candidate a = Some c" by (auto simp: lvalue_through_pointer_def split: option.splits)
  have "plain_expr c" using c p(2) by (auto simp: lvalue_candidate_def split: ast.splits if_splits)
  then show "plain_expr p"
    using p(1) c by (auto simp: lvalue_through_pointer_def split: ast.splits if_splits)
qed

lemma plain_cancelled: "cancelled_operand u e = Some g \<Longrightarrow> plain_expr e \<Longrightarrow> plain_expr g"
proof -
  assume "cancelled_operand u e = Some g" "plain_expr e"
  then obtain u' t where "ir_unpack_parens e = Op_unary u' g t"
    by (auto simp: cancelled_operand_def split: ast.splits if_splits)
  with \<open>plain_expr e\<close> show "plain_expr g" using plain_unpack [of e] by simp
qed

locale labelling =
  fixes rec :: ir_rec and x :: int
  assumes expr: "plain_expr a \<Longrightarrow> rec ud a e = Inr (os, v, e') \<Longrightarrow> lab x 0 False e os e'"
    and item: "plain_item a \<Longrightarrow> rec None a e = Inr (os, v, e') \<Longrightarrow>
      lab x (count_list (tree_labels a) x) (x \<in> set (tree_jumps a)) e os e'"
begin

lemma block:
  "list_all plain_item as \<Longrightarrow> ir_block rec as e = Inr (os, v, e') \<Longrightarrow>
     lab x (count_list (labels_of as) x) (x \<in> set (jumps_of as)) e os e'"
proof (induction as arbitrary: e os v)
  case (Cons a as)
  show ?case
  proof (cases "is_function a")
    case True
    with Cons show ?thesis by (cases a) (auto simp: is_function_def)
  next
    case False
    then obtain o1 v1 e1 o2 v2 where h: "rec None a e = Inr (o1, v1, e1)"
      "ir_block rec as e1 = Inr (o2, v2, e')" "os = o1 @ o2"
      using Cons.prems by (auto simp: check_iff)
    from item [OF _ h(1)] Cons.IH [OF _ h(2)] Cons.prems h(3) show ?thesis
      by (auto simp: lab_def)
  qed
qed (simp add: lab_def)

lemmas expr_facts = expr [rotated, unfolded lab_def]
lemmas block_facts = block [rotated, unfolded lab_def]

lemma ret: "plain_expr a \<Longrightarrow> ir_ret_op rec a e = Inr (os, v, e') \<Longrightarrow> lab x 0 False e os e'"
  unfolding ir_ret_op_def by (auto simp: check_iff lab_def split: if_splits dest!: expr_facts)

lemma decl_init_single:
  "plain_expr a \<Longrightarrow> ir_decl_init_single rec t a b p e = Inr (os, q, e') \<Longrightarrow> lab x 0 False e os e'"
  unfolding ir_decl_init_single_def by (auto simp: check_iff lab_def dest!: expr_facts)

lemma decl_init_list:
  assumes "\<And>a t p e os q e'. a \<in> set as \<Longrightarrow> ir_decl_init_multi rec t a b p e = Inr (os, q, e') \<Longrightarrow>
      lab x 0 False e os e'"
    and "ir_decl_init_list rec t as b p e = Inr (os, q, e')"
  shows "lab x 0 False e os e'"
  using assms
proof (induction as arbitrary: p e os)
  case (Cons a as)
  from Cons.prems(2) obtain o1 p1 e1 o2 where
    h: "ir_decl_init_multi rec t a b p e = Inr (o1, p1, e1)"
       "ir_decl_init_list rec t as b p1 e1 = Inr (o2, q, e')" "os = o1 @ o2"
    by (auto simp: check_iff)
  have "lab x 0 False e o1 e1" by (rule Cons.prems(1) [OF _ h(1)]) simp
  moreover have "lab x 0 False e1 o2 e'" by (rule Cons.IH [OF Cons.prems(1) h(2)]) simp_all
  ultimately show ?case using h(3) by (auto simp: lab_def)
qed (simp add: lab_def)

lemma decl_init_multi:
  "plain_expr a \<Longrightarrow> ir_decl_init_multi rec t a b p e = Inr (os, q, e') \<Longrightarrow> lab x 0 False e os e'"
proof (induction a arbitrary: t p e os q e')
  case (NODE_EXPRESSION_INITIALIZER sg mu ty)
  show ?case
  proof (cases sg)
    case None
    with NODE_EXPRESSION_INITIALIZER.prems have "list_all plain_expr mu"
      and l: "ir_decl_init_list rec (referent t) mu b p e = Inr (os, q, e')"
      by (auto simp: check_iff)
    then show ?thesis
      using NODE_EXPRESSION_INITIALIZER.IH(2) by (intro decl_init_list [OF _ l]) (simp add: list_all_iff)
  qed (use NODE_EXPRESSION_INITIALIZER.prems decl_init_single in \<open>auto simp: check_iff simp del: plain_expr.simps\<close>)
qed (use decl_init_single in \<open>auto simp: check_iff simp del: plain_expr.simps\<close>)

lemma decl_init:
  "plain_expr a \<Longrightarrow> ir_decl_init rec d t a e = Inr (os, v, e') \<Longrightarrow> lab x 0 False e os e'"
  unfolding ir_decl_init_def
  by (cases "init_single_set a") (auto simp: check_iff lab_def dest!: expr_facts decl_init_multi [rotated, unfolded lab_def])

text \<open>What a branch adds to its body: its label, if it has one.\<close>

definition frame_of :: "int option \<Rightarrow> if_else_prep \<Rightarrow> bool" where
  "frame_of l p \<longleftrightarrow>
     defined_times x (jumper p) = 0 \<and> (uses_label x (jumper p) \<longrightarrow> l = Some x) \<and>
     defined_times x (assign_result p) = 0 \<and> \<not> uses_label x (assign_result p) \<and>
     defined_times x (jump_target p) = (if l = Some x then 1 else 0) \<and> \<not> uses_label x (jump_target p)"

lemma prepare_expr:
  "plain_expr a \<Longrightarrow> ir_if_else_prepare rec (Inr a) jump l uniq e = Inr (p, e') \<Longrightarrow>
     lab x 0 False e (prep_body p) e' \<and> frame_of (Some l) p"
  unfolding ir_if_else_prepare_def frame_of_def
  by (auto simp: check_iff split: option.splits if_splits dest!: expr [rotated])

lemma prepare_block:
  "list_all plain_item as \<Longrightarrow> ir_if_else_prepare rec (Inl as) jump l uniq e = Inr (p, e') \<Longrightarrow>
     lab x (count_list (labels_of as) x) (x \<in> set (jumps_of as)) e (prep_body p) e' \<and> frame_of (Some l) p"
  unfolding ir_if_else_prepare_def frame_of_def
  by (auto simp: check_iff split: option.splits if_splits dest!: block [rotated])

lemma collect:
  assumes "lab x 0 False e1 co e2" "lab x ta ja e2 (prep_body p) e3 \<and> frame_of l p"
    "lab x tb jb e3 (prep_body q) e4 \<and> frame_of m q"
    and e1: "generator e \<le> generator e1" "ir_labels e \<le> ir_labels e1"
      "given_out x e1 = given_out x e + (if l = Some x then 1 else 0) + (if m = Some x then 1 else 0)"
  shows "lab x (ta + tb) (ja \<or> jb) e (if_else_collect co p q) e4"
proof -
  note h = assms(1-3) [unfolded lab_def frame_of_def]
  have n: "defined_times x (if_else_collect co p q) = defined_times x co + defined_times x (prep_body p) +
      defined_times x (prep_body q) + (if l = Some x then 1 else 0) + (if m = Some x then 1 else 0)"
    using h by (simp add: if_else_collect_def)
  have u: "uses_label x (if_else_collect co p q) \<Longrightarrow> uses_label x co \<or> uses_label x (prep_body p) \<or>
      uses_label x (prep_body q) \<or> l = Some x \<or> m = Some x"
    using h by (auto simp: if_else_collect_def)
  show ?thesis
    unfolding lab_def n using h e1 u by (auto split del: if_split split: if_splits)
qed

lemma if_else:
  assumes "ir_if_else_statement rec c th el e = Inr (os, v, e')"
    "plain_expr c" "list_all plain_item th" "list_all plain_item el"
  shows "lab x (count_list (labels_of th @ labels_of el) x) (x \<in> set (jumps_of th @ jumps_of el)) e os e'"
proof (cases "el = []")
  case True
  then obtain co cv e3 p where
    h: "rec None c (e\<lparr>ir_labels := ir_labels e + 1\<rparr>) = Inr (co, cv, e3)"
      "ir_if_else_prepare rec (Inl th) (Some cv) (ir_labels e) (-1) e3 = Inr (p, e')"
      "os = if_else_collect co p if_else_prep_zero"
    using assms(1) unfolding ir_if_else_statement_def by (auto simp: check_iff Let_def new_label_def)
  have "lab x 0 False e' (prep_body if_else_prep_zero) e' \<and> frame_of None if_else_prep_zero"
    by (simp add: lab_def frame_of_def if_else_prep_zero_def)
  from collect [OF expr [OF assms(2) h(1)] prepare_block [OF assms(3) h(2)] this, of e] show ?thesis
    using True h(3) by simp
next
  case False
  then obtain co cv e3 p e4 q where
    h: "rec None c (e\<lparr>ir_labels := ir_labels e + 1 + 1\<rparr>) = Inr (co, cv, e3)"
      "ir_if_else_prepare rec (Inl th) (Some cv) (ir_labels e) (-1) e3 = Inr (p, e4)"
      "ir_if_else_prepare rec (Inl el) None (ir_labels e + 1) (-1) e4 = Inr (q, e')"
      "os = if_else_collect co p q"
    using assms(1) unfolding ir_if_else_statement_def by (auto simp: check_iff Let_def new_label_def)
  from collect [OF expr [OF assms(2) h(1)] prepare_block [OF assms(3) h(2)] prepare_block [OF assms(4) h(3)], of e]
  show ?thesis using h(4) by (simp add: given_out_def)
qed

lemma ternary:
  assumes "ir_if_else_ternary rec c a b t e = Inr (os, v, e')" "plain_expr c" "plain_expr a" "plain_expr b"
  shows "lab x 0 False e os e'"
proof -
  obtain e2 u co cv e3 p e4 q where
    h: "rec None c e2 = Inr (co, cv, e3)" "generator e \<le> generator e2" "ir_labels e2 = ir_labels e + 2"
      "ir_if_else_prepare rec (Inr a) (Some cv) (ir_labels e) u e3 = Inr (p, e4)"
      "ir_if_else_prepare rec (Inr b) None (ir_labels e + 1) u e4 = Inr (q, e')"
      "os = if_else_collect co p q"
    using assms(1) unfolding ir_if_else_ternary_def
    by (fastforce simp: check_iff Let_def new_label_def split: if_splits)
  from collect [OF expr [OF assms(2) h(1)] prepare_expr [OF assms(3) h(4)] prepare_expr [OF assms(4) h(5)], of e]
  show ?thesis using h(2,3,6) by (simp add: given_out_def)
qed

lemma loop:
  assumes "ir_loop rec pc bd inc qc le lc ls e = Inr (os, v, e')"
    "plain_expr pc" "list_all plain_item bd" "plain_expr inc" "plain_expr qc"
  shows "lab x (count_list ([ls, lc, le] @ labels_of bd) x) (x \<in> set (jumps_of bd)) e os e'"
proof -
  have out: "loop_exit c w n = Inr js \<Longrightarrow> defined_times x js = 0 \<and> (uses_label x js \<longrightarrow> x = n)" for c w n js
    by (auto simp: loop_exit_def check_iff split: if_splits)
  obtain o1 v1 e1 j1 o2 v2 e2 o3 v3 e3 o4 v4 j4 where
    h: "rec None pc e = Inr (o1, v1, e1)" "loop_exit pc v1 le = Inr j1" "ir_block rec bd e1 = Inr (o2, v2, e2)"
      "rec None inc e2 = Inr (o3, v3, e3)" "rec None qc e3 = Inr (o4, v4, e')" "loop_exit qc v4 le = Inr j4"
      "os = [mk_op IR_OP_LABEL [label_val ls]] @ o1 @ j1 @ o2 @ [mk_op IR_OP_LABEL [label_val lc]] @ o3 @
         o4 @ j4 @ [mk_op IR_OP_JUMP [label_val ls], mk_op IR_OP_LABEL [label_val le]]"
    using assms(1) unfolding ir_loop_def by (auto simp: check_iff)
  show ?thesis
    using expr [OF assms(2) h(1)] block [OF assms(3) h(3)] expr [OF assms(4) h(4)] expr [OF assms(5) h(5)]
      out [OF h(2)] out [OF h(6)]
    unfolding h(7) lab_def by auto
qed

lemma case_jumpers:
  "ir_case_jumpers rec w cs os0 e = Inr (os, e') \<Longrightarrow> list_all plain_case cs \<Longrightarrow>
     generator e \<le> generator e' \<and> ir_labels e \<le> ir_labels e' \<and>
     defined_times x os + given_out x e = defined_times x os0 + given_out x e' \<and>
     (uses_label x os \<longrightarrow> uses_label x os0 \<or> x \<in> set (concat (map case_label cs)) \<or> defined_times x os > defined_times x os0)"
proof (induction cs arbitrary: os0 e)
  case (Cons a cs)
  then obtain k n where a: "a = NODE_CASE k n" "plain_expr k" by (auto simp: plain_case_def split: ast.splits)
  obtain ko kv e1 where k: "rec None k e = Inr (ko, kv, e1)" and
    r: "ir_case_jumpers rec w cs (ko @ [mk_op IR_OP_COMPARE_EQUAL [w, kv, fst (ir_val_tmpvar_gen (CTYPE_INT False) e1)],
       mk_op IR_OP_JUMP_IF_NOT_ZERO [fst (ir_val_tmpvar_gen (CTYPE_INT False) e1), label_val n]] @ os0)
       (snd (ir_val_tmpvar_gen (CTYPE_INT False) e1)) = Inr (os, e')"
    using Cons.prems(1) a(1) by (auto simp: check_iff Let_def split_beta)
  show ?case
    using Cons.IH [OF r] Cons.prems(2) expr [OF a(2) k]
    by (auto simp: lab_def a(1) case_label_def ir_val_tmpvar_gen_def given_out_def split: if_splits)
qed simp

lemma switch:
  assumes "ir_switch rec c bd ld le cs e = Inr (os, v, e')"
    "plain_expr c" "list_all plain_item bd" "list_all plain_case cs"
  shows "lab x (count_list (le # labels_of bd) x)
    (x \<in> set (concat (map case_label cs) @ (if ld \<ge> 0 then [ld] else []) @ jumps_of bd)) e os e'"
proof -
  obtain o1 v1 e1 o2 e2 o3 v3 where
    h: "rec None c e = Inr (o1, v1, e1)" "ir_case_jumpers rec v1 cs [] e1 = Inr (o2, e2)"
      "ir_block rec bd e2 = Inr (o3, v3, e')"
      "os = o1 @ o2 @ (if ld \<ge> 0 then [mk_op IR_OP_JUMP [label_val ld]] else []) @
          [mk_op IR_OP_JUMP [label_val le]] @ o3 @ [mk_op IR_OP_LABEL [label_val le]]"
    using assms(1) unfolding ir_switch_def by (auto simp: check_iff)
  show ?thesis
    using expr [OF assms(2) h(1)] case_jumpers [OF h(2) assms(4)] block [OF assms(3) h(3)]
    unfolding h(4) lab_def by (cases "ld \<ge> 0") auto
qed

lemma assignment:
  assumes "ir_assignment rec a r e = Inr (os, v, e')" "plain_expr a" "plain_expr r"
  shows "lab x 0 False e os e'"
proof -
  obtain ind dir where l: "ir_assignment_lvalue a = Inr (ind, dir)"
    using assms(1) by (auto simp: ir_assignment_def check_iff)
  show ?thesis
  proof (cases ind)
    case None
    with l obtain o1 where "rec None r e = Inr (o1, v, e')" "os = o1 @ [mk_op IR_OP_COPY [v, dir]]"
      using assms(1) by (auto simp: ir_assignment_def check_iff)
    then show ?thesis using expr [OF assms(3)] by (fastforce simp: lab_def)
  next
    case (Some p)
    with l have p: "plain_expr p" using plain_pointer [OF lvalue_pointer assms(2)] by simp
    from Some l obtain o1 v1 e1 glue ud e2 o2 where
      h: "rec None p e = Inr (o1, v1, e1)" "rec ud r e2 = Inr (o2, v, e')"
        "os = o1 @ glue @ o2 @ [mk_op IR_OP_STORE [v, v1]]" "generator e1 \<le> generator e2"
        "ir_labels e2 = ir_labels e1" "defined_times x glue = 0" "\<not> uses_label x glue"
      using assms(1)
      by (fastforce simp: ir_assignment_def check_iff ir_assignment_lvalue_load_before_store_def
          ir_val_tmpvar_gen_def Let_def split: if_splits)
    show ?thesis
      using expr [OF p h(1)] expr [OF assms(3) h(2)] h(4-7) unfolding h(3) by (auto simp: lab_def given_out_def)
  qed
qed

lemma incr_op: "incr_decr_op u t w = Inr op \<Longrightarrow> straight (ir_opcode op)"
  by (auto simp: incr_decr_op_def check_iff split: if_splits)

lemma incr_decr:
  assumes "ir_incr_decr rec a u t e = Inr (os, v, e')" "plain_expr a"
  shows "lab x 0 False e os e'"
proof -
  obtain ind dir where l: "ir_assignment_lvalue a = Inr (ind, dir)"
    using assms(1) by (auto simp: ir_incr_decr_def check_iff)
  show ?thesis
  proof (cases ind)
    case None
    with l assms(1) show ?thesis
      by (auto simp: ir_incr_decr_def check_iff Let_def ir_val_tmpvar_gen_def lab_def
          dest!: incr_op split: if_splits)
  next
    case (Some p)
    with l have p: "plain_expr p" using plain_pointer [OF lvalue_pointer assms(2)] by simp
    with l Some assms(1) show ?thesis
      by (auto simp: ir_incr_decr_def check_iff Let_def ir_val_tmpvar_gen_def lab_def
          ir_assignment_lvalue_load_before_store_def dest!: expr_facts incr_op split: if_splits)
  qed
qed

lemma unary_opcode_plain: "unary_opcode u t = Inr oc \<Longrightarrow> straight oc"
  by (auto simp: unary_opcode_def split: unary_node.splits prefix_op.splits if_splits)

lemma unary_op: "ir_unary_op rec u a t e = Inr (os, v, e') \<Longrightarrow> plain_expr a \<Longrightarrow> lab x 0 False e os e'"
  unfolding ir_unary_op_def
  by (auto simp: check_iff Let_def ir_val_tmpvar_gen_def lab_def dest!: expr_facts unary_opcode_plain split: if_splits)

lemma cast_opcode_plain: "cast_opcode c d = Inr oc \<Longrightarrow> straight oc"
  by (auto simp: cast_opcode_def check_iff split: if_splits)

lemma cast: "ir_cast rec ud to a t e = Inr (os, v, e') \<Longrightarrow> plain_expr a \<Longrightarrow> lab x 0 False e os e'"
  unfolding ir_cast_def
  by (auto simp: check_iff Let_def ir_val_tmpvar_gen_def lab_def dest!: expr_facts cast_opcode_plain split: if_splits)

lemma ptr_ptr_math:
  "ir_ptr_ptr_math rec ud l r t e = Inr (os, v, e') \<Longrightarrow> plain_expr l \<Longrightarrow> plain_expr r \<Longrightarrow> lab x 0 False e os e'"
  unfolding ir_ptr_ptr_math_def
  by (auto simp: check_iff Let_def ir_val_tmpvar_gen_def lab_def dest!: expr_facts split: if_splits)

lemma ptr_math:
  "ir_ptr_math rec ud sub l r t e = Inr (os, v, e') \<Longrightarrow> plain_expr l \<Longrightarrow> plain_expr r \<Longrightarrow> lab x 0 False e os e'"
  unfolding ir_ptr_math_def
  by (cases sub) (auto simp: check_iff Let_def ir_val_tmpvar_gen_def lab_def split_beta dest!: expr_facts)

lemma binary_opcode_straight: "binary_ir_opcode b = Inr oc \<Longrightarrow> straight oc"
  by (cases b) auto

lemma binary_op:
  "ir_binary_op rec ud b l r t e = Inr (os, v, e') \<Longrightarrow> plain_expr l \<Longrightarrow> plain_expr r \<Longrightarrow> lab x 0 False e os e'"
  unfolding ir_binary_op_def Let_def
  by (auto dest: ptr_math ptr_ptr_math split: if_splits)
    (auto simp: check_iff ir_val_tmpvar_gen_def lab_def dest!: expr_facts binary_opcode_straight)

lemma logical_op:
  assumes "ir_logical_op rec ud jz l r t e = Inr (os, v, e')" "plain_expr l" "plain_expr r"
  shows "lab x 0 False e os e'"
proof -
  obtain o1 v1 e1 o2 v2 e2 where
    h: "rec ud l (e\<lparr>ir_labels := ir_labels e + 1\<rparr>) = Inr (o1, v1, e1)" "rec None r e1 = Inr (o2, v2, e2)"
      "e' = e2\<lparr>ir_labels := ir_labels e2 + 1, generator := generator e2 + 1\<rparr>"
      "os = o1 @ [mk_op (if jz then IR_OP_JUMP_IF_ZERO else IR_OP_JUMP_IF_NOT_ZERO) [v1, label_val (ir_labels e)]] @
        o2 @ [mk_op (if jz then IR_OP_JUMP_IF_ZERO else IR_OP_JUMP_IF_NOT_ZERO) [v2, label_val (ir_labels e)]] @
           [mk_op IR_OP_COPY [constant_val (if jz then 1 else 0) ctype_zero, v],
            mk_op IR_OP_JUMP [label_val (ir_labels e2)],
            mk_op IR_OP_LABEL [label_val (ir_labels e)],
            mk_op IR_OP_COPY [constant_val (if jz then 0 else 1) ctype_zero, v],
            mk_op IR_OP_LABEL [label_val (ir_labels e2)]]"
    using assms(1) unfolding ir_logical_op_def ir_logical_op_arm_def
    by (auto simp: check_iff Let_def new_label_def ir_val_tmpvar_gen_def)
  show ?thesis
    using expr [OF assms(2) h(1)] expr [OF assms(3) h(2)] unfolding h(3,4) lab_def by (cases jz) (auto simp: given_out_def split: if_splits)
qed

lemma call_args:
  "ir_call_args rec as vs e = Inr (os, ws, e') \<Longrightarrow> list_all plain_expr as \<Longrightarrow> lab x 0 False e os e'"
proof (induction as arbitrary: vs e os)
  case (Cons a as)
  obtain o1 v1 e1 o2 where h: "rec None a e = Inr (o1, v1, e1)"
    "ir_call_args rec as (vs @ [v1]) e1 = Inr (o2, ws, e')" "os = o1 @ o2"
    using Cons.prems(1) by (auto simp: check_iff)
  from Cons.IH [OF h(2)] expr [OF _ h(1)] Cons.prems(2) h(3) show ?case by (auto simp: lab_def)
qed (simp add: lab_def)

lemma call:
  "ir_call rec f as t e = Inr (os, v, e') \<Longrightarrow> list_all plain_expr as \<Longrightarrow> lab x 0 False e os e'"
  unfolding ir_call_def
  by (auto simp: check_iff Let_def ir_val_tmpvar_gen_def lab_def dest!: call_args [rotated -1, unfolded lab_def] split: if_splits)

lemma unary_node:
  assumes "ir_unary_node rec a u b t e = Inr (os, v, e')" "plain_expr a" "plain_expr b"
  shows "lab x 0 False e os e'"
  using assms unfolding ir_unary_node_def
  by (auto split: if_splits option.splits dest: expr incr_decr unary_op plain_cancelled
      simp: ir_sizeof_def check_iff)

lemma binary_node:
  assumes "ir_binary_node rec ud a b l r t e = Inr (os, v, e')" "plain_expr a" "plain_expr l" "plain_expr r"
  shows "lab x 0 False e os e'"
  using assms unfolding ir_binary_node_def
  by (auto split: if_splits dest: assignment logical_op binary_op)

lemma node_expr:
  assumes "ir_node rec ud a e = Inr (os, v, e')" "plain_expr a"
  shows "lab x 0 False e os e'"
proof (cases a)
  case (Op_binary b l r t)
  then show ?thesis
    using assms by (cases b) (auto simp: ir_node_def intro: binary_node)
next
  case (NODE_CONSTANT c t)
  then show ?thesis using assms by (cases t) (auto simp: ir_node_def ir_constant_def)
next
  case (NODE_EXPRESSION_INITIALIZER sg mu t)
  then show ?thesis using assms by (cases sg) (auto simp: ir_node_def check_iff intro: expr)
qed (use assms in \<open>auto simp: ir_node_def check_iff intro: ternary unary_node cast call\<close>)

lemma node_item:
  assumes "ir_node rec None a e = Inr (os, v, e')" "plain_item a"
  shows "lab x (count_list (tree_labels a) x) (x \<in> set (tree_jumps a)) e os e'"
proof (cases "plain_expr a")
  case True
  with node_expr [OF assms(1)] tree_labels_expr tree_jumps_expr show ?thesis by simp
next
  case False
  show ?thesis
  proof (cases a)
    case (NODE_BLOCK items)
    with assms block show ?thesis by (auto simp: ir_node_def check_iff)
  next
    case (NODE_DECLARATION i sp vt init t)
    with assms decl_init show ?thesis by (cases init) (auto simp: ir_node_def)
  next
    case (NODE_IF_ELSE c th el)
    with assms if_else show ?thesis by (auto simp: ir_node_def)
  next
    case (NODE_LOOP pc bd inc qc le lc ls)
    with assms loop [of pc bd inc qc le lc ls e os v e'] show ?thesis by (auto simp: ir_node_def)
  next
    case (NODE_SWITCH c bd ld le cs)
    with assms switch [of c bd ld le cs e os v e'] show ?thesis by (auto simp: ir_node_def)
  next
    case (NODE_FUNCTION_RETURN_STATEMENT b)
    with assms ret show ?thesis by (auto simp: ir_node_def)
  qed (use assms False in \<open>auto simp: ir_node_def ir_jump_def ir_label_def lab_def\<close>)
qed

end

lemma labelling_expr: "labelling (ir_expr n) x"
proof (induction n)
  case (Suc n)
  have node: "lab x 0 False e os e'" if "ir_expr (Suc n) ud a e = Inr (os, v, e')" "plain_expr a" for ud a e os v e'
    using that labelling.node_expr [OF Suc, of ud a e] labelling.expr [OF Suc, of _ None e os v e']
    by (cases a) (auto simp: check_iff simp del: plain_expr.simps dest: lab_addr_implicit split: option.splits,
      simp_all)
  have "lab x (count_list (tree_labels a) x) (x \<in> set (tree_jumps a)) e os e'"
    if "ir_expr (Suc n) None a e = Inr (os, v, e')" "plain_item a" for a e os v e'
    using that labelling.node_item [OF Suc, of a e] labelling.expr [OF Suc, of _ None e os v e']
    by (cases a) (auto simp: check_iff simp del: plain_item.simps dest: lab_addr_implicit split: option.splits,
      simp_all)
  with node show ?case by unfold_locales
qed (simp add: labelling_def)

interpretation ir: labelling "ir_expr n" x for n x
  by (rule labelling_expr)

section \<open>Functions\<close>

definition function_stmts :: "ast \<Rightarrow> ast list" where
  "function_stmts a =
     (case a of NODE_FUNCTION i sp rt ps (Some (NODE_BLOCK stmts)) \<Rightarrow> stmts | _ \<Rightarrow> [])"

definition program_labels :: "ast list \<Rightarrow> int list" where
  "program_labels gs = labels_of (concat (map function_stmts gs))"

definition function_jumps_resolved :: "ast \<Rightarrow> bool" where
  "function_jumps_resolved a \<longleftrightarrow> set (jumps_of (function_stmts a)) \<subseteq> set (labels_of (function_stmts a))"

lemma func_lab:
  "ir_func i rt ps stmts e = Inr (f, e') \<Longrightarrow> list_all plain_item stmts \<Longrightarrow>
     lab x (count_list (labels_of stmts) x) (x \<in> set (jumps_of stmts)) e (ir_ops f) e'"
  by (auto simp: ir_func_def check_iff Let_def lab_def dest!: ir.block_facts split: if_splits)

lemma no_body:
  assumes "ir_functions_of (g # gs) e = Inr (fs, e')"
    and "\<nexists>i sp rt ps stmts. g = NODE_FUNCTION i sp rt ps (Some (NODE_BLOCK stmts))"
  shows "ir_functions_of gs e = Inr (fs, e') \<and> function_stmts g = []"
  using assms by (cases g) (auto simp: function_stmts_def split: option.splits ast.splits)

lemma functions_lab:
  assumes "ir_functions_of gs e = Inr (fs, e')" "\<forall>g \<in> set gs. list_all plain_item (function_stmts g)"
  shows "ir_labels e \<le> ir_labels e' \<and>
    defined_times x (concat (map ir_ops fs)) + given_out x e = count_list (program_labels gs) x + given_out x e'"
  using assms
proof (induction gs arbitrary: e fs)
  case (Cons g gs)
  show ?case
  proof (cases "\<exists>i sp rt ps stmts. g = NODE_FUNCTION i sp rt ps (Some (NODE_BLOCK stmts))")
    case True
    then obtain i sp rt ps stmts where g: "g = NODE_FUNCTION i sp rt ps (Some (NODE_BLOCK stmts))" by blast
    with Cons.prems(1) obtain f e1 fs1 where h: "ir_func i rt ps stmts e = Inr (f, e1)"
      "ir_functions_of gs e1 = Inr (fs1, e')" "fs = f # fs1"
      by (auto simp: check_iff)
    have "list_all plain_item stmts" using Cons.prems(2) g by (simp add: function_stmts_def)
    from func_lab [OF h(1) this, of x] Cons.IH [OF h(2)] Cons.prems(2) show ?thesis
      by (auto simp: h(3) g program_labels_def function_stmts_def lab_def)
  next
    case False
    note no_body [OF Cons.prems(1) False]
    with Cons show ?thesis by (auto simp: program_labels_def)
  qed
qed (simp add: program_labels_def)

lemma functions_jumps:
  assumes "ir_functions_of gs e = Inr (fs, e')" "\<forall>g \<in> set gs. list_all plain_item (function_stmts g)"
    "\<forall>n \<in> set (program_labels gs). n < ir_labels e" "list_all function_jumps_resolved gs" "f \<in> set fs"
  shows "set (jump_targets (ir_ops f)) \<subseteq> set (label_defs (ir_ops f))"
  using assms
proof (induction gs arbitrary: e fs)
  case (Cons g gs)
  show ?case
  proof (cases "\<exists>i sp rt ps stmts. g = NODE_FUNCTION i sp rt ps (Some (NODE_BLOCK stmts))")
    case True
    then obtain i sp rt ps stmts where g: "g = NODE_FUNCTION i sp rt ps (Some (NODE_BLOCK stmts))" by blast
    with Cons.prems(1) obtain f0 e1 fs1 where h: "ir_func i rt ps stmts e = Inr (f0, e1)"
      "ir_functions_of gs e1 = Inr (fs1, e')" "fs = f0 # fs1"
      by (auto simp: check_iff)
    have st: "list_all plain_item stmts" using Cons.prems(2) g by (simp add: function_stmts_def)
    show ?thesis
    proof (cases "f = f0")
      case True
      show ?thesis
      proof
        fix x assume "x \<in> set (jump_targets (ir_ops f))"
        with func_lab [OF h(1) st, of x] Cons.prems(3,4) True g
        have "0 < defined_times x (ir_ops f)"
          by (fastforce simp: lab_def uses_label_def function_jumps_resolved_def function_stmts_def
              program_labels_def given_out_def count_list_0_iff split: if_splits)
        then show "x \<in> set (label_defs (ir_ops f))"
          by (metis count_list_0_iff defined_times_def less_irrefl)
      qed
    next
      case False
      have "ir_labels e \<le> ir_labels e1" using func_lab [OF h(1) st, of 0] by (simp add: lab_def)
      moreover have "set (program_labels gs) \<subseteq> set (program_labels (g # gs))"
        by (auto simp: program_labels_def)
      ultimately have "\<forall>n \<in> set (program_labels gs). n < ir_labels e1"
        using Cons.prems(3) by (meson less_le_trans subsetD)
      moreover have "f \<in> set fs1" using Cons.prems(5) False h(3) by simp
      ultimately show ?thesis using Cons.prems(2,4) by (intro Cons.IH [OF h(2)]) simp_all
    qed
  next
    case False
    from no_body [OF Cons.prems(1) False] Cons.prems(2-5)
    show ?thesis by (intro Cons.IH) (simp_all add: program_labels_def)
  qed
qed simp

lemma set_linkage_ops: "set_linkage s fs = Inr fs' \<Longrightarrow> map ir_ops fs' = map ir_ops fs"
  by (induction fs arbitrary: fs') (auto simp: check_iff split: if_splits)

lemma set_linkages_ops: "set_linkages ss fs = Inr fs' \<Longrightarrow> map ir_ops fs' = map ir_ops fs"
  by (induction ss arbitrary: fs) (auto simp: check_iff dest: set_linkage_ops)

lemma distinct_times: "(\<And>x. defined_times x os \<le> 1) \<Longrightarrow> distinct (label_defs os)"
proof -
  have "(\<And>x. count_list xs x \<le> 1) \<Longrightarrow> distinct xs" for xs :: "int list"
  proof (induction xs)
    case (Cons y ys)
    have "count_list ys y = 0" using Cons.prems [of y] by simp
    moreover have "count_list ys x \<le> 1" for x using Cons.prems [of x] by (simp split: if_splits)
    ultimately show ?case using Cons.IH by (simp add: count_list_0_iff)
  qed simp
  then show "(\<And>x. defined_times x os \<le> 1) \<Longrightarrow> distinct (label_defs os)" by (simp add: defined_times_def)
qed

lemma distinct_count_le: "distinct xs \<Longrightarrow> count_list xs x \<le> 1"
  by (induction xs) (auto simp: count_list_0_iff)

lemma program_resolved:
  assumes "ir_program gs syms e = Inr ir" "\<forall>g \<in> set gs. list_all plain_item (function_stmts g)"
    "distinct (program_labels gs)" "\<forall>n \<in> set (program_labels gs). n < ir_labels e"
    "list_all function_jumps_resolved gs"
  shows "distinct (label_defs (concat (map ir_ops (ir_functions ir))))"
    "\<forall>f \<in> set (ir_functions ir). set (jump_targets (ir_ops f)) \<subseteq> set (label_defs (ir_ops f))"
proof -
  obtain fs e1 where fs: "ir_functions_of gs e = Inr (fs, e1)" and
    ops: "map ir_ops (ir_functions ir) = map ir_ops fs"
    using assms(1) by (auto simp: ir_program_def check_iff dest: set_linkages_ops)
  have "defined_times x (concat (map ir_ops fs)) \<le> 1" for x
    using functions_lab [OF fs assms(2), of x] distinct_count_le [OF assms(3), of x] assms(4)
    by (cases "x \<in> set (program_labels gs)") (auto simp: given_out_def count_list_0_iff split: if_splits)
  then show "distinct (label_defs (concat (map ir_ops (ir_functions ir))))"
    unfolding ops by (rule distinct_times)
  have "set (jump_targets os) \<subseteq> set (label_defs os)" if "os \<in> set (map ir_ops (ir_functions ir))" for os
    using that functions_jumps [OF fs assms(2,4,5)] unfolding ops by auto
  then show "\<forall>f \<in> set (ir_functions ir). set (jump_targets (ir_ops f)) \<subseteq> set (label_defs (ir_ops f))"
    by simp
qed

end
