(* ===== verification/IrMachine.thy ===== *)
theory IrMachine
  imports IrLabels "HOL-Library.Signed_Division"
begin

unbundle bit_operations_syntax

text \<open>
  A machine for three-address code over integers. A store gives every temporary and every
  variable with linkage the bits of its value; an operation reads a value at the type of the
  operand. A step is left open where C or the processor leaves it open (division by zero or
  without a representable quotient, a shift by the width or more) and for the operations on
  pointers, doubles and calls, at which the machine stops.
\<close>

datatype location = Temp int | Data string

type_synonym store = "location \<Rightarrow> int"

section \<open>Typed access\<close>

definition ctype_bits :: "ctype \<Rightarrow> nat" where "ctype_bits c = 8 * ctype_bytes c"

text \<open>The value of the type that is congruent to a number: wrap-around.\<close>

definition wrap :: "ctype \<Rightarrow> int \<Rightarrow> int" where
  "wrap c n = (if ctype_is_signed c then signed_take_bit (ctype_bits c - 1) n else take_bit (ctype_bits c) n)"

definition get :: "store \<Rightarrow> ctype \<Rightarrow> location \<Rightarrow> int" where
  "get s c l = wrap c (s l)"

definition put :: "location \<Rightarrow> ctype \<Rightarrow> int \<Rightarrow> store \<Rightarrow> store" where
  "put l c n s = s(l := take_bit (ctype_bits c) n)"

definition val_location :: "ir_val \<Rightarrow> location option" where
  "val_location v =
     (case subtype v of
        IR_VAL_TEMPORARY_VARIABLE \<Rightarrow> Some (Temp (val_num v))
      | IR_VAL_VARIABLE_DATA \<Rightarrow> Some (Data (case varname v of None \<Rightarrow> [] | Some s \<Rightarrow> s))
      | _ \<Rightarrow> None)"

definition read_val :: "store \<Rightarrow> ir_val \<Rightarrow> int" where
  "read_val s v =
     (case val_location v of Some l \<Rightarrow> get s (val_type v) l | None \<Rightarrow> wrap (val_type v) (val_num v))"

definition write_val :: "ir_val \<Rightarrow> int \<Rightarrow> store \<Rightarrow> store" where
  "write_val v n s = (case val_location v of Some l \<Rightarrow> put l (val_type v) n s | None \<Rightarrow> s)"

section \<open>Operations\<close>

definition in_range :: "ctype \<Rightarrow> int \<Rightarrow> bool" where "in_range c n \<longleftrightarrow> wrap c n = n"

text \<open>Two operands of one type, or a value and a shift count.\<close>

fun binary_value :: "ir_opcode \<Rightarrow> ctype \<Rightarrow> int \<Rightarrow> int \<Rightarrow> int option" where
  "binary_value IR_OP_BINARY_ADD c a b = Some (a + b)"
| "binary_value IR_OP_BINARY_SUBTRACT c a b = Some (a - b)"
| "binary_value IR_OP_BINARY_MULTIPLY c a b = Some (a * b)"
| "binary_value IR_OP_BINARY_DIVIDE c a b = (if b = 0 \<or> \<not> in_range c (a sdiv b) then None else Some (a sdiv b))"
| "binary_value IR_OP_BINARY_REMAINDER c a b = (if b = 0 \<or> \<not> in_range c (a sdiv b) then None else Some (a smod b))"
| "binary_value IR_OP_BITWISE_AND c a b = Some (a AND b)"
| "binary_value IR_OP_BITWISE_OR c a b = Some (a OR b)"
| "binary_value IR_OP_BITWISE_XOR c a b = Some (a XOR b)"
| "binary_value IR_OP_BITWISE_SHIFT_LEFT c a b =
     (if 0 \<le> b \<and> b < int (ctype_bits c) then Some (push_bit (nat b) a) else None)"
| "binary_value IR_OP_BITWISE_SHIFT_RIGHT c a b =
     (if 0 \<le> b \<and> b < int (ctype_bits c) then Some (drop_bit (nat b) a) else None)"
| "binary_value IR_OP_COMPARE_EQUAL c a b = Some (if a = b then 1 else 0)"
| "binary_value IR_OP_COMPARE_NOT_EQUAL c a b = Some (if a \<noteq> b then 1 else 0)"
| "binary_value IR_OP_COMPARE_LESS_THAN c a b = Some (if a < b then 1 else 0)"
| "binary_value IR_OP_COMPARE_LESS_THAN_EQ c a b = Some (if a \<le> b then 1 else 0)"
| "binary_value IR_OP_COMPARE_MORE_THAN c a b = Some (if a > b then 1 else 0)"
| "binary_value IR_OP_COMPARE_MORE_THAN_EQ c a b = Some (if a \<ge> b then 1 else 0)"
| "binary_value _ c a b = None"

definition op_effect :: "ir_op \<Rightarrow> store \<Rightarrow> store option" where
  "op_effect op s =
     (let v = ir_arg op; c = val_type (v 0); a = read_val s (v 0) in
      case ir_opcode op of
        IR_OP_COPY \<Rightarrow> Some (write_val (v 1) a s)
      | IR_OP_CTYPE_SIGN_EXTEND \<Rightarrow> Some (write_val (v 1) (signed_take_bit (ctype_bits c - 1) a) s)
      | IR_OP_CTYPE_ZERO_EXTEND \<Rightarrow> Some (write_val (v 1) (take_bit (ctype_bits c) a) s)
      | IR_OP_CTYPE_TRUNCATE \<Rightarrow> Some (write_val (v 1) (take_bit (ctype_bits (val_type (v 1))) a) s)
      | IR_OP_UNARY_COMPLEMENT \<Rightarrow> Some (write_val (v 1) (NOT a) s)
      | IR_OP_UNARY_NEGATE \<Rightarrow> Some (write_val (v 1) (- a) s)
      | IR_OP_UNARY_NOT \<Rightarrow> Some (write_val (v 1) (if a = 0 then 1 else 0) s)
      | IR_OP_UNARY_INCREMENT \<Rightarrow> Some (write_val (v 1) (a + 1) s)
      | IR_OP_UNARY_DECREMENT \<Rightarrow> Some (write_val (v 1) (a - 1) s)
      | oc \<Rightarrow> map_option (\<lambda>n. write_val (v 2) n s) (binary_value oc c a (read_val s (v 1))))"

section \<open>Steps\<close>

type_synonym config = "nat \<times> store"

definition is_label :: "int \<Rightarrow> ir_op \<Rightarrow> bool" where
  "is_label n op \<longleftrightarrow> ir_opcode op = IR_OP_LABEL \<and> val_num (ir_arg op 0) = n"

fun find_label :: "ir_op list \<Rightarrow> int \<Rightarrow> nat option" where
  "find_label [] n = None"
| "find_label (op # os) n = (if is_label n op then Some 0 else map_option Suc (find_label os n))"

definition jump_to :: "ir_op list \<Rightarrow> ir_val \<Rightarrow> store \<Rightarrow> config option" where
  "jump_to os v s = map_option (\<lambda>pc. (pc, s)) (find_label os (val_num v))"

fun ir_step :: "ir_op list \<Rightarrow> config \<Rightarrow> config option" where
  "ir_step os (pc, s) =
     (if pc < length os then
        let op = os ! pc; v = ir_arg op in
        case ir_opcode op of
          IR_OP_LABEL \<Rightarrow> Some (pc + 1, s)
        | IR_OP_JUMP \<Rightarrow> jump_to os (v 0) s
        | IR_OP_JUMP_IF_ZERO \<Rightarrow> (if read_val s (v 0) = 0 then jump_to os (v 1) s else Some (pc + 1, s))
        | IR_OP_JUMP_IF_NOT_ZERO \<Rightarrow> (if read_val s (v 0) \<noteq> 0 then jump_to os (v 1) s else Some (pc + 1, s))
        | _ \<Rightarrow> map_option (Pair (pc + 1)) (op_effect op s)
      else None)"

inductive steps :: "ir_op list \<Rightarrow> config \<Rightarrow> config \<Rightarrow> bool" for os where
  steps_refl [intro, simp]: "steps os c c"
| steps_step: "ir_step os c = Some c' \<Longrightarrow> steps os c' c'' \<Longrightarrow> steps os c c''"

text \<open>The code stops at a return of the value.\<close>

definition returns :: "ir_op list \<Rightarrow> store \<Rightarrow> int option \<Rightarrow> store \<Rightarrow> bool" where
  "returns os s r s' \<longleftrightarrow>
     (\<exists>pc v. steps os (0, s) (pc, s') \<and> pc < length os \<and> ir_opcode (os ! pc) = IR_OP_RET \<and>
        v = ir_arg (os ! pc) 0 \<and>
        r = (if subtype v = IR_VAL_DUMMY then None else Some (read_val s' v)))"

lemma steps_trans [trans]: "steps os a b \<Longrightarrow> steps os b c \<Longrightarrow> steps os a c"
  by (induction rule: steps.induct) (auto intro: steps_step)

lemma steps_one: "ir_step os c = Some c' \<Longrightarrow> steps os c c'"
  by (rule steps_step) auto

section \<open>Facts about access\<close>

lemma wrap_take [simp]: "wrap c (take_bit (ctype_bits c) n) = wrap c n"
  by (cases c) (simp_all add: wrap_def ctype_bits_def signed_take_bit_take_bit)

end
