(* ===== verification/CMeaning.thy ===== *)
theory CMeaning
  imports IrMachine "HOL-Library.Monad_Syntax"
begin

text \<open>
  What expressions and statements over integer variables mean in C: a reference evaluator on
  the typed tree, independent of the translation. \<open>None\<close> stands for an expression that C
  leaves undefined, and for statements also for too small a budget. Arithmetic that leaves
  the range of its type wraps around.
\<close>

section \<open>Expressions\<close>

definition symbol_location :: "ast_symbol \<Rightarrow> location" where
  "symbol_location s = (if some_linkage (as_ltype s) then Data (as_name s) else Temp (as_unique s))"

definition object_of :: "ast \<Rightarrow> location option" where
  "object_of a = (case ir_unpack_parens a of
     NODE_EXPRESSION_VARIABLE_USAGE s _ \<Rightarrow> Some (symbol_location s) | _ \<Rightarrow> None)"

fun c_arithmetic :: "infix_binary \<Rightarrow> ctype \<Rightarrow> int \<Rightarrow> int \<Rightarrow> int option" where
  "c_arithmetic EXPRESSION_BINARY_ADD t x y = Some (x + y)"
| "c_arithmetic EXPRESSION_BINARY_SUBTRACT t x y = Some (x - y)"
| "c_arithmetic EXPRESSION_BINARY_MULTIPLY t x y = Some (x * y)"
| "c_arithmetic EXPRESSION_BINARY_DIVIDE t x y =
     (if y \<noteq> 0 \<and> in_range t (x sdiv y) then Some (x sdiv y) else None)"
| "c_arithmetic EXPRESSION_BINARY_REMAINDER t x y =
     (if y \<noteq> 0 \<and> in_range t (x sdiv y) then Some (x - y * (x sdiv y)) else None)"
| "c_arithmetic EXPRESSION_BITWISE_AND t x y = Some (x AND y)"
| "c_arithmetic EXPRESSION_BITWISE_OR t x y = Some (x OR y)"
| "c_arithmetic EXPRESSION_BITWISE_XOR t x y = Some (x XOR y)"
| "c_arithmetic EXPRESSION_BITWISE_SHIFT_LEFT t x y =
     (if y \<in> {0..<int (ctype_bits t)} then Some (x * 2 ^ nat y) else None)"
| "c_arithmetic EXPRESSION_BITWISE_SHIFT_RIGHT t x y =
     (if y \<in> {0..<int (ctype_bits t)} then Some (x div 2 ^ nat y) else None)"
| "c_arithmetic EXPRESSION_COMPARE_EQUAL t x y = Some (of_bool (x = y))"
| "c_arithmetic EXPRESSION_COMPARE_NOT_EQUAL t x y = Some (of_bool (x \<noteq> y))"
| "c_arithmetic EXPRESSION_COMPARE_LESS_THAN t x y = Some (of_bool (x < y))"
| "c_arithmetic EXPRESSION_COMPARE_LESS_THAN_EQ t x y = Some (of_bool (x \<le> y))"
| "c_arithmetic EXPRESSION_COMPARE_MORE_THAN t x y = Some (of_bool (x > y))"
| "c_arithmetic EXPRESSION_COMPARE_MORE_THAN_EQ t x y = Some (of_bool (x \<ge> y))"
| "c_arithmetic _ t x y = None"

text \<open>The value of an expression and the store behind it.\<close>

fun c_expr :: "ast \<Rightarrow> store \<Rightarrow> (int \<times> store) option" where
  "c_expr (NODE_CONSTANT v t) s = Some (wrap t (constant_num v), s)"
| "c_expr (NODE_EXPRESSION_VARIABLE_USAGE x t) s = Some (get s t (symbol_location x), s)"
| "c_expr (NODE_SHARED a) s = c_expr a s"
| "c_expr (NODE_EXPRESSION_INITIALIZER (Some e) _ _) s = c_expr e s"
| "c_expr (NODE_EXPRESSION_CAST ty e t) s = do { (x, s) \<leftarrow> c_expr e s; Some (wrap ty x, s) }"
| "c_expr (Op_unary u e t) s =
     (if u = EXPRESSION_PAREN_ENCLOSED then c_expr e s
      else if u = Prefix EXPRESSION_UNARY_SIZE_OF then Some (wrap t (int (ctype_bytes (expr_type e))), s)
      else if incr_decr_node u then do {
        l \<leftarrow> object_of e;
        let old = get s t l;
        let new = wrap t (if is_decrement u then old - 1 else old + 1);
        Some (if is_postfix u then old else new, put l t new s) }
      else do {
        (x, s) \<leftarrow> c_expr e s;
        (case u of
           Prefix EXPRESSION_UNARY_COMPLEMENT \<Rightarrow> Some (wrap t (- x - 1), s)
         | Prefix EXPRESSION_UNARY_NEGATE \<Rightarrow> Some (wrap t (- x), s)
         | Prefix EXPRESSION_UNARY_NOT \<Rightarrow> Some (of_bool (x = 0), s)
         | _ \<Rightarrow> None) })"
| "c_expr (Op_binary b l r t) s =
     (case b of
        Infix_binary EXPRESSION_VARIABLE_ASSIGNMENT \<Rightarrow> do {
          v \<leftarrow> object_of l;
          (x, s) \<leftarrow> c_expr r s;
          Some (wrap t x, put v t x s) }
      | Infix_binary EXPRESSION_LOGICAL_AND \<Rightarrow> do {
          (x, s) \<leftarrow> c_expr l s;
          if x = 0 then Some (0, s) else do { (y, s) \<leftarrow> c_expr r s; Some (of_bool (y \<noteq> 0), s) } }
      | Infix_binary EXPRESSION_LOGICAL_OR \<Rightarrow> do {
          (x, s) \<leftarrow> c_expr l s;
          if x \<noteq> 0 then Some (1, s) else do { (y, s) \<leftarrow> c_expr r s; Some (of_bool (y \<noteq> 0), s) } }
      | Infix_binary op \<Rightarrow> do {
          (x, s) \<leftarrow> c_expr l s;
          (y, s) \<leftarrow> c_expr r s;
          z \<leftarrow> c_arithmetic op (expr_type l) x y;
          Some (wrap t z, s) }
      | _ \<Rightarrow> None)"
| "c_expr (Op_ternary c x y t) s = do {
     (n, s) \<leftarrow> c_expr c s;
     if n \<noteq> 0 then c_expr x s else c_expr y s }"
| "c_expr _ s = None"

section \<open>Statements\<close>

datatype outcome = Normal | Jumps int | Returned "int option"

text \<open>A condition that is missing holds.\<close>

definition c_condition :: "ast \<Rightarrow> store \<Rightarrow> (bool \<times> store) option" where
  "c_condition a s =
     (if is_null_expr a then Some (True, s) else do { (x, s) \<leftarrow> c_expr a s; Some (x \<noteq> 0, s) })"

definition c_effect :: "ast \<Rightarrow> store \<Rightarrow> store option" where
  "c_effect a s = (if is_null_expr a then Some s else map_option snd (c_expr a s))"

text \<open>
  A \<^verbatim>\<open>break\<close> or \<^verbatim>\<open>continue\<close> is a jump to a label of the loop, which the loop takes; the loop
  passes on the jump to a label of another loop around it.
\<close>

fun c_stmt :: "nat \<Rightarrow> ast \<Rightarrow> store \<Rightarrow> (outcome \<times> store) option"
  and c_stmts :: "nat \<Rightarrow> ast list \<Rightarrow> store \<Rightarrow> (outcome \<times> store) option" where
  "c_stmt 0 a s = None"
| "c_stmt (Suc n) a s =
     (case a of
        NODE_FUNCTION _ _ _ _ _ \<Rightarrow> Some (Normal, s)
      | NODE_EXPRESSION_NULL _ \<Rightarrow> Some (Normal, s)
      | NODE_BLOCK items \<Rightarrow> c_stmts n items s
      | NODE_FUNCTION_RETURN_STATEMENT e \<Rightarrow>
          if is_null_expr e then Some (Returned None, s)
          else do { (x, s) \<leftarrow> c_expr e s; Some (Returned (Some x), s) }
      | NODE_DECLARATION i _ _ init t \<Rightarrow>
          (case init of
             None \<Rightarrow> Some (Normal, s)
           | Some e \<Rightarrow> do { (x, s) \<leftarrow> c_expr e s; Some (Normal, put (symbol_location i) t x s) })
      | NODE_IF_ELSE c th el \<Rightarrow> do {
          (x, s) \<leftarrow> c_expr c s;
          c_stmts n (if x \<noteq> 0 then th else el) s }
      | NODE_LOOP pc bd inc qc le lc ls \<Rightarrow> do {
          (go, s) \<leftarrow> c_condition pc s;
          if \<not> go then Some (Normal, s)
          else do {
            (out, s) \<leftarrow> c_stmts n bd s;
            if out = Normal \<or> out = Jumps lc then do {
              s \<leftarrow> c_effect inc s;
              (go, s) \<leftarrow> c_condition qc s;
              if go then c_stmt n a s else Some (Normal, s) }
            else if out = Jumps le then Some (Normal, s)
            else Some (out, s) } }
      | NODE_BREAK k \<Rightarrow> Some (Jumps k, s)
      | NODE_CONTINUE k \<Rightarrow> Some (Jumps k, s)
      | _ \<Rightarrow> map_option (Pair Normal) (c_effect a s))"
| "c_stmts 0 as s = None"
| "c_stmts (Suc n) [] s = Some (Normal, s)"
| "c_stmts (Suc n) (a # as) s = do {
     (out, s) \<leftarrow> c_stmt n a s;
     if out = Normal then c_stmts n as s else Some (out, s) }"

section \<open>The fragment\<close>

text \<open>
  The expressions that the reference evaluator covers: integers throughout, the operands of
  arithmetic converted to one type, and no operand writes a variable that the other operand
  of the same operator mentions, which C leaves unsequenced. The numbers of the variables are
  below \<open>g\<close>, from where on the translation takes its own.
\<close>

fun mentioned :: "ast \<Rightarrow> location list" where
  "mentioned (NODE_EXPRESSION_VARIABLE_USAGE x t) = [symbol_location x]"
| "mentioned (NODE_SHARED a) = mentioned a"
| "mentioned (NODE_EXPRESSION_INITIALIZER (Some e) _ _) = mentioned e"
| "mentioned (NODE_EXPRESSION_CAST ty e t) = mentioned e"
| "mentioned (Op_unary u e t) = (if u = Prefix EXPRESSION_UNARY_SIZE_OF then [] else mentioned e)"
| "mentioned (Op_binary b l r t) = mentioned l @ mentioned r"
| "mentioned (Op_ternary c x y t) = mentioned c @ mentioned x @ mentioned y"
| "mentioned _ = []"

fun written :: "ast \<Rightarrow> location list" where
  "written (NODE_SHARED a) = written a"
| "written (NODE_EXPRESSION_INITIALIZER (Some e) _ _) = written e"
| "written (NODE_EXPRESSION_CAST ty e t) = written e"
| "written (Op_unary u e t) =
     (if u = Prefix EXPRESSION_UNARY_SIZE_OF then []
      else if incr_decr_node u then mentioned e else written e)"
| "written (Op_binary b l r t) = (if b = ASSIGN then mentioned l else written l) @ written r"
| "written (Op_ternary c x y t) = written c @ written x @ written y"
| "written _ = []"

definition below :: "int \<Rightarrow> location \<Rightarrow> bool" where
  "below g l = (case l of Temp n \<Rightarrow> n < g | Data _ \<Rightarrow> True)"

definition int_variable :: "int \<Rightarrow> ctype \<Rightarrow> ast \<Rightarrow> bool" where
  "int_variable g t a =
     (case ir_unpack_parens a of
        NODE_EXPRESSION_VARIABLE_USAGE x t' \<Rightarrow>
          as_stype x \<noteq> SYMBOL_STRING_LITERAL \<and> ctype_t t' = ctype_t t \<and> below g (symbol_location x)
      | _ \<Rightarrow> False)"

abbreviation same :: "ctype \<Rightarrow> ctype \<Rightarrow> bool" where "same c d \<equiv> ctype_t c = ctype_t d"

definition shift_op :: "infix_binary \<Rightarrow> bool" where
  "shift_op b \<longleftrightarrow> b \<in> {EXPRESSION_BITWISE_SHIFT_LEFT, EXPRESSION_BITWISE_SHIFT_RIGHT}"

definition compare_op :: "infix_binary \<Rightarrow> bool" where
  "compare_op b \<longleftrightarrow>
     b \<in> {EXPRESSION_COMPARE_EQUAL, EXPRESSION_COMPARE_NOT_EQUAL, EXPRESSION_COMPARE_LESS_THAN,
        EXPRESSION_COMPARE_LESS_THAN_EQ, EXPRESSION_COMPARE_MORE_THAN, EXPRESSION_COMPARE_MORE_THAN_EQ}"

fun int_expr :: "int \<Rightarrow> ast \<Rightarrow> bool" where
  "int_expr g (NODE_CONSTANT v t) = ctype_is_integer t"
| "int_expr g (NODE_EXPRESSION_VARIABLE_USAGE x t) =
     (ctype_is_integer t \<and> as_stype x \<noteq> SYMBOL_STRING_LITERAL \<and> below g (symbol_location x))"
| "int_expr g (NODE_SHARED a) = int_expr g a"
| "int_expr g (NODE_EXPRESSION_INITIALIZER (Some e) mu t) = (mu = [] \<and> int_expr g e \<and> same t (expr_type e))"
| "int_expr g (NODE_EXPRESSION_CAST ty e t) = (ctype_is_integer ty \<and> same t ty \<and> int_expr g e)"
| "int_expr g (Op_unary u e t) =
     (ctype_is_integer t \<and>
      (if u = EXPRESSION_PAREN_ENCLOSED then int_expr g e \<and> same t (expr_type e)
       else if u = Prefix EXPRESSION_UNARY_SIZE_OF then
         \<not> ctype_is_void (expr_type e) \<and> ctype_sizes_ok (expr_type e) \<and> ctype_bytes (expr_type e) < 2 ^ 63
       else if incr_decr_node u then int_variable g t e
       else if u = Prefix EXPRESSION_UNARY_NOT then int_expr g e
       else u \<in> {Prefix EXPRESSION_UNARY_COMPLEMENT, Prefix EXPRESSION_UNARY_NEGATE} \<and>
         int_expr g e \<and> same t (expr_type e)))"
| "int_expr g (Op_binary b l r t) =
     (ctype_is_integer t \<and>
      (case b of
         Infix_binary EXPRESSION_VARIABLE_ASSIGNMENT \<Rightarrow>
           int_variable g t l \<and> int_expr g r \<and> same t (expr_type r)
       | Infix_binary EXPRESSION_LOGICAL_AND \<Rightarrow> int_expr g l \<and> int_expr g r
       | Infix_binary EXPRESSION_LOGICAL_OR \<Rightarrow> int_expr g l \<and> int_expr g r
       | Infix_binary op \<Rightarrow>
           int_expr g l \<and> int_expr g r \<and> set (written r) \<inter> set (mentioned l) = {} \<and>
           (shift_op op \<or> same (expr_type l) (expr_type r)) \<and>
           (compare_op op \<or> same t (expr_type l))
       | _ \<Rightarrow> False))"
| "int_expr g (Op_ternary c x y t) =
     (ctype_is_integer t \<and> int_expr g c \<and> int_expr g x \<and> int_expr g y \<and> same t (expr_type x) \<and> same t (expr_type y))"
| "int_expr g _ = False"

definition int_or_null :: "int \<Rightarrow> ast \<Rightarrow> bool" where
  "int_or_null g a = (is_null_expr a \<or> int_expr g a)"

fun int_stmt :: "int \<Rightarrow> ast \<Rightarrow> bool" where
  "int_stmt g (NODE_FUNCTION i sp rt ps b) = True"
| "int_stmt g (NODE_BLOCK items) = list_all (int_stmt g) items"
| "int_stmt g (NODE_FUNCTION_RETURN_STATEMENT e) = int_or_null g e"
| "int_stmt g (NODE_DECLARATION i sp vt init t) =
     (case init of
        None \<Rightarrow> True
      | Some e \<Rightarrow> ctype_is_integer t \<and> int_expr g e \<and> init_single_set e \<and> same t (expr_type e) \<and>
          as_stype i \<noteq> SYMBOL_STRING_LITERAL \<and> below g (symbol_location i))"
| "int_stmt g (NODE_IF_ELSE c th el) = (int_expr g c \<and> list_all (int_stmt g) th \<and> list_all (int_stmt g) el)"
| "int_stmt g (NODE_LOOP pc bd inc qc le lc ls) =
     (int_or_null g pc \<and> list_all (int_stmt g) bd \<and> int_or_null g inc \<and> int_or_null g qc)"
| "int_stmt g (NODE_BREAK k) = True"
| "int_stmt g (NODE_CONTINUE k) = True"
| "int_stmt g a = int_or_null g a"

end
