(* ===== verification/IrMeaning.thy ===== *)
theory IrMeaning
  imports CMeaning
begin

text \<open>
  The code of an expression computes the value of the expression, and the code of a statement
  does what the statement does, wherever the code stands in a function with distinct labels.
\<close>

section \<open>Code at a position\<close>

definition code_at :: "ir_op list \<Rightarrow> nat \<Rightarrow> ir_op list \<Rightarrow> bool" where
  "code_at P i os \<longleftrightarrow> i + length os \<le> length P \<and> (\<forall>k < length os. P ! (i + k) = os ! k)"

lemma code_at_append [simp]: "code_at P i (os @ os') \<longleftrightarrow> code_at P i os \<and> code_at P (i + length os) os'"
proof
  assume h: "code_at P i (os @ os')"
  have "P ! (i + length os + k) = os' ! k" if "k < length os'" for k
    using h that unfolding code_at_def by (metis add.assoc add_less_cancel_left length_append nth_append_length_plus)
  moreover have "P ! (i + k) = os ! k" if "k < length os" for k
    using h that unfolding code_at_def by (metis length_append nth_append trans_less_add1)
  ultimately show "code_at P i os \<and> code_at P (i + length os) os'"
    using h by (auto simp: code_at_def)
next
  assume "code_at P i os \<and> code_at P (i + length os) os'"
  then show "code_at P i (os @ os')"
    by (auto simp: code_at_def nth_append) (metis add.assoc add_diff_inverse_nat add_less_cancel_left)
qed

lemma code_at_Nil [simp]: "code_at P i [] \<longleftrightarrow> i \<le> length P"
  by (simp add: code_at_def)

lemma code_at_Cons [simp]: "code_at P i (op # os) \<longleftrightarrow> i < length P \<and> P ! i = op \<and> code_at P (Suc i) os"
  by (auto simp: code_at_def less_Suc_eq_0_disj nth_Cons split: nat.split)

lemma code_at_self: "code_at P 0 P"
  by (simp add: code_at_def)

lemma find_label_at:
  assumes "distinct (label_defs P)" "i < length P" "P ! i = mk_op IR_OP_LABEL [label_val n]"
  shows "find_label P n = Some i"
  using assms
proof (induction P arbitrary: i)
  case (Cons op P)
  show ?case
  proof (cases i)
    case 0
    with Cons.prems show ?thesis by (simp add: is_label_def)
  next
    case (Suc j)
    have "mk_op IR_OP_LABEL [label_val n] \<in> set P" using Cons.prems Suc by (metis length_Cons not_less_eq nth_Cons_Suc nth_mem Suc_less_eq)
    then have "n \<in> set (label_defs P)" by (force simp: label_defs_def)
    then have "\<not> is_label n op" using Cons.prems(1) by (auto simp: is_label_def label_defs_def)
    moreover have "distinct (label_defs P)" using Cons.prems(1) by (auto simp: label_defs_def split: if_splits)
    ultimately show ?thesis using Cons Suc by simp
  qed
qed simp

text \<open>One step of each kind.\<close>

lemma steps_op:
  assumes "i < length P" "P ! i = op" "straight (ir_opcode op)" "op_effect op m = Some m'"
  shows "steps P (i, m) (Suc i, m')"
  using assms by (intro steps_one) (cases "ir_opcode op"; simp)

lemma steps_label: "i < length P \<Longrightarrow> P ! i = mk_op IR_OP_LABEL [v] \<Longrightarrow> steps P (i, m) (Suc i, m)"
  by (intro steps_one) simp

lemma steps_jump:
  "i < length P \<Longrightarrow> P ! i = mk_op IR_OP_JUMP [label_val n] \<Longrightarrow> find_label P n = Some j \<Longrightarrow>
     steps P (i, m) (j, m)"
  by (intro steps_one) (simp add: jump_to_def)

lemma steps_jump_if_zero:
  "i < length P \<Longrightarrow> P ! i = mk_op IR_OP_JUMP_IF_ZERO [v, label_val n] \<Longrightarrow>
     (read_val m v = 0 \<Longrightarrow> find_label P n = Some j) \<Longrightarrow>
     steps P (i, m) (if read_val m v = 0 then j else Suc i, m)"
  by (intro steps_one) (simp add: jump_to_def)

lemma steps_jump_if_not_zero:
  "i < length P \<Longrightarrow> P ! i = mk_op IR_OP_JUMP_IF_NOT_ZERO [v, label_val n] \<Longrightarrow>
     (read_val m v \<noteq> 0 \<Longrightarrow> find_label P n = Some j) \<Longrightarrow>
     steps P (i, m) (if read_val m v \<noteq> 0 then j else Suc i, m)"
  by (intro steps_one) (simp add: jump_to_def)

section \<open>Types and values\<close>

lemma integer_cases:
  "ctype_is_integer c \<Longrightarrow> \<exists>b. c \<in> {CTYPE_CHAR b, CTYPE_SIGNED_CHAR b, CTYPE_UNSIGNED_CHAR b,
     CTYPE_INT b, CTYPE_UNSIGNED_INT b, CTYPE_LONG b, CTYPE_UNSIGNED_LONG b}"
  by (cases c) auto

lemma same_integer: "same c d \<Longrightarrow> ctype_is_integer c \<Longrightarrow> ctype_is_integer d"
  by (cases c; cases d) auto

lemma same_bits: "same c d \<Longrightarrow> ctype_is_integer c \<Longrightarrow> ctype_bits c = ctype_bits d"
  by (cases c; cases d) (auto simp: ctype_bits_def)

lemma same_wrap: "same c d \<Longrightarrow> ctype_is_integer c \<Longrightarrow> wrap c n = wrap d n"
  by (cases c; cases d) (auto simp: wrap_def ctype_bits_def)

lemma integer_type:
  assumes "ctype_is_integer c"
  shows "\<not> ctype_is_void c" "\<not> ctype_is_array c" "\<not> ctype_is_pointer c" "\<not> ctype_is_floating_point c"
    "ctype_array_decay_to_pointer c = c" "ctype_to_size_bytes c = Inr (of_nat (ctype_bytes c))" "ctype_bytes c \<in> {1, 4, 8}"
  using assms by (cases c; simp add: ctype_pred_defs ctype_array_decay_to_pointer_def)+

lemma integer_equal: "ctype_is_integer c \<Longrightarrow> ctype_is_integer d \<Longrightarrow> ctype_is_equal c d \<longleftrightarrow> same c d"
  by (subst ctype_is_equal_no_array) (auto dest!: integer_cases simp: ctype_pred_defs)

lemma wrap_wrap [simp]: "wrap c (wrap c n) = wrap c n"
  by (cases "ctype_is_signed c") (simp_all add: wrap_def)

lemma wrap_small: "ctype_is_integer c \<Longrightarrow> n \<in> {0, 1} \<Longrightarrow> wrap c n = n"
  by (cases c) (auto simp: wrap_def ctype_bits_def)

lemma in_range_wrap [simp]: "in_range c (wrap c n)"
  by (simp add: in_range_def)

lemma in_range_same: "same c d \<Longrightarrow> ctype_is_integer c \<Longrightarrow> in_range c n \<longleftrightarrow> in_range d n"
  by (simp add: in_range_def same_wrap)

lemma int_expr_type: "int_expr g a \<Longrightarrow> ctype_is_integer (expr_type a)"
  by (induction g a rule: int_expr.induct) (auto dest: same_integer [OF sym])

lemma unpack_type: "int_variable g t a \<Longrightarrow> \<exists>x t'. ir_unpack_parens a = NODE_EXPRESSION_VARIABLE_USAGE x t' \<and>
    same t' t \<and> below g (symbol_location x) \<and> as_stype x \<noteq> SYMBOL_STRING_LITERAL \<and> object_of a = Some (symbol_location x)"
  by (auto simp: int_variable_def object_of_def split: ast.splits)

lemma mentioned_unpack: "mentioned (ir_unpack_parens a) = mentioned a"
  by (induction a rule: ir_unpack_parens.induct) auto

lemma object_mentioned: "object_of a = Some l \<Longrightarrow> set (mentioned a) = {l}"
proof -
  assume "object_of a = Some l"
  then obtain x t where "ir_unpack_parens a = NODE_EXPRESSION_VARIABLE_USAGE x t" "l = symbol_location x"
    by (auto simp: object_of_def split: ast.splits)
  then show "set (mentioned a) = {l}" using mentioned_unpack [of a, symmetric] by simp
qed

lemma variable_mentioned: "int_variable g t a \<Longrightarrow> l \<in> set (mentioned a) \<Longrightarrow> below g l"
  by (auto dest!: unpack_type object_mentioned)

definition arith_op :: "infix_binary \<Rightarrow> bool" where
  "arith_op b \<longleftrightarrow> b \<notin> {EXPRESSION_VARIABLE_ASSIGNMENT, EXPRESSION_LOGICAL_AND, EXPRESSION_LOGICAL_OR}"

lemma int_arith:
  "arith_op op \<Longrightarrow> int_expr g (Op_binary (Infix_binary op) l r t) \<Longrightarrow>
     ctype_is_integer t \<and> int_expr g l \<and> int_expr g r \<and> set (written r) \<inter> set (mentioned l) = {} \<and>
     (shift_op op \<or> same (expr_type l) (expr_type r)) \<and> (compare_op op \<or> same t (expr_type l))"
  by (cases op) (simp_all add: arith_op_def)

lemma int_binaryE:
  assumes "int_expr g (Op_binary b l r t)"
  obtains
    (assign) "b = ASSIGN" "ctype_is_integer t" "int_variable g t l" "int_expr g r" "same t (expr_type r)"
  | (both) "b = Infix_binary EXPRESSION_LOGICAL_AND" "ctype_is_integer t" "int_expr g l" "int_expr g r"
  | (either) "b = Infix_binary EXPRESSION_LOGICAL_OR" "ctype_is_integer t" "int_expr g l" "int_expr g r"
  | (arith) op where "b = Infix_binary op" "arith_op op" "ctype_is_integer t" "int_expr g l" "int_expr g r"
      "set (written r) \<inter> set (mentioned l) = {}" "shift_op op \<or> same (expr_type l) (expr_type r)"
      "compare_op op \<or> same t (expr_type l)"
proof (cases b)
  case (Infix_binary op)
  consider "op = EXPRESSION_VARIABLE_ASSIGNMENT" | "op = EXPRESSION_LOGICAL_AND" | "op = EXPRESSION_LOGICAL_OR" | "arith_op op"
    by (auto simp: arith_op_def)
  then show thesis
  proof cases
    case 4
    with assms Infix_binary int_arith [OF 4] show ?thesis by (intro arith [OF Infix_binary]) blast+
  qed (use assms Infix_binary in \<open>simp_all add: assign both either\<close>)
qed (use assms in auto)

definition value_op :: "unary_node \<Rightarrow> bool" where
  "value_op u \<longleftrightarrow>
     u \<in> {Prefix EXPRESSION_UNARY_NOT, Prefix EXPRESSION_UNARY_COMPLEMENT, Prefix EXPRESSION_UNARY_NEGATE}"

lemma int_unaryE:
  assumes "int_expr g (Op_unary u e t)"
  obtains
    (paren) "u = EXPRESSION_PAREN_ENCLOSED" "ctype_is_integer t" "int_expr g e" "same t (expr_type e)"
  | (sizeof) "u = Prefix EXPRESSION_UNARY_SIZE_OF" "ctype_is_integer t" "\<not> ctype_is_void (expr_type e)"
      "ctype_sizes_ok (expr_type e)" "ctype_bytes (expr_type e) < 2 ^ 63"
  | (incr) "incr_decr_node u" "ctype_is_integer t" "int_variable g t e"
  | (op) "value_op u" "ctype_is_integer t" "int_expr g e" "u = Prefix EXPRESSION_UNARY_NOT \<or> same t (expr_type e)"
proof -
  consider "u = EXPRESSION_PAREN_ENCLOSED" | "u = Prefix EXPRESSION_UNARY_SIZE_OF" | "incr_decr_node u"
    | "u = Prefix EXPRESSION_UNARY_NOT" | "u = Prefix EXPRESSION_UNARY_COMPLEMENT" | "u = Prefix EXPRESSION_UNARY_NEGATE"
    using assms by (simp split: if_splits) blast
  then show thesis
  proof cases
    case 3
    then show ?thesis using assms by (intro incr) (simp_all add: incr_decr_node_def split: if_splits)
  qed (use assms in \<open>simp_all add: incr_decr_node_def value_op_def paren sizeof op\<close>)
qed

lemma mentioned_below: "int_expr g a \<Longrightarrow> l \<in> set (mentioned a) \<Longrightarrow> below g l"
proof (induction a)
  case (Op_unary u e t)
  from Op_unary.prems(1) show ?case
    by (cases rule: int_unaryE) (use Op_unary variable_mentioned in \<open>auto split: if_splits\<close>)
next
  case (Op_binary b l r t)
  from Op_binary.prems(1) show ?case
    by (cases rule: int_binaryE) (use Op_binary variable_mentioned in auto)
next
  case (NODE_EXPRESSION_INITIALIZER sg mu t)
  then show ?case by (cases sg) auto
qed auto

lemma written_mentioned: "int_expr g a \<Longrightarrow> set (written a) \<subseteq> set (mentioned a)"
proof (induction a)
  case (Op_unary u e t)
  from Op_unary.prems show ?case
    by (cases rule: int_unaryE) (use Op_unary.IH in \<open>auto simp: incr_decr_node_def\<close>)
next
  case (Op_binary b l r t)
  from Op_binary.prems(1) show ?case
    by (cases rule: int_binaryE) (use Op_binary.IH in \<open>auto simp: arith_op_def\<close>)
next
  case (NODE_EXPRESSION_INITIALIZER sg mu t)
  then show ?case by (cases sg) auto
qed auto

section \<open>The reference evaluator\<close>

lemma c_arith:
  "arith_op op \<Longrightarrow> c_expr (Op_binary (Infix_binary op) l r t) s = do {
     (x, s) \<leftarrow> c_expr l s; (y, s) \<leftarrow> c_expr r s; z \<leftarrow> c_arithmetic op (expr_type l) x y; Some (wrap t z, s) }"
  by (cases op) (simp_all add: arith_op_def)

lemma c_incr:
  "incr_decr_node u \<Longrightarrow> c_expr (Op_unary u e t) s = do {
     l \<leftarrow> object_of e;
     let old = get s t l;
     let new = wrap t (if is_decrement u then old - 1 else old + 1);
     Some (if is_postfix u then old else new, put l t new s) }"
  by (auto simp: incr_decr_node_def)

definition unary_value :: "unary_node \<Rightarrow> ctype \<Rightarrow> int \<Rightarrow> int" where
  "unary_value u t x =
     (if u = Prefix EXPRESSION_UNARY_NOT then of_bool (x = 0)
      else if u = Prefix EXPRESSION_UNARY_COMPLEMENT then wrap t (NOT x) else wrap t (- x))"

lemma c_value_op:
  "value_op u \<Longrightarrow> c_expr (Op_unary u e t) s = do { (x, s) \<leftarrow> c_expr e s; Some (unary_value u t x, s) }"
  by (auto simp: value_op_def unary_value_def incr_decr_node_def not_int_def)

lemma c_paren: "c_expr (Op_unary EXPRESSION_PAREN_ENCLOSED e t) s = c_expr e s"
  by simp

lemma c_sizeof:
  "c_expr (Op_unary (Prefix EXPRESSION_UNARY_SIZE_OF) e t) s = Some (wrap t (int (ctype_bytes (expr_type e))), s)"
  by simp

lemma c_assign:
  "c_expr (Op_binary ASSIGN l r t) s = do {
     v \<leftarrow> object_of l; (x, s) \<leftarrow> c_expr r s; Some (wrap t x, put v t x s) }"
  by simp

lemma c_logical:
  "c_expr (Op_binary (Infix_binary EXPRESSION_LOGICAL_AND) l r t) s = do {
     (x, s) \<leftarrow> c_expr l s;
     if x = 0 then Some (0, s) else do { (y, s) \<leftarrow> c_expr r s; Some (of_bool (y \<noteq> 0), s) } }"
  "c_expr (Op_binary (Infix_binary EXPRESSION_LOGICAL_OR) l r t) s = do {
     (x, s) \<leftarrow> c_expr l s;
     if x \<noteq> 0 then Some (1, s) else do { (y, s) \<leftarrow> c_expr r s; Some (of_bool (y \<noteq> 0), s) } }"
  by simp_all

lemmas c_operator = c_paren c_sizeof c_incr c_value_op c_assign c_logical c_arith
declare c_expr.simps(6,7) [simp del]

lemma written_unary:
  "value_op u \<Longrightarrow> written (Op_unary u e t) = written e"
  "incr_decr_node u \<Longrightarrow> written (Op_unary u e t) = mentioned e"
  by (auto simp: value_op_def incr_decr_node_def)

lemma written_arith: "arith_op op \<Longrightarrow> written (Op_binary (Infix_binary op) l r t) = written l @ written r"
  by (auto simp: arith_op_def)

lemma put_other: "l \<noteq> l' \<Longrightarrow> put l' t n s l = s l"
  by (simp add: put_def)

lemma c_expr_frame:
  "int_expr g a \<Longrightarrow> c_expr a s = Some (x, s') \<Longrightarrow> l \<notin> set (written a) \<Longrightarrow> s' l = s l"
proof (induction a arbitrary: s x s')
  case (Op_unary u e t)
  from Op_unary.prems(1) show ?case
  proof (cases rule: int_unaryE)
    case paren
    with Op_unary show ?thesis by (simp add: c_operator incr_decr_node_def)
  next
    case sizeof
    with Op_unary show ?thesis by (simp add: c_operator)
  next
    case incr
    from incr(1) Op_unary.prems(2) obtain k n where k: "object_of e = Some k" "s' = put k t n s"
      by (auto simp: c_incr bind_eq_Some_conv Let_def)
    with object_mentioned [OF k(1)] Op_unary.prems(3) written_unary(2) [OF incr(1), of e t] show ?thesis
      by (simp add: put_def del: written.simps)
  next
    case op
    from op(1) Op_unary.prems(2,3) Op_unary.IH [OF op(3)] show ?thesis
      by (auto simp: c_value_op written_unary bind_eq_Some_conv simp del: written.simps)
  qed
next
  case (Op_binary b l r t)
  from Op_binary.prems(1) show ?case
  proof (cases rule: int_binaryE)
    case (arith op)
    from arith(1) Op_binary.prems(2,3) Op_binary.IH(1) [OF arith(4)] Op_binary.IH(2) [OF arith(5)] show ?thesis
      by (auto simp: c_arith [OF arith(2)] written_arith [OF arith(2)] bind_eq_Some_conv simp del: written.simps) metis
  next
    case assign
    from assign Op_binary.prems(2,3) Op_binary.IH(2) show ?thesis
      by (auto simp: c_assign bind_eq_Some_conv put_def dest!: object_mentioned)
  next
    case both
    from both(1) Op_binary.prems(2,3) Op_binary.IH(1) [OF both(3)] Op_binary.IH(2) [OF both(4)] show ?thesis
      by (simp add: c_logical bind_eq_Some_conv split: if_splits) (metis)+
  next
    case either
    from either(1) Op_binary.prems(2,3) Op_binary.IH(1) [OF either(3)] Op_binary.IH(2) [OF either(4)] show ?thesis
      by (simp add: c_logical bind_eq_Some_conv split: if_splits) (metis)+
  qed
next
  case (NODE_EXPRESSION_INITIALIZER sg mu t)
  then show ?case by (cases sg) auto
next
  case (Op_ternary c y z t)
  then show ?case by (simp add: bind_eq_Some_conv split: if_splits) (metis)+
qed (auto simp: bind_eq_Some_conv)

lemma unary_value_range: "ctype_is_integer t \<Longrightarrow> in_range t (unary_value u t x)"
  by (simp add: unary_value_def in_range_def wrap_small)

lemma bool_range: "ctype_is_integer t \<Longrightarrow> n \<in> {0, 1} \<Longrightarrow> in_range t n"
  by (simp add: in_range_def wrap_small)

lemma c_expr_range:
  "int_expr g a \<Longrightarrow> c_expr a s = Some (x, s') \<Longrightarrow> in_range (expr_type a) x"
proof (induction a arbitrary: s x s')
  case (Op_unary u e t)
  from Op_unary.prems(1) show ?case
  proof (cases rule: int_unaryE)
    case paren
    then show ?thesis using Op_unary by (auto simp: in_range_same c_operator)
  next
    case sizeof
    with Op_unary show ?thesis by (auto simp: c_operator)
  next
    case incr
    from incr(1) Op_unary.prems(2) show ?thesis
      by (auto simp: c_incr bind_eq_Some_conv Let_def get_def)
  next
    case op
    from op(1,2) Op_unary.prems(2) show ?thesis
      by (auto simp: c_value_op bind_eq_Some_conv unary_value_range)
  qed
next
  case (Op_binary b l r t)
  from Op_binary.prems(1) show ?case
  proof (cases rule: int_binaryE)
    case (arith op)
    from arith(1,2) Op_binary.prems(2) show ?thesis
      by (auto simp: c_arith bind_eq_Some_conv)
  next
    case assign
    from assign(1) Op_binary.prems(2) show ?thesis by (auto simp: c_assign bind_eq_Some_conv)
  next
    case both
    from both(1,2) Op_binary.prems(2) show ?thesis
      by (auto simp: c_logical bind_eq_Some_conv intro!: bool_range split: if_splits)
  next
    case either
    from either(1,2) Op_binary.prems(2) show ?thesis
      by (auto simp: c_logical bind_eq_Some_conv intro!: bool_range split: if_splits)
  qed
next
  case (NODE_EXPRESSION_INITIALIZER sg mu t)
  then show ?case
  proof (cases sg)
    case (Some e)
    with NODE_EXPRESSION_INITIALIZER have "in_range (expr_type e) x" "same t (expr_type e)" "ctype_is_integer (expr_type e)"
      by (auto intro: int_expr_type)
    then show ?thesis by (metis expr_type.simps(5) in_range_same)
  qed auto
next
  case (NODE_EXPRESSION_CAST ty e t)
  then show ?case by (auto simp: bind_eq_Some_conv in_range_def) (metis same_integer same_wrap wrap_wrap)
next
  case (Op_ternary c y z t)
  then show ?case by (simp add: bind_eq_Some_conv split: if_splits) (metis in_range_same)+
qed (auto simp: get_def)

end
