(* ===== verification/IrSim.thy ===== *)
theory IrSim
  imports IrMeaning
begin

text \<open>
  The code of an expression computes the value of the expression. The store of the machine
  agrees with the store of the program below \<open>g\<close>; the temporaries of the translation lie
  above, and the code of an expression writes only those that its translation takes. The
  value of the left operand thus survives the code of the right one.
\<close>

section \<open>Stores\<close>

definition agree :: "int \<Rightarrow> store \<Rightarrow> store \<Rightarrow> bool" where
  "agree g m s \<longleftrightarrow> (\<forall>l. below g l \<longrightarrow> m l = s l)"

definition taken_between :: "int \<Rightarrow> int \<Rightarrow> location \<Rightarrow> bool" where
  "taken_between a b l \<longleftrightarrow> (\<exists>k. l = Temp k \<and> a \<le> k \<and> k < b)"

definition kept :: "int \<Rightarrow> int \<Rightarrow> int \<Rightarrow> store \<Rightarrow> store \<Rightarrow> bool" where
  "kept g a b m m' \<longleftrightarrow> (\<forall>l. m' l \<noteq> m l \<longrightarrow> below g l \<or> taken_between a b l)"

definition holds :: "location set \<Rightarrow> int \<Rightarrow> int \<Rightarrow> ctype \<Rightarrow> ir_val \<Rightarrow> bool" where
  "holds L a b t v \<longleftrightarrow> same (val_type v) t \<and>
     (subtype v = IR_VAL_CONSTANT \<or> (\<exists>l. val_location v = Some l \<and> (l \<in> L \<or> taken_between a b l)))"

lemma kept_refl [simp]: "kept g a b m m"
  by (simp add: kept_def)

lemma kept_trans:
  "kept g a b m m1 \<Longrightarrow> kept g c d m1 m2 \<Longrightarrow> a \<le> c \<Longrightarrow> b \<le> d \<Longrightarrow> kept g a d m m2"
  unfolding kept_def taken_between_def by (metis order_trans less_le_trans)

lemma kept_wider: "kept g c d m m' \<Longrightarrow> a \<le> c \<Longrightarrow> d \<le> b \<Longrightarrow> kept g a b m m'"
  unfolding kept_def taken_between_def by (metis order_trans less_le_trans)

lemma agree_temp: "agree g m s \<Longrightarrow> g \<le> k \<Longrightarrow> agree g (put (Temp k) t n m) s"
  by (auto simp: agree_def put_def below_def)

lemma agree_put: "agree g m s \<Longrightarrow> agree g (put l t n m) (put l t n s)"
  by (auto simp: agree_def put_def)

lemma kept_temp: "a \<le> k \<Longrightarrow> k < b \<Longrightarrow> kept g a b m (put (Temp k) t n m)"
  by (auto simp: kept_def put_def taken_between_def)

lemma kept_variable: "below g l \<Longrightarrow> kept g a b m (put l t n m)"
  by (auto simp: kept_def put_def)

lemma constant_location [simp]: "subtype v = IR_VAL_CONSTANT \<Longrightarrow> val_location v = None"
  by (simp add: val_location_def)

lemma holds_set: "holds L a b t v \<Longrightarrow> is_set v \<and> subtype v \<noteq> IR_VAL_DUMMY"
  by (auto simp: holds_def is_set_def val_location_def)

lemma holds_wider: "holds L a b t v \<Longrightarrow> L \<subseteq> L' \<Longrightarrow> a' \<le> a \<Longrightarrow> b \<le> b' \<Longrightarrow> same t t' \<Longrightarrow> holds L' a' b' t' v"
  unfolding holds_def taken_between_def by (metis (no_types, opaque_lifting) order_trans less_le_trans subsetD)

text \<open>A value outlives code that writes other variables and later temporaries.\<close>

lemma stable:
  assumes "holds L a b t v" "\<forall>l \<in> L. below g l \<and> l \<notin> W" "kept g b c m m'" "agree g m s" "agree g m' s'"
    "\<forall>l. l \<notin> W \<longrightarrow> s' l = s l" "g \<le> a"
  shows "read_val m' v = read_val m v"
proof (cases "val_location v")
  case (Some l)
  then consider "l \<in> L" | "taken_between a b l" using assms(1) by (auto simp: holds_def)
  then have "m' l = m l"
  proof cases
    case 1
    then have "below g l" "l \<notin> W" using assms(2) by auto
    then show ?thesis using assms(4-6) by (simp add: agree_def)
  next
    case 2
    then have "\<not> below g l" "\<not> taken_between b c l" using assms(7) by (auto simp: taken_between_def below_def)
    then show ?thesis using assms(3) by (auto simp: kept_def)
  qed
  with Some show ?thesis by (simp add: read_val_def get_def)
qed (simp add: read_val_def)

lemma tmpvar_simps [simp]:
  "val_location (ir_val_tmpvar k t) = Some (Temp k)" "val_type (ir_val_tmpvar k t) = t"
  "is_set (ir_val_tmpvar k t)"
  by (simp_all add: ir_val_tmpvar_def ir_val_zero_def val_location_def is_set_def)

lemma tmpvar_access [simp]:
  "write_val (ir_val_tmpvar k t) n m = put (Temp k) t n m"
  "read_val (put (Temp k) t n m) (ir_val_tmpvar k t) = wrap t n"
  by (simp_all add: write_val_def read_val_def get_def put_def)

lemma holds_temp: "a \<le> k \<Longrightarrow> k < b \<Longrightarrow> holds L a b t (ir_val_tmpvar k t)"
  by (simp add: holds_def taken_between_def)

section \<open>Expressions\<close>

definition computes :: "int \<Rightarrow> ast \<Rightarrow> ir_env \<Rightarrow> ir_op list \<Rightarrow> ir_val \<Rightarrow> ir_env \<Rightarrow> bool" where
  "computes g a e os v e' \<longleftrightarrow>
     generator e \<le> generator e' \<and>
     holds (set (mentioned a)) (generator e) (generator e') (expr_type a) v \<and>
     (\<forall>P i m s x s'. code_at P i os \<longrightarrow> distinct (label_defs P) \<longrightarrow> agree g m s \<longrightarrow> c_expr a s = Some (x, s') \<longrightarrow>
       (\<exists>m'. steps P (i, m) (i + length os, m') \<and> agree g m' s' \<and>
          kept g (generator e) (generator e') m m' \<and> read_val m' v = x))"

lemma computesI:
  assumes "generator e \<le> generator e'" "holds (set (mentioned a)) (generator e) (generator e') (expr_type a) v"
    and "\<And>P i m s x s'. code_at P i os \<Longrightarrow> distinct (label_defs P) \<Longrightarrow> agree g m s \<Longrightarrow> c_expr a s = Some (x, s') \<Longrightarrow>
      \<exists>m'. steps P (i, m) (i + length os, m') \<and> agree g m' s' \<and>
          kept g (generator e) (generator e') m m' \<and> read_val m' v = x"
  shows "computes g a e os v e'"
  using assms unfolding computes_def by blast

lemma computes_static:
  "computes g a e os v e' \<Longrightarrow> generator e \<le> generator e' \<and>
     holds (set (mentioned a)) (generator e) (generator e') (expr_type a) v \<and> is_set v \<and>
     subtype v \<noteq> IR_VAL_DUMMY \<and> same (val_type v) (expr_type a)"
  unfolding computes_def using holds_set holds_def by blast

lemma computes_holds:
  "computes g a e os v e' \<Longrightarrow> set (mentioned a) \<subseteq> L \<Longrightarrow> same (expr_type a) t \<Longrightarrow> b \<le> generator e \<Longrightarrow>
     generator e' \<le> c \<Longrightarrow> holds L b c t v"
  using holds_wider computes_static by blast

lemma computesE:
  assumes "computes g a e os v e'" "code_at P i os" "distinct (label_defs P)" "agree g m s" "c_expr a s = Some (x, s')"
  obtains m' where "steps P (i, m) (i + length os, m')" "agree g m' s'"
    "kept g (generator e) (generator e') m m'" "read_val m' v = x"
  using assms unfolding computes_def by blast

text \<open>An operation at the end that writes a temporary of its own.\<close>

lemma tail_op:
  assumes "steps P (i, m) (i + length os, m1)" "code_at P i (os @ [op])" "straight (ir_opcode op)"
    "op_effect op m1 = Some (put (Temp k) t n m1)" "agree g m1 s" "kept g a b m m1" "g \<le> k" "a \<le> b" "b \<le> k" "k < c"
  shows "\<exists>m'. steps P (i, m) (i + length (os @ [op]), m') \<and> agree g m' s \<and> kept g a c m m' \<and>
    read_val m' (ir_val_tmpvar k t) = wrap t n"
proof (intro exI conjI)
  have "steps P (i + length os, m1) (Suc (i + length os), put (Temp k) t n m1)"
    using assms(2) by (intro steps_op [OF _ _ assms(3,4)]) simp_all
  with assms(1) show "steps P (i, m) (i + length (os @ [op]), put (Temp k) t n m1)"
    using steps_trans by fastforce
  show "agree g (put (Temp k) t n m1) s" using assms(5,7) by (rule agree_temp)
  have "kept g b c m1 (put (Temp k) t n m1)" using assms(9,10) by (rule kept_temp)
  from kept_trans [OF assms(6) this assms(8)] assms(9,10) show "kept g a c m (put (Temp k) t n m1)" by simp
qed simp

lemma same_trans_wrap: "same c d \<Longrightarrow> ctype_is_integer d \<Longrightarrow> in_range d x \<Longrightarrow> wrap c x = x"
  by (metis in_range_def same_integer same_wrap)

lemma unary_effect:
  assumes "unary_opcode u t = Inr oc" "value_op u"
  shows "straight oc" "op_effect (mk_op oc [v, ir_val_tmpvar k t]) m =
      Some (put (Temp k) t (if u = Prefix EXPRESSION_UNARY_NOT then of_bool (read_val m v = 0)
        else if u = Prefix EXPRESSION_UNARY_COMPLEMENT then NOT (read_val m v) else - read_val m v) m)"
  using assms by (auto simp: value_op_def unary_opcode_def op_effect_def Let_def)

lemma size_integer: "ctype_is_integer c \<Longrightarrow> size_of c = Inr (int (ctype_bytes c))"
  by (cases c) (simp_all add: size_of_def)

lemma cast_effect:
  assumes "cast_opcode c t = Inr oc" "ctype_is_integer c" "ctype_is_integer t"
    "same (val_type v) c" "read_val m v = x" "in_range c x"
  shows "straight oc \<and> (\<exists>n. op_effect (mk_op oc [v, ir_val_tmpvar k t']) m = Some (put (Temp k) t' n m) \<and>
    (same t' t \<longrightarrow> wrap t' n = wrap t' x))"
proof -
  have vt: "ctype_is_integer (val_type v)" using assms(2,4) by (metis same_integer)
  have bits: "ctype_bits (val_type v) = ctype_bits c" using assms(2,4) same_bits vt by blast
  have x: "x = wrap c x" using assms(6) by (simp add: in_range_def)
  have s: "ctype_is_signed c \<Longrightarrow> signed_take_bit (ctype_bits c - 1) x = x"
    using x by (simp add: wrap_def)
  have u: "\<not> ctype_is_signed c \<Longrightarrow> take_bit (ctype_bits c) x = x"
    using x by (simp add: wrap_def)
  have "oc \<in> {IR_OP_COPY, IR_OP_CTYPE_TRUNCATE} \<or> oc = IR_OP_CTYPE_SIGN_EXTEND \<and> ctype_is_signed c \<or>
      oc = IR_OP_CTYPE_ZERO_EXTEND \<and> \<not> ctype_is_signed c"
    using assms(1) integer_type(4) [OF assms(2)] integer_type(4) [OF assms(3)]
    by (simp add: cast_opcode_def size_integer assms(2,3) split: if_splits)
  then show ?thesis
    using assms(5) s u by (auto simp: op_effect_def Let_def bits)
qed

lemma binary_effect:
  assumes "binary_ir_opcode b = Inr oc" "arith_op b" "same c d" "ctype_is_integer c" "c_arithmetic b d x y = Some z"
  shows "straight oc" "binary_value oc c x y = Some z"
proof -
  have bits: "ctype_bits c = ctype_bits d" and rng: "in_range c n = in_range d n" for n
    using assms(3,4) by (simp_all add: same_bits in_range_same)
  show "straight oc" using assms(1) by (cases b) auto
  show "binary_value oc c x y = Some z"
  proof (cases b)
    case EXPRESSION_BINARY_REMAINDER
    have "x smod y = x - y * (x sdiv y)" using sdiv_mult_smod_eq [of x y] by (simp add: mult.commute)
    with EXPRESSION_BINARY_REMAINDER assms(1,5) show ?thesis by (auto simp: rng split: if_splits)
  qed (use assms(1,2,5) in \<open>auto simp: arith_op_def bits rng push_bit_eq_mult drop_bit_eq_div split: if_splits\<close>)
qed

lemma op_effect_binary:
  "binary_ir_opcode b = Inr oc \<Longrightarrow> op_effect (mk_op oc [v, w, ir_val_tmpvar k t]) m =
     map_option (\<lambda>n. put (Temp k) t n m) (binary_value oc (val_type v) (read_val m v) (read_val m w))"
  by (cases b) (auto simp: op_effect_def Let_def ir_arg_def mk_op_def)

section \<open>Branches\<close>

definition taken :: "bool \<Rightarrow> int \<Rightarrow> bool" where "taken jz n \<longleftrightarrow> (if jz then n = 0 else n \<noteq> 0)"

lemma branch:
  assumes "distinct (label_defs P)" "i < length P"
    "P ! i = mk_op (if jz then IR_OP_JUMP_IF_ZERO else IR_OP_JUMP_IF_NOT_ZERO) [v, label_val n]"
    "j < length P" "P ! j = mk_op IR_OP_LABEL [label_val n]"
  shows "steps P (i, m) (if taken jz (read_val m v) then Suc j else Suc i, m)"
proof -
  note find = find_label_at [OF assms(1,4,5)]
  have "steps P (i, m) (if taken jz (read_val m v) then j else Suc i, m)"
    using steps_jump_if_zero [OF assms(2) _ find, of v m] steps_jump_if_not_zero [OF assms(2) _ find, of v m] assms(3)
    by (cases jz) (simp_all add: taken_def)
  also have "steps P (if taken jz (read_val m v) then j else Suc i, m) (if taken jz (read_val m v) then Suc j else Suc i, m)"
    using steps_label [OF assms(4,5)] by simp
  finally show ?thesis .
qed

lemma jump_over:
  assumes "distinct (label_defs P)" "i < length P" "P ! i = mk_op IR_OP_JUMP [label_val n]"
    "j < length P" "P ! j = mk_op IR_OP_LABEL [label_val n]"
  shows "steps P (i, m) (Suc j, m)"
  using steps_trans [OF steps_jump [OF assms(2,3) find_label_at [OF assms(1,4,5)]] steps_label [OF assms(4,5)]] .

lemma copy_temp:
  assumes "i < length P" "P ! i = mk_op IR_OP_COPY [w, ir_val_tmpvar k t]"
  shows "steps P (i, m) (Suc i, put (Temp k) t (read_val m w) m)"
  by (rule steps_op [OF assms]) (simp_all add: op_effect_def Let_def)

lemma copy_bit:
  assumes "i < length P" "P ! i = mk_op IR_OP_COPY [constant_val n ctype_zero, ir_val_tmpvar k t]" "n \<in> {0, 1}"
  shows "steps P (i, m) (Suc i, put (Temp k) t n m)"
proof -
  have "read_val m (constant_val n ctype_zero) = n"
    using assms(3) by (simp add: read_val_def wrap_small ctype_zero_def)
  with copy_temp [OF assms(1,2), of m] show ?thesis by simp
qed

section \<open>Variables\<close>

lemma direct_lvalue:
  assumes "int_variable g t l" "lvalue_candidate src = Some (ir_unpack_parens l)" "expr_type src = t"
    "\<exists>u a. src = Op_unary u a t \<or> (\<exists>b. src = Op_binary b a r t)"
  obtains v k where "ir_assignment_lvalue src = Inr (None, v)" "val_location v = Some k" "val_type v = t"
    "object_of l = Some k" "below g k"
proof -
  obtain x t' where x: "ir_unpack_parens l = NODE_EXPRESSION_VARIABLE_USAGE x t'" "same t' t"
    "below g (symbol_location x)" "as_stype x \<noteq> SYMBOL_STRING_LITERAL" "object_of l = Some (symbol_location x)"
    using unpack_type [OF assms(1)] by blast
  have "lvalue_through_pointer src = None" using assms(2) x(1) by (simp add: lvalue_through_pointer_def)
  moreover have "lvalue_symbol src = Inr x"
    using assms(2,4) x(1) by (auto simp: lvalue_symbol_def var_of_def)
  ultimately show thesis
    using x(4,5,3) assms(3)
    by (intro that [of _ "symbol_location x"])
      (auto simp: ir_assignment_lvalue_def ir_val_zero_def val_location_def symbol_location_def)
qed

lemma location_access:
  "val_location v = Some k \<Longrightarrow> write_val v n m = put k (val_type v) n m"
  "val_location v = Some k \<Longrightarrow> read_val m v = get m (val_type v) k"
  by (simp_all add: write_val_def read_val_def)

lemma get_agree: "agree g m s \<Longrightarrow> below g k \<Longrightarrow> get m t k = get s t k"
  by (simp add: agree_def get_def)

lemma get_put: "get (put k t n m) t k = wrap t n"
  by (simp add: get_def put_def)

lemma put_wrap: "put k t (wrap t n) m = put k t n m"
proof -
  have "take_bit (ctype_bits t) (wrap t n) = take_bit (ctype_bits t) n"
    unfolding wrap_def by (simp add: take_bit_signed_take_bit)
  then show ?thesis by (simp add: put_def)
qed

lemma put_same: "same c t \<Longrightarrow> ctype_is_integer t \<Longrightarrow> put k c n m = put k t n m"
  using same_bits [of t c] by (simp add: put_def)

text \<open>A value survives a store to a variable whose type holds it.\<close>

lemma read_put:
  assumes "same (val_type v) t" "ctype_is_integer t" "read_val m v = x" "in_range t x"
  shows "read_val (put k t x m) v = x"
proof (cases "val_location v = Some k")
  case True
  then have "read_val (put k t x m) v = wrap (val_type v) (take_bit (ctype_bits t) x)"
    by (simp add: read_val_def get_def put_def)
  also have "\<dots> = wrap t (take_bit (ctype_bits t) x)"
    using assms(1,2) by (metis same_integer same_wrap)
  finally show ?thesis using assms(4) by (simp add: in_range_def)
qed (use assms(3) in \<open>auto simp: read_val_def get_def put_def split: option.splits\<close>)

section \<open>The routines\<close>

locale compiles =
  fixes rec :: ir_rec and g :: int
  assumes expr: "int_expr g a \<Longrightarrow> g \<le> generator e \<Longrightarrow> rec None a e = Inr (os, v, e') \<Longrightarrow> computes g a e os v e'"
begin

lemma assignment:
  assumes h: "ir_assignment rec (Op_binary ASSIGN l r t) r e = Inr (os, v, e')" "g \<le> generator e"
    and t: "ctype_is_integer t" "int_variable g t l" "int_expr g r" "same t (expr_type r)"
  shows "computes g (Op_binary ASSIGN l r t) e os v e'"
proof -
  obtain d k where d: "ir_assignment_lvalue (Op_binary ASSIGN l r t) = Inr (None, d)" "val_location d = Some k"
    "val_type d = t" "object_of l = Some k" "below g k"
    by (rule direct_lvalue [OF t(2), of "Op_binary ASSIGN l r t" r]) (simp_all add: lvalue_candidate_def)
  obtain o1 where o1: "rec None r e = Inr (o1, v, e')" "os = o1 @ [mk_op IR_OP_COPY [v, d]]"
    using h(1) d(1) by (auto simp: ir_assignment_def check_iff)
  note c = expr [OF t(3) h(2) o1(1)]
  note st = computes_static [OF c]
  show ?thesis
  proof (rule computesI)
    show "generator e \<le> generator e'" using st by blast
    show "holds (set (mentioned (Op_binary ASSIGN l r t))) (generator e) (generator e') (expr_type (Op_binary ASSIGN l r t)) v"
      using t(4) by (intro computes_holds [OF c]) simp_all
    fix P i m s x s'
    assume P: "code_at P i os" "distinct (label_defs P)" "agree g m s" "c_expr (Op_binary ASSIGN l r t) s = Some (x, s')"
    from P(4) d(4) obtain y s1 where y: "c_expr r s = Some (y, s1)" "x = wrap t y" "s' = put k t y s1"
      by (auto simp: c_assign bind_eq_Some_conv)
    have rng: "in_range t y" using c_expr_range [OF t(3) y(1)] t(1,4) by (simp add: in_range_same)
    have "code_at P i o1" using P(1) o1(2) by simp
    then obtain m1 where m1: "steps P (i, m) (i + length o1, m1)" "agree g m1 s1"
      "kept g (generator e) (generator e') m m1" "read_val m1 v = y"
      using computesE [OF c _ P(2,3) y(1)] by blast
    have eff: "op_effect (mk_op IR_OP_COPY [v, d]) m1 = Some (put k t y m1)"
      using m1(4) d(2,3) by (simp add: op_effect_def Let_def location_access)
    have "steps P (i + length o1, m1) (Suc (i + length o1), put k t y m1)"
      using P(1) o1(2) by (intro steps_op [OF _ _ _ eff]) simp_all
    with m1(1) have "steps P (i, m) (i + length os, put k t y m1)" using o1(2) steps_trans by fastforce
    moreover have "agree g (put k t y m1) s'" using m1(2) y(3) by (simp add: agree_put)
    moreover have "kept g (generator e) (generator e') m (put k t y m1)"
      using kept_trans [OF m1(3) kept_variable [OF d(5)], of "generator e" "generator e'"] by simp
    moreover have "read_val (put k t y m1) v = x"
      using read_put [OF _ t(1) m1(4) rng, of k] st t(4) rng y(2) by (simp add: in_range_def)
    ultimately show "\<exists>m'. steps P (i, m) (i + length os, m') \<and> agree g m' s' \<and>
        kept g (generator e) (generator e') m m' \<and> read_val m' v = x" by blast
  qed
qed

lemma unary_op:
  assumes h: "ir_unary_op rec u a t e = Inr (os, v, e')" "g \<le> generator e"
    and t: "value_op u" "ctype_is_integer t" "int_expr g a" "u = Prefix EXPRESSION_UNARY_NOT \<or> same t (expr_type a)"
  shows "computes g (Op_unary u a t) e os v e'"
proof -
  have nu: "u \<noteq> ADDRESS_OF" using t(1) by (auto simp: value_op_def)
  obtain oc where oc: "unary_opcode u t = Inr oc" using h(1) by (auto simp: ir_unary_op_def check_iff)
  have noaddr: "oc \<noteq> IR_OP_GET_ADDRESS" using oc t(1) by (auto simp: value_op_def unary_opcode_def)
  from h(1) oc noaddr obtain o1 w e1 where o1: "rec None a e = Inr (o1, w, e1)"
    "e' = e1\<lparr>generator := generator e1 + 1\<rparr>" "v = ir_val_tmpvar (generator e1) t" "os = o1 @ [mk_op oc [w, v]]"
    by (auto simp: ir_unary_op_def check_iff Let_def ir_val_tmpvar_gen_def integer_type(5) [OF t(2)] ir_val_tmpvar_def)
  note c = expr [OF t(3) h(2) o1(1)]
  note st = computes_static [OF c]
  show ?thesis
  proof (rule computesI)
    show "generator e \<le> generator e'" using st o1(2) by simp
    show "holds (set (mentioned (Op_unary u a t))) (generator e) (generator e') (expr_type (Op_unary u a t)) v"
      using st o1(2,3) by (simp add: holds_temp)
    fix P i m s x s'
    assume P: "code_at P i os" "distinct (label_defs P)" "agree g m s" "c_expr (Op_unary u a t) s = Some (x, s')"
    from P(4) obtain y where y: "c_expr a s = Some (y, s')" "x = unary_value u t y"
      by (auto simp: c_value_op [OF t(1)] bind_eq_Some_conv)
    have "code_at P i o1" using P(1) o1(4) by simp
    then obtain m1 where m1: "steps P (i, m) (i + length o1, m1)" "agree g m1 s'"
      "kept g (generator e) (generator e1) m m1" "read_val m1 w = y"
      using computesE [OF c _ P(2,3) y(1)] by blast
    note eff = unary_effect(1) [OF oc t(1)] unary_effect(2) [OF oc t(1), of w "generator e1" m1, folded o1(3)]
    have "\<exists>m'. steps P (i, m) (i + length (o1 @ [mk_op oc [w, v]]), m') \<and> agree g m' s' \<and>
      kept g (generator e) (generator e') m m' \<and> read_val m' (ir_val_tmpvar (generator e1) t) =
        wrap t (if u = Prefix EXPRESSION_UNARY_NOT then of_bool (read_val m1 w = 0)
        else if u = Prefix EXPRESSION_UNARY_COMPLEMENT then NOT (read_val m1 w) else - read_val m1 w)"
      using P(1) st h(2) o1(2,4) eff(1) by (intro tail_op [OF m1(1) _ _ eff(2) m1(2,3)]) simp_all
    moreover have "wrap t (if u = Prefix EXPRESSION_UNARY_NOT then of_bool (y = 0)
        else if u = Prefix EXPRESSION_UNARY_COMPLEMENT then NOT y else - y) = x"
      using y(2) t(2) by (simp add: unary_value_def wrap_small)
    ultimately show "\<exists>m'. steps P (i, m) (i + length os, m') \<and> agree g m' s' \<and>
        kept g (generator e) (generator e') m m' \<and> read_val m' v = x"
      unfolding o1(3,4) m1(4) by simp
  qed
qed

lemma cast:
  assumes h: "ir_cast rec None ty a t e = Inr (os, v, e')" "g \<le> generator e"
    and t: "ctype_is_integer ty" "same t ty" "int_expr g a"
  shows "computes g (NODE_EXPRESSION_CAST ty a t) e os v e'"
proof -
  have ia: "ctype_is_integer (expr_type a)" using t(3) by (rule int_expr_type)
  have it: "ctype_is_integer t" using t(1,2) by (metis same_integer)
  show ?thesis
  proof (cases "ctype_is_equal (expr_type a) ty")
    case True
    then have eq: "same (expr_type a) ty" by (simp add: integer_equal [OF ia t(1)])
    have "rec None a e = Inr (os, v, e')" using h(1) True integer_type(1) [OF t(1)] by (simp add: ir_cast_def)
    note c = expr [OF t(3) h(2) this]
    show ?thesis
    proof (rule computesI)
      show "generator e \<le> generator e'" using computes_static [OF c] by blast
      show "holds (set (mentioned (NODE_EXPRESSION_CAST ty a t))) (generator e) (generator e')
          (expr_type (NODE_EXPRESSION_CAST ty a t)) v"
        using eq t(2) by (intro computes_holds [OF c]) simp_all
      fix P i m s x s'
      assume P: "code_at P i os" "distinct (label_defs P)" "agree g m s" "c_expr (NODE_EXPRESSION_CAST ty a t) s = Some (x, s')"
      then obtain y where y: "c_expr a s = Some (y, s')" "x = wrap ty y" by (auto simp: bind_eq_Some_conv)
      have "x = y" using c_expr_range [OF t(3) y(1)] y(2) eq ia by (metis in_range_def same_wrap)
      then show "\<exists>m'. steps P (i, m) (i + length os, m') \<and> agree g m' s' \<and>
          kept g (generator e) (generator e') m m' \<and> read_val m' v = x"
        using computesE [OF c P(1-3) y(1)] by blast
    qed
  next
    case False
    from h(1) obtain oc where oc: "cast_opcode (expr_type a) ty = Inr oc"
      using False integer_type(1) [OF t(1)] by (auto simp: ir_cast_def check_iff)
    from h(1) False oc obtain o1 w e1 where o1: "rec None a e = Inr (o1, w, e1)"
      "e' = e1\<lparr>generator := generator e1 + 1\<rparr>" "v = ir_val_tmpvar (generator e1) t" "os = o1 @ [mk_op oc [w, v]]"
      using integer_type(1) [OF t(1)]
      by (auto simp: ir_cast_def check_iff Let_def ir_val_tmpvar_gen_def integer_type(5) [OF it] ir_val_tmpvar_def)
    note c = expr [OF t(3) h(2) o1(1)]
    note st = computes_static [OF c]
    show ?thesis
    proof (rule computesI)
      show "generator e \<le> generator e'" using st o1(2) by simp
      show "holds (set (mentioned (NODE_EXPRESSION_CAST ty a t))) (generator e) (generator e')
          (expr_type (NODE_EXPRESSION_CAST ty a t)) v"
        using st o1(2,3) by (simp add: holds_temp)
      fix P i m s x s'
      assume P: "code_at P i os" "distinct (label_defs P)" "agree g m s" "c_expr (NODE_EXPRESSION_CAST ty a t) s = Some (x, s')"
      then obtain y where y: "c_expr a s = Some (y, s')" "x = wrap ty y" by (auto simp: bind_eq_Some_conv)
      have "code_at P i o1" using P(1) o1(4) by simp
      then obtain m1 where m1: "steps P (i, m) (i + length o1, m1)" "agree g m1 s'"
        "kept g (generator e) (generator e1) m m1" "read_val m1 w = y"
        using computesE [OF c _ P(2,3) y(1)] by blast
      obtain n where n: "straight oc" "op_effect (mk_op oc [w, v]) m1 = Some (put (Temp (generator e1)) t n m1)"
        "wrap t n = wrap t y"
        using cast_effect [OF oc ia t(1) _ m1(4) c_expr_range [OF t(3) y(1)], of "generator e1" t] st t(2) o1(3) by auto
      have "\<exists>m'. steps P (i, m) (i + length (o1 @ [mk_op oc [w, v]]), m') \<and> agree g m' s' \<and>
        kept g (generator e) (generator e') m m' \<and> read_val m' (ir_val_tmpvar (generator e1) t) = wrap t n"
        using P(1) st h(2) o1(2,4) n(1) by (intro tail_op [OF m1(1) _ _ n(2) m1(2,3)]) simp_all
      moreover have "wrap t n = x" using n(3) y(2) same_wrap [OF t(2) it] by simp
      ultimately show "\<exists>m'. steps P (i, m) (i + length os, m') \<and> agree g m' s' \<and>
          kept g (generator e) (generator e') m m' \<and> read_val m' v = x"
        unfolding o1(3,4) by simp
    qed
  qed
qed

lemma binary_op:
  assumes h: "ir_binary_op rec None b l r t e = Inr (os, v, e')" "g \<le> generator e"
    and t: "arith_op b" "ctype_is_integer t" "int_expr g l" "int_expr g r" "set (written r) \<inter> set (mentioned l) = {}"
  shows "computes g (Op_binary (Infix_binary b) l r t) e os v e'"
proof -
  let ?a = "Op_binary (Infix_binary b) l r t"
  have il: "ctype_is_integer (expr_type l)" "ctype_is_integer (expr_type r)" using t(3,4) by (auto intro: int_expr_type)
  obtain oc where oc: "binary_ir_opcode b = Inr oc"
    using h(1) integer_type(3) [OF il(1)] integer_type(3) [OF il(2)] by (auto simp: ir_binary_op_def check_iff)
  from h(1) oc obtain o1 vl e1 o2 vr e2 where o12: "rec None l e = Inr (o1, vl, e1)" "rec None r e1 = Inr (o2, vr, e2)"
    "e' = e2\<lparr>generator := generator e2 + 1\<rparr>" "v = ir_val_tmpvar (generator e2) t"
    "os = (o1 @ o2) @ [mk_op oc [vl, vr, v]]"
    using integer_type(3) [OF il(1)] integer_type(3) [OF il(2)]
    by (auto simp: ir_binary_op_def check_iff Let_def ir_val_tmpvar_gen_def)
  note cl = expr [OF t(3) h(2) o12(1)]
  note sl = computes_static [OF cl]
  have g1: "g \<le> generator e1" using sl h(2) by simp
  note cr = expr [OF t(4) g1 o12(2)]
  note sr = computes_static [OF cr]
  show ?thesis
  proof (rule computesI)
    show "generator e \<le> generator e'" using sl sr o12(3) by simp
    show "holds (set (mentioned ?a)) (generator e) (generator e') (expr_type ?a) v"
      using sl sr o12(3,4) by (simp add: holds_temp)
    fix P i m s x s'
    assume P: "code_at P i os" "distinct (label_defs P)" "agree g m s" "c_expr ?a s = Some (x, s')"
    from P(4) obtain y s1 z n where y: "c_expr l s = Some (y, s1)" "c_expr r s1 = Some (z, s')"
      "c_arithmetic b (expr_type l) y z = Some n" "x = wrap t n"
      by (auto simp: c_arith [OF t(1)] bind_eq_Some_conv)
    have at: "code_at P i o1" "code_at P (i + length o1) o2" using P(1) o12(5) by simp_all
    obtain m1 where m1: "steps P (i, m) (i + length o1, m1)" "agree g m1 s1"
      "kept g (generator e) (generator e1) m m1" "read_val m1 vl = y"
      by (rule computesE [OF cl at(1) P(2,3) y(1)])
    obtain m2 where m2: "steps P (i + length o1, m1) (i + length o1 + length o2, m2)" "agree g m2 s'"
      "kept g (generator e1) (generator e2) m1 m2" "read_val m2 vr = z"
      by (rule computesE [OF cr at(2) P(2) m1(2) y(2)])
    have "read_val m2 vl = read_val m1 vl"
    proof (rule stable [OF _ _ m2(3) m1(2) m2(2)])
      show "\<forall>k\<in>set (mentioned l). below g k \<and> k \<notin> set (written r)"
        using mentioned_below [OF t(3)] t(5) by blast
      show "\<forall>k. k \<notin> set (written r) \<longrightarrow> s' k = s1 k" using c_expr_frame [OF t(4) y(2)] by blast
      show "holds (set (mentioned l)) (generator e) (generator e1) (expr_type l) vl" using sl by blast
    qed (rule h(2))
    then have vl: "read_val m2 vl = y" using m1(4) by simp
    have steps: "steps P (i, m) (i + length (o1 @ o2), m2)"
      using steps_trans [OF m1(1) m2(1)] by (simp add: add.assoc)
    have kept: "kept g (generator e) (generator e2) m m2"
      using sl sr by (intro kept_trans [OF m1(3) m2(3)]) simp_all
    have "same (val_type vl) (expr_type l)" "ctype_is_integer (val_type vl)" using sl il(1) by (auto intro: same_integer [OF sym])
    note eff = binary_effect [OF oc t(1) this y(3)]
    have "op_effect (mk_op oc [vl, vr, v]) m2 = Some (put (Temp (generator e2)) t n m2)"
      unfolding o12(4) op_effect_binary [OF oc] by (simp add: vl m2(4) eff(2))
    from tail_op [OF steps _ _ this m2(2) kept, of "generator e'"]
    show "\<exists>m'. steps P (i, m) (i + length os, m') \<and> agree g m' s' \<and>
        kept g (generator e) (generator e') m m' \<and> read_val m' v = x"
      using P(1) o12(3) sl sr h(2) eff(1) unfolding o12(4,5) y(4) by simp
  qed
qed

lemma incr_decr:
  assumes h: "ir_incr_decr rec (Op_unary u l t) u t e = Inr (os, v, e')" "g \<le> generator e"
    and t: "incr_decr_node u" "ctype_is_integer t" "int_variable g t l"
  shows "computes g (Op_unary u l t) e os v e'"
proof -
  let ?a = "Op_unary u l t"
  obtain d k where d: "ir_assignment_lvalue ?a = Inr (None, d)" "val_location d = Some k"
    "val_type d = t" "object_of l = Some k" "below g k"
    by (rule direct_lvalue [OF t(3), of ?a]) (simp_all add: lvalue_candidate_def t(1))
  let ?op = "mk_op (if is_decrement u then IR_OP_UNARY_DECREMENT else IR_OP_UNARY_INCREMENT) [d, d]"
  define new where "new = (\<lambda>n. if is_decrement u then n - 1 else n + 1 :: int)"
  have eff: "op_effect ?op m = Some (put k t (new (get m t k)) m)" for m
    using d(2,3) by (simp add: op_effect_def Let_def location_access new_def)
  have k: "k \<in> set (mentioned ?a)"
    using object_mentioned [OF d(4)] t(1) by (auto simp: incr_decr_node_def)
  have cs: "c_expr ?a s = Some (if is_postfix u then get s t k else wrap t (new (get s t k)),
      put k t (new (get s t k)) s)" for s
    using d(4) by (simp add: c_incr [OF t(1)] Let_def new_def put_wrap)
  show ?thesis
  proof (cases "is_postfix u")
    case True
    have v: "v = ir_val_tmpvar (generator e) t" "e' = e\<lparr>generator := generator e + 1\<rparr>"
      "os = [mk_op IR_OP_COPY [d, v], ?op]"
      using h(1) d(1) True integer_type(3) [OF t(2)]
      by (auto simp: ir_incr_decr_def check_iff Let_def ir_val_tmpvar_gen_def incr_decr_op_def)
    show ?thesis
    proof (rule computesI)
      show "generator e \<le> generator e'" by (simp add: v)
      show "holds (set (mentioned ?a)) (generator e) (generator e') (expr_type ?a) v"
        by (simp add: v holds_temp)
      fix P i m s x s'
      assume P: "code_at P i os" "distinct (label_defs P)" "agree g m s" "c_expr ?a s = Some (x, s')"
      let ?m1 = "put (Temp (generator e)) t (get m t k) m"
      have tk: "k \<noteq> Temp (generator e)" using d(5) h(2) by (auto simp: below_def)
      have 1: "op_effect (mk_op IR_OP_COPY [d, v]) m = Some ?m1"
        using d(2,3) by (simp add: op_effect_def Let_def location_access v)
      have g1: "get ?m1 t k = get s t k" using tk get_agree [OF P(3) d(5)] by (simp add: get_def put_def)
      have "steps P (i, m) (Suc i, ?m1)" using P(1) v(3) by (intro steps_op [OF _ _ _ 1]) simp_all
      moreover have "steps P (Suc i, ?m1) (Suc (Suc i), put k t (new (get s t k)) ?m1)"
        using P(1) v(3) eff [of ?m1] unfolding g1 by (intro steps_op) simp_all
      ultimately have "steps P (i, m) (i + length os, put k t (new (get s t k)) ?m1)"
        using steps_trans v(3) by fastforce
      moreover have "agree g (put k t (new (get s t k)) ?m1) s'"
        using P(4) cs [of s] agree_put [OF agree_temp [OF P(3) h(2)]] by auto
      moreover have "kept g (generator e) (generator e') m (put k t (new (get s t k)) ?m1)"
        using d(5) by (auto simp: kept_def put_def taken_between_def v)
      moreover have "read_val (put k t (new (get s t k)) ?m1) v = x"
        using tk P(4) cs [of s] True get_agree [OF P(3) d(5), of t]
        by (auto simp: v(1) read_val_def get_def put_def)
      ultimately show "\<exists>m'. steps P (i, m) (i + length os, m') \<and> agree g m' s' \<and>
          kept g (generator e) (generator e') m m' \<and> read_val m' v = x" by blast
    qed
  next
    case False
    have v: "v = d" "e' = e" "os = [?op]"
      using h(1) d(1) False integer_type(3) [OF t(2)]
      by (auto simp: ir_incr_decr_def check_iff Let_def ir_val_tmpvar_gen_def incr_decr_op_def)
    show ?thesis
    proof (rule computesI)
      show "generator e \<le> generator e'" by (simp add: v)
      show "holds (set (mentioned ?a)) (generator e) (generator e') (expr_type ?a) v"
        using k d(2,3) by (simp add: v holds_def)
      fix P i m s x s'
      assume P: "code_at P i os" "distinct (label_defs P)" "agree g m s" "c_expr ?a s = Some (x, s')"
      have "steps P (i, m) (i + length os, put k t (new (get s t k)) m)"
        using P(1) v(3) eff [of m] get_agree [OF P(3) d(5)] by (simp add: steps_op)
      moreover have "agree g (put k t (new (get s t k)) m) s'"
        using P(4) cs [of s] agree_put [OF P(3)] by auto
      moreover have "kept g (generator e) (generator e') m (put k t (new (get s t k)) m)"
        by (rule kept_variable [OF d(5)])
      moreover have "read_val (put k t (new (get s t k)) m) v = x"
        using P(4) cs [of s] False d(2,3) by (simp add: v(1) location_access get_put)
      ultimately show "\<exists>m'. steps P (i, m) (i + length os, m') \<and> agree g m' s' \<and>
          kept g (generator e) (generator e') m m' \<and> read_val m' v = x" by blast
    qed
  qed
qed

lemma sizeof_code:
  assumes h: "ir_sizeof a t e = Inr (os, v, e')"
    and t: "\<not> ctype_is_void (expr_type a)" "ctype_sizes_ok (expr_type a)" "ctype_bytes (expr_type a) < 2 ^ 63"
  shows "computes g (Op_unary (Prefix EXPRESSION_UNARY_SIZE_OF) a t) e os v e'"
proof -
  have "os = []" "v = constant_val (int (ctype_bytes (expr_type a))) t" "e' = e"
    using h size_bytes_exact [OF t(2,3)] by (auto simp: ir_sizeof_def size_of_def check_iff)
  then show ?thesis
    by (intro computesI) (auto simp: holds_def c_sizeof read_val_def)
qed

lemma logical_op:
  assumes h: "ir_logical_op rec None jz l r t e = Inr (os, v, e')" "g \<le> generator e"
    and t: "ctype_is_integer t" "int_expr g l" "int_expr g r"
    and b: "b = Infix_binary (if jz then EXPRESSION_LOGICAL_AND else EXPRESSION_LOGICAL_OR)"
  shows "computes g (Op_binary b l r t) e os v e'"
proof -
  let ?a = "Op_binary b l r t"
  let ?J = "if jz then IR_OP_JUMP_IF_ZERO else IR_OP_JUMP_IF_NOT_ZERO"
  let ?no = "if jz then 0 else 1 :: int" and ?yes = "if jz then 1 else 0 :: int"
  obtain o1 vl e1 o2 vr e2 where
    o12: "rec None l (e\<lparr>ir_labels := ir_labels e + 1\<rparr>) = Inr (o1, vl, e1)" "rec None r e1 = Inr (o2, vr, e2)"
      "e' = e2\<lparr>ir_labels := ir_labels e2 + 1, generator := generator e2 + 1\<rparr>" "v = ir_val_tmpvar (generator e2) t"
      "os = o1 @ mk_op ?J [vl, label_val (ir_labels e)] # o2 @
           [mk_op ?J [vr, label_val (ir_labels e)],
            mk_op IR_OP_COPY [constant_val ?yes ctype_zero, v],
            mk_op IR_OP_JUMP [label_val (ir_labels e2)],
            mk_op IR_OP_LABEL [label_val (ir_labels e)],
            mk_op IR_OP_COPY [constant_val ?no ctype_zero, v],
            mk_op IR_OP_LABEL [label_val (ir_labels e2)]]"
    using h(1) unfolding ir_logical_op_def ir_logical_op_arm_def
    by (auto simp: check_iff Let_def new_label_def ir_val_tmpvar_gen_def)
  note cl = expr [OF t(2) _ o12(1), simplified, OF h(2)]
  note sl = computes_static [OF cl, simplified]
  have g1: "g \<le> generator e1" using sl h(2) by simp
  note cr = expr [OF t(3) g1 o12(2)]
  note sr = computes_static [OF cr]
  show ?thesis
  proof (rule computesI)
    show "generator e \<le> generator e'" using sl sr o12(3) by simp
    show "holds (set (mentioned ?a)) (generator e) (generator e') (expr_type ?a) v"
      using sl sr o12(3,4) by (simp add: holds_temp)
    fix P i m s x s'
    assume P: "code_at P i os" "distinct (label_defs P)" "agree g m s" "c_expr ?a s = Some (x, s')"
    have c: "c_expr ?a s = do { (y, s) \<leftarrow> c_expr l s;
        if taken jz y then Some (?no, s) else do { (z, s) \<leftarrow> c_expr r s; Some (if taken jz z then ?no else ?yes, s) } }"
      unfolding b by (cases jz) (auto simp: c_logical taken_def split: Option.bind_split)
    from P(4) obtain y s1 where y: "c_expr l s = Some (y, s1)"
      and rest: "(if taken jz y then Some (?no, s1) else do { (z, s) \<leftarrow> c_expr r s1; Some (if taken jz z then ?no else ?yes, s) }) = Some (x, s')"
      unfolding c by (auto simp: bind_eq_Some_conv)
    define j1 where "j1 = i + length o1"
    define j2 where "j2 = Suc j1 + length o2"
    have at: "code_at P i o1" "code_at P (Suc j1) o2" "j1 < length P" "P ! j1 = mk_op ?J [vl, label_val (ir_labels e)]"
      and tl: "code_at P j2 [mk_op ?J [vr, label_val (ir_labels e)],
            mk_op IR_OP_COPY [constant_val ?yes ctype_zero, v],
            mk_op IR_OP_JUMP [label_val (ir_labels e2)],
            mk_op IR_OP_LABEL [label_val (ir_labels e)],
            mk_op IR_OP_COPY [constant_val ?no ctype_zero, v],
            mk_op IR_OP_LABEL [label_val (ir_labels e2)]]"
      using P(1) unfolding o12(5) j1_def j2_def by simp_all
    note tl = tl [simplified]
    have len: "i + length os = j2 + 6" unfolding o12(5) j1_def j2_def by simp
    obtain m1 where m1: "steps P (i, m) (j1, m1)" "agree g m1 s1"
      "kept g (generator e) (generator e1) m m1" "read_val m1 vl = y"
      using computesE [OF cl at(1) P(2,3) y] unfolding j1_def by auto
    have b1: "steps P (j1, m1) (if taken jz y then Suc (Suc (Suc (Suc j2))) else Suc j1, m1)"
      using branch [OF P(2) at(3,4), of "Suc (Suc (Suc j2))" m1] tl m1(4) by simp
    have yes: "steps P (Suc j2, mm) (j2 + 6, put (Temp (generator e2)) t ?yes mm)" for mm
    proof -
      have "steps P (Suc j2, mm) (Suc (Suc j2), put (Temp (generator e2)) t ?yes mm)"
        by (rule copy_bit) (use tl o12(4) in auto)
      also have "steps P (Suc (Suc j2), put (Temp (generator e2)) t ?yes mm) (Suc (Suc (Suc (Suc (Suc (Suc j2))))), put (Temp (generator e2)) t ?yes mm)"
        using tl by (intro jump_over [OF P(2)]) simp_all
      finally show ?thesis by (simp add: eval_nat_numeral split del: if_split)
    qed
    have no: "steps P (Suc (Suc (Suc (Suc j2))), mm) (j2 + 6, put (Temp (generator e2)) t ?no mm)" for mm
    proof -
      have "steps P (Suc (Suc (Suc (Suc j2))), mm) (Suc (Suc (Suc (Suc (Suc j2)))), put (Temp (generator e2)) t ?no mm)"
        by (rule copy_bit) (use tl o12(4) in auto)
      also have "steps P (Suc (Suc (Suc (Suc (Suc j2)))), put (Temp (generator e2)) t ?no mm) (Suc (Suc (Suc (Suc (Suc (Suc j2))))), put (Temp (generator e2)) t ?no mm)"
        using tl by (intro steps_label) simp_all
      finally show ?thesis by (simp add: eval_nat_numeral split del: if_split)
    qed
    have done1: "\<exists>m'. steps P (i, m) (i + length os, m') \<and> agree g m' s' \<and>
        kept g (generator e) (generator e') m m' \<and> read_val m' v = n"
      if "steps P (i, m) (j2 + 6, put (Temp (generator e2)) t n mm)" "agree g mm s'" "kept g (generator e) (generator e2) m mm"
        "n \<in> {0, 1}" for n mm
    proof (intro exI conjI)
      show "steps P (i, m) (i + length os, put (Temp (generator e2)) t n mm)" using that(1) len by simp
      show "agree g (put (Temp (generator e2)) t n mm) s'" using that(2) sr g1 by (intro agree_temp) auto
      have "kept g (generator e2) (generator e') mm (put (Temp (generator e2)) t n mm)"
        by (rule kept_temp) (simp_all add: o12(3))
      then show "kept g (generator e) (generator e') m (put (Temp (generator e2)) t n mm)"
        using sl sr o12(3) by (intro kept_trans [OF that(3)]) auto
      show "read_val (put (Temp (generator e2)) t n mm) v = n"
        using that(4) t(1) by (simp add: o12(4) wrap_small)
    qed
    show "\<exists>m'. steps P (i, m) (i + length os, m') \<and> agree g m' s' \<and>
        kept g (generator e) (generator e') m m' \<and> read_val m' v = x"
    proof (cases "taken jz y")
      case True
      have k: "kept g (generator e) (generator e2) m m1" using kept_wider [OF m1(3)] sl sr by simp
      have "steps P (i, m) (j2 + 6, put (Temp (generator e2)) t ?no m1)"
        using steps_trans [OF steps_trans [OF m1(1) b1] ] no True by simp
      with rest True m1(2) k show ?thesis by (intro done1) (auto split: if_splits)
    next
      case False
      with rest obtain z where z: "c_expr r s1 = Some (z, s')" "x = (if taken jz z then ?no else ?yes)"
        by (auto simp: bind_eq_Some_conv)
      obtain m2 where m2: "steps P (Suc j1, m1) (j2, m2)" "agree g m2 s'"
        "kept g (generator e1) (generator e2) m1 m2" "read_val m2 vr = z"
        using computesE [OF cr at(2) P(2) m1(2) z(1)] unfolding j2_def by auto
      have k: "kept g (generator e) (generator e2) m m2" using kept_trans [OF m1(3) m2(3)] sl sr by simp
      have b2: "steps P (j2, m2) (if taken jz z then Suc (Suc (Suc (Suc j2))) else Suc j2, m2)"
        using branch [OF P(2), of j2 jz vr "ir_labels e" "Suc (Suc (Suc j2))" m2] tl m2(4) by simp
      have to: "steps P (i, m) (if taken jz z then Suc (Suc (Suc (Suc j2))) else Suc j2, m2)"
        using steps_trans [OF steps_trans [OF steps_trans [OF m1(1) b1]] b2] m2(1) False by simp
      have "steps P (i, m) (j2 + 6, put (Temp (generator e2)) t x m2)"
        using steps_trans [OF to] no [of m2] yes [of m2] z(2) by (cases "taken jz z") simp_all
      with m2(2) k z(2) show ?thesis by (intro done1) (auto split: if_splits)
    qed
  qed
qed

text \<open>An arm of a conditional expression: its code and the copy of its value to the result.\<close>

lemma arm:
  assumes c: "computes g a e1 o1 w e2" "c_expr a s = Some (x, s')" "int_expr g a"
    and P: "code_at P i (o1 @ [mk_op IR_OP_COPY [w, ir_val_tmpvar k (expr_type a)]])" "distinct (label_defs P)" "agree g m s"
    and k: "g \<le> k" "b \<le> k" "k < c" "b \<le> generator e1" "generator e2 \<le> c" and t: "same t (expr_type a)"
  shows "\<exists>m'. steps P (i, m) (Suc (i + length o1), m') \<and> agree g m' s' \<and> kept g b c m m' \<and>
    read_val m' (ir_val_tmpvar k t) = x"
proof -
  have ia: "ctype_is_integer (expr_type a)" using c(3) by (rule int_expr_type)
  have it: "ctype_is_integer t" using t ia by (metis same_integer)
  have "code_at P i o1" using P(1) by simp
  then obtain m1 where m1: "steps P (i, m) (i + length o1, m1)" "agree g m1 s'"
    "kept g (generator e1) (generator e2) m m1" "read_val m1 w = x"
    by (rule computesE [OF c(1) _ P(2,3) c(2)])
  have "steps P (i + length o1, m1) (Suc (i + length o1), put (Temp k) t x m1)"
    using copy_temp [of "i + length o1" P w k "expr_type a" m1] P(1) m1(4) put_same [OF t [symmetric] it] by simp
  with m1(1) have "steps P (i, m) (Suc (i + length o1), put (Temp k) t x m1)" by (rule steps_trans)
  moreover have "agree g (put (Temp k) t x m1) s'" using m1(2) k(1) by (rule agree_temp)
  moreover have "kept g b c m (put (Temp k) t x m1)"
    using kept_trans [OF kept_wider [OF m1(3) k(4,5)] kept_temp [OF k(2,3)]] by simp
  moreover have "wrap t x = x" using c_expr_range [OF c(3,2)] same_wrap [OF t it] by (simp add: in_range_def)
  ultimately show ?thesis by (intro exI [of _ "put (Temp k) t x m1"]) simp
qed

lemma ternary:
  assumes h: "ir_if_else_ternary rec c a b t e = Inr (os, v, e')" "g \<le> generator e"
    and t: "ctype_is_integer t" "int_expr g c" "int_expr g a" "int_expr g b" "same t (expr_type a)" "same t (expr_type b)"
  shows "computes g (Op_ternary c a b t) e os v e'"
proof -
  let ?a = "Op_ternary c a b t" and ?k = "generator e"
  let ?lc = "ir_labels e" and ?le = "ir_labels e + 1"
  have nv: "\<not> ctype_is_void (expr_type a)" "\<not> ctype_is_void (expr_type b)"
    using t(3,4) integer_type(1) int_expr_type by blast+
  obtain o0 v0 e0 o1 v1 e1 o2 v2 where
    o: "rec None c (e\<lparr>ir_labels := ir_labels e + 1 + 1, generator := generator e + 1\<rparr>) = Inr (o0, v0, e0)"
      "rec None a e0 = Inr (o1, v1, e1)" "rec None b e1 = Inr (o2, v2, e')" "v = ir_val_tmpvar ?k t"
      "os = o0 @ mk_op IR_OP_JUMP_IF_ZERO [v0, label_val ?lc] # (o1 @ [mk_op IR_OP_COPY [v1, ir_val_tmpvar ?k (expr_type a)]]) @
         mk_op IR_OP_JUMP [label_val ?le] # mk_op IR_OP_LABEL [label_val ?lc] #
         (o2 @ [mk_op IR_OP_COPY [v2, ir_val_tmpvar ?k (expr_type b)]]) @ [mk_op IR_OP_LABEL [label_val ?le]]"
    using h(1) nv unfolding ir_if_else_ternary_def ir_if_else_prepare_def if_else_collect_def
    by (auto simp: check_iff Let_def new_label_def split: if_splits)
  have cc: "computes g c (e\<lparr>ir_labels := ir_labels e + 1 + 1, generator := generator e + 1\<rparr>) o0 v0 e0"
    using h(2) by (intro expr [OF t(2) _ o(1)]) simp
  note sc = computes_static [OF cc, simplified]
  have g0: "g \<le> generator e0" using sc h(2) by simp
  note ca = expr [OF t(3) g0 o(2)]
  note sa = computes_static [OF ca]
  have g1: "g \<le> generator e1" using sa g0 by simp
  note cb = expr [OF t(4) g1 o(3)]
  note sb = computes_static [OF cb]
  show ?thesis
  proof (rule computesI)
    show "generator e \<le> generator e'" using sc sa sb by simp
    show "holds (set (mentioned ?a)) (generator e) (generator e') (expr_type ?a) v"
      using sc sa sb by (simp add: o(4) holds_temp)
    fix P i m s x s'
    assume P: "code_at P i os" "distinct (label_defs P)" "agree g m s" "c_expr ?a s = Some (x, s')"
    from P(4) obtain n s0 where n: "c_expr c s = Some (n, s0)"
      and rest: "(if n \<noteq> 0 then c_expr a s0 else c_expr b s0) = Some (x, s')"
      by (auto simp: bind_eq_Some_conv)
    define j0 where "j0 = i + length o0"
    define j1 where "j1 = Suc j0 + length o1"
    define j2 where "j2 = Suc (Suc (Suc j1))"
    define j3 where "j3 = j2 + length o2"
    have at: "code_at P i o0" "j0 < length P" "P ! j0 = mk_op IR_OP_JUMP_IF_ZERO [v0, label_val ?lc]"
      "code_at P (Suc j0) (o1 @ [mk_op IR_OP_COPY [v1, ir_val_tmpvar ?k (expr_type a)]])"
      "Suc j1 < length P" "P ! Suc j1 = mk_op IR_OP_JUMP [label_val ?le]"
      "Suc (Suc j1) < length P" "P ! Suc (Suc j1) = mk_op IR_OP_LABEL [label_val ?lc]"
      "code_at P j2 (o2 @ [mk_op IR_OP_COPY [v2, ir_val_tmpvar ?k (expr_type b)]])"
      "Suc j3 < length P" "P ! Suc j3 = mk_op IR_OP_LABEL [label_val ?le]"
      using P(1) unfolding o(5) j0_def j1_def j2_def j3_def by simp_all
    have len: "i + length os = Suc (Suc j3)" unfolding o(5) j0_def j1_def j2_def j3_def by simp
    obtain m0 where m0: "steps P (i, m) (j0, m0)" "agree g m0 s0"
      "kept g (generator e + 1) (generator e0) m m0" "read_val m0 v0 = n"
      using computesE [OF cc at(1) P(2,3) n] unfolding j0_def by auto
    have br: "steps P (j0, m0) (if n = 0 then j2 else Suc j0, m0)"
      using branch [OF P(2) at(2), of True v0 ?lc "Suc (Suc j1)" m0] at(3,7,8) m0(4)
      by (simp add: taken_def j2_def split del: if_split cong: if_cong)
    have k0: "kept g (generator e) (generator e') m m0" using kept_wider [OF m0(3)] sa sb by simp
    show "\<exists>m'. steps P (i, m) (i + length os, m') \<and> agree g m' s' \<and>
        kept g (generator e) (generator e') m m' \<and> read_val m' v = x"
    proof (cases "n = 0")
      case True
      with rest have "c_expr b s0 = Some (x, s')" by simp
      from arm [OF cb this t(4) at(9) P(2) m0(2) h(2) order_refl, of "generator e'" t]
      obtain m1 where m1: "steps P (j2, m0) (Suc j3, m1)" "agree g m1 s'" "kept g (generator e) (generator e') m0 m1"
        "read_val m1 v = x"
        using sc sa sb t(6) unfolding o(4) j3_def by auto
      have "steps P (j0, m0) (j2, m0)" using br True by simp
      from steps_trans [OF steps_trans [OF steps_trans [OF m0(1) this] m1(1)] steps_label [OF at(10,11)]]
      show ?thesis using m1(2,4) kept_trans [OF k0 m1(3)] unfolding len by auto
    next
      case False
      with rest have "c_expr a s0 = Some (x, s')" by simp
      from arm [OF ca this t(3) at(4) P(2) m0(2) h(2) order_refl, of "generator e'" t]
      obtain m1 where m1: "steps P (Suc j0, m0) (Suc j1, m1)" "agree g m1 s'" "kept g (generator e) (generator e') m0 m1"
        "read_val m1 v = x"
        using sc sa sb t(5) unfolding o(4) j1_def by auto
      have "steps P (j0, m0) (Suc j0, m0)" using br False by simp
      from steps_trans [OF steps_trans [OF steps_trans [OF m0(1) this] m1(1)] jump_over [OF P(2) at(5,6,10,11)]]
      show ?thesis using m1(2,4) kept_trans [OF k0 m1(3)] unfolding len by auto
    qed
  qed
qed

lemma relabel:
  assumes "computes g a e os v e'" "generator e \<le> generator e'" "set (mentioned a) \<subseteq> set (mentioned b)"
    "same (expr_type b) (expr_type a)" "\<And>s. c_expr b s = c_expr a s"
  shows "computes g b e os v e'"
proof (rule computesI)
  show "holds (set (mentioned b)) (generator e) (generator e') (expr_type b) v"
    using assms(3,4) by (intro computes_holds [OF assms(1)]) simp_all
  fix P i m s x s'
  assume "code_at P i os" "distinct (label_defs P)" "agree g m s" "c_expr b s = Some (x, s')"
  then show "\<exists>m'. steps P (i, m) (i + length os, m') \<and> agree g m' s' \<and>
      kept g (generator e) (generator e') m m' \<and> read_val m' v = x"
    using computesE [OF assms(1)] unfolding assms(5) by blast
qed (rule assms(2))

lemma unary_node:
  assumes h: "ir_unary_node rec (Op_unary u a t) u a t e = Inr (os, v, e')" "g \<le> generator e" "int_expr g (Op_unary u a t)"
  shows "computes g (Op_unary u a t) e os v e'"
  using h(3)
proof (cases rule: int_unaryE)
  case paren
  have "rec None a e = Inr (os, v, e')" using h(1) paren(1) by (simp add: ir_unary_node_def)
  note c = expr [OF paren(3) h(2) this]
  show ?thesis using computes_static [OF c] paren by (intro relabel [OF c]) (simp_all add: c_operator)
next
  case sizeof
  have "ir_sizeof a t e = Inr (os, v, e')" using h(1) sizeof(1) by (simp add: ir_unary_node_def incr_decr_node_def)
  from sizeof_code [OF this sizeof(3-5)] show ?thesis by (simp add: sizeof(1))
next
  case incr
  then show ?thesis using h(1,2) by (intro incr_decr) (auto simp: ir_unary_node_def incr_decr_node_def)
next
  case op
  have "cancelled_operand u a = None"
    using op(1) by (auto simp: cancelled_operand_def value_op_def split: ast.splits)
  then have "ir_unary_op rec u a t e = Inr (os, v, e')"
    using h(1) op(1) by (auto simp: ir_unary_node_def value_op_def incr_decr_node_def)
  then show ?thesis using h(2) op by (intro unary_op)
qed

lemma binary_node:
  assumes h: "ir_binary_node rec None (Op_binary (Infix_binary b) l r t) b l r t e = Inr (os, v, e')" "g \<le> generator e"
    "int_expr g (Op_binary (Infix_binary b) l r t)"
  shows "computes g (Op_binary (Infix_binary b) l r t) e os v e'"
  using h(3)
proof (cases rule: int_binaryE)
  case assign
  with h(1,2) show ?thesis using assignment [of l r t e os v e'] by (simp add: ir_binary_node_def)
next
  case both
  with h(1,2) logical_op [of True l r t e os v e'] show ?thesis by (simp add: ir_binary_node_def)
next
  case either
  with h(1,2) logical_op [of False l r t e os v e'] show ?thesis by (simp add: ir_binary_node_def)
next
  case (arith op)
  with h(1) have "ir_binary_op rec None op l r t e = Inr (os, v, e')"
    by (auto simp: ir_binary_node_def arith_op_def)
  from binary_op [OF this h(2) arith(2-6)] arith(1) show ?thesis by simp
qed

lemma variable:
  assumes "ir_assignment_lvalue (NODE_EXPRESSION_VARIABLE_USAGE x t) = Inr (i, v)"
    "int_expr g (NODE_EXPRESSION_VARIABLE_USAGE x t)"
  shows "computes g (NODE_EXPRESSION_VARIABLE_USAGE x t) e [] v e"
proof -
  let ?a = "NODE_EXPRESSION_VARIABLE_USAGE x t"
  have v: "val_location v = Some (symbol_location x)" "val_type v = t"
    using assms by (auto simp: ir_assignment_lvalue_def lvalue_through_pointer_def lvalue_candidate_def
        lvalue_symbol_def ir_val_zero_def val_location_def symbol_location_def check_iff)
  show ?thesis
  proof (rule computesI)
    show "holds (set (mentioned ?a)) (generator e) (generator e) (expr_type ?a) v"
      using v by (simp add: holds_def)
    fix P i m s y s'
    assume "code_at P i []" "agree g m s" "c_expr ?a s = Some (y, s')"
    then show "\<exists>m'. steps P (i, m) (i + length [], m') \<and> agree g m' s' \<and>
        kept g (generator e) (generator e) m m' \<and> read_val m' v = y"
      using v assms(2) get_agree [of g m s "symbol_location x" t] by (intro exI [of _ m]) (auto simp: location_access)
  qed simp
qed

lemma constant_node:
  assumes "ir_constant k t e = Inr (os, v, e')" "ctype_is_integer t"
  shows "computes g (NODE_CONSTANT k t) e os v e'"
proof -
  have "os = [] \<and> v = constant_val (constant_num k) t \<and> e' = e"
    using assms by (cases t) (auto simp: ir_constant_def)
  then show ?thesis
    by (intro computesI) (auto simp: holds_def read_val_def)
qed

lemma node:
  assumes h: "ir_node rec None a e = Inr (os, v, e')" "g \<le> generator e" "int_expr g a"
  shows "computes g a e os v e'"
proof (cases a)
  case (NODE_CONSTANT k t)
  with h show ?thesis by (auto simp: ir_node_def intro: constant_node)
next
  case (NODE_EXPRESSION_INITIALIZER sg mu t)
  with h(3) obtain b where b: "sg = Some b" "mu = []" "int_expr g b" "same t (expr_type b)" by (cases sg) auto
  with h(1) NODE_EXPRESSION_INITIALIZER have "rec None b e = Inr (os, v, e')" by (simp add: ir_node_def)
  note c = expr [OF b(3) h(2) this]
  show ?thesis
    using computes_static [OF c] b unfolding NODE_EXPRESSION_INITIALIZER by (intro relabel [OF c]) simp_all
next
  case (Op_unary u b t)
  with h show ?thesis by (auto simp: ir_node_def intro: unary_node)
next
  case (Op_binary b l r t)
  with h(3) obtain b' where b': "b = Infix_binary b'" by (cases b) auto
  with Op_binary h show ?thesis by (simp add: ir_node_def binary_node)
next
  case (Op_ternary c x y t)
  with h show ?thesis by (auto simp: ir_node_def intro: ternary)
next
  case (NODE_EXPRESSION_VARIABLE_USAGE x t)
  with h show ?thesis by (auto simp: ir_node_def check_iff intro: variable)
next
  case (NODE_EXPRESSION_CAST ty b t)
  with h show ?thesis by (auto simp: ir_node_def intro: cast)
next
  case (NODE_SHARED b)
  with h(1) show ?thesis by (simp add: ir_node_def make_result_ti_def)
qed (use h in simp_all)

end

lemma decay_integer: "ctype_is_integer (val_type v) \<Longrightarrow> ir_expr_get_addr_implicit (os, v, e) = (os, v, e)"
  by (simp add: ir_expr_get_addr_implicit_def integer_type(2))

lemma compiles_expr: "compiles (ir_expr n) g"
proof (induction n)
  case (Suc n)
  show ?case
  proof
    fix a e os v e'
    assume h: "int_expr g a" "g \<le> generator e" "ir_expr (Suc n) None a e = Inr (os, v, e')"
    show "computes g a e os v e'"
    proof (cases "\<exists>b. a = NODE_SHARED b")
      case True
      then obtain b where b: "a = NODE_SHARED b" by blast
      with h(3) have "ir_expr n None b e = Inr (os, v, e')" by simp
      note c = compiles.expr [OF Suc _ h(2) this]
      show ?thesis using h(1) c by (simp add: b computes_def)
    next
      case False
      then have "ir_expr (Suc n) None a e = check (ir_node (ir_expr n) None a e) (\<lambda>out. Inr (ir_expr_get_addr_implicit out))"
        by (cases a) simp_all
      with h(3) obtain os1 v1 e1 where n: "ir_node (ir_expr n) None a e = Inr (os1, v1, e1)"
        "ir_expr_get_addr_implicit (os1, v1, e1) = (os, v, e')"
        by (auto simp: check_iff)
      note c = compiles.node [OF Suc n(1) h(2,1)]
      have "ctype_is_integer (val_type v1)"
        using computes_static [OF c] int_expr_type [OF h(1)] by (metis same_integer)
      with n(2) c show ?thesis by (simp add: decay_integer)
    qed
  qed
qed (simp add: compiles_def)

interpretation sim: compiles "ir_expr n" g for n g
  by (rule compiles_expr)

end
