(* ===== verification/IrRun.thy ===== *)
theory IrRun
  imports IrSim
begin

text \<open>
  The code of a statement does what the statement does: it ends behind itself, at the jump of
  a \<^verbatim>\<open>break\<close> or \<^verbatim>\<open>continue\<close>, or at the return of the value that C returns. The code of a
  function returns that value.
\<close>

section \<open>Statements\<close>

fun lands :: "ir_op list \<Rightarrow> nat \<Rightarrow> outcome \<Rightarrow> nat \<Rightarrow> store \<Rightarrow> bool" where
  "lands P j Normal pc m = (pc = j)"
| "lands P j (Jumps k) pc m = (pc < length P \<and> P ! pc = mk_op IR_OP_JUMP [label_val k])"
| "lands P j (Returned r) pc m =
     (pc < length P \<and> ir_opcode (P ! pc) = IR_OP_RET \<and>
      r = (if subtype (ir_arg (P ! pc) 0) = IR_VAL_DUMMY then None else Some (read_val m (ir_arg (P ! pc) 0))))"

definition follows :: "int \<Rightarrow> ir_op list \<Rightarrow> nat \<Rightarrow> store \<Rightarrow> nat \<Rightarrow> outcome \<times> store \<Rightarrow> bool" where
  "follows g P i m j r \<longleftrightarrow>
     (\<exists>pc m'. steps P (i, m) (pc, m') \<and> agree g m' (snd r) \<and> lands P j (fst r) pc m')"

definition executes :: "int \<Rightarrow> (nat \<Rightarrow> store \<Rightarrow> (outcome \<times> store) option) \<Rightarrow> ir_env \<Rightarrow> ir_op list \<Rightarrow> ir_env \<Rightarrow> bool" where
  "executes g f e os e' \<longleftrightarrow> generator e \<le> generator e' \<and>
     (\<forall>P i m s n r. code_at P i os \<longrightarrow> distinct (label_defs P) \<longrightarrow> agree g m s \<longrightarrow> f n s = Some r \<longrightarrow>
        follows g P i m (i + length os) r)"

lemma executesI:
  assumes "generator e \<le> generator e'"
    "\<And>P i m s n r. code_at P i os \<Longrightarrow> distinct (label_defs P) \<Longrightarrow> agree g m s \<Longrightarrow> f n s = Some r \<Longrightarrow>
       follows g P i m (i + length os) r"
  shows "executes g f e os e'"
  using assms by (simp add: executes_def)

lemma executesD:
  "executes g f e os e' \<Longrightarrow> code_at P i os \<Longrightarrow> distinct (label_defs P) \<Longrightarrow> agree g m s \<Longrightarrow> f n s = Some r \<Longrightarrow>
     follows g P i m (i + length os) r"
  unfolding executes_def by blast

lemma followsI: "steps P (i, m) (pc, m') \<Longrightarrow> agree g m' s \<Longrightarrow> lands P j out pc m' \<Longrightarrow> follows g P i m j (out, s)"
  by (auto simp: follows_def)

lemma follows_after: "steps P (i, m) (k, m1) \<Longrightarrow> follows g P k m1 j r \<Longrightarrow> follows g P i m j r"
  unfolding follows_def using steps_trans by blast

lemma lands_elsewhere: "out \<noteq> Normal \<Longrightarrow> lands P j out pc m = lands P j' out pc m"
  by (cases out) auto

lemma follows_elsewhere: "fst r \<noteq> Normal \<Longrightarrow> follows g P i m j r \<Longrightarrow> follows g P i m j' r"
  unfolding follows_def using lands_elsewhere by blast

lemma follows_normal: "follows g P i m j (Normal, s) \<longleftrightarrow> (\<exists>m'. steps P (i, m) (j, m') \<and> agree g m' s)"
  by (auto simp: follows_def)

lemma executes_nothing:
  assumes "\<And>n s r. f n s = Some r \<Longrightarrow> r = (Normal, s)"
  shows "executes g f e [] e"
proof (rule executesI)
  fix P i m s n r
  assume "agree g m s" "f n s = Some r"
  with assms [OF this(2)] show "follows g P i m (i + length []) r" by (auto simp: follows_normal)
qed simp

lemma executes_jump:
  assumes "\<And>n s r. f n s = Some r \<Longrightarrow> r = (Jumps k, s)"
  shows "executes g f e [mk_op IR_OP_JUMP [label_val k]] e"
proof (rule executesI)
  fix P i m s n r
  assume "code_at P i [mk_op IR_OP_JUMP [label_val k]]" "agree g m s" "f n s = Some r"
  with assms [OF this(3)] show "follows g P i m (i + length [mk_op IR_OP_JUMP [label_val k]]) r"
    by (auto intro!: followsI [OF steps_refl])
qed simp

text \<open>A jump that a loop takes.\<close>

lemma follows_jump:
  assumes "follows g P i m j (Jumps k, s)" "distinct (label_defs P)" "q < length P" "P ! q = mk_op IR_OP_LABEL [label_val k]"
  shows "follows g P i m (Suc q) (Normal, s)"
proof -
  obtain pc m' where h: "steps P (i, m) (pc, m')" "agree g m' s" "pc < length P" "P ! pc = mk_op IR_OP_JUMP [label_val k]"
    using assms(1) by (auto simp: follows_def)
  from steps_trans [OF h(1) jump_over [OF assms(2) h(3,4) assms(3,4)]] h(2) show ?thesis
    unfolding follows_normal by blast
qed

section \<open>The routines\<close>

locale runs = compiles +
  assumes null: "rec None (NODE_EXPRESSION_NULL t) e = Inr (os, v, e') \<Longrightarrow> os = [] \<and> e' = e"
    and item: "int_stmt g a \<Longrightarrow> g \<le> generator e \<Longrightarrow> rec None a e = Inr (os, v, e') \<Longrightarrow>
      executes g (\<lambda>n. c_stmt n a) e os e'"
begin

lemma null_expr: "is_null_expr a \<Longrightarrow> rec None a e = Inr (os, v, e') \<Longrightarrow> os = [] \<and> e' = e"
  using null by (auto simp: is_null_expr_def split: ast.splits)

lemma effect_generator:
  "int_or_null g a \<Longrightarrow> g \<le> generator e \<Longrightarrow> rec None a e = Inr (os, v, e') \<Longrightarrow> generator e \<le> generator e'"
  unfolding int_or_null_def using null_expr expr computes_static by (metis order_refl)

lemma effect:
  assumes "int_or_null g a" "g \<le> generator e" "rec None a e = Inr (os, v, e')"
    "code_at P i os" "distinct (label_defs P)" "agree g m s" "c_effect a s = Some s'"
  shows "follows g P i m (i + length os) (Normal, s')"
proof (cases "is_null_expr a")
  case True
  with null_expr [OF True assms(3)] assms(6,7) show ?thesis
    by (auto simp: follows_normal c_effect_def)
next
  case False
  with assms(1,7) obtain x where "int_expr g a" "c_expr a s = Some (x, s')"
    by (auto simp: int_or_null_def c_effect_def)
  then show ?thesis
    using computesE [OF expr [OF _ assms(2,3)] assms(4-6)] unfolding follows_normal by metis
qed

lemma condition:
  assumes "int_or_null g a" "g \<le> generator e" "rec None a e = Inr (os, v, e')" "loop_exit a v le = Inr js"
    "code_at P i (os @ js)" "distinct (label_defs P)" "agree g m s" "c_condition a s = Some (go, s')"
    "q < length P" "P ! q = mk_op IR_OP_LABEL [label_val le]"
  shows "follows g P i m (if go then i + length (os @ js) else Suc q) (Normal, s')"
proof (cases "is_null_expr a")
  case True
  with null_expr [OF True assms(3)] assms(4,7,8) show ?thesis
    by (auto simp: follows_normal c_condition_def loop_exit_def)
next
  case False
  with assms(1,8) obtain x where x: "int_expr g a" "c_expr a s = Some (x, s')" "go = (x \<noteq> 0)"
    by (auto simp: int_or_null_def c_condition_def bind_eq_Some_conv)
  have js: "js = [mk_op IR_OP_JUMP_IF_ZERO [v, label_val le]]"
    using False assms(4) by (simp add: loop_exit_def check_iff)
  have at: "code_at P i os" "i + length os < length P" "P ! (i + length os) = mk_op IR_OP_JUMP_IF_ZERO [v, label_val le]"
    using assms(5) unfolding js by simp_all
  obtain m1 where m1: "steps P (i, m) (i + length os, m1)" "agree g m1 s'" "read_val m1 v = x"
    using computesE [OF expr [OF x(1) assms(2,3)] at(1) assms(6,7) x(2)] by blast
  have "steps P (i + length os, m1) (if taken True x then Suc q else Suc (i + length os), m1)"
    using branch [OF assms(6) at(2), of True v le q m1] at(3) assms(9,10) m1(3) by simp
  from steps_trans [OF m1(1) this] m1(2) x(3) show ?thesis
    by (auto simp: follows_normal js taken_def)
qed

lemma block:
  "list_all (int_stmt g) as \<Longrightarrow> g \<le> generator e \<Longrightarrow> ir_block rec as e = Inr (os, v, e') \<Longrightarrow>
     executes g (\<lambda>n. c_stmts n as) e os e'"
proof (induction as arbitrary: e os v)
  case Nil
  have "c_stmts n [] s = Some r \<Longrightarrow> r = (Normal, s)" for n s r by (cases n) auto
  note executes_nothing [of "\<lambda>n. c_stmts n []", OF this]
  with Nil show ?case by simp
next
  case (Cons a as)
  show ?case
  proof (cases "is_function a")
    case True
    with Cons have "executes g (\<lambda>n. c_stmts n as) e os e'" by simp
    moreover have "c_stmts n (a # as) s = Some r \<Longrightarrow> \<exists>n'. c_stmts n' as s = Some r" for n s r
    proof -
      assume h: "c_stmts n (a # as) s = Some r"
      then obtain k where n: "n = Suc k" by (cases n) auto
      show ?thesis
      proof (cases k)
        case (Suc j)
        with h n True have "c_stmts k as s = Some r" by (cases a) (simp_all add: is_function_def)
        then show ?thesis ..
      qed (use h n in simp)
    qed
    ultimately show ?thesis unfolding executes_def by blast
  next
    case False
    with Cons.prems(3) obtain o1 v1 e1 o2 v2 where
      h: "rec None a e = Inr (o1, v1, e1)" "ir_block rec as e1 = Inr (o2, v2, e')" "os = o1 @ o2"
      by (auto simp: check_iff)
    have c: "executes g (\<lambda>n. c_stmt n a) e o1 e1" using item [OF _ Cons.prems(2) h(1)] Cons.prems(1) by simp
    then have e1: "g \<le> generator e1" "generator e \<le> generator e1" using Cons.prems(2) by (auto simp: executes_def)
    have d: "executes g (\<lambda>n. c_stmts n as) e1 o2 e'" using Cons.IH [OF _ e1(1) h(2)] Cons.prems(1) by simp
    show ?thesis
    proof (rule executesI)
      show "generator e \<le> generator e'" using d e1(2) by (simp add: executes_def)
      fix P i m s n r
      assume P: "code_at P i os" "distinct (label_defs P)" "agree g m s" "c_stmts n (a # as) s = Some r"
      obtain k out s1 where k: "n = Suc k" "c_stmt k a s = Some (out, s1)"
        "(if out = Normal then c_stmts k as s1 else Some (out, s1)) = Some r"
        using P(4) by (cases n) (auto simp: bind_eq_Some_conv)
      have at: "code_at P i o1" "code_at P (i + length o1) o2" using P(1) h(3) by simp_all
      note f = executesD [OF c at(1) P(2,3) k(2)]
      show "follows g P i m (i + length os) r"
      proof (cases "out = Normal")
        case True
        with f obtain m1 where m1: "steps P (i, m) (i + length o1, m1)" "agree g m1 s1"
          by (auto simp: follows_normal)
        from k(3) True have "c_stmts k as s1 = Some r" by simp
        from follows_after [OF m1(1) executesD [OF d at(2) P(2) m1(2) this]] h(3) show ?thesis by (simp add: add.assoc)
      next
        case False
        with k(3) f show ?thesis by (auto intro: follows_elsewhere)
      qed
    qed
  qed
qed

lemma ret:
  assumes "ir_ret_op rec a e = Inr (os, v, e')" "g \<le> generator e" "int_or_null g a"
  shows "executes g (\<lambda>n. c_stmt n (NODE_FUNCTION_RETURN_STATEMENT a)) e os e'"
proof (cases "is_null_expr a")
  case True
  then have os: "os = [mk_op IR_OP_RET [dummy_val]]" "e' = e"
    using assms(1) by (auto simp: ir_ret_op_def check_iff)
  show ?thesis
  proof (rule executesI)
    fix P i m s n r
    assume P: "code_at P i os" "agree g m s" "c_stmt n (NODE_FUNCTION_RETURN_STATEMENT a) s = Some r"
    then have "r = (Returned None, s)" using True by (cases n) auto
    with P(1,2) show "follows g P i m (i + length os) r"
      by (auto simp: os intro!: followsI [OF steps_refl])
  qed (simp add: os)
next
  case False
  with assms(3) have a: "int_expr g a" by (simp add: int_or_null_def)
  obtain o1 w where o1: "rec None a e = Inr (o1, w, e')" "os = o1 @ [mk_op IR_OP_RET [w]]"
    using assms(1) False by (auto simp: ir_ret_op_def check_iff)
  note c = expr [OF a assms(2) o1(1)]
  show ?thesis
  proof (rule executesI)
    show "generator e \<le> generator e'" using computes_static [OF c] by blast
    fix P i m s n r
    assume P: "code_at P i os" "distinct (label_defs P)" "agree g m s" "c_stmt n (NODE_FUNCTION_RETURN_STATEMENT a) s = Some r"
    then obtain x s' where x: "c_expr a s = Some (x, s')" "r = (Returned (Some x), s')"
      using False by (cases n) (auto simp: bind_eq_Some_conv)
    have at: "code_at P i o1" "i + length o1 < length P" "P ! (i + length o1) = mk_op IR_OP_RET [w]"
      using P(1) o1(2) by simp_all
    obtain m1 where m1: "steps P (i, m) (i + length o1, m1)" "agree g m1 s'" "read_val m1 w = x"
      using computesE [OF c at(1) P(2,3) x(1)] by blast
    show "follows g P i m (i + length os) r"
      using at computes_static [OF c] m1(3) unfolding x(2) by (intro followsI [OF m1(1,2)]) simp
  qed
qed

lemma decl_init:
  assumes h: "ir_decl_init rec (NODE_DECLARATION d sp vt (Some a) t) vt a e = Inr (os, v, e')" "g \<le> generator e"
    and t: "int_stmt g (NODE_DECLARATION d sp vt (Some a) t)"
  shows "executes g (\<lambda>n. c_stmt n (NODE_DECLARATION d sp vt (Some a) t)) e os e'"
proof -
  let ?d = "NODE_DECLARATION d sp vt (Some a) t" and ?k = "symbol_location d"
  from t have t: "ctype_is_integer t" "int_expr g a" "init_single_set a" "same t (expr_type a)"
    "as_stype d \<noteq> SYMBOL_STRING_LITERAL" "below g ?k" by simp_all
  obtain w where w: "ir_assignment_lvalue ?d = Inr (None, w)" "val_location w = Some ?k" "val_type w = t"
    using t(5) by (auto simp: ir_assignment_lvalue_def lvalue_through_pointer_def lvalue_candidate_def
        lvalue_symbol_def ir_val_zero_def val_location_def symbol_location_def)
  obtain o1 x where o1: "rec None a e = Inr (o1, x, e')" "os = o1 @ [mk_op IR_OP_COPY [x, w]]"
    using h(1) w(1) t(3) by (auto simp: ir_decl_init_def check_iff)
  note c = expr [OF t(2) h(2) o1(1)]
  show ?thesis
  proof (rule executesI)
    show "generator e \<le> generator e'" using computes_static [OF c] by blast
    fix P i m s n r
    assume P: "code_at P i os" "distinct (label_defs P)" "agree g m s" "c_stmt n ?d s = Some r"
    then obtain y s' where y: "c_expr a s = Some (y, s')" "r = (Normal, put ?k t y s')"
      by (cases n) (auto simp: bind_eq_Some_conv)
    have at: "code_at P i o1" "i + length o1 < length P" "P ! (i + length o1) = mk_op IR_OP_COPY [x, w]"
      using P(1) o1(2) by simp_all
    obtain m1 where m1: "steps P (i, m) (i + length o1, m1)" "agree g m1 s'" "read_val m1 x = y"
      using computesE [OF c at(1) P(2,3) y(1)] by blast
    have "op_effect (mk_op IR_OP_COPY [x, w]) m1 = Some (put ?k t y m1)"
      using m1(3) w(2,3) by (simp add: op_effect_def Let_def location_access)
    from steps_op [OF at(2,3) _ this] have "steps P (i + length o1, m1) (Suc (i + length o1), put ?k t y m1)" by simp
    from steps_trans [OF m1(1) this] agree_put [OF m1(2)] show "follows g P i m (i + length os) r"
      unfolding y(2) by (intro followsI) (simp_all add: o1(2))
  qed
qed

lemma if_else:
  assumes h: "ir_if_else_statement rec c th el e = Inr (os, v, e')" "g \<le> generator e"
    and t: "int_expr g c" "list_all (int_stmt g) th" "list_all (int_stmt g) el"
  shows "executes g (\<lambda>n. c_stmt n (NODE_IF_ELSE c th el)) e os e'"
proof -
  let ?lc = "ir_labels e" and ?le = "ir_labels e + 1"
  obtain e0 o0 v0 e1 o1 v1 e2 o2 where
    o: "rec None c e0 = Inr (o0, v0, e1)" "generator e0 = generator e" "ir_block rec th e1 = Inr (o1, v1, e2)"
      "\<exists>v2. ir_block rec el e2 = Inr (o2, v2, e')"
      "os = o0 @ mk_op IR_OP_JUMP_IF_ZERO [v0, label_val ?lc] # o1 @
         (if el = [] then [mk_op IR_OP_LABEL [label_val ?lc]]
          else mk_op IR_OP_JUMP [label_val ?le] # mk_op IR_OP_LABEL [label_val ?lc] # o2 @
            [mk_op IR_OP_LABEL [label_val ?le]])"
  proof (cases "el = []")
    case True
    with h(1) show ?thesis
      unfolding ir_if_else_statement_def ir_if_else_prepare_def if_else_collect_def
      by (auto simp: check_iff Let_def new_label_def if_else_prep_zero_def intro!: that)
  next
    case False
    with h(1) show ?thesis
      unfolding ir_if_else_statement_def ir_if_else_prepare_def if_else_collect_def
      by (auto simp: check_iff Let_def new_label_def intro!: that)
  qed
  have cc: "computes g c e0 o0 v0 e1" using h(2) o(2) by (intro expr [OF t(1) _ o(1)]) simp
  note sc = computes_static [OF cc]
  have g1: "g \<le> generator e1" using sc h(2) o(2) by simp
  note ca = block [OF t(2) g1 o(3)]
  have g2: "g \<le> generator e2" "generator e1 \<le> generator e2" using ca g1 by (auto simp: executes_def)
  from o(4) block [OF t(3) g2(1)] have cb: "executes g (\<lambda>n. c_stmts n el) e2 o2 e'" by blast
  show ?thesis
  proof (rule executesI)
    show "generator e \<le> generator e'" using sc g2 cb o(2) by (simp add: executes_def)
    fix P i m s n r
    assume P: "code_at P i os" "distinct (label_defs P)" "agree g m s" "c_stmt n (NODE_IF_ELSE c th el) s = Some r"
    obtain k x s0 where k: "c_expr c s = Some (x, s0)" "c_stmts k (if x \<noteq> 0 then th else el) s0 = Some r"
      using P(4) by (cases n) (auto simp: bind_eq_Some_conv)
    define j0 where "j0 = i + length o0"
    define j1 where "j1 = Suc j0 + length o1"
    have at: "code_at P i o0" "j0 < length P" "P ! j0 = mk_op IR_OP_JUMP_IF_ZERO [v0, label_val ?lc]" "code_at P (Suc j0) o1"
      using P(1) unfolding o(5) j0_def by simp_all
    obtain m0 where m0: "steps P (i, m) (j0, m0)" "agree g m0 s0" "read_val m0 v0 = x"
      using computesE [OF cc at(1) P(2,3) k(1)] unfolding j0_def by auto
    have branch: "steps P (i, m) (if x = 0 then Suc q else Suc j0, m0)"
      if "q < length P" "P ! q = mk_op IR_OP_LABEL [label_val ?lc]" for q
      using steps_trans [OF m0(1) branch [OF P(2) at(2), of True v0 ?lc q m0]] at(3) that m0(3)
      by (simp add: taken_def split del: if_split cong: if_cong)
    show "follows g P i m (i + length os) r"
    proof (cases "el = []")
      case True
      have l: "j1 < length P" "P ! j1 = mk_op IR_OP_LABEL [label_val ?lc]" "i + length os = Suc j1"
        using P(1) True unfolding o(5) j0_def j1_def by simp_all
      show ?thesis
      proof (cases "x = 0")
        case x: True
        with k(2) True have "r = (Normal, s0)" by (cases k) auto
        with branch [OF l(1,2)] x m0(2) show ?thesis unfolding l(3) by (auto simp: follows_normal)
      next
        case False
        with k(2) have "c_stmts k th s0 = Some r" by simp
        note f = follows_after [OF _ executesD [OF ca at(4) P(2) m0(2) this]]
        have f: "follows g P i m j1 r" using f [of i m] branch [OF l(1,2)] False unfolding j1_def by simp
        show ?thesis
        proof (cases "fst r = Normal")
          case True
          then obtain s1 where r: "r = (Normal, s1)" by (cases r) simp
          from f show ?thesis using steps_trans [OF _ steps_label [OF l(1,2)]] unfolding l(3) r follows_normal by blast
        qed (use f in \<open>auto intro: follows_elsewhere\<close>)
      qed
    next
      case False
      define j2 where "j2 = Suc (Suc j1) + length o2"
      have l: "j1 < length P" "P ! j1 = mk_op IR_OP_JUMP [label_val ?le]"
        "Suc j1 < length P" "P ! Suc j1 = mk_op IR_OP_LABEL [label_val ?lc]" "code_at P (Suc (Suc j1)) o2"
        "j2 < length P" "P ! j2 = mk_op IR_OP_LABEL [label_val ?le]" "i + length os = Suc j2"
        using P(1) False unfolding o(5) j0_def j1_def j2_def by simp_all
      show ?thesis
      proof (cases "x = 0")
        case True
        with k(2) have "c_stmts k el s0 = Some r" by simp
        note f = follows_after [OF _ executesD [OF cb l(5) P(2) m0(2) this]]
        have f: "follows g P i m j2 r" using f [of i m] branch [OF l(3,4)] True unfolding j2_def by simp
        show ?thesis
        proof (cases "fst r = Normal")
          case True
          then obtain s1 where r: "r = (Normal, s1)" by (cases r) simp
          from f show ?thesis using steps_trans [OF _ steps_label [OF l(6,7)]] unfolding l(8) r follows_normal by blast
        qed (use f in \<open>auto intro: follows_elsewhere\<close>)
      next
        case x: False
        with k(2) have "c_stmts k th s0 = Some r" by simp
        note f = follows_after [OF _ executesD [OF ca at(4) P(2) m0(2) this]]
        have f: "follows g P i m j1 r" using f [of i m] branch [OF l(3,4)] x unfolding j1_def by simp
        show ?thesis
        proof (cases "fst r = Normal")
          case True
          then obtain s1 where r: "r = (Normal, s1)" by (cases r) simp
          from f show ?thesis using steps_trans [OF _ jump_over [OF P(2) l(1,2,6,7)]] unfolding l(8) r follows_normal by blast
        qed (use f in \<open>auto intro: follows_elsewhere\<close>)
      qed
    qed
  qed
qed

lemma loop:
  assumes h: "ir_loop rec pc bd inc qc le lc ls e = Inr (os, v, e')" "g \<le> generator e"
    and t: "int_or_null g pc" "list_all (int_stmt g) bd" "int_or_null g inc" "int_or_null g qc"
  shows "executes g (\<lambda>n. c_stmt n (NODE_LOOP pc bd inc qc le lc ls)) e os e'"
proof -
  let ?L = "NODE_LOOP pc bd inc qc le lc ls"
  obtain o1 v1 e1 j1 o2 v2 e2 o3 v3 e3 o4 v4 j4 where
    o: "rec None pc e = Inr (o1, v1, e1)" "loop_exit pc v1 le = Inr j1" "ir_block rec bd e1 = Inr (o2, v2, e2)"
      "rec None inc e2 = Inr (o3, v3, e3)" "rec None qc e3 = Inr (o4, v4, e')" "loop_exit qc v4 le = Inr j4"
      "os = mk_op IR_OP_LABEL [label_val ls] # (o1 @ j1) @ o2 @ mk_op IR_OP_LABEL [label_val lc] # o3 @
         (o4 @ j4) @ [mk_op IR_OP_JUMP [label_val ls], mk_op IR_OP_LABEL [label_val le]]"
    using h(1) unfolding ir_loop_def by (auto simp: check_iff)
  have g1: "generator e \<le> generator e1" using effect_generator [OF t(1) h(2) o(1)] .
  then have c2: "executes g (\<lambda>n. c_stmts n bd) e1 o2 e2" using h(2) by (intro block [OF t(2) _ o(3)]) simp
  then have g2: "generator e1 \<le> generator e2" by (simp add: executes_def)
  have g3: "generator e2 \<le> generator e3" using g1 g2 h(2) by (intro effect_generator [OF t(3) _ o(4)]) simp
  have g4: "generator e3 \<le> generator e'" using g1 g2 g3 h(2) by (intro effect_generator [OF t(4) _ o(5)]) simp
  have le: "g \<le> generator e1" "g \<le> generator e2" "g \<le> generator e3" using h(2) g1 g2 g3 by simp_all
  show ?thesis
  proof (rule executesI)
    show "generator e \<le> generator e'" using g1 g2 g3 g4 by simp
    fix P i m s n r
    assume P: "code_at P i os" "distinct (label_defs P)" "agree g m s" "c_stmt n ?L s = Some r"
    define p2 where "p2 = Suc i + length (o1 @ j1)"
    define p3 where "p3 = p2 + length o2"
    define p4 where "p4 = Suc p3 + length o3"
    define p5 where "p5 = p4 + length (o4 @ j4)"
    have at: "i < length P" "P ! i = mk_op IR_OP_LABEL [label_val ls]" "code_at P (Suc i) (o1 @ j1)"
      "code_at P p2 o2" "p3 < length P" "P ! p3 = mk_op IR_OP_LABEL [label_val lc]" "code_at P (Suc p3) o3"
      "code_at P p4 (o4 @ j4)" "p5 < length P" "P ! p5 = mk_op IR_OP_JUMP [label_val ls]"
      "Suc p5 < length P" "P ! Suc p5 = mk_op IR_OP_LABEL [label_val le]"
      using P(1) unfolding o(7) p2_def p3_def p4_def p5_def by (simp_all add: add.assoc)
    have len: "i + length os = Suc (Suc p5)" unfolding o(7) p2_def p3_def p4_def p5_def by simp
    show "follows g P i m (i + length os) r"
      using P(3,4) unfolding len
    proof (induction n arbitrary: m s r)
      case (Suc k)
      define more where "more = (\<lambda>s. do {
          s \<leftarrow> c_effect inc s;
          (go, s) \<leftarrow> c_condition qc s;
          if go then c_stmt k ?L s else Some (Normal, s) })"
      define finish where "finish = (\<lambda>(out, s). if out = Normal \<or> out = Jumps lc then more s
          else if out = Jumps le then Some (Normal, s) else Some (out, s))"
      have step: "c_stmt (Suc k) ?L s = do {
          (go, s) \<leftarrow> c_condition pc s;
          if \<not> go then Some (Normal, s) else Option.bind (c_stmts k bd s) finish }"
        unfolding finish_def more_def by simp
      obtain go s1 where c1: "c_condition pc s = Some (go, s1)"
        and rest: "(if \<not> go then Some (Normal, s1) else Option.bind (c_stmts k bd s1) finish) = Some r"
        using Suc.prems(2) unfolding step by (auto simp: bind_eq_Some_conv)
      have f1: "follows g P i m (if go then p2 else Suc (Suc p5)) (Normal, s1)"
        using follows_after [OF steps_label [OF at(1,2)] condition [OF t(1) h(2) o(1,2) at(3) P(2) Suc.prems(1) c1 at(11,12)]]
        unfolding p2_def .
      show ?case
      proof (cases go)
        case False
        with f1 rest show ?thesis by simp
      next
        case True
        obtain out s2 where c2': "c_stmts k bd s1 = Some (out, s2)" and next_step: "finish (out, s2) = Some r"
          using rest True by (auto simp: bind_eq_Some_conv)
        obtain m1 where m1: "steps P (i, m) (p2, m1)" "agree g m1 s1"
          using f1 True by (auto simp: follows_normal)
        note f2 = follows_after [OF m1(1) executesD [OF c2 at(4) P(2) m1(2) c2'], folded p3_def]
        show ?thesis
        proof (cases "out = Normal \<or> out = Jumps lc")
          case True
          have "follows g P i m (Suc p3) (Normal, s2)"
          proof (cases "out = Normal")
            case True
            with f2 steps_trans [OF _ steps_label [OF at(5,6)]] show ?thesis unfolding True follows_normal by blast
          next
            case False
            with \<open>out = Normal \<or> out = Jumps lc\<close> follows_jump [OF _ P(2) at(5,6)] f2 show ?thesis by blast
          qed
          then obtain m2 where m2: "steps P (i, m) (Suc p3, m2)" "agree g m2 s2" by (auto simp: follows_normal)
          obtain s3 go2 s4 where c3: "c_effect inc s2 = Some s3" "c_condition qc s3 = Some (go2, s4)"
            "(if go2 then c_stmt k ?L s4 else Some (Normal, s4)) = Some r"
            using next_step True by (auto simp: finish_def more_def bind_eq_Some_conv)
          obtain m3 where m3: "steps P (i, m) (p4, m3)" "agree g m3 s3"
            using follows_after [OF m2(1) effect [OF t(3) le(2) o(4) at(7) P(2) m2(2) c3(1)]]
            unfolding p4_def follows_normal by blast
          note f4 = follows_after [OF m3(1) condition [OF t(4) le(3) o(5,6) at(8) P(2) m3(2) c3(2) at(11,12)], folded p5_def]
          show ?thesis
          proof (cases go2)
            case False
            with f4 c3(3) show ?thesis by simp
          next
            case True
            then obtain m4 where m4: "steps P (i, m) (p5, m4)" "agree g m4 s4"
              using f4 by (auto simp: follows_normal)
            have "steps P (i, m) (i, m4)"
              using steps_trans [OF m4(1) steps_jump [OF at(9,10) find_label_at [OF P(2) at(1,2)]]] .
            from follows_after [OF this Suc.IH [OF m4(2)]] True c3(3) show ?thesis by simp
          qed
        next
          case False
          then show ?thesis
            using next_step f2 follows_jump [OF _ P(2) at(11,12)] follows_elsewhere [of r g P i m p3]
            by (cases "out = Jumps le") (auto simp: finish_def)
        qed
      qed
    qed simp
  qed
qed

lemma node:
  assumes h: "ir_node rec None a e = Inr (os, v, e')" "g \<le> generator e" "int_stmt g a" "\<not> int_or_null g a"
  shows "executes g (\<lambda>n. c_stmt n a) e os e' \<and> v = ir_val_zero"
proof (cases a)
  case (NODE_BLOCK items)
  with h(1) obtain w where b: "ir_block rec items e = Inr (os, w, e')" and v: "v = ir_val_zero"
    by (auto simp: ir_node_def check_iff)
  have c: "executes g (\<lambda>n. c_stmts n items) e os e'" using h(2,3) NODE_BLOCK by (intro block [OF _ _ b]) simp_all
  have "\<exists>n'. c_stmts n' items s = Some r" if "c_stmt n a s = Some r" for n s r
    using that NODE_BLOCK by (cases n) auto
  with c v show ?thesis unfolding executes_def by blast
next
  case (NODE_DECLARATION d sp vt init t)
  show ?thesis
  proof (cases init)
    case None
    have r: "c_stmt n a s = Some r \<Longrightarrow> r = (Normal, s)" for n s r
      using None NODE_DECLARATION by (cases n) auto
    have "os = []" "e' = e" "v = ir_val_zero"
      using None NODE_DECLARATION h(1) by (auto simp: ir_node_def)
    then show ?thesis using executes_nothing [of "\<lambda>n. c_stmt n a"] r by blast
  next
    case (Some b)
    with NODE_DECLARATION h have "ir_decl_init rec a vt b e = Inr (os, v, e')" by (simp add: ir_node_def)
    moreover have "v = ir_val_zero"
      using calculation by (auto simp: ir_decl_init_def check_iff split: if_splits)
    ultimately show ?thesis using h(2,3) Some NODE_DECLARATION decl_init by blast
  qed
next
  case (NODE_FUNCTION_RETURN_STATEMENT b)
  then have "ir_ret_op rec b e = Inr (os, v, e')" using h(1) by (simp add: ir_node_def)
  moreover have "v = ir_val_zero" using calculation by (auto simp: ir_ret_op_def check_iff)
  ultimately show ?thesis using h(2,3) NODE_FUNCTION_RETURN_STATEMENT ret by simp
next
  case (NODE_IF_ELSE c th el)
  then have "ir_if_else_statement rec c th el e = Inr (os, v, e')" using h(1) by (simp add: ir_node_def)
  moreover have "v = ir_val_zero"
    using calculation by (auto simp: ir_if_else_statement_def Let_def check_iff split_beta)
  ultimately show ?thesis using h(2,3) NODE_IF_ELSE if_else by simp
next
  case (NODE_LOOP pc bd inc qc le lc ls)
  then have "ir_loop rec pc bd inc qc le lc ls e = Inr (os, v, e')" using h(1) by (simp add: ir_node_def)
  moreover have "v = ir_val_zero" using calculation by (auto simp: ir_loop_def check_iff)
  ultimately show ?thesis using h(2,3) NODE_LOOP loop by simp
next
  case (NODE_BREAK k)
  have r: "c_stmt n a s = Some r \<Longrightarrow> r = (Jumps k, s)" for n s r
    using NODE_BREAK by (cases n) auto
  have "os = [mk_op IR_OP_JUMP [label_val k]]" "e' = e" "v = ir_val_zero"
    using NODE_BREAK h(1) by (auto simp: ir_node_def ir_jump_def)
  then show ?thesis using executes_jump [of "\<lambda>n. c_stmt n a"] r by blast
next
  case (NODE_CONTINUE k)
  have r: "c_stmt n a s = Some r \<Longrightarrow> r = (Jumps k, s)" for n s r
    using NODE_CONTINUE by (cases n) auto
  have "os = [mk_op IR_OP_JUMP [label_val k]]" "e' = e" "v = ir_val_zero"
    using NODE_CONTINUE h(1) by (auto simp: ir_node_def ir_jump_def)
  then show ?thesis using executes_jump [of "\<lambda>n. c_stmt n a"] r by blast
qed (use h in \<open>auto simp: int_or_null_def ir_node_def make_result_ti_def\<close>)

end

lemma no_value_kept [simp]: "ir_expr_get_addr_implicit (os, ir_val_zero, e) = (os, ir_val_zero, e)"
  by (simp add: ir_expr_get_addr_implicit_def ir_val_zero_def ctype_zero_def ctype_is_array_def)

lemma executes_expr:
  assumes "computes g a e os v e'" "int_expr g a"
  shows "executes g (\<lambda>n. c_stmt n a) e os e'"
proof (rule executesI)
  show "generator e \<le> generator e'" using computes_static [OF assms(1)] by blast
  fix P i m s n r
  assume P: "code_at P i os" "distinct (label_defs P)" "agree g m s" "c_stmt n a s = Some r"
  then obtain x s' where x: "c_expr a s = Some (x, s')" "r = (Normal, s')"
    using assms(2) by (cases n; cases a) (auto simp: c_effect_def is_null_expr_def)
  from computesE [OF assms(1) P(1-3) x(1)] show "follows g P i m (i + length os) r"
    unfolding x(2) follows_normal by metis
qed

lemma runs_expr: "runs (ir_expr n) g"
proof (induction n)
  case (Suc n)
  have null: "os = [] \<and> e' = e" if "ir_expr (Suc n) None (NODE_EXPRESSION_NULL t) e = Inr (os, v, e')" for t e os v e'
    using that by (auto simp: ir_node_def check_iff)
  have item: "executes g (\<lambda>n. c_stmt n a) e os e'"
    if h: "int_stmt g a" "g \<le> generator e" "ir_expr (Suc n) None a e = Inr (os, v, e')" for a e os v e'
  proof (cases "int_or_null g a")
    case True
    then consider "is_null_expr a" | "int_expr g a" by (auto simp: int_or_null_def)
    then show ?thesis
    proof cases
      case 1
      then have "os = [] \<and> e' = e" using h(3) null by (auto simp: is_null_expr_def split: ast.splits)
      moreover have "c_stmt k a s = Some r \<Longrightarrow> r = (Normal, s)" for k s r
        using 1 by (cases k; cases a) (auto simp: is_null_expr_def)
      ultimately show ?thesis using executes_nothing [of "\<lambda>n. c_stmt n a"] by blast
    next
      case 2
      from executes_expr [OF sim.expr [OF 2 h(2,3)] 2] show ?thesis .
    qed
  next
    case False
    have "ir_expr (Suc n) None a e = check (ir_node (ir_expr n) None a e) (\<lambda>out. Inr (ir_expr_get_addr_implicit out))"
      using False h(1) by (cases a) simp_all
    with h(3) obtain os1 v1 e1 where o: "ir_node (ir_expr n) None a e = Inr (os1, v1, e1)"
      "ir_expr_get_addr_implicit (os1, v1, e1) = (os, v, e')"
      by (auto simp: check_iff)
    note r = runs.node [OF Suc o(1) h(2,1) False]
    then have "os1 = os" "e1 = e'"
      using o(2) by auto
    with r show ?thesis by simp
  qed
  show ?case by (rule runs.intro [OF compiles_expr]) (rule runs_axioms.intro; use null item in blast)
qed (simp add: runs_def compiles_def runs_axioms_def)

interpretation run: runs "ir_expr n" g for n g
  by (rule runs_expr)

section \<open>Functions\<close>

definition function_result :: "ctype \<Rightarrow> outcome \<Rightarrow> int option" where
  "function_result rt out =
     (case out of Returned r \<Rightarrow> r | _ \<Rightarrow> if ctype_is_void rt then None else Some 0)"

text \<open>No step goes past a return at the end.\<close>

lemma steps_past_end:
  "steps P c d \<Longrightarrow> fst d = length P \<Longrightarrow> fst c < length P \<Longrightarrow> ir_opcode (last P) \<noteq> IR_OP_RET"
proof (induction rule: steps.induct)
  case (steps_step c c' d)
  show ?case
  proof (cases "fst c' < length P")
    case False
    obtain pc m where c: "c = (pc, m)" by (cases c)
    have "find_label P n = Some j \<Longrightarrow> j < length P" for n j
      by (induction P arbitrary: j) (auto split: if_splits)
    with steps_step.hyps(1) False have "fst c' = Suc pc" "ir_opcode (P ! pc) \<noteq> IR_OP_RET"
      unfolding c by (auto simp: Let_def jump_to_def op_effect_def split: if_splits ir_opcode.splits)
    with False steps_step.prems(2) have "pc = length P - 1" by (simp add: c)
    with \<open>ir_opcode (P ! pc) \<noteq> IR_OP_RET\<close> steps_step.prems(2) show ?thesis
      by (metis last_conv_nth length_0_conv less_nat_zero_code)
  qed (use steps_step in blast)
qed simp

lemma function_runs:
  assumes f: "ir_func i rt ps stmts e = Inr (f, e')"
    and t: "list_all (int_stmt g) stmts" "g \<le> generator e" "list_all plain_item stmts"
      "distinct (labels_of stmts)" "\<forall>n \<in> set (labels_of stmts). n < ir_labels e"
    and s: "agree g m s" "c_stmts n stmts s = Some (out, s')" "\<forall>k. out \<noteq> Jumps k"
  shows "\<exists>m'. returns (ir_ops f) m (function_result rt out) m' \<and> agree g m' s'"
proof -
  let ?P = "ir_ops f"
  obtain os v where os: "ir_block (ir_expr (ir_budget stmts)) stmts e = Inr (os, v, e')"
    and P: "?P = os @ (if os \<noteq> [] \<and> ir_opcode (last os) = IR_OP_RET then []
      else [mk_op IR_OP_RET [if ctype_is_void rt then dummy_val else constant_val 0 ctype_zero]])"
    using f by (auto simp: ir_func_def check_iff Let_def)
  have "defined_times x ?P \<le> 1" for x
    using func_lab [OF f t(3), of x] distinct_count_le [OF t(4), of x] t(5)
    by (cases "x \<in> set (labels_of stmts)") (auto simp: lab_def given_out_def count_list_0_iff split: if_splits)
  then have d: "distinct (label_defs ?P)" by (rule distinct_times)
  have at: "code_at ?P 0 os" unfolding P by (auto simp: code_at_def nth_append)
  from executesD [OF run.block [OF t(1,2) os] at d s(1,2)]
  obtain pc m' where h: "steps ?P (0, m) (pc, m')" "agree g m' s'" "lands ?P (length os) out pc m'"
    by (auto simp: follows_def)
  show ?thesis
  proof (cases out)
    case Normal
    have pc: "pc = length os" using h(3) Normal by simp
    have ret: "\<not> (os \<noteq> [] \<and> ir_opcode (last os) = IR_OP_RET)"
      using steps_past_end [OF h(1)] P pc by auto
    then have end_op: "?P ! pc = mk_op IR_OP_RET [if ctype_is_void rt then dummy_val else constant_val 0 ctype_zero]"
      "pc < length ?P"
      unfolding P pc by (auto simp: nth_append)
    have zero: "read_val m' (constant_val 0 ctype_zero) = 0"
      by (simp add: read_val_def wrap_small ctype_zero_def)
    have "returns ?P m (function_result rt out) m'"
      unfolding returns_def using h(1) end_op zero Normal
      by (intro exI [of _ pc]) (auto simp: function_result_def)
    with h(2) show ?thesis by blast
  next
    case (Returned r)
    then have "returns ?P m (function_result rt out) m'"
      unfolding returns_def using h(1,3) by (auto simp: function_result_def)
    with h(2) show ?thesis by blast
  qed (use s(3) in blast)
qed

end
