(* ===== verification/IrProps.thy ===== *)
theory IrProps
  imports IrRun
begin

text \<open>The properties of the translation to three-address code.\<close>

text \<open>
  C14. The translation to three-address code comes to an end: for every tree and every symbol
  table it returns code, an error or a failed assertion within the budget that the tree
  itself gives, its size, and never runs out of it. The translation descends into operands,
  through casts and parentheses to the pointer behind an assignment, and twice into the
  left-hand side of a compound assignment.
\<close>
theorem ir_init_terminates: "ir_init a base_id base_label syms \<noteq> Inl NoFuel"
  using ir_init_ends by (simp add: ends_def)

text \<open>
  C1. The code of a function computes what the function means in C. The function is one over
  integer variables: assignments, increments and decrements, arithmetic, comparisons, shifts,
  conversions between the integer types, \<^verbatim>\<open>&&\<close>, \<^verbatim>\<open>||\<close> and the conditional expression, and as
  statements declarations, blocks, \<^verbatim>\<open>if\<close>, loops with \<^verbatim>\<open>break\<close> and \<^verbatim>\<open>continue\<close> and \<^verbatim>\<open>return\<close>
  (\<open>int_stmt\<close>; its variables are numbered below \<open>g\<close>). If its meaning is defined on a store
  (\<open>c_stmts\<close>), then the generated code, started on a store that agrees with it on the
  variables of the program, stops at a return of the same value, and the stores agree again.
  Falling off the end of a function that is not void returns zero.
\<close>
theorem ir_code_computes_the_meaning:
  assumes "ir_func i rt ps stmts e = Inr (f, e')"
    and "list_all (int_stmt g) stmts" "g \<le> generator e" "list_all plain_item stmts"
    and "distinct (labels_of stmts)" "\<forall>n \<in> set (labels_of stmts). n < ir_labels e"
    and "agree g m s" "c_stmts n stmts s = Some (out, s')" "\<forall>k. out \<noteq> Jumps k"
  shows "\<exists>m'. returns (ir_ops f) m (function_result rt out) m' \<and> agree g m' s'"
  using assms by (rule function_runs)

text \<open>
  \<^verbatim>\<open>int n = 10; int s = 0; while (n) { n = n - 1; if (n == 3) continue;\<close>
  \<^verbatim>\<open>if (s > 20 || n == 1) break; s = s + n; } return s ? s : -1;\<close>
\<close>

definition sample_type :: ctype where "sample_type = CTYPE_INT False"

definition sample_symbol :: "int \<Rightarrow> ast_symbol" where
  "sample_symbol k = ast_symbol_zero\<lparr>as_name := ''v'', as_unique := k\<rparr>"

definition sample_var :: "int \<Rightarrow> ast" where
  "sample_var k = NODE_EXPRESSION_VARIABLE_USAGE (sample_symbol k) sample_type"

definition sample_num :: "int \<Rightarrow> ast" where "sample_num k = NODE_CONSTANT (Num k) sample_type"

definition sample_op :: "infix_binary \<Rightarrow> ast \<Rightarrow> ast \<Rightarrow> ast" where
  "sample_op b l r = Op_binary (Infix_binary b) l r sample_type"

definition sample_decl :: "int \<Rightarrow> int \<Rightarrow> ast" where
  "sample_decl k n = NODE_DECLARATION (sample_symbol k) SPECIFIER_NONE sample_type
     (Some (NODE_EXPRESSION_INITIALIZER (Some (sample_num n)) [] sample_type)) sample_type"

definition sample_null :: ast where "sample_null = parse_alloc_null_expr"

definition sample_loop :: ast where
  "sample_loop = NODE_LOOP (sample_var 1)
     [sample_op EXPRESSION_VARIABLE_ASSIGNMENT (sample_var 1)
        (sample_op EXPRESSION_BINARY_SUBTRACT (sample_var 1) (sample_num 1)),
      NODE_IF_ELSE (sample_op EXPRESSION_COMPARE_EQUAL (sample_var 1) (sample_num 3)) [NODE_CONTINUE 101] [],
      NODE_IF_ELSE (sample_op EXPRESSION_LOGICAL_OR
          (sample_op EXPRESSION_COMPARE_MORE_THAN (sample_var 2) (sample_num 20))
          (sample_op EXPRESSION_COMPARE_EQUAL (sample_var 1) (sample_num 1))) [NODE_BREAK 102] [],
      sample_op EXPRESSION_VARIABLE_ASSIGNMENT (sample_var 2)
        (sample_op EXPRESSION_BINARY_ADD (sample_var 2) (sample_var 1))]
     sample_null sample_null 102 101 100"

definition sample_stmts :: "ast list" where
  "sample_stmts =
     [sample_decl 1 10, sample_decl 2 0, sample_loop,
      NODE_FUNCTION_RETURN_STATEMENT
        (Op_ternary (sample_var 2) (sample_var 2)
          (Op_unary (Prefix EXPRESSION_UNARY_NEGATE) (sample_num 1) sample_type) sample_type)]"

definition sample_env :: ir_env where "sample_env = \<lparr>generator = 10, ir_labels = 200\<rparr>"

definition sample_func :: "(ir_function \<times> ir_env) result" where
  "sample_func = ir_func (ast_symbol_zero\<lparr>as_name := ''f''\<rparr>) sample_type [] sample_stmts sample_env"

definition right :: "'a + 'b \<Rightarrow> 'b option" where
  "right x = (case x of Inl _ \<Rightarrow> None | Inr y \<Rightarrow> Some y)"

lemma sample_func_ok: "right sample_func \<noteq> None"
  by code_simp

lemma sample_meaning: "map_option fst (c_stmts 30 sample_stmts (\<lambda>_. 0)) = Some (Returned (Some 24))"
  by code_simp

lemmas sample_defs = sample_stmts_def sample_loop_def sample_decl_def sample_op_def sample_var_def sample_num_def
  sample_null_def parse_alloc_null_expr_def

lemma sample_plain: "list_all plain_item sample_stmts"
  by (simp add: sample_defs)

lemma sample_shape:
  "list_all (int_stmt 10) sample_stmts"
  "distinct (labels_of sample_stmts)" "\<forall>n \<in> set (labels_of sample_stmts). n < ir_labels sample_env"
  by code_simp+

theorem ir_code_computes_the_meaning_witness:
  "\<exists>f e' m'. sample_func = Inr (f, e') \<and> returns (ir_ops f) (\<lambda>_. 0) (Some 24) m'"
proof -
  obtain f e' where f: "sample_func = Inr (f, e')"
    using sample_func_ok by (auto simp: right_def split: sum.splits)
  obtain s' where s: "c_stmts 30 sample_stmts (\<lambda>_. 0) = Some (Returned (Some 24), s')"
    using sample_meaning by auto
  have "agree 10 (\<lambda>_. 0) (\<lambda>_. 0)" by (simp add: agree_def)
  from ir_code_computes_the_meaning [OF f [unfolded sample_func_def] sample_shape(1) _ sample_plain sample_shape(2,3) this s]
  have "\<exists>m'. returns (ir_ops f) (\<lambda>_. 0) (function_result sample_type (Returned (Some 24))) m'"
    by (auto simp: sample_env_def)
  with f show ?thesis by (auto simp: function_result_def)
qed

text \<open>
  C13. No jump goes nowhere: if the labels that the tree carries are distinct and older than
  the ones that the translation makes, and every jump of a function goes to a label of the
  function, then all labels of the program are defined once, and every jump of the code of a
  function goes to a label of that code.
\<close>
theorem ir_jumps_resolved:
  assumes "ir_program gs syms e = Inr ir" "\<forall>g \<in> set gs. list_all plain_item (function_stmts g)"
    and "distinct (program_labels gs)" "\<forall>n \<in> set (program_labels gs). n < ir_labels e"
    and "list_all function_jumps_resolved gs"
  shows "distinct (label_defs (concat (map ir_ops (ir_functions ir)))) \<and>
    (\<forall>f \<in> set (ir_functions ir). set (jump_targets (ir_ops f)) \<subseteq> set (label_defs (ir_ops f)))"
  using program_resolved [OF assms] by blast

definition sample_globals :: "ast list" where
  "sample_globals = [NODE_FUNCTION (ast_symbol_zero\<lparr>as_name := ''f''\<rparr>) SPECIFIER_NONE sample_type []
     (Some (NODE_BLOCK sample_stmts))]"

definition sample_syms :: symbol_table where
  "sample_syms = \<lparr>symbol_functions = [], symbol_variables = [], symbol_string_literals = []\<rparr>"

lemma sample_globals_shape:
  "right (ir_program sample_globals sample_syms sample_env) \<noteq> None" "distinct (program_labels sample_globals)"
  "\<forall>n \<in> set (program_labels sample_globals). n < ir_labels sample_env"
  "list_all function_jumps_resolved sample_globals"
  by code_simp+

theorem ir_jumps_resolved_witness:
  "\<exists>ir. ir_program sample_globals sample_syms sample_env = Inr ir \<and>
     distinct (label_defs (concat (map ir_ops (ir_functions ir)))) \<and>
     (\<forall>f \<in> set (ir_functions ir). set (jump_targets (ir_ops f)) \<subseteq> set (label_defs (ir_ops f)))"
proof -
  obtain ir where ir: "ir_program sample_globals sample_syms sample_env = Inr ir"
    using sample_globals_shape(1) by (auto simp: right_def split: sum.splits)
  have "\<forall>g \<in> set sample_globals. list_all plain_item (function_stmts g)"
    using sample_plain by (simp add: sample_globals_def function_stmts_def)
  from ir_jumps_resolved [OF ir this sample_globals_shape(2-4)] ir show ?thesis by blast
qed

end
