(* ===== verification/SemaConst.thy ===== *)
theory SemaConst
  imports Typed Constant "HOL-Library.Signed_Division"
begin

unbundle bit_operations_syntax

text \<open>
  \<^verbatim>\<open>src/passes/sema.c\<close>, constants: which initializers are constant, the bytes they stand for
  and the value of a \<^verbatim>\<open>case\<close>.

  A routine that writes through the cursor \<^verbatim>\<open>*pos\<close> returns the list of what it writes.
\<close>

definition LIKE_PTRDIFF_T :: ctype where "LIKE_PTRDIFF_T = CTYPE_LONG False"
definition LIKE_SIZE_T :: ctype where "LIKE_SIZE_T = CTYPE_UNSIGNED_LONG False"

fun is_node_lvalue :: "ast \<Rightarrow> bool" where
  "is_node_lvalue (NODE_SHARED a) = is_node_lvalue a"
| "is_node_lvalue (NODE_EXPRESSION_VARIABLE_USAGE s t) = True"
| "is_node_lvalue (Op_unary u e t) =
     (if u = EXPRESSION_PAREN_ENCLOSED then is_node_lvalue e
      else u = Prefix EXPRESSION_UNARY_DEREFERENCE \<and> \<not> ctype_is_void_ptr (expr_type e))"
| "is_node_lvalue a = False"

section \<open>Constant initializers\<close>

definition is_string_literal :: "ast \<Rightarrow> bool" where
  "is_string_literal a =
     (case a of NODE_EXPRESSION_VARIABLE_USAGE s t \<Rightarrow> as_stype s = SYMBOL_STRING_LITERAL | _ \<Rightarrow> False)"

definition is_constant :: "ast \<Rightarrow> bool" where
  "is_constant a = (case a of NODE_CONSTANT v t \<Rightarrow> True | _ \<Rightarrow> False)"

fun is_node_constant :: "ast \<Rightarrow> bool result"
  and all_node_constant :: "ast list \<Rightarrow> bool result" where
  "is_node_constant (NODE_EXPRESSION_CAST ty e t) = is_node_constant e"
| "is_node_constant (NODE_EXPRESSION_INITIALIZER (Some s) mu t) = Inr (is_constant s \<or> is_string_literal s)"
| "is_node_constant (NODE_EXPRESSION_INITIALIZER None mu t) =
     assert_that (mu \<noteq> []) (all_node_constant mu)"
| "is_node_constant a = Inr False"
| "all_node_constant [] = Inr True"
| "all_node_constant (car # cdr) =
     check (is_node_constant car) (\<lambda>b. if b then all_node_constant cdr else Inr False)"

fun count_initializer_elements :: "ctype \<Rightarrow> ast \<Rightarrow> u64 result"
  and count_flat :: "ctype \<Rightarrow> ast list \<Rightarrow> u64 result" where
  "count_initializer_elements dst_type (NODE_EXPRESSION_CAST ty e t) = count_initializer_elements dst_type e"
| "count_initializer_elements dst_type (NODE_EXPRESSION_INITIALIZER (Some s) mu t) =
     assert_that (is_constant s \<or> is_string_literal s) (Inr 1)"
| "count_initializer_elements dst_type (NODE_EXPRESSION_INITIALIZER None mu t) =
     assert_that (mu \<noteq> [] \<and> ctype_is_pointer dst_type) (check (referent_of dst_type) (\<lambda>r. count_flat r mu))"
| "count_initializer_elements dst_type a = Inl Abort"
| "count_flat r [] = Inr 0"
| "count_flat r (car # cdr) =
     check (count_initializer_elements r car) (\<lambda>m. check (count_flat r cdr) (\<lambda>n. Inr (m + n)))"

definition INT_TO_CHAR_TRUNCATOR :: int where "INT_TO_CHAR_TRUNCATOR = 256"
definition LONG_TO_INT_TRUNCATOR :: int where "LONG_TO_INT_TRUNCATOR = 4294967296"

text \<open>
  The conversions between \<^verbatim>\<open>int128_t\<close> and \<^verbatim>\<open>double\<close>: to the nearest double, and towards zero.
  A double that no 128-bit integer represents has no defined conversion.
\<close>

definition double_of_int :: "int \<Rightarrow> double" where
  "double_of_int n = (if n < 0 then set_bit 63 (double_of_ratio (nat (- n)) 1) else double_of_ratio (nat n) 1)"

definition int_of_double :: "double \<Rightarrow> int" where
  "int_of_double d =
     (let exponent = uint (take_bit 11 (drop_bit 52 d));
          fraction = uint (take_bit 52 d);
          mantissa = (if exponent = 0 then fraction else fraction + 2 ^ 52);
          scale = (if exponent = 0 then 1 else exponent) - 1075;
          magnitude = (if scale \<ge> 0 then mantissa * 2 ^ nat scale else mantissa div 2 ^ nat (- scale))
      in if bit d 63 then - magnitude else magnitude)"

text \<open>\<^verbatim>\<open>a->u.num\<close> and \<^verbatim>\<open>a->u.double_\<close> by the type of the constant.\<close>

definition constant_as_double :: "constant_value \<Rightarrow> ctype \<Rightarrow> double result" where
  "constant_as_double v t =
     (if ctype_is_array t \<or> ctype_is_void t then Inl Abort
      else if ctype_is_floating_point t then Inr (constant_double v)
      else Inr (double_of_int (constant_num v)))"

definition constant_as_int :: "constant_value \<Rightarrow> ctype \<Rightarrow> int result" where
  "constant_as_int v t =
     (if ctype_is_array t \<or> ctype_is_void t then Inl Abort
      else if ctype_is_floating_point t then Inr (int_of_double (constant_double v))
      else Inr (constant_num v))"

text \<open>The largest value of the type where the source truncates.\<close>

definition truncate_constant :: "ctype \<Rightarrow> int \<Rightarrow> int" where
  "truncate_constant dst_type x =
     (case dst_type of
        CTYPE_CHAR _ \<Rightarrow> if x > 127 then x mod INT_TO_CHAR_TRUNCATOR else x
      | CTYPE_SIGNED_CHAR _ \<Rightarrow> if x > 127 then x mod INT_TO_CHAR_TRUNCATOR else x
      | CTYPE_UNSIGNED_CHAR _ \<Rightarrow> if x > 255 then x mod INT_TO_CHAR_TRUNCATOR else x
      | CTYPE_INT _ \<Rightarrow> if x > INT_MAX then x mod LONG_TO_INT_TRUNCATOR else x
      | CTYPE_UNSIGNED_INT _ \<Rightarrow> if x > UINT_MAX then x mod LONG_TO_INT_TRUNCATOR else x
      | _ \<Rightarrow> x)"

definition map_numeric_type_scalar :: "ast \<Rightarrow> ctype \<Rightarrow> constant_bytes result" where
  "map_numeric_type_scalar a dst_type =
     (case a of
        NODE_CONSTANT v t \<Rightarrow>
          assert_that (\<not> ctype_is_array dst_type)
           (check (ctype_to_size_bytes dst_type) (\<lambda>n.
            if ctype_is_floating_point dst_type then
              check (constant_as_double v t) (\<lambda>d.
              Inr \<lparr>byte_count = n, byte_value = get_double_as_quadword d, cb_unique = 0\<rparr>)
            else
              check (constant_as_int v t) (\<lambda>x.
              let x = truncate_constant dst_type x
              in assert_that (x \<ge> 0)
                   (Inr \<lparr>byte_count = n, byte_value = word_of_int x, cb_unique = 0\<rparr>))))
      | _ \<Rightarrow> Inl Abort)"

fun populate_initializer_elements :: "ast \<Rightarrow> ctype \<Rightarrow> constant_bytes list result"
  and populate_flat :: "ast list \<Rightarrow> ctype \<Rightarrow> constant_bytes list result" where
  "populate_initializer_elements (NODE_EXPRESSION_CAST ty e t) dst_type =
     populate_initializer_elements e dst_type"
| "populate_initializer_elements (NODE_EXPRESSION_INITIALIZER (Some s) mu t) dst_type =
     (case s of
        NODE_CONSTANT v t \<Rightarrow> check (map_numeric_type_scalar s dst_type) (\<lambda>b. Inr [b])
      | NODE_EXPRESSION_VARIABLE_USAGE v t \<Rightarrow>
          assert_that (as_stype v = SYMBOL_STRING_LITERAL)
            (Inr [\<lparr>byte_count = 8, byte_value = 0, cb_unique = as_unique v\<rparr>])
      | _ \<Rightarrow> Inl Abort)"
| "populate_initializer_elements (NODE_EXPRESSION_INITIALIZER None mu t) dst_type =
     assert_that (mu \<noteq> [])
      (check (referent_of dst_type) (\<lambda>r. populate_flat mu r))"
| "populate_initializer_elements a dst_type = Inl Abort"
| "populate_flat [] r = Inr []"
| "populate_flat (car # cdr) r =
     check (populate_initializer_elements car r) (\<lambda>bs.
     check (populate_flat cdr r) (\<lambda>cs. Inr (bs @ cs)))"

definition map_numeric_type :: "ast \<Rightarrow> ctype \<Rightarrow> constant_initializer result" where
  "map_numeric_type init dst_type =
     check (count_initializer_elements dst_type init) (\<lambda>count.
     assert_that (count > 0)
      (check (populate_initializer_elements init dst_type) (\<lambda>elements.
       assert_that (of_nat (length elements) = count) (Inr elements))))"

section \<open>The value of a case\<close>

text \<open>
  Arithmetic on \<^verbatim>\<open>int128_t\<close>, which the model does not bound. \<open>as_u64\<close> is the conversion to
  \<^verbatim>\<open>long long unsigned\<close>; a shift of such a value by 64 or more is not defined in C and is 0 here.
\<close>

definition as_u64 :: "int \<Rightarrow> int" where "as_u64 n = take_bit 64 n"

definition guess_binary :: "infix_binary \<Rightarrow> int \<Rightarrow> int \<Rightarrow> int result" where
  "guess_binary b l r =
     (let both = (\<lambda>v. assert_that (l \<le> ULLONG_MAX \<and> r \<le> ULLONG_MAX) (Inr v)) in
      case b of
        EXPRESSION_BINARY_ADD \<Rightarrow> Inr (l + r)
      | EXPRESSION_BINARY_SUBTRACT \<Rightarrow> Inr (l - r)
      | EXPRESSION_BINARY_MULTIPLY \<Rightarrow> Inr (l * r)
      | EXPRESSION_BINARY_DIVIDE \<Rightarrow> Inr (l sdiv (if r = 0 then 1 else r))
      | EXPRESSION_BINARY_REMAINDER \<Rightarrow> Inr (l smod (if r = 0 then 1 else r))
      | EXPRESSION_BITWISE_AND \<Rightarrow> both (as_u64 l AND as_u64 r)
      | EXPRESSION_BITWISE_OR \<Rightarrow> both (as_u64 l OR as_u64 r)
      | EXPRESSION_BITWISE_SHIFT_LEFT \<Rightarrow>
          both (if as_u64 r < 64 then as_u64 (push_bit (nat (as_u64 r)) (as_u64 l)) else 0)
      | EXPRESSION_BITWISE_SHIFT_RIGHT \<Rightarrow>
          both (if as_u64 r < 64 then drop_bit (nat (as_u64 r)) (as_u64 l) else 0)
      | EXPRESSION_COMPARE_EQUAL \<Rightarrow> Inr (of_bool (l = r))
      | EXPRESSION_BITWISE_XOR \<Rightarrow> Inr (of_bool (l \<noteq> r))
      | EXPRESSION_COMPARE_NOT_EQUAL \<Rightarrow> Inr (of_bool (l \<noteq> r))
      | EXPRESSION_COMPARE_LESS_THAN \<Rightarrow> Inr (of_bool (l < r))
      | EXPRESSION_COMPARE_LESS_THAN_EQ \<Rightarrow> Inr (of_bool (l \<le> r))
      | EXPRESSION_COMPARE_MORE_THAN \<Rightarrow> Inr (of_bool (l > r))
      | EXPRESSION_COMPARE_MORE_THAN_EQ \<Rightarrow> Inr (of_bool (l \<ge> r))
      | _ \<Rightarrow> Inr 0)"

fun guess :: "ast \<Rightarrow> ctype \<Rightarrow> int result" where
  "guess (NODE_CONSTANT v t) expected_type =
     check (map_numeric_type_scalar (NODE_CONSTANT v t) expected_type) (\<lambda>b. Inr (uint (byte_value b)))"
| "guess (Op_unary u e t) expected_type =
     (if u = EXPRESSION_PAREN_ENCLOSED then guess e expected_type
      else if u = Prefix EXPRESSION_UNARY_COMPLEMENT then
        check (guess e expected_type) (\<lambda>v. assert_that (v \<le> ULLONG_MAX) (Inr (as_u64 (NOT v))))
      else if u = Prefix EXPRESSION_UNARY_NEGATE then check (guess e expected_type) (\<lambda>v. Inr (- v))
      else if u = Prefix EXPRESSION_UNARY_NOT then check (guess e expected_type) (\<lambda>v. Inr (of_bool (v = 0)))
      else Inr 0)"
| "guess (Op_binary (Infix_binary b) l r t) expected_type =
     (if b = EXPRESSION_LOGICAL_AND then
        check (guess l expected_type) (\<lambda>v.
        if v = 0 then Inr 0 else check (guess r expected_type) (\<lambda>w. Inr (of_bool (w \<noteq> 0))))
      else if b = EXPRESSION_LOGICAL_OR then
        check (guess l expected_type) (\<lambda>v.
        if v \<noteq> 0 then Inr 1 else check (guess r expected_type) (\<lambda>w. Inr (of_bool (w \<noteq> 0))))
      else if b = EXPRESSION_VARIABLE_ASSIGNMENT then Inr 0
      else
        check (guess l expected_type) (\<lambda>v.
        check (guess r expected_type) (\<lambda>w. guess_binary b v w)))"
| "guess a expected_type = Inr 0"

definition guess_case_value :: "ast \<Rightarrow> ctype \<Rightarrow> int result" where
  "guess_case_value containing_case expected_type =
     (case containing_case of NODE_CASE c n \<Rightarrow> guess c expected_type | _ \<Rightarrow> Inl Abort)"

definition make_case :: "int \<Rightarrow> ctype \<Rightarrow> int \<Rightarrow> ast" where
  "make_case existing_unique control_type new_value =
     NODE_CASE (NODE_CONSTANT (Num new_value) (ctype_copy control_type)) existing_unique"

fun no_duplicate_case :: "ctype \<Rightarrow> int \<Rightarrow> ast list \<Rightarrow> unit result" where
  "no_duplicate_case control_type new_value [] = Inr ()"
| "no_duplicate_case control_type new_value (car # cdr) =
     check (guess_case_value car control_type) (\<lambda>existing_value.
     if new_value = existing_value
     then make_result_ti (Sema ERR_SEMA_CASE_DUPLICATE) (signed_take_bit 31 new_value)
     else no_duplicate_case control_type new_value cdr)"

text \<open>The cases of the switch with the control type \<open>control_type\<close>, with the new one in front.\<close>

definition case_prepend :: "ctype \<Rightarrow> ast list \<Rightarrow> ast \<Rightarrow> ast list result" where
  "case_prepend control_type switch_list new_case =
     (case new_case of
        NODE_CASE c existing_unique \<Rightarrow>
          check (guess_case_value new_case control_type) (\<lambda>new_value.
          check (no_duplicate_case control_type new_value switch_list) (\<lambda>_.
          Inr (make_case existing_unique control_type new_value # switch_list)))
      | _ \<Rightarrow> Inl Abort)"

end
