(* ===== verification/SemaWalk.thy ===== *)
theory SemaWalk
  imports SemaConst Statement
begin

text \<open>
  \<^verbatim>\<open>src/passes/sema.c\<close>, the traversal that every check and rewriting of \<^verbatim>\<open>sema.c\<close> is an
  instance of.

  An operation sees a node before (\<open>node_enter\<close>) or behind (\<open>node_exit\<close>) its children and
  may rewrite it; \<^verbatim>\<open>userdata\<close> is a state that is passed along. What the source rewrites in
  place is returned here. The first argument of an operation says whether the node is one of
  the globals of the program, which \<^verbatim>\<open>ast_contains()\<close> finds out by its address.

  Two parts of a tree share their nodes in the source. The left-hand side of a compound
  assignment is visited as the left-hand side and again as the operand that reads it
  (\<open>NODE_SHARED\<close>), so the second visit finds what the first one left, and what the second one
  leaves is the left-hand side from then on. And the condition of a conditional expression is
  visited twice, because \<^verbatim>\<open>u.op_binary.lhs\<close> is the same memory as \<^verbatim>\<open>u.op_ternary.condition\<close>.
\<close>

section \<open>Shared left-hand sides\<close>

fun put_shared_operand :: "ast \<Rightarrow> ast \<Rightarrow> ast" where
  "put_shared_operand l (NODE_EXPRESSION_CAST ty e t) = NODE_EXPRESSION_CAST ty (put_shared_operand l e) t"
| "put_shared_operand l (NODE_SHARED a) = NODE_SHARED l"
| "put_shared_operand l a = a"

fun put_shared :: "ast \<Rightarrow> ast \<Rightarrow> ast" where
  "put_shared l (NODE_EXPRESSION_CAST ty e t) = NODE_EXPRESSION_CAST ty (put_shared l e) t"
| "put_shared l (Op_binary b x r t) = Op_binary b (put_shared_operand l x) r t"
| "put_shared l a = a"

definition get_shared :: "ast \<Rightarrow> ast option" where
  "get_shared r =
     (case unpack_cast r of
        Op_binary b x _ _ \<Rightarrow> (case unpack_cast x of NODE_SHARED a \<Rightarrow> Some a | _ \<Rightarrow> None)
      | _ \<Rightarrow> None)"

section \<open>The traversal\<close>

type_synonym 's sema_op = "bool \<Rightarrow> ast \<Rightarrow> 's \<Rightarrow> (ast \<times> 's) result"
type_synonym 's sema_rec = "ast \<Rightarrow> 's \<Rightarrow> (ast \<times> 's) result"

record 's sema_ops =
  node_enter :: "'s sema_op"
  node_exit :: "'s sema_op"

text \<open>A null operation, an operation that only checks and one that rewrites.\<close>

definition no_op :: "'s sema_op" where "no_op toplevel a s = Inr (a, s)"

definition check_op :: "(ast \<Rightarrow> unit result) \<Rightarrow> 's sema_op" where
  "check_op f toplevel a s = check (f a) (\<lambda>_. Inr (a, s))"

definition rewrite_op :: "(ast \<Rightarrow> ast result) \<Rightarrow> 's sema_op" where
  "rewrite_op f toplevel a s = check (f a) (\<lambda>a. Inr (a, s))"

fun sema_walk_flat :: "'s sema_rec \<Rightarrow> ast list \<Rightarrow> 's \<Rightarrow> (ast list \<times> 's) result" where
  "sema_walk_flat rec [] s = Inr ([], s)"
| "sema_walk_flat rec (car # cdr) s =
     check (rec car s) (\<lambda>(a, s).
     check (sema_walk_flat rec cdr s) (\<lambda>(as, s). Inr (a # as, s)))"

definition sema_walk_opt :: "'s sema_rec \<Rightarrow> ast option \<Rightarrow> 's \<Rightarrow> (ast option \<times> 's) result" where
  "sema_walk_opt rec a s =
     (case a of None \<Rightarrow> Inr (None, s) | Some a \<Rightarrow> check (rec a s) (\<lambda>(a, s). Inr (Some a, s)))"

definition sema_walk_assignment :: "'s sema_rec \<Rightarrow> ast \<Rightarrow> ast \<Rightarrow> 's \<Rightarrow> (ast \<times> ast \<times> 's) result" where
  "sema_walk_assignment rec l r s =
     check (rec l s) (\<lambda>(l, s).
     check (rec (put_shared l r) s) (\<lambda>(r, s).
     Inr (case get_shared r of None \<Rightarrow> l | Some a \<Rightarrow> a, r, s)))"

definition sema_walk_children :: "'s sema_rec \<Rightarrow> 's sema_rec" where
  "sema_walk_children rec a s =
     (case a of
        NODE_FUNCTION i sp rt ps block \<Rightarrow>
          check (sema_walk_opt rec block s) (\<lambda>(block, s). Inr (NODE_FUNCTION i sp rt ps block, s))
      | NODE_FUNCTION_RETURN_STATEMENT e \<Rightarrow>
          check (rec e s) (\<lambda>(e, s). Inr (NODE_FUNCTION_RETURN_STATEMENT e, s))
      | NODE_BLOCK items \<Rightarrow>
          check (sema_walk_flat rec items s) (\<lambda>(items, s). Inr (NODE_BLOCK items, s))
      | NODE_DECLARATION i sp vt init t \<Rightarrow>
          check (sema_walk_opt rec init s) (\<lambda>(init, s). Inr (NODE_DECLARATION i sp vt init t, s))
      | NODE_IF_ELSE c th el \<Rightarrow>
          check (rec c s) (\<lambda>(c, s).
          check (sema_walk_flat rec th s) (\<lambda>(th, s).
          check (sema_walk_flat rec el s) (\<lambda>(el, s).
          Inr (NODE_IF_ELSE c th el, s))))
      | NODE_LOOP pc bd inc qc le lc ls \<Rightarrow>
          check (rec pc s) (\<lambda>(pc, s).
          check (sema_walk_flat rec bd s) (\<lambda>(bd, s).
          check (rec inc s) (\<lambda>(inc, s).
          check (rec qc s) (\<lambda>(qc, s).
          Inr (NODE_LOOP pc bd inc qc le lc ls, s)))))
      | NODE_SWITCH c bd ld le cs \<Rightarrow>
          check (rec c s) (\<lambda>(c, s).
          check (sema_walk_flat rec bd s) (\<lambda>(bd, s).
          Inr (NODE_SWITCH c bd ld le cs, s)))
      | NODE_EXPRESSION_INITIALIZER sg mu t \<Rightarrow>
          check (sema_walk_opt rec sg s) (\<lambda>(sg, s).
          check (sema_walk_flat rec mu s) (\<lambda>(mu, s).
          Inr (NODE_EXPRESSION_INITIALIZER sg mu t, s)))
      | Op_unary u e t \<Rightarrow> check (rec e s) (\<lambda>(e, s). Inr (Op_unary u e t, s))
      | Op_binary b l r t \<Rightarrow>
          if b = Infix_binary EXPRESSION_VARIABLE_ASSIGNMENT then
            check (sema_walk_assignment rec l r s) (\<lambda>(l, r, s). Inr (Op_binary b l r t, s))
          else
            check (rec l s) (\<lambda>(l, s).
            check (rec r s) (\<lambda>(r, s).
            Inr (Op_binary b l r t, s)))
      | Op_ternary c x y t \<Rightarrow>
          check (rec c s) (\<lambda>(c, s).
          check (rec c s) (\<lambda>(c, s).
          check (rec x s) (\<lambda>(x, s).
          check (rec y s) (\<lambda>(y, s).
          Inr (Op_ternary c x y t, s)))))
      | NODE_EXPRESSION_FUNCTION_CALL f args t \<Rightarrow>
          check (sema_walk_flat rec args s) (\<lambda>(args, s). Inr (NODE_EXPRESSION_FUNCTION_CALL f args t, s))
      | NODE_EXPRESSION_CAST ty e t \<Rightarrow> check (rec e s) (\<lambda>(e, s). Inr (NODE_EXPRESSION_CAST ty e t, s))
      | _ \<Rightarrow> Inr (a, s))"

fun sema_walk :: "'s sema_ops \<Rightarrow> nat \<Rightarrow> bool \<Rightarrow> 's sema_rec" where
  "sema_walk ops 0 toplevel a s = Inl NoFuel"
| "sema_walk ops (Suc n) toplevel (NODE_SHARED a) s =
     check (sema_walk ops n toplevel a s) (\<lambda>(a, s). Inr (NODE_SHARED a, s))"
| "sema_walk ops (Suc n) toplevel a s =
     check (node_enter ops toplevel a s) (\<lambda>(a, s).
     check (sema_walk_children (sema_walk ops n False) a s) (\<lambda>(a, s).
     node_exit ops toplevel a s))"

text \<open>
  The traversal of a program. A rewriting replaces one node by at most three on a path, and
  an expanded string by two, so that the budget is a multiple of the size of the tree.
\<close>

definition sema_budget :: "ast list \<Rightarrow> nat" where "sema_budget gs = 4 * size_list size gs + 4"

definition sema_walk_program :: "'s sema_ops \<Rightarrow> ast list \<Rightarrow> 's \<Rightarrow> (ast list \<times> 's) result" where
  "sema_walk_program ops gs s = sema_walk_flat (sema_walk ops (sema_budget gs) True) gs s"

definition enter_with :: "'s sema_op \<Rightarrow> 's sema_ops" where
  "enter_with f = \<lparr>node_enter = f, node_exit = no_op\<rparr>"

definition exit_with :: "'s sema_op \<Rightarrow> 's sema_ops" where
  "exit_with f = \<lparr>node_enter = no_op, node_exit = f\<rparr>"

text \<open>A pass without a state.\<close>

definition plain_pass :: "unit sema_ops \<Rightarrow> ast list \<Rightarrow> ast list result" where
  "plain_pass ops gs = check (sema_walk_program ops gs ()) (\<lambda>(gs, _). Inr gs)"

section \<open>Types of nodes\<close>

text \<open>\<^verbatim>\<open>c->t = CTYPE_INT\<close> on a type that is not a chain keeps its flag.\<close>

definition set_t_int :: "ctype \<Rightarrow> ctype" where
  "set_t_int c = CTYPE_INT (maybe_null_pointer_constant c)"

definition cast_if :: "ctype \<Rightarrow> ast \<Rightarrow> ast" where
  "cast_if cast_to a =
     (if ctype_is_equal (expr_type a) cast_to then a
      else NODE_EXPRESSION_CAST (ctype_copy cast_to) a (ctype_copy cast_to))"

definition promote_if_char :: "ast \<Rightarrow> ast" where
  "promote_if_char a =
     (if ctype_is_charlike (expr_type a) then cast_if (CTYPE_INT False) a else a)"

end
