(* ===== verification/SemaTypes.thy ===== *)
theory SemaTypes
  imports SemaWalk
begin

text \<open>
  \<^verbatim>\<open>src/passes/sema.c\<close>, the rewriting of compound assignments, subscripts and string
  literals, the types of expressions and the checks on them.
\<close>

section \<open>Compound assignments and subscripts\<close>

definition compound_operator :: "infix_compound \<Rightarrow> infix_binary" where
  "compound_operator c =
     (case c of
        EXPRESSION_COMPOUND_ASSIGN_ADD \<Rightarrow> EXPRESSION_BINARY_ADD
      | EXPRESSION_COMPOUND_ASSIGN_SUB \<Rightarrow> EXPRESSION_BINARY_SUBTRACT
      | EXPRESSION_COMPOUND_ASSIGN_MUL \<Rightarrow> EXPRESSION_BINARY_MULTIPLY
      | EXPRESSION_COMPOUND_ASSIGN_DIV \<Rightarrow> EXPRESSION_BINARY_DIVIDE
      | EXPRESSION_COMPOUND_ASSIGN_REM \<Rightarrow> EXPRESSION_BINARY_REMAINDER
      | EXPRESSION_COMPOUND_ASSIGN_AND \<Rightarrow> EXPRESSION_BITWISE_AND
      | EXPRESSION_COMPOUND_ASSIGN_OR \<Rightarrow> EXPRESSION_BITWISE_OR
      | EXPRESSION_COMPOUND_ASSIGN_XOR \<Rightarrow> EXPRESSION_BITWISE_XOR
      | EXPRESSION_COMPOUND_ASSIGN_SL \<Rightarrow> EXPRESSION_BITWISE_SHIFT_LEFT
      | EXPRESSION_COMPOUND_ASSIGN_SR \<Rightarrow> EXPRESSION_BITWISE_SHIFT_RIGHT)"

definition sema_compound_assignment :: "ast \<Rightarrow> ast result" where
  "sema_compound_assignment a =
     (case a of
        Op_binary (Infix_compound c) l r t \<Rightarrow>
          Inr (Op_binary (Infix_binary EXPRESSION_VARIABLE_ASSIGNMENT) l
                (Op_binary (Infix_binary (compound_operator c)) (NODE_SHARED l) r (ctype_copy t)) t)
      | _ \<Rightarrow> Inr a)"

definition sema_subscript :: "ast \<Rightarrow> ast result" where
  "sema_subscript a =
     (case a of
        Op_binary EXPRESSION_SUBSCRIPT l r t \<Rightarrow>
          Inr (Op_unary (Prefix EXPRESSION_UNARY_DEREFERENCE)
                (Op_binary (Infix_binary EXPRESSION_BINARY_ADD) l r (ctype_copy t)) t)
      | _ \<Rightarrow> Inr a)"

section \<open>String literals\<close>

text \<open>\<^verbatim>\<open>(int)lit->data[i]\<close>: \<^verbatim>\<open>char\<close> is signed.\<close>

definition signed_char :: "char \<Rightarrow> int" where
  "signed_char c = (let n = int (code c) in if n > 127 then n - 256 else n)"

definition char_initializer :: "int \<Rightarrow> ast" where
  "char_initializer n =
     NODE_EXPRESSION_INITIALIZER (Some (NODE_CONSTANT (Num n) (CTYPE_INT False))) [] (CTYPE_INT False)"

text \<open>A capacity of \<open>None\<close> is \<^verbatim>\<open>SIZE_MAX\<close>, more than the length of any literal.\<close>

definition sema_str_literal_expand :: "string \<Rightarrow> nat option \<Rightarrow> ast list" where
  "sema_str_literal_expand lit capacity =
     map (\<lambda>c. char_initializer (signed_char c)) lit @
     (if (case capacity of None \<Rightarrow> True | Some n \<Rightarrow> length lit < n) then [char_initializer 0] else [])"

text \<open>The literal as a symbol of the table, and the variable that stands for it.\<close>

definition str_literal_symbol :: "symbol list \<Rightarrow> ctype \<Rightarrow> constant_initializer \<Rightarrow> symbol list" where
  "str_literal_symbol s array_type init =
     (case symbols_prepend s [] SYMBOL_STRING_LITERAL array_type of
        [] \<Rightarrow> []
      | x # xs \<Rightarrow>
          x\<lparr>unique := if unique x = 0 then 4096 else unique x,
            sym_linkage := (sym_linkage x)\<lparr>initial := INITIAL_VALUE_CONSTANT, initializer := init\<rparr>\<rparr> # xs)"

definition sema_str_literal_hoist :: "ctype \<Rightarrow> ast list \<Rightarrow> symbol list \<Rightarrow> (ast \<times> symbol list) result" where
  "sema_str_literal_hoist vtype els s =
     check (referent_of vtype) (\<lambda>r.
     assert_that (ctype_is_charlike r \<and> els \<noteq> [])
      (check (map_numeric_type (NODE_EXPRESSION_INITIALIZER None els ctype_zero)
                (CTYPE_ARRAY_OF (maybe_null_pointer_constant vtype) r 0)) (\<lambda>init.
       let array_type = CTYPE_ARRAY_OF (maybe_null_pointer_constant vtype) r (of_nat (length init));
           s = str_literal_symbol s array_type init
       in Inr (NODE_EXPRESSION_VARIABLE_USAGE
                 \<lparr>as_name = [], as_unique = unique (hd s), as_stype = SYMBOL_STRING_LITERAL,
                  as_ltype = SYMBOL_LINKAGE_INTERNAL\<rparr> array_type, s))))"

definition str_literal_capacity :: "ctype \<Rightarrow> nat option" where
  "str_literal_capacity c = (case c of CTYPE_ARRAY_OF _ _ n \<Rightarrow> Some (unat n) | _ \<Rightarrow> None)"

text \<open>
  A literal in an initializer: expanded, and hoisted when it initializes a pointer. The
  budget is the depth of the initializer, to which the expansion adds one.
\<close>

definition init_expanded :: "ctype \<Rightarrow> ast \<Rightarrow> (bool \<times> ast option \<times> ast list \<times> ctype) result" where
  "init_expanded declaration_type init =
     (case init of
        NODE_EXPRESSION_INITIALIZER sg mu t \<Rightarrow>
          (case sg of
             Some (NODE_CONSTANT_STR str _) \<Rightarrow>
               if \<not> ctype_is_strlike_ptr declaration_type \<and> \<not> ctype_is_strlike_array declaration_type
               then make_result_t (Sema ERR_SEMA_INIT_STR_LITERAL_INVALID)
               else
                 assert_that (mu = [])
                   (Inr (True, None, sema_str_literal_expand str (str_literal_capacity declaration_type), t))
           | _ \<Rightarrow> Inr (False, sg, mu, t))
      | _ \<Rightarrow> Inl Abort)"

fun as_init_list :: "(ast \<Rightarrow> symbol list \<Rightarrow> (ast \<times> symbol list) result) \<Rightarrow>
    ast list \<Rightarrow> symbol list \<Rightarrow> (ast list \<times> symbol list) result" where
  "as_init_list rec [] s = Inr ([], s)"
| "as_init_list rec (car # cdr) s =
     check (rec car s) (\<lambda>(a, s). check (as_init_list rec cdr s) (\<lambda>(as, s). Inr (a # as, s)))"

fun sema_str_literal_as_init ::
  "nat \<Rightarrow> ctype \<Rightarrow> ast \<Rightarrow> symbol list \<Rightarrow> (ast \<times> symbol list) result" where
  "sema_str_literal_as_init 0 declaration_type init symbols = Inl NoFuel"
| "sema_str_literal_as_init (Suc n) declaration_type init symbols =
     check (init_expanded declaration_type init) (\<lambda>(expanded, sg, mu, t).
     if ctype_is_strlike_ptr declaration_type \<and> mu \<noteq> [] then
       if \<not> expanded then make_result_t (Sema ERR_SEMA_INIT_SCALAR_WITH_COMPOUND)
       else
         check (sema_str_literal_hoist declaration_type mu symbols) (\<lambda>(new_node, symbols).
         Inr (NODE_EXPRESSION_INITIALIZER (Some new_node) [] t, symbols))
     else if mu \<noteq> [] \<and> \<not> ctype_is_pointer declaration_type then
       make_result_t (Sema ERR_SEMA_INIT_SCALAR_WITH_COMPOUND)
     else if mu = [] then Inr (NODE_EXPRESSION_INITIALIZER sg mu t, symbols)
     else
       check (referent_of declaration_type) (\<lambda>r.
       check (as_init_list (sema_str_literal_as_init n r) mu symbols) (\<lambda>(mu, symbols).
       Inr (NODE_EXPRESSION_INITIALIZER sg mu t, symbols))))"

definition sema_str_literal :: "symbol list sema_op" where
  "sema_str_literal toplevel a symbols =
     (case a of
        NODE_CONSTANT_STR str t \<Rightarrow>
          sema_str_literal_hoist t (sema_str_literal_expand str None) symbols
      | NODE_DECLARATION i sp vt (Some init) t \<Rightarrow>
          check (sema_str_literal_as_init (size init + 2) vt init symbols) (\<lambda>(init, symbols).
          Inr (NODE_DECLARATION i sp vt (Some init) t, symbols))
      | _ \<Rightarrow> Inr (a, symbols))"

section \<open>Names, labels and calls\<close>

definition sema_var_usage :: "ast \<Rightarrow> unit result" where
  "sema_var_usage a =
     (case a of
        NODE_EXPRESSION_VARIABLE_USAGE v t \<Rightarrow>
          if as_stype v = SYMBOL_FUNCTION_DECLARATION \<or> as_stype v = SYMBOL_FUNCTION_DEFINITION
          then make_result_tss (Sema_operand ERR_SEMA_VARIABLE_DECLARATION_INVALID_FUNC) (as_name v)
          else Inr ()
      | _ \<Rightarrow> Inr ())"

definition label_location_name :: "ast \<Rightarrow> string option" where
  "label_location_name a =
     (case a of
        NODE_LABEL name n \<Rightarrow> Some name
      | NODE_CASE c n \<Rightarrow> Some ''<case>''
      | NODE_CASE_DEFAULT n \<Rightarrow> Some ''<case>''
      | _ \<Rightarrow> None)"

definition is_declaration :: "ast \<Rightarrow> bool" where
  "is_declaration a = (case a of NODE_DECLARATION _ _ _ _ _ \<Rightarrow> True | _ \<Rightarrow> False)"

fun label_locations :: "ast list \<Rightarrow> unit result" where
  "label_locations [] = Inr ()"
| "label_locations (car # cdr) =
     (case label_location_name car of
        None \<Rightarrow> label_locations cdr
      | Some name \<Rightarrow>
          (case cdr of
             [] \<Rightarrow> make_result_tss (Sema ERR_SEMA_LABEL_AT_BLOCK_END) name
           | next # _ \<Rightarrow>
               if is_declaration next
               then make_result_tss (Sema ERR_SEMA_LABEL_FOLLOWED_BY_DECLARATION) name
               else label_locations cdr))"

definition sema_label_locations :: "ast \<Rightarrow> unit result" where
  "sema_label_locations a = (case a of NODE_BLOCK items \<Rightarrow> label_locations items | _ \<Rightarrow> Inr ())"

definition sema_fn_call :: "ast \<Rightarrow> unit result" where
  "sema_fn_call a =
     (case a of
        NODE_EXPRESSION_FUNCTION_CALL f args t \<Rightarrow>
          if as_stype f = SYMBOL_VARIABLE
          then make_result_tss (Sema ERR_SEMA_FUNCTION_CALL_UNCALLABLE) (as_name f)
          else Inr ()
      | _ \<Rightarrow> Inr ())"

section \<open>Types of initializers\<close>

definition null_constant :: ast where
  "null_constant = NODE_CONSTANT (Num 0) (CTYPE_INT True)"

definition pad_element :: "ctype \<Rightarrow> ast" where
  "pad_element r = NODE_EXPRESSION_INITIALIZER None [] (ctype_copy r)"

text \<open>
  An array is filled up to its size, and every element in the same way; elements past the
  size stay as they are. A scalar without a value gets zero.
\<close>

fun zero_pad_all :: "(ast \<Rightarrow> ast result) \<Rightarrow> ast list \<Rightarrow> ast list result" where
  "zero_pad_all pad [] = Inr []"
| "zero_pad_all pad (car # cdr) =
     check (pad car) (\<lambda>a. check (zero_pad_all pad cdr) (\<lambda>as. Inr (a # as)))"

fun sema_expr_types_initializer_zero_pad :: "ctype \<Rightarrow> ast \<Rightarrow> ast result" where
  "sema_expr_types_initializer_zero_pad (CTYPE_ARRAY_OF b r n) init =
     (case init of
        NODE_EXPRESSION_INITIALIZER sg mu t \<Rightarrow>
          (case sg of
             Some s \<Rightarrow> assert_that (ctype_is_strlike_array (expr_type s)) (Inr init)
           | None \<Rightarrow>
               check (zero_pad_all (sema_expr_types_initializer_zero_pad r)
                        (take (unat n) mu @ replicate (unat n - length mu) (pad_element r))) (\<lambda>els.
               Inr (NODE_EXPRESSION_INITIALIZER None (els @ drop (unat n) mu) t)))
      | _ \<Rightarrow> Inl Abort)"
| "sema_expr_types_initializer_zero_pad c init =
     (case init of
        NODE_EXPRESSION_INITIALIZER sg mu t \<Rightarrow>
          Inr (if sg = None then NODE_EXPRESSION_INITIALIZER (Some null_constant) mu (CTYPE_INT True) else init)
      | _ \<Rightarrow> Inl Abort)"

text \<open>\<^verbatim>\<open>sz\<close> of a type that is not an array is zero.\<close>

definition ctype_sz :: "ctype \<Rightarrow> u64" where
  "ctype_sz c = (case c of CTYPE_ARRAY_OF _ _ n \<Rightarrow> n | _ \<Rightarrow> 0)"

fun sema_expr_types_initializer :: "string \<Rightarrow> ctype \<Rightarrow> ast \<Rightarrow> ast result"
  and expr_types_initializers :: "string \<Rightarrow> ctype \<Rightarrow> ast list \<Rightarrow> ast list result" where
  "sema_expr_types_initializer varname declaration_type (NODE_EXPRESSION_INITIALIZER (Some s) mu t) =
     Inr (NODE_EXPRESSION_INITIALIZER (Some s) mu (ctype_copy (expr_type s)))"
| "sema_expr_types_initializer varname declaration_type (NODE_EXPRESSION_INITIALIZER None mu t) =
     (if \<not> ctype_is_pointer declaration_type then make_result_t (Sema ERR_SEMA_INIT_SCALAR_WITH_COMPOUND)
      else
        assert_that (\<not> ctype_is_strlike_ptr declaration_type)
         (check (referent_of declaration_type) (\<lambda>r.
          check (expr_types_initializers varname r mu) (\<lambda>mu.
          if mu = [] then make_result_t (Sema ERR_SEMA_INIT_COMPOUND_EMPTY)
          else if of_nat (length mu) > ctype_sz declaration_type then
            make_result_tss (Sema ERR_SEMA_INIT_COMPOUND_EXCESS_ELEMENTS) varname
          else
            sema_expr_types_initializer_zero_pad declaration_type
              (NODE_EXPRESSION_INITIALIZER None mu (ctype_copy declaration_type))))))"
| "sema_expr_types_initializer varname declaration_type a = Inl Abort"
| "expr_types_initializers varname r [] = Inr []"
| "expr_types_initializers varname r (car # cdr) =
     check (sema_expr_types_initializer varname r car) (\<lambda>a.
     check (expr_types_initializers varname r cdr) (\<lambda>as. Inr (a # as)))"

section \<open>Types of expressions\<close>

definition is_comparison :: "infix_binary \<Rightarrow> bool" where
  "is_comparison b \<longleftrightarrow>
     b \<in> {EXPRESSION_COMPARE_EQUAL, EXPRESSION_COMPARE_NOT_EQUAL, EXPRESSION_COMPARE_LESS_THAN,
       EXPRESSION_COMPARE_LESS_THAN_EQ, EXPRESSION_COMPARE_MORE_THAN, EXPRESSION_COMPARE_MORE_THAN_EQ}"

definition is_logical :: "infix_binary \<Rightarrow> bool" where
  "is_logical b \<longleftrightarrow> b \<in> {EXPRESSION_LOGICAL_AND, EXPRESSION_LOGICAL_OR}"

definition is_shift :: "infix_binary \<Rightarrow> bool" where
  "is_shift b \<longleftrightarrow> b \<in> {EXPRESSION_BITWISE_SHIFT_LEFT, EXPRESSION_BITWISE_SHIFT_RIGHT}"

definition unary_types :: "unary_node \<Rightarrow> ast \<Rightarrow> ctype \<Rightarrow> ast result" where
  "unary_types u e t =
     (if u = Prefix EXPRESSION_UNARY_NEGATE \<or> u = Prefix EXPRESSION_UNARY_COMPLEMENT then
        let e = promote_if_char e in Inr (Op_unary u e (ctype_copy (expr_type e)))
      else if u = Prefix EXPRESSION_UNARY_NOT then Inr (Op_unary u e (set_t_int t))
      else if u = Prefix EXPRESSION_UNARY_SIZE_OF then Inr (Op_unary u e (ctype_copy LIKE_SIZE_T))
      else if u = Prefix EXPRESSION_UNARY_DEREFERENCE then
        if \<not> ctype_is_pointer (expr_type e) then make_result_t (Sema_operand ERR_SEMA_OPERAND_DEREF_INVALID)
        else Inr (Op_unary u e (ctype_copy (referent (expr_type e))))
      else if u = Prefix EXPRESSION_UNARY_ADDRESS_OF then
        assert_that (referent_opt t = None)
          (Inr (Op_unary u e (CTYPE_POINTER_TO (maybe_null_pointer_constant t) (ctype_copy (expr_type e)))))
      else Inr (Op_unary u e (ctype_copy (expr_type e))))"

definition binary_types :: "infix_binary \<Rightarrow> ast \<Rightarrow> ast \<Rightarrow> ctype \<Rightarrow> ast" where
  "binary_types b l r t =
     (let op = Op_binary (Infix_binary b); pl = promote_if_char l; pr = promote_if_char r in
      if is_comparison b then op pl pr (set_t_int t)
      else if is_logical b then op l r (set_t_int t)
      else if b = EXPRESSION_VARIABLE_ASSIGNMENT then op l r (ctype_copy (expr_type l))
      else if is_shift b then op pl pr (ctype_copy (expr_type pl))
      else if b = EXPRESSION_BINARY_SUBTRACT \<and> ctype_is_pointer (expr_type pl) \<and> ctype_is_pointer (expr_type pr)
      then op pl pr (ctype_copy LIKE_PTRDIFF_T)
      else op pl pr (ctype_copy (get_common_ctype (expr_type pl) (expr_type pr))))"

definition sema_expr_types :: "ast \<Rightarrow> ast result" where
  "sema_expr_types a =
     (case a of
        NODE_DECLARATION i sp vt (Some init) t \<Rightarrow>
          check (sema_expr_types_initializer (as_name i) vt init) (\<lambda>init.
          Inr (NODE_DECLARATION i sp vt (Some init) t))
      | NODE_SWITCH c bd ld le cs \<Rightarrow> Inr (NODE_SWITCH (promote_if_char c) bd ld le cs)
      | Op_unary u e t \<Rightarrow> unary_types u e t
      | Op_binary (Infix_binary b) l r t \<Rightarrow> Inr (binary_types b l r t)
      | Op_binary (Infix_compound c) l r t \<Rightarrow> Inl Abort
      | Op_binary EXPRESSION_SUBSCRIPT l r t \<Rightarrow> Inl Abort
      | Op_ternary c x y t \<Rightarrow>
          Inr (Op_ternary c x y (ctype_copy (get_common_ctype (expr_type x) (expr_type y))))
      | NODE_EXPRESSION_CAST ty e t \<Rightarrow> Inr (NODE_EXPRESSION_CAST ty e (ctype_copy ty))
      | NODE_CONSTANT_STR str t \<Rightarrow> Inl Abort
      | _ \<Rightarrow> Inr a)"

end
