(* ===== verification/SemaChecks.thy ===== *)
theory SemaChecks
  imports SemaTypes IrGen
begin

text \<open>
  \<^verbatim>\<open>src/passes/sema.c\<close>, the checks on typed expressions and the implicit conversions.
\<close>

section \<open>Left-hand sides, scalars, incomplete types and doubles\<close>

definition lvalue_check :: "bool \<Rightarrow> ast \<Rightarrow> unit result" where
  "lvalue_check allow_array to_check =
     (if \<not> is_node_lvalue to_check then
        make_result_t (Sema_operand ERR_SEMA_VARIABLE_DECLARATION_BAD_LVALUE)
      else if \<not> allow_array \<and> ctype_is_array (expr_type to_check) then
        make_result_t (Sema_operand ERR_SEMA_VARIABLE_DECLARATION_BAD_LVALUE_ARRAY)
      else Inr ())"

definition sema_lvalue :: "ast \<Rightarrow> unit result" where
  "sema_lvalue a =
     (case a of
        Op_binary b l r t \<Rightarrow> if b = ASSIGN then lvalue_check False l else Inr ()
      | Op_unary u e t \<Rightarrow>
          if incr_decr_node u then lvalue_check False e
          else if u = ADDRESS_OF then lvalue_check True e
          else Inr ()
      | _ \<Rightarrow> Inr ())"

definition is_scalar :: "ctype \<Rightarrow> bool" where "is_scalar c = (\<not> ctype_is_void c)"

definition require_scalar :: "bool \<Rightarrow> unit result" where
  "require_scalar scalar =
     (if \<not> scalar then make_result_t (Sema_operand ERR_SEMA_OPERAND_SCALAR_REQUIRED) else Inr ())"

definition scalar_or_null :: "ast \<Rightarrow> bool" where
  "scalar_or_null a = (is_null_expr a \<or> is_scalar (expr_type a))"

definition sema_non_scalar :: "ast \<Rightarrow> unit result" where
  "sema_non_scalar a =
     (case a of
        NODE_IF_ELSE c th el \<Rightarrow> require_scalar (is_scalar (expr_type c))
      | NODE_LOOP pc bd inc qc le lc ls \<Rightarrow> require_scalar (scalar_or_null pc \<and> scalar_or_null qc)
      | NODE_SWITCH c bd ld le cs \<Rightarrow> require_scalar (is_scalar (expr_type c))
      | NODE_CASE c n \<Rightarrow> require_scalar (is_scalar (expr_type c))
      | Op_unary u e t \<Rightarrow>
          if incr_decr_node u then assert_that (is_scalar (expr_type e)) (Inr ())
          else if u = EXPRESSION_PAREN_ENCLOSED \<or> u = Prefix EXPRESSION_UNARY_SIZE_OF then Inr ()
          else require_scalar (is_scalar (expr_type e))
      | Op_binary (Infix_binary b) l r t \<Rightarrow>
          if b = EXPRESSION_VARIABLE_ASSIGNMENT then
            assert_that (is_scalar (expr_type l)) (require_scalar (is_scalar (expr_type r)))
          else require_scalar (is_scalar (expr_type l) \<and> is_scalar (expr_type r))
      | Op_ternary c x y t \<Rightarrow>
          require_scalar (is_scalar (expr_type c) \<and> is_scalar (expr_type x) = is_scalar (expr_type y))
      | NODE_EXPRESSION_CAST ty e t \<Rightarrow>
          if ctype_is_array ty then make_result_t (Sema ERR_SEMA_CAST_TO_ARRAY_TYPE_INVALID)
          else require_scalar (is_scalar ty \<longrightarrow> is_scalar (expr_type e))
      | _ \<Rightarrow> Inr ())"

definition sema_incomplete_types :: "ast \<Rightarrow> unit result" where
  "sema_incomplete_types a =
     (case a of
        Op_unary u e t \<Rightarrow>
          if u = Prefix EXPRESSION_UNARY_SIZE_OF then
            assert_that (ctype_is_equal t LIKE_SIZE_T)
              (if ctype_is_incomplete (expr_type e)
               then make_result_t (Sema_operand ERR_SEMA_OPERAND_SIZEOF_INCOMPLETE)
               else Inr ())
          else Inr ()
      | _ \<Rightarrow> Inr ())"

definition double_or_else :: "bool \<Rightarrow> unit result" where
  "double_or_else valid =
     (if \<not> valid then make_result_t (Sema_operand ERR_SEMA_OPERAND_DOUBLE_INVALID) else Inr ())"

definition double_with_pointer :: "ctype \<Rightarrow> ctype \<Rightarrow> bool" where
  "double_with_pointer c d =
     (ctype_is_floating_point c \<and> ctype_is_pointer d \<or> ctype_is_floating_point d \<and> ctype_is_pointer c)"

definition integer_only :: "infix_binary \<Rightarrow> bool" where
  "integer_only b \<longleftrightarrow>
     b \<in> {EXPRESSION_BINARY_REMAINDER, EXPRESSION_BITWISE_AND, EXPRESSION_BITWISE_OR, EXPRESSION_BITWISE_XOR,
       EXPRESSION_BITWISE_SHIFT_LEFT, EXPRESSION_BITWISE_SHIFT_RIGHT}"

definition is_additive :: "infix_binary \<Rightarrow> bool" where
  "is_additive b \<longleftrightarrow> b \<in> {EXPRESSION_BINARY_ADD, EXPRESSION_BINARY_SUBTRACT}"

definition sema_double :: "ast \<Rightarrow> unit result" where
  "sema_double a =
     (case a of
        NODE_SWITCH c bd ld le cs \<Rightarrow> double_or_else (\<not> ctype_is_floating_point (expr_type c))
      | NODE_CASE c n \<Rightarrow> double_or_else (\<not> ctype_is_floating_point (expr_type c))
      | Op_unary u e t \<Rightarrow>
          double_or_else (\<not> (u = Prefix EXPRESSION_UNARY_COMPLEMENT \<and> ctype_is_floating_point t))
      | Op_binary (Infix_binary b) l r t \<Rightarrow>
          double_or_else
            (\<not> (integer_only b \<and> (ctype_is_floating_point (expr_type l) \<or> ctype_is_floating_point (expr_type r))) \<and>
             \<not> (is_additive b \<and> double_with_pointer (expr_type l) (expr_type r)))
      | NODE_EXPRESSION_CAST ty e t \<Rightarrow> double_or_else (\<not> double_with_pointer ty (expr_type e))
      | _ \<Rightarrow> Inr ())"

section \<open>Pointers\<close>

text \<open>The two flags: zero as a null pointer, and \<^verbatim>\<open>void *\<close> as any pointer.\<close>

definition sema_pointer_cmp_impl :: "bool \<Rightarrow> bool \<Rightarrow> ctype \<Rightarrow> ctype \<Rightarrow> unit result" where
  "sema_pointer_cmp_impl ish void_ptr_as_any_ptr lty rty =
     (if ctype_is_equal lty rty then Inr ()
      else if ctype_is_strlike_array lty \<and> ctype_is_strlike_array rty then
        if ctype_sz lty < ctype_sz rty - 1
        then make_result_t (Sema_operand ERR_SEMA_OPERAND_CHAR_ARRAY_SIZE) else Inr ()
      else if ctype_is_pointer lty \<and> ctype_is_pointer rty then
        if void_ptr_as_any_ptr \<and> (ctype_is_void_ptr lty \<or> ctype_is_void_ptr rty) then Inr ()
        else make_result_t (Sema_operand ERR_SEMA_OPERAND_POINTER_CONFLICT)
      else if ctype_is_pointer lty \<and> (\<not> ish \<or> \<not> ctype_nullptr_ish rty) then
        make_result_t (Sema_operand ERR_SEMA_OPERAND_POINTER_LHS_VS_NOT_RHS)
      else if ctype_is_pointer rty \<and> (\<not> ish \<or> \<not> ctype_nullptr_ish lty) then
        make_result_t (Sema_operand ERR_SEMA_OPERAND_POINTER_RHS_VS_NOT_LHS)
      else Inr ())"

definition sema_pointer_cmp :: "ctype \<Rightarrow> ctype \<Rightarrow> unit result" where
  "sema_pointer_cmp lty rty = sema_pointer_cmp_impl True True lty rty"

definition sema_pointer_cmp_ptr_math :: "bool \<Rightarrow> ctype \<Rightarrow> ctype \<Rightarrow> ctype \<Rightarrow> unit result" where
  "sema_pointer_cmp_ptr_math add l r t =
     (if add then
        if \<not> ctype_is_pointer l \<and> \<not> ctype_is_pointer r then Inr ()
        else if ctype_is_pointer l \<and> ctype_is_pointer r then
          make_result_t (Sema_operand ERR_SEMA_OPERAND_ADD_POINTER_BOTH)
        else if ctype_is_ptr_to_incomplete l \<or> ctype_is_ptr_to_incomplete r then
          make_result_t (Sema_operand ERR_SEMA_OPERAND_ADD_POINTER_VOID)
        else Inr ()
      else
        if ctype_is_ptr_to_incomplete l \<or> ctype_is_ptr_to_incomplete r then
          make_result_t (Sema_operand ERR_SEMA_OPERAND_ADD_POINTER_VOID)
        else if ctype_is_pointer l \<and> ctype_is_integer r then assert_that (ctype_is_equal t l) (Inr ())
        else sema_pointer_cmp_impl False False l r)"

definition no_pointer :: "bool \<Rightarrow> unit result" where
  "no_pointer b = (if b then make_result_t (Sema_operand ERR_SEMA_OPERAND_POINTER_INVALID) else Inr ())"

definition pointer_unary :: "unary_node \<Rightarrow> ctype \<Rightarrow> unit result" where
  "pointer_unary u c =
     (if u = Prefix EXPRESSION_UNARY_COMPLEMENT \<or> u = Prefix EXPRESSION_UNARY_NEGATE then no_pointer (ctype_is_pointer c)
      else if u = DEREFERENCE then
        if ctype_is_void_ptr c then make_result_t (Sema_operand ERR_SEMA_OPERAND_DEREF_VOID_PTR) else Inr ()
      else if incr_decr_node u \<and> ctype_is_ptr_to_incomplete c then
        make_result_t (Sema_operand ERR_SEMA_OPERAND_ADD_POINTER_VOID)
      else Inr ())"

definition pointer_binary :: "infix_binary \<Rightarrow> ctype \<Rightarrow> ctype \<Rightarrow> ctype \<Rightarrow> unit result" where
  "pointer_binary b l r t =
     (if is_additive b then sema_pointer_cmp_ptr_math (b = EXPRESSION_BINARY_ADD) l r t
      else if b = EXPRESSION_COMPARE_EQUAL \<or> b = EXPRESSION_COMPARE_NOT_EQUAL then sema_pointer_cmp l r
      else if is_comparison b then sema_pointer_cmp_impl False False l r
      else if b = EXPRESSION_BINARY_MULTIPLY \<or> b = EXPRESSION_BINARY_DIVIDE \<or> integer_only b then
        no_pointer (ctype_is_pointer l \<or> ctype_is_pointer r)
      else if b = EXPRESSION_VARIABLE_ASSIGNMENT then sema_pointer_cmp l r
      else Inr ())"

text \<open>The state is \<^verbatim>\<open>expected_return_type\<close>.\<close>

definition sema_pointer :: "ctype sema_op" where
  "sema_pointer toplevel a expected_return_type =
     (let ok = (\<lambda>m. check m (\<lambda>_. Inr (a, expected_return_type))) in
      case a of
        NODE_FUNCTION i sp rt ps block \<Rightarrow>
          Inr (a, if block = None then expected_return_type else ctype_copy rt)
      | NODE_FUNCTION_RETURN_STATEMENT e \<Rightarrow> ok (sema_pointer_cmp expected_return_type (expr_type e))
      | NODE_DECLARATION i sp vt (Some init) t \<Rightarrow>
          ok (sema_pointer_cmp_impl (\<not> ctype_is_array vt) True vt (expr_type init))
      | NODE_SWITCH c bd ld le cs \<Rightarrow> ok (no_pointer (ctype_is_pointer (expr_type c)))
      | NODE_CASE c n \<Rightarrow> ok (no_pointer (ctype_is_pointer (expr_type c)))
      | Op_unary u e t \<Rightarrow> ok (pointer_unary u (expr_type e))
      | Op_binary (Infix_binary b) l r t \<Rightarrow> ok (pointer_binary b (expr_type l) (expr_type r) t)
      | Op_ternary c x y t \<Rightarrow> ok (sema_pointer_cmp (expr_type x) (expr_type y))
      | _ \<Rightarrow> Inr (a, expected_return_type))"

section \<open>Implicit conversions\<close>

fun sema_implicit_cast_initializer :: "ctype \<Rightarrow> ast \<Rightarrow> ast result"
  and implicit_cast_initializers :: "ctype \<Rightarrow> ast list \<Rightarrow> ast list result" where
  "sema_implicit_cast_initializer expected_type (NODE_EXPRESSION_INITIALIZER (Some s) mu t) =
     check (sema_pointer_cmp expected_type t) (\<lambda>_.
     Inr (cast_if expected_type (NODE_EXPRESSION_INITIALIZER (Some s) mu t)))"
| "sema_implicit_cast_initializer expected_type (NODE_EXPRESSION_INITIALIZER None mu t) =
     assert_that (mu \<noteq> [] \<and> ctype_is_array expected_type \<and> ctype_is_array t)
      (check (referent_of expected_type) (\<lambda>r.
       check (implicit_cast_initializers r mu) (\<lambda>mu.
       Inr (NODE_EXPRESSION_INITIALIZER None mu t))))"
| "sema_implicit_cast_initializer expected_type a = Inl Abort"
| "implicit_cast_initializers r [] = Inr []"
| "implicit_cast_initializers r (car # cdr) =
     check (sema_implicit_cast_initializer r car) (\<lambda>a.
     check (implicit_cast_initializers r cdr) (\<lambda>as. Inr (a # as)))"

definition implicit_cast_binary :: "infix_binary \<Rightarrow> ast \<Rightarrow> ast \<Rightarrow> ctype \<Rightarrow> ast" where
  "implicit_cast_binary b l r t =
     (let op = Op_binary (Infix_binary b); lt = expr_type l; rt = expr_type r;
          common = get_common_ctype lt rt in
      if is_shift b \<or> b = EXPRESSION_VARIABLE_ASSIGNMENT then op l (cast_if lt r) t
      else if is_additive b \<and>
          (ctype_is_pointer lt \<and> ctype_is_integer rt \<or> ctype_is_integer lt \<and> ctype_is_pointer rt) then
        if ctype_is_integer lt then op (cast_if LIKE_PTRDIFF_T l) r t else op l (cast_if LIKE_PTRDIFF_T r) t
      else op (cast_if common l) (cast_if common r) t)"

definition sema_implicit_cast :: "ctype sema_op" where
  "sema_implicit_cast toplevel a expected_return_type =
     (case a of
        NODE_FUNCTION i sp rt ps block \<Rightarrow> Inr (a, ctype_copy rt)
      | NODE_FUNCTION_RETURN_STATEMENT e \<Rightarrow>
          if ctype_is_void expected_return_type \<noteq> ctype_is_void (expr_type e) then
            if ctype_is_void expected_return_type
            then make_result_t (Sema ERR_SEMA_RETURN_STATEMENT_EXPECT_VOID)
            else make_result_t (Sema ERR_SEMA_RETURN_STATEMENT_EXPECT_VALUE)
          else Inr (NODE_FUNCTION_RETURN_STATEMENT (cast_if expected_return_type e), expected_return_type)
      | NODE_DECLARATION i sp vt (Some init) t \<Rightarrow>
          check (sema_implicit_cast_initializer vt init) (\<lambda>init.
          Inr (NODE_DECLARATION i sp vt (Some init) t, expected_return_type))
      | Op_binary (Infix_binary b) l r t \<Rightarrow> Inr (implicit_cast_binary b l r t, expected_return_type)
      | Op_ternary c x y t \<Rightarrow>
          let common = get_common_ctype (expr_type x) (expr_type y)
          in Inr (Op_ternary c (cast_if common x) (cast_if common y) t, expected_return_type)
      | _ \<Rightarrow> Inr (a, expected_return_type))"

end
