(* ===== verification/SemaLabels.thy ===== *)
theory SemaLabels
  imports SemaWalk
begin

text \<open>
  \<^verbatim>\<open>src/passes/sema.c\<close>, labels: of loops and switches, whose statements \<^verbatim>\<open>break\<close>,
  \<^verbatim>\<open>continue\<close>, \<^verbatim>\<open>case\<close> and \<^verbatim>\<open>default\<close> find their container on a stack, and of \<^verbatim>\<open>goto\<close>.

  \<^verbatim>\<open>state->container\<close> points to the nodes of the containers, which a \<^verbatim>\<open>case\<close> writes to. The
  stack of the model (innermost first) holds those fields, and they are put into the node of
  the \<^verbatim>\<open>switch\<close> when it is left.
\<close>

section \<open>Loops and switches\<close>

definition BLOCK_NESTING_LIMIT :: nat where "BLOCK_NESTING_LIMIT = 128"
definition UNSET_DEFAULT_CASE_SENTINEL :: int where "UNSET_DEFAULT_CASE_SENTINEL = -100"

datatype containing_statement =
    CONTAINING_LOOP (loop_end: int) (loop_continue: int)
  | CONTAINING_SWITCH (switch_type: ctype) (switch_end: int) (switch_default: int) (switch_cases: "ast list")

record sema_label_loops_state =
  loop_generator :: int
  container :: "containing_statement list"

fun innermost_loop :: "containing_statement list \<Rightarrow> int option" where
  "innermost_loop [] = None"
| "innermost_loop (CONTAINING_LOOP le lc # cs) = Some lc"
| "innermost_loop (CONTAINING_SWITCH ct le ld ks # cs) = innermost_loop cs"

text \<open>Apply a change to the innermost switch, if there is one.\<close>

fun in_innermost_switch ::
  "(ctype \<Rightarrow> int \<Rightarrow> int \<Rightarrow> ast list \<Rightarrow> containing_statement result) \<Rightarrow>
   containing_statement list \<Rightarrow> containing_statement list result option" where
  "in_innermost_switch f [] = None"
| "in_innermost_switch f (CONTAINING_LOOP le lc # cs) =
     map_option (\<lambda>m. check m (\<lambda>cs. Inr (CONTAINING_LOOP le lc # cs))) (in_innermost_switch f cs)"
| "in_innermost_switch f (CONTAINING_SWITCH ct le ld ks # cs) =
     Some (check (f ct le ld ks) (\<lambda>c. Inr (c # cs)))"

definition break_target :: "containing_statement \<Rightarrow> int" where
  "break_target c = (case c of CONTAINING_LOOP le lc \<Rightarrow> le | CONTAINING_SWITCH ct le ld ks \<Rightarrow> le)"

definition push_container :: "containing_statement \<Rightarrow> sema_label_loops_state \<Rightarrow> sema_label_loops_state" where
  "push_container c state = state\<lparr>container := c # container state\<rparr>"

definition sema_enter_loop_id :: "sema_label_loops_state sema_op" where
  "sema_enter_loop_id toplevel a state =
     (let g = loop_generator state in
      case a of
        NODE_FUNCTION i sp rt ps block \<Rightarrow> assert_that (container state = []) (Inr (a, state))
      | NODE_LOOP pc bd inc qc le lc ls \<Rightarrow>
          assert_that (length (container state) < BLOCK_NESTING_LIMIT)
            (Inr (NODE_LOOP pc bd inc qc (g + 2) (g + 1) g,
              push_container (CONTAINING_LOOP (g + 2) (g + 1)) (state\<lparr>loop_generator := g + 3\<rparr>)))
      | NODE_BREAK n \<Rightarrow>
          (case container state of
             [] \<Rightarrow> make_result_t (Sema ERR_SEMA_BREAK_OUTSIDE)
           | c # _ \<Rightarrow> Inr (NODE_BREAK (break_target c), state))
      | NODE_CONTINUE n \<Rightarrow>
          (case innermost_loop (container state) of
             None \<Rightarrow> make_result_t (Sema ERR_SEMA_CONTINUE_OUTSIDE)
           | Some lc \<Rightarrow> Inr (NODE_CONTINUE lc, state))
      | NODE_SWITCH c bd ld le cs \<Rightarrow>
          assert_that (length (container state) < BLOCK_NESTING_LIMIT)
            (Inr (NODE_SWITCH c bd UNSET_DEFAULT_CASE_SENTINEL g cs,
              push_container (CONTAINING_SWITCH (expr_type c) g UNSET_DEFAULT_CASE_SENTINEL cs)
                (state\<lparr>loop_generator := g + 1\<rparr>)))
      | NODE_CASE c n \<Rightarrow>
          (case in_innermost_switch
              (\<lambda>ct le ld ks. check (case_prepend ct ks (NODE_CASE c g)) (\<lambda>ks. Inr (CONTAINING_SWITCH ct le ld ks)))
              (container state) of
             None \<Rightarrow> make_result_t (Sema ERR_SEMA_CASE_OUTSIDE)
           | Some m \<Rightarrow>
               check m (\<lambda>cs. Inr (NODE_CASE c g, state\<lparr>loop_generator := g + 1, container := cs\<rparr>)))
      | NODE_CASE_DEFAULT n \<Rightarrow>
          (case in_innermost_switch
              (\<lambda>ct le ld ks.
                 if ld \<noteq> UNSET_DEFAULT_CASE_SENTINEL then make_result_t (Sema ERR_SEMA_CASE_DEFAULT_DUPLICATE)
                 else Inr (CONTAINING_SWITCH ct le g ks))
              (container state) of
             None \<Rightarrow> make_result_t (Sema ERR_SEMA_CASE_DEFAULT_OUTSIDE)
           | Some m \<Rightarrow>
               check m (\<lambda>cs. Inr (NODE_CASE_DEFAULT g, state\<lparr>loop_generator := g + 1, container := cs\<rparr>)))
      | _ \<Rightarrow> Inr (a, state))"

definition sema_exit_loop_id :: "sema_label_loops_state sema_op" where
  "sema_exit_loop_id toplevel a state =
     (let pop = state\<lparr>container := tl (container state)\<rparr> in
      case a of
        NODE_LOOP pc bd inc qc le lc ls \<Rightarrow> assert_that (container state \<noteq> []) (Inr (a, pop))
      | NODE_SWITCH c bd ld le cs \<Rightarrow>
          (case container state of
             CONTAINING_SWITCH ct le ld ks # _ \<Rightarrow> Inr (NODE_SWITCH c bd ld le ks, pop)
           | _ \<Rightarrow> Inl Abort)
      | NODE_FUNCTION i sp rt ps block \<Rightarrow> assert_that (container state = []) (Inr (a, state))
      | _ \<Rightarrow> Inr (a, state))"

definition sema_label_loops :: "ast list \<Rightarrow> int \<Rightarrow> (ast list \<times> int) result" where
  "sema_label_loops gs generator =
     check (sema_walk_program \<lparr>node_enter = sema_enter_loop_id, node_exit = sema_exit_loop_id\<rparr> gs
              \<lparr>loop_generator = generator, container = []\<rparr>) (\<lambda>(gs, state).
     Inr (gs, loop_generator state))"

section \<open>Labels and gotos\<close>

record label =
  label_name :: string
  label_id :: int
  used_as_label :: bool
  used_as_goto_target :: bool

record sema_label_gotos_state =
  goto_generator :: int
  labels :: "label list"

fun labels_get :: "label list \<Rightarrow> string \<Rightarrow> label option" where
  "labels_get [] name = None"
| "labels_get (i # next) name = (if label_name i = name then Some i else labels_get next name)"

definition labels_prepend :: "string \<Rightarrow> sema_label_gotos_state \<Rightarrow> label \<times> sema_label_gotos_state" where
  "labels_prepend name state =
     (case labels_get (labels state) name of
        Some i \<Rightarrow> (i, state)
      | None \<Rightarrow>
          let node = \<lparr>label_name = name, label_id = goto_generator state + 1, used_as_label = False,
                used_as_goto_target = False\<rparr>
          in (node, state\<lparr>goto_generator := goto_generator state + 1, labels := node # labels state\<rparr>))"

text \<open>A change of the node with the name, which is the first with it.\<close>

fun labels_mark :: "string \<Rightarrow> (label \<Rightarrow> label) \<Rightarrow> label list \<Rightarrow> label list" where
  "labels_mark name f [] = []"
| "labels_mark name f (i # next) =
     (if label_name i = name then f i # next else i # labels_mark name f next)"

definition sema_enter_goto_id :: "sema_label_gotos_state sema_op" where
  "sema_enter_goto_id toplevel a state =
     (case a of
        NODE_FUNCTION i sp rt ps block \<Rightarrow> assert_that (labels state = []) (Inr (a, state))
      | NODE_GOTO name n \<Rightarrow>
          assert_that (name \<noteq> [])
           (case labels_prepend name state of (i, state) \<Rightarrow>
            Inr (NODE_GOTO name (label_id i),
              state\<lparr>labels := labels_mark name (\<lambda>i. i\<lparr>used_as_goto_target := True\<rparr>) (labels state)\<rparr>))
      | NODE_LABEL name n \<Rightarrow>
          assert_that (name \<noteq> [])
           (case labels_prepend name state of (i, state) \<Rightarrow>
            if used_as_label i then make_result_tss (Sema ERR_SEMA_LABEL_DUPLICATE) (label_name i)
            else
              Inr (NODE_LABEL name (label_id i),
                state\<lparr>labels := labels_mark name (\<lambda>i. i\<lparr>used_as_label := True\<rparr>) (labels state)\<rparr>))
      | _ \<Rightarrow> Inr (a, state))"

definition missing_label :: "label list \<Rightarrow> label option" where
  "missing_label ls = find (\<lambda>i. used_as_goto_target i \<and> \<not> used_as_label i) ls"

definition sema_exit_goto_id :: "sema_label_gotos_state sema_op" where
  "sema_exit_goto_id toplevel a state =
     (case a of
        NODE_FUNCTION i sp rt ps block \<Rightarrow>
          (case missing_label (labels state) of
             Some i \<Rightarrow> make_result_tss (Sema ERR_SEMA_GOTO_NONEXISTENT_LABEL) (label_name i)
           | None \<Rightarrow> Inr (a, state\<lparr>labels := []\<rparr>))
      | _ \<Rightarrow> Inr (a, state))"

definition sema_label_gotos :: "ast list \<Rightarrow> int \<Rightarrow> (ast list \<times> int) result" where
  "sema_label_gotos gs generator =
     check (sema_walk_program \<lparr>node_enter = sema_enter_goto_id, node_exit = sema_exit_goto_id\<rparr> gs
              \<lparr>goto_generator = generator, labels = []\<rparr>) (\<lambda>(gs, state).
     Inr (gs, goto_generator state))"

end
