(* ===== verification/Sema.thy ===== *)
theory Sema
  imports SemaChecks SemaLabels
begin

text \<open>
  \<^verbatim>\<open>src/passes/sema.c\<close>, functions and variables with linkage, and the pass as a whole.

  \<^verbatim>\<open>auxiliary\<close>, what only this pass knows of a symbol, is the second half of a pair. A symbol
  that a routine changes through a pointer is changed in the list, where it is the first
  with its name and scope, or the first with its ID.
\<close>

section \<open>Symbols of the pass\<close>

datatype symbol_declaration_scope = SCOPE_BLOCK | SCOPE_FILE

record sema_symbol_auxiliary =
  n_args :: nat
  p_types :: "ctype list"
  dscope :: symbol_declaration_scope

type_synonym sema_symbol = "symbol \<times> sema_symbol_auxiliary option"

record sema_symbol_state =
  function_symbols :: "sema_symbol list"
  variable_symbols :: "sema_symbol list"

definition sema_get_auxiliary :: "sema_symbol \<Rightarrow> sema_symbol_auxiliary result" where
  "sema_get_auxiliary s = (case snd s of None \<Rightarrow> Inl Abort | Some x \<Rightarrow> Inr x)"

definition sema_prepend :: "string \<Rightarrow> symbol_type \<Rightarrow> ctype \<Rightarrow> sema_symbol_auxiliary \<Rightarrow>
    sema_symbol list \<Rightarrow> sema_symbol list" where
  "sema_prepend name st c aux ss = (hd (symbols_prepend (map fst ss) name st c), Some aux) # ss"

fun sema_get :: "sema_symbol list \<Rightarrow> string \<Rightarrow> sema_symbol option" where
  "sema_get [] name = None"
| "sema_get (s # ss) name = (if sym_name (fst s) = name then Some s else sema_get ss name)"

section \<open>Function signatures\<close>

text \<open>The first parameter whose name a later one has too.\<close>

fun sema_fn_param_names :: "ast_parameter list \<Rightarrow> unit result" where
  "sema_fn_param_names [] = Inr ()"
| "sema_fn_param_names (i # js) =
     (if \<exists>j \<in> set js. as_name (p_symbol j) = as_name (p_symbol i)
      then make_result_tss (Sema ERR_SEMA_FUNCTION_DEFINITION_PARAM_DUPLICATE) (as_name (p_symbol i))
      else sema_fn_param_names js)"

text \<open>What a declaration, a definition or a call says of a function.\<close>

record fn_view =
  fname :: string
  fn_return :: ctype
  fn_types :: "ctype list"
  is_def :: bool
  is_def_or_decl :: bool
  fn_link :: symbol_linkage
  has_specifier_static :: bool

definition sema_fn_decl_collect ::
  "ast_symbol \<Rightarrow> ast_specifier \<Rightarrow> ctype \<Rightarrow> ast_parameter list \<Rightarrow> bool \<Rightarrow> fn_view result" where
  "sema_fn_decl_collect identifier specifier ret_type params has_block =
     (if ctype_is_array ret_type
      then make_result_tss (Sema ERR_SEMA_FUNCTION_RETURN_TYPE_ARRAY) (as_name identifier)
      else
        (let ps = foreach_function_parameter params in
         check (sema_fn_param_names ps) (\<lambda>_.
         Inr \<lparr>fname = as_name identifier, fn_return = ctype_copy ret_type,
              fn_types = map (\<lambda>p. ctype_array_decay_to_pointer (ctype_copy (parameter_type p))) ps,
              is_def = has_block, is_def_or_decl = True,
              fn_link = (if specifier \<noteq> SPECIFIER_STATIC then SYMBOL_LINKAGE_EXTERNAL else SYMBOL_LINKAGE_INTERNAL),
              has_specifier_static = (specifier = SPECIFIER_STATIC)\<rparr>)))"

definition sema_fn_call_collect :: "ast_symbol \<Rightarrow> ast list \<Rightarrow> fn_view" where
  "sema_fn_call_collect identifier args =
     \<lparr>fname = as_name identifier, fn_return = ctype_zero,
      fn_types = map (\<lambda>a. ctype_copy (expr_type a)) args, is_def = False, is_def_or_decl = False,
      fn_link = SYMBOL_LINKAGE_EXTERNAL, has_specifier_static = False\<rparr>"

text \<open>
  The types of parameters against the ones declared. In a call the first argument that is
  wider than its parameter ends the comparison.
\<close>

fun fn_signature_loop :: "bool \<Rightarrow> ctype list \<Rightarrow> ctype list \<Rightarrow> bool result" where
  "fn_signature_loop def_or_decl (declared # ds) (given # gs) =
     (if def_or_decl then
        if ctype_is_equal given declared then fn_signature_loop def_or_decl ds gs else Inr False
      else
        check (sema_pointer_cmp declared given) (\<lambda>_.
        if ctype_is_equal (get_common_ctype declared given) declared
        then fn_signature_loop def_or_decl ds gs else Inr False))"
| "fn_signature_loop def_or_decl ds gs = Inr True"

definition sema_fn_signature_matches :: "sema_symbol \<Rightarrow> ctype list \<Rightarrow> bool \<Rightarrow> unit result" where
  "sema_fn_signature_matches dup types def_or_decl =
     check (sema_get_auxiliary dup) (\<lambda>x.
     check (fn_signature_loop def_or_decl (p_types x) types) (\<lambda>p_types_match.
     if def_or_decl \<and> \<not> p_types_match
     then make_result_tss (Sema ERR_SEMA_FUNCTION_DEFINITION_CONFLICT) (sym_name (fst dup))
     else Inr ()))"

definition fn_allowed :: "bool \<Rightarrow> fn_view \<Rightarrow> unit result" where
  "fn_allowed toplevel v =
     (if is_def v \<and> \<not> toplevel
      then make_result_tss (Sema ERR_SEMA_FUNCTION_DEFINITION_NESTED) (fname v)
      else if \<not> is_def v \<and> is_def_or_decl v \<and> has_specifier_static v \<and> \<not> toplevel
      then make_result_tss (Sema ERR_SEMA_FUNCTION_LINKAGE_BLOCK_SCOPE) (fname v)
      else Inr ())"

definition fn_conflicts :: "fn_view \<Rightarrow> sema_symbol \<Rightarrow> unit result" where
  "fn_conflicts v dup =
     (let name = sym_name (fst dup) in
      if is_def v \<and> stype (fst dup) = SYMBOL_FUNCTION_DEFINITION
      then make_result_tss (Sema ERR_SEMA_FUNCTION_DEFINITION_DUPLICATE) name
      else if is_def_or_decl v \<and> has_specifier_static v \<and> is_external (linkage (sym_linkage (fst dup)))
      then make_result_tss (Sema ERR_SEMA_FUNCTION_LINKAGE_CONFLICT) name
      else if is_def_or_decl v \<and> \<not> ctype_is_equal (fn_return v) (c89type (fst dup))
      then make_result_tss (Sema ERR_SEMA_FUNCTION_DEFINITION_CONFLICT) name
      else
        check (sema_get_auxiliary dup) (\<lambda>x.
        if length (fn_types v) \<noteq> n_args x
        then make_result_tss
               (Sema (if is_def_or_decl v then ERR_SEMA_FUNCTION_DEFINITION_CONFLICT
                      else ERR_SEMA_FUNCTION_CALL_WRONG_NUMBER_OF_ARGS)) name
        else Inr ()))"

text \<open>The symbol of the function, if it has one, after the checks; otherwise a new one.\<close>

definition fn_resolve :: "bool \<Rightarrow> fn_view \<Rightarrow> sema_symbol_state \<Rightarrow> (sema_symbol option \<times> sema_symbol_state) result" where
  "fn_resolve toplevel v state =
     check (fn_allowed toplevel v) (\<lambda>_.
     case sema_get (function_symbols state) (fname v) of
       None \<Rightarrow>
         assert_that (is_def_or_decl v)
          (let st = (if is_def v then SYMBOL_FUNCTION_DEFINITION else SYMBOL_FUNCTION_DECLARATION);
               ss = sema_prepend (fname v) st (fn_return v)
                 \<lparr>n_args = length (fn_types v), p_types = fn_types v, dscope = SCOPE_BLOCK\<rparr> (function_symbols state);
               s = fst (hd ss)
           in Inr (None, state\<lparr>function_symbols :=
                (s\<lparr>sym_linkage := (sym_linkage s)\<lparr>linkage := fn_link v\<rparr>\<rparr>, snd (hd ss)) # tl ss\<rparr>))
     | Some dup \<Rightarrow>
         check (fn_conflicts v dup) (\<lambda>_.
         check (sema_fn_signature_matches dup (fn_types v) (is_def_or_decl v)) (\<lambda>_.
         Inr (Some dup, state))))"

definition cast_arguments :: "ctype list \<Rightarrow> ast list \<Rightarrow> ast list" where
  "cast_arguments expected args =
     map2 (\<lambda>t a. if ctype_is_equal (expr_type a) t then a else cast_if t a) expected args @
     drop (length expected) args"

definition sema_fn_signature :: "sema_symbol_state sema_op" where
  "sema_fn_signature toplevel a state =
     (case a of
        NODE_FUNCTION i sp rt ps block \<Rightarrow>
          check (sema_fn_decl_collect i sp rt ps (block \<noteq> None)) (\<lambda>v.
          check (fn_resolve toplevel v state) (\<lambda>(_, state). Inr (a, state)))
      | NODE_EXPRESSION_FUNCTION_CALL f args t \<Rightarrow>
          check (fn_resolve toplevel (sema_fn_call_collect f args) state) (\<lambda>(dup, state).
          case dup of
            None \<Rightarrow> Inr (a, state)
          | Some dup \<Rightarrow>
              check (sema_get_auxiliary dup) (\<lambda>x.
              Inr (NODE_EXPRESSION_FUNCTION_CALL f (cast_arguments (p_types x) args) t, state)))
      | _ \<Rightarrow> Inr (a, state))"

section \<open>Variables with linkage\<close>

fun symbols_get_scoped :: "sema_symbol list \<Rightarrow> string \<Rightarrow> symbol_declaration_scope \<Rightarrow> sema_symbol option result" where
  "symbols_get_scoped [] name ds = Inr None"
| "symbols_get_scoped (s # ss) name ds =
     (if sym_name (fst s) = name then
        check (sema_get_auxiliary s) (\<lambda>x. if dscope x = ds then Inr (Some s) else symbols_get_scoped ss name ds)
      else symbols_get_scoped ss name ds)"

fun update_scoped :: "(symbol \<Rightarrow> symbol) \<Rightarrow> sema_symbol list \<Rightarrow> string \<Rightarrow> symbol_declaration_scope \<Rightarrow> sema_symbol list" where
  "update_scoped f [] name ds = []"
| "update_scoped f (s # ss) name ds =
     (if sym_name (fst s) = name \<and> (case snd s of Some x \<Rightarrow> dscope x = ds | None \<Rightarrow> False)
      then (f (fst s), snd s) # ss else s # update_scoped f ss name ds)"

definition no_linkage :: symbol_linkage_state where
  "no_linkage = \<lparr>linkage = SYMBOL_LINKAGE_NONE, initial = INITIAL_VALUE_NO_INITIALIZER, initializer = []\<rparr>"

fun initial_rank :: "initial_value \<Rightarrow> nat" where
  "initial_rank INITIAL_VALUE_NO_INITIALIZER = 0"
| "initial_rank INITIAL_VALUE_TENTATIVE = 1"
| "initial_rank INITIAL_VALUE_CONSTANT = 2"

definition initial_max :: "initial_value \<Rightarrow> initial_value \<Rightarrow> initial_value" where
  "initial_max x y = (if initial_rank x > initial_rank y then x else y)"

text \<open>The initial value that a declaration at file scope asks for, and what is left of the initializer.\<close>

definition file_scope_initial ::
  "string \<Rightarrow> ast_specifier \<Rightarrow> ctype \<Rightarrow> ast option \<Rightarrow> (initial_value \<times> constant_initializer) result" where
  "file_scope_initial name specifier vtype init =
     (case init of
        Some e \<Rightarrow>
          check (is_node_constant e) (\<lambda>b.
          if b then check (map_numeric_type e vtype) (\<lambda>ci. Inr (INITIAL_VALUE_CONSTANT, ci))
          else make_result_tss (Sema_operand ERR_SEMA_VARIABLE_DECLARATION_FILESCOPE_INIT) name)
      | None \<Rightarrow>
          Inr (if specifier = SPECIFIER_EXTERN then INITIAL_VALUE_NO_INITIALIZER else INITIAL_VALUE_TENTATIVE, []))"

definition function_collision :: "sema_symbol_state \<Rightarrow> string \<Rightarrow> err_sema_operand \<Rightarrow> unit result" where
  "function_collision state name e =
     (case sema_get (function_symbols state) name of
        None \<Rightarrow> Inr ()
      | Some s \<Rightarrow> assert_that (stype (fst s) \<noteq> SYMBOL_VARIABLE) (make_result_tss (Sema_operand e) name))"

text \<open>The result: the symbol declared before, the linkage, and the initializer left in the tree.\<close>

definition sema_declare_file_scope ::
  "string \<Rightarrow> ast_specifier \<Rightarrow> ctype \<Rightarrow> ast option \<Rightarrow> sema_symbol_state \<Rightarrow>
   (sema_symbol option \<times> symbol_linkage_state \<times> ast option) result" where
  "sema_declare_file_scope name specifier vtype init state =
     check (file_scope_initial name specifier vtype init) (\<lambda>(value, ci).
     check (function_collision state name ERR_SEMA_VARIABLE_DECLARATION_FILESCOPE_MISMATCH) (\<lambda>_.
     check (symbols_get_scoped (variable_symbols state) name SCOPE_FILE) (\<lambda>dup.
     let link = (if specifier \<noteq> SPECIFIER_STATIC then SYMBOL_LINKAGE_EXTERNAL else SYMBOL_LINKAGE_INTERNAL)
     in case dup of
          None \<Rightarrow> Inr (None, \<lparr>linkage = link, initial = value, initializer = ci\<rparr>, None)
        | Some d \<Rightarrow>
            let old = sym_linkage (fst d) in
            if specifier \<noteq> SPECIFIER_EXTERN \<and> link \<noteq> linkage old
            then make_result_tss (Sema_operand ERR_SEMA_VARIABLE_DECLARATION_FILESCOPE_LINKAGE) name
            else if initial old = INITIAL_VALUE_CONSTANT \<and> value = INITIAL_VALUE_CONSTANT
            then make_result_tss (Sema_operand ERR_SEMA_VARIABLE_DECLARATION_FILESCOPE_DUPLICATE) name
            else
              Inr (dup, \<lparr>linkage = if specifier = SPECIFIER_EXTERN then linkage old else link,
                initial = initial_max value (initial old),
                initializer = if initial old = INITIAL_VALUE_CONSTANT then initializer old else ci\<rparr>, None))))"

definition sema_declare_block_scope ::
  "string \<Rightarrow> ast_specifier \<Rightarrow> ctype \<Rightarrow> ast option \<Rightarrow> sema_symbol_state \<Rightarrow>
   (sema_symbol option \<times> symbol_linkage_state \<times> ast option) result" where
  "sema_declare_block_scope name specifier vtype init state =
     (case specifier of
        SPECIFIER_EXTERN \<Rightarrow>
          if init \<noteq> None then make_result_tss (Sema_operand ERR_SEMA_VARIABLE_DECLARATION_EXTERN_INIT) name
          else
            check (function_collision state name ERR_SEMA_VARIABLE_DECLARATION_EXTERN_MISMATCH) (\<lambda>_.
            check (symbols_get_scoped (variable_symbols state) name SCOPE_FILE) (\<lambda>dup.
            Inr (dup, case dup of Some d \<Rightarrow> sym_linkage (fst d)
                      | None \<Rightarrow> no_linkage\<lparr>linkage := SYMBOL_LINKAGE_EXTERNAL\<rparr>, init)))
      | SPECIFIER_STATIC \<Rightarrow>
          check
            (case init of
               None \<Rightarrow> constant_set_zero vtype
             | Some e \<Rightarrow>
                 check (is_node_constant e) (\<lambda>b.
                 if b then map_numeric_type e vtype
                 else make_result_tss (Sema_operand ERR_SEMA_VARIABLE_DECLARATION_STATIC_INIT) name)) (\<lambda>ci.
          Inr (None, \<lparr>linkage = SYMBOL_LINKAGE_INTERNAL, initial = INITIAL_VALUE_CONSTANT, initializer = ci\<rparr>, None))
      | SPECIFIER_NONE \<Rightarrow> Inr (None, no_linkage, init))"

definition sema_declare_apply ::
  "ast_symbol \<Rightarrow> ast_specifier \<Rightarrow> ctype \<Rightarrow> ast option \<Rightarrow> ctype \<Rightarrow> symbol_declaration_scope \<Rightarrow>
   sema_symbol_state \<Rightarrow> (ast \<times> sema_symbol_state) result" where
  "sema_declare_apply identifier specifier vtype init t ds state =
     (let name = as_name identifier in
      check (case ds of SCOPE_BLOCK \<Rightarrow> sema_declare_block_scope name specifier vtype init state
             | SCOPE_FILE \<Rightarrow> sema_declare_file_scope name specifier vtype init state) (\<lambda>(dup, ls, init).
      let set = (\<lambda>s. s\<lparr>unique := as_unique identifier, sym_linkage := ls\<rparr>);
          a = NODE_DECLARATION (identifier\<lparr>as_ltype := linkage ls\<rparr>) specifier vtype init t
      in case dup of
           None \<Rightarrow>
             let ss = sema_prepend name SYMBOL_VARIABLE vtype
                   \<lparr>n_args = 0, p_types = [], dscope = if linkage ls = SYMBOL_LINKAGE_EXTERNAL then SCOPE_FILE else ds\<rparr>
                   (variable_symbols state)
             in Inr (a, state\<lparr>variable_symbols := (set (fst (hd ss)), snd (hd ss)) # tl ss\<rparr>)
         | Some d \<Rightarrow>
             if \<not> ctype_is_equal vtype (c89type (fst d))
             then make_result_tss (Sema_operand ERR_SEMA_VARIABLE_DECLARATION_TYPE_CONFLICT) (sym_name (fst d))
             else Inr (a, state\<lparr>variable_symbols := update_scoped set (variable_symbols state) name SCOPE_FILE\<rparr>)))"

definition sema_propagate_linkage_from_declare_to_usage :: "ast_symbol \<Rightarrow> sema_symbol_state \<Rightarrow> ast_symbol" where
  "sema_propagate_linkage_from_declare_to_usage v state =
     (case symbols_get_unique (map fst (variable_symbols state)) (as_unique v) of
        None \<Rightarrow> v
      | Some s \<Rightarrow> v\<lparr>as_ltype := linkage (sym_linkage s)\<rparr>)"

definition sema_get_linkage_from_declarations :: "sema_symbol_state sema_op" where
  "sema_get_linkage_from_declarations toplevel a state =
     (case a of
        NODE_DECLARATION i sp vt init t \<Rightarrow>
          sema_declare_apply i sp vt init t (if toplevel then SCOPE_FILE else SCOPE_BLOCK) state
      | NODE_EXPRESSION_VARIABLE_USAGE v t \<Rightarrow>
          Inr (NODE_EXPRESSION_VARIABLE_USAGE (sema_propagate_linkage_from_declare_to_usage v state) t, state)
      | _ \<Rightarrow> Inr (a, state))"

fun update_unique :: "(symbol \<Rightarrow> symbol) \<Rightarrow> sema_symbol list \<Rightarrow> int \<Rightarrow> sema_symbol list" where
  "update_unique f [] u = []"
| "update_unique f (s # ss) u =
     (if unique (fst s) = u then (f (fst s), snd s) # ss else s # update_unique f ss u)"

definition sema_mangle_internal_linkage_names :: "sema_symbol_state sema_op" where
  "sema_mangle_internal_linkage_names toplevel a state =
     (case a of
        NODE_DECLARATION i sp vt init t \<Rightarrow>
          (case symbols_get_unique (map fst (variable_symbols state)) (as_unique i) of
             None \<Rightarrow> Inr (a, state)
           | Some v \<Rightarrow>
               if \<not> is_internal (linkage (sym_linkage v)) then Inr (a, state)
               else
                 let w = (if is_mangled v then v else mangle_name v)
                 in Inr (NODE_DECLARATION (i\<lparr>as_name := sym_name w\<rparr>) sp vt init t,
                      state\<lparr>variable_symbols := update_unique (\<lambda>_. w) (variable_symbols state) (as_unique i)\<rparr>))
      | NODE_EXPRESSION_VARIABLE_USAGE v t \<Rightarrow>
          (case symbols_get_unique (map fst (variable_symbols state)) (as_unique v) of
             None \<Rightarrow> Inr (a, state)
           | Some s \<Rightarrow>
               Inr (if is_internal (linkage (sym_linkage s))
                    then NODE_EXPRESSION_VARIABLE_USAGE (v\<lparr>as_name := sym_name s\<rparr>) t else a, state))
      | _ \<Rightarrow> Inr (a, state))"

section \<open>The pass\<close>

text \<open>The passes up to the types of expressions, those that check them, and the conversions.\<close>

definition sema_expand :: "ast list \<Rightarrow> symbol list \<Rightarrow> (ast list \<times> symbol list) result" where
  "sema_expand gs string_literals =
     check (plain_pass (enter_with (rewrite_op sema_compound_assignment)) gs) (\<lambda>gs.
     check (plain_pass (enter_with (rewrite_op sema_subscript)) gs) (\<lambda>gs.
     sema_walk_program (enter_with sema_str_literal) gs string_literals))"

definition sema_check_names :: "ast list \<Rightarrow> ast list result" where
  "sema_check_names gs =
     check (plain_pass (enter_with (check_op sema_var_usage)) gs) (\<lambda>gs.
     check (plain_pass (enter_with (check_op sema_label_locations)) gs) (\<lambda>gs.
     plain_pass (enter_with (check_op sema_fn_call)) gs))"

definition sema_type_expressions :: "ast list \<Rightarrow> ast list result" where
  "sema_type_expressions gs =
     check (plain_pass (exit_with (rewrite_op sema_expr_types)) gs) (\<lambda>gs.
     check (plain_pass (enter_with (check_op sema_lvalue)) gs) (\<lambda>gs.
     check (plain_pass (enter_with (check_op sema_non_scalar)) gs) (\<lambda>gs.
     check (plain_pass (enter_with (check_op sema_incomplete_types)) gs) (\<lambda>gs.
     check (plain_pass (enter_with (check_op sema_double)) gs) (\<lambda>gs.
     check (sema_walk_program (enter_with sema_pointer) gs ctype_zero) (\<lambda>(gs, _).
     check (sema_walk_program (enter_with sema_implicit_cast) gs ctype_zero) (\<lambda>(gs, _).
     Inr gs)))))))"

definition sema_symbols :: "ast list \<Rightarrow> sema_symbol_state \<Rightarrow> (ast list \<times> sema_symbol_state) result" where
  "sema_symbols gs state =
     check (sema_walk_program (enter_with sema_fn_signature) gs state) (\<lambda>(gs, state).
     check (sema_walk_program (enter_with sema_get_linkage_from_declarations) gs state) (\<lambda>(gs, state).
     sema_walk_program (enter_with sema_mangle_internal_linkage_names) gs state))"

definition sema_typecheck ::
  "program \<Rightarrow> int \<Rightarrow> symbol_table \<Rightarrow> (program \<times> int \<times> symbol_table) result" where
  "sema_typecheck p label_generator s =
     check (sema_expand (globals p) (symbol_string_literals s)) (\<lambda>(gs, string_literals).
     check (sema_check_names gs) (\<lambda>gs.
     check (sema_type_expressions gs) (\<lambda>gs.
     check (sema_label_loops gs label_generator) (\<lambda>(gs, label_generator).
     check (sema_label_gotos gs label_generator) (\<lambda>(gs, label_generator).
     check (sema_symbols gs
              \<lparr>function_symbols = map (\<lambda>x. (x, None)) (symbol_functions s),
               variable_symbols = map (\<lambda>x. (x, None)) (symbol_variables s)\<rparr>) (\<lambda>(gs, state).
     Inr (NODE_PROGRAM gs, label_generator,
       \<lparr>symbol_functions = map fst (function_symbols state),
        symbol_variables = map fst (variable_symbols state),
        symbol_string_literals = string_literals\<rparr>)))))))"

end
