(* ===== verification/Compile.thy ===== *)
theory Compile
  imports Sema Resolve Backend
begin

text \<open>
  \<^verbatim>\<open>main.c\<close>: the driver. The contents of the source file (\<open>[]\<close> when it cannot be read) and
  what \<^verbatim>\<open>open()\<close> makes of the destination (\<open>Some errno\<close> when it fails) are arguments, and
  the assembly that is written, if any, is the result. The debug output of the passes is left
  out.
\<close>

datatype compiler_action =
    ACTION_ALL_PASSES
  | ACTION_LEX
  | ACTION_LEX_PARSE
  | ACTION_LEX_PARSE_SEMA
  | ACTION_LEX_PARSE_SEMA_IR
  | ACTION_LEX_PARSE_SEMA_IR_ASM
  | ACTION_USAGE_HELP
  | ACTION_USAGE_ERROR

text \<open>The number of an action, by which the source compares them.\<close>

fun action_rank :: "compiler_action \<Rightarrow> nat" where
  "action_rank ACTION_ALL_PASSES = 0"
| "action_rank ACTION_LEX = 1"
| "action_rank ACTION_LEX_PARSE = 2"
| "action_rank ACTION_LEX_PARSE_SEMA = 3"
| "action_rank ACTION_LEX_PARSE_SEMA_IR = 4"
| "action_rank ACTION_LEX_PARSE_SEMA_IR_ASM = 5"
| "action_rank ACTION_USAGE_HELP = 6"
| "action_rank ACTION_USAGE_ERROR = 7"

lemma action_rank_inj: "action_rank a = action_rank b \<Longrightarrow> a = b"
  by (cases a; cases b) simp_all

instantiation compiler_action :: linorder
begin

definition less_eq_compiler_action :: "compiler_action \<Rightarrow> compiler_action \<Rightarrow> bool" where
  "less_eq_compiler_action a b \<longleftrightarrow> action_rank a \<le> action_rank b"

definition less_compiler_action :: "compiler_action \<Rightarrow> compiler_action \<Rightarrow> bool" where
  "less_compiler_action a b \<longleftrightarrow> action_rank a < action_rank b"

instance
  by standard (auto simp: less_eq_compiler_action_def less_compiler_action_def intro: action_rank_inj)

end

text \<open>\<^verbatim>\<open>action != ACTION_ALL_PASSES && action < stop\<close>\<close>

definition stops_before :: "compiler_action \<Rightarrow> compiler_action \<Rightarrow> bool" where
  "stops_before action stop = (action \<noteq> ACTION_ALL_PASSES \<and> action < stop)"

definition empty_symbol_table :: symbol_table where
  "empty_symbol_table = \<lparr>symbol_functions = [], symbol_variables = [], symbol_string_literals = []\<rparr>"

definition compile_front :: "program \<Rightarrow> int \<Rightarrow> (program \<times> int \<times> int \<times> symbol_table) result" where
  "compile_front a id_generator =
     check (sema_typecheck a 0 empty_symbol_table) (\<lambda>(a, label_generator, from_sema).
     Inr (a, id_generator + 1, label_generator + 1, from_sema))"

definition write_asm :: "assembly \<Rightarrow> platform \<Rightarrow> int option \<Rightarrow> string option result" where
  "write_asm cg plat dst =
     (case dst of
        Some e \<Rightarrow> make_result_ti (Other ERR_EMIT_FILE_OPEN) e
      | None \<Rightarrow> check (emit_asm (Some cg) plat) (\<lambda>s. Inr (Some s)))"

definition compile_codegen ::
  "intermediate \<Rightarrow> platform \<Rightarrow> int option \<Rightarrow> compiler_action \<Rightarrow> string option result" where
  "compile_codegen ir plat dst action =
     check (codegen_init ir) (\<lambda>cg.
     check (codegen_replace_pseudo cg) (\<lambda>cg.
     check (codegen_fixup_instructions cg) (\<lambda>cg.
     if action \<noteq> ACTION_ALL_PASSES then Inr None else write_asm cg plat dst)))"

definition compile :: "string \<Rightarrow> platform \<Rightarrow> int option \<Rightarrow> compiler_action \<Rightarrow> string option result" where
  "compile src plat dst action =
     check (lex_init src) (\<lambda>tok.
     if stops_before action ACTION_LEX_PARSE then Inr None
     else
       let skip_sema = stops_before action ACTION_LEX_PARSE_SEMA in
       check (parse_init tok (if skip_sema then None else Some 0)) (\<lambda>(a, id_generator).
       case id_generator of
         None \<Rightarrow> Inr None
       | Some id_generator \<Rightarrow>
           check (compile_front a id_generator) (\<lambda>(a, base_id, base_label, from_sema).
           if stops_before action ACTION_LEX_PARSE_SEMA_IR then Inr None
           else
             check (ir_init a base_id base_label from_sema) (\<lambda>ir.
             if stops_before action ACTION_LEX_PARSE_SEMA_IR_ASM then Inr None
             else compile_codegen ir plat dst action))))"

section \<open>The command line\<close>

text \<open>The options as \<^verbatim>\<open>getopt_long()\<close> reports them; any other character is one it does not know.\<close>

definition option_action :: "char \<Rightarrow> compiler_action" where
  "option_action opt =
     (if opt = CHR ''a'' then ACTION_ALL_PASSES
      else if opt = CHR ''c'' then ACTION_LEX_PARSE_SEMA_IR_ASM
      else if opt = CHR ''h'' then ACTION_USAGE_HELP
      else if opt = CHR ''l'' then ACTION_LEX
      else if opt = CHR ''p'' then ACTION_LEX_PARSE
      else if opt = CHR ''t'' then ACTION_LEX_PARSE_SEMA_IR
      else if opt = CHR ''v'' then ACTION_LEX_PARSE_SEMA
      else ACTION_USAGE_ERROR)"

definition chosen_action :: "string \<Rightarrow> compiler_action" where
  "chosen_action opts = foldl (\<lambda>action opt. max action (option_action opt)) ACTION_ALL_PASSES opts"

definition EX_OK :: int where "EX_OK = 0"
definition EX_USAGE :: int where "EX_USAGE = 64"
definition EX_SOFTWARE :: int where "EX_SOFTWARE = 70"

text \<open>A failed assertion ends the process, which then has no status of its own.\<close>

definition result_to_status :: "'a result \<Rightarrow> int option" where
  "result_to_status r =
     (case r of Inr _ \<Rightarrow> Some EX_OK | Inl (Error _ _ _) \<Rightarrow> Some EX_SOFTWARE | Inl _ \<Rightarrow> None)"

definition main_status :: "string \<Rightarrow> string list \<Rightarrow> (compiler_action \<Rightarrow> string option result) \<Rightarrow> int option" where
  "main_status opts args run =
     (let action = chosen_action opts in
      if action = ACTION_USAGE_HELP then Some EX_OK
      else if action = ACTION_USAGE_ERROR then Some EX_USAGE
      else if length args < 2 then Some EX_USAGE
      else result_to_status (run action))"

end
