(* ===== verification/Spec2Isabelle.thy ===== *)
theory Spec2Isabelle
  imports FrontProps BackProps FixupProps ParseProps EmitProps SelectProps IrProps Compile
begin

text \<open>
  A verification development for enqcc, a compiler from a subset of C to x86-64 assembly.

  The compiler is a pipeline of passes over one translation unit: \<^verbatim>\<open>lex.c\<close> turns the text
  into tokens, \<^verbatim>\<open>parse.c\<close> and \<^verbatim>\<open>parse/\<close> into a syntax tree with resolved identifiers,
  \<^verbatim>\<open>sema.c\<close> checks and annotates it, \<^verbatim>\<open>ir.c\<close> makes three-address code, \<^verbatim>\<open>codegen.c\<close> selects
  instructions, lays out the stack frame and replaces what the processor cannot execute,
  and \<^verbatim>\<open>emit.c\<close> prints assembly. Every pass returns a \<^verbatim>\<open>result_t\<close>. The C types of \<^verbatim>\<open>lang/types.c\<close>
  and the symbol table of \<^verbatim>\<open>lang/symbol.c\<close> are shared by all of them.

  Conventions. An error is \<open>Inl (Error ...)\<close>, a failed assertion \<open>Inl Abort\<close>; an allocation
  succeeds. What the source writes through a pointer is returned; a list that it walks with a
  pointer is the list from there on. Recursion that is not on the structure of its argument
  has a budget, and running out of it is \<open>Inl NoFuel\<close>: one more than the tokens left in the
  parser, twice that in blocks and statements, the size of the tree in \<^verbatim>\<open>ir.c\<close>, and four times
  the size of the tree in a pass of \<^verbatim>\<open>sema.c\<close>, whose rewriting deepens the tree. The parser
  and the translation are proved never to run out.

  \<^item> \<open>Prelude\<close>, \<open>Result\<close>, \<open>Decimal\<close>: lists, results (\<^verbatim>\<open>result.h\<close>), numbers as text.
  \<^item> \<open>CTypes\<close> (\<^verbatim>\<open>types.c\<close>), \<open>Supply\<close> (the contract of a supply of fresh numbers) and \<open>Symbols\<close>
    (\<^verbatim>\<open>symbol.c\<close>).
  \<^item> \<open>Lex\<close> (\<^verbatim>\<open>lex.c\<close>); \<open>LexFacts\<close> and \<open>LexPrint\<close> read back printed tokens; \<open>FrontProps\<close> has
    the properties of these parts.
  \<^item> \<open>Ast\<close>, \<open>Constant\<close>, \<open>Declarator\<close>, \<open>Expression\<close>, \<open>Statement\<close>, \<open>Resolve\<close>: \<^verbatim>\<open>parse.h\<close> and the
    files of \<^verbatim>\<open>parse/\<close>. \<open>Contracts\<close> and the \<open>Facts\<close> theories show what each routine consumes,
    returns and never does; \<open>Scopes\<close> is the meaning of names that resolution implements,
    \<open>ExprPrint\<close> the operator table of ISO C and the printer that the expression parser inverts;
    \<open>ParseProps\<close> has the properties.
  \<^item> \<open>SemaConst\<close>, \<open>SemaWalk\<close>, \<open>SemaTypes\<close>, \<open>SemaChecks\<close>, \<open>SemaLabels\<close>, \<open>Sema\<close>: \<^verbatim>\<open>sema.c\<close>, as
    constants, the traversal, the rewritings and types, the checks and conversions, labels,
    and symbols with the whole pass.
  \<^item> \<open>Ir\<close>, \<open>Typed\<close>, \<open>IrGen\<close>: \<^verbatim>\<open>ir.h\<close> and \<^verbatim>\<open>ir.c\<close>. \<open>IrTotal\<close> shows that the translation ends,
    \<open>IrLabels\<close> that its labels are unique; \<open>IrMachine\<close> executes three-address code, \<open>CMeaning\<close>
    is the meaning of the integer programs, and \<open>IrMeaning\<close>, \<open>IrSim\<close>, \<open>IrRun\<close> show that the
    code computes it; \<open>IrProps\<close> has the properties.
  \<^item> \<open>Asm\<close>, \<open>Frame\<close>, \<open>Fixup\<close>, \<open>Select\<close>: \<^verbatim>\<open>codegen.c\<close>. \<open>Machine\<close> executes instructions,
    \<open>Rewriting\<close> and \<open>FixupFacts\<close> show that the fixups keep what they do, \<open>Encoding\<close> has the rows
    of the instruction set and shows that the fixups leave no other, \<open>SelectFacts\<close> and
    \<open>SelectTotal\<close> show that selection ends, \<open>Convention\<close> the calling convention; \<open>BackProps\<close>,
    \<open>FixupProps\<close> and \<open>SelectProps\<close> have the properties.
  \<^item> \<open>Emit\<close> (\<^verbatim>\<open>emit.c\<close>), \<open>EmitFacts\<close>, \<open>EmitData\<close> and \<open>EmitProps\<close>; \<open>Backend\<close> and \<open>Compile\<close>
    compose the passes as \<^verbatim>\<open>main.c\<close> does.

  Not modelled: the debug output of the passes and the texts of error messages, which only
  print; \<^verbatim>\<open>sys/\<close> and \<^verbatim>\<open>coverage.c\<close>, which are the arena and instrumentation; the reading of
  the command line by \<^verbatim>\<open>getopt_long()\<close>, whose result is an argument of the driver; and the
  bounds of \<^verbatim>\<open>int128_t\<close> in the evaluation of \<^verbatim>\<open>case\<close>.
\<close>

end
